(* ===== verification/Prelude.thy ===== *)
theory Prelude
  imports Complex_Main "HOL-Library.Word" "HOL-Library.Multiset"
begin

text \<open>
  Shared vocabulary of the development: the model's basic types, the reading of the Go
  standard library that several components use, the collections of simplification rules,
  and generic lemmas on lists, maps and options.

  \<^item> \<open>usd\<close>: the code's \<^verbatim>\<open>float64\<close> amounts. Every finite \<^verbatim>\<open>float64\<close> is a rational number; the
    rounding of additions and multiplications, NaN and the infinities are not modelled.
  \<^item> \<open>time\<close> and \<open>duration\<close>: \<^verbatim>\<open>time.Time\<close> and \<^verbatim>\<open>time.Duration\<close> in nanoseconds. A reading of the
    clock (\<^verbatim>\<open>time.Now()\<close>) is an argument of the operation that reads it, so every theorem
    holds for whatever the clock returns.
  \<^item> \<open>uuid\<close>: \<^verbatim>\<open>uuid.UUID\<close>, sixteen bytes; the nil UUID is 0. A fresh identifier
    (\<^verbatim>\<open>uuid.New()\<close>, \<^verbatim>\<open>generateID\<close>) is an argument of the operation that draws it.
  \<^item> strings are lists of bytes; \<open>ToLower\<close> changes the ASCII letters.
  \<^item> a function that returns only an \<^verbatim>\<open>error\<close> has type \<open>'e option\<close> (\<open>None\<close> is nil); one that
    returns a value and an error has type \<open>'e + 'a\<close>.
\<close>

type_synonym usd = rat
type_synonym time = int
type_synonym duration = int
type_synonym uuid = "128 word"

text \<open>JSON values, the code's \<^verbatim>\<open>map[string]any\<close> parameters.\<close>

datatype any =
    ANil
  | ABool bool
  | ANum rat
  | AStr string
  | AArr "any list"
  | AObj "(string \<times> any) list"

type_synonym params = "(string \<times> any) list"

named_theorems security_defs \<open>definitions of the security checks\<close>
named_theorems pipeline_defs \<open>definitions of the tool execution pipeline\<close>
named_theorems store_defs \<open>definitions of the stores\<close>
named_theorems sched_defs \<open>definitions of the workflow scheduler\<close>

text \<open>Durations of the \<^verbatim>\<open>time\<close> package.\<close>

abbreviation (input) Second :: duration where "Second \<equiv> 1000000000"
abbreviation (input) Minute :: duration where "Minute \<equiv> 60 * Second"
abbreviation (input) Hour :: duration where "Hour \<equiv> 60 * Minute"

text \<open>\<^verbatim>\<open>strings.HasPrefix\<close>, \<^verbatim>\<open>strings.ToLower\<close> (ASCII) and \<^verbatim>\<open>strings.Contains\<close>.\<close>

fun HasPrefix :: "string \<Rightarrow> string \<Rightarrow> bool" where
  "HasPrefix s [] = True"
| "HasPrefix [] (p # ps) = False"
| "HasPrefix (c # s) (p # ps) = (c = p \<and> HasPrefix s ps)"

definition lower_char :: "char \<Rightarrow> char" where
  "lower_char c = (if of_char c \<ge> (65::nat) \<and> of_char c \<le> (90::nat) then char_of (of_char c + 32 :: nat) else c)"

definition ToLower :: "string \<Rightarrow> string" where
  "ToLower s = map lower_char s"

fun Contains :: "string \<Rightarrow> string \<Rightarrow> bool" where
  "Contains [] p = (p = [])"
| "Contains (c # s) p = (HasPrefix (c # s) p \<or> Contains s p)"

lemma HasPrefix_iff: "HasPrefix s p \<longleftrightarrow> (\<exists>t. s = p @ t)"
  by (induction s p rule: HasPrefix.induct) auto

lemma Contains_iff: "Contains s p \<longleftrightarrow> (\<exists>u v. s = u @ p @ v)"
proof (induction s p rule: Contains.induct)
  case (1 p)
  then show ?case by auto
next
  case (2 c s p)
  show ?case
  proof
    assume "Contains (c # s) p"
    then consider "HasPrefix (c # s) p" | "Contains s p" by auto
    then show "\<exists>u v. c # s = u @ p @ v"
    proof cases
      case 1
      then obtain v where "c # s = p @ v" by (auto simp: HasPrefix_iff)
      then have "c # s = [] @ p @ v" by simp
      then show ?thesis by blast
    next
      case 2
      then obtain u v where "s = u @ p @ v" using "2.IH" by auto
      then have "c # s = (c # u) @ p @ v" by simp
      then show ?thesis by blast
    qed
  next
    assume "\<exists>u v. c # s = u @ p @ v"
    then obtain u v where uv: "c # s = u @ p @ v" by blast
    show "Contains (c # s) p"
    proof (cases u)
      case Nil
      with uv have "HasPrefix (c # s) p" by (simp add: HasPrefix_iff)
      then show ?thesis by simp
    next
      case (Cons d u')
      with uv have "s = u' @ p @ v" by simp
      then show ?thesis using "2.IH" by auto
    qed
  qed
qed

lemma lower_char_idem [simp]: "lower_char (lower_char c) = lower_char c"
proof (cases "of_char c \<ge> (65::nat) \<and> of_char c \<le> (90::nat)")
  case True
  then have "of_char (char_of (of_char c + 32 :: nat)) = (of_char c + 32 :: nat)"
    by simp
  with True show ?thesis by (simp add: lower_char_def)
next
  case False
  then show ?thesis by (auto simp: lower_char_def)
qed

lemma ToLower_idem [simp]: "ToLower (ToLower s) = ToLower s"
  by (simp add: ToLower_def)

text \<open>Decimal notation, the verb \<^verbatim>\<open>%d\<close> of \<^verbatim>\<open>fmt\<close>.\<close>

definition digit_char :: "nat \<Rightarrow> char" where
  "digit_char d = char_of (48 + d)"

fun nat_str :: "nat \<Rightarrow> string" where
  "nat_str n = (if n < 10 then [digit_char n] else nat_str (n div 10) @ [digit_char (n mod 10)])"

declare nat_str.simps [simp del]

definition int_str :: "int \<Rightarrow> string" where
  "int_str i = (if i < 0 then ''-'' @ nat_str (nat (- i)) else nat_str (nat i))"

lemma nat_str_nonempty [simp]: "nat_str n \<noteq> []"
  by (induction n rule: nat_str.induct) (simp add: nat_str.simps)

end
