(* ===== verification/Security.thy ===== *)
theory Security
  imports Prelude
begin

text \<open>
  The security package without its ledgers: risk levels, actions, sentinel errors and audit
  events (\<^verbatim>\<open>security.go\<close>), role based access control in memory (\<^verbatim>\<open>rbac.go\<close>) and in front of a
  role store with a time-limited cache (\<^verbatim>\<open>pg_rbac.go\<close>), and the append-only audit log
  (\<^verbatim>\<open>audit.go\<close>). The interface \<^verbatim>\<open>rbacEnforcer\<close> of \<^verbatim>\<open>manager.go\<close> is the locale \<open>rbac_enforcer\<close>;
  both enforcers are instances of it. Log lines (\<^verbatim>\<open>slog\<close>) and locks are not modelled: every
  operation holds its mutex for its whole body.
\<close>

section \<open>Risk levels, actions and errors\<close>

datatype RiskLevel = RiskLow | RiskMedium | RiskHigh | RiskCritical

fun risk_rank :: "RiskLevel \<Rightarrow> nat" where
  "risk_rank RiskLow = 0"
| "risk_rank RiskMedium = 1"
| "risk_rank RiskHigh = 2"
| "risk_rank RiskCritical = 3"

text \<open>The Go type is an \<^verbatim>\<open>int\<close> numbered by \<^verbatim>\<open>iota\<close>; comparison is comparison of these numbers.\<close>

lemma risk_rank_inj: "risk_rank a = risk_rank b \<Longrightarrow> a = b"
  by (cases a; cases b) simp_all

instantiation RiskLevel :: linorder
begin

definition less_eq_RiskLevel :: "RiskLevel \<Rightarrow> RiskLevel \<Rightarrow> bool" where
  "less_eq_RiskLevel a b \<longleftrightarrow> risk_rank a \<le> risk_rank b"

definition less_RiskLevel :: "RiskLevel \<Rightarrow> RiskLevel \<Rightarrow> bool" where
  "less_RiskLevel a b \<longleftrightarrow> risk_rank a < risk_rank b"

instance
  by standard (auto simp: less_eq_RiskLevel_def less_RiskLevel_def intro: risk_rank_inj)

end

fun RiskLevel_String :: "RiskLevel \<Rightarrow> string" where
  "RiskLevel_String RiskLow = ''low''"
| "RiskLevel_String RiskMedium = ''medium''"
| "RiskLevel_String RiskHigh = ''high''"
| "RiskLevel_String RiskCritical = ''critical''"

definition ParseRiskLevel :: "string \<Rightarrow> RiskLevel" where
  "ParseRiskLevel s =
     (if s = ''low'' then RiskLow
      else if s = ''medium'' then RiskMedium
      else if s = ''high'' then RiskHigh
      else if s = ''critical'' then RiskCritical
      else RiskCritical)"

record Action =
  act_Name :: string
  act_RiskLevel :: RiskLevel

text \<open>
  Errors carry the values their messages print. The three sentinels of \<^verbatim>\<open>security.go\<close> are
  recognised by \<open>Is_ErrPermissionDenied\<close>, \<open>Is_ErrApprovalRequired\<close> and
  \<open>Is_ErrBudgetExceeded\<close>, as \<^verbatim>\<open>errors.Is\<close> does through \<^verbatim>\<open>%w\<close>.
\<close>

datatype deny_reason =
    NoAssignedRole string
  | ActionNotInRole string string
  | ExplicitlyDenied string string
  | NotInAllowList string string
  | MatchesDeniedPrefix string string string
  | MatchesNoAllowedPrefix string string
  | RiskExceedsPolicyCap RiskLevel string RiskLevel

datatype approval_reason =
    NoRoleForUser string
  | RiskExceedsRole string RiskLevel string RiskLevel
  | ExplicitApproval string string

datatype sec_error =
    ErrPermissionDenied deny_reason
  | ErrApprovalRequired approval_reason
  | ErrBudgetExceeded usd usd string
  | LoadingRBAC string
  | StorageError string

fun Is_ErrPermissionDenied :: "sec_error \<Rightarrow> bool" where
  "Is_ErrPermissionDenied (ErrPermissionDenied _) = True"
| "Is_ErrPermissionDenied _ = False"

fun Is_ErrApprovalRequired :: "sec_error \<Rightarrow> bool" where
  "Is_ErrApprovalRequired (ErrApprovalRequired _) = True"
| "Is_ErrApprovalRequired _ = False"

fun Is_ErrBudgetExceeded :: "sec_error \<Rightarrow> bool" where
  "Is_ErrBudgetExceeded (ErrBudgetExceeded _ _ _) = True"
| "Is_ErrBudgetExceeded _ = False"

section \<open>Audit log\<close>

record AuditEvent =
  ev_Timestamp :: time
  ev_CorrelationID :: string
  ev_UserID :: string
  ev_Action :: string
  ev_Tool :: string
  ev_Parameters :: params
  ev_Result :: string
  ev_TokensUsed :: int
  ev_CostUSD :: usd
  ev_ApprovedBy :: string
  ev_Error :: string

text \<open>
  The log file is the list of the events written to it; \<open>writable\<close> says whether the file
  accepts writes (it does not once closed, or when the disk is full).
\<close>

record AuditLogger =
  audit_events :: "AuditEvent list"
  audit_writable :: bool

definition AuditLogger_LogAction :: "AuditLogger \<Rightarrow> AuditEvent \<Rightarrow> string option \<times> AuditLogger" where
  "AuditLogger_LogAction a ev =
     (if audit_writable a then (None, a\<lparr>audit_events := audit_events a @ [ev]\<rparr>)
      else (Some ''writing audit event'', a))"

definition AuditLogger_Close :: "AuditLogger \<Rightarrow> AuditLogger" where
  "AuditLogger_Close a = a\<lparr>audit_writable := False\<rparr>"

section \<open>Role based access control\<close>

record Role =
  role_Name :: string
  role_Permissions :: "string list"
  role_MaxRiskLevel :: string
  role_RequireApproval :: "string list"

record RBACConfig =
  cfg_Roles :: "(string \<times> Role) list"
  cfg_UserRoles :: "(string \<times> string) list"
  cfg_DefaultRole :: string

record RBAC =
  rbac_roles :: "(string \<times> Role) list"
  rbac_userRoles :: "(string \<times> string) list"
  rbac_defaultRole :: string

definition NewRBAC :: "RBACConfig \<Rightarrow> RBAC" where
  "NewRBAC cfg = \<lparr>rbac_roles = cfg_Roles cfg, rbac_userRoles = cfg_UserRoles cfg,
                  rbac_defaultRole = cfg_DefaultRole cfg\<rparr>"

definition resolveRole :: "RBAC \<Rightarrow> string \<Rightarrow> Role option" where
  "resolveRole r userID =
     (let roleName = (case map_of (rbac_userRoles r) userID of
                        Some n \<Rightarrow> n | None \<Rightarrow> rbac_defaultRole r)
      in if roleName = '''' then None else map_of (rbac_roles r) roleName)"

fun list_has :: "string list \<Rightarrow> string \<Rightarrow> bool" where
  "list_has [] x = False"
| "list_has (p # ps) x = (if p = x then True else list_has ps x)"

definition roleHasPermission :: "Role \<Rightarrow> string \<Rightarrow> bool" where
  "roleHasPermission role actionName = list_has (role_Permissions role) actionName"

definition CheckPermission :: "RBAC \<Rightarrow> string \<Rightarrow> Action \<Rightarrow> sec_error option" where
  "CheckPermission r userID action =
     (case resolveRole r userID of
        None \<Rightarrow> Some (ErrPermissionDenied (NoAssignedRole userID))
      | Some role \<Rightarrow>
          if \<not> roleHasPermission role (act_Name action)
          then Some (ErrPermissionDenied (ActionNotInRole (role_Name role) (act_Name action)))
          else None)"

definition RequireApproval :: "RBAC \<Rightarrow> string \<Rightarrow> Action \<Rightarrow> sec_error option" where
  "RequireApproval r userID action =
     (case resolveRole r userID of
        None \<Rightarrow> Some (ErrApprovalRequired (NoRoleForUser userID))
      | Some role \<Rightarrow>
          let maxRisk = ParseRiskLevel (role_MaxRiskLevel role)
          in if act_RiskLevel action > maxRisk
             then Some (ErrApprovalRequired
                    (RiskExceedsRole (act_Name action) (act_RiskLevel action) (role_Name role) maxRisk))
             else if list_has (role_RequireApproval role) (act_Name action)
             then Some (ErrApprovalRequired (ExplicitApproval (act_Name action) (role_Name role)))
             else None)"

subsection \<open>The store-backed enforcer\<close>

text \<open>
  \<^verbatim>\<open>RoleStore\<close> is an interface: its value is the record of its methods over a database state.
  A failing method returns an error message.
\<close>

record 'db RoleStore =
  LoadRBACConfig :: "'db \<Rightarrow> string + RBACConfig"
  SaveRole :: "Role \<Rightarrow> 'db \<Rightarrow> string option \<times> 'db"
  AssignUserRole :: "string \<Rightarrow> string \<Rightarrow> 'db \<Rightarrow> string option \<times> 'db"

record PGRBAC =
  pg_fallbackCfg :: RBACConfig
  pg_cached :: "RBAC option"
  pg_loadedAt :: time
  pg_cacheTTL :: duration

definition NewPGRBAC :: "RBACConfig \<Rightarrow> PGRBAC" where
  "NewPGRBAC fb = \<lparr>pg_fallbackCfg = fb, pg_cached = None, pg_loadedAt = 0, pg_cacheTTL = 60 * Second\<rparr>"

fun save_roles :: "'db RoleStore \<Rightarrow> (string \<times> Role) list \<Rightarrow> 'db \<Rightarrow> string option \<times> 'db" where
  "save_roles st [] db = (None, db)"
| "save_roles st ((_, role) # rs) db =
     (case SaveRole st role db of
        (Some e, db') \<Rightarrow> (Some e, db')
      | (None, db') \<Rightarrow> save_roles st rs db')"

fun assign_users :: "'db RoleStore \<Rightarrow> (string \<times> string) list \<Rightarrow> 'db \<Rightarrow> string option \<times> 'db" where
  "assign_users st [] db = (None, db)"
| "assign_users st ((u, r) # us) db =
     (case AssignUserRole st u r db of
        (Some e, db') \<Rightarrow> (Some e, db')
      | (None, db') \<Rightarrow> assign_users st us db')"

definition bootstrap :: "'db RoleStore \<Rightarrow> RBACConfig \<Rightarrow> 'db \<Rightarrow> string option \<times> 'db" where
  "bootstrap st fb db =
     (case save_roles st (cfg_Roles fb) db of
        (Some e, db') \<Rightarrow> (Some e, db')
      | (None, db') \<Rightarrow> assign_users st (cfg_UserRoles fb) db')"

definition install_config :: "PGRBAC \<Rightarrow> RBACConfig \<Rightarrow> time \<Rightarrow> RBAC \<times> PGRBAC" where
  "install_config p cfg now =
     (let cfg' = (if cfg_DefaultRole cfg = ''''
                  then cfg\<lparr>cfg_DefaultRole := cfg_DefaultRole (pg_fallbackCfg p)\<rparr> else cfg);
          rbac = NewRBAC cfg'
      in (rbac, p\<lparr>pg_cached := Some rbac, pg_loadedAt := now\<rparr>))"

definition cache_fresh :: "PGRBAC \<Rightarrow> time \<Rightarrow> bool" where
  "cache_fresh p now \<longleftrightarrow> pg_cached p \<noteq> None \<and> now - pg_loadedAt p < pg_cacheTTL p"

definition load_config :: "'db RoleStore \<Rightarrow> RBACConfig \<Rightarrow> 'db \<Rightarrow> (string + RBACConfig) \<times> 'db" where
  "load_config st fb db =
     (case LoadRBACConfig st db of
        Inl e \<Rightarrow> (Inl e, db)
      | Inr cfg \<Rightarrow>
          if cfg_Roles cfg = [] \<and> cfg_Roles fb \<noteq> []
          then (case bootstrap st fb db of
                  (Some e, db') \<Rightarrow> (Inl e, db')
                | (None, db') \<Rightarrow> (LoadRBACConfig st db', db'))
          else (Inr cfg, db))"

definition ensureLoaded ::
  "'db RoleStore \<Rightarrow> time \<Rightarrow> PGRBAC \<Rightarrow> 'db \<Rightarrow> (string + RBAC) \<times> PGRBAC \<times> 'db" where
  "ensureLoaded st now p db =
     (if cache_fresh p now then (Inr (the (pg_cached p)), p, db)
      else case load_config st (pg_fallbackCfg p) db of
             (Inl e, db') \<Rightarrow> (Inl e, p, db')
           | (Inr cfg, db') \<Rightarrow>
               let (rbac, p') = install_config p cfg now in (Inr rbac, p', db'))"

definition PG_CheckPermission ::
  "'db RoleStore \<Rightarrow> time \<Rightarrow> PGRBAC \<times> 'db \<Rightarrow> string \<Rightarrow> Action \<Rightarrow> sec_error option \<times> PGRBAC \<times> 'db" where
  "PG_CheckPermission st now s userID action =
     (case ensureLoaded st now (fst s) (snd s) of
        (Inl e, s') \<Rightarrow> (Some (LoadingRBAC e), s')
      | (Inr rbac, s') \<Rightarrow> (CheckPermission rbac userID action, s'))"

definition PG_RequireApproval ::
  "'db RoleStore \<Rightarrow> time \<Rightarrow> PGRBAC \<times> 'db \<Rightarrow> string \<Rightarrow> Action \<Rightarrow> sec_error option \<times> PGRBAC \<times> 'db" where
  "PG_RequireApproval st now s userID action =
     (case ensureLoaded st now (fst s) (snd s) of
        (Inl e, s') \<Rightarrow> (Some (LoadingRBAC e), s')
      | (Inr rbac, s') \<Rightarrow> (RequireApproval rbac userID action, s'))"

lemmas [security_defs] = CheckPermission_def RequireApproval_def roleHasPermission_def
  PG_CheckPermission_def PG_RequireApproval_def

section \<open>The enforcer interface\<close>

text \<open>
  What \<^verbatim>\<open>rbacEnforcer\<close> promises its clients: a decision is taken on the role that \<open>role_of\<close>
  finds for the user; a permission is granted exactly when that role exists and lists the
  action; an action that may run without approval is within the role's risk cap and not on
  its approval list. Default deny is what follows from it.
\<close>

locale rbac_enforcer =
  fixes check :: "'s \<Rightarrow> string \<Rightarrow> Action \<Rightarrow> sec_error option"
    and approval :: "'s \<Rightarrow> string \<Rightarrow> Action \<Rightarrow> sec_error option"
    and role_of :: "'s \<Rightarrow> string \<Rightarrow> Role option"
  assumes check_iff: "check s u a = None \<longleftrightarrow>
      (\<exists>role. role_of s u = Some role \<and> act_Name a \<in> set (role_Permissions role))"
    and approval_iff: "approval s u a = None \<longleftrightarrow>
      (\<exists>role. role_of s u = Some role \<and>
         act_RiskLevel a \<le> ParseRiskLevel (role_MaxRiskLevel role) \<and>
         act_Name a \<notin> set (role_RequireApproval role))"
begin

lemma no_role_denied: "role_of s u = None \<Longrightarrow> check s u a \<noteq> None \<and> approval s u a \<noteq> None"
  by (simp add: check_iff approval_iff)

lemma unlisted_denied:
  "(\<And>role. role_of s u = Some role \<Longrightarrow> act_Name a \<notin> set (role_Permissions role)) \<Longrightarrow> check s u a \<noteq> None"
  by (auto simp: check_iff)

text \<open>An action that passes both checks unattended is listed, within the cap and not reserved.\<close>

lemma unattended:
  assumes "check s u a = None" and "approval s u a = None"
  obtains role where "role_of s u = Some role"
    and "act_Name a \<in> set (role_Permissions role)"
    and "act_RiskLevel a \<le> ParseRiskLevel (role_MaxRiskLevel role)"
    and "act_Name a \<notin> set (role_RequireApproval role)"
  using assms by (auto simp: check_iff approval_iff)

lemma risk_antimono:
  assumes "approval s u a = None" and "act_Name b = act_Name a" and "act_RiskLevel b \<le> act_RiskLevel a"
  shows "approval s u b = None"
  using assms by (fastforce simp: approval_iff)

end

lemma list_has_iff [simp]: "list_has xs x \<longleftrightarrow> x \<in> set xs"
  by (induction xs) auto

lemma CheckPermission_None_iff:
  "CheckPermission r u a = None \<longleftrightarrow>
     (\<exists>role. resolveRole r u = Some role \<and> act_Name a \<in> set (role_Permissions role))"
  by (auto simp: security_defs split: option.splits)

lemma RequireApproval_None_iff:
  "RequireApproval r u a = None \<longleftrightarrow>
     (\<exists>role. resolveRole r u = Some role \<and>
        act_RiskLevel a \<le> ParseRiskLevel (role_MaxRiskLevel role) \<and>
        act_Name a \<notin> set (role_RequireApproval role))"
  by (auto simp: security_defs Let_def not_less split: option.splits)

interpretation rbac: rbac_enforcer CheckPermission RequireApproval resolveRole
  by unfold_locales (simp_all add: CheckPermission_None_iff RequireApproval_None_iff)

text \<open>The role the store-backed enforcer decides on: none at all when the configuration cannot be loaded.\<close>

definition PG_resolveRole :: "'db RoleStore \<Rightarrow> time \<Rightarrow> PGRBAC \<times> 'db \<Rightarrow> string \<Rightarrow> Role option" where
  "PG_resolveRole st now s userID =
     (case ensureLoaded st now (fst s) (snd s) of
        (Inl e, _) \<Rightarrow> None
      | (Inr rbac, _) \<Rightarrow> resolveRole rbac userID)"

interpretation pg_rbac: rbac_enforcer
  "\<lambda>s u a. fst (PG_CheckPermission st now s u a)"
  "\<lambda>s u a. fst (PG_RequireApproval st now s u a)"
  "PG_resolveRole st now" for st now
  by unfold_locales
    (auto simp: PG_CheckPermission_def PG_RequireApproval_def PG_resolveRole_def
       CheckPermission_None_iff RequireApproval_None_iff split: prod.splits sum.splits)

section \<open>Properties\<close>

text \<open>
  Default deny: an action is permitted exactly when the user's own role, or the default
  role for a user without one, is named, defined, and lists the action by name.
\<close>

theorem rbac_default_deny:
  "CheckPermission r u a = None \<longleftrightarrow>
     (\<exists>role n. n = (case map_of (rbac_userRoles r) u of Some m \<Rightarrow> m | None \<Rightarrow> rbac_defaultRole r) \<and>
        n \<noteq> '''' \<and> map_of (rbac_roles r) n = Some role \<and> act_Name a \<in> set (role_Permissions role))"
  by (auto simp: rbac.check_iff resolveRole_def Let_def)

text \<open>
  An action runs without anybody's approval exactly when the user's role lists it, its risk is
  within the role's cap and it is not on the role's approval list.
\<close>

theorem rbac_unattended_iff:
  "CheckPermission r u a = None \<and> RequireApproval r u a = None \<longleftrightarrow>
     (\<exists>role. resolveRole r u = Some role \<and> act_Name a \<in> set (role_Permissions role) \<and>
        act_RiskLevel a \<le> ParseRiskLevel (role_MaxRiskLevel role) \<and>
        act_Name a \<notin> set (role_RequireApproval role))"
  by (auto simp: rbac.check_iff rbac.approval_iff)

lemma ParseRiskLevel_unknown:
  "s \<notin> {''low'', ''medium'', ''high''} \<Longrightarrow> ParseRiskLevel s = RiskCritical"
  by (simp add: ParseRiskLevel_def)

lemma risk_le_critical: "r \<le> RiskCritical"
  by (cases r) (simp_all add: less_eq_RiskLevel_def)

text \<open>
  A role whose risk cap is misspelt gets the cap \<^verbatim>\<open>critical\<close>: no action of any risk then needs
  approval, unless the role lists it by name.
\<close>

theorem misspelt_cap_lifts_approval:
  assumes "resolveRole r u = Some role"
    and "role_MaxRiskLevel role \<notin> {''low'', ''medium'', ''high''}"
    and "act_Name a \<notin> set (role_RequireApproval role)"
  shows "RequireApproval r u a = None"
  using assms by (simp add: rbac.approval_iff ParseRiskLevel_unknown risk_le_critical)

definition misspelt_rbac :: RBAC where
  "misspelt_rbac = NewRBAC \<lparr>cfg_Roles = [(''viewer'', \<lparr>role_Name = ''viewer'', role_Permissions = [''infra_exec''],
      role_MaxRiskLevel = ''Low'', role_RequireApproval = []\<rparr>)],
    cfg_UserRoles = [(''eve'', ''viewer'')], cfg_DefaultRole = ''''\<rparr>"

theorem misspelt_cap_lifts_approval_witness:
  "RequireApproval misspelt_rbac ''eve'' \<lparr>act_Name = ''infra_exec'', act_RiskLevel = RiskCritical\<rparr> = None"
  by (rule misspelt_cap_lifts_approval[where role = "\<lparr>role_Name = ''viewer'', role_Permissions = [''infra_exec''],
      role_MaxRiskLevel = ''Low'', role_RequireApproval = []\<rparr>"])
    (simp_all add: misspelt_rbac_def NewRBAC_def resolveRole_def)

lemma ensureLoaded_cached:
  assumes "ensureLoaded st now p db = (Inr rbac, p', db')" and "0 < pg_cacheTTL p"
  shows "pg_cached p' = Some rbac \<and> cache_fresh p' now"
  using assms
  by (auto simp: ensureLoaded_def install_config_def cache_fresh_def Let_def split: if_splits sum.splits prod.splits)

text \<open>
  The store-backed enforcer fails closed and its cache is never stale: a permission granted at
  time \<open>now\<close> is granted by the cached configuration, loaded less than the cache lifetime ago.
\<close>

theorem pg_rbac_fails_closed:
  assumes "PG_CheckPermission st now (p, db) u a = (None, p', db')" and "0 < pg_cacheTTL p"
  shows "\<exists>rbac. pg_cached p' = Some rbac \<and> CheckPermission rbac u a = None \<and>
    now - pg_loadedAt p' < pg_cacheTTL p'"
proof -
  obtain rbac where e: "ensureLoaded st now p db = (Inr rbac, p', db')" and c: "CheckPermission rbac u a = None"
    using assms(1) by (auto simp: PG_CheckPermission_def split: prod.splits sum.splits)
  from ensureLoaded_cached[OF e assms(2)] c show ?thesis by (simp add: cache_fresh_def)
qed

definition demo_store :: "RBACConfig RoleStore" where
  "demo_store = \<lparr>LoadRBACConfig = Inr, SaveRole = (\<lambda>r db. (None, db)), AssignUserRole = (\<lambda>u r db. (None, db))\<rparr>"

definition demo_cfg :: RBACConfig where
  "demo_cfg = \<lparr>cfg_Roles = [(''ops'', \<lparr>role_Name = ''ops'', role_Permissions = [''shell''],
      role_MaxRiskLevel = ''low'', role_RequireApproval = []\<rparr>)],
    cfg_UserRoles = [], cfg_DefaultRole = ''ops''\<rparr>"

lemma demo_check:
  "PG_CheckPermission demo_store 5 (NewPGRBAC demo_cfg, demo_cfg) ''bob'' \<lparr>act_Name = ''shell'', act_RiskLevel = RiskHigh\<rparr>
   = (None, (NewPGRBAC demo_cfg)\<lparr>pg_cached := Some (NewRBAC demo_cfg), pg_loadedAt := 5\<rparr>, demo_cfg)"
  by (simp add: PG_CheckPermission_def ensureLoaded_def cache_fresh_def NewPGRBAC_def load_config_def
      demo_store_def demo_cfg_def install_config_def NewRBAC_def CheckPermission_def resolveRole_def
      roleHasPermission_def Let_def)

theorem pg_rbac_fails_closed_witness:
  "\<exists>rbac. pg_cached ((NewPGRBAC demo_cfg)\<lparr>pg_cached := Some (NewRBAC demo_cfg), pg_loadedAt := 5\<rparr>) = Some rbac \<and>
     CheckPermission rbac ''bob'' \<lparr>act_Name = ''shell'', act_RiskLevel = RiskHigh\<rparr> = None \<and>
     5 - pg_loadedAt ((NewPGRBAC demo_cfg)\<lparr>pg_cached := Some (NewRBAC demo_cfg), pg_loadedAt := 5\<rparr>)
       < pg_cacheTTL ((NewPGRBAC demo_cfg)\<lparr>pg_cached := Some (NewRBAC demo_cfg), pg_loadedAt := 5\<rparr>)"
  by (rule pg_rbac_fails_closed[OF demo_check]) (simp add: NewPGRBAC_def)

end
