(* ===== verification/Policy.thy ===== *)
theory Policy
  imports Security
begin

text \<open>
  Capability policies (\<^verbatim>\<open>policy.go\<close>): \<^verbatim>\<open>PolicyEnforcer\<close> restricts what an agent may touch. The two
  list checks, \<open>checkAllowDeny\<close> (exact match) and \<open>checkPrefixAllowDeny\<close> (prefix match), are
  instances of the locale \<open>allow_deny\<close>, deny-first evaluation over an arbitrary match relation.
\<close>

record SecurityPolicy =
  policy_Name :: string
  AllowedTools :: "string list"
  DeniedTools :: "string list"
  AllowedPaths :: "string list"
  DeniedPaths :: "string list"
  AllowedDomains :: "string list"
  DeniedDomains :: "string list"
  AllowedCommands :: "string list"
  DeniedCommands :: "string list"
  policy_MaxRiskLevel :: string
  policy_RequireApproval :: "string list"
  AllowedSkills :: "string list"
  DeniedSkills :: "string list"

record PolicyEnforcer =
  pe_policies :: "string \<rightharpoonup> SecurityPolicy"
  pe_bindings :: "string \<rightharpoonup> string"

fun index_policies :: "(string \<rightharpoonup> SecurityPolicy) \<Rightarrow> SecurityPolicy list \<Rightarrow> (string \<rightharpoonup> SecurityPolicy)" where
  "index_policies pm [] = pm"
| "index_policies pm (p # ps) = index_policies (pm(policy_Name p \<mapsto> p)) ps"

definition NewPolicyEnforcer :: "SecurityPolicy list \<Rightarrow> (string \<rightharpoonup> string) \<Rightarrow> PolicyEnforcer" where
  "NewPolicyEnforcer policies bindings =
     \<lparr>pe_policies = index_policies Map.empty policies, pe_bindings = bindings\<rparr>"

definition ResolvePolicy :: "PolicyEnforcer \<Rightarrow> string \<Rightarrow> SecurityPolicy option" where
  "ResolvePolicy e agentID =
     (case pe_bindings e agentID of
        None \<Rightarrow> None
      | Some policyName \<Rightarrow> pe_policies e policyName)"

definition checkAllowDeny :: "string \<Rightarrow> string list \<Rightarrow> string list \<Rightarrow> string \<Rightarrow> sec_error option" where
  "checkAllowDeny value allowed denied label =
     (if list_has denied value then Some (ErrPermissionDenied (ExplicitlyDenied label value))
      else if length allowed > 0
      then (if list_has allowed value then None
            else Some (ErrPermissionDenied (NotInAllowList label value)))
      else None)"

fun first_prefix :: "string \<Rightarrow> string list \<Rightarrow> string option" where
  "first_prefix value [] = None"
| "first_prefix value (d # ds) = (if HasPrefix value d then Some d else first_prefix value ds)"

definition checkPrefixAllowDeny :: "string \<Rightarrow> string list \<Rightarrow> string list \<Rightarrow> string \<Rightarrow> sec_error option" where
  "checkPrefixAllowDeny value allowed denied label =
     (case first_prefix value denied of
        Some d \<Rightarrow> Some (ErrPermissionDenied (MatchesDeniedPrefix label value d))
      | None \<Rightarrow>
          if length allowed > 0
          then (case first_prefix value allowed of
                  Some _ \<Rightarrow> None
                | None \<Rightarrow> Some (ErrPermissionDenied (MatchesNoAllowedPrefix label value)))
          else None)"

definition toLower :: "string list \<Rightarrow> string list" where
  "toLower ss = map ToLower ss"

definition CheckToolAllowed :: "PolicyEnforcer \<Rightarrow> string \<Rightarrow> string \<Rightarrow> sec_error option" where
  "CheckToolAllowed e agentID toolName =
     (case ResolvePolicy e agentID of
        None \<Rightarrow> None
      | Some p \<Rightarrow> checkAllowDeny toolName (AllowedTools p) (DeniedTools p) ''tool'')"

definition CheckPathAllowed :: "PolicyEnforcer \<Rightarrow> string \<Rightarrow> string \<Rightarrow> sec_error option" where
  "CheckPathAllowed e agentID path =
     (case ResolvePolicy e agentID of
        None \<Rightarrow> None
      | Some p \<Rightarrow> checkPrefixAllowDeny path (AllowedPaths p) (DeniedPaths p) ''path'')"

definition CheckDomainAllowed :: "PolicyEnforcer \<Rightarrow> string \<Rightarrow> string \<Rightarrow> sec_error option" where
  "CheckDomainAllowed e agentID domain =
     (case ResolvePolicy e agentID of
        None \<Rightarrow> None
      | Some p \<Rightarrow> checkAllowDeny (ToLower domain) (toLower (AllowedDomains p)) (toLower (DeniedDomains p)) ''domain'')"

definition CheckCommandAllowed :: "PolicyEnforcer \<Rightarrow> string \<Rightarrow> string \<Rightarrow> sec_error option" where
  "CheckCommandAllowed e agentID command =
     (case ResolvePolicy e agentID of
        None \<Rightarrow> None
      | Some p \<Rightarrow> checkPrefixAllowDeny command (AllowedCommands p) (DeniedCommands p) ''command'')"

definition CheckSkillAllowed :: "PolicyEnforcer \<Rightarrow> string \<Rightarrow> string \<Rightarrow> sec_error option" where
  "CheckSkillAllowed e agentID skillKey =
     (case ResolvePolicy e agentID of
        None \<Rightarrow> None
      | Some p \<Rightarrow> checkAllowDeny skillKey (AllowedSkills p) (DeniedSkills p) ''skill'')"

definition CheckRiskLevel :: "PolicyEnforcer \<Rightarrow> string \<Rightarrow> RiskLevel \<Rightarrow> sec_error option" where
  "CheckRiskLevel e agentID riskLevel =
     (case ResolvePolicy e agentID of
        None \<Rightarrow> None
      | Some p \<Rightarrow>
          if policy_MaxRiskLevel p = '''' then None
          else let maxRisk = ParseRiskLevel (policy_MaxRiskLevel p)
               in if riskLevel > maxRisk
                  then Some (ErrPermissionDenied (RiskExceedsPolicyCap riskLevel (policy_Name p) maxRisk))
                  else None)"

definition RequiresApproval :: "PolicyEnforcer \<Rightarrow> string \<Rightarrow> string \<Rightarrow> bool" where
  "RequiresApproval e agentID toolName =
     (case ResolvePolicy e agentID of
        None \<Rightarrow> False
      | Some p \<Rightarrow> list_has (policy_RequireApproval p) toolName)"

lemmas [security_defs] = CheckToolAllowed_def CheckPathAllowed_def CheckDomainAllowed_def
  CheckCommandAllowed_def CheckSkillAllowed_def CheckRiskLevel_def RequiresApproval_def

section \<open>Deny-first evaluation\<close>

locale allow_deny =
  fixes matches :: "string \<Rightarrow> string \<Rightarrow> bool"
    and check :: "string \<Rightarrow> string list \<Rightarrow> string list \<Rightarrow> string \<Rightarrow> sec_error option"
  assumes check_None_iff: "check v allowed denied l = None \<longleftrightarrow>
      (\<forall>d \<in> set denied. \<not> matches v d) \<and> (allowed = [] \<or> (\<exists>a \<in> set allowed. matches v a))"
    and check_denied: "check v allowed denied l = Some e \<Longrightarrow> Is_ErrPermissionDenied e"
begin

lemma deny_wins: "d \<in> set denied \<Longrightarrow> matches v d \<Longrightarrow> check v allowed denied l \<noteq> None"
  by (auto simp: check_None_iff)

lemma outside_allow_list:
  "allowed \<noteq> [] \<Longrightarrow> (\<And>a. a \<in> set allowed \<Longrightarrow> \<not> matches v a) \<Longrightarrow> check v allowed denied l \<noteq> None"
  by (auto simp: check_None_iff)

lemma no_lists_allow_all: "check v [] [] l = None"
  by (simp add: check_None_iff)

text \<open>Longer deny lists only ever deny more.\<close>

lemma deny_antimono:
  "set denied \<subseteq> set denied' \<Longrightarrow> check v allowed denied' l = None \<Longrightarrow> check v allowed denied l = None"
  by (auto simp: check_None_iff)

end

lemma first_prefix_Some: "first_prefix v ds = Some d \<Longrightarrow> d \<in> set ds \<and> HasPrefix v d"
  by (induction ds) (auto split: if_splits)

lemma first_prefix_None: "first_prefix v ds = None \<longleftrightarrow> (\<forall>d \<in> set ds. \<not> HasPrefix v d)"
  by (induction ds) auto

interpretation exact: allow_deny "\<lambda>v a. a = v" checkAllowDeny
  by unfold_locales (auto simp: checkAllowDeny_def split: if_splits)

interpretation prefix: allow_deny HasPrefix checkPrefixAllowDeny
  by unfold_locales
    (auto simp: checkPrefixAllowDeny_def first_prefix_None split: option.splits if_splits
       dest: first_prefix_Some)

lemma checkAllowDeny_ToLower:
  "checkAllowDeny (ToLower v) (toLower (toLower as)) (toLower (toLower ds)) l =
   checkAllowDeny (ToLower v) (toLower as) (toLower ds) l"
  by (simp add: toLower_def o_def)

lemma index_policies_dom: "dom (index_policies pm ps) = dom pm \<union> policy_Name ` set ps"
  by (induction ps arbitrary: pm) auto

section \<open>Properties\<close>

text \<open>
  Deny first, with prefixes: whatever the allow lists say, a path or a command that starts with a
  denied prefix of the agent's policy is refused, and with an allow list present anything outside
  its prefixes is refused.
\<close>

theorem policy_prefix_deny_first:
  assumes "ResolvePolicy e agent = Some p"
  shows "(CheckPathAllowed e agent path = None \<longleftrightarrow>
      (\<forall>d \<in> set (DeniedPaths p). \<not> (\<exists>rest. path = d @ rest)) \<and>
      (AllowedPaths p = [] \<or> (\<exists>a \<in> set (AllowedPaths p). \<exists>rest. path = a @ rest))) \<and>
    (CheckCommandAllowed e agent cmd = None \<longleftrightarrow>
      (\<forall>d \<in> set (DeniedCommands p). \<not> (\<exists>rest. cmd = d @ rest)) \<and>
      (AllowedCommands p = [] \<or> (\<exists>a \<in> set (AllowedCommands p). \<exists>rest. cmd = a @ rest)))"
  using assms by (simp add: security_defs prefix.check_None_iff HasPrefix_iff)

definition demo_policy :: SecurityPolicy where
  "demo_policy = \<lparr>policy_Name = ''p'', AllowedTools = [], DeniedTools = [], AllowedPaths = [''/data''],
     DeniedPaths = [''/data/secret''], AllowedDomains = [], DeniedDomains = [], AllowedCommands = [],
     DeniedCommands = [''rm''], policy_MaxRiskLevel = '''', policy_RequireApproval = [], AllowedSkills = [], DeniedSkills = []\<rparr>"

definition demo_enforcer :: PolicyEnforcer where
  "demo_enforcer = NewPolicyEnforcer [demo_policy] [''agent'' \<mapsto> ''p'', ''stray'' \<mapsto> ''gone'']"

theorem policy_prefix_deny_first_witness:
  "CheckPathAllowed demo_enforcer ''agent'' ''/data/secret/key'' \<noteq> None \<and>
   CheckCommandAllowed demo_enforcer ''agent'' ''rm -rf'' \<noteq> None"
proof -
  have r: "ResolvePolicy demo_enforcer ''agent'' = Some demo_policy"
    by (simp add: ResolvePolicy_def demo_enforcer_def NewPolicyEnforcer_def demo_policy_def)
  show ?thesis
    using policy_prefix_deny_first[OF r, of "''/data/secret/key''" "''rm -rf''"]
    by (simp add: demo_policy_def)
qed

text \<open>
  A binding to a policy name that no policy carries switches every check off for that agent.
\<close>

theorem dangling_binding_unrestricted:
  assumes "pe_bindings e agent = Some n" and "pe_policies e n = None"
  shows "CheckToolAllowed e agent x = None \<and> CheckPathAllowed e agent x = None \<and>
    CheckDomainAllowed e agent x = None \<and> CheckCommandAllowed e agent x = None \<and>
    CheckSkillAllowed e agent x = None \<and> CheckRiskLevel e agent r = None \<and> \<not> RequiresApproval e agent x"
  using assms by (simp add: security_defs ResolvePolicy_def)

theorem dangling_binding_unrestricted_witness:
  "CheckToolAllowed demo_enforcer ''stray'' ''infra_exec'' = None"
  using dangling_binding_unrestricted[of demo_enforcer "''stray''" "''gone''" "''infra_exec''" RiskLow]
  by (simp add: demo_enforcer_def NewPolicyEnforcer_def demo_policy_def)

end
