(* ===== verification/Budget.thy ===== *)
theory Budget
  imports Security
begin

text \<open>
  Budget enforcement: the in-memory \<^verbatim>\<open>BudgetManager\<close> (\<^verbatim>\<open>budget.go\<close>), the SQL repository
  (\<^verbatim>\<open>storage/postgres/budget_repo.go\<close>) and the adapter \<^verbatim>\<open>PGBudgetManager\<close> (\<^verbatim>\<open>pg_budget.go\<close>).
  The interface \<^verbatim>\<open>budgetEnforcer\<close> is the locale \<open>budget_enforcer\<close>: reservations never exceed what
  remains. A release function is the value \<open>release_fn\<close> of what the Go closure captures; calling
  it is \<open>release\<close>.

  The database is the record of its three tables; a statement succeeds unless it violates a
  primary key. The identifiers \<^verbatim>\<open>uuid.New()\<close> yields are arguments.
\<close>

section \<open>In-memory budgets\<close>

record userBudget =
  ub_limit :: usd
  ub_spent :: usd
  ub_reserved :: usd

record BudgetManager =
  defaultLimitUSD :: usd
  bm_users :: "string \<rightharpoonup> userBudget"

record release_fn =
  rel_user :: string
  rel_cost :: usd
  rel_released :: bool

definition NewBudgetManager :: "usd \<Rightarrow> BudgetManager" where
  "NewBudgetManager defaultLimit = \<lparr>defaultLimitUSD = defaultLimit, bm_users = Map.empty\<rparr>"

definition getOrCreate :: "BudgetManager \<Rightarrow> string \<Rightarrow> userBudget \<times> BudgetManager" where
  "getOrCreate b userID =
     (case bm_users b userID of
        Some ub \<Rightarrow> (ub, b)
      | None \<Rightarrow> let ub = \<lparr>ub_limit = defaultLimitUSD b, ub_spent = 0, ub_reserved = 0\<rparr>
                in (ub, b\<lparr>bm_users := (bm_users b)(userID \<mapsto> ub)\<rparr>))"

definition ub_remaining :: "userBudget \<Rightarrow> usd" where
  "ub_remaining ub = ub_limit ub - ub_spent ub - ub_reserved ub"

definition put_user :: "BudgetManager \<Rightarrow> string \<Rightarrow> userBudget \<Rightarrow> BudgetManager" where
  "put_user b userID ub = b\<lparr>bm_users := (bm_users b)(userID \<mapsto> ub)\<rparr>"

definition CheckBudget :: "BudgetManager \<Rightarrow> string \<Rightarrow> usd \<Rightarrow> sec_error option \<times> BudgetManager" where
  "CheckBudget b userID estimatedCost =
     (let (ub, b') = getOrCreate b userID; remaining = ub_remaining ub
      in if estimatedCost > remaining
         then (Some (ErrBudgetExceeded estimatedCost remaining userID), b')
         else (None, b'))"

definition ReserveBudget ::
  "BudgetManager \<Rightarrow> string \<Rightarrow> usd \<Rightarrow> (sec_error + release_fn) \<times> BudgetManager" where
  "ReserveBudget b userID estimatedCost =
     (let (ub, b') = getOrCreate b userID; remaining = ub_remaining ub
      in if estimatedCost > remaining
         then (Inl (ErrBudgetExceeded estimatedCost remaining userID), b')
         else (Inr \<lparr>rel_user = userID, rel_cost = estimatedCost, rel_released = False\<rparr>,
               put_user b' userID (ub\<lparr>ub_reserved := ub_reserved ub + estimatedCost\<rparr>)))"

definition release :: "BudgetManager \<Rightarrow> release_fn \<Rightarrow> BudgetManager \<times> release_fn" where
  "release b r =
     (if \<not> rel_released r
      then (let (ub, b') = getOrCreate b (rel_user r)
            in (put_user b' (rel_user r) (ub\<lparr>ub_reserved := ub_reserved ub - rel_cost r\<rparr>),
                r\<lparr>rel_released := True\<rparr>))
      else (b, r))"

definition RecordCost :: "BudgetManager \<Rightarrow> string \<Rightarrow> usd \<Rightarrow> BudgetManager" where
  "RecordCost b userID actualCost =
     (let (ub, b') = getOrCreate b userID;
          ub1 = ub\<lparr>ub_spent := ub_spent ub + actualCost\<rparr>;
          ub2 = (if ub_reserved ub1 \<ge> actualCost
                 then ub1\<lparr>ub_reserved := ub_reserved ub1 - actualCost\<rparr>
                 else ub1\<lparr>ub_reserved := 0\<rparr>)
      in put_user b' userID ub2)"

definition Remaining :: "BudgetManager \<Rightarrow> string \<Rightarrow> usd \<times> BudgetManager" where
  "Remaining b userID = (let (ub, b') = getOrCreate b userID in (ub_remaining ub, b'))"

section \<open>Budgets in the database\<close>

record UserModel =
  usr_ID :: uuid
  usr_OrgID :: uuid
  usr_ExternalID :: string

record BudgetModel =
  bud_ID :: uuid
  bud_OrgID :: uuid
  bud_UserID :: uuid
  bud_LimitUSD :: usd
  bud_SpentUSD :: usd
  bud_PeriodStart :: time

record BudgetReservationModel =
  res_ID :: uuid
  res_OrgID :: uuid
  res_BudgetID :: uuid
  res_AmountUSD :: usd
  res_ReleasedAt :: "time option"

record budget_db =
  db_users :: "UserModel list"
  db_budgets :: "BudgetModel list"
  db_reservations :: "BudgetReservationModel list"

definition find_user :: "budget_db \<Rightarrow> uuid \<Rightarrow> string \<Rightarrow> uuid option" where
  "find_user db orgID externalID =
     map_option usr_ID (find (\<lambda>m. usr_OrgID m = orgID \<and> usr_ExternalID m = externalID) (db_users db))"

definition EnsureUser :: "uuid \<Rightarrow> budget_db \<Rightarrow> uuid \<Rightarrow> string \<Rightarrow> (sec_error + uuid) \<times> budget_db" where
  "EnsureUser newUser db orgID externalID =
     (case find_user db orgID externalID of
        Some uid \<Rightarrow> (Inr uid, db)
      | None \<Rightarrow>
          if newUser \<in> set (map usr_ID (db_users db)) then (Inl (StorageError ''creating user''), db)
          else (Inr newUser, db\<lparr>db_users := db_users db @
                 [\<lparr>usr_ID = newUser, usr_OrgID = orgID, usr_ExternalID = externalID\<rparr>]\<rparr>))"

definition today :: "time \<Rightarrow> time" where
  "today now = now - now mod (24 * Hour)"

definition find_budget :: "budget_db \<Rightarrow> uuid \<Rightarrow> uuid \<Rightarrow> time \<Rightarrow> BudgetModel option" where
  "find_budget db orgID userID day =
     find (\<lambda>b. bud_OrgID b = orgID \<and> bud_UserID b = userID \<and> bud_PeriodStart b = day) (db_budgets db)"

definition getOrCreateBudget ::
  "uuid \<Rightarrow> time \<Rightarrow> budget_db \<Rightarrow> uuid \<Rightarrow> uuid \<Rightarrow> usd \<Rightarrow> (sec_error + BudgetModel) \<times> budget_db" where
  "getOrCreateBudget newID now db orgID userID defaultLimit =
     (case find_budget db orgID userID (today now) of
        Some b \<Rightarrow> (Inr b, db)
      | None \<Rightarrow>
          if newID \<in> set (map bud_ID (db_budgets db)) then (Inl (StorageError ''creating budget''), db)
          else let b = \<lparr>bud_ID = newID, bud_OrgID = orgID, bud_UserID = userID,
                        bud_LimitUSD = defaultLimit, bud_SpentUSD = 0, bud_PeriodStart = today now\<rparr>
               in (Inr b, db\<lparr>db_budgets := db_budgets db @ [b]\<rparr>))"

definition activeReserved :: "budget_db \<Rightarrow> uuid \<Rightarrow> usd" where
  "activeReserved db budgetID =
     sum_list (map res_AmountUSD
       (filter (\<lambda>r. res_BudgetID r = budgetID \<and> res_ReleasedAt r = None) (db_reservations db)))"

definition Repo_CheckBudget ::
  "uuid \<Rightarrow> uuid \<Rightarrow> time \<Rightarrow> budget_db \<Rightarrow> uuid \<Rightarrow> string \<Rightarrow> usd \<Rightarrow> (sec_error + usd) \<times> budget_db" where
  "Repo_CheckBudget newUser newID now db orgID externalUserID defaultLimit =
     (case EnsureUser newUser db orgID externalUserID of
        (Inl e, db1) \<Rightarrow> (Inl e, db1)
      | (Inr userID, db1) \<Rightarrow>
          (case getOrCreateBudget newID now db1 orgID userID defaultLimit of
             (Inl e, db') \<Rightarrow> (Inl e, db')
           | (Inr b, db') \<Rightarrow> (Inr (bud_LimitUSD b - bud_SpentUSD b - activeReserved db' (bud_ID b)), db')))"

text \<open>
  The transaction of \<^verbatim>\<open>ReserveBudget\<close>: an error rolls every statement of it back. The user's
  row is ensured before it begins.
\<close>

definition reserve_tx ::
  "uuid \<Rightarrow> uuid \<Rightarrow> time \<Rightarrow> budget_db \<Rightarrow> uuid \<Rightarrow> uuid \<Rightarrow> string \<Rightarrow> usd \<Rightarrow> usd \<Rightarrow> (sec_error + uuid) \<times> budget_db" where
  "reserve_tx newID resID now db orgID userID externalUserID cost defaultLimit =
     (case getOrCreateBudget newID now db orgID userID defaultLimit of
        (Inl e, db') \<Rightarrow> (Inl e, db)
      | (Inr b, db') \<Rightarrow>
          let remaining = bud_LimitUSD b - bud_SpentUSD b - activeReserved db' (bud_ID b)
          in if cost > remaining then (Inl (ErrBudgetExceeded cost remaining externalUserID), db)
             else if resID \<in> set (map res_ID (db_reservations db'))
             then (Inl (StorageError ''creating reservation''), db)
             else (Inr resID, db'\<lparr>db_reservations := db_reservations db' @
                     [\<lparr>res_ID = resID, res_OrgID = orgID, res_BudgetID = bud_ID b,
                       res_AmountUSD = cost, res_ReleasedAt = None\<rparr>]\<rparr>))"

definition Repo_ReserveBudget ::
  "uuid \<Rightarrow> uuid \<Rightarrow> uuid \<Rightarrow> time \<Rightarrow> budget_db \<Rightarrow> uuid \<Rightarrow> string \<Rightarrow> usd \<Rightarrow> usd \<Rightarrow> (sec_error + uuid) \<times> budget_db" where
  "Repo_ReserveBudget newUser newID resID now db orgID externalUserID cost defaultLimit =
     (case EnsureUser newUser db orgID externalUserID of
        (Inl e, db1) \<Rightarrow> (Inl e, db1)
      | (Inr userID, db1) \<Rightarrow> reserve_tx newID resID now db1 orgID userID externalUserID cost defaultLimit)"

definition ReleaseReservation :: "time \<Rightarrow> budget_db \<Rightarrow> uuid \<Rightarrow> budget_db" where
  "ReleaseReservation now db resID =
     db\<lparr>db_reservations := map (\<lambda>r. if res_ID r = resID \<and> res_ReleasedAt r = None
                                      then r\<lparr>res_ReleasedAt := Some now\<rparr> else r) (db_reservations db)\<rparr>"

definition Repo_RecordCost :: "time \<Rightarrow> budget_db \<Rightarrow> uuid \<Rightarrow> usd \<Rightarrow> sec_error option \<times> budget_db" where
  "Repo_RecordCost now db resID actualCost =
     (case find (\<lambda>r. res_ID r = resID) (db_reservations db) of
        None \<Rightarrow> (Some (StorageError ''finding reservation''), db)
      | Some res \<Rightarrow>
          (None, db\<lparr>db_budgets := map (\<lambda>b. if bud_ID b = res_BudgetID res
                        then b\<lparr>bud_SpentUSD := bud_SpentUSD b + actualCost\<rparr> else b) (db_budgets db),
                    db_reservations := map (\<lambda>r. if res_ID r = resID
                        then r\<lparr>res_ReleasedAt := Some now\<rparr> else r) (db_reservations db)\<rparr>))"

record PGBudgetManager =
  pgb_db :: budget_db
  pgb_orgID :: uuid
  pgb_defaultLimit :: usd

definition PG_CheckBudget ::
  "uuid \<Rightarrow> uuid \<Rightarrow> time \<Rightarrow> PGBudgetManager \<Rightarrow> string \<Rightarrow> usd \<Rightarrow> sec_error option \<times> PGBudgetManager" where
  "PG_CheckBudget newUser newID now b userID estimatedCost =
     (case Repo_CheckBudget newUser newID now (pgb_db b) (pgb_orgID b) userID (pgb_defaultLimit b) of
        (Inl e, db') \<Rightarrow> (Some e, b\<lparr>pgb_db := db'\<rparr>)
      | (Inr remaining, db') \<Rightarrow>
          if estimatedCost > remaining
          then (Some (ErrBudgetExceeded estimatedCost remaining userID), b\<lparr>pgb_db := db'\<rparr>)
          else (None, b\<lparr>pgb_db := db'\<rparr>))"

definition PG_ReserveBudget ::
  "uuid \<Rightarrow> uuid \<Rightarrow> uuid \<Rightarrow> time \<Rightarrow> PGBudgetManager \<Rightarrow> string \<Rightarrow> usd \<Rightarrow> (sec_error + uuid \<times> bool) \<times> PGBudgetManager" where
  "PG_ReserveBudget newUser newID resID now b userID estimatedCost =
     (case Repo_ReserveBudget newUser newID resID now (pgb_db b) (pgb_orgID b) userID estimatedCost (pgb_defaultLimit b) of
        (Inl e, db') \<Rightarrow> (Inl e, b\<lparr>pgb_db := db'\<rparr>)
      | (Inr rid, db') \<Rightarrow> (Inr (rid, False), b\<lparr>pgb_db := db'\<rparr>))"

definition PG_release :: "time \<Rightarrow> PGBudgetManager \<Rightarrow> uuid \<times> bool \<Rightarrow> PGBudgetManager \<times> (uuid \<times> bool)" where
  "PG_release now b r =
     (if snd r then (b, r)
      else (b\<lparr>pgb_db := ReleaseReservation now (pgb_db b) (fst r)\<rparr>, (fst r, True)))"

text \<open>\<^verbatim>\<open>PGBudgetManager.RecordCost\<close> writes a log line and nothing else.\<close>

definition PG_RecordCost :: "PGBudgetManager \<Rightarrow> string \<Rightarrow> usd \<Rightarrow> PGBudgetManager" where
  "PG_RecordCost b userID actualCost = b"

section \<open>The enforcer interface\<close>

text \<open>
  What a caller of \<^verbatim>\<open>budgetEnforcer\<close> relies on: a granted reservation fits into what remains
  and takes exactly its cost from it; a refused one changes nothing; releasing a fresh
  reservation gives the cost back; other users never notice.
\<close>

fun reserve_all ::
  "('i \<Rightarrow> 's \<Rightarrow> string \<Rightarrow> usd \<Rightarrow> (sec_error + 'r) \<times> 's) \<Rightarrow> 's \<Rightarrow> ('i \<times> string \<times> usd) list \<Rightarrow> (string \<times> usd) list \<times> 's" where
  "reserve_all reserve s [] = ([], s)"
| "reserve_all reserve s ((i, u, c) # reqs) =
     (case reserve i s u c of
        (Inl e, s') \<Rightarrow> reserve_all reserve s' reqs
      | (Inr r, s') \<Rightarrow> (let (granted, s'') = reserve_all reserve s' reqs in ((u, c) # granted, s'')))"

definition granted_to :: "string \<Rightarrow> (string \<times> usd) list \<Rightarrow> usd" where
  "granted_to u g = sum_list (map snd (filter (\<lambda>p. fst p = u) g))"

lemma granted_to_simps [simp]:
  "granted_to u [] = 0"
  "granted_to u ((v, c) # g) = (if v = u then c else 0) + granted_to u g"
  by (simp_all add: granted_to_def)

locale budget_enforcer =
  fixes reserve :: "'i \<Rightarrow> 's \<Rightarrow> string \<Rightarrow> usd \<Rightarrow> (sec_error + 'r) \<times> 's"
    and give_back :: "'s \<Rightarrow> 'r \<Rightarrow> 's"
    and remaining :: "'s \<Rightarrow> string \<Rightarrow> usd"
    and invar :: "'s \<Rightarrow> bool"
  assumes reserve_granted: "invar s \<Longrightarrow> reserve i s u c = (Inr r, s') \<Longrightarrow>
      invar s' \<and> c \<le> remaining s u \<and> remaining s' = (remaining s)(u := remaining s u - c)"
    and reserve_refused: "invar s \<Longrightarrow> reserve i s u c = (Inl e, s') \<Longrightarrow>
      invar s' \<and> remaining s' = remaining s"
    and release_restores: "invar s \<Longrightarrow> reserve i s u c = (Inr r, s') \<Longrightarrow>
      remaining (give_back s' r) = remaining s"
begin

lemma overdraft_refused:
  "invar s \<Longrightarrow> remaining s u < c \<Longrightarrow> \<exists>e s'. reserve i s u c = (Inl e, s')"
  using reserve_granted[of s i u c] by (cases "reserve i s u c"; cases "fst (reserve i s u c)") force+

text \<open>Any number of overlapping reservations: what was granted is exactly what is gone.\<close>

lemma reserve_all_remaining:
  "invar s \<Longrightarrow> reserve_all reserve s reqs = (g, s') \<Longrightarrow>
     invar s' \<and> remaining s' u = remaining s u - granted_to u g \<and> (0 \<le> remaining s u \<longrightarrow> 0 \<le> remaining s' u)"
proof (induction reqs arbitrary: s g)
  case Nil
  then show ?case by simp
next
  case (Cons q reqs)
  obtain i v c where q: "q = (i, v, c)" by (cases q)
  obtain res s1 where r: "reserve i s v c = (res, s1)" by fastforce
  show ?case
  proof (cases res)
    case (Inl e)
    with Cons.prems q r have "reserve_all reserve s1 reqs = (g, s')" by simp
    moreover have "invar s1 \<and> remaining s1 = remaining s"
      using reserve_refused Cons.prems(1) r Inl by blast
    ultimately show ?thesis using Cons.IH[of s1 g] by auto
  next
    case (Inr t)
    with Cons.prems q r obtain g1 where g1: "reserve_all reserve s1 reqs = (g1, s')" and g: "g = (v, c) # g1"
      by (auto split: prod.splits)
    have s1: "invar s1" "c \<le> remaining s v" "remaining s1 = (remaining s)(v := remaining s v - c)"
      using reserve_granted Cons.prems(1) r Inr by blast+
    from Cons.IH[OF s1(1) g1] s1 g show ?thesis by auto
  qed
qed

end

section \<open>Both managers implement the interface\<close>

definition mem_remaining :: "BudgetManager \<Rightarrow> string \<Rightarrow> usd" where
  "mem_remaining b u = (case bm_users b u of None \<Rightarrow> defaultLimitUSD b | Some ub \<Rightarrow> ub_remaining ub)"

lemma mem_remaining_Remaining: "mem_remaining b u = fst (Remaining b u)"
  by (auto simp: mem_remaining_def Remaining_def getOrCreate_def ub_remaining_def Let_def split: option.splits)

lemmas mem_defs = ReserveBudget_def release_def RecordCost_def getOrCreate_def put_user_def ub_remaining_def

lemma mem_reserve_granted:
  "ReserveBudget b u c = (Inr r, b') \<Longrightarrow>
     c \<le> mem_remaining b u \<and> mem_remaining b' = (mem_remaining b)(u := mem_remaining b u - c)"
  by (auto simp: mem_defs mem_remaining_def Let_def fun_eq_iff split: option.splits if_splits)

lemma mem_reserve_refused:
  "ReserveBudget b u c = (Inl e, b') \<Longrightarrow> mem_remaining b' = mem_remaining b"
  by (auto simp: mem_defs mem_remaining_def Let_def fun_eq_iff split: option.splits if_splits)

lemma mem_release_restores:
  "ReserveBudget b u c = (Inr r, b') \<Longrightarrow> mem_remaining (fst (release b' r)) = mem_remaining b"
  by (auto simp: mem_defs mem_remaining_def Let_def fun_eq_iff split: option.splits if_splits)

interpretation mem_budget: budget_enforcer "\<lambda>_::unit. ReserveBudget" "\<lambda>b r. fst (release b r)" mem_remaining "\<lambda>_. True"
  by unfold_locales (use mem_reserve_granted mem_reserve_refused mem_release_restores in blast)+

text \<open>
  The invariant of the tables: primary keys are unique, every reservation refers to a budget
  row and every budget row to a user's.
\<close>

definition budget_db_ok :: "budget_db \<Rightarrow> bool" where
  "budget_db_ok db \<longleftrightarrow> distinct (map usr_ID (db_users db)) \<and>
     distinct (map bud_ID (db_budgets db)) \<and> distinct (map res_ID (db_reservations db)) \<and>
     res_BudgetID ` set (db_reservations db) \<subseteq> bud_ID ` set (db_budgets db) \<and>
     bud_UserID ` set (db_budgets db) \<subseteq> usr_ID ` set (db_users db)"

definition user_budget :: "time \<Rightarrow> budget_db \<Rightarrow> uuid \<Rightarrow> string \<Rightarrow> BudgetModel option" where
  "user_budget now db orgID u =
     (case find_user db orgID u of None \<Rightarrow> None | Some uid \<Rightarrow> find_budget db orgID uid (today now))"

definition pg_remaining :: "time \<Rightarrow> PGBudgetManager \<Rightarrow> string \<Rightarrow> usd" where
  "pg_remaining now b u =
     (case user_budget now (pgb_db b) (pgb_orgID b) u of
        None \<Rightarrow> pgb_defaultLimit b
      | Some m \<Rightarrow> bud_LimitUSD m - bud_SpentUSD m - activeReserved (pgb_db b) (bud_ID m))"

lemma find_budget_SomeD:
  "find_budget db orgID uid day = Some m \<Longrightarrow> m \<in> set (db_budgets db) \<and> bud_UserID m = uid"
  by (auto simp: find_budget_def find_Some_iff)

lemma find_user_SomeD:
  "find_user db orgID u = Some uid \<Longrightarrow> \<exists>m \<in> set (db_users db). usr_ID m = uid \<and> usr_ExternalID m = u"
  by (auto simp: find_user_def find_Some_iff)

lemma find_user_inj:
  "budget_db_ok db \<Longrightarrow> find_user db orgID u = Some uid \<Longrightarrow> find_user db orgID v = Some uid \<Longrightarrow> u = v"
  by (auto dest!: find_user_SomeD simp: budget_db_ok_def distinct_map inj_on_def)

lemma activeReserved_append:
  "activeReserved (db\<lparr>db_reservations := db_reservations db @ [r]\<rparr>) bid =
     activeReserved db bid + (if res_BudgetID r = bid \<and> res_ReleasedAt r = None then res_AmountUSD r else 0)"
  by (simp add: activeReserved_def)

lemma activeReserved_fresh:
  "bid \<notin> res_BudgetID ` set (db_reservations db) \<Longrightarrow> activeReserved db bid = 0"
proof -
  assume "bid \<notin> res_BudgetID ` set (db_reservations db)"
  then have "filter (\<lambda>r. res_BudgetID r = bid \<and> res_ReleasedAt r = None) (db_reservations db) = []"
    by (auto simp: filter_empty_conv)
  then show ?thesis by (simp only: activeReserved_def) simp
qed

lemma find_append_none: "find P xs = None \<Longrightarrow> find P (xs @ [y]) = (if P y then Some y else None)"
  by (induction xs) (auto split: if_splits)

lemma find_append_other: "\<not> P y \<Longrightarrow> find P (xs @ [y]) = find P xs"
  by (induction xs) auto

text \<open>Ensuring a user's row, or creating his budget on demand, changes nobody's remaining budget.\<close>

lemma EnsureUser_ok:
  assumes ok: "budget_db_ok (pgb_db b)"
    and g: "EnsureUser newUser (pgb_db b) (pgb_orgID b) u = (Inr uid, db')"
  shows "budget_db_ok db' \<and> find_user db' (pgb_orgID b) u = Some uid \<and>
    pg_remaining now (b\<lparr>pgb_db := db'\<rparr>) = pg_remaining now b"
proof (cases "find_user (pgb_db b) (pgb_orgID b) u")
  case (Some uid')
  with g have "db' = pgb_db b" "uid' = uid" by (simp_all add: EnsureUser_def)
  with Some ok show ?thesis by simp
next
  case None
  let ?db = "pgb_db b"
  let ?m = "\<lparr>usr_ID = newUser, usr_OrgID = pgb_orgID b, usr_ExternalID = u\<rparr>"
  from None g have new: "newUser \<notin> set (map usr_ID (db_users ?db))" and uid: "uid = newUser"
    and db': "db' = ?db\<lparr>db_users := db_users ?db @ [?m]\<rparr>"
    by (auto simp: EnsureUser_def split: if_splits)
  have "newUser \<notin> bud_UserID ` set (db_budgets ?db)" using ok new by (auto simp: budget_db_ok_def)
  then have nob: "find_budget db' (pgb_orgID b) newUser (today now) = None"
    by (auto simp: find_budget_def find_None_iff db')
  have fu: "find_user db' (pgb_orgID b) u = Some newUser"
    using None by (simp add: find_user_def db' find_append_none)
  have fv: "find_user db' (pgb_orgID b) v = find_user ?db (pgb_orgID b) v" if "v \<noteq> u" for v
    using that by (simp add: find_user_def db' find_append_other)
  have same: "find_budget db' o' i t = find_budget ?db o' i t" "activeReserved db' i = activeReserved ?db i" for o' i t
    by (simp_all add: find_budget_def activeReserved_def db')
  have "pg_remaining now (b\<lparr>pgb_db := db'\<rparr>) v = pg_remaining now b v" for v
    using fu fv[of v] None nob
    by (cases "v = u") (simp_all add: pg_remaining_def user_budget_def same split: option.split)
  moreover have "budget_db_ok db'" using ok new by (auto simp: budget_db_ok_def db')
  ultimately show ?thesis using fu uid by auto
qed

lemma EnsureUser_error: "EnsureUser newUser db orgID u = (Inl e, db') \<Longrightarrow> db' = db"
  by (auto simp: EnsureUser_def split: option.splits if_splits)

lemma getOrCreateBudget_ok:
  assumes ok: "budget_db_ok (pgb_db b)" and uid: "find_user (pgb_db b) (pgb_orgID b) u = Some uid"
    and g: "getOrCreateBudget newID now (pgb_db b) (pgb_orgID b) uid (pgb_defaultLimit b) = (Inr m, db')"
  shows "budget_db_ok db' \<and> user_budget now db' (pgb_orgID b) u = Some m \<and>
    pg_remaining now (b\<lparr>pgb_db := db'\<rparr>) = pg_remaining now b"
proof (cases "find_budget (pgb_db b) (pgb_orgID b) uid (today now)")
  case (Some m')
  with g have "db' = pgb_db b" "m' = m" by (simp_all add: getOrCreateBudget_def)
  with Some ok uid show ?thesis by (simp add: user_budget_def)
next
  case None
  let ?db = "pgb_db b"
  let ?m = "\<lparr>bud_ID = newID, bud_OrgID = pgb_orgID b, bud_UserID = uid,
             bud_LimitUSD = pgb_defaultLimit b, bud_SpentUSD = 0, bud_PeriodStart = today now\<rparr>"
  from None g have new: "newID \<notin> set (map bud_ID (db_budgets ?db))" and m: "m = ?m"
    and db': "db' = ?db\<lparr>db_budgets := db_budgets ?db @ [?m]\<rparr>"
    by (auto simp: getOrCreateBudget_def Let_def split: if_splits)
  from new ok have nores: "newID \<notin> res_BudgetID ` set (db_reservations ?db)"
    by (auto simp: budget_db_ok_def)
  have same: "activeReserved db' bid = activeReserved ?db bid" "find_user db' o' v = find_user ?db o' v" for bid o' v
    by (simp_all add: db' activeReserved_def find_user_def)
  have fu: "user_budget now db' (pgb_orgID b) u = Some ?m"
  proof -
    have "find_budget db' (pgb_orgID b) uid (today now) = Some ?m"
      using None by (simp add: find_budget_def db' find_append_none)
    with uid show ?thesis by (simp add: user_budget_def same)
  qed
  have fv: "user_budget now db' (pgb_orgID b) v = user_budget now ?db (pgb_orgID b) v" if "v \<noteq> u" for v
  proof -
    have "find_budget db' (pgb_orgID b) x (today now) = find_budget ?db (pgb_orgID b) x (today now)" if "x \<noteq> uid" for x
      using that by (simp add: find_budget_def db' find_append_other)
    moreover have "find_user ?db (pgb_orgID b) v \<noteq> Some uid"
      using that find_user_inj[OF ok uid, of v] by blast
    ultimately show ?thesis
      by (cases "find_user ?db (pgb_orgID b) v") (simp_all add: user_budget_def same)
  qed
  have "pg_remaining now (b\<lparr>pgb_db := db'\<rparr>) v = pg_remaining now b v" for v
    using fu fv[of v] None uid activeReserved_fresh[OF nores]
    by (cases "v = u") (simp_all add: pg_remaining_def same user_budget_def split: option.split)
  moreover have "budget_db_ok db'" using ok new uid find_user_SomeD[OF uid] by (auto simp: budget_db_ok_def db')
  ultimately show ?thesis using fu m by auto
qed

lemma user_budget_inj:
  assumes ok: "budget_db_ok db" and "user_budget now db orgID u = Some m" "user_budget now db orgID v = Some m'"
    and "bud_ID m' = bud_ID m"
  shows "v = u"
proof -
  from assms(2,3) obtain x y where xy: "find_user db orgID u = Some x" "find_user db orgID v = Some y"
    and "m \<in> set (db_budgets db)" "bud_UserID m = x" "m' \<in> set (db_budgets db)" "bud_UserID m' = y"
    by (auto simp: user_budget_def dest: find_budget_SomeD split: option.splits)
  moreover from this assms(4) ok have "m' = m" by (auto simp: budget_db_ok_def distinct_map inj_on_def)
  ultimately show ?thesis using find_user_inj[OF ok] by metis
qed

lemma pg_remaining_insert:
  assumes ok: "budget_db_ok (pgb_db b)"
    and m: "user_budget now (pgb_db b) (pgb_orgID b) u = Some m"
    and r: "res_BudgetID r = bud_ID m" "res_ReleasedAt r = None"
  shows "pg_remaining now (b\<lparr>pgb_db := (pgb_db b)\<lparr>db_reservations := db_reservations (pgb_db b) @ [r]\<rparr>\<rparr>) =
    (pg_remaining now b)(u := pg_remaining now b u - res_AmountUSD r)"
proof
  fix v
  let ?db = "pgb_db b"
  have other: "bud_ID m' \<noteq> bud_ID m" if "v \<noteq> u" "user_budget now ?db (pgb_orgID b) v = Some m'" for m'
    using user_budget_inj[OF ok m that(2)] that(1) by blast
  have fb: "user_budget now (?db\<lparr>db_reservations := db_reservations ?db @ [r]\<rparr>) o' w = user_budget now ?db o' w" for o' w
    by (simp add: user_budget_def find_user_def find_budget_def split: option.split)
  show "pg_remaining now (b\<lparr>pgb_db := ?db\<lparr>db_reservations := db_reservations ?db @ [r]\<rparr>\<rparr>) v =
    ((pg_remaining now b)(u := pg_remaining now b u - res_AmountUSD r)) v"
    using m r other
    by (cases "v = u") (auto simp: pg_remaining_def fb activeReserved_append split: option.split)
qed

lemma ReleaseReservation_last:
  assumes "resID \<notin> set (map res_ID rs)" and "res_ID r = resID" and "res_ReleasedAt r = None"
    and "db_reservations db = rs @ [r]"
  shows "activeReserved (ReleaseReservation now db resID) bid =
    activeReserved (db\<lparr>db_reservations := rs\<rparr>) bid"
proof -
  have "map (\<lambda>r. if res_ID r = resID \<and> res_ReleasedAt r = None then r\<lparr>res_ReleasedAt := Some now\<rparr> else r) rs = rs"
    using assms(1) by (intro map_idI) auto
  with assms show ?thesis by (simp add: activeReserved_def ReleaseReservation_def)
qed

lemma reserve_tx_granted:
  assumes ok: "budget_db_ok (pgb_db b)" and uid: "find_user (pgb_db b) (pgb_orgID b) u = Some uid"
    and g: "reserve_tx newID resID now (pgb_db b) (pgb_orgID b) uid u c (pgb_defaultLimit b) = (Inr rid, db')"
  shows "budget_db_ok db' \<and> rid = resID \<and> c \<le> pg_remaining now b u \<and>
    pg_remaining now (b\<lparr>pgb_db := db'\<rparr>) = (pg_remaining now b)(u := pg_remaining now b u - c) \<and>
    pg_remaining now (b\<lparr>pgb_db := ReleaseReservation now db' resID\<rparr>) = pg_remaining now b"
proof -
  obtain m db1 where get: "getOrCreateBudget newID now (pgb_db b) (pgb_orgID b) uid (pgb_defaultLimit b) = (Inr m, db1)"
    using g by (auto simp: reserve_tx_def split: prod.splits sum.splits)
  let ?r = "\<lparr>res_ID = resID, res_OrgID = pgb_orgID b, res_BudgetID = bud_ID m, res_AmountUSD = c, res_ReleasedAt = None\<rparr>"
  let ?b1 = "b\<lparr>pgb_db := db1\<rparr>"
  have one: "budget_db_ok (pgb_db ?b1)" "user_budget now (pgb_db ?b1) (pgb_orgID ?b1) u = Some m"
      "pg_remaining now ?b1 = pg_remaining now b"
    using getOrCreateBudget_ok[OF ok uid get] by simp_all
  from g get have fresh: "resID \<notin> set (map res_ID (db_reservations db1))"
    and le: "c \<le> bud_LimitUSD m - bud_SpentUSD m - activeReserved db1 (bud_ID m)"
    and rid: "rid = resID"
    and db': "db' = db1\<lparr>db_reservations := db_reservations db1 @ [?r]\<rparr>"
    by (auto simp: reserve_tx_def Let_def split: if_splits)
  have "pg_remaining now (b\<lparr>pgb_db := db'\<rparr>) = (pg_remaining now b)(u := pg_remaining now b u - c)"
    using pg_remaining_insert[OF one(1,2), of ?r] one(3) by (simp add: db')
  moreover have "c \<le> pg_remaining now b u" using le one by (simp add: pg_remaining_def flip: one(3))
  moreover have "m \<in> set (db_budgets db1)"
    using one(2) by (auto simp: user_budget_def dest: find_budget_SomeD split: option.splits)
  then have "budget_db_ok db'" using one(1) fresh by (auto simp: db' budget_db_ok_def)
  moreover have "pg_remaining now (b\<lparr>pgb_db := ReleaseReservation now db' resID\<rparr>) = pg_remaining now ?b1"
  proof -
    have "activeReserved (ReleaseReservation now db' resID) bid = activeReserved db1 bid" for bid
      using ReleaseReservation_last[OF fresh, of ?r db' now bid] by (simp add: db')
    then show ?thesis
      by (simp add: fun_eq_iff pg_remaining_def)
        (simp add: db' user_budget_def find_user_def find_budget_def ReleaseReservation_def split: option.split)
  qed
  ultimately show ?thesis using one(3) rid by simp
qed

lemma pg_reserve_granted:
  assumes ok: "budget_db_ok (pgb_db b)" and g: "PG_ReserveBudget newUser newID resID now b u c = (Inr r, b')"
  shows "budget_db_ok (pgb_db b') \<and> c \<le> pg_remaining now b u \<and>
    pg_remaining now b' = (pg_remaining now b)(u := pg_remaining now b u - c) \<and>
    pg_remaining now (fst (PG_release now b' r)) = pg_remaining now b"
proof -
  obtain uid db1 where e: "EnsureUser newUser (pgb_db b) (pgb_orgID b) u = (Inr uid, db1)"
    using g by (auto simp: PG_ReserveBudget_def Repo_ReserveBudget_def split: prod.splits sum.splits)
  let ?b1 = "b\<lparr>pgb_db := db1\<rparr>"
  have one: "budget_db_ok (pgb_db ?b1)" "find_user (pgb_db ?b1) (pgb_orgID ?b1) u = Some uid"
      "pg_remaining now ?b1 = pg_remaining now b"
    using EnsureUser_ok[OF ok e] by simp_all
  obtain rid db2 where tx: "reserve_tx newID resID now (pgb_db ?b1) (pgb_orgID ?b1) uid u c (pgb_defaultLimit ?b1) = (Inr rid, db2)"
    and r: "r = (rid, False)" and b': "b' = b\<lparr>pgb_db := db2\<rparr>"
    using g e by (auto simp: PG_ReserveBudget_def Repo_ReserveBudget_def split: prod.splits sum.splits)
  from reserve_tx_granted[OF one(1,2) tx] one(3) show ?thesis
    by (simp add: b' r PG_release_def)
qed

lemma pg_reserve_refused:
  assumes ok: "budget_db_ok (pgb_db b)" and g: "PG_ReserveBudget newUser newID resID now b u c = (Inl e, b')"
  shows "budget_db_ok (pgb_db b') \<and> pg_remaining now b' = pg_remaining now b"
proof (cases "EnsureUser newUser (pgb_db b) (pgb_orgID b) u")
  case (Pair x db1)
  show ?thesis
  proof (cases x)
    case (Inl e')
    with g Pair have "b' = b"
      by (auto simp: PG_ReserveBudget_def Repo_ReserveBudget_def dest: EnsureUser_error)
    with ok show ?thesis by simp
  next
    case (Inr uid)
    with g Pair have "b' = b\<lparr>pgb_db := db1\<rparr>"
      by (auto simp: PG_ReserveBudget_def Repo_ReserveBudget_def reserve_tx_def Let_def
            split: prod.splits sum.splits if_splits)
    with EnsureUser_ok[OF ok Pair[unfolded Inr], of now] show ?thesis by simp
  qed
qed

interpretation pg_budget: budget_enforcer
  "\<lambda>(newUser, newID, resID). PG_ReserveBudget newUser newID resID now" "\<lambda>b r. fst (PG_release now b r)" "pg_remaining now"
  "\<lambda>b. budget_db_ok (pgb_db b)" for now
  by unfold_locales (auto dest: pg_reserve_refused[where now = now] pg_reserve_granted)


section \<open>The reservation protocol\<close>

text \<open>
  The in-memory ledger used as its comments say: a granted reservation is later either
  released (the execution was abandoned) or replaced by the cost recorded for it, never both.
  The second component of the state is the multiset of the reservations still open.
\<close>

inductive budget_reach :: "usd \<Rightarrow> BudgetManager \<Rightarrow> (string \<times> usd) multiset \<Rightarrow> bool" for dl where
  init: "0 \<le> dl \<Longrightarrow> budget_reach dl (NewBudgetManager dl) {#}"
| granted: "budget_reach dl b M \<Longrightarrow> 0 \<le> c \<Longrightarrow> ReserveBudget b u c = (Inr r, b') \<Longrightarrow>
    budget_reach dl b' (add_mset (u, c) M)"
| refused: "budget_reach dl b M \<Longrightarrow> ReserveBudget b u c = (Inl e, b') \<Longrightarrow> budget_reach dl b' M"
| released: "budget_reach dl b (add_mset (u, c) M) \<Longrightarrow>
    budget_reach dl (fst (release b \<lparr>rel_user = u, rel_cost = c, rel_released = False\<rparr>)) M"
| recorded: "budget_reach dl b (add_mset (u, c) M) \<Longrightarrow> budget_reach dl (RecordCost b u c) M"

definition open_sum :: "string \<Rightarrow> (string \<times> usd) multiset \<Rightarrow> usd" where
  "open_sum u M = (\<Sum>p\<in>#M. if fst p = u then snd p else 0)"

lemma open_sum_simps [simp]:
  "open_sum u {#} = 0"
  "open_sum u (add_mset (v, c) M) = (if v = u then c else 0) + open_sum u M"
  by (simp_all add: open_sum_def)

fun user_ok :: "usd \<Rightarrow> usd \<Rightarrow> userBudget option \<Rightarrow> bool" where
  "user_ok dl s None \<longleftrightarrow> s = 0"
| "user_ok dl s (Some ub) \<longleftrightarrow> ub_limit ub = dl \<and> ub_reserved ub = s \<and> ub_spent ub + ub_reserved ub \<le> dl"

definition ledger_ok :: "usd \<Rightarrow> BudgetManager \<Rightarrow> (string \<times> usd) multiset \<Rightarrow> bool" where
  "ledger_ok dl b M \<longleftrightarrow> 0 \<le> dl \<and> defaultLimitUSD b = dl \<and> (\<forall>p \<in># M. 0 \<le> snd p) \<and>
     (\<forall>u. user_ok dl (open_sum u M) (bm_users b u))"

lemma ledger_user_ok: "ledger_ok dl b M \<Longrightarrow> user_ok dl (open_sum u M) (bm_users b u)"
  by (simp add: ledger_ok_def)

lemma open_sum_nonneg: "\<forall>p \<in># M. 0 \<le> snd p \<Longrightarrow> 0 \<le> open_sum u M"
  by (induction M) auto

lemma ledger_okI:
  assumes "ledger_ok dl b M" and "bm_users b' = (bm_users b)(u \<mapsto> ub)" and "defaultLimitUSD b' = defaultLimitUSD b"
    and "\<And>v. v \<noteq> u \<Longrightarrow> open_sum v M' = open_sum v M" and "\<forall>p \<in># M'. 0 \<le> snd p"
    and "ub_limit ub = dl" "ub_reserved ub = open_sum u M'" "ub_spent ub + ub_reserved ub \<le> dl"
  shows "ledger_ok dl b' M'"
  using assms by (simp add: ledger_ok_def)

lemma getOrCreate_ledger:
  assumes l: "ledger_ok dl b M" and g: "getOrCreate b u = (ub, b1)"
  shows "ledger_ok dl b1 M \<and> ub_limit ub = dl \<and> ub_reserved ub = open_sum u M \<and> ub_spent ub + ub_reserved ub \<le> dl"
proof (cases "bm_users b u")
  case None
  with ledger_user_ok[OF l, of u] have z: "open_sum u M = 0" by simp
  from None g l have n: "0 \<le> dl" "ub = \<lparr>ub_limit = dl, ub_spent = 0, ub_reserved = 0\<rparr>"
    "b1 = b\<lparr>bm_users := (bm_users b)(u \<mapsto> ub)\<rparr>" "\<forall>p \<in># M. 0 \<le> snd p"
    by (auto simp: getOrCreate_def ledger_ok_def Let_def)
  have "ledger_ok dl b1 M" by (rule ledger_okI[OF l, of _ u ub]) (use n z in simp_all)
  with n z show ?thesis by simp
next
  case (Some ub')
  with g have "ub = ub'" "b1 = b" by (simp_all add: getOrCreate_def)
  with ledger_user_ok[OF l, of u] Some l show ?thesis by simp
qed

lemma budget_reach_ledger_ok: "budget_reach dl b M \<Longrightarrow> ledger_ok dl b M"
proof (induction rule: budget_reach.induct)
  case init
  then show ?case by (simp add: ledger_ok_def NewBudgetManager_def)
next
  case (granted b M c u r b')
  obtain ub b1 where g: "getOrCreate b u = (ub, b1)" by fastforce
  note l = getOrCreate_ledger[OF granted.IH g]
  from granted.hyps g have b': "b' = put_user b1 u (ub\<lparr>ub_reserved := ub_reserved ub + c\<rparr>)" "c \<le> ub_remaining ub"
    by (auto simp: ReserveBudget_def Let_def split: if_splits)
  show ?case
    by (rule ledger_okI[of dl b1 M _ u "ub\<lparr>ub_reserved := ub_reserved ub + c\<rparr>"])
      (use l b' granted.hyps in \<open>auto simp: put_user_def ub_remaining_def ledger_ok_def\<close>)
next
  case (refused b M u c e b')
  obtain ub b1 where g: "getOrCreate b u = (ub, b1)" by fastforce
  from refused.hyps g have "b' = b1" by (auto simp: ReserveBudget_def Let_def split: if_splits)
  with getOrCreate_ledger[OF refused.IH g] show ?case by simp
next
  case (released b u c M)
  obtain ub b1 where g: "getOrCreate b u = (ub, b1)" by fastforce
  note l = getOrCreate_ledger[OF released.IH g]
  then have nn: "\<forall>p \<in># M. 0 \<le> snd p" "0 \<le> c" by (auto simp: ledger_ok_def)
  show ?case
    by (rule ledger_okI[of dl b1 "add_mset (u, c) M" _ u "ub\<lparr>ub_reserved := ub_reserved ub - c\<rparr>"])
      (use l g nn in \<open>auto simp: release_def put_user_def\<close>)
next
  case (recorded b u c M)
  obtain ub b1 where g: "getOrCreate b u = (ub, b1)" by fastforce
  note l = getOrCreate_ledger[OF recorded.IH g]
  then have nn: "\<forall>p \<in># M. 0 \<le> snd p" by (auto simp: ledger_ok_def)
  from open_sum_nonneg[OF nn, of u] l have ge: "c \<le> ub_reserved ub" by simp
  show ?case
    by (rule ledger_okI[of dl b1 "add_mset (u, c) M" _ u "ub\<lparr>ub_spent := ub_spent ub + c, ub_reserved := ub_reserved ub - c\<rparr>"])
      (use l g nn ge in \<open>auto simp: RecordCost_def put_user_def\<close>)
qed

section \<open>Properties\<close>

text \<open>
  (C21) No overdraft by overlapping reservations: however many reservations of however many users
  arrive in whatever order, the amount granted to a user is exactly what his remaining budget
  loses, and it never exceeds what remained at the start.
\<close>

theorem overlapping_reservations_bounded:
  assumes "reserve_all (\<lambda>_::unit. ReserveBudget) b reqs = (g, b')" and "0 \<le> fst (Remaining b u)"
  shows "granted_to u g \<le> fst (Remaining b u) \<and> fst (Remaining b' u) = fst (Remaining b u) - granted_to u g"
  using mem_budget.reserve_all_remaining[OF TrueI assms(1), of u] assms(2)
  by (simp add: mem_remaining_Remaining)

theorem overlapping_reservations_bounded_witness:
  "granted_to ''u'' (fst (reserve_all (\<lambda>_::unit. ReserveBudget) (NewBudgetManager 10)
      [((), ''u'', 6), ((), ''u'', 6), ((), ''v'', 7), ((), ''u'', 4)])) = 10 \<and>
   granted_to ''u'' (fst (reserve_all (\<lambda>_::unit. ReserveBudget) (NewBudgetManager 10)
      [((), ''u'', 6), ((), ''u'', 6), ((), ''v'', 7), ((), ''u'', 4)])) \<le> fst (Remaining (NewBudgetManager 10) ''u'')"
proof -
  let ?r = "reserve_all (\<lambda>_::unit. ReserveBudget) (NewBudgetManager 10)
      [((), ''u'', 6), ((), ''u'', 6), ((), ''v'', 7), ((), ''u'', 4)]"
  have "0 \<le> fst (Remaining (NewBudgetManager 10) ''u'')"
    by (simp add: Remaining_def getOrCreate_def NewBudgetManager_def ub_remaining_def Let_def)
  from overlapping_reservations_bounded[OF prod.collapse[symmetric, of ?r] this]
  show ?thesis
    by (simp add: mem_defs NewBudgetManager_def Let_def)
qed

text \<open>
  The same for the database: reservations of concurrent requests, each its own transaction,
  never exceed the user's remaining budget of the day.
\<close>

theorem pg_overlapping_reservations_bounded:
  assumes "budget_db_ok (pgb_db b)"
    and "reserve_all (\<lambda>(newUser, newID, resID). PG_ReserveBudget newUser newID resID now) b reqs = (g, b')"
    and "0 \<le> pg_remaining now b u"
  shows "granted_to u g \<le> pg_remaining now b u \<and> pg_remaining now b' u = pg_remaining now b u - granted_to u g"
  using pg_budget.reserve_all_remaining[OF assms(1,2), of u] assms(3) by simp

definition demo_pg :: PGBudgetManager where
  "demo_pg = \<lparr>pgb_db = \<lparr>db_users = [\<lparr>usr_ID = 1, usr_OrgID = 7, usr_ExternalID = ''u''\<rparr>], db_budgets = [], db_reservations = []\<rparr>,
     pgb_orgID = 7, pgb_defaultLimit = 5\<rparr>"

lemmas pg_eval = demo_pg_def PG_ReserveBudget_def Repo_ReserveBudget_def reserve_tx_def EnsureUser_def
  getOrCreateBudget_def find_user_def find_budget_def activeReserved_def Let_def

lemma demo_pg_ok: "budget_db_ok (pgb_db demo_pg)"
  by (simp add: demo_pg_def budget_db_ok_def)

lemma demo_pg_remaining: "pg_remaining now demo_pg ''u'' = 5"
  by (simp add: pg_remaining_def user_budget_def find_user_def find_budget_def demo_pg_def)

theorem pg_overlapping_reservations_bounded_witness:
  "granted_to ''u'' (fst (reserve_all (\<lambda>(newUser, newID, resID). PG_ReserveBudget newUser newID resID 0) demo_pg
      [((2, 3, 4), ''u'', 3), ((2, 5, 6), ''u'', 3), ((2, 5, 7), ''v'', 4)])) = 3 \<and>
   granted_to ''u'' (fst (reserve_all (\<lambda>(newUser, newID, resID). PG_ReserveBudget newUser newID resID 0) demo_pg
      [((2, 3, 4), ''u'', 3), ((2, 5, 6), ''u'', 3), ((2, 5, 7), ''v'', 4)])) \<le> pg_remaining 0 demo_pg ''u''"
proof -
  let ?r = "reserve_all (\<lambda>(newUser, newID, resID). PG_ReserveBudget newUser newID resID 0) demo_pg
      [((2, 3, 4), ''u'', 3), ((2, 5, 6), ''u'', 3), ((2, 5, 7), ''v'', 4)]"
  have "0 \<le> pg_remaining 0 demo_pg ''u''" by (simp add: demo_pg_remaining)
  from pg_overlapping_reservations_bounded[OF demo_pg_ok prod.collapse[symmetric, of ?r] this]
  have le: "granted_to ''u'' (fst ?r) \<le> pg_remaining 0 demo_pg ''u''" by blast
  have "granted_to ''u'' (fst ?r) = 3" by (simp add: pg_eval)
  with le show ?thesis by blast
qed

text \<open>
  Used as documented (each granted reservation is afterwards either released or replaced by the
  recorded cost), the in-memory ledger never lets spending and reservations exceed the limit,
  and its reserved amount is the sum of the open reservations.
\<close>

theorem budget_protocol_within_limit:
  assumes "budget_reach dl b M" and "bm_users b u = Some ub"
  shows "ub_spent ub + ub_reserved ub \<le> dl \<and> ub_reserved ub = open_sum u M \<and> 0 \<le> ub_reserved ub"
proof -
  have l: "ledger_ok dl b M" using budget_reach_ledger_ok[OF assms(1)] .
  then have "0 \<le> open_sum u M" by (intro open_sum_nonneg) (simp add: ledger_ok_def)
  with ledger_user_ok[OF l, of u] assms(2) show ?thesis by simp
qed

lemma demo_budget_reach:
  "budget_reach 10 (RecordCost (snd (ReserveBudget (NewBudgetManager 10) ''u'' 4)) ''u'' 4) {#}"
proof -
  have "budget_reach 10 (snd (ReserveBudget (NewBudgetManager 10) ''u'' 4)) (add_mset (''u'', 4) {#})"
    by (rule budget_reach.granted[OF budget_reach.init]) (auto simp: mem_defs NewBudgetManager_def Let_def)
  then show ?thesis by (rule budget_reach.recorded)
qed

theorem budget_protocol_within_limit_witness:
  "(4::usd) + 0 \<le> 10 \<and>
   bm_users (RecordCost (snd (ReserveBudget (NewBudgetManager 10) ''u'' 4)) ''u'' 4) ''u''
     = Some \<lparr>ub_limit = 10, ub_spent = 4, ub_reserved = 0\<rparr>"
proof -
  have e: "bm_users (RecordCost (snd (ReserveBudget (NewBudgetManager 10) ''u'' 4)) ''u'' 4) ''u''
     = Some \<lparr>ub_limit = 10, ub_spent = 4, ub_reserved = 0\<rparr>"
    by (simp add: mem_defs NewBudgetManager_def Let_def)
  with budget_protocol_within_limit[OF demo_budget_reach e] show ?thesis by simp
qed

text \<open>
  The database ledger forgets what was spent: after a reservation, the recording of its cost and
  the release of the reservation, the user has as much left as before.
\<close>

theorem pg_spend_is_lost:
  assumes "budget_db_ok (pgb_db b)" and "PG_ReserveBudget newUser newID resID now b u c = (Inr r, b1)"
  shows "pg_remaining now (fst (PG_release now (PG_RecordCost b1 u c) r)) = pg_remaining now b"
  using pg_reserve_granted[OF assms] by (simp add: PG_RecordCost_def)

theorem pg_spend_is_lost_witness:
  "pg_remaining 0 (fst (PG_release 0 (PG_RecordCost (snd (PG_ReserveBudget 2 3 4 0 demo_pg ''u'' 3)) ''u'' 3) (4, False))) ''u'' = 5"
proof -
  have "PG_ReserveBudget 2 3 4 0 demo_pg ''u'' 3 = (Inr (4, False), snd (PG_ReserveBudget 2 3 4 0 demo_pg ''u'' 3))"
    by (simp add: pg_eval)
  from pg_spend_is_lost[OF demo_pg_ok this] show ?thesis by (simp add: demo_pg_remaining)
qed

end
