(* ===== verification/Approval.thy ===== *)
theory Approval
  imports Prelude
begin

text \<open>
  Approval requests: the in-memory \<^verbatim>\<open>Manager\<close> (\<^verbatim>\<open>approval/approval.go\<close>) and the database pair
  \<^verbatim>\<open>DBManager\<close> / \<^verbatim>\<open>ApprovalRepository\<close> (\<^verbatim>\<open>approval/dbmanager.go\<close>,
  \<^verbatim>\<open>storage/postgres/approval_repo.go\<close>). Both implement \<^verbatim>\<open>ApprovalManager\<close>; the part of its
  contract that a client relies on is the locale \<open>approval_manager\<close>: a request is resolved at
  most once. A row of the table is the approval it stores (the \<^verbatim>\<open>OrgID\<close> column and the JSON text
  of the parameters aside); a transaction that returns an error is rolled back.
\<close>

datatype approval_error = ErrNotFound | ErrExpired | ErrAlreadyResolved | ErrCreate string

datatype Status = StatusPending | StatusApproved | StatusDenied | StatusExpired

fun Status_String :: "Status \<Rightarrow> string" where
  "Status_String StatusPending = ''pending''"
| "Status_String StatusApproved = ''approved''"
| "Status_String StatusDenied = ''denied''"
| "Status_String StatusExpired = ''expired''"

record PendingApproval =
  pa_ID :: string
  pa_UserID :: string
  pa_ToolName :: string
  pa_Parameters :: params
  pa_ActionName :: string
  pa_RiskLevel :: string
  pa_EstimatedCost :: usd
  pa_CorrelationID :: string
  pa_ConversationID :: string
  pa_ToolUseID :: string
  pa_Status :: Status
  pa_ApprovedBy :: string
  pa_CreatedAt :: time
  pa_ExpiresAt :: time
  pa_ResolvedAt :: "time option"

record CreateRequest =
  cr_UserID :: string
  cr_ToolName :: string
  cr_Parameters :: params
  cr_ActionName :: string
  cr_RiskLevel :: string
  cr_EstimatedCost :: usd
  cr_CorrelationID :: string
  cr_ConversationID :: string
  cr_ToolUseID :: string

definition new_approval :: "string \<Rightarrow> time \<Rightarrow> duration \<Rightarrow> CreateRequest \<Rightarrow> PendingApproval" where
  "new_approval aid now ttl req =
     \<lparr>pa_ID = aid, pa_UserID = cr_UserID req, pa_ToolName = cr_ToolName req,
      pa_Parameters = cr_Parameters req, pa_ActionName = cr_ActionName req,
      pa_RiskLevel = cr_RiskLevel req, pa_EstimatedCost = cr_EstimatedCost req,
      pa_CorrelationID = cr_CorrelationID req, pa_ConversationID = cr_ConversationID req,
      pa_ToolUseID = cr_ToolUseID req, pa_Status = StatusPending, pa_ApprovedBy = [],
      pa_CreatedAt = now, pa_ExpiresAt = now + ttl, pa_ResolvedAt = None\<rparr>"

section \<open>The in-memory manager\<close>

record Manager =
  mgr_pending :: "string \<rightharpoonup> PendingApproval"
  mgr_ttl :: duration

definition NewManager :: "duration \<Rightarrow> Manager" where
  "NewManager ttl = \<lparr>mgr_pending = Map.empty, mgr_ttl = ttl\<rparr>"

text \<open>\<open>idr\<close> is what \<^verbatim>\<open>generateID\<close> returns: \<open>None\<close> when the random source fails.\<close>

definition Create :: "Manager \<Rightarrow> time \<Rightarrow> string option \<Rightarrow> CreateRequest \<Rightarrow> (approval_error + string) \<times> Manager" where
  "Create m now idr req =
     (case idr of
        None \<Rightarrow> (Inl (ErrCreate ''generating approval ID''), m)
      | Some aid \<Rightarrow> (Inr aid, m\<lparr>mgr_pending := (mgr_pending m)(aid \<mapsto> new_approval aid now (mgr_ttl m) req)\<rparr>))"

definition resolve :: "Manager \<Rightarrow> time \<Rightarrow> string \<Rightarrow> string \<Rightarrow> Status \<Rightarrow> approval_error option \<times> Manager" where
  "resolve m now aid resolverID status =
     (case mgr_pending m aid of
        None \<Rightarrow> (Some ErrNotFound, m)
      | Some pa \<Rightarrow>
          if now > pa_ExpiresAt pa
          then (Some ErrExpired, m\<lparr>mgr_pending := (mgr_pending m)(aid \<mapsto> pa\<lparr>pa_Status := StatusExpired\<rparr>)\<rparr>)
          else if pa_Status pa \<noteq> StatusPending then (Some ErrAlreadyResolved, m)
          else (None, m\<lparr>mgr_pending := (mgr_pending m)(aid \<mapsto>
                  pa\<lparr>pa_Status := status, pa_ApprovedBy := resolverID, pa_ResolvedAt := Some now\<rparr>)\<rparr>))"

definition Approve :: "Manager \<Rightarrow> time \<Rightarrow> string \<Rightarrow> string \<Rightarrow> approval_error option \<times> Manager" where
  "Approve m now aid approverID = resolve m now aid approverID StatusApproved"

definition Deny :: "Manager \<Rightarrow> time \<Rightarrow> string \<Rightarrow> string \<Rightarrow> approval_error option \<times> Manager" where
  "Deny m now aid denierID = resolve m now aid denierID StatusDenied"

definition Get :: "Manager \<Rightarrow> time \<Rightarrow> string \<Rightarrow> (approval_error + PendingApproval) \<times> Manager" where
  "Get m now aid =
     (case mgr_pending m aid of
        None \<Rightarrow> (Inl ErrNotFound, m)
      | Some pa \<Rightarrow>
          if pa_Status pa = StatusPending \<and> now > pa_ExpiresAt pa
          then let pa' = pa\<lparr>pa_Status := StatusExpired\<rparr>
               in (Inr pa', m\<lparr>mgr_pending := (mgr_pending m)(aid \<mapsto> pa')\<rparr>)
          else (Inr pa, m))"

definition cleanup_entry :: "duration \<Rightarrow> time \<Rightarrow> PendingApproval \<Rightarrow> PendingApproval option" where
  "cleanup_entry ttl now pa =
     (let pa' = (if pa_Status pa = StatusPending \<and> now > pa_ExpiresAt pa
                 then pa\<lparr>pa_Status := StatusExpired\<rparr> else pa)
      in if pa_Status pa' \<noteq> StatusPending \<and> now > pa_ExpiresAt pa' + ttl then None else Some pa')"

definition Cleanup :: "Manager \<Rightarrow> time \<Rightarrow> Manager" where
  "Cleanup m now = m\<lparr>mgr_pending := (\<lambda>aid. Option.bind (mgr_pending m aid) (cleanup_entry (mgr_ttl m) now))\<rparr>"

section \<open>The database manager\<close>

record DBManager =
  dbm_rows :: "string \<rightharpoonup> PendingApproval"
  dbm_ttl :: duration

definition DB_Create :: "DBManager \<Rightarrow> time \<Rightarrow> string option \<Rightarrow> CreateRequest \<Rightarrow> (approval_error + string) \<times> DBManager" where
  "DB_Create m now idr req =
     (case idr of
        None \<Rightarrow> (Inl (ErrCreate ''generating approval ID''), m)
      | Some aid \<Rightarrow>
          if dbm_rows m aid \<noteq> None then (Inl (ErrCreate ''creating approval''), m)
          else (Inr aid, m\<lparr>dbm_rows := (dbm_rows m)(aid \<mapsto> new_approval aid now (dbm_ttl m) req)\<rparr>))"

definition DB_Get :: "DBManager \<Rightarrow> time \<Rightarrow> string \<Rightarrow> (approval_error + PendingApproval) \<times> DBManager" where
  "DB_Get m now aid =
     (case dbm_rows m aid of
        None \<Rightarrow> (Inl ErrNotFound, m)
      | Some pa \<Rightarrow>
          if pa_Status pa = StatusPending \<and> now > pa_ExpiresAt pa
          then let pa' = pa\<lparr>pa_Status := StatusExpired\<rparr>
               in (Inr pa', m\<lparr>dbm_rows := (dbm_rows m)(aid \<mapsto> pa')\<rparr>)
          else (Inr pa, m))"

definition DB_resolve :: "DBManager \<Rightarrow> time \<Rightarrow> string \<Rightarrow> string \<Rightarrow> Status \<Rightarrow> approval_error option \<times> DBManager" where
  "DB_resolve m now aid resolverID status =
     (case dbm_rows m aid of
        None \<Rightarrow> (Some ErrNotFound, m)
      | Some pa \<Rightarrow>
          if now > pa_ExpiresAt pa \<and> pa_Status pa = StatusPending
          then (Some ErrExpired, m)
          else if pa_Status pa \<noteq> StatusPending then (Some ErrAlreadyResolved, m)
          else (None, m\<lparr>dbm_rows := (dbm_rows m)(aid \<mapsto>
                  pa\<lparr>pa_Status := status, pa_ApprovedBy := resolverID, pa_ResolvedAt := Some now\<rparr>)\<rparr>))"

definition ExpireOld :: "DBManager \<Rightarrow> time \<Rightarrow> DBManager" where
  "ExpireOld m now = m\<lparr>dbm_rows := (\<lambda>aid. map_option (\<lambda>pa.
     if pa_Status pa = StatusPending \<and> pa_ExpiresAt pa < now then pa\<lparr>pa_Status := StatusExpired\<rparr> else pa)
     (dbm_rows m aid))\<rparr>"

definition DeleteResolved :: "DBManager \<Rightarrow> time \<Rightarrow> duration \<Rightarrow> DBManager" where
  "DeleteResolved m now olderThan = m\<lparr>dbm_rows := (\<lambda>aid. Option.bind (dbm_rows m aid) (\<lambda>pa.
     if pa_Status pa \<noteq> StatusPending \<and> pa_CreatedAt pa < now - olderThan then None else Some pa))\<rparr>"

definition DB_cleanup_tick :: "DBManager \<Rightarrow> time \<Rightarrow> DBManager" where
  "DB_cleanup_tick m now = DeleteResolved (ExpireOld m now) now (2 * dbm_ttl m)"

section \<open>Runs of a manager\<close>

datatype approval_op =
    OpCreate "string option" CreateRequest
  | OpApprove string string
  | OpDeny string string
  | OpGet string
  | OpCleanup

fun mem_step :: "Manager \<Rightarrow> time \<times> approval_op \<Rightarrow> Manager" where
  "mem_step m (t, OpCreate idr req) = snd (Create m t idr req)"
| "mem_step m (t, OpApprove aid who) = snd (Approve m t aid who)"
| "mem_step m (t, OpDeny aid who) = snd (Deny m t aid who)"
| "mem_step m (t, OpGet aid) = snd (Get m t aid)"
| "mem_step m (t, OpCleanup) = Cleanup m t"

fun db_step :: "DBManager \<Rightarrow> time \<times> approval_op \<Rightarrow> DBManager" where
  "db_step m (t, OpCreate idr req) = snd (DB_Create m t idr req)"
| "db_step m (t, OpApprove aid who) = snd (DB_resolve m t aid who StatusApproved)"
| "db_step m (t, OpDeny aid who) = snd (DB_resolve m t aid who StatusDenied)"
| "db_step m (t, OpGet aid) = snd (DB_Get m t aid)"
| "db_step m (t, OpCleanup) = DB_cleanup_tick m t"

fun creates :: "string \<Rightarrow> time \<times> approval_op \<Rightarrow> bool" where
  "creates aid (t, OpCreate idr req) = (idr = Some aid)"
| "creates aid _ = False"

definition status_of :: "(string \<rightharpoonup> PendingApproval) \<Rightarrow> string \<Rightarrow> Status option" where
  "status_of rows aid = map_option pa_Status (rows aid)"

lemmas mem_op_defs = Create_def Approve_def Deny_def resolve_def Get_def Cleanup_def cleanup_entry_def
lemmas db_op_defs = DB_Create_def DB_resolve_def DB_Get_def DB_cleanup_tick_def ExpireOld_def DeleteResolved_def

section \<open>The manager interface\<close>

locale approval_manager =
  fixes resolve_op :: "'s \<Rightarrow> time \<Rightarrow> string \<Rightarrow> string \<Rightarrow> Status \<Rightarrow> approval_error option \<times> 's"
    and step :: "'s \<Rightarrow> time \<times> approval_op \<Rightarrow> 's"
    and rows :: "'s \<Rightarrow> (string \<rightharpoonup> PendingApproval)"
  assumes resolve_ok: "resolve_op s now aid who st = (None, s') \<Longrightarrow>
      \<exists>pa. rows s aid = Some pa \<and> pa_Status pa = StatusPending \<and> now \<le> pa_ExpiresAt pa \<and>
        rows s' = (rows s)(aid \<mapsto> pa\<lparr>pa_Status := st, pa_ApprovedBy := who, pa_ResolvedAt := Some now\<rparr>)"
    and step_settled: "status_of (rows s) aid \<noteq> Some StatusPending \<Longrightarrow> \<not> creates aid ev \<Longrightarrow>
      status_of (rows (step s ev)) aid \<noteq> Some StatusPending"
    and step_approved: "rows (step s (t, op)) aid = Some pa \<Longrightarrow> pa_Status pa = StatusApproved \<Longrightarrow>
      rows s aid = Some pa \<or> op = OpApprove aid (pa_ApprovedBy pa) \<and> t \<le> pa_ExpiresAt pa"
begin

lemma run_settled:
  "status_of (rows s) aid \<noteq> Some StatusPending \<Longrightarrow> \<forall>op \<in> set ops. \<not> creates aid op \<Longrightarrow>
     status_of (rows (foldl step s ops)) aid \<noteq> Some StatusPending"
  by (induction ops arbitrary: s) (simp_all add: step_settled)

lemma resolved_once:
  assumes "resolve_op s t1 aid who1 st1 = (None, s1)" and "st1 \<noteq> StatusPending"
    and "\<forall>op \<in> set ops. \<not> creates aid op"
  shows "fst (resolve_op (foldl step s1 ops) t2 aid who2 st2) \<noteq> None"
proof
  assume "fst (resolve_op (foldl step s1 ops) t2 aid who2 st2) = None"
  then obtain s2 where "resolve_op (foldl step s1 ops) t2 aid who2 st2 = (None, s2)"
    by (metis prod.collapse)
  from resolve_ok[OF this] have "status_of (rows (foldl step s1 ops)) aid = Some StatusPending"
    by (auto simp: status_of_def)
  moreover have "status_of (rows s1) aid \<noteq> Some StatusPending"
    using resolve_ok[OF assms(1)] assms(2) by (auto simp: status_of_def)
  ultimately show False using run_settled assms(3) by blast
qed

text \<open>Whatever is approved was approved by the approver it names, before it expired.\<close>

lemma approved_provenance:
  "\<forall>pa. rows s aid = Some pa \<longrightarrow> pa_Status pa \<noteq> StatusApproved \<Longrightarrow> rows (foldl step s ops) aid = Some pa \<Longrightarrow> pa_Status pa = StatusApproved \<Longrightarrow>
     \<exists>t. (t, OpApprove aid (pa_ApprovedBy pa)) \<in> set ops \<and> t \<le> pa_ExpiresAt pa"
proof (induction ops arbitrary: pa rule: rev_induct)
  case Nil
  then show ?case by simp
next
  case (snoc top ops)
  obtain t op where top: "top = (t, op)" by fastforce
  with snoc.prems have "rows (step (foldl step s ops) (t, op)) aid = Some pa" by simp
  from step_approved[OF this snoc.prems(3)] show ?case
  proof
    assume "rows (foldl step s ops) aid = Some pa"
    from snoc.IH[OF snoc.prems(1) this snoc.prems(3)] show ?thesis by auto
  next
    assume "op = OpApprove aid (pa_ApprovedBy pa) \<and> t \<le> pa_ExpiresAt pa"
    then show ?thesis by (auto simp: top)
  qed
qed

end

lemma mem_resolve_ok:
  "resolve m now aid who st = (None, m') \<Longrightarrow>
     \<exists>pa. mgr_pending m aid = Some pa \<and> pa_Status pa = StatusPending \<and> now \<le> pa_ExpiresAt pa \<and>
       mgr_pending m' = (mgr_pending m)(aid \<mapsto> pa\<lparr>pa_Status := st, pa_ApprovedBy := who, pa_ResolvedAt := Some now\<rparr>)"
  by (auto simp: resolve_def split: option.splits if_splits)

lemma db_resolve_ok:
  "DB_resolve m now aid who st = (None, m') \<Longrightarrow>
     \<exists>pa. dbm_rows m aid = Some pa \<and> pa_Status pa = StatusPending \<and> now \<le> pa_ExpiresAt pa \<and>
       dbm_rows m' = (dbm_rows m)(aid \<mapsto> pa\<lparr>pa_Status := st, pa_ApprovedBy := who, pa_ResolvedAt := Some now\<rparr>)"
  by (auto simp: DB_resolve_def split: option.splits if_splits)

lemma mem_step_settled:
  "status_of (mgr_pending m) aid \<noteq> Some StatusPending \<Longrightarrow> \<not> creates aid op \<Longrightarrow>
     status_of (mgr_pending (mem_step m op)) aid \<noteq> Some StatusPending"
  by (induction m op rule: mem_step.induct)
    (auto simp: mem_op_defs status_of_def Let_def new_approval_def bind_eq_Some_conv
      split: option.splits if_splits)

lemma db_step_settled:
  "status_of (dbm_rows m) aid \<noteq> Some StatusPending \<Longrightarrow> \<not> creates aid op \<Longrightarrow>
     status_of (dbm_rows (db_step m op)) aid \<noteq> Some StatusPending"
  by (induction m op rule: db_step.induct)
    (auto simp: db_op_defs status_of_def Let_def new_approval_def bind_eq_Some_conv
      split: option.splits if_splits)

lemma mem_step_approved:
  "mgr_pending (mem_step m (t, op)) aid = Some pa \<Longrightarrow> pa_Status pa = StatusApproved \<Longrightarrow>
     mgr_pending m aid = Some pa \<or> op = OpApprove aid (pa_ApprovedBy pa) \<and> t \<le> pa_ExpiresAt pa"
  by (cases op)
    (auto simp: mem_op_defs Let_def new_approval_def bind_eq_Some_conv split: option.splits if_splits)

lemma db_step_approved:
  "dbm_rows (db_step m (t, op)) aid = Some pa \<Longrightarrow> pa_Status pa = StatusApproved \<Longrightarrow>
     dbm_rows m aid = Some pa \<or> op = OpApprove aid (pa_ApprovedBy pa) \<and> t \<le> pa_ExpiresAt pa"
  by (cases op)
    (auto simp: db_op_defs Let_def new_approval_def bind_eq_Some_conv split: option.splits if_splits)

interpretation mem_approval: approval_manager resolve mem_step mgr_pending
  by unfold_locales (use mem_resolve_ok mem_step_settled mem_step_approved in blast)+

interpretation db_approval: approval_manager DB_resolve db_step dbm_rows
  by unfold_locales (use db_resolve_ok db_step_settled db_step_approved in blast)+

text \<open>In the database a resolved status is final: a step keeps it or deletes the row.\<close>

lemma db_step_final:
  "status_of (dbm_rows m) aid = Some st \<Longrightarrow> st \<noteq> StatusPending \<Longrightarrow>
     status_of (dbm_rows (db_step m op)) aid \<in> {Some st, None}"
  by (induction m op rule: db_step.induct)
    (auto simp: db_op_defs status_of_def Let_def split: option.splits if_splits)

lemma db_run_final:
  "status_of (dbm_rows m) aid = Some st \<Longrightarrow> st \<noteq> StatusPending \<Longrightarrow> \<forall>op \<in> set ops. \<not> creates aid op \<Longrightarrow>
     status_of (dbm_rows (foldl db_step m ops)) aid \<in> {Some st, None}"
proof (induction ops rule: rev_induct)
  case Nil
  then show ?case by simp
next
  case (snoc op ops)
  let ?m = "foldl db_step m ops"
  from snoc have "status_of (dbm_rows ?m) aid \<in> {Some st, None}" by simp
  then show ?case
  proof
    assume "status_of (dbm_rows ?m) aid = Some st"
    with snoc.prems(2) show ?thesis using db_step_final[of ?m aid st op] by simp
  next
    assume "status_of (dbm_rows ?m) aid \<in> {None}"
    with snoc.prems(3) show ?thesis
      by (induction "?m" op rule: db_step.induct)
        (auto simp: db_op_defs status_of_def Let_def split: option.splits)
  qed
qed

section \<open>Properties\<close>

definition demo_req :: CreateRequest where
  "demo_req = \<lparr>cr_UserID = ''alice'', cr_ToolName = ''shell'', cr_Parameters = [], cr_ActionName = ''exec'',
     cr_RiskLevel = ''high'', cr_EstimatedCost = 1, cr_CorrelationID = [], cr_ConversationID = [], cr_ToolUseID = []\<rparr>"

text \<open>
  (C22) An approval request is resolved at most once: after it was approved or denied, no later
  resolution of it succeeds, whatever approvals, denials, reads and clean-ups happen in between,
  as long as its identifier is not drawn again.
\<close>

theorem approval_resolved_once:
  assumes "resolve m t1 aid who1 st1 = (None, m1)" and "st1 \<noteq> StatusPending"
    and "\<forall>op \<in> set ops. \<not> creates aid op"
  shows "fst (resolve (foldl mem_step m1 ops) t2 aid who2 st2) \<noteq> None"
  by (rule mem_approval.resolved_once[OF assms])

theorem approval_resolved_once_witness:
  "fst (resolve (foldl mem_step (snd (resolve (snd (Create (NewManager 100) 0 (Some ''i'') demo_req)) 5 ''i'' ''bob'' StatusApproved))
      [(6, OpDeny ''i'' ''eve''), (7, OpCleanup)]) 8 ''i'' ''eve'' StatusDenied) \<noteq> None"
proof -
  have "resolve (snd (Create (NewManager 100) 0 (Some ''i'') demo_req)) 5 ''i'' ''bob'' StatusApproved =
      (None, snd (resolve (snd (Create (NewManager 100) 0 (Some ''i'') demo_req)) 5 ''i'' ''bob'' StatusApproved))"
    by (simp add: NewManager_def Create_def resolve_def new_approval_def)
  from approval_resolved_once[OF this, of "[(6, OpDeny ''i'' ''eve''), (7, OpCleanup)]"]
  show ?thesis by simp
qed

text \<open>
  Nothing is approved out of thin air: an approval found approved in any reachable state of
  the manager was approved by an \<^verbatim>\<open>Approve\<close> call of exactly the approver it names, at a time not
  after its expiry.
\<close>

theorem approval_provenance:
  assumes "mgr_pending (foldl mem_step (NewManager ttl) ops) aid = Some pa" and "pa_Status pa = StatusApproved"
  shows "\<exists>t. (t, OpApprove aid (pa_ApprovedBy pa)) \<in> set ops \<and> t \<le> pa_ExpiresAt pa"
  by (rule mem_approval.approved_provenance[OF _ assms]) (simp add: NewManager_def)

theorem approval_provenance_witness:
  "\<exists>t. (t, OpApprove ''i'' ''bob'') \<in> set [(0, OpCreate (Some ''i'') demo_req), (5, OpApprove ''i'' ''bob'')] \<and> t \<le> (100::time)"
proof -
  let ?ops = "[(0, OpCreate (Some ''i'') demo_req), (5, OpApprove ''i'' ''bob'')]"
  let ?pa = "(new_approval ''i'' 0 100 demo_req)\<lparr>pa_Status := StatusApproved, pa_ApprovedBy := ''bob'', pa_ResolvedAt := Some 5\<rparr>"
  have "mgr_pending (foldl mem_step (NewManager 100) ?ops) ''i'' = Some ?pa"
    by (simp add: NewManager_def Create_def Approve_def resolve_def new_approval_def)
  from approval_provenance[OF this] show ?thesis by (simp add: new_approval_def)
qed

text \<open>
  In the database a decision is immutable: an approved or denied row keeps its status under
  every later operation until it is deleted.
\<close>

theorem db_decision_immutable:
  assumes "status_of (dbm_rows m) aid = Some st" and "st \<noteq> StatusPending" and "\<forall>op \<in> set ops. \<not> creates aid op"
  shows "status_of (dbm_rows (foldl db_step m ops)) aid \<in> {Some st, None}"
  by (rule db_run_final[OF assms])

theorem db_decision_immutable_witness:
  "status_of (dbm_rows (foldl db_step \<lparr>dbm_rows = [''i'' \<mapsto> (new_approval ''i'' 0 100 demo_req)\<lparr>pa_Status := StatusApproved\<rparr>], dbm_ttl = 100\<rparr>
      [(150, OpDeny ''i'' ''eve''), (160, OpCleanup)])) ''i'' \<in> {Some StatusApproved, None}"
proof -
  have "status_of (dbm_rows \<lparr>dbm_rows = [''i'' \<mapsto> (new_approval ''i'' 0 100 demo_req)\<lparr>pa_Status := StatusApproved\<rparr>], dbm_ttl = 100\<rparr>) ''i''
      = Some StatusApproved" by (simp add: status_of_def)
  from db_decision_immutable[OF this, of "[(150, OpDeny ''i'' ''eve''), (160, OpCleanup)]"] show ?thesis by simp
qed

text \<open>
  In memory it is not: a second \<^verbatim>\<open>Approve\<close> or \<^verbatim>\<open>Deny\<close> after the time to live has passed
  turns an approved or denied request into an expired one, since \<^verbatim>\<open>resolve\<close> tests the expiry
  before the status.
\<close>

theorem late_resolve_overwrites_decision:
  assumes "mgr_pending m aid = Some pa" and "pa_Status pa \<noteq> StatusPending" and "pa_ExpiresAt pa < now"
  shows "fst (Deny m now aid who) = Some ErrExpired \<and> status_of (mgr_pending (snd (Deny m now aid who))) aid = Some StatusExpired"
  using assms by (simp add: Deny_def resolve_def status_of_def)

theorem late_resolve_overwrites_decision_witness:
  "status_of (mgr_pending (snd (Deny (foldl mem_step (NewManager 100) [(0, OpCreate (Some ''i'') demo_req), (5, OpApprove ''i'' ''bob'')])
     101 ''i'' ''eve''))) ''i'' = Some StatusExpired"
proof -
  let ?m = "foldl mem_step (NewManager 100) [(0, OpCreate (Some ''i'') demo_req), (5, OpApprove ''i'' ''bob'')]"
  let ?pa = "(new_approval ''i'' 0 100 demo_req)\<lparr>pa_Status := StatusApproved, pa_ApprovedBy := ''bob'', pa_ResolvedAt := Some 5\<rparr>"
  have "mgr_pending ?m ''i'' = Some ?pa"
    by (simp add: NewManager_def Create_def Approve_def resolve_def new_approval_def)
  from late_resolve_overwrites_decision[OF this, of 101 "''eve''"] show ?thesis
    by (simp add: new_approval_def)
qed

end
