(* ===== verification/RateLimit.thy ===== *)
theory RateLimit
  imports Prelude
begin

text \<open>
  The per-user token bucket (\<^verbatim>\<open>ratelimit/ratelimit.go\<close>). \<open>Allow\<close> refills a user's bucket for the
  time since its last use, caps it at the burst size and takes one token. The two promises of
  the package are proved for runs of calls at non-decreasing clock readings: a user gets at most
  the burst plus the refill through, and no user's decisions depend on another user's calls.
\<close>

datatype rate_error = ErrRateLimited

record Config =
  RequestsPerMinute :: int
  BurstSize :: int

record bucket =
  bkt_tokens :: rat
  bkt_lastFill :: time

record Limiter =
  lim_users :: "string \<rightharpoonup> bucket"
  lim_rate :: rat
  lim_burst :: rat

definition NewLimiter :: "Config \<Rightarrow> Limiter" where
  "NewLimiter cfg =
     (let burst0 = BurstSize cfg;
          burst1 = (if burst0 \<le> 0 then RequestsPerMinute cfg else burst0);
          burst2 = (if burst1 \<le> 0 then 1 else burst1)
      in \<lparr>lim_users = Map.empty, lim_rate = of_int (RequestsPerMinute cfg) / 60, lim_burst = of_int burst2\<rparr>)"

definition Seconds :: "duration \<Rightarrow> rat" where
  "Seconds d = of_int d / of_int Second"

definition refill :: "Limiter \<Rightarrow> time \<Rightarrow> bucket \<Rightarrow> bucket" where
  "refill l now b =
     (let tokens = bkt_tokens b + Seconds (now - bkt_lastFill b) * lim_rate l
      in \<lparr>bkt_tokens = (if tokens > lim_burst l then lim_burst l else tokens), bkt_lastFill = now\<rparr>)"

definition Allow :: "Limiter \<Rightarrow> time \<Rightarrow> string \<Rightarrow> rate_error option \<times> Limiter" where
  "Allow l now userID =
     (if lim_rate l \<le> 0 then (None, l)
      else let b = (case lim_users l userID of
                      Some b \<Rightarrow> b
                    | None \<Rightarrow> \<lparr>bkt_tokens = lim_burst l, bkt_lastFill = now\<rparr>);
               b' = refill l now b
           in if bkt_tokens b' < 1
              then (Some ErrRateLimited, l\<lparr>lim_users := (lim_users l)(userID \<mapsto> b')\<rparr>)
              else (None, l\<lparr>lim_users := (lim_users l)(userID \<mapsto> b'\<lparr>bkt_tokens := bkt_tokens b' - 1\<rparr>)\<rparr>))"

fun allow_run :: "Limiter \<Rightarrow> (time \<times> string) list \<Rightarrow> (string \<times> bool) list \<times> Limiter" where
  "allow_run l [] = ([], l)"
| "allow_run l ((t, u) # calls) =
     (let (e, l') = Allow l t u; (ds, l'') = allow_run l' calls in ((u, e = None) # ds, l''))"

definition allowed_count :: "string \<Rightarrow> (string \<times> bool) list \<Rightarrow> nat" where
  "allowed_count u ds = length (filter (\<lambda>d. d = (u, True)) ds)"

definition decisions_of :: "string \<Rightarrow> (string \<times> bool) list \<Rightarrow> bool list" where
  "decisions_of u ds = map snd (filter (\<lambda>d. fst d = u) ds)"

section \<open>One call\<close>

lemma allowed_count_simps [simp]:
  "allowed_count u [] = 0"
  "allowed_count u ((v, b) # ds) = (if v = u \<and> b then 1 else 0) + allowed_count u ds"
  by (auto simp: allowed_count_def)

lemma Allow_rate_burst [simp]:
  "lim_rate (snd (Allow l t u)) = lim_rate l" "lim_burst (snd (Allow l t u)) = lim_burst l"
  by (simp_all add: Allow_def Let_def)

lemma Allow_other: "v \<noteq> u \<Longrightarrow> lim_users (snd (Allow l t v)) u = lim_users l u"
  by (simp add: Allow_def Let_def)

lemma Allow_cong:
  assumes "lim_users l u = lim_users l' u" "lim_rate l = lim_rate l'" "lim_burst l = lim_burst l'"
  shows "fst (Allow l t u) = fst (Allow l' t u) \<and>
    lim_users (snd (Allow l t u)) u = lim_users (snd (Allow l' t u)) u"
  using assms by (cases "lim_users l' u") (simp_all add: Allow_def refill_def Let_def)

text \<open>The tokens a user could spend at time \<open>t\<close>: the bucket, full when the user is new.\<close>

definition tokens_at :: "Limiter \<Rightarrow> time \<Rightarrow> string \<Rightarrow> rat" where
  "tokens_at l t u = (case lim_users l u of
     None \<Rightarrow> lim_burst l
   | Some b \<Rightarrow> bkt_tokens b + Seconds (t - bkt_lastFill b) * lim_rate l)"

lemma Seconds_diff: "Seconds (t - s) = Seconds (t - r) + Seconds (r - s)"
  by (simp add: Seconds_def flip: add_divide_distrib of_int_add)

lemma Seconds_nonneg [simp]: "s \<le> t \<Longrightarrow> 0 \<le> Seconds (t - s)"
  by (simp add: Seconds_def)

lemma Allow_potential:
  assumes "0 < lim_rate l" and "t \<le> t'"
  shows "of_nat (if fst (Allow l t u) = None then 1 else 0) + tokens_at (snd (Allow l t u)) t' u
    \<le> tokens_at l t u + Seconds (t' - t) * lim_rate l"
  using assms
  by (auto simp: Allow_def Let_def tokens_at_def refill_def Seconds_def split: option.splits)

lemma Allow_potential_other:
  assumes "0 < lim_rate l" and "t \<le> t'" and "v \<noteq> u"
  shows "tokens_at (snd (Allow l t v)) t' u \<le> tokens_at l t u + Seconds (t' - t) * lim_rate l"
proof (cases "lim_users l u")
  case None
  with assms show ?thesis by (simp add: tokens_at_def Allow_other)
next
  case (Some b)
  have "Seconds (t' - bkt_lastFill b) * lim_rate l =
      Seconds (t - bkt_lastFill b) * lim_rate l + Seconds (t' - t) * lim_rate l"
    using Seconds_diff[of t' "bkt_lastFill b" t] by (simp add: algebra_simps)
  with Some assms(3) show ?thesis by (simp add: tokens_at_def Allow_other)
qed

section \<open>Runs\<close>

definition bucket_ok :: "Limiter \<Rightarrow> bucket \<Rightarrow> bool" where
  "bucket_ok l b \<longleftrightarrow> 0 \<le> bkt_tokens b \<and> bkt_tokens b \<le> lim_burst l"

definition limiter_ok :: "Limiter \<Rightarrow> time \<Rightarrow> bool" where
  "limiter_ok l now \<longleftrightarrow> 1 \<le> lim_burst l \<and>
     (\<forall>u b. lim_users l u = Some b \<longrightarrow> bucket_ok l b \<and> bkt_lastFill b \<le> now)"

lemma NewLimiter_ok: "limiter_ok (NewLimiter cfg) now"
  by (simp add: limiter_ok_def NewLimiter_def Let_def)

lemma refill_ok:
  "0 < lim_rate l \<Longrightarrow> bucket_ok l b \<Longrightarrow> bkt_lastFill b \<le> t \<Longrightarrow> 1 \<le> lim_burst l \<Longrightarrow> bucket_ok l (refill l t b)"
  by (auto simp: refill_def bucket_ok_def Let_def intro!: add_nonneg_nonneg mult_nonneg_nonneg)

lemma Allow_ok:
  assumes ok: "limiter_ok l s" and "s \<le> t"
  shows "limiter_ok (snd (Allow l t u)) t"
proof (cases "lim_rate l \<le> 0")
  case True
  then have "snd (Allow l t u) = l" by (simp add: Allow_def)
  with assms show ?thesis by (fastforce simp: limiter_ok_def)
next
  case False
  define b where "b = (case lim_users l u of Some b \<Rightarrow> b | None \<Rightarrow> \<lparr>bkt_tokens = lim_burst l, bkt_lastFill = t\<rparr>)"
  have b: "bucket_ok l b" "bkt_lastFill b \<le> t"
    using assms by (auto simp: b_def limiter_ok_def bucket_ok_def split: option.splits dest: order_trans)
  have r: "bucket_ok l (refill l t b)" using False b ok by (intro refill_ok) (auto simp: limiter_ok_def)
  obtain x where x: "lim_users (snd (Allow l t u)) = (lim_users l)(u \<mapsto> x)"
    "bucket_ok l x" "bkt_lastFill x = t"
  proof (cases "bkt_tokens (refill l t b) < 1")
    case True
    show thesis by (rule that[of "refill l t b"])
      (use True False r in \<open>simp_all add: Allow_def Let_def refill_def b_def[symmetric]\<close>)
  next
    case short: False
    show thesis by (rule that[of "(refill l t b)\<lparr>bkt_tokens := bkt_tokens (refill l t b) - 1\<rparr>"])
      (use short False r in \<open>simp_all add: Allow_def Let_def bucket_ok_def refill_def b_def[symmetric]\<close>)
  qed
  with assms show ?thesis by (fastforce simp: limiter_ok_def bucket_ok_def)
qed

text \<open>The potential argument along a run: tokens spent plus tokens left never exceed tokens had plus tokens earned.\<close>

lemma allow_run_potential:
  assumes "0 < lim_rate l" and "sorted (t # map fst calls)" and "\<forall>c \<in> set calls. fst c \<le> T" and "t \<le> T"
    and "limiter_ok l t"
  shows "of_nat (allowed_count u (fst (allow_run l calls))) \<le> tokens_at l t u + Seconds (T - t) * lim_rate l"
  using assms
proof (induction calls arbitrary: l t)
  case Nil
  have "0 \<le> tokens_at l t u"
    using Nil by (auto simp: tokens_at_def limiter_ok_def bucket_ok_def split: option.splits
        intro!: add_nonneg_nonneg mult_nonneg_nonneg)
  with Nil show ?case by (auto intro!: add_nonneg_nonneg mult_nonneg_nonneg)
next
  case (Cons c calls)
  obtain s v where c: "c = (s, v)" by fastforce
  let ?l = "snd (Allow l s v)"
  from Cons.prems c have ts: "t \<le> s" "s \<le> T" by auto
  have lt: "limiter_ok l s" using Cons.prems(5) ts by (fastforce simp: limiter_ok_def)
  have IH: "of_nat (allowed_count u (fst (allow_run ?l calls))) \<le> tokens_at ?l s u + Seconds (T - s) * lim_rate l"
    using Cons.IH[of ?l s] Cons.prems c ts Allow_ok[OF lt, of s v] by simp
  have step: "of_nat (if v = u \<and> fst (Allow l s v) = None then 1 else 0) + tokens_at ?l s u \<le> tokens_at l s u"
  proof (cases "v = u")
    case True
    then show ?thesis using Allow_potential[OF Cons.prems(1), of s s u] by (simp add: Seconds_def)
  next
    case False
    then show ?thesis using Allow_potential_other[OF Cons.prems(1), of s s v u] by (simp add: Seconds_def)
  qed
  have mono: "tokens_at l s u + Seconds (T - s) * lim_rate l \<le> tokens_at l t u + Seconds (T - t) * lim_rate l"
  proof (cases "lim_users l u")
    case None
    have "Seconds (T - s) \<le> Seconds (T - t)" using ts by (simp add: Seconds_def divide_right_mono)
    with None Cons.prems(1) show ?thesis by (simp add: tokens_at_def mult_right_mono)
  next
    case (Some b)
    have "Seconds (s - bkt_lastFill b) + Seconds (T - s) = Seconds (t - bkt_lastFill b) + Seconds (T - t)"
      by (simp add: Seconds_def flip: add_divide_distrib of_int_add)
    then show ?thesis using Some by (simp add: tokens_at_def flip: distrib_right)
  qed
  have "allowed_count u (fst (allow_run l (c # calls))) =
      (if v = u \<and> fst (Allow l s v) = None then 1 else 0) + allowed_count u (fst (allow_run ?l calls))"
    by (simp add: c split_beta Let_def)
  with IH step mono show ?case by (auto split: if_splits)
qed

lemma allow_run_isolated_gen:
  assumes "lim_users l u = lim_users l' u" "lim_rate l = lim_rate l'" "lim_burst l = lim_burst l'"
  shows "decisions_of u (fst (allow_run l calls)) =
    decisions_of u (fst (allow_run l' (filter (\<lambda>c. snd c = u) calls)))"
  using assms
proof (induction calls arbitrary: l l')
  case Nil
  then show ?case by simp
next
  case (Cons c calls)
  obtain s v where c: "c = (s, v)" by fastforce
  show ?case
  proof (cases "v = u")
    case True
    have "fst (Allow l s u) = fst (Allow l' s u)"
      "lim_users (snd (Allow l s u)) u = lim_users (snd (Allow l' s u)) u"
      using Allow_cong[OF Cons.prems] by blast+
    then show ?thesis
      using Cons.IH[of "snd (Allow l s u)" "snd (Allow l' s u)"] Cons.prems c True
      by (simp add: split_beta Let_def decisions_of_def)
  next
    case False
    then show ?thesis
      using Cons.IH[of "snd (Allow l s v)" l'] Cons.prems c
      by (simp add: split_beta Let_def decisions_of_def Allow_other)
  qed
qed

section \<open>Properties\<close>

text \<open>
  (C23) The limit: in any run of calls at non-decreasing times within \<open>[t, T]\<close> on a limiter
  fresh from \<^verbatim>\<open>NewLimiter\<close>, at most the burst plus the refill rate times the elapsed time of a
  user's calls are allowed, whatever other users do.
\<close>

theorem rate_limit_bound:
  assumes "0 < RequestsPerMinute cfg" and "sorted (t # map fst calls)" and "\<forall>c \<in> set calls. fst c \<le> T" and "t \<le> T"
  shows "of_nat (allowed_count u (fst (allow_run (NewLimiter cfg) calls)))
    \<le> lim_burst (NewLimiter cfg) + Seconds (T - t) * (of_int (RequestsPerMinute cfg) / 60)"
proof -
  have "0 < lim_rate (NewLimiter cfg)" "lim_rate (NewLimiter cfg) = of_int (RequestsPerMinute cfg) / 60"
    "tokens_at (NewLimiter cfg) t u = lim_burst (NewLimiter cfg)"
    using assms(1) by (simp_all add: NewLimiter_def tokens_at_def Let_def)
  with allow_run_potential[OF _ assms(2-4) NewLimiter_ok, of cfg u] show ?thesis by simp
qed

theorem rate_limit_bound_witness:
  "of_nat (allowed_count ''u'' (fst (allow_run (NewLimiter \<lparr>RequestsPerMinute = 60, BurstSize = 2\<rparr>)
      [(0, ''u''), (0, ''u''), (0, ''v''), (Second, ''u'')])))
    \<le> lim_burst (NewLimiter \<lparr>RequestsPerMinute = 60, BurstSize = 2\<rparr>) + Seconds (Second - 0) * (of_int 60 / 60)"
  using rate_limit_bound[of "\<lparr>RequestsPerMinute = 60, BurstSize = 2\<rparr>" 0
      "[(0, ''u''), (0, ''u''), (0, ''v''), (Second, ''u'')]" Second "''u''"] by simp

text \<open>
  Isolation: the decisions a user gets in a run are those of the run without the other users.
\<close>

theorem rate_limit_isolation:
  "decisions_of u (fst (allow_run l calls)) =
    decisions_of u (fst (allow_run l (filter (\<lambda>c. snd c = u) calls)))"
  by (rule allow_run_isolated_gen) simp_all

end
