(* ===== verification/AutoApproval.thy ===== *)
theory AutoApproval
  imports Security
begin

text \<open>
  Pattern based auto-approval (\<^verbatim>\<open>approval/auto.go\<close>). Maps that the code reads with Go's zero
  value for a missing key are total functions here. \<open>ShouldAutoApprove\<close> takes its lock twice:
  \<open>aa_cap_check\<close> is the first critical section, \<open>aa_bump\<close> the last; the function is their
  composition when no other call runs in between. The keys are digests: \<open>codec\<close> holds SHA-256
  (truncated, in hex) and \<^verbatim>\<open>json.Marshal\<close> as functions.
\<close>

record codec =
  digest :: "string \<Rightarrow> string"
  marshal :: "params \<Rightarrow> string"

record AutoApprovalConfig =
  aac_Enabled :: bool
  aac_MaxAutoApprovals :: int
  aac_AllowedTools :: "string list"
  aac_RequiredApprovals :: int
  aac_WindowHours :: int

record AutoApprover =
  aa_history :: "string \<Rightarrow> time list"
  aa_counters :: "string \<Rightarrow> int"
  aa_hourSlot :: int
  aa_config :: AutoApprovalConfig

definition NewAutoApprover :: "AutoApprovalConfig \<Rightarrow> AutoApprover" where
  "NewAutoApprover cfg =
     (let c1 = (if aac_MaxAutoApprovals cfg \<le> 0 then cfg\<lparr>aac_MaxAutoApprovals := 10\<rparr> else cfg);
          c2 = (if aac_RequiredApprovals c1 \<le> 0 then c1\<lparr>aac_RequiredApprovals := 3\<rparr> else c1);
          c3 = (if aac_WindowHours c2 \<le> 0 then c2\<lparr>aac_WindowHours := 24\<rparr> else c2)
      in \<lparr>aa_history = (\<lambda>_. []), aa_counters = (\<lambda>_. 0), aa_hourSlot = 0, aa_config = c3\<rparr>)"

definition isToolAllowed :: "AutoApprover \<Rightarrow> string \<Rightarrow> bool" where
  "isToolAllowed a toolName =
     (if length (aac_AllowedTools (aa_config a)) = 0 then False
      else list_has (aac_AllowedTools (aa_config a)) toolName)"

definition approvalKey :: "codec \<Rightarrow> string \<Rightarrow> string \<Rightarrow> params \<Rightarrow> string" where
  "approvalKey cd userID toolName ps = digest cd (userID @ ''|'' @ toolName @ ''|'' @ marshal cd ps)"

definition current_hour :: "time \<Rightarrow> int" where
  "current_hour now = now div Second div 3600"

definition aa_cap_check :: "AutoApprover \<Rightarrow> time \<Rightarrow> string \<Rightarrow> bool \<times> AutoApprover" where
  "aa_cap_check a now userID =
     (let a' = (if current_hour now \<noteq> aa_hourSlot a
                then a\<lparr>aa_counters := (\<lambda>_. 0), aa_hourSlot := current_hour now\<rparr> else a)
      in (\<not> aa_counters a' userID \<ge> aac_MaxAutoApprovals (aa_config a'), a'))"

definition aa_cutoff :: "AutoApprover \<Rightarrow> time \<Rightarrow> time" where
  "aa_cutoff a now = now - aac_WindowHours (aa_config a) * Hour"

definition aa_recent :: "AutoApprover \<Rightarrow> string \<Rightarrow> time \<Rightarrow> nat" where
  "aa_recent a key now = length (filter (\<lambda>ts. ts > aa_cutoff a now) (aa_history a key))"

definition aa_bump :: "AutoApprover \<Rightarrow> string \<Rightarrow> AutoApprover" where
  "aa_bump a userID = a\<lparr>aa_counters := (aa_counters a)(userID := aa_counters a userID + 1)\<rparr>"

definition ShouldAutoApprove ::
  "codec \<Rightarrow> AutoApprover \<Rightarrow> time \<Rightarrow> string \<Rightarrow> string \<Rightarrow> params \<Rightarrow> bool \<times> AutoApprover" where
  "ShouldAutoApprove cd a now userID toolName ps =
     (if \<not> aac_Enabled (aa_config a) then (False, a)
      else if \<not> isToolAllowed a toolName then (False, a)
      else let (under, a1) = aa_cap_check a now userID
           in if \<not> under then (False, a1)
              else if int (aa_recent a1 (approvalKey cd userID toolName ps) now) \<ge> aac_RequiredApprovals (aa_config a1)
              then (True, aa_bump a1 userID)
              else (False, a1))"

definition RecordManualApproval ::
  "codec \<Rightarrow> AutoApprover \<Rightarrow> time \<Rightarrow> string \<Rightarrow> string \<Rightarrow> params \<Rightarrow> AutoApprover" where
  "RecordManualApproval cd a now userID toolName ps =
     (let key = approvalKey cd userID toolName ps;
          entries = aa_history a key @ [now];
          pruned = filter (\<lambda>ts. ts > aa_cutoff a now) entries
      in a\<lparr>aa_history := (aa_history a)(key := pruned)\<rparr>)"

section \<open>Runs\<close>

datatype aa_op = AARecord string string params | AAShould string string params

fun aa_step :: "codec \<Rightarrow> AutoApprover \<Rightarrow> time \<times> aa_op \<Rightarrow> bool \<times> AutoApprover" where
  "aa_step cd a (t, AARecord u tool ps) = (False, RecordManualApproval cd a t u tool ps)"
| "aa_step cd a (t, AAShould u tool ps) = ShouldAutoApprove cd a t u tool ps"

fun aa_user :: "time \<times> aa_op \<Rightarrow> string" where
  "aa_user (t, AARecord u tool ps) = u"
| "aa_user (t, AAShould u tool ps) = u"

fun aa_run :: "codec \<Rightarrow> AutoApprover \<Rightarrow> (time \<times> aa_op) list \<Rightarrow> AutoApprover" where
  "aa_run cd a [] = a"
| "aa_run cd a (op # ops) = aa_run cd (snd (aa_step cd a op)) ops"

text \<open>The number of requests of \<open>u\<close> that a run auto-approves.\<close>

fun aa_granted :: "codec \<Rightarrow> AutoApprover \<Rightarrow> string \<Rightarrow> (time \<times> aa_op) list \<Rightarrow> nat" where
  "aa_granted cd a u [] = 0"
| "aa_granted cd a u (op # ops) =
     (if aa_user op = u \<and> fst (aa_step cd a op) then 1 else 0) + aa_granted cd (snd (aa_step cd a op)) u ops"

text \<open>The manual approvals of a key that a run records.\<close>

fun aa_records :: "codec \<Rightarrow> string \<Rightarrow> (time \<times> aa_op) list \<Rightarrow> time list" where
  "aa_records cd key [] = []"
| "aa_records cd key ((t, AARecord u tool ps) # ops) =
     (if approvalKey cd u tool ps = key then t # aa_records cd key ops else aa_records cd key ops)"
| "aa_records cd key (_ # ops) = aa_records cd key ops"

lemmas aa_defs = ShouldAutoApprove_def RecordManualApproval_def aa_cap_check_def aa_bump_def Let_def

lemma aa_step_config [simp]: "aa_config (snd (aa_step cd a op)) = aa_config a"
  by (induction cd a op rule: aa_step.induct) (auto simp: aa_defs split: prod.splits)

lemma aa_run_config [simp]: "aa_config (aa_run cd a ops) = aa_config a"
  by (induction ops arbitrary: a) simp_all

section \<open>The hourly cap\<close>

text \<open>What is left of the user's allowance in hour \<open>h\<close>.\<close>

definition allowance :: "AutoApprover \<Rightarrow> int \<Rightarrow> string \<Rightarrow> int" where
  "allowance a h u = aac_MaxAutoApprovals (aa_config a) - (if aa_hourSlot a = h then aa_counters a u else 0)"

lemma aa_step_allowance:
  assumes "current_hour (fst op) = h" and "0 \<le> allowance a h u" and "0 < aac_MaxAutoApprovals (aa_config a)"
  shows "(if aa_user op = u \<and> fst (aa_step cd a op) then 1 else 0) + allowance (snd (aa_step cd a op)) h u
    \<le> allowance a h u \<and> 0 \<le> allowance (snd (aa_step cd a op)) h u"
  using assms
  by (induction cd a op rule: aa_step.induct) (auto simp: aa_defs allowance_def)

lemma aa_granted_allowance:
  assumes "\<forall>op \<in> set ops. current_hour (fst op) = h" and "0 \<le> allowance a h u"
    and "0 < aac_MaxAutoApprovals (aa_config a)"
  shows "int (aa_granted cd a u ops) \<le> allowance a h u"
  using assms
proof (induction ops arbitrary: a)
  case Nil
  then show ?case by simp
next
  case (Cons op ops)
  have s: "(if aa_user op = u \<and> fst (aa_step cd a op) then 1 else 0) + allowance (snd (aa_step cd a op)) h u
      \<le> allowance a h u" "0 \<le> allowance (snd (aa_step cd a op)) h u"
    using aa_step_allowance[of op h a u cd] Cons.prems by simp_all
  have "int (aa_granted cd (snd (aa_step cd a op)) u ops) \<le> allowance (snd (aa_step cd a op)) h u"
    using Cons.IH[of "snd (aa_step cd a op)"] Cons.prems s by simp
  with s show ?case by (auto split: if_splits)
qed

section \<open>Auto-approval needs recorded manual approvals\<close>

lemma aa_records_append: "aa_records cd key (xs @ ys) = aa_records cd key xs @ aa_records cd key ys"
  by (induction cd key xs rule: aa_records.induct) auto

lemma aa_run_append: "aa_run cd a (xs @ ys) = aa_run cd (aa_run cd a xs) ys"
  by (induction xs arbitrary: a) simp_all

lemma aa_step_history:
  "mset (aa_history (snd (aa_step cd a op)) key) \<subseteq># mset (aa_history a key) + mset (aa_records cd key [op])"
proof (cases "snd op")
  case (AARecord u tool ps)
  obtain t where op: "op = (t, AARecord u tool ps)" using AARecord by (cases op) simp
  have sub: "mset (filter P xs) \<subseteq># mset xs" for P and xs :: "time list"
    by (simp add: multiset_filter_subset)
  show ?thesis
    using sub[of _ "aa_history a key"] sub[of _ "aa_history a key", THEN subset_mset.order_trans]
    by (auto simp: op RecordManualApproval_def Let_def simp del: mset_filter)
next
  case (AAShould u tool ps)
  then obtain t where "op = (t, AAShould u tool ps)" by (cases op) simp
  then show ?thesis by (simp add: aa_defs split: prod.splits)
qed

lemma aa_history_recorded:
  assumes "aa_history a key = []"
  shows "mset (aa_history (aa_run cd a ops) key) \<subseteq># mset (aa_records cd key ops)"
proof (induction ops rule: rev_induct)
  case Nil
  then show ?case using assms by simp
next
  case (snoc op ops)
  have "mset (aa_history (aa_run cd a (ops @ [op])) key)
      \<subseteq># mset (aa_history (aa_run cd a ops) key) + mset (aa_records cd key [op])"
    using aa_step_history[of cd "aa_run cd a ops" op key] by (simp add: aa_run_append)
  also have "\<dots> \<subseteq># mset (aa_records cd key ops) + mset (aa_records cd key [op])"
    using snoc by simp
  finally show ?case by (simp add: aa_records_append)
qed

lemma filter_length_mono: "mset xs \<subseteq># mset ys \<Longrightarrow> length (filter P xs) \<le> length (filter P ys)"
  by (metis mset_filter multiset_filter_mono size_mset size_mset_mono)

lemma ShouldAutoApprove_True:
  assumes "fst (ShouldAutoApprove cd a now u tool ps)"
  shows "aac_Enabled (aa_config a) \<and> tool \<in> set (aac_AllowedTools (aa_config a)) \<and>
    aac_RequiredApprovals (aa_config a) \<le> int (aa_recent a (approvalKey cd u tool ps) now)"
  using assms by (auto simp: aa_defs isToolAllowed_def aa_recent_def aa_cutoff_def split: if_splits)

section \<open>Properties\<close>

definition demo_codec :: codec where
  "demo_codec = \<lparr>digest = (\<lambda>s. s), marshal = (\<lambda>ps. ''{}'')\<rparr>"

definition demo_aa :: AutoApprover where
  "demo_aa = NewAutoApprover \<lparr>aac_Enabled = True, aac_MaxAutoApprovals = 1, aac_AllowedTools = [''shell''],
     aac_RequiredApprovals = 1, aac_WindowHours = 24\<rparr>"

definition demo_ops :: "(time \<times> aa_op) list" where
  "demo_ops = [(1, AARecord ''u'' ''shell'' []), (2, AAShould ''u'' ''shell'' []), (3, AAShould ''u'' ''shell'' [])]"

lemmas demo_aa_eval = demo_aa_def demo_ops_def demo_codec_def NewAutoApprover_def ShouldAutoApprove_def
  RecordManualApproval_def aa_cap_check_def aa_bump_def Let_def isToolAllowed_def aa_recent_def
  aa_cutoff_def approvalKey_def current_hour_def

text \<open>
  The hourly cap: within one clock hour, a run of recordings and requests auto-approves at most
  \<^verbatim>\<open>MaxAutoApprovals\<close> requests of a user.
\<close>

theorem auto_approvals_capped:
  assumes "\<forall>op \<in> set ops. current_hour (fst op) = h"
  shows "int (aa_granted cd (NewAutoApprover cfg) u ops) \<le> aac_MaxAutoApprovals (aa_config (NewAutoApprover cfg))"
proof -
  have "0 < aac_MaxAutoApprovals (aa_config (NewAutoApprover cfg))"
    "allowance (NewAutoApprover cfg) h u = aac_MaxAutoApprovals (aa_config (NewAutoApprover cfg))"
    by (simp_all add: NewAutoApprover_def allowance_def Let_def)
  with aa_granted_allowance[OF assms, of "NewAutoApprover cfg" u cd] show ?thesis by simp
qed

theorem auto_approvals_capped_witness:
  "aa_granted demo_codec demo_aa ''u'' demo_ops = 1 \<and> int (aa_granted demo_codec demo_aa ''u'' demo_ops) \<le> 1"
proof -
  have "\<forall>op \<in> set demo_ops. current_hour (fst op) = 0" by (simp add: demo_ops_def current_hour_def)
  from auto_approvals_capped[OF this, of demo_codec "\<lparr>aac_Enabled = True, aac_MaxAutoApprovals = 1, aac_AllowedTools = [''shell''],
     aac_RequiredApprovals = 1, aac_WindowHours = 24\<rparr>" "''u''"]
  have "int (aa_granted demo_codec demo_aa ''u'' demo_ops) \<le> 1"
    by (simp add: demo_aa_def NewAutoApprover_def)
  moreover have "aa_granted demo_codec demo_aa ''u'' demo_ops = 1" by (simp add: demo_aa_eval)
  ultimately show ?thesis by blast
qed

text \<open>
  Auto-approval rests on people: when a request is auto-approved after a run from the
  start, the feature is on, the tool is on the allow list, and at least \<^verbatim>\<open>RequiredApprovals\<close>
  manual approvals of the same user, tool and parameters (the same key) were recorded within the window.
\<close>

theorem auto_approval_needs_manual_approvals:
  assumes "fst (ShouldAutoApprove cd (aa_run cd (NewAutoApprover cfg) ops) now u tool ps)"
  shows "aac_Enabled (aa_config (NewAutoApprover cfg)) \<and> tool \<in> set (aac_AllowedTools cfg) \<and>
    aac_RequiredApprovals (aa_config (NewAutoApprover cfg)) \<le>
      int (length (filter (\<lambda>ts. ts > aa_cutoff (NewAutoApprover cfg) now)
        (aa_records cd (approvalKey cd u tool ps) ops)))"
proof -
  let ?a = "NewAutoApprover cfg" and ?key = "approvalKey cd u tool ps"
  have h: "aa_history ?a ?key = []" "aac_AllowedTools (aa_config ?a) = aac_AllowedTools cfg"
    by (simp_all add: NewAutoApprover_def Let_def)
  have "aa_recent (aa_run cd ?a ops) ?key now \<le>
      length (filter (\<lambda>ts. ts > aa_cutoff ?a now) (aa_records cd ?key ops))"
    using filter_length_mono[OF aa_history_recorded[OF h(1), of cd ops]] by (simp add: aa_recent_def aa_cutoff_def)
  with ShouldAutoApprove_True[OF assms] h(2) show ?thesis by simp
qed

theorem auto_approval_needs_manual_approvals_witness:
  "1 \<le> int (length (filter (\<lambda>ts. ts > aa_cutoff demo_aa 2)
        (aa_records demo_codec (approvalKey demo_codec ''u'' ''shell'' []) [(1, AARecord ''u'' ''shell'' [])])))"
proof -
  let ?cfg = "\<lparr>aac_Enabled = True, aac_MaxAutoApprovals = 1, aac_AllowedTools = [''shell''],
     aac_RequiredApprovals = 1, aac_WindowHours = 24\<rparr>"
  have "fst (ShouldAutoApprove demo_codec (aa_run demo_codec (NewAutoApprover ?cfg) [(1, AARecord ''u'' ''shell'' [])]) 2 ''u'' ''shell'' [])"
    by (simp add: demo_aa_eval)
  from auto_approval_needs_manual_approvals[OF this] show ?thesis
    by (simp add: demo_aa_def NewAutoApprover_def)
qed

text \<open>
  The cap is not atomic: two requests of one user that both pass the first critical section
  before either reaches the last are both granted, so the count exceeds the cap by one.
\<close>

theorem interleaved_requests_exceed_cap:
  assumes "aa_counters a u = aac_MaxAutoApprovals (aa_config a) - 1" and "current_hour now = aa_hourSlot a"
  shows "let (ok1, a1) = aa_cap_check a now u; (ok2, a2) = aa_cap_check a1 now u; a3 = aa_bump (aa_bump a2 u) u
    in ok1 \<and> ok2 \<and> aa_counters a3 u = aac_MaxAutoApprovals (aa_config a3) + 1"
  using assms by (simp add: aa_cap_check_def aa_bump_def Let_def)

theorem interleaved_requests_exceed_cap_witness:
  "let (ok1, a1) = aa_cap_check demo_aa 0 ''u''; (ok2, a2) = aa_cap_check a1 0 ''u''; a3 = aa_bump (aa_bump a2 ''u'') ''u''
   in ok1 \<and> ok2 \<and> aa_counters a3 ''u'' = aac_MaxAutoApprovals (aa_config a3) + 1"
  by (rule interleaved_requests_exceed_cap) (simp_all add: demo_aa_eval)

end
