(* ===== verification/WorkflowTypes.thy ===== *)
theory WorkflowTypes
  imports Prelude
begin

text \<open>
  The data of the workflow engine (\<^verbatim>\<open>orchestrator/types.go\<close> and the request and agent records of
  \<^verbatim>\<open>interfaces.go\<close>). Roles, task modes and message types are strings in the code and
  arrive from the planner's JSON, so they stay strings; the two status types are only ever set
  from their constants and are enumerations.
\<close>

type_synonym AgentRole = string

abbreviation RoleOrchestrator :: AgentRole where "RoleOrchestrator \<equiv> ''orchestrator''"
abbreviation RolePlanner :: AgentRole where "RolePlanner \<equiv> ''planner''"
abbreviation RoleResearcher :: AgentRole where "RoleResearcher \<equiv> ''researcher''"
abbreviation RoleExecutor :: AgentRole where "RoleExecutor \<equiv> ''executor''"
abbreviation RoleCompliance :: AgentRole where "RoleCompliance \<equiv> ''compliance''"
abbreviation RoleDiagnostician :: AgentRole where "RoleDiagnostician \<equiv> ''diagnostician''"

datatype WorkflowStatus =
  WorkflowPending | WorkflowRunning | WorkflowCompleted | WorkflowFailed | WorkflowCancelled

datatype TaskStatus =
  TaskPending | TaskBlocked | TaskRunning | TaskCompleted | TaskFailed | TaskRecovering | TaskSkipped

type_synonym TaskMode = string

abbreviation TaskModeSequential :: TaskMode where "TaskModeSequential \<equiv> ''sequential''"
abbreviation TaskModeParallel :: TaskMode where "TaskModeParallel \<equiv> ''parallel''"

type_synonym MessageType = string

abbreviation MsgTaskAssignment :: MessageType where "MsgTaskAssignment \<equiv> ''task_assignment''"
abbreviation MsgTaskResult :: MessageType where "MsgTaskResult \<equiv> ''task_result''"
abbreviation MsgRecoveryResult :: MessageType where "MsgRecoveryResult \<equiv> ''recovery_result''"

record Workflow =
  wf_ID :: uuid
  wf_OrgID :: uuid
  wf_UserID :: string
  wf_CorrelationID :: string
  wf_Goal :: string
  wf_Status :: WorkflowStatus
  wf_RootTaskID :: "uuid option"
  wf_BudgetLimitUSD :: usd
  wf_BudgetSpentUSD :: usd
  wf_MaxDepth :: int
  wf_MaxTasks :: int
  wf_TaskCount :: int
  wf_CreatedAt :: time
  wf_UpdatedAt :: time
  wf_CompletedAt :: "time option"
  wf_Error :: string
  wf_Metadata :: "params option"

record Task =
  tk_ID :: uuid
  tk_WorkflowID :: uuid
  tk_OrgID :: uuid
  tk_ParentTaskID :: "uuid option"
  tk_AgentRole :: AgentRole
  tk_Description :: string
  tk_Input :: string
  tk_Output :: string
  tk_Status :: TaskStatus
  tk_Mode :: TaskMode
  tk_Depth :: int
  tk_Priority :: int
  tk_DependsOn :: "uuid list"
  tk_CreatedAt :: time
  tk_UpdatedAt :: time
  tk_StartedAt :: "time option"
  tk_CompletedAt :: "time option"
  tk_Error :: string
  tk_CostUSD :: usd
  tk_TokensUsed :: int
  tk_ClaimedBy :: string
  tk_ClaimedAt :: "time option"
  tk_RetryCount :: int
  tk_MaxRetries :: int
  tk_OriginalTaskID :: "uuid option"
  tk_Metadata :: "params option"

record Artifact =
  art_Name :: string
  art_MimeType :: string
  art_Data :: string

record AgentMessage =
  msg_ID :: uuid
  msg_WorkflowID :: uuid
  msg_FromTaskID :: uuid
  msg_ToTaskID :: "uuid option"
  msg_FromRole :: AgentRole
  msg_ToRole :: AgentRole
  msg_MessageType :: MessageType
  msg_Content :: string
  msg_Artifacts :: "Artifact list"
  msg_CorrelationID :: string
  msg_CreatedAt :: time

record TaskSpec =
  ts_AgentRole :: AgentRole
  ts_Description :: string
  ts_Input :: string
  ts_Mode :: TaskMode
  ts_DependsOn :: "int list"
  ts_Priority :: int

record WorkflowRequest =
  wr_UserID :: string
  wr_OrgID :: uuid
  wr_Goal :: string
  wr_CorrelationID :: string
  wr_BudgetLimitUSD :: usd
  wr_MaxDepth :: int
  wr_MaxTasks :: int

record AgentInput =
  ain_WorkflowID :: uuid
  ain_TaskID :: uuid
  ain_UserID :: string
  ain_CorrelationID :: string
  ain_Messages :: "AgentMessage list"
  ain_Instruction :: string

record AgentOutput =
  aout_Response :: string
  aout_TokensUsed :: int
  aout_CostUSD :: usd

text \<open>\<^verbatim>\<open>ValidateRole\<close> of \<^verbatim>\<open>factory.go\<close>.\<close>

definition ValidateRole :: "AgentRole \<Rightarrow> string option" where
  "ValidateRole role =
     (if role \<in> {RoleOrchestrator, RolePlanner, RoleResearcher, RoleExecutor, RoleCompliance, RoleDiagnostician}
      then None else Some (''unknown agent role: '' @ role))"

end
