(* ===== verification/Dag.thy ===== *)
theory Dag
  imports WorkflowTypes
begin

text \<open>
  Plan validation and readiness (\<^verbatim>\<open>orchestrator/dag.go\<close>). \<open>ValidateDAG\<close> is the three-colour depth
  first search of the code over an array of colours; reading the array out of range is the
  panic it is in Go. The main result is that it accepts a plan exactly when its
  dependency indices are in range, no task depends on itself and the dependency relation is
  acyclic.
\<close>

datatype color = White | Gray | Black

datatype dag_error =
    OutOfRange nat int nat
  | SelfDependency nat
  | CycleDetected nat nat
  | IndexPanic int

fun check_deps :: "nat \<Rightarrow> nat \<Rightarrow> int list \<Rightarrow> dag_error option" where
  "check_deps n i [] = None"
| "check_deps n i (dep # deps) =
     (if dep < 0 \<or> dep \<ge> int n then Some (OutOfRange i dep n)
      else if dep = int i then Some (SelfDependency i)
      else check_deps n i deps)"

fun check_specs :: "nat \<Rightarrow> nat \<Rightarrow> TaskSpec list \<Rightarrow> dag_error option" where
  "check_specs n i [] = None"
| "check_specs n i (spec # specs) =
     (case check_deps n i (ts_DependsOn spec) of
        Some e \<Rightarrow> Some e
      | None \<Rightarrow> check_specs n (Suc i) specs)"

definition color_at :: "color list \<Rightarrow> int \<Rightarrow> color option" where
  "color_at colors i = (if 0 \<le> i \<and> nat i < length colors then Some (colors ! nat i) else None)"

definition whites :: "color list \<Rightarrow> nat" where
  "whites colors = length (filter (\<lambda>c. c = White) colors)"

text \<open>
  The loop of \<^verbatim>\<open>dfs\<close> over the dependencies of \<open>node\<close> still to look at. A white dependency
  starts a search of its own: coloured gray, its dependencies searched, coloured black.
\<close>

function (sequential) dfs_deps ::
  "TaskSpec list \<Rightarrow> nat \<Rightarrow> int list \<Rightarrow> color list \<Rightarrow> dag_error + color list" where
  "dfs_deps specs node [] colors = Inr colors"
| "dfs_deps specs node (dep # deps) colors =
     (case color_at colors dep of
        None \<Rightarrow> Inl (IndexPanic dep)
      | Some Gray \<Rightarrow> Inl (CycleDetected node (nat dep))
      | Some Black \<Rightarrow> dfs_deps specs node deps colors
      | Some White \<Rightarrow>
          (case dfs_deps specs (nat dep) (ts_DependsOn (specs ! nat dep)) (colors[nat dep := Gray]) of
             Inl e \<Rightarrow> Inl e
           | Inr colors' \<Rightarrow> dfs_deps specs node deps (colors'[nat dep := Black])))"
  by pat_completeness auto

lemma whites_pos: "j < length cs \<Longrightarrow> cs ! j = White \<Longrightarrow> 0 < whites cs"
  by (auto simp: whites_def filter_empty_conv in_set_conv_nth)

lemma whites_update:
  "i < length cs \<Longrightarrow> c \<noteq> White \<Longrightarrow> whites (cs[i := c]) = whites cs - (if cs ! i = White then 1 else 0)"
proof (induction cs arbitrary: i)
  case (Cons x cs)
  show ?case
  proof (cases i)
    case 0
    with Cons.prems show ?thesis by (simp add: whites_def)
  next
    case (Suc j)
    with Cons.prems whites_pos[of j cs] Cons.IH[of j] show ?thesis by (auto simp: whites_def)
  qed
qed simp

lemma whites_update_le: "c \<noteq> White \<Longrightarrow> whites (cs[i := c]) \<le> whites cs"
  by (cases "i < length cs") (simp_all add: whites_update list_update_beyond)

lemma whites_update_less: "i < length cs \<Longrightarrow> cs ! i = White \<Longrightarrow> c \<noteq> White \<Longrightarrow> whites (cs[i := c]) < whites cs"
  using whites_update[of i cs c] whites_pos[of i cs] by simp

lemma dfs_deps_whites:
  "dfs_deps_dom (specs, node, deps, colors) \<Longrightarrow> dfs_deps specs node deps colors = Inr colors' \<Longrightarrow>
     whites colors' \<le> whites colors"
proof (induction specs node deps colors arbitrary: colors' rule: dfs_deps.pinduct)
  case (1 specs node colors)
  then show ?case by (simp add: dfs_deps.psimps)
next
  case (2 specs node dep deps colors)
  show ?case
  proof (cases "color_at colors dep")
    case None
    with 2 show ?thesis by (simp add: dfs_deps.psimps)
  next
    case (Some c)
    show ?thesis
    proof (cases c)
      case White
      let ?cs = "colors[nat dep := Gray]"
      from 2 Some White obtain c1 where
        c1: "dfs_deps specs (nat dep) (ts_DependsOn (specs ! nat dep)) ?cs = Inr c1"
        and c2: "dfs_deps specs node deps (c1[nat dep := Black]) = Inr colors'"
        by (auto simp: dfs_deps.psimps split: sum.splits)
      from "2.IH"(1)[OF Some White c1] have "whites c1 \<le> whites colors"
        using whites_update_le[of Gray colors "nat dep"] by simp
      moreover from "2.IH"(2)[OF Some White c1 c2] have "whites colors' \<le> whites c1"
        using whites_update_le[of Black c1 "nat dep"] by simp
      ultimately show ?thesis by simp
    next
      case Gray
      with 2 Some show ?thesis by (simp add: dfs_deps.psimps)
    next
      case Black
      with 2 Some show ?thesis by (simp add: dfs_deps.psimps)
    qed
  qed
qed

lemma dfs_deps_whites_black:
  assumes "dfs_deps_dom (specs, n, deps, colors[i := Gray])" and "dfs_deps specs n deps (colors[i := Gray]) = Inr c1"
    and "i < length colors" and "colors ! i = White"
  shows "whites (c1[i := Black]) < whites colors"
  using dfs_deps_whites[OF assms(1,2)] whites_update_less[OF assms(3,4), of Gray] whites_update_le[of Black c1 i]
  by simp

termination dfs_deps
  by (relation "measures [\<lambda>(specs, node, deps, colors). whites colors, \<lambda>(specs, node, deps, colors). length deps]")
    (auto simp: color_at_def whites_update_less dfs_deps_whites_black split: if_splits)

definition dfs :: "TaskSpec list \<Rightarrow> nat \<Rightarrow> color list \<Rightarrow> dag_error + color list" where
  "dfs specs node colors =
     (case dfs_deps specs node (ts_DependsOn (specs ! node)) (colors[node := Gray]) of
        Inl e \<Rightarrow> Inl e
      | Inr colors' \<Rightarrow> Inr (colors'[node := Black]))"

fun visit_all :: "TaskSpec list \<Rightarrow> nat list \<Rightarrow> color list \<Rightarrow> dag_error option" where
  "visit_all specs [] colors = None"
| "visit_all specs (i # is) colors =
     (if colors ! i = White
      then (case dfs specs i colors of
              Inl e \<Rightarrow> Some e
            | Inr colors' \<Rightarrow> visit_all specs is colors')
      else visit_all specs is colors)"

definition ValidateDAG :: "TaskSpec list \<Rightarrow> dag_error option" where
  "ValidateDAG specs =
     (case check_specs (length specs) 0 specs of
        Some e \<Rightarrow> Some e
      | None \<Rightarrow> visit_all specs [0..<length specs] (replicate (length specs) White))"

text \<open>Array access: \<open>None\<close> is the index-out-of-range panic.\<close>

definition nth_opt :: "'a list \<Rightarrow> int \<Rightarrow> 'a option" where
  "nth_opt xs i = (if 0 \<le> i \<and> nat i < length xs then Some (xs ! nat i) else None)"

fun resolve_from :: "nat \<Rightarrow> TaskSpec list \<Rightarrow> uuid list \<Rightarrow> (nat \<rightharpoonup> uuid list) \<Rightarrow> (nat \<rightharpoonup> uuid list) option" where
  "resolve_from i [] taskIDs deps = Some deps"
| "resolve_from i (spec # specs) taskIDs deps =
     (if length (ts_DependsOn spec) = 0 then resolve_from (Suc i) specs taskIDs deps
      else case those (map (nth_opt taskIDs) (ts_DependsOn spec)) of
             None \<Rightarrow> None
           | Some resolved \<Rightarrow> resolve_from (Suc i) specs taskIDs (deps(i \<mapsto> resolved)))"

definition ResolveDependencies :: "TaskSpec list \<Rightarrow> uuid list \<Rightarrow> (nat \<rightharpoonup> uuid list) option" where
  "ResolveDependencies specs taskIDs = resolve_from 0 specs taskIDs Map.empty"

fun all_met :: "(uuid \<Rightarrow> bool) \<Rightarrow> uuid list \<Rightarrow> bool" where
  "all_met completed [] = True"
| "all_met completed (dep # deps) = (if \<not> completed dep then False else all_met completed deps)"

fun FilterReadyTasks :: "Task list \<Rightarrow> (uuid \<Rightarrow> bool) \<Rightarrow> Task list" where
  "FilterReadyTasks [] completed = []"
| "FilterReadyTasks (t # ts) completed =
     (if all_met completed (tk_DependsOn t) then t # FilterReadyTasks ts completed
      else FilterReadyTasks ts completed)"

section \<open>The dependency relation\<close>

definition dep_rel :: "TaskSpec list \<Rightarrow> (nat \<times> nat) set" where
  "dep_rel specs = {(i, d). i < length specs \<and> int d \<in> set (ts_DependsOn (specs ! i))}"

definition deps_in_range :: "TaskSpec list \<Rightarrow> bool" where
  "deps_in_range specs \<longleftrightarrow>
     (\<forall>spec \<in> set specs. \<forall>d \<in> set (ts_DependsOn spec). 0 \<le> d \<and> d < int (length specs))"

lemma deps_in_rangeD:
  "deps_in_range specs \<Longrightarrow> i < length specs \<Longrightarrow> d \<in> set (ts_DependsOn (specs ! i)) \<Longrightarrow>
     0 \<le> d \<and> nat d < length specs \<and> (i, nat d) \<in> dep_rel specs"
  by (auto simp: deps_in_range_def dep_rel_def) (metis nat_less_iff nth_mem)

lemma check_deps_None:
  "check_deps n i deps = None \<longleftrightarrow> (\<forall>d \<in> set deps. 0 \<le> d \<and> d < int n \<and> d \<noteq> int i)"
  by (induction deps) auto

lemma check_specs_None:
  "check_specs n i specs = None \<longleftrightarrow>
     (\<forall>j < length specs. \<forall>d \<in> set (ts_DependsOn (specs ! j)). 0 \<le> d \<and> d < int n \<and> d \<noteq> int (i + j))"
proof (induction specs arbitrary: i)
  case Nil
  then show ?case by simp
next
  case (Cons spec specs)
  have "check_specs n i (spec # specs) = None \<longleftrightarrow>
      check_deps n i (ts_DependsOn spec) = None \<and> check_specs n (Suc i) specs = None"
    by (simp split: option.split)
  also have "\<dots> \<longleftrightarrow> (\<forall>d \<in> set (ts_DependsOn spec). 0 \<le> d \<and> d < int n \<and> d \<noteq> int i) \<and>
      (\<forall>j < length specs. \<forall>d \<in> set (ts_DependsOn (specs ! j)). 0 \<le> d \<and> d < int n \<and> d \<noteq> int (i + Suc j))"
    by (simp only: check_deps_None Cons.IH add_Suc_right add_Suc)
  finally show ?case by (simp only: All_less_Suc2 length_Cons nth_Cons_0 nth_Cons_Suc add_0_right)
qed

section \<open>Correctness of the search\<close>

definition dfs_inv :: "TaskSpec list \<Rightarrow> color list \<Rightarrow> bool" where
  "dfs_inv specs colors \<longleftrightarrow> length colors = length specs \<and>
     (\<forall>i < length specs. colors ! i = Black \<longrightarrow>
        (\<forall>d. (i, d) \<in> dep_rel specs \<longrightarrow> d < length specs \<and> colors ! d = Black) \<and> (i, i) \<notin> (dep_rel specs)\<^sup>+)"

lemma dfs_inv_len: "dfs_inv specs colors \<Longrightarrow> length colors = length specs"
  by (simp add: dfs_inv_def)

lemma dfs_inv_succ:
  "dfs_inv specs colors \<Longrightarrow> i < length specs \<Longrightarrow> colors ! i = Black \<Longrightarrow> (i, d) \<in> dep_rel specs \<Longrightarrow>
     d < length specs \<and> colors ! d = Black"
  unfolding dfs_inv_def by blast

lemma dfs_inv_acyc:
  "dfs_inv specs colors \<Longrightarrow> i < length specs \<Longrightarrow> colors ! i = Black \<Longrightarrow> (i, i) \<notin> (dep_rel specs)\<^sup>+"
  unfolding dfs_inv_def by blast

lemma dfs_invI:
  assumes "length colors = length specs"
    and "\<And>i d. i < length specs \<Longrightarrow> colors ! i = Black \<Longrightarrow> (i, d) \<in> dep_rel specs \<Longrightarrow> d < length specs \<and> colors ! d = Black"
    and "\<And>i. i < length specs \<Longrightarrow> colors ! i = Black \<Longrightarrow> (i, i) \<notin> (dep_rel specs)\<^sup>+"
  shows "dfs_inv specs colors"
  unfolding dfs_inv_def using assms by blast

lemma black_closed:
  assumes "dfs_inv specs colors" and "(i, j) \<in> (dep_rel specs)\<^sup>*" and "i < length specs" and "colors ! i = Black"
  shows "j < length specs \<and> colors ! j = Black"
  using assms(2)
proof (induction rule: rtrancl_induct)
  case base
  with assms show ?case by simp
next
  case (step y z)
  then show ?case using dfs_inv_succ[OF assms(1)] by blast
qed

lemma dfs_inv_gray:
  assumes inv: "dfs_inv specs colors" and d: "colors ! d = White"
  shows "dfs_inv specs (colors[d := Gray])"
proof (rule dfs_invI)
  show "length (colors[d := Gray]) = length specs" using dfs_inv_len[OF inv] by simp
next
  fix i x
  assume i: "i < length specs" "colors[d := Gray] ! i = Black"
  with dfs_inv_len[OF inv] have b: "colors ! i = Black" by (cases "i = d") simp_all
  show "(i, i) \<notin> (dep_rel specs)\<^sup>+" using dfs_inv_acyc[OF inv i(1) b] .
  assume "(i, x) \<in> dep_rel specs"
  from dfs_inv_succ[OF inv i(1) b this] d
  show "x < length specs \<and> colors[d := Gray] ! x = Black" by (cases "x = d") simp_all
qed

text \<open>Blackening a node all of whose dependencies are black keeps the invariant.\<close>

lemma dfs_inv_blacken:
  assumes inv: "dfs_inv specs colors" and d: "d < length specs" "colors ! d = Gray"
    and succ: "\<And>x. (d, x) \<in> dep_rel specs \<Longrightarrow> x < length specs \<and> colors ! x = Black"
  shows "dfs_inv specs (colors[d := Black])"
proof (rule dfs_invI)
  note len = dfs_inv_len[OF inv]
  show "length (colors[d := Black]) = length specs" using len by simp
  fix i x
  assume i: "i < length specs" "colors[d := Black] ! i = Black"
  have acyc: "(d, d) \<notin> (dep_rel specs)\<^sup>+"
  proof
    assume "(d, d) \<in> (dep_rel specs)\<^sup>+"
    then obtain x where "(d, x) \<in> dep_rel specs" "(x, d) \<in> (dep_rel specs)\<^sup>*" by (meson tranclD)
    with succ black_closed[OF inv] have "colors ! d = Black" by blast
    with d show False by simp
  qed
  show "(i, i) \<notin> (dep_rel specs)\<^sup>+"
    using i acyc dfs_inv_acyc[OF inv i(1)] by (cases "i = d") simp_all
  assume ix: "(i, x) \<in> dep_rel specs"
  have "x < length specs \<and> colors ! x = Black"
    using i ix succ dfs_inv_succ[OF inv i(1) _ ix] by (cases "i = d") simp_all
  then show "x < length specs \<and> colors[d := Black] ! x = Black"
    using len by (cases "x = d") simp_all
qed

definition dfs_post :: "TaskSpec list \<Rightarrow> color list \<Rightarrow> int list \<Rightarrow> dag_error + color list \<Rightarrow> bool" where
  "dfs_post specs colors deps r =
     (case r of
        Inl e \<Rightarrow> \<not> acyclic (dep_rel specs)
      | Inr colors' \<Rightarrow> dfs_inv specs colors' \<and>
          (\<forall>i < length specs. colors' ! i = Gray \<longleftrightarrow> colors ! i = Gray) \<and>
          (\<forall>i < length specs. colors ! i = Black \<longrightarrow> colors' ! i = Black) \<and>
          (\<forall>d \<in> set deps. colors' ! nat d = Black))"

text \<open>The invariant kept, a white dependency fully searched and blackened.\<close>

lemma dfs_post_black:
  assumes range: "deps_in_range specs" and inv: "dfs_inv specs colors" and d: "d < length specs" "colors ! d = White"
    and post: "dfs_post specs (colors[d := Gray]) (ts_DependsOn (specs ! d)) (Inr c1)"
  shows "dfs_inv specs (c1[d := Black])"
    and "\<And>i. i < length specs \<Longrightarrow> c1[d := Black] ! i = Gray \<longleftrightarrow> colors ! i = Gray"
    and "\<And>i. i < length specs \<Longrightarrow> colors ! i = Black \<Longrightarrow> c1[d := Black] ! i = Black"
    and "c1[d := Black] ! d = Black"
proof -
  note len = dfs_inv_len[OF inv]
  from post have inv1: "dfs_inv specs c1"
    and gray: "\<And>i. i < length specs \<Longrightarrow> c1 ! i = Gray \<longleftrightarrow> colors[d := Gray] ! i = Gray"
    and black: "\<And>i. i < length specs \<Longrightarrow> colors[d := Gray] ! i = Black \<Longrightarrow> c1 ! i = Black"
    and succ: "\<And>x. x \<in> set (ts_DependsOn (specs ! d)) \<Longrightarrow> c1 ! nat x = Black"
    by (simp_all add: dfs_post_def)
  note len1 = dfs_inv_len[OF inv1]
  have "c1 ! d = Gray" using gray[OF d(1)] len d(1) by simp
  moreover have "x < length specs \<and> c1 ! x = Black" if "(d, x) \<in> dep_rel specs" for x
    using that succ[of "int x"] deps_in_rangeD[OF range d(1), of "int x"] by (auto simp: dep_rel_def)
  ultimately show "dfs_inv specs (c1[d := Black])" using dfs_inv_blacken[OF inv1 d(1)] by blast
  show "c1[d := Black] ! i = Gray \<longleftrightarrow> colors ! i = Gray" if "i < length specs" for i
    using that gray[OF that] len len1 d by (cases "i = d") simp_all
  show "c1[d := Black] ! i = Black" if "i < length specs" "colors ! i = Black" for i
    using that black[of i] len len1 d by (cases "i = d") simp_all
  show "c1[d := Black] ! d = Black" using len1 d(1) by simp
qed

lemma dfs_deps_correct:
  assumes "deps_in_range specs" and "dfs_inv specs colors" and "node < length specs"
    and "set deps \<subseteq> set (ts_DependsOn (specs ! node))"
    and "\<And>g. g < length specs \<Longrightarrow> colors ! g = Gray \<Longrightarrow> (g, node) \<in> (dep_rel specs)\<^sup>*"
  shows "dfs_post specs colors deps (dfs_deps specs node deps colors)"
  using assms
proof (induction specs node deps colors rule: dfs_deps.induct)
  case (1 specs node colors)
  then show ?case by (simp add: dfs_post_def)
next
  case (2 specs node dep deps colors)
  let ?d = "nat dep"
  note inv = "2.prems"(2)
  have d: "0 \<le> dep" "?d < length specs" "(node, ?d) \<in> dep_rel specs"
    using deps_in_rangeD[OF "2.prems"(1,3)] "2.prems"(4) by auto
  then have c: "color_at colors dep = Some (colors ! ?d)" using dfs_inv_len[OF inv] by (simp add: color_at_def)
  have sub: "set deps \<subseteq> set (ts_DependsOn (specs ! node))" using "2.prems"(4) by simp
  show ?case
  proof (cases "colors ! ?d")
    case Gray
    then have "(?d, node) \<in> (dep_rel specs)\<^sup>*" using "2.prems"(5) d(2) by blast
    with d(3) have "(node, node) \<in> (dep_rel specs)\<^sup>+" by (rule rtrancl_into_trancl2)
    then have "\<not> acyclic (dep_rel specs)" by (auto simp: acyclic_def)
    with c Gray show ?thesis by (simp add: dfs_post_def)
  next
    case Black
    have "dfs_post specs colors deps (dfs_deps specs node deps colors)"
      using "2.IH"(3)[OF c Black "2.prems"(1,2,3) sub "2.prems"(5)] .
    with c Black d(2) show ?thesis by (auto simp: dfs_post_def split: sum.splits)
  next
    case White
    let ?cs = "colors[?d := Gray]"
    let ?r = "dfs_deps specs ?d (ts_DependsOn (specs ! ?d)) ?cs"
    have path: "(g, ?d) \<in> (dep_rel specs)\<^sup>*" if "g < length specs" "?cs ! g = Gray" for g
      using that "2.prems"(5)[of g] d(3) by (cases "g = ?d") (auto intro: rtrancl_into_rtrancl)
    have post: "dfs_post specs ?cs (ts_DependsOn (specs ! ?d)) ?r"
      using "2.IH"(1)[OF c White "2.prems"(1) dfs_inv_gray[OF inv White] d(2) order_refl path] .
    show ?thesis
    proof (cases ?r)
      case (Inl e)
      with post c White show ?thesis by (simp add: dfs_post_def)
    next
      case (Inr c1)
      note after = dfs_post_black[OF "2.prems"(1) inv d(2) White post[unfolded Inr]]
      have "dfs_post specs (c1[?d := Black]) deps (dfs_deps specs node deps (c1[?d := Black]))"
        using "2.IH"(2)[OF c White Inr "2.prems"(1) after(1) "2.prems"(3) sub] "2.prems"(5) after(2) by blast
      with c White Inr after d(2) show ?thesis by (auto simp: dfs_post_def split: sum.splits)
    qed
  qed
qed

lemma dfs_correct:
  assumes range: "deps_in_range specs" and inv: "dfs_inv specs colors" and i: "i < length specs" "colors ! i = White"
    and nogray: "\<And>g. g < length specs \<Longrightarrow> colors ! g \<noteq> Gray"
  shows "case dfs specs i colors of
      Inl e \<Rightarrow> \<not> acyclic (dep_rel specs)
    | Inr c \<Rightarrow> dfs_inv specs c \<and> (\<forall>g < length specs. c ! g \<noteq> Gray) \<and>
        (\<forall>g < length specs. colors ! g = Black \<longrightarrow> c ! g = Black) \<and> c ! i = Black"
proof -
  let ?r = "dfs_deps specs i (ts_DependsOn (specs ! i)) (colors[i := Gray])"
  have path: "(g, i) \<in> (dep_rel specs)\<^sup>*" if "g < length specs" "colors[i := Gray] ! g = Gray" for g
    using that nogray[of g] by (cases "g = i") simp_all
  have post: "dfs_post specs (colors[i := Gray]) (ts_DependsOn (specs ! i)) ?r"
    using dfs_deps_correct[OF range dfs_inv_gray[OF inv i(2)] i(1) order_refl path] .
  show ?thesis
  proof (cases ?r)
    case (Inl e)
    with post show ?thesis by (simp add: dfs_def dfs_post_def)
  next
    case (Inr c1)
    from dfs_post_black[OF range inv i post[unfolded Inr]] nogray Inr
    show ?thesis by (simp add: dfs_def)
  qed
qed

lemma all_black_acyclic:
  assumes inv: "dfs_inv specs colors" and all: "\<And>i. i < length specs \<Longrightarrow> colors ! i = Black"
  shows "acyclic (dep_rel specs)"
proof (unfold acyclic_def, intro allI notI)
  fix i
  assume c: "(i, i) \<in> (dep_rel specs)\<^sup>+"
  then obtain x where "(i, x) \<in> dep_rel specs" by (meson tranclD)
  then have "i < length specs" by (simp add: dep_rel_def)
  with dfs_inv_acyc[OF inv this all[OF this]] c show False by blast
qed

lemma visit_all_correct:
  assumes range: "deps_in_range specs" and "dfs_inv specs colors" and "\<And>g. g < length specs \<Longrightarrow> colors ! g \<noteq> Gray"
    and "set is \<subseteq> {..<length specs}" and "\<And>g. g < length specs \<Longrightarrow> g \<in> set is \<or> colors ! g = Black"
  shows "visit_all specs is colors = None \<longleftrightarrow> acyclic (dep_rel specs)"
  using assms(2-)
proof (induction "is" arbitrary: colors)
  case Nil
  then show ?case using all_black_acyclic[of specs colors] by simp
next
  case (Cons i "is")
  show ?case
  proof (cases "colors ! i = White")
    case True
    have i: "i < length specs" using Cons.prems(3) by simp
    note d = dfs_correct[OF range Cons.prems(1) i True Cons.prems(2)]
    show ?thesis
    proof (cases "dfs specs i colors")
      case (Inl e)
      with d True show ?thesis by simp
    next
      case (Inr c)
      with d have c: "dfs_inv specs c" "\<And>g. g < length specs \<Longrightarrow> c ! g \<noteq> Gray"
        "\<And>g. g < length specs \<Longrightarrow> colors ! g = Black \<Longrightarrow> c ! g = Black" "c ! i = Black"
        by simp_all
      have "visit_all specs is c = None \<longleftrightarrow> acyclic (dep_rel specs)"
        by (rule Cons.IH) (use c Cons.prems(3,4) in auto)
      with Inr True show ?thesis by simp
    qed
  next
    case False
    then have "colors ! i = Black" using Cons.prems(2,3) by (cases "colors ! i") auto
    then have "visit_all specs is colors = None \<longleftrightarrow> acyclic (dep_rel specs)"
      by (intro Cons.IH) (use Cons.prems in auto)
    with False show ?thesis by simp
  qed
qed

lemma ValidateDAG_None_iff:
  "ValidateDAG specs = None \<longleftrightarrow> deps_in_range specs \<and> acyclic (dep_rel specs)"
proof (cases "check_specs (length specs) 0 specs")
  case (Some e)
  have "\<not> (deps_in_range specs \<and> acyclic (dep_rel specs))"
  proof
    assume h: "deps_in_range specs \<and> acyclic (dep_rel specs)"
    have "check_specs (length specs) 0 specs = None"
      unfolding check_specs_None
    proof (intro allI impI ballI)
      fix j d
      assume jd: "j < length specs" "d \<in> set (ts_DependsOn (specs ! j))"
      from deps_in_rangeD[OF _ jd] h have r: "0 \<le> d" "nat d < length specs" "(j, nat d) \<in> dep_rel specs" by simp_all
      then have "nat d \<noteq> j" using h by (auto simp: acyclic_def)
      with r show "0 \<le> d \<and> d < int (length specs) \<and> d \<noteq> int (0 + j)" by auto
    qed
    with Some show False by simp
  qed
  with Some show ?thesis by (simp add: ValidateDAG_def)
next
  case None
  then have "deps_in_range specs"
    unfolding check_specs_None deps_in_range_def by (metis in_set_conv_nth)
  moreover from this have "visit_all specs [0..<length specs] (replicate (length specs) White) = None
      \<longleftrightarrow> acyclic (dep_rel specs)"
    by (intro visit_all_correct) (auto simp: dfs_inv_def)
  ultimately show ?thesis using None by (simp add: ValidateDAG_def)
qed

lemma finite_dep_rel: "deps_in_range specs \<Longrightarrow> finite (dep_rel specs)"
proof -
  assume r: "deps_in_range specs"
  have "dep_rel specs \<subseteq> {..<length specs} \<times> {..<length specs}"
    using r by (force simp: dep_rel_def deps_in_range_def)
  then show ?thesis using finite_subset by blast
qed

text \<open>The search never leaves the colour array of a plan whose indices passed the range check.\<close>

lemma dfs_deps_no_panic:
  assumes "deps_in_range specs" "length colors = length specs"
    and "\<forall>d \<in> set deps. 0 \<le> d \<and> d < int (length specs)"
  shows "dfs_deps specs node deps colors \<noteq> Inl (IndexPanic i) \<and>
    (\<forall>cs. dfs_deps specs node deps colors = Inr cs \<longrightarrow> length cs = length specs)"
  using assms
proof (induction specs node deps colors rule: dfs_deps.induct)
  case (1 specs node colors)
  then show ?case by simp
next
  case (2 specs node dep deps colors)
  have d: "0 \<le> dep" "nat dep < length specs" using "2.prems"(3) by auto
  then have c: "color_at colors dep = Some (colors ! nat dep)" using "2.prems"(2) by (simp add: color_at_def)
  have sub: "\<forall>x \<in> set (ts_DependsOn (specs ! nat dep)). 0 \<le> x \<and> x < int (length specs)"
    using "2.prems"(1) d by (auto simp: deps_in_range_def)
  show ?case
  proof (cases "colors ! nat dep")
    case White
    note inner = "2.IH"(1)[OF c White "2.prems"(1) _ sub]
    show ?thesis
    proof (cases "dfs_deps specs (nat dep) (ts_DependsOn (specs ! nat dep)) (colors[nat dep := Gray])")
      case (Inl e)
      with inner "2.prems"(2) c White show ?thesis by simp
    next
      case (Inr cs)
      with inner "2.prems"(2) have "length cs = length specs" by simp
      with "2.IH"(2)[OF c White Inr] "2.prems" c White Inr show ?thesis by simp
    qed
  next
    case Gray
    with c show ?thesis by simp
  next
    case Black
    with "2.IH"(3)[OF c Black] "2.prems" c show ?thesis by simp
  qed
qed

lemma visit_all_no_panic:
  "deps_in_range specs \<Longrightarrow> length colors = length specs \<Longrightarrow> \<forall>i \<in> set is. i < length specs \<Longrightarrow>
     visit_all specs is colors \<noteq> Some (IndexPanic k)"
proof (induction "is" arbitrary: colors)
  case Nil
  then show ?case by simp
next
  case (Cons i "is")
  have sub: "\<forall>x \<in> set (ts_DependsOn (specs ! i)). 0 \<le> x \<and> x < int (length specs)"
    using Cons.prems by (auto simp: deps_in_range_def)
  note np = dfs_deps_no_panic[OF Cons.prems(1) _ sub, of "colors[i := Gray]" i k]
  show ?case
    using np Cons by (auto simp: dfs_def split: sum.splits)
qed

lemma check_deps_no_panic [simp]: "check_deps n i ds \<noteq> Some (IndexPanic k)"
  by (induction ds) auto

lemma check_specs_no_panic: "check_specs n i specs \<noteq> Some (IndexPanic k)"
  by (induction specs arbitrary: i) (auto split: option.splits)

lemma ValidateDAG_no_panic: "ValidateDAG specs \<noteq> Some (IndexPanic k)"
proof (cases "check_specs (length specs) 0 specs")
  case None
  then have "deps_in_range specs"
    unfolding check_specs_None deps_in_range_def by (metis in_set_conv_nth)
  with None show ?thesis by (simp add: ValidateDAG_def visit_all_no_panic)
next
  case (Some e)
  with check_specs_no_panic[of "length specs" 0 specs k] show ?thesis by (simp add: ValidateDAG_def)
qed

section \<open>Resolution and readiness\<close>

lemma those_nth_opt:
  "(\<And>d. d \<in> set ds \<Longrightarrow> 0 \<le> d \<and> nat d < length ids) \<Longrightarrow>
     those (map (nth_opt ids) ds) = Some (map (\<lambda>d. ids ! nat d) ds)"
  by (induction ds) (simp_all add: nth_opt_def)

lemma resolve_from_Some:
  assumes "\<And>spec d. spec \<in> set specs \<Longrightarrow> d \<in> set (ts_DependsOn spec) \<Longrightarrow> 0 \<le> d \<and> nat d < length ids"
  shows "resolve_from k specs ids m = Some (\<lambda>i. if k \<le> i \<and> i < k + length specs \<and> ts_DependsOn (specs ! (i - k)) \<noteq> []
      then Some (map (\<lambda>d. ids ! nat d) (ts_DependsOn (specs ! (i - k)))) else m i)"
  using assms
proof (induction specs arbitrary: k m)
  case Nil
  then show ?case by (auto simp: fun_eq_iff)
next
  case (Cons spec specs)
  have IH: "resolve_from (Suc k) specs ids m' = Some (\<lambda>i. if Suc k \<le> i \<and> i < Suc k + length specs \<and> ts_DependsOn (specs ! (i - Suc k)) \<noteq> []
      then Some (map (\<lambda>d. ids ! nat d) (ts_DependsOn (specs ! (i - Suc k)))) else m' i)" for m'
    by (rule Cons.IH) (use Cons.prems in auto)
  have t: "those (map (nth_opt ids) (ts_DependsOn spec)) = Some (map (\<lambda>d. ids ! nat d) (ts_DependsOn spec))"
    by (rule those_nth_opt) (use Cons.prems in auto)
  have shift: "(spec # specs) ! (i - k) = (if i = k then spec else specs ! (i - Suc k))" if "k \<le> i" for i
  proof (cases "i = k")
    case False
    with that have "i - k = Suc (i - Suc k)" by simp
    with False show ?thesis by simp
  qed simp
  show ?case by (auto simp: IH t shift fun_eq_iff)
qed

lemma ResolveDependencies_valid:
  assumes "deps_in_range specs" and "length ids = length specs"
  shows "ResolveDependencies specs ids = Some (\<lambda>i. if i < length specs \<and> ts_DependsOn (specs ! i) \<noteq> []
      then Some (map (\<lambda>d. ids ! nat d) (ts_DependsOn (specs ! i))) else None)"
proof -
  have "0 \<le> d \<and> nat d < length ids" if "spec \<in> set specs" "d \<in> set (ts_DependsOn spec)" for spec d
    using assms that by (auto simp: deps_in_range_def nat_less_iff)
  from resolve_from_Some[of specs ids 0 Map.empty, OF this] show ?thesis
    by (simp add: ResolveDependencies_def cong: if_cong)
qed

lemma all_met_iff [simp]: "all_met completed deps \<longleftrightarrow> (\<forall>d \<in> set deps. completed d)"
  by (induction deps) auto

lemma FilterReadyTasks_filter:
  "FilterReadyTasks ts completed = filter (\<lambda>t. \<forall>d \<in> set (tk_DependsOn t). completed d) ts"
  by (induction ts) auto

section \<open>Properties\<close>

text \<open>
  (C24) Plan validation is exact: \<^verbatim>\<open>ValidateDAG\<close> accepts a plan if and only if every dependency
  index names a task of the plan and the dependency relation has no cycle; it always returns and
  never reads its colour array out of range.
\<close>

theorem ValidateDAG_exact:
  "(ValidateDAG specs = None \<longleftrightarrow> deps_in_range specs \<and> acyclic (dep_rel specs)) \<and>
   (\<forall>i. ValidateDAG specs \<noteq> Some (IndexPanic i))"
  using ValidateDAG_None_iff ValidateDAG_no_panic by blast


definition demo_spec :: "int list \<Rightarrow> TaskSpec" where
  "demo_spec ds = \<lparr>ts_AgentRole = ''executor'', ts_Description = ''d'', ts_Input = [], ts_Mode = ''sequential'',
     ts_DependsOn = ds, ts_Priority = 0\<rparr>"

definition demo_task :: "uuid \<Rightarrow> uuid list \<Rightarrow> Task" where
  "demo_task i ds = \<lparr>tk_ID = i, tk_WorkflowID = 9, tk_OrgID = 7, tk_ParentTaskID = None, tk_AgentRole = ''executor'',
     tk_Description = ''d'', tk_Input = [], tk_Output = [], tk_Status = TaskPending, tk_Mode = ''sequential'',
     tk_Depth = 1, tk_Priority = 0, tk_DependsOn = ds, tk_CreatedAt = 0, tk_UpdatedAt = 0, tk_StartedAt = None,
     tk_CompletedAt = None, tk_Error = [], tk_CostUSD = 0, tk_TokensUsed = 0, tk_ClaimedBy = [], tk_ClaimedAt = None,
     tk_RetryCount = 0, tk_MaxRetries = 2, tk_OriginalTaskID = None, tk_Metadata = None\<rparr>"


end
