(* ===== verification/Tools.thy ===== *)
theory Tools
  imports Security
begin

text \<open>
  Language model messages (\<^verbatim>\<open>llm/provider.go\<close>) and tools (\<^verbatim>\<open>tools/tools.go\<close>). A tool is the
  record of its methods; \<open>tool_Execute\<close> gets the user of the context, the parameters and the
  world \<open>'w\<close> it acts on, a parameter of the whole development. The registry lists its tools in
  the order in which the Go runtime would iterate over the map.
\<close>

section \<open>Messages\<close>

datatype MsgRole = RoleUser | RoleAssistant

fun MsgRole_String :: "MsgRole \<Rightarrow> string" where
  "MsgRole_String RoleUser = ''user''"
| "MsgRole_String RoleAssistant = ''assistant''"

record ContentBlock =
  cb_Type :: string
  cb_Text :: string
  cb_ID :: string
  cb_Name :: string
  cb_Input :: params
  cb_ToolUseID :: string
  cb_IsError :: bool

definition TextBlock :: "string \<Rightarrow> ContentBlock" where
  "TextBlock t = \<lparr>cb_Type = ''text'', cb_Text = t, cb_ID = [], cb_Name = [], cb_Input = [], cb_ToolUseID = [], cb_IsError = False\<rparr>"

definition ToolUseBlock :: "string \<Rightarrow> string \<Rightarrow> params \<Rightarrow> ContentBlock" where
  "ToolUseBlock i name inp =
     \<lparr>cb_Type = ''tool_use'', cb_Text = [], cb_ID = i, cb_Name = name, cb_Input = inp, cb_ToolUseID = [], cb_IsError = False\<rparr>"

definition ToolResultBlock :: "string \<Rightarrow> string \<Rightarrow> bool \<Rightarrow> ContentBlock" where
  "ToolResultBlock toolUseID content isError =
     \<lparr>cb_Type = ''tool_result'', cb_Text = content, cb_ID = [], cb_Name = [], cb_Input = [],
      cb_ToolUseID = toolUseID, cb_IsError = isError\<rparr>"

record Message =
  m_Role :: MsgRole
  m_Content :: string
  m_ContentBlocks :: "ContentBlock list"

definition TextContent :: "Message \<Rightarrow> string" where
  "TextContent m =
     (if length (m_ContentBlocks m) = 0 then m_Content m
      else concat (map cb_Text (filter (\<lambda>b. cb_Type b = ''text'') (m_ContentBlocks m))))"

record ToolDefinition =
  td_Name :: string
  td_Description :: string
  td_InputSchema :: params

record Request =
  rq_SystemPrompt :: string
  rq_Messages :: "Message list"
  rq_MaxTokens :: int
  rq_Tools :: "ToolDefinition list"

record LLMResponse =
  lr_Content :: string
  lr_ContentBlocks :: "ContentBlock list"
  lr_InputTokens :: int
  lr_OutputTokens :: int
  lr_StopReason :: string

definition HasToolUse :: "LLMResponse \<Rightarrow> bool" where
  "HasToolUse r \<longleftrightarrow> lr_StopReason r = ''tool_use''"

definition ToolUseBlocks :: "LLMResponse \<Rightarrow> ContentBlock list" where
  "ToolUseBlocks r = filter (\<lambda>b. cb_Type b = ''tool_use'') (lr_ContentBlocks r)"

section \<open>Tools\<close>

record Result =
  rs_Output :: string
  rs_Metadata :: params
  rs_Success :: bool

record 'w Tool =
  tool_Name :: string
  tool_Description :: string
  tool_InputSchema :: params
  tool_RequiredAction :: Action
  tool_EstimateCost :: "params \<Rightarrow> usd"
  tool_Validate :: "params \<Rightarrow> string option"
  tool_Execute :: "string \<Rightarrow> params \<Rightarrow> 'w \<Rightarrow> (string + Result) \<times> 'w"

definition MaxOutputBytes :: nat where
  "MaxOutputBytes = 1048576"

text \<open>The newline of the suffix is character 10.\<close>

definition truncation_suffix :: string where
  "truncation_suffix = CHR 0x0A # ''... [output truncated]''"

definition TruncateOutput :: "string \<Rightarrow> nat \<Rightarrow> string" where
  "TruncateOutput s maxBytes =
     (if length s \<le> maxBytes then s
      else if maxBytes \<le> length truncation_suffix then take maxBytes s
      else take (maxBytes - length truncation_suffix) s @ truncation_suffix)"

lemma TruncateOutput_length: "length (TruncateOutput s n) \<le> n"
  by (auto simp: TruncateOutput_def)

type_synonym 'w Registry = "(string \<times> 'w Tool) list"

text \<open>\<open>None\<close> is the panic on a duplicate name.\<close>

definition Register :: "'w Registry \<Rightarrow> 'w Tool \<Rightarrow> 'w Registry option" where
  "Register reg t = (if map_of reg (tool_Name t) \<noteq> None then None else Some (reg @ [(tool_Name t, t)]))"

definition Registry_Get :: "'w Registry \<Rightarrow> string \<Rightarrow> 'w Tool option" where
  "Registry_Get reg name = map_of reg name"

definition Registry_List :: "'w Registry \<Rightarrow> string list" where
  "Registry_List reg = map fst reg"

definition Registry_All :: "'w Registry \<Rightarrow> 'w Tool list" where
  "Registry_All reg = map snd reg"

definition tool_def :: "'w Tool \<Rightarrow> ToolDefinition" where
  "tool_def t = \<lparr>td_Name = tool_Name t, td_Description = tool_Description t, td_InputSchema = tool_InputSchema t\<rparr>"

definition ToLLMDefinitions :: "'w Registry \<Rightarrow> ToolDefinition list" where
  "ToLLMDefinitions reg = map tool_def (Registry_All reg)"

definition toolCategories :: "(string \<times> string) list" where
  "toolCategories =
     [(''shell_exec'', ''core''), (''file_read'', ''core''), (''file_write'', ''core''), (''web_fetch'', ''core''),
      (''git_read'', ''investigation''), (''browser'', ''investigation''), (''code_exec'', ''investigation''),
      (''infra_lookup'', ''infra''), (''infra_manage'', ''infra''), (''infra_exec'', ''infra''),
      (''git_write'', ''git_write'')]"

definition ToLLMDefinitionsForIntent :: "'w Registry \<Rightarrow> string list \<Rightarrow> ToolDefinition list" where
  "ToLLMDefinitionsForIntent reg activeCategories =
     map tool_def (filter (\<lambda>t. case map_of toolCategories (tool_Name t) of
         None \<Rightarrow> True
       | Some cat \<Rightarrow> cat = ''core'' \<or> cat \<in> set activeCategories) (Registry_All reg))"

section \<open>The registry\<close>

text \<open>The invariant of a registry built by \<^verbatim>\<open>Register\<close>: each tool is filed once, under its own name.\<close>

definition registry_ok :: "'w Registry \<Rightarrow> bool" where
  "registry_ok reg \<longleftrightarrow> distinct (map fst reg) \<and> (\<forall>(n, t) \<in> set reg. n = tool_Name t)"

lemma registry_ok_empty [simp]: "registry_ok []"
  by (simp add: registry_ok_def)

lemma Register_ok: "registry_ok reg \<Longrightarrow> Register reg t = Some reg' \<Longrightarrow> registry_ok reg'"
  by (auto simp: Register_def registry_ok_def map_of_eq_None_iff split: if_splits)

lemma Register_Get:
  "Register reg t = Some reg' \<Longrightarrow>
     Registry_Get reg' name = (if name = tool_Name t then Some t else Registry_Get reg name)"
  by (auto simp: Register_def Registry_Get_def map_add_def split: if_splits option.splits)

lemma Registry_Get_name: "registry_ok reg \<Longrightarrow> Registry_Get reg name = Some t \<Longrightarrow> tool_Name t = name"
  by (auto simp: registry_ok_def Registry_Get_def dest!: map_of_SomeD)

lemma intent_definitions_subset:
  "set (ToLLMDefinitionsForIntent reg cats) \<subseteq> set (ToLLMDefinitions reg)"
  by (auto simp: ToLLMDefinitionsForIntent_def ToLLMDefinitions_def)

end
