(* ===== verification/Conversation.thy ===== *)
theory Conversation
  imports Tools
begin

text \<open>
  Conversation memory: the in-memory store (\<^verbatim>\<open>agent/memory_conversation.go\<close>) and what
  \<^verbatim>\<open>Process\<close> does to a history before it reaches the model: \<^verbatim>\<open>truncateContent\<close>,
  \<^verbatim>\<open>truncateHistory\<close> (\<^verbatim>\<open>orchestrator.go\<close>), \<^verbatim>\<open>summarizeHistory\<close> (\<^verbatim>\<open>summarizer.go\<close>) and the
  token budget (\<^verbatim>\<open>token_budget.go\<close>). The model behind \<^verbatim>\<open>provider.SendMessage\<close> is a function
  \<open>send\<close> of the world.
\<close>

section \<open>The store\<close>

datatype conv_error = DifferentUser | ToolResultNotFound string

record InMemoryConversationStore =
  cs_history :: "uuid \<rightharpoonup> Message list"
  cs_owners :: "uuid \<rightharpoonup> string"

definition NewInMemoryConversationStore :: InMemoryConversationStore where
  "NewInMemoryConversationStore = \<lparr>cs_history = Map.empty, cs_owners = Map.empty\<rparr>"

definition hist_of :: "InMemoryConversationStore \<Rightarrow> uuid \<Rightarrow> Message list" where
  "hist_of s convID = (case cs_history s convID of None \<Rightarrow> [] | Some h \<Rightarrow> h)"

definition GetOrCreateConversation ::
  "InMemoryConversationStore \<Rightarrow> string \<Rightarrow> uuid \<Rightarrow> (conv_error + uuid) \<times> InMemoryConversationStore" where
  "GetOrCreateConversation s userID convID =
     (case cs_owners s convID of
        Some owner \<Rightarrow> if owner \<noteq> userID then (Inl DifferentUser, s) else (Inr convID, s)
      | None \<Rightarrow> (Inr convID, s\<lparr>cs_owners := (cs_owners s)(convID \<mapsto> userID),
                                cs_history := (cs_history s)(convID \<mapsto> [])\<rparr>))"

definition AppendMessages ::
  "InMemoryConversationStore \<Rightarrow> uuid \<Rightarrow> Message list \<Rightarrow> InMemoryConversationStore" where
  "AppendMessages s convID msgs = s\<lparr>cs_history := (cs_history s)(convID \<mapsto> hist_of s convID @ msgs)\<rparr>"

definition last_n :: "nat \<Rightarrow> 'a list \<Rightarrow> 'a list" where
  "last_n n xs = drop (length xs - n) xs"

definition LoadHistory :: "InMemoryConversationStore \<Rightarrow> uuid \<Rightarrow> int \<Rightarrow> Message list" where
  "LoadHistory s convID maxMessages =
     (let hist = hist_of s convID
      in if maxMessages > 0 \<and> int (length hist) > maxMessages then last_n (nat maxMessages) hist else hist)"

text \<open>The first matching block of a message; the messages are scanned from newest to oldest.\<close>

fun replace_block :: "string \<Rightarrow> string \<Rightarrow> bool \<Rightarrow> ContentBlock list \<Rightarrow> ContentBlock list option" where
  "replace_block toolUseID newContent isError [] = None"
| "replace_block toolUseID newContent isError (b # bs) =
     (if cb_Type b = ''tool_result'' \<and> cb_ToolUseID b = toolUseID
      then Some (b\<lparr>cb_Text := newContent, cb_IsError := isError\<rparr> # bs)
      else map_option ((#) b) (replace_block toolUseID newContent isError bs))"

fun replace_newest :: "string \<Rightarrow> string \<Rightarrow> bool \<Rightarrow> Message list \<Rightarrow> Message list option" where
  "replace_newest toolUseID newContent isError [] = None"
| "replace_newest toolUseID newContent isError (m # older) =
     (case replace_block toolUseID newContent isError (m_ContentBlocks m) of
        Some bs \<Rightarrow> Some (m\<lparr>m_ContentBlocks := bs\<rparr> # older)
      | None \<Rightarrow> map_option ((#) m) (replace_newest toolUseID newContent isError older))"

definition ReplaceToolResult ::
  "InMemoryConversationStore \<Rightarrow> uuid \<Rightarrow> string \<Rightarrow> string \<Rightarrow> bool \<Rightarrow> conv_error option \<times> InMemoryConversationStore" where
  "ReplaceToolResult s convID toolUseID newContent isError =
     (case replace_newest toolUseID newContent isError (rev (hist_of s convID)) of
        None \<Rightarrow> (Some (ToolResultNotFound toolUseID), s)
      | Some msgs \<Rightarrow> (None, s\<lparr>cs_history := (cs_history s)(convID \<mapsto> rev msgs)\<rparr>))"

definition DeleteConversation :: "InMemoryConversationStore \<Rightarrow> uuid \<Rightarrow> InMemoryConversationStore" where
  "DeleteConversation s convID =
     s\<lparr>cs_history := (cs_history s)(convID := None), cs_owners := (cs_owners s)(convID := None)\<rparr>"

section \<open>Trimming\<close>

definition DefaultMaxHistoryMessages :: int where "DefaultMaxHistoryMessages = 100"
definition DefaultMaxMessageBytes :: int where "DefaultMaxMessageBytes = 32768"

definition truncateContent :: "int \<Rightarrow> string \<Rightarrow> string" where
  "truncateContent maxMessageBytes s =
     (let mx = (if maxMessageBytes \<le> 0 then DefaultMaxMessageBytes else maxMessageBytes)
      in if int (length s) \<le> mx then s else take (nat mx) s @ (CHR 0x0A # ''[message truncated]''))"

definition effective_max :: "int \<Rightarrow> nat" where
  "effective_max maxHistoryMessages =
     nat (if maxHistoryMessages \<le> 0 then DefaultMaxHistoryMessages else maxHistoryMessages)"

definition truncateHistory :: "int \<Rightarrow> Message list \<Rightarrow> Message list" where
  "truncateHistory maxHistoryMessages history =
     (let mx = effective_max maxHistoryMessages
      in if length history \<le> mx then history
         else let truncated = drop (length history - mx) history
              in if length truncated > 0 \<and> m_Role (truncated ! 0) = RoleAssistant
                 then drop 1 truncated else truncated)"

definition summarizationPrompt :: string where
  "summarizationPrompt =
     ''Summarize the following conversation history concisely.'' @ [CHR 0x0A] @
     ''Preserve: key facts, decisions made, tool outputs, errors encountered, and any important context.'' @ [CHR 0x0A] @
     ''Omit: greetings, redundant explanations, and verbose tool output details.'' @ [CHR 0x0A] @
     ''Format as a brief paragraph.''"

definition summary_input :: "Message list \<Rightarrow> string" where
  "summary_input msgs = concat (map (\<lambda>m. if TextContent m = [] then []
     else ''['' @ MsgRole_String (m_Role m) @ '']: '' @ TextContent m @ [CHR 0x0A]) msgs)"

definition summary_message :: "string \<Rightarrow> Message" where
  "summary_message summary =
     \<lparr>m_Role = RoleUser, m_Content = ''[Conversation Summary]'' @ [CHR 0x0A] @ summary, m_ContentBlocks = []\<rparr>"

definition summarizeHistory ::
  "('w \<Rightarrow> Request \<Rightarrow> (string + LLMResponse) \<times> 'w) \<Rightarrow> 'w \<Rightarrow> Message list \<Rightarrow> nat \<Rightarrow> Message list \<times> 'w" where
  "summarizeHistory send w history maxMessages =
     (if length history < maxMessages * 4 div 5 then (history, w)
      else let keepRecent = (if maxMessages * 2 div 5 < 2 then 2 else maxMessages * 2 div 5);
               toSummarize = int (length history) - int keepRecent
           in if toSummarize < 4 then (history, w)
              else let older = summary_input (take (nat toSummarize) history)
                   in if length older = 0 then (history, w)
                      else case send w \<lparr>rq_SystemPrompt = summarizationPrompt,
                             rq_Messages = [\<lparr>m_Role = RoleUser, m_Content = older, m_ContentBlocks = []\<rparr>],
                             rq_MaxTokens = 1024, rq_Tools = []\<rparr> of
                             (Inl e, w') \<Rightarrow> (history, w')
                           | (Inr resp, w') \<Rightarrow>
                               if lr_Content resp = [] then (history, w')
                               else (summary_message (lr_Content resp) # drop (nat toSummarize) history, w'))"

section \<open>The token budget\<close>

definition estimateTokens :: "string \<Rightarrow> nat" where
  "estimateTokens s = (length s + 3) div 4"

text \<open>\<open>marshal\<close> is \<^verbatim>\<open>json.Marshal\<close>; an empty map and a nil map are not told apart.\<close>

definition estimateToolDefTokens :: "(params \<Rightarrow> string) \<Rightarrow> ToolDefinition \<Rightarrow> nat" where
  "estimateToolDefTokens marshal td =
     estimateTokens (td_Name td) + estimateTokens (td_Description td) +
     (if td_InputSchema td \<noteq> [] then estimateTokens (marshal (td_InputSchema td)) else 0)"

definition estimateMessageTokens :: "(params \<Rightarrow> string) \<Rightarrow> Message \<Rightarrow> nat" where
  "estimateMessageTokens marshal m =
     estimateTokens (MsgRole_String (m_Role m)) + 4 +
     (if m_Content m \<noteq> [] then estimateTokens (m_Content m) else 0) +
     sum_list (map (\<lambda>b. estimateTokens (cb_Text b) +
         (if cb_Input b \<noteq> [] then estimateTokens (marshal (cb_Input b)) else 0) +
         estimateTokens (cb_Name b) + estimateTokens (cb_ID b) + estimateTokens (cb_ToolUseID b))
       (m_ContentBlocks m))"

fun drop_oldest :: "(Message \<Rightarrow> nat) \<Rightarrow> int \<Rightarrow> int \<Rightarrow> Message list \<Rightarrow> Message list" where
  "drop_oldest est budget tot [] = []"
| "drop_oldest est budget tot (m # ms) =
     (if length (m # ms) > 2 \<and> tot > budget then drop_oldest est budget (tot - int (est m)) ms
      else m # ms)"

definition trimHistoryToTokenBudget ::
  "(params \<Rightarrow> string) \<Rightarrow> Message list \<Rightarrow> int \<Rightarrow> int \<Rightarrow> Message list" where
  "trimHistoryToTokenBudget marshal history fixedTokens maxTokens =
     (let budget = (if maxTokens - fixedTokens \<le> 0 then 2000 else maxTokens - fixedTokens);
          tot = int (sum_list (map (estimateMessageTokens marshal) history))
      in if tot \<le> budget then history
         else let h = drop_oldest (estimateMessageTokens marshal) budget tot history
              in if length h > 0 \<and> m_Role (h ! 0) = RoleAssistant then drop 1 h else h)"

section \<open>What trimming keeps\<close>

text \<open>
  Trimming removes messages from the front only. A history that ends in the new user message
  still does afterwards, so that message is never lost and the messages to persist are a suffix.
\<close>

lemma effective_max_pos: "0 < effective_max mx"
  by (simp add: effective_max_def DefaultMaxHistoryMessages_def)

lemma truncateHistory_suffix: "\<exists>k. truncateHistory mx h = drop k h"
proof (cases "length h \<le> effective_max mx")
  case True
  then have "truncateHistory mx h = drop 0 h" by (simp add: truncateHistory_def)
  then show ?thesis by blast
next
  case False
  let ?k = "length h - effective_max mx"
  have "truncateHistory mx h = drop ?k h \<or> truncateHistory mx h = drop (Suc ?k) h"
    using False by (simp add: truncateHistory_def Let_def drop_Suc drop_tl)
  then show ?thesis by blast
qed

lemma truncateHistory_bound: "length (truncateHistory mx h) \<le> effective_max mx"
  by (auto simp: truncateHistory_def Let_def)

lemma truncateHistory_head:
  assumes "effective_max mx < length h"
  shows "truncateHistory mx h = [] \<or> m_Role (hd (truncateHistory mx h)) = RoleUser \<or>
    m_Role (h ! (length h - effective_max mx)) = RoleAssistant"
proof (cases "m_Role (drop (length h - effective_max mx) h ! 0)")
  case RoleUser
  with assms effective_max_pos[of mx] show ?thesis
    by (auto simp: truncateHistory_def Let_def hd_conv_nth)
next
  case RoleAssistant
  with assms effective_max_pos[of mx] show ?thesis by simp
qed

lemma truncateHistory_last:
  assumes "m_Role u = RoleUser"
  shows "\<exists>ys. truncateHistory mx (h @ [u]) = ys @ [u] \<and> length ys \<le> length h"
proof (cases "length (h @ [u]) \<le> effective_max mx")
  case True
  then show ?thesis by (simp add: truncateHistory_def)
next
  case False
  let ?k = "length (h @ [u]) - effective_max mx"
  have k: "?k \<le> length h" using effective_max_pos[of mx] False by simp
  then have d: "drop ?k (h @ [u]) = drop ?k h @ [u]" by simp
  show ?thesis
  proof (cases "drop ?k h")
    case Nil
    with d assms False show ?thesis by (simp add: truncateHistory_def Let_def)
  next
    case (Cons x xs)
    have "length (x # xs) \<le> length h" unfolding Cons[symmetric] by simp
    with Cons d False show ?thesis by (auto simp: truncateHistory_def Let_def)
  qed
qed

lemma summarizeHistory_last:
  "\<exists>ys. fst (summarizeHistory send w (h @ [u]) mx) = ys @ [u] \<and> length ys \<le> length h"
proof -
  define keep where "keep = (if mx * 2 div 5 < 2 then 2 else mx * 2 div 5)"
  define n where "n = int (length (h @ [u])) - int keep"
  have keep: "2 \<le> keep" by (simp add: keep_def)
  have cut: "\<exists>ys. c # drop (nat n) (h @ [u]) = ys @ [u] \<and> length ys \<le> length h" if "\<not> n < 4" for c
  proof -
    have "nat n \<le> length h" using that keep by (simp add: n_def nat_le_iff)
    then have "drop (nat n) (h @ [u]) = drop (nat n) h @ [u]" by simp
    moreover have "length (drop (nat n) h) < length h" using that \<open>nat n \<le> length h\<close> by auto
    ultimately show ?thesis by (intro exI[of _ "c # drop (nat n) h"]) simp
  qed
  show ?thesis
    unfolding summarizeHistory_def Let_def keep_def[symmetric] n_def[symmetric]
    using cut by (auto split: prod.split sum.split)
qed

section \<open>The store\<close>

lemmas conv_defs = GetOrCreateConversation_def AppendMessages_def LoadHistory_def hist_of_def
  ReplaceToolResult_def DeleteConversation_def

lemma LoadHistory_append:
  assumes "0 < mx"
  shows "LoadHistory (AppendMessages s c msgs) c mx = last_n (nat mx) (hist_of s c @ msgs)"
  using assms by (auto simp: conv_defs last_n_def Let_def)

lemma LoadHistory_other: "c' \<noteq> c \<Longrightarrow> LoadHistory (AppendMessages s c msgs) c' mx = LoadHistory s c' mx"
  by (simp add: conv_defs)

lemma replace_block_Some_iff:
  "replace_block tid new err bs \<noteq> None \<longleftrightarrow> (\<exists>b \<in> set bs. cb_Type b = ''tool_result'' \<and> cb_ToolUseID b = tid)"
  by (induction bs) auto

text \<open>Replacing a tool result changes exactly one block of one message.\<close>

lemma replace_block_Some:
  "replace_block tid new err bs = Some bs' \<Longrightarrow>
     \<exists>xs b ys. bs = xs @ b # ys \<and> bs' = xs @ b\<lparr>cb_Text := new, cb_IsError := err\<rparr> # ys \<and>
       cb_Type b = ''tool_result'' \<and> cb_ToolUseID b = tid"
proof (induction bs arbitrary: bs')
  case Nil
  then show ?case by simp
next
  case (Cons b bs)
  show ?case
  proof (cases "cb_Type b = ''tool_result'' \<and> cb_ToolUseID b = tid")
    case True
    with Cons.prems show ?thesis by (intro exI[of _ "[]"]) auto
  next
    case False
    with Cons.prems obtain bs1 where "replace_block tid new err bs = Some bs1" "bs' = b # bs1"
      by (auto split: if_splits)
    with Cons.IH[of bs1] show ?thesis by (metis append_Cons)
  qed
qed

lemma replace_newest_Some:
  "replace_newest tid new err ms = Some ms' \<Longrightarrow>
     \<exists>xs m ys bs. ms = xs @ m # ys \<and> ms' = xs @ m\<lparr>m_ContentBlocks := bs\<rparr> # ys \<and>
       replace_block tid new err (m_ContentBlocks m) = Some bs"
proof (induction ms arbitrary: ms')
  case Nil
  then show ?case by simp
next
  case (Cons m ms)
  show ?case
  proof (cases "replace_block tid new err (m_ContentBlocks m)")
    case (Some bs)
    with Cons.prems show ?thesis by (intro exI[of _ "[]"]) auto
  next
    case None
    with Cons.prems obtain ms1 where "replace_newest tid new err ms = Some ms1" "ms' = m # ms1" by auto
    with Cons.IH[of ms1] show ?thesis by (metis append_Cons)
  qed
qed

end
