(* ===== verification/Pipeline.thy ===== *)
theory Pipeline
  imports Policy Budget Approval AutoApproval Conversation
begin

text \<open>
  The tool execution pipeline of \<^verbatim>\<open>agent/orchestrator.go\<close> with the tool result cache
  (\<^verbatim>\<open>agent/toolcache.go\<close>) and the composed security manager (\<^verbatim>\<open>security/manager.go\<close>):
  \<open>ExecuteTool\<close> and \<open>ResumeWithApproval\<close> with every check, audit event and ledger operation
  in the order of the code. The orchestrator is a record; an optional component (a nil pointer in Go) is an option.
  The instance modelled is the one without a database: in-memory role configuration, budgets,
  approvals and conversations.

  \<open>env\<close> holds what a call takes from outside: the clock before and after the tool ran, the
  identifier drawn for an approval request, the digest and JSON functions, the text of an
  error message and the parser of UUIDs.
\<close>

section \<open>Requests, responses, errors\<close>

record ToolRequest =
  tr_UserID :: string
  tr_ToolName :: string
  tr_Parameters :: params
  tr_CorrelationID :: string
  tr_ConversationID :: string
  tr_ToolUseID :: string

record ToolResponse =
  tp_Output :: string
  tp_Success :: bool
  tp_CostUSD :: usd
  tp_Metadata :: params

record ApprovalRequest =
  ar_ApprovalID :: string
  ar_ToolName :: string
  ar_ActionName :: string
  ar_RiskLevel :: string
  ar_UserID :: string

datatype exec_error =
    NoToolRegistry
  | UnknownTool string
  | ToolValidation string string
  | PolicyDenied string sec_error
  | SecErr sec_error
  | ErrApprovalPending ApprovalRequest
  | CreatingApproval approval_error
  | ExecutionFailed string string
  | NoApprovalManager
  | ApprovalLookup approval_error
  | NotApproved string Status
  | ToolGone string
  | ReValidation string string
  | NilSecurity

record env =
  env_now :: time
  env_end :: time
  env_idr :: "string option"
  env_codec :: codec
  env_text :: "exec_error \<Rightarrow> string"
  env_parse :: "string \<Rightarrow> uuid option"

section \<open>The tool cache\<close>

record cacheEntry =
  ce_response :: ToolResponse
  ce_expiresAt :: time

record ToolCache =
  tc_entries :: "string \<rightharpoonup> cacheEntry"
  tc_ttl :: duration

definition DefaultToolCacheTTL :: duration where "DefaultToolCacheTTL = 60 * Second"

definition NewToolCache :: "duration \<Rightarrow> ToolCache" where
  "NewToolCache ttl = \<lparr>tc_entries = Map.empty, tc_ttl = (if ttl \<le> 0 then DefaultToolCacheTTL else ttl)\<rparr>"

definition cacheKey :: "codec \<Rightarrow> string \<Rightarrow> params \<Rightarrow> string" where
  "cacheKey cd toolName ps = digest cd (toolName @ ''|'' @ marshal cd ps)"

definition Cache_Get :: "codec \<Rightarrow> ToolCache \<Rightarrow> time \<Rightarrow> string \<Rightarrow> params \<Rightarrow> ToolResponse option" where
  "Cache_Get cd c now toolName ps =
     (case tc_entries c (cacheKey cd toolName ps) of
        None \<Rightarrow> None
      | Some entry \<Rightarrow> if now > ce_expiresAt entry then None else Some (ce_response entry))"

definition Cache_Set :: "codec \<Rightarrow> ToolCache \<Rightarrow> time \<Rightarrow> string \<Rightarrow> params \<Rightarrow> ToolResponse \<Rightarrow> ToolCache" where
  "Cache_Set cd c now toolName ps resp =
     c\<lparr>tc_entries := (tc_entries c)(cacheKey cd toolName ps \<mapsto> \<lparr>ce_response = resp, ce_expiresAt = now + tc_ttl c\<rparr>)\<rparr>"

section \<open>The orchestrator\<close>

record SecManager =
  sm_rbac :: RBAC
  sm_audit :: AuditLogger
  sm_budget :: BudgetManager

record 'w Orchestrator =
  o_security :: "SecManager option"
  o_toolRegistry :: "'w Registry option"
  o_approvalMgr :: "Manager option"
  o_policyEnforcer :: "PolicyEnforcer option"
  o_autoApprover :: "AutoApprover option"
  o_toolCache :: "ToolCache option"
  o_readOnlyTools :: "string list"
  o_autonomousMode :: bool
  o_convStore :: "InMemoryConversationStore option"
  o_world :: 'w

definition log_event :: "AuditEvent \<Rightarrow> 'w Orchestrator \<Rightarrow> 'w Orchestrator" where
  "log_event ev orc =
     (case o_security orc of
        None \<Rightarrow> orc
      | Some sm \<Rightarrow> orc\<lparr>o_security := Some (sm\<lparr>sm_audit := snd (AuditLogger_LogAction (sm_audit sm) ev)\<rparr>)\<rparr>)"

definition mk_event :: "time \<Rightarrow> ToolRequest \<Rightarrow> string \<Rightarrow> string \<Rightarrow> usd \<Rightarrow> string \<Rightarrow> string \<Rightarrow> AuditEvent" where
  "mk_event t req actionName result costUSD approvedBy err =
     \<lparr>ev_Timestamp = t, ev_CorrelationID = tr_CorrelationID req, ev_UserID = tr_UserID req,
      ev_Action = actionName, ev_Tool = tr_ToolName req, ev_Parameters = tr_Parameters req,
      ev_Result = result, ev_TokensUsed = 0, ev_CostUSD = costUSD, ev_ApprovedBy = approvedBy, ev_Error = err\<rparr>"

text \<open>The error of \<^verbatim>\<open>LogAction\<close> is dropped by every caller (\<^verbatim>\<open>_ = o.logAuditEvent(...)\<close>).\<close>

definition logAuditEvent ::
  "time \<Rightarrow> ToolRequest \<Rightarrow> string \<Rightarrow> string \<Rightarrow> usd \<Rightarrow> string \<Rightarrow> string \<Rightarrow> 'w Orchestrator \<Rightarrow> 'w Orchestrator" where
  "logAuditEvent t req actionName result costUSD approvedBy err orc =
     log_event (mk_event t req actionName result costUSD approvedBy err) orc"

definition cacheToolResult :: "env \<Rightarrow> 'w Orchestrator \<Rightarrow> string \<Rightarrow> params \<Rightarrow> ToolResponse \<Rightarrow> 'w Orchestrator" where
  "cacheToolResult env orc toolName ps resp =
     (case o_toolCache orc of
        None \<Rightarrow> orc
      | Some c \<Rightarrow>
          if toolName \<in> set (o_readOnlyTools orc)
          then orc\<lparr>o_toolCache := Some (Cache_Set (env_codec env) c (env_end env) toolName ps resp)\<rparr>
          else orc)"

definition approval_request :: "ToolRequest \<Rightarrow> Action \<Rightarrow> usd \<Rightarrow> CreateRequest" where
  "approval_request req action estimatedCost =
     \<lparr>cr_UserID = tr_UserID req, cr_ToolName = tr_ToolName req, cr_Parameters = tr_Parameters req,
      cr_ActionName = act_Name action, cr_RiskLevel = RiskLevel_String (act_RiskLevel action),
      cr_EstimatedCost = estimatedCost, cr_CorrelationID = tr_CorrelationID req,
      cr_ConversationID = tr_ConversationID req, cr_ToolUseID = tr_ToolUseID req\<rparr>"

text \<open>The auto-approver is asked only about approval errors.\<close>

definition ask_auto_approver :: "env \<Rightarrow> 'w Orchestrator \<Rightarrow> ToolRequest \<Rightarrow> bool \<times> 'w Orchestrator" where
  "ask_auto_approver env orc req =
     (case o_autoApprover orc of
        None \<Rightarrow> (False, orc)
      | Some aa \<Rightarrow>
          let (ok, aa') = ShouldAutoApprove (env_codec env) aa (env_now env) (tr_UserID req) (tr_ToolName req) (tr_Parameters req)
          in (ok, orc\<lparr>o_autoApprover := Some aa'\<rparr>))"

definition request_approval ::
  "env \<Rightarrow> 'w Orchestrator \<Rightarrow> ToolRequest \<Rightarrow> Action \<Rightarrow> usd \<Rightarrow> sec_error \<Rightarrow> exec_error option \<times> 'w Orchestrator" where
  "request_approval env orc req action cost e =
     (case o_approvalMgr orc of
        None \<Rightarrow> (Some (SecErr e), logAuditEvent (env_now env) req (act_Name action) ''denied'' cost '''' (env_text env (SecErr e)) orc)
      | Some am \<Rightarrow>
          (case Create am (env_now env) (env_idr env) (approval_request req action cost) of
             (Inl ce, am') \<Rightarrow> (Some (CreatingApproval ce), orc\<lparr>o_approvalMgr := Some am'\<rparr>)
           | (Inr aid, am') \<Rightarrow>
               (Some (ErrApprovalPending \<lparr>ar_ApprovalID = aid, ar_ToolName = tr_ToolName req, ar_ActionName = act_Name action,
                        ar_RiskLevel = RiskLevel_String (act_RiskLevel action), ar_UserID = tr_UserID req\<rparr>),
                logAuditEvent (env_now env) req (act_Name action) ''approval_pending'' cost '''' ''''
                  (orc\<lparr>o_approvalMgr := Some am'\<rparr>))))"

definition runSecurityChecks ::
  "env \<Rightarrow> 'w Orchestrator \<Rightarrow> ToolRequest \<Rightarrow> Action \<Rightarrow> usd \<Rightarrow> exec_error option \<times> 'w Orchestrator" where
  "runSecurityChecks env orc req action cost =
     (case o_security orc of
        None \<Rightarrow> (Some NilSecurity, orc)
      | Some sm \<Rightarrow>
          (let deny = (\<lambda>e orc'. (Some (SecErr e), logAuditEvent (env_now env) req (act_Name action) ''denied'' cost ''''
                         (env_text env (SecErr e)) orc'))
           in case CheckPermission (sm_rbac sm) (tr_UserID req) action of
                Some e \<Rightarrow> deny e orc
              | None \<Rightarrow>
                  (case RequireApproval (sm_rbac sm) (tr_UserID req) action of
                     None \<Rightarrow> (None, orc)
                   | Some e \<Rightarrow>
                       if \<not> Is_ErrApprovalRequired e then deny e orc
                       else if o_autonomousMode orc
                       then (None, logAuditEvent (env_now env) req (act_Name action) ''autonomous_approved'' cost '''' '''' orc)
                       else let (ok, orc1) = ask_auto_approver env orc req
                            in if ok
                               then (None, logAuditEvent (env_now env) req (act_Name action) ''auto_approved'' cost '''' '''' orc1)
                               else request_approval env orc1 req action cost e)))"

definition executeWithAudit ::
  "env \<Rightarrow> 'w Orchestrator \<Rightarrow> ToolRequest \<Rightarrow> 'w Tool \<Rightarrow> Action \<Rightarrow> usd \<Rightarrow> string \<Rightarrow> (exec_error + ToolResponse) \<times> 'w Orchestrator" where
  "executeWithAudit env orc req tool action cost approvedBy =
     (case o_security orc of
        None \<Rightarrow> (Inl NilSecurity, orc)
      | Some sm \<Rightarrow>
          (case ReserveBudget (sm_budget sm) (tr_UserID req) cost of
             (Inl e, b) \<Rightarrow>
               (Inl (SecErr e), logAuditEvent (env_now env) req (act_Name action) ''denied'' cost approvedBy
                  (env_text env (SecErr e)) (orc\<lparr>o_security := Some (sm\<lparr>sm_budget := b\<rparr>)\<rparr>))
           | (Inr rel, b) \<Rightarrow>
               let orc1 = logAuditEvent (env_now env) req (act_Name action) ''intent'' cost approvedBy ''''
                            (orc\<lparr>o_security := Some (sm\<lparr>sm_budget := b\<rparr>)\<rparr>);
                   (result, w) = tool_Execute tool (tr_UserID req) (tr_Parameters req) (o_world orc1);
                   orc2 = (case result of
                       Inl err \<Rightarrow> logAuditEvent (env_end env) req (act_Name action) ''failure'' cost approvedBy err (orc1\<lparr>o_world := w\<rparr>)
                     | Inr _ \<Rightarrow> logAuditEvent (env_end env) req (act_Name action) ''success'' cost approvedBy '''' (orc1\<lparr>o_world := w\<rparr>));
                   settle = (\<lambda>s. s\<lparr>sm_budget := fst (release (RecordCost (sm_budget s) (tr_UserID req) cost) rel)\<rparr>);
                   orc3 = orc2\<lparr>o_security := map_option settle (o_security orc2)\<rparr>
               in (case result of
                     Inl err \<Rightarrow> (Inl (ExecutionFailed (tr_ToolName req) err), orc3)
                   | Inr res \<Rightarrow> (Inr \<lparr>tp_Output = rs_Output res, tp_Success = rs_Success res, tp_CostUSD = cost,
                                      tp_Metadata = rs_Metadata res\<rparr>, orc3))))"

definition executeTool ::
  "'w Orchestrator \<Rightarrow> string \<Rightarrow> 'w Tool \<Rightarrow> params \<Rightarrow> (exec_error + ToolResponse) \<times> 'w Orchestrator" where
  "executeTool orc ctxUser tool ps =
     (case tool_Execute tool ctxUser ps (o_world orc) of
        (Inl err, w) \<Rightarrow> (Inl (ExecutionFailed (tool_Name tool) err), orc\<lparr>o_world := w\<rparr>)
      | (Inr res, w) \<Rightarrow> (Inr \<lparr>tp_Output = rs_Output res, tp_Success = rs_Success res, tp_CostUSD = 0,
                              tp_Metadata = rs_Metadata res\<rparr>, orc\<lparr>o_world := w\<rparr>))"

definition cache_lookup :: "env \<Rightarrow> 'w Orchestrator \<Rightarrow> ToolRequest \<Rightarrow> ToolResponse option" where
  "cache_lookup env orc req =
     (case o_toolCache orc of
        None \<Rightarrow> None
      | Some c \<Rightarrow> if tr_ToolName req \<in> set (o_readOnlyTools orc)
                  then Cache_Get (env_codec env) c (env_now env) (tr_ToolName req) (tr_Parameters req) else None)"

definition policy_check :: "'w Orchestrator \<Rightarrow> ToolRequest \<Rightarrow> sec_error option" where
  "policy_check orc req =
     (case o_policyEnforcer orc of
        None \<Rightarrow> None
      | Some pe \<Rightarrow> CheckToolAllowed pe (tr_UserID req) (tr_ToolName req))"

definition policy_event :: "env \<Rightarrow> ToolRequest \<Rightarrow> 'w Tool \<Rightarrow> sec_error \<Rightarrow> AuditEvent" where
  "policy_event env req tool e =
     \<lparr>ev_Timestamp = env_now env, ev_CorrelationID = tr_CorrelationID req, ev_UserID = tr_UserID req,
      ev_Action = act_Name (tool_RequiredAction tool), ev_Tool = tr_ToolName req, ev_Parameters = [],
      ev_Result = ''policy_denied'', ev_TokensUsed = 0, ev_CostUSD = 0, ev_ApprovedBy = '''', ev_Error = env_text env (SecErr e)\<rparr>"

text \<open>The rest of \<^verbatim>\<open>ExecuteTool\<close> once the tool is found, the parameters are valid and the cache has nothing.\<close>

definition checked_execution ::
  "env \<Rightarrow> 'w Orchestrator \<Rightarrow> ToolRequest \<Rightarrow> 'w Tool \<Rightarrow> (exec_error + ToolResponse) \<times> 'w Orchestrator" where
  "checked_execution env orc req tool =
     (let secAction = tool_RequiredAction tool; estimatedCost = tool_EstimateCost tool (tr_Parameters req);
          run = (case o_security orc of
              Some _ \<Rightarrow>
                (case runSecurityChecks env orc req secAction estimatedCost of
                   (Some e, orc1) \<Rightarrow> (Inl e, orc1)
                 | (None, orc1) \<Rightarrow> executeWithAudit env orc1 req tool secAction estimatedCost '''')
            | None \<Rightarrow> executeTool orc (tr_UserID req) tool (tr_Parameters req))
      in case run of
           (Inl e, orc') \<Rightarrow> (Inl e, orc')
         | (Inr resp, orc') \<Rightarrow> (Inr resp, cacheToolResult env orc' (tr_ToolName req) (tr_Parameters req) resp))"

definition ExecuteTool :: "env \<Rightarrow> 'w Orchestrator \<Rightarrow> ToolRequest \<Rightarrow> (exec_error + ToolResponse) \<times> 'w Orchestrator" where
  "ExecuteTool env orc req =
     (case o_toolRegistry orc of
        None \<Rightarrow> (Inl NoToolRegistry, orc)
      | Some reg \<Rightarrow>
          (case Registry_Get reg (tr_ToolName req) of
             None \<Rightarrow> (Inl (UnknownTool (tr_ToolName req)), orc)
           | Some tool \<Rightarrow>
               (case tool_Validate tool (tr_Parameters req) of
                  Some err \<Rightarrow> (Inl (ToolValidation (tr_ToolName req) err), orc)
                | None \<Rightarrow>
                    (case cache_lookup env orc req of
                       Some cached \<Rightarrow> (Inr cached, orc)
                     | None \<Rightarrow>
                         (case policy_check orc req of
                            Some e \<Rightarrow> (Inl (PolicyDenied (tr_ToolName req) e), log_event (policy_event env req tool e) orc)
                          | None \<Rightarrow> checked_execution env orc req tool)))))"

definition updateApprovalToolResult :: "env \<Rightarrow> 'w Orchestrator \<Rightarrow> PendingApproval \<Rightarrow> string \<Rightarrow> bool \<Rightarrow> 'w Orchestrator" where
  "updateApprovalToolResult env orc pa content isError =
     (case o_convStore orc of
        None \<Rightarrow> orc
      | Some cs \<Rightarrow>
          if pa_ConversationID pa = '''' \<or> pa_ToolUseID pa = '''' then orc
          else case env_parse env (pa_ConversationID pa) of
                 None \<Rightarrow> orc
               | Some convID \<Rightarrow>
                   orc\<lparr>o_convStore := Some (snd (ReplaceToolResult cs convID (pa_ToolUseID pa) content isError))\<rparr>)"

definition resumed_request :: "PendingApproval \<Rightarrow> ToolRequest" where
  "resumed_request pa =
     \<lparr>tr_UserID = pa_UserID pa, tr_ToolName = pa_ToolName pa, tr_Parameters = pa_Parameters pa,
      tr_CorrelationID = pa_CorrelationID pa, tr_ConversationID = '''', tr_ToolUseID = ''''\<rparr>"

definition resume_approved ::
  "env \<Rightarrow> 'w Orchestrator \<Rightarrow> PendingApproval \<Rightarrow> (exec_error + ToolResponse) \<times> 'w Orchestrator" where
  "resume_approved env orc pa =
     (case o_toolRegistry orc of
        None \<Rightarrow> (Inl NoToolRegistry, orc)
      | Some reg \<Rightarrow>
          (case Registry_Get reg (pa_ToolName pa) of
             None \<Rightarrow> (Inl (ToolGone (pa_ToolName pa)), orc)
           | Some tool \<Rightarrow>
               (case tool_Validate tool (pa_Parameters pa) of
                  Some err \<Rightarrow> (Inl (ReValidation (pa_ToolName pa) err), orc)
                | None \<Rightarrow>
                    (case (case o_security orc of
                             Some _ \<Rightarrow> executeWithAudit env orc (resumed_request pa) tool (tool_RequiredAction tool)
                                         (pa_EstimatedCost pa) (pa_ApprovedBy pa)
                           | None \<Rightarrow> executeTool orc '''' tool (pa_Parameters pa)) of
                       (Inl e, orc') \<Rightarrow> (Inl e, updateApprovalToolResult env orc' pa (''Error: '' @ env_text env e) True)
                     | (Inr resp, orc') \<Rightarrow> (Inr resp, updateApprovalToolResult env orc' pa (tp_Output resp) False)))))"

definition ResumeWithApproval ::
  "env \<Rightarrow> 'w Orchestrator \<Rightarrow> string \<Rightarrow> (exec_error + ToolResponse) \<times> 'w Orchestrator" where
  "ResumeWithApproval env orc approvalID =
     (case o_approvalMgr orc of
        None \<Rightarrow> (Inl NoApprovalManager, orc)
      | Some am \<Rightarrow>
          (case Get am (env_now env) approvalID of
             (Inl e, am') \<Rightarrow> (Inl (ApprovalLookup e), orc\<lparr>o_approvalMgr := Some am'\<rparr>)
           | (Inr pa, am') \<Rightarrow>
               if pa_Status pa \<noteq> StatusApproved
               then (Inl (NotApproved approvalID (pa_Status pa)), orc\<lparr>o_approvalMgr := Some am'\<rparr>)
               else resume_approved env
                      (orc\<lparr>o_approvalMgr := Some am',
                           o_autoApprover := map_option (\<lambda>aa. RecordManualApproval (env_codec env) aa (env_now env)
                             (pa_UserID pa) (pa_ToolName pa) (pa_Parameters pa)) (o_autoApprover orc)\<rparr>) pa))"

section \<open>What the steps change\<close>

definition budget_of :: "'w Orchestrator \<Rightarrow> BudgetManager option" where
  "budget_of orc = map_option sm_budget (o_security orc)"

definition audit_of :: "'w Orchestrator \<Rightarrow> AuditEvent list" where
  "audit_of orc = (case o_security orc of None \<Rightarrow> [] | Some sm \<Rightarrow> audit_events (sm_audit sm))"

definition audit_open :: "'w Orchestrator \<Rightarrow> bool" where
  "audit_open orc \<longleftrightarrow> (case o_security orc of None \<Rightarrow> False | Some sm \<Rightarrow> audit_writable (sm_audit sm))"

text \<open>A step that writes the events \<open>evs\<close>, all about the user and the tool of the request.\<close>

definition audited :: "ToolRequest \<Rightarrow> 'w Orchestrator \<Rightarrow> 'w Orchestrator \<Rightarrow> AuditEvent list \<Rightarrow> bool" where
  "audited req orc orc' evs \<longleftrightarrow> audit_open orc' \<and> audit_of orc' = audit_of orc @ evs \<and>
     (\<forall>ev \<in> set evs. ev_UserID ev = tr_UserID req \<and> ev_Tool ev = tr_ToolName req)"

lemma log_event_frame [simp]:
  "o_world (log_event ev orc) = o_world orc"
  "o_toolRegistry (log_event ev orc) = o_toolRegistry orc"
  "o_approvalMgr (log_event ev orc) = o_approvalMgr orc"
  "o_autoApprover (log_event ev orc) = o_autoApprover orc"
  "o_toolCache (log_event ev orc) = o_toolCache orc"
  "o_readOnlyTools (log_event ev orc) = o_readOnlyTools orc"
  "budget_of (log_event ev orc) = budget_of orc"
  "map_option sm_rbac (o_security (log_event ev orc)) = map_option sm_rbac (o_security orc)"
  "o_security (log_event ev orc) = None \<longleftrightarrow> o_security orc = None"
  by (auto simp: log_event_def budget_of_def split: option.split)

lemma log_event_audited:
  "audit_open orc \<Longrightarrow> ev_UserID ev = tr_UserID req \<Longrightarrow> ev_Tool ev = tr_ToolName req \<Longrightarrow>
     audited req orc (log_event ev orc) [ev]"
  by (auto simp: audited_def audit_open_def audit_of_def log_event_def AuditLogger_LogAction_def split: option.splits)

lemma logAuditEvent_audited:
  "audit_open orc \<Longrightarrow> audited req orc (logAuditEvent t req a r c by e orc) [mk_event t req a r c by e]"
  by (simp add: logAuditEvent_def log_event_audited mk_event_def)

lemma audited_trans: "audited req a b es \<Longrightarrow> audited req b c fs \<Longrightarrow> audited req a c (es @ fs)"
  by (auto simp: audited_def)

lemma audited_refl: "audit_open orc \<Longrightarrow> audited req orc orc []"
  by (simp add: audited_def)

lemma mk_event_Result [simp]: "ev_Result (mk_event t req a r c by e) = r"
  by (simp add: mk_event_def)

lemma ask_auto_approver_frame:
  assumes "ask_auto_approver env orc req = (ok, orc')"
  shows "o_world orc' = o_world orc \<and> o_toolRegistry orc' = o_toolRegistry orc \<and> o_security orc' = o_security orc \<and>
    budget_of orc' = budget_of orc \<and> o_approvalMgr orc' = o_approvalMgr orc \<and> o_toolCache orc' = o_toolCache orc \<and> o_readOnlyTools orc' = o_readOnlyTools orc \<and>
    (ok \<longrightarrow> (\<exists>aa. o_autoApprover orc = Some aa \<and>
      fst (ShouldAutoApprove (env_codec env) aa (env_now env) (tr_UserID req) (tr_ToolName req) (tr_Parameters req))))"
  using assms by (auto simp: ask_auto_approver_def budget_of_def split: option.splits prod.splits)

lemma request_approval_frame:
  assumes "request_approval env orc req action cost e = (r, orc')"
  shows "o_world orc' = o_world orc \<and> o_toolRegistry orc' = o_toolRegistry orc \<and> budget_of orc' = budget_of orc \<and> r \<noteq> None"
  using assms by (auto simp: request_approval_def logAuditEvent_def budget_of_def log_event_def
      split: option.splits prod.splits sum.splits)

text \<open>The security checks leave the world and the budgets alone; they pass only with a permission and an approval of some kind.\<close>

definition approved_unattended :: "env \<Rightarrow> 'w Orchestrator \<Rightarrow> ToolRequest \<Rightarrow> RBAC \<Rightarrow> Action \<Rightarrow> bool" where
  "approved_unattended env orc req rbac action \<longleftrightarrow>
     RequireApproval rbac (tr_UserID req) action = None \<or> o_autonomousMode orc \<or>
     (\<exists>aa. o_autoApprover orc = Some aa \<and>
        fst (ShouldAutoApprove (env_codec env) aa (env_now env) (tr_UserID req) (tr_ToolName req) (tr_Parameters req)))"

lemma runSecurityChecks_spec:
  assumes sm: "o_security orc = Some sm" and run: "runSecurityChecks env orc req action cost = (r, orc')"
  shows "o_world orc' = o_world orc \<and> o_toolRegistry orc' = o_toolRegistry orc \<and> budget_of orc' = budget_of orc \<and>
    (r = None \<longrightarrow> CheckPermission (sm_rbac sm) (tr_UserID req) action = None \<and>
       approved_unattended env orc req (sm_rbac sm) action)"
  using run sm
  by (auto simp: runSecurityChecks_def Let_def logAuditEvent_def approved_unattended_def
      split: option.splits if_splits prod.splits
      dest!: request_approval_frame ask_auto_approver_frame)

lemma request_approval_audited:
  assumes "request_approval env orc req action cost e = (r, orc')" and "audit_open orc"
  shows "\<exists>evs. audited req orc orc' evs \<and>
    ((\<exists>ce. r = Some (CreatingApproval ce)) \<and> evs = [] \<or>
     evs \<noteq> [] \<and> ev_Result (last evs) \<in> {''denied'', ''approval_pending''})"
proof (cases "o_approvalMgr orc")
  case None
  with assms logAuditEvent_audited[OF assms(2), of req] show ?thesis
    by (fastforce simp: request_approval_def)
next
  case (Some am)
  obtain x am' where c: "Create am (env_now env) (env_idr env) (approval_request req action cost) = (x, am')" by fastforce
  let ?orc = "orc\<lparr>o_approvalMgr := Some am'\<rparr>"
  have o: "audit_open ?orc" "audit_of ?orc = audit_of orc"
    using assms(2) by (simp_all add: audit_open_def audit_of_def)
  show ?thesis
  proof (cases x)
    case (Inl ce)
    with Some c assms(1) o show ?thesis by (auto simp: request_approval_def audited_def)
  next
    case (Inr aid)
    with Some c assms(1) logAuditEvent_audited[OF o(1), of req] o(2) show ?thesis
      by (fastforce simp: request_approval_def audited_def)
  qed
qed

lemma runSecurityChecks_audited:
  assumes run: "runSecurityChecks env orc req action cost = (r, orc')" and o: "audit_open orc"
  shows "\<exists>evs. audited req orc orc' evs \<and>
    (r = None \<or> (\<exists>ce. r = Some (CreatingApproval ce)) \<or> evs \<noteq> [] \<and> ev_Result (last evs) \<in> {''denied'', ''approval_pending''})"
proof -
  obtain sm where sm: "o_security orc = Some sm" using o by (auto simp: audit_open_def split: option.splits)
  note logged = logAuditEvent_audited[OF o, of req]
  consider (deny) e where "r = Some (SecErr e)"
      "orc' = logAuditEvent (env_now env) req (act_Name action) ''denied'' cost '''' (env_text env (SecErr e)) orc"
    | (pass) "r = None" "orc' = orc"
    | (auto) "r = None" "orc' = logAuditEvent (env_now env) req (act_Name action) ''autonomous_approved'' cost '''' '''' orc"
    | (granted) orc1 where "ask_auto_approver env orc req = (True, orc1)" "r = None"
        "orc' = logAuditEvent (env_now env) req (act_Name action) ''auto_approved'' cost [] [] orc1"
    | (pending) orc1 e where "ask_auto_approver env orc req = (False, orc1)"
        "request_approval env orc1 req action cost e = (r, orc')"
    using run sm by (auto simp: runSecurityChecks_def Let_def split: option.splits if_splits prod.splits)
  then show ?thesis
  proof cases
    case deny
    with logged show ?thesis by fastforce
  next
    case pass
    with audited_refl[OF o] show ?thesis by blast
  next
    case auto
    with logged show ?thesis by blast
  next
    case granted
    have "audit_open orc1" "audit_of orc1 = audit_of orc"
      using o ask_auto_approver_frame[OF granted(1)] by (simp_all add: audit_open_def audit_of_def)
    with granted logAuditEvent_audited[of orc1 req] show ?thesis by (auto simp: audited_def)
  next
    case pending
    have "audit_open orc1" "audit_of orc1 = audit_of orc"
      using o ask_auto_approver_frame[OF pending(1)] by (simp_all add: audit_open_def audit_of_def)
    with request_approval_audited[OF pending(2)] show ?thesis by (fastforce simp: audited_def)
  qed
qed

section \<open>Execution under the budget\<close>

text \<open>
  What the ledger of the user looks like after an execution of cost \<open>c\<close>: reserving adds \<open>c\<close>,
  \<^verbatim>\<open>RecordCost\<close> takes it away again, and the deferred \<^verbatim>\<open>release\<close> takes it away a second time.
\<close>

definition settle_budget :: "BudgetManager \<Rightarrow> string \<Rightarrow> usd \<Rightarrow> BudgetManager" where
  "settle_budget bm u c =
     (let ub = fst (getOrCreate bm u)
      in put_user bm u (ub\<lparr>ub_spent := ub_spent ub + c,
           ub_reserved := (if 0 \<le> ub_reserved ub then ub_reserved ub else 0) - c\<rparr>))"

lemma getOrCreate_known [simp]:
  "getOrCreate (b\<lparr>bm_users := m(u \<mapsto> x)\<rparr>) u = (x, b\<lparr>bm_users := m(u \<mapsto> x)\<rparr>)"
  by (simp add: getOrCreate_def)

lemma settle_budget_eq:
  assumes "ReserveBudget bm u c = (Inr rel, b)"
  shows "fst (release (RecordCost b u c) rel) = settle_budget bm u c"
proof -
  obtain ub b1 where g: "getOrCreate bm u = (ub, b1)" by fastforce
  have b1: "b1\<lparr>bm_users := (bm_users b1)(u \<mapsto> x)\<rparr> = bm\<lparr>bm_users := (bm_users bm)(u \<mapsto> x)\<rparr>" for x
    using g by (auto simp: getOrCreate_def Let_def split: option.splits)
  from assms g show ?thesis
    by (auto simp: ReserveBudget_def RecordCost_def release_def put_user_def
        settle_budget_def Let_def b1 split: if_splits)
qed

lemma executeWithAudit_spec:
  assumes sm: "o_security orc = Some sm"
    and ex: "executeWithAudit env orc req tool action cost approvedBy = (r, orc')"
  shows "(cost \<le> fst (Remaining (sm_budget sm) (tr_UserID req)) \<and>
      o_world orc' = snd (tool_Execute tool (tr_UserID req) (tr_Parameters req) (o_world orc)) \<and>
      budget_of orc' = Some (settle_budget (sm_budget sm) (tr_UserID req) cost)) \<or>
    (fst (Remaining (sm_budget sm) (tr_UserID req)) < cost \<and> o_world orc' = o_world orc \<and>
      (\<exists>e. r = Inl (SecErr e) \<and> Is_ErrBudgetExceeded e) \<and>
      budget_of orc' = Some (snd (ReserveBudget (sm_budget sm) (tr_UserID req) cost)))"
proof -
  let ?u = "tr_UserID req"
  obtain x b where res: "ReserveBudget (sm_budget sm) ?u cost = (x, b)" by fastforce
  have rem: "fst (Remaining (sm_budget sm) ?u) = ub_remaining (fst (getOrCreate (sm_budget sm) ?u))"
    by (simp add: Remaining_def split_beta Let_def)
  show ?thesis
  proof (cases x)
    case (Inl e)
    with res have "fst (Remaining (sm_budget sm) ?u) < cost" "Is_ErrBudgetExceeded e"
      by (auto simp: ReserveBudget_def rem split_beta Let_def split: if_splits)
    with Inl res ex sm show ?thesis
      by (auto simp: executeWithAudit_def logAuditEvent_def budget_of_def log_event_def)
  next
    case (Inr rel)
    with res have "cost \<le> fst (Remaining (sm_budget sm) ?u)"
      by (auto simp: ReserveBudget_def rem split_beta Let_def split: if_splits)
    moreover have "o_world orc' = snd (tool_Execute tool ?u (tr_Parameters req) (o_world orc)) \<and>
        budget_of orc' = Some (settle_budget (sm_budget sm) ?u cost)"
      using Inr res ex sm settle_budget_eq[OF res[unfolded Inr]]
      by (auto simp: executeWithAudit_def Let_def logAuditEvent_def budget_of_def log_event_def
          split: prod.splits sum.splits)
    ultimately show ?thesis by blast
  qed
qed

lemma settled_audited:
  assumes "audited req orc orc1 evs" and "o_security orc2 = map_option (\<lambda>s. s\<lparr>sm_budget := f s\<rparr>) (o_security orc1)"
  shows "audited req orc orc2 evs"
  using assms by (auto simp: audited_def audit_open_def audit_of_def split: option.splits)

lemma audited_start:
  assumes "audited req orc1 orc2 evs" and "audit_open orc1 = audit_open orc" and "audit_of orc1 = audit_of orc"
  shows "audited req orc orc2 evs"
  using assms by (simp add: audited_def)

lemma executeWithAudit_audited:
  assumes ex: "executeWithAudit env orc req tool action cost approvedBy = (r, orc')" and o: "audit_open orc"
  shows "\<exists>evs. audited req orc orc' evs \<and>
    (evs \<noteq> [] \<and> ev_Result (last evs) = ''denied'' \<and> (\<exists>e. r = Inl e) \<and> o_world orc' = o_world orc \<or>
     (\<exists>i f. evs = [i, f] \<and> ev_Result i = ''intent'' \<and> ev_Result f = (case r of Inl _ \<Rightarrow> ''failure'' | Inr _ \<Rightarrow> ''success'')))"
proof -
  obtain sm where sm: "o_security orc = Some sm" using o by (auto simp: audit_open_def split: option.splits)
  obtain x b where res: "ReserveBudget (sm_budget sm) (tr_UserID req) cost = (x, b)" by fastforce
  let ?orc0 = "orc\<lparr>o_security := Some (sm\<lparr>sm_budget := b\<rparr>)\<rparr>"
  have o0: "audit_open ?orc0" "audit_open ?orc0 = audit_open orc" "audit_of ?orc0 = audit_of orc"
    using o sm by (simp_all add: audit_open_def audit_of_def)
  show ?thesis
  proof (cases x)
    case (Inl e)
    with ex sm res have r: "r = Inl (SecErr e)" and orc': "orc' = logAuditEvent (env_now env) req (act_Name action) ''denied'' cost approvedBy
         (env_text env (SecErr e)) ?orc0"
      by (simp_all add: executeWithAudit_def)
    have "o_world orc' = o_world orc" by (simp add: orc' logAuditEvent_def)
    with r audited_start[OF logAuditEvent_audited[OF o0(1)] o0(2,3)] orc' show ?thesis by fastforce
  next
    case (Inr rel)
    let ?i = "mk_event (env_now env) req (act_Name action) ''intent'' cost approvedBy ''''"
    let ?orc1 = "logAuditEvent (env_now env) req (act_Name action) ''intent'' cost approvedBy '''' ?orc0"
    have a1: "audited req orc ?orc1 [?i]"
      by (rule audited_start[OF logAuditEvent_audited[OF o0(1)] o0(2,3)])
    obtain result w where t: "tool_Execute tool (tr_UserID req) (tr_Parameters req) (o_world ?orc1) = (result, w)" by fastforce
    let ?orc1w = "?orc1\<lparr>o_world := w\<rparr>"
    have a1w: "audited req orc ?orc1w [?i]"
      by (rule settled_audited[OF a1, where f = sm_budget]) (simp add: option.map_ident)
    then have ow: "audit_open ?orc1w" by (simp add: audited_def)
    define f where "f = (case result of
        Inl err \<Rightarrow> mk_event (env_end env) req (act_Name action) ''failure'' cost approvedBy err
      | Inr _ \<Rightarrow> mk_event (env_end env) req (act_Name action) ''success'' cost approvedBy '''')"
    have "audited req ?orc1w (log_event f ?orc1w) [f]"
      by (rule log_event_audited[OF ow]) (auto simp: f_def mk_event_def split: sum.split)
    from audited_trans[OF a1w this] have a2: "audited req orc (log_event f ?orc1w) [?i, f]" by simp
    have "o_security orc' = map_option (\<lambda>s. s\<lparr>sm_budget := fst (release (RecordCost (sm_budget s) (tr_UserID req) cost) rel)\<rparr>)
        (o_security (log_event f ?orc1w))"
      using ex sm res Inr t by (auto simp: executeWithAudit_def Let_def f_def logAuditEvent_def split: sum.splits)
    from settled_audited[OF a2 this] have a3: "audited req orc orc' [?i, f]" .
    have "(case r of Inl _ \<Rightarrow> ''failure'' | Inr _ \<Rightarrow> ''success'') = ev_Result f"
      using ex sm res Inr t by (auto simp: executeWithAudit_def Let_def f_def split: sum.splits)
    with a3 show ?thesis by fastforce
  qed
qed

lemma cacheToolResult_frame [simp]:
  "o_world (cacheToolResult env orc n ps resp) = o_world orc"
  "o_security (cacheToolResult env orc n ps resp) = o_security orc"
  "o_toolRegistry (cacheToolResult env orc n ps resp) = o_toolRegistry orc"
  "o_approvalMgr (cacheToolResult env orc n ps resp) = o_approvalMgr orc"
  by (simp_all add: cacheToolResult_def split: option.split)

lemma updateApprovalToolResult_frame [simp]:
  "o_world (updateApprovalToolResult env orc pa c e) = o_world orc"
  "o_security (updateApprovalToolResult env orc pa c e) = o_security orc"
  "o_toolRegistry (updateApprovalToolResult env orc pa c e) = o_toolRegistry orc"
  "o_approvalMgr (updateApprovalToolResult env orc pa c e) = o_approvalMgr orc"
  by (simp_all add: updateApprovalToolResult_def split: option.split)

text \<open>The part of \<^verbatim>\<open>ExecuteTool\<close> behind the cache and the policy: checks, then execution.\<close>

lemma checked_execution_cases:
  assumes sm: "o_security orc = Some sm" and ex: "checked_execution env orc req tool = (r, orc')"
  obtains (stopped) e where "runSecurityChecks env orc req (tool_RequiredAction tool) (tool_EstimateCost tool (tr_Parameters req)) = (Some e, orc')"
      "r = Inl e"
  | (run) orc1 orc2 where
      "runSecurityChecks env orc req (tool_RequiredAction tool) (tool_EstimateCost tool (tr_Parameters req)) = (None, orc1)"
      "executeWithAudit env orc1 req tool (tool_RequiredAction tool) (tool_EstimateCost tool (tr_Parameters req)) '''' = (r, orc2)"
      "o_world orc' = o_world orc2" "o_security orc' = o_security orc2" "o_toolRegistry orc' = o_toolRegistry orc2"
      "o_approvalMgr orc' = o_approvalMgr orc2"
proof -
  obtain x orc1 where rs: "runSecurityChecks env orc req (tool_RequiredAction tool) (tool_EstimateCost tool (tr_Parameters req)) = (x, orc1)"
    by fastforce
  show thesis
  proof (cases x)
    case (Some e)
    with ex sm rs have "r = Inl e" "orc' = orc1" by (simp_all add: checked_execution_def Let_def)
    with rs Some stopped show thesis by blast
  next
    case None
    obtain y orc2 where ew: "executeWithAudit env orc1 req tool (tool_RequiredAction tool) (tool_EstimateCost tool (tr_Parameters req)) '''' = (y, orc2)"
      by fastforce
    from ex sm rs None ew have "r = y" "o_world orc' = o_world orc2" "o_security orc' = o_security orc2"
      "o_toolRegistry orc' = o_toolRegistry orc2" "o_approvalMgr orc' = o_approvalMgr orc2"
      by (auto simp: checked_execution_def Let_def split: sum.splits)
    with run[OF rs[unfolded None]] ew show thesis by blast
  qed
qed

end
