(* ===== verification/PipelineRuns.thy ===== *)
theory PipelineRuns
  imports Pipeline
begin

text \<open>
  Properties of the pipeline: what must have held when a tool acted on the world, what the
  audit log says afterwards, and, for sequences of executions, resumptions and human decisions,
  how far spending can exceed the limit and where an approved execution comes from.
\<close>

section \<open>One execution\<close>

lemma ExecuteTool_outcome:
  assumes "ExecuteTool env orc req = (r, orc')"
  shows "orc' = orc \<or>
    (\<exists>e ev. policy_check orc req = Some e \<and> orc' = log_event ev orc) \<or>
    (\<exists>reg tool. o_toolRegistry orc = Some reg \<and> Registry_Get reg (tr_ToolName req) = Some tool \<and>
      tool_Validate tool (tr_Parameters req) = None \<and> policy_check orc req = None \<and>
      checked_execution env orc req tool = (r, orc'))"
  using assms unfolding ExecuteTool_def
  by (cases "o_toolRegistry orc"; cases "policy_check orc req"; cases "cache_lookup env orc req")
    (auto split: option.splits)

lemma ExecuteTool_cases:
  assumes "ExecuteTool env orc req = (r, orc')"
  obtains (same) "orc' = orc"
  | (policy) e ev where "policy_check orc req = Some e" "orc' = log_event ev orc"
  | (checked) reg tool where "o_toolRegistry orc = Some reg" "Registry_Get reg (tr_ToolName req) = Some tool"
      "tool_Validate tool (tr_Parameters req) = None" "policy_check orc req = None"
      "checked_execution env orc req tool = (r, orc')"
  using ExecuteTool_outcome[OF assms] by blast

text \<open>
  (C1) Complete mediation: a call of \<^verbatim>\<open>ExecuteTool\<close> changes the world only if the named tool is
  registered and accepts the parameters, the policy allows it, the user's role grants the action,
  approval was either not needed or given by autonomous mode or the auto-approver, and the
  estimated cost was within the user's remaining budget.
\<close>

theorem execution_authorized:
  assumes "o_security orc = Some sm" and "ExecuteTool env orc req = (r, orc')" and "o_world orc' \<noteq> o_world orc"
  shows "\<exists>reg tool. o_toolRegistry orc = Some reg \<and> Registry_Get reg (tr_ToolName req) = Some tool \<and>
    tool_Validate tool (tr_Parameters req) = None \<and> policy_check orc req = None \<and>
    CheckPermission (sm_rbac sm) (tr_UserID req) (tool_RequiredAction tool) = None \<and>
    approved_unattended env orc req (sm_rbac sm) (tool_RequiredAction tool) \<and>
    tool_EstimateCost tool (tr_Parameters req) \<le> fst (Remaining (sm_budget sm) (tr_UserID req))"
  using assms(2)
proof (cases rule: ExecuteTool_cases)
  case same
  with assms(3) show ?thesis by simp
next
  case (policy e ev)
  with assms(3) show ?thesis by simp
next
  case (checked reg tool)
  from assms(1) checked(5) show ?thesis
  proof (cases rule: checked_execution_cases)
    case (stopped e)
    with runSecurityChecks_spec[OF assms(1) stopped(1)] assms(3) show ?thesis by simp
  next
    case (run orc1 orc2)
    note c = runSecurityChecks_spec[OF assms(1) run(1)]
    then obtain sm1 where sm1: "o_security orc1 = Some sm1" "sm_budget sm1 = sm_budget sm"
      using assms(1) by (auto simp: budget_of_def)
    from executeWithAudit_spec[OF sm1(1) run(2)] run(3) c assms(3) sm1(2)
    have "tool_EstimateCost tool (tr_Parameters req) \<le> fst (Remaining (sm_budget sm) (tr_UserID req))" by auto
    with checked c show ?thesis by blast
  qed
qed


text \<open>
  A cache hit bypasses all of it: while a read-only result is cached, any user gets it, with
  no permission, policy or budget check and no audit event.
\<close>

theorem cache_hit_bypasses_checks:
  assumes "o_toolRegistry orc = Some reg" and "Registry_Get reg (tr_ToolName req) = Some tool"
    and "tool_Validate tool (tr_Parameters req) = None" and "cache_lookup env orc req = Some resp"
  shows "ExecuteTool env orc (req\<lparr>tr_UserID := u\<rparr>) = (Inr resp, orc)"
proof -
  have "cache_lookup env orc (req\<lparr>tr_UserID := u\<rparr>) = Some resp"
    using assms(4) by (cases "o_toolCache orc") (auto simp: cache_lookup_def split: if_splits)
  with assms show ?thesis by (simp add: ExecuteTool_def)
qed

section \<open>Resuming an approved execution\<close>

lemma Get_approved:
  "Get am now aid = (Inr pa, am') \<Longrightarrow> pa_Status pa = StatusApproved \<Longrightarrow> mgr_pending am aid = Some pa \<and> am' = am"
  by (auto simp: Get_def Let_def split: option.splits if_splits)

definition noted :: "env \<Rightarrow> 'w Orchestrator \<Rightarrow> PendingApproval \<Rightarrow> 'w Orchestrator" where
  "noted env orc pa = orc\<lparr>o_autoApprover := map_option (\<lambda>aa. RecordManualApproval (env_codec env) aa (env_now env)
     (pa_UserID pa) (pa_ToolName pa) (pa_Parameters pa)) (o_autoApprover orc)\<rparr>"

lemma noted_frame [simp]:
  "o_world (noted env orc pa) = o_world orc" "o_security (noted env orc pa) = o_security orc"
  "o_toolRegistry (noted env orc pa) = o_toolRegistry orc" "o_approvalMgr (noted env orc pa) = o_approvalMgr orc"
  by (simp_all add: noted_def)

lemma ResumeWithApproval_approved:
  assumes "o_approvalMgr orc = Some am" and "mgr_pending am aid = Some pa" and "pa_Status pa = StatusApproved"
  shows "ResumeWithApproval env orc aid = resume_approved env (noted env orc pa) pa"
proof -
  have g: "Get am (env_now env) aid = (Inr pa, am)" using assms by (simp add: Get_def)
  have eq: "orc\<lparr>o_approvalMgr := Some am, o_autoApprover := f\<rparr> = orc\<lparr>o_autoApprover := f\<rparr>" for f
    using assms(1) by simp
  show ?thesis
    by (simp only: ResumeWithApproval_def noted_def assms g eq option.case prod.case sum.case simp_thms if_False)
qed

lemma ResumeWithApproval_refused:
  assumes "o_approvalMgr orc = Some am" and "status_of (mgr_pending am) aid \<noteq> Some StatusApproved"
  shows "\<exists>e. ResumeWithApproval env orc aid = (Inl e, orc\<lparr>o_approvalMgr := Some (snd (Get am (env_now env) aid))\<rparr>)"
proof -
  obtain x am' where g: "Get am (env_now env) aid = (x, am')" by fastforce
  show ?thesis
  proof (cases x)
    case (Inl e)
    with g assms(1) show ?thesis by (simp add: ResumeWithApproval_def)
  next
    case (Inr pa)
    have "pa_Status pa \<noteq> StatusApproved" using Get_approved[of am _ aid pa am'] g Inr assms(2) by (auto simp: status_of_def)
    with g Inr assms(1) show ?thesis by (simp add: ResumeWithApproval_def)
  qed
qed

lemma resume_cases:
  assumes "ResumeWithApproval env orc aid = (r, orc')"
  obtains (none) "o_approvalMgr orc = None" "orc' = orc"
  | (refused) am where "o_approvalMgr orc = Some am"
      "orc' = orc\<lparr>o_approvalMgr := Some (snd (Get am (env_now env) aid))\<rparr>"
  | (approved) am pa where "o_approvalMgr orc = Some am" "mgr_pending am aid = Some pa" "pa_Status pa = StatusApproved"
      "resume_approved env (noted env orc pa) pa = (r, orc')"
proof (cases "o_approvalMgr orc")
  case None
  with assms have "orc' = orc" by (simp add: ResumeWithApproval_def)
  with None none show thesis by blast
next
  case (Some am)
  show thesis
  proof (cases "status_of (mgr_pending am) aid = Some StatusApproved")
    case True
    then obtain pa where "mgr_pending am aid = Some pa" "pa_Status pa = StatusApproved" by (auto simp: status_of_def)
    with Some approved ResumeWithApproval_approved[OF Some, of aid pa env] assms show thesis by simp
  next
    case False
    with Some refused ResumeWithApproval_refused[OF Some False, of env] assms show thesis by auto
  qed
qed

lemma resume_approved_outcome:
  assumes "resume_approved env orc pa = (r, orc')" and "o_security orc = Some sm"
  shows "orc' = orc \<or>
    (\<exists>reg tool x orc2. o_toolRegistry orc = Some reg \<and> Registry_Get reg (pa_ToolName pa) = Some tool \<and>
      tool_Validate tool (pa_Parameters pa) = None \<and>
      executeWithAudit env orc (resumed_request pa) tool (tool_RequiredAction tool) (pa_EstimatedCost pa) (pa_ApprovedBy pa) = (x, orc2) \<and>
      (\<exists>c e. orc' = updateApprovalToolResult env orc2 pa c e))"
proof (cases "\<exists>reg tool. o_toolRegistry orc = Some reg \<and> Registry_Get reg (pa_ToolName pa) = Some tool \<and>
      tool_Validate tool (pa_Parameters pa) = None")
  case False
  with assms(1) have "orc' = orc" by (auto simp: resume_approved_def split: option.splits)
  then show ?thesis by blast
next
  case True
  then obtain reg tool where t: "o_toolRegistry orc = Some reg" "Registry_Get reg (pa_ToolName pa) = Some tool"
      "tool_Validate tool (pa_Parameters pa) = None" by blast
  obtain x orc2 where e: "executeWithAudit env orc (resumed_request pa) tool (tool_RequiredAction tool)
      (pa_EstimatedCost pa) (pa_ApprovedBy pa) = (x, orc2)" by fastforce
  have "\<exists>c e. orc' = updateApprovalToolResult env orc2 pa c e"
    using assms t e by (cases x) (auto simp: resume_approved_def)
  with t e show ?thesis by blast
qed

lemma resumed_request_simps [simp]:
  "tr_UserID (resumed_request pa) = pa_UserID pa"
  "tr_ToolName (resumed_request pa) = pa_ToolName pa"
  "tr_Parameters (resumed_request pa) = pa_Parameters pa"
  by (simp_all add: resumed_request_def)

text \<open>
  Resuming executes only what was approved: a call of \<^verbatim>\<open>ResumeWithApproval\<close> that changes the
  world found the request in state approved and within the budget of the user who made it, and
  the change is the execution of the requested tool on the requested parameters as that user.
\<close>

theorem resume_requires_approval:
  assumes "o_security orc = Some sm" and "ResumeWithApproval env orc aid = (r, orc')" and "o_world orc' \<noteq> o_world orc"
  shows "\<exists>am pa reg tool. o_approvalMgr orc = Some am \<and> mgr_pending am aid = Some pa \<and> pa_Status pa = StatusApproved \<and>
    o_toolRegistry orc = Some reg \<and> Registry_Get reg (pa_ToolName pa) = Some tool \<and>
    pa_EstimatedCost pa \<le> fst (Remaining (sm_budget sm) (pa_UserID pa)) \<and>
    o_world orc' = snd (tool_Execute tool (pa_UserID pa) (pa_Parameters pa) (o_world orc))"
  using assms(2)
proof (cases rule: resume_cases)
  case none
  with assms(3) show ?thesis by simp
next
  case (refused am)
  with assms(3) show ?thesis by simp
next
  case (approved am pa)
  have sm1: "o_security (noted env orc pa) = Some sm" using assms(1) by simp
  from resume_approved_outcome[OF approved(4) sm1] show ?thesis
  proof
    assume "orc' = noted env orc pa"
    with assms(3) show ?thesis by simp
  next
    assume "\<exists>reg tool x orc2. o_toolRegistry (noted env orc pa) = Some reg \<and> Registry_Get reg (pa_ToolName pa) = Some tool \<and>
      tool_Validate tool (pa_Parameters pa) = None \<and>
      executeWithAudit env (noted env orc pa) (resumed_request pa) tool (tool_RequiredAction tool) (pa_EstimatedCost pa) (pa_ApprovedBy pa) = (x, orc2) \<and>
      (\<exists>c e. orc' = updateApprovalToolResult env orc2 pa c e)"
    then obtain reg tool x orc2 where t: "o_toolRegistry orc = Some reg" "Registry_Get reg (pa_ToolName pa) = Some tool"
      and e: "executeWithAudit env (noted env orc pa) (resumed_request pa) tool (tool_RequiredAction tool) (pa_EstimatedCost pa) (pa_ApprovedBy pa) = (x, orc2)"
      and w: "o_world orc' = o_world orc2" by auto
    from executeWithAudit_spec[OF sm1 e] w t approved assms(3) show ?thesis by auto
  qed
qed

section \<open>Runs\<close>

text \<open>
  Executions, resumptions and human decisions in any order. (Operations of one process
  overlap only inside \<^verbatim>\<open>executeWithAudit\<close>; here they run one after the other.)
\<close>

datatype agent_op =
    AgExec env ToolRequest
  | AgResume env string
  | AgDecide time string string bool

fun agent_step :: "'w Orchestrator \<Rightarrow> agent_op \<Rightarrow> 'w Orchestrator" where
  "agent_step orc (AgExec env req) = snd (ExecuteTool env orc req)"
| "agent_step orc (AgResume env aid) = snd (ResumeWithApproval env orc aid)"
| "agent_step orc (AgDecide t aid who ok) =
     orc\<lparr>o_approvalMgr := map_option (\<lambda>am. snd (if ok then Approve am t aid who else Deny am t aid who)) (o_approvalMgr orc)\<rparr>"

lemma executeWithAudit_frame:
  assumes "executeWithAudit env orc req tool action cost approvedBy = (r, orc')"
  shows "o_approvalMgr orc' = o_approvalMgr orc \<and> o_toolRegistry orc' = o_toolRegistry orc"
  using assms
  by (auto simp: executeWithAudit_def Let_def logAuditEvent_def split: option.splits prod.splits sum.splits)

lemma executeTool_frame:
  assumes "executeTool orc u tool ps = (r, orc')"
  shows "o_approvalMgr orc' = o_approvalMgr orc \<and> o_toolRegistry orc' = o_toolRegistry orc \<and> o_security orc' = o_security orc"
  using assms by (auto simp: executeTool_def split: prod.splits sum.splits)

lemma request_approval_mgr:
  assumes "request_approval env orc req action cost e = (r, orc')"
  shows "r \<noteq> None \<and> (o_approvalMgr orc' = o_approvalMgr orc \<or>
    (\<exists>am. o_approvalMgr orc = Some am \<and>
      o_approvalMgr orc' = Some (snd (Create am (env_now env) (env_idr env) (approval_request req action cost)))))"
  using assms by (auto simp: request_approval_def logAuditEvent_def split: option.splits prod.splits sum.splits)

lemma runSecurityChecks_mgr:
  assumes "runSecurityChecks env orc req action cost = (r, orc')"
  shows "(o_approvalMgr orc' = o_approvalMgr orc \<or>
    r \<noteq> None \<and> (\<exists>am. o_approvalMgr orc = Some am \<and>
      o_approvalMgr orc' = Some (snd (Create am (env_now env) (env_idr env) (approval_request req action cost)))))"
  using assms
  by (auto simp: runSecurityChecks_def Let_def logAuditEvent_def split: option.splits if_splits prod.splits
      dest!: ask_auto_approver_frame request_approval_mgr) metis+

text \<open>
  Seen from the approval manager, a step is a sequence of its operations. Approvals come from
  decisions only, and what a new request would cost is the estimate of a registered tool.
\<close>

fun origin :: "'w Orchestrator \<Rightarrow> agent_op \<Rightarrow> time \<times> approval_op \<Rightarrow> bool" where
  "origin orc op (t, OpApprove aid who) \<longleftrightarrow> op = AgDecide t aid who True"
| "origin orc op (t, OpCreate idr cr) \<longleftrightarrow> (\<exists>reg n tool ps. o_toolRegistry orc = Some reg \<and>
     Registry_Get reg n = Some tool \<and> cr_EstimatedCost cr = tool_EstimateCost tool ps)"
| "origin orc op _ \<longleftrightarrow> True"

definition mgr_run :: "'w Orchestrator \<Rightarrow> agent_op \<Rightarrow> 'w Orchestrator \<Rightarrow> bool" where
  "mgr_run orc op orc' \<longleftrightarrow> (\<exists>ops. o_approvalMgr orc' = map_option (\<lambda>am. foldl mem_step am ops) (o_approvalMgr orc) \<and>
     (\<forall>x \<in> set ops. origin orc op x))"

lemma mgr_run_same: "o_approvalMgr orc' = o_approvalMgr orc \<Longrightarrow> mgr_run orc op orc'"
  by (auto simp: mgr_run_def option.map_ident intro!: exI[of _ "[]"])

lemma mgr_run_step: "o_approvalMgr orc = Some am \<Longrightarrow> o_approvalMgr orc' = Some (mem_step am x) \<Longrightarrow> origin orc op x \<Longrightarrow> mgr_run orc op orc'"
  by (auto simp: mgr_run_def intro!: exI[of _ "[x]"])

lemma checked_execution_frame:
  assumes "checked_execution env orc req tool = (r, orc')" "o_toolRegistry orc = Some reg" "Registry_Get reg n = Some tool"
  shows "mgr_run orc op orc' \<and> o_toolRegistry orc' = o_toolRegistry orc"
proof (cases "o_security orc")
  case None
  obtain x orc1 where e: "executeTool orc (tr_UserID req) tool (tr_Parameters req) = (x, orc1)" by fastforce
  with executeTool_frame[OF e] assms(1) None show ?thesis
    by (auto simp: checked_execution_def Let_def intro!: mgr_run_same split: sum.splits)
next
  case (Some sm)
  from Some assms(1) show ?thesis
  proof (cases rule: checked_execution_cases)
    case (stopped e)
    have "mgr_run orc op orc'"
      using runSecurityChecks_mgr[OF stopped(1)]
    proof
      assume "o_approvalMgr orc' = o_approvalMgr orc"
      then show ?thesis by (rule mgr_run_same)
    next
      let ?cr = "approval_request req (tool_RequiredAction tool) (tool_EstimateCost tool (tr_Parameters req))"
      assume "Some e \<noteq> None \<and> (\<exists>am. o_approvalMgr orc = Some am \<and>
        o_approvalMgr orc' = Some (snd (Create am (env_now env) (env_idr env) ?cr)))"
      then obtain am where am: "o_approvalMgr orc = Some am" "o_approvalMgr orc' = Some (mem_step am (env_now env, OpCreate (env_idr env) ?cr))"
        by auto
      show ?thesis by (rule mgr_run_step[OF am]) (use assms(2,3) in \<open>auto simp: approval_request_def\<close>)
    qed
    then show ?thesis using runSecurityChecks_spec[OF Some stopped(1)] by simp
  next
    case (run orc1 orc2)
    have "o_approvalMgr orc1 = o_approvalMgr orc" using runSecurityChecks_mgr[OF run(1)] by simp
    with run executeWithAudit_frame[OF run(2)] runSecurityChecks_spec[OF Some run(1)] show ?thesis
      by (auto intro!: mgr_run_same)
  qed
qed

lemma resume_approved_frame:
  assumes "resume_approved env orc pa = (r, orc')"
  shows "o_approvalMgr orc' = o_approvalMgr orc \<and> o_toolRegistry orc' = o_toolRegistry orc"
  using assms
  by (auto simp: resume_approved_def split: option.splits prod.splits sum.splits
      dest!: executeWithAudit_frame executeTool_frame)

lemma ExecuteTool_frame:
  assumes "ExecuteTool env orc req = (r, orc')"
  shows "mgr_run orc op orc' \<and> o_toolRegistry orc' = o_toolRegistry orc"
  using assms
proof (cases rule: ExecuteTool_cases)
  case same
  then show ?thesis by (simp add: mgr_run_same)
next
  case (policy e ev)
  then show ?thesis by (simp add: mgr_run_same)
next
  case (checked reg tool)
  from checked_execution_frame[OF checked(5,1,2)] show ?thesis .
qed

lemma agent_step_frame: "mgr_run orc op (agent_step orc op) \<and> o_toolRegistry (agent_step orc op) = o_toolRegistry orc"
proof (cases op)
  case (AgExec env req)
  with ExecuteTool_frame[of env orc req "fst (ExecuteTool env orc req)" "snd (ExecuteTool env orc req)"] show ?thesis by simp
next
  case (AgResume env aid)
  obtain r orc' where r: "ResumeWithApproval env orc aid = (r, orc')" by fastforce
  then have "mgr_run orc op orc' \<and> o_toolRegistry orc' = o_toolRegistry orc"
  proof (cases rule: resume_cases)
    case none
    then show ?thesis by (simp add: mgr_run_same)
  next
    case (refused am)
    then show ?thesis by (simp add: mgr_run_step[of orc am _ "(env_now env, OpGet aid)"])
  next
    case (approved am pa)
    with resume_approved_frame[OF approved(4)] show ?thesis by (simp add: mgr_run_same)
  qed
  with r AgResume show ?thesis by simp
next
  case (AgDecide t aid who ok)
  show ?thesis
  proof (cases "o_approvalMgr orc")
    case None
    with AgDecide show ?thesis by (simp add: mgr_run_same)
  next
    case (Some am)
    with AgDecide mgr_run_step[OF Some, of _ "(t, OpApprove aid who)" op] mgr_run_step[OF Some, of _ "(t, OpDeny aid who)" op]
    show ?thesis by (cases ok) simp_all
  qed
qed

lemma agent_run_mgr:
  assumes "o_approvalMgr orc = Some am"
  shows "o_toolRegistry (foldl agent_step orc ops) = o_toolRegistry orc \<and>
    (\<exists>mops. o_approvalMgr (foldl agent_step orc ops) = Some (foldl mem_step am mops) \<and>
      (\<forall>x \<in> set mops. \<exists>op \<in> set ops. origin orc op x))"
proof (induction ops rule: rev_induct)
  case Nil
  show ?case by (auto simp: assms intro!: exI[of _ "[]"])
next
  case (snoc op ops)
  let ?orc = "foldl agent_step orc ops"
  from snoc obtain mops where reg: "o_toolRegistry ?orc = o_toolRegistry orc"
    and mops: "o_approvalMgr ?orc = Some (foldl mem_step am mops)" "\<forall>x \<in> set mops. \<exists>op \<in> set ops. origin orc op x"
    by blast
  from agent_step_frame[of ?orc op] obtain nops where
      n: "o_approvalMgr (agent_step ?orc op) = Some (foldl mem_step (foldl mem_step am mops) nops)"
         "\<forall>x \<in> set nops. origin ?orc op x" and reg': "o_toolRegistry (agent_step ?orc op) = o_toolRegistry ?orc"
    using mops(1) by (auto simp: mgr_run_def)
  have "origin orc op x = origin ?orc op x" for x
    by (cases "(orc, op, x)" rule: origin.cases) (simp_all add: reg)
  with n mops reg reg' show ?case by (auto intro!: exI[of _ "mops @ nops"])
qed


text \<open>
  An approval is not used up: resuming leaves the approval manager as it is, so an
  approved request can be resumed again and again, even after it expired.
\<close>

theorem approval_is_reusable:
  assumes "o_approvalMgr orc = Some am" and "mgr_pending am aid = Some pa" and "pa_Status pa = StatusApproved"
  shows "o_approvalMgr (snd (ResumeWithApproval env orc aid)) = Some am"
proof -
  obtain r orc' where r: "resume_approved env (noted env orc pa) pa = (r, orc')" by fastforce
  with resume_approved_frame[OF r] ResumeWithApproval_approved[OF assms, of env] assms(1) show ?thesis by simp
qed

section \<open>How far spending can go\<close>

text \<open>
  Because an execution takes its reservation back twice, a user's reserved amount is minus the
  cost of his last execution, and the next one is checked against a budget that still looks
  whole. The invariant: reserved lies between \<open>-K\<close> and 0, spent is at most the limit plus \<open>K\<close>,
  where \<open>K\<close> bounds the cost of a single execution.
\<close>

definition ub_within :: "usd \<Rightarrow> usd \<Rightarrow> userBudget \<Rightarrow> bool" where
  "ub_within L K ub \<longleftrightarrow> ub_limit ub = L \<and> - K \<le> ub_reserved ub \<and> ub_reserved ub \<le> 0 \<and> ub_spent ub \<le> L + K"

definition ledger_within :: "usd \<Rightarrow> usd \<Rightarrow> BudgetManager \<Rightarrow> bool" where
  "ledger_within L K bm \<longleftrightarrow> 0 \<le> L \<and> 0 \<le> K \<and> defaultLimitUSD bm = L \<and> (\<forall>u ub. bm_users bm u = Some ub \<longrightarrow> ub_within L K ub)"

lemma getOrCreate_within:
  assumes "ledger_within L K bm" and "getOrCreate bm u = (ub, bm')"
  shows "ub_within L K ub \<and> ledger_within L K bm'"
  using assms by (auto simp: getOrCreate_def ledger_within_def ub_within_def Let_def split: option.splits if_splits)

lemma refused_within:
  assumes "ledger_within L K bm" and "fst (Remaining bm u) < c"
  shows "ledger_within L K (snd (ReserveBudget bm u c))"
proof -
  obtain ub bm' where g: "getOrCreate bm u = (ub, bm')" by fastforce
  with assms(2) have "snd (ReserveBudget bm u c) = bm'" by (simp add: ReserveBudget_def Remaining_def)
  with getOrCreate_within[OF assms(1) g] show ?thesis by simp
qed

lemma settle_within:
  assumes ok: "ledger_within L K bm" and c: "0 \<le> c" "c \<le> K" "c \<le> fst (Remaining bm u)"
  shows "ledger_within L K (settle_budget bm u c)"
proof -
  obtain ub bm' where g: "getOrCreate bm u = (ub, bm')" by fastforce
  have ub: "ub_within L K ub" using getOrCreate_within[OF ok g] by blast
  with c g have "ub_within L K (ub\<lparr>ub_spent := ub_spent ub + c, ub_reserved := (if 0 \<le> ub_reserved ub then ub_reserved ub else 0) - c\<rparr>)"
    by (auto simp: ub_within_def Remaining_def ub_remaining_def)
  with ok g show ?thesis by (auto simp: ledger_within_def settle_budget_def put_user_def Let_def)
qed

text \<open>Costs: of the registered tools and of the requests waiting for approval.\<close>

definition tools_within :: "usd \<Rightarrow> 'w Orchestrator \<Rightarrow> bool" where
  "tools_within K orc \<longleftrightarrow> (\<forall>reg n tool ps. o_toolRegistry orc = Some reg \<longrightarrow> Registry_Get reg n = Some tool \<longrightarrow>
     0 \<le> tool_EstimateCost tool ps \<and> tool_EstimateCost tool ps \<le> K)"

definition requests_within :: "usd \<Rightarrow> (string \<rightharpoonup> PendingApproval) \<Rightarrow> bool" where
  "requests_within K rows \<longleftrightarrow> (\<forall>aid pa. rows aid = Some pa \<longrightarrow> 0 \<le> pa_EstimatedCost pa \<and> pa_EstimatedCost pa \<le> K)"

lemma mem_step_cost:
  "mgr_pending (mem_step am (t, op)) aid = Some pa' \<Longrightarrow>
     (\<exists>pa. mgr_pending am aid = Some pa \<and> pa_EstimatedCost pa' = pa_EstimatedCost pa) \<or>
     (\<exists>idr cr. op = OpCreate idr cr \<and> pa_EstimatedCost pa' = cr_EstimatedCost cr)"
  by (cases op)
    (auto simp: mem_op_defs Let_def new_approval_def bind_eq_Some_conv split: option.splits if_splits)

lemma origin_cost:
  "tools_within K orc \<Longrightarrow> origin orc op (t, OpCreate idr cr) \<Longrightarrow> 0 \<le> cr_EstimatedCost cr \<and> cr_EstimatedCost cr \<le> K"
  by (fastforce simp: tools_within_def)

lemma mem_step_within:
  assumes "requests_within K (mgr_pending am)" and "tools_within K orc" and "origin orc op x"
  shows "requests_within K (mgr_pending (mem_step am x))"
  unfolding requests_within_def
proof (intro allI impI)
  fix aid pa'
  obtain t o' where x: "x = (t, o')" by fastforce
  assume "mgr_pending (mem_step am x) aid = Some pa'"
  from mem_step_cost[OF this[unfolded x]] show "0 \<le> pa_EstimatedCost pa' \<and> pa_EstimatedCost pa' \<le> K"
    using assms origin_cost[OF assms(2), of op t] unfolding x requests_within_def by metis
qed

lemma mem_run_within:
  "requests_within K (mgr_pending am) \<Longrightarrow> tools_within K orc \<Longrightarrow> \<forall>x \<in> set mops. \<exists>op. origin orc op x \<Longrightarrow>
     requests_within K (mgr_pending (foldl mem_step am mops))"
  by (induction mops arbitrary: am) (auto simp: mem_step_within)

definition spend_ok :: "usd \<Rightarrow> usd \<Rightarrow> 'w Orchestrator \<Rightarrow> bool" where
  "spend_ok L K orc \<longleftrightarrow> tools_within K orc \<and> (\<forall>am. o_approvalMgr orc = Some am \<longrightarrow> requests_within K (mgr_pending am)) \<and>
     (\<exists>bm. budget_of orc = Some bm \<and> ledger_within L K bm)"

lemma executeWithAudit_within:
  assumes "executeWithAudit env orc req tool action c approvedBy = (r, orc')" and "budget_of orc = Some bm"
    and "ledger_within L K bm" and "0 \<le> c" "c \<le> K"
  shows "\<exists>bm'. budget_of orc' = Some bm' \<and> ledger_within L K bm'"
proof -
  obtain sm where sm: "o_security orc = Some sm" "sm_budget sm = bm" using assms(2) by (auto simp: budget_of_def)
  from executeWithAudit_spec[OF sm(1) assms(1)] show ?thesis
    using settle_within[OF assms(3-5)] refused_within[OF assms(3)] sm(2) by auto
qed

lemma agent_step_budget:
  assumes ok: "spend_ok L K orc"
  shows "\<exists>bm. budget_of (agent_step orc op) = Some bm \<and> ledger_within L K bm"
proof -
  from ok obtain bm where bm: "budget_of orc = Some bm" "ledger_within L K bm" and tools: "tools_within K orc"
    by (auto simp: spend_ok_def)
  then obtain sm where sm: "o_security orc = Some sm" "sm_budget sm = bm" by (auto simp: budget_of_def)
  show ?thesis
  proof (cases op)
    case (AgExec env req)
    obtain r orc' where r: "ExecuteTool env orc req = (r, orc')" by fastforce
    then have "\<exists>bm. budget_of orc' = Some bm \<and> ledger_within L K bm"
    proof (cases rule: ExecuteTool_cases)
      case (checked reg tool)
      let ?c = "tool_EstimateCost tool (tr_Parameters req)"
      have c: "0 \<le> ?c" "?c \<le> K" using tools checked by (auto simp: tools_within_def)
      from sm(1) checked(5) show ?thesis
      proof (cases rule: checked_execution_cases)
        case (stopped e)
        with runSecurityChecks_spec[OF sm(1) stopped(1)] bm show ?thesis by simp
      next
        case (run orc1 orc2)
        have "budget_of orc1 = Some bm" using runSecurityChecks_spec[OF sm(1) run(1)] bm by simp
        from executeWithAudit_within[OF run(2) this bm(2) c] run(4) show ?thesis by (simp add: budget_of_def)
      qed
    qed (use bm in auto)
    with r AgExec show ?thesis by simp
  next
    case (AgResume env aid)
    obtain r orc' where r: "ResumeWithApproval env orc aid = (r, orc')" by fastforce
    then have "\<exists>bm. budget_of orc' = Some bm \<and> ledger_within L K bm"
    proof (cases rule: resume_cases)
      case (approved am pa)
      let ?n = "noted env orc pa"
      have n: "o_security ?n = Some sm" "budget_of ?n = Some bm" using sm bm by (simp_all add: budget_of_def)
      have c: "0 \<le> pa_EstimatedCost pa" "pa_EstimatedCost pa \<le> K"
        using ok approved by (auto simp: spend_ok_def requests_within_def)
      from resume_approved_outcome[OF approved(4) n(1)] show ?thesis
        using executeWithAudit_within[OF _ n(2) bm(2) c] n(2) bm(2) by (fastforce simp: budget_of_def)
    qed (use bm in \<open>auto simp: budget_of_def\<close>)
    with r AgResume show ?thesis by simp
  next
    case (AgDecide t aid who ok)
    then have "budget_of (agent_step orc op) = budget_of orc" by (simp add: budget_of_def)
    with bm show ?thesis by simp
  qed
qed

lemma agent_step_spend_ok:
  assumes ok: "spend_ok L K orc"
  shows "spend_ok L K (agent_step orc op)"
proof -
  have reg: "o_toolRegistry (agent_step orc op) = o_toolRegistry orc"
    and mgr: "mgr_run orc op (agent_step orc op)" using agent_step_frame by blast+
  have tools: "tools_within K orc" using ok by (simp add: spend_ok_def)
  have "requests_within K (mgr_pending am)" if "o_approvalMgr (agent_step orc op) = Some am" for am
  proof -
    from mgr that obtain am0 mops where "o_approvalMgr orc = Some am0" "am = foldl mem_step am0 mops"
      "\<forall>x \<in> set mops. origin orc op x" by (cases "o_approvalMgr orc") (auto simp: mgr_run_def)
    moreover from this have "requests_within K (mgr_pending am0)" using ok by (simp add: spend_ok_def)
    ultimately show ?thesis using mem_run_within[OF _ tools, of am0 mops] by blast
  qed
  with tools reg agent_step_budget[OF ok] show ?thesis by (auto simp: spend_ok_def tools_within_def)
qed

lemma agent_run_spend_ok: "spend_ok L K orc \<Longrightarrow> spend_ok L K (foldl agent_step orc ops)"
  by (induction ops arbitrary: orc) (simp_all add: agent_step_spend_ok)


text \<open>
  Where the excess comes from: an execution that is granted, by a user without open
  reservations, records its cost as spent and yet leaves the user's remaining budget as it was.
\<close>

theorem execution_does_not_reduce_remaining:
  assumes "o_security orc = Some sm" and "executeWithAudit env orc req tool action c approvedBy = (r, orc')"
    and "c \<le> fst (Remaining (sm_budget sm) (tr_UserID req))"
    and "ub_reserved (fst (getOrCreate (sm_budget sm) (tr_UserID req))) = 0"
  shows "\<exists>bm. budget_of orc' = Some bm \<and>
    fst (Remaining bm (tr_UserID req)) = fst (Remaining (sm_budget sm) (tr_UserID req)) \<and>
    ub_spent (fst (getOrCreate bm (tr_UserID req))) = ub_spent (fst (getOrCreate (sm_budget sm) (tr_UserID req))) + c"
proof -
  have "budget_of orc' = Some (settle_budget (sm_budget sm) (tr_UserID req) c)"
    using executeWithAudit_spec[OF assms(1,2)] assms(3) by auto
  with assms(4) show ?thesis
    by (simp add: settle_budget_def Remaining_def put_user_def ub_remaining_def Let_def split_beta)
qed

section \<open>Witnesses\<close>

text \<open>
  A concrete agent: one tool of cost 6 that counts its executions, a budget of 10, one role that
  may use the tool and one that needs approval for it.
\<close>

definition demo_tool :: "nat Tool" where
  "demo_tool = \<lparr>tool_Name = ''shell'', tool_Description = ''d'', tool_InputSchema = [],
     tool_RequiredAction = \<lparr>act_Name = ''shell'', act_RiskLevel = RiskMedium\<rparr>,
     tool_EstimateCost = (\<lambda>_. 6), tool_Validate = (\<lambda>_. None),
     tool_Execute = (\<lambda>u ps w. (Inr \<lparr>rs_Output = ''ok'', rs_Metadata = [], rs_Success = True\<rparr>, Suc w))\<rparr>"

definition demo_rbac :: RBAC where
  "demo_rbac = NewRBAC \<lparr>cfg_Roles = [
      (''ops'', \<lparr>role_Name = ''ops'', role_Permissions = [''shell''], role_MaxRiskLevel = ''high'', role_RequireApproval = []\<rparr>),
      (''dev'', \<lparr>role_Name = ''dev'', role_Permissions = [''shell''], role_MaxRiskLevel = ''low'', role_RequireApproval = []\<rparr>)],
    cfg_UserRoles = [(''olga'', ''ops''), (''dave'', ''dev'')], cfg_DefaultRole = ''''\<rparr>"

definition demo_orc :: "nat Orchestrator" where
  "demo_orc = \<lparr>o_security = Some \<lparr>sm_rbac = demo_rbac, sm_audit = \<lparr>audit_events = [], audit_writable = True\<rparr>,
       sm_budget = NewBudgetManager 10\<rparr>,
     o_toolRegistry = Some [(''shell'', demo_tool)], o_approvalMgr = Some (NewManager 100), o_policyEnforcer = None,
     o_autoApprover = None, o_toolCache = Some (NewToolCache 0), o_readOnlyTools = [''shell''], o_autonomousMode = False,
     o_convStore = None, o_world = 0\<rparr>"

definition demo_env :: "time \<Rightarrow> env" where
  "demo_env t = \<lparr>env_now = t, env_end = t, env_idr = Some ''id'', env_codec = demo_codec, env_text = (\<lambda>_. ''error''), env_parse = (\<lambda>_. None)\<rparr>"

definition demo_call :: "string \<Rightarrow> string \<Rightarrow> ToolRequest" where
  "demo_call u n = \<lparr>tr_UserID = u, tr_ToolName = n, tr_Parameters = [], tr_CorrelationID = [], tr_ConversationID = [], tr_ToolUseID = []\<rparr>"

lemmas demo_eval = demo_tool_def demo_rbac_def demo_orc_def demo_env_def demo_call_def demo_codec_def
  ExecuteTool_def checked_execution_def runSecurityChecks_def executeWithAudit_def request_approval_def ask_auto_approver_def
  cache_lookup_def policy_check_def logAuditEvent_def log_event_def mk_event_def cacheToolResult_def Cache_Get_def Cache_Set_def cacheKey_def
  NewToolCache_def DefaultToolCacheTTL_def Registry_Get_def CheckPermission_def RequireApproval_def resolveRole_def roleHasPermission_def
  NewRBAC_def ParseRiskLevel_def less_RiskLevel_def less_eq_RiskLevel_def AuditLogger_LogAction_def NewBudgetManager_def mem_defs Let_def
  Create_def NewManager_def approval_request_def new_approval_def

lemma demo_exec:
  "ExecuteTool (demo_env 0) demo_orc (demo_call ''olga'' ''shell'') =
     (Inr \<lparr>tp_Output = ''ok'', tp_Success = True, tp_CostUSD = 6, tp_Metadata = []\<rparr>,
      snd (ExecuteTool (demo_env 0) demo_orc (demo_call ''olga'' ''shell'')))"
  "o_world (snd (ExecuteTool (demo_env 0) demo_orc (demo_call ''olga'' ''shell''))) = 1"
  by (simp_all add: demo_eval)

theorem execution_authorized_witness:
  "o_world (snd (ExecuteTool (demo_env 0) demo_orc (demo_call ''olga'' ''shell''))) = 1 \<and>
   CheckPermission demo_rbac ''olga'' \<lparr>act_Name = ''shell'', act_RiskLevel = RiskMedium\<rparr> = None"
proof -
  have sm: "o_security demo_orc = Some \<lparr>sm_rbac = demo_rbac, sm_audit = \<lparr>audit_events = [], audit_writable = True\<rparr>,
       sm_budget = NewBudgetManager 10\<rparr>" by (simp add: demo_orc_def)
  have "o_world (snd (ExecuteTool (demo_env 0) demo_orc (demo_call ''olga'' ''shell''))) \<noteq> o_world demo_orc"
    by (simp add: demo_exec(2)) (simp add: demo_orc_def)
  from execution_authorized[OF sm demo_exec(1) this] demo_exec(2) show ?thesis
    by (auto simp: demo_orc_def demo_call_def Registry_Get_def demo_tool_def)
qed


theorem cache_hit_bypasses_checks_witness:
  "CheckPermission demo_rbac ''eve'' \<lparr>act_Name = ''shell'', act_RiskLevel = RiskMedium\<rparr> \<noteq> None \<and>
   ExecuteTool (demo_env 1) (snd (ExecuteTool (demo_env 0) demo_orc (demo_call ''olga'' ''shell''))) (demo_call ''eve'' ''shell'') =
     (Inr \<lparr>tp_Output = ''ok'', tp_Success = True, tp_CostUSD = 6, tp_Metadata = []\<rparr>,
      snd (ExecuteTool (demo_env 0) demo_orc (demo_call ''olga'' ''shell'')))"
proof -
  let ?orc = "snd (ExecuteTool (demo_env 0) demo_orc (demo_call ''olga'' ''shell''))"
  have "o_toolRegistry ?orc = Some [(''shell'', demo_tool)]"
    "Registry_Get [(''shell'', demo_tool)] (tr_ToolName (demo_call ''olga'' ''shell'')) = Some demo_tool"
    "tool_Validate demo_tool (tr_Parameters (demo_call ''olga'' ''shell'')) = None"
    "cache_lookup (demo_env 1) ?orc (demo_call ''olga'' ''shell'') = Some \<lparr>tp_Output = ''ok'', tp_Success = True, tp_CostUSD = 6, tp_Metadata = []\<rparr>"
    by (simp_all add: demo_eval)
  from cache_hit_bypasses_checks[OF this, of "''eve''"] show ?thesis
    by (simp add: demo_call_def) (simp add: demo_rbac_def NewRBAC_def CheckPermission_def resolveRole_def)
qed

definition demo_approved :: PendingApproval where
  "demo_approved = \<lparr>pa_ID = ''id'', pa_UserID = ''dave'', pa_ToolName = ''shell'', pa_Parameters = [], pa_ActionName = ''shell'',
     pa_RiskLevel = ''medium'', pa_EstimatedCost = 6, pa_CorrelationID = [], pa_ConversationID = [], pa_ToolUseID = [],
     pa_Status = StatusApproved, pa_ApprovedBy = ''boss'', pa_CreatedAt = 0, pa_ExpiresAt = 100, pa_ResolvedAt = Some 5\<rparr>"

definition demo_ready :: "nat Orchestrator" where
  "demo_ready = foldl agent_step demo_orc [AgExec (demo_env 0) (demo_call ''dave'' ''shell''), AgDecide 5 ''id'' ''boss'' True]"

lemma demo_ready_eq:
  "demo_ready = log_event (mk_event 0 (demo_call ''dave'' ''shell'') ''shell'' ''approval_pending'' 6 [] [])
     (demo_orc\<lparr>o_approvalMgr := Some \<lparr>mgr_pending = [''id'' \<mapsto> demo_approved], mgr_ttl = 100\<rparr>\<rparr>)"
  by (simp add: demo_ready_def demo_eval Approve_def resolve_def demo_approved_def)

lemma demo_ready_mgr: "o_approvalMgr demo_ready = Some \<lparr>mgr_pending = [''id'' \<mapsto> demo_approved], mgr_ttl = 100\<rparr>"
  by (simp add: demo_ready_eq)

lemma demo_resume_world: "o_world (snd (ResumeWithApproval (demo_env 6) demo_ready ''id'')) = Suc (o_world demo_ready)"
proof -
  have "ResumeWithApproval (demo_env 6) demo_ready ''id'' = resume_approved (demo_env 6) (noted (demo_env 6) demo_ready demo_approved) demo_approved"
    by (rule ResumeWithApproval_approved[OF demo_ready_mgr]) (simp_all add: demo_approved_def)
  then show ?thesis
    by (simp add: resume_approved_def noted_def demo_ready_eq demo_approved_def resumed_request_def demo_eval updateApprovalToolResult_def)
qed

theorem resume_requires_approval_witness:
  "\<exists>am pa. o_approvalMgr demo_ready = Some am \<and> mgr_pending am ''id'' = Some pa \<and> pa_Status pa = StatusApproved"
proof -
  obtain sm where "o_security demo_ready = Some sm" by (simp add: demo_ready_eq log_event_def demo_orc_def)
  from resume_requires_approval[OF this prod.collapse[symmetric, of "ResumeWithApproval (demo_env 6) demo_ready ''id''"]]
  show ?thesis by (auto simp: demo_resume_world)
qed


theorem approval_is_reusable_witness:
  "o_approvalMgr (snd (ResumeWithApproval (demo_env 1000) demo_ready ''id'')) = o_approvalMgr demo_ready"
  using approval_is_reusable[OF demo_ready_mgr, of "''id''" demo_approved "demo_env 1000"]
  by (simp add: demo_approved_def demo_ready_mgr)

lemma demo_overspend:
  "map_option (\<lambda>bm. map_option ub_spent (bm_users bm ''olga''))
     (budget_of (foldl agent_step (demo_orc\<lparr>o_toolCache := None\<rparr>)
        [AgExec (demo_env 0) (demo_call ''olga'' ''shell''), AgExec (demo_env 1) (demo_call ''olga'' ''shell'')])) = Some (Some 12)"
  by (simp add: demo_eval budget_of_def)


theorem execution_does_not_reduce_remaining_witness:
  "\<exists>bm. budget_of (snd (executeWithAudit (demo_env 0) demo_orc (demo_call ''olga'' ''shell'') demo_tool
       (tool_RequiredAction demo_tool) 6 [])) = Some bm \<and> fst (Remaining bm ''olga'') = 10"
proof -
  have sm: "o_security demo_orc = Some \<lparr>sm_rbac = demo_rbac, sm_audit = \<lparr>audit_events = [], audit_writable = True\<rparr>,
       sm_budget = NewBudgetManager 10\<rparr>" by (simp add: demo_orc_def)
  have r: "fst (Remaining (NewBudgetManager 10) ''olga'') = 10"
    by (simp add: Remaining_def mem_defs NewBudgetManager_def Let_def)
  have "ub_reserved (fst (getOrCreate (NewBudgetManager 10) ''olga'')) = 0"
    by (simp add: mem_defs NewBudgetManager_def Let_def)
  with execution_does_not_reduce_remaining[OF sm prod.collapse[symmetric], where c = 6 and req = "demo_call ''olga'' ''shell''"
      and env = "demo_env 0" and tool = demo_tool and action = "tool_RequiredAction demo_tool" and approvedBy = "[]"] r
  show ?thesis by (auto simp: demo_call_def)
qed

end
