(* ===== verification/Prompt.thy ===== *)
theory Prompt
  imports Tools
begin

text \<open>
  What the agent derives from the user's message before it calls the model: incident and tool
  intent detection, the planning heuristic (\<^verbatim>\<open>planner.go\<close>), runbook matching
  (\<^verbatim>\<open>runbook_match.go\<close>) and the system prompt (\<^verbatim>\<open>orchestrator.go\<close>). Text is ASCII here: letters
  and digits are those of ASCII. \<^verbatim>\<open>sort.Slice\<close> is not stable, so the order it gives entries of
  equal score is a parameter: the function \<open>rank\<close>, some sorted permutation of its argument.
\<close>

abbreviation newline :: string where "newline \<equiv> [CHR 0x0A]"

fun contains_any :: "string \<Rightarrow> string list \<Rightarrow> bool" where
  "contains_any lower [] = False"
| "contains_any lower (kw # kws) = (if Contains lower kw then True else contains_any lower kws)"

lemma contains_any_iff: "contains_any s kws \<longleftrightarrow> (\<exists>kw \<in> set kws. Contains s kw)"
  by (induction kws) auto

definition detectIncidentContext :: "string \<Rightarrow> bool" where
  "detectIncidentContext message =
     (if message = '''' then False
      else contains_any (ToLower message)
        [''incident'', ''outage'', ''down'', ''p1'', ''p2'', ''on-call'',
         ''pagerduty'', ''opsgenie'', ''sev1'', ''sev2'', ''production issue'',
         ''service degraded'', ''alert firing''])"

text \<open>The map of active categories is the list of the keys set to true.\<close>

definition detectToolIntent :: "string \<Rightarrow> string list" where
  "detectToolIntent message =
     (if message = '''' then []
      else let lower = ToLower message;
               investigation = contains_any lower
                 [''log'', ''logs'', ''check'', ''review'', ''show'', ''list'', ''query'',
                  ''search'', ''fetch'', ''read'', ''look'', ''browse'', ''database'', ''sql'',
                  ''status'', ''history'', ''diff'', ''branch'', ''commit'', ''code'', ''analyze''];
               infra = contains_any lower
                 [''server'', ''vm'', ''node'', ''host'', ''kubernetes'', ''k8s'', ''docker'',
                  ''cluster'', ''pod'', ''deployment'', ''infra'', ''infrastructure'',
                  ''instance'', ''machine'', ''bare metal'', ''ssh''];
               git = contains_any lower
                 [''push'', ''commit'', ''merge'', ''rebase'', ''tag'', ''cherry-pick'',
                  ''git write'', ''git push'', ''git add''];
               incident = detectIncidentContext message
           in (if investigation \<or> incident then [''investigation''] else []) @
              (if infra \<or> incident then [''infra''] else []) @
              (if git then [''git_write''] else []))"

definition count_char :: "char \<Rightarrow> string \<Rightarrow> nat" where
  "count_char c s = length (filter (\<lambda>x. x = c) s)"

definition shouldPlan :: "string \<Rightarrow> bool" where
  "shouldPlan message =
     (if length message > 200 then True
      else if count_char (CHR ''?'') message > 1 then True
      else if count_char (CHR ''.'') message > 2 then True
      else contains_any (ToLower message)
        [''investigate'', ''troubleshoot'', ''diagnose'', ''analyze'',
         ''debug'', ''fix'', ''resolve'', ''deploy'', ''migrate'',
         ''set up'', ''configure'', ''implement'', ''create'',
         ''incident'', ''outage'', ''rollback''])"

section \<open>Runbooks\<close>

record Runbook =
  rb_Name :: string
  rb_Category :: string
  rb_Description :: string

definition is_word_char :: "char \<Rightarrow> bool" where
  "is_word_char c \<longleftrightarrow> (let n = (of_char c :: nat) in 48 \<le> n \<and> n \<le> 57 \<or> 65 \<le> n \<and> n \<le> 90 \<or> 97 \<le> n \<and> n \<le> 122)"

fun FieldsFunc :: "(char \<Rightarrow> bool) \<Rightarrow> string \<Rightarrow> string \<Rightarrow> string list" where
  "FieldsFunc is_sep word [] = (if word = [] then [] else [word])"
| "FieldsFunc is_sep word (c # s) =
     (if is_sep c then (if word = [] then [] else [word]) @ FieldsFunc is_sep [] s
      else FieldsFunc is_sep (word @ [c]) s)"

definition agentStopWords :: "string list" where
  "agentStopWords =
     [''the'', ''and'', ''for'', ''are'', ''but'', ''not'', ''you'', ''all'', ''can'', ''has'', ''was'', ''one'',
      ''our'', ''out'', ''with'', ''that'', ''this'', ''from'', ''have'', ''been'', ''will'', ''they'', ''when'',
      ''what'', ''your'', ''which'', ''their'', ''about'', ''would'', ''there'', ''should'', ''each'', ''make'']"

definition tokenizeQuery :: "string \<Rightarrow> string list" where
  "tokenizeQuery t =
     filter (\<lambda>w. length w > 2 \<and> w \<notin> set agentStopWords) (FieldsFunc (\<lambda>c. \<not> is_word_char c) [] (ToLower t))"

definition runbook_score :: "string \<Rightarrow> string list \<Rightarrow> Runbook \<Rightarrow> rat option" where
  "runbook_score query queryTokens rb =
     (let docTokens = tokenizeQuery (rb_Name rb @ '' '' @ rb_Category rb @ '' '' @ rb_Description rb)
      in if length docTokens = 0 then None
         else let hits = length (filter (\<lambda>qt. qt \<in> set docTokens) queryTokens)
              in if hits = 0 then None
                 else let score = of_nat hits / of_nat (length queryTokens)
                      in Some (if Contains (ToLower query) (ToLower (rb_Name rb)) then score * 2 else score))"

fun score_runbooks :: "string \<Rightarrow> string list \<Rightarrow> rat \<Rightarrow> Runbook list \<Rightarrow> (Runbook \<times> rat) list" where
  "score_runbooks query queryTokens threshold [] = []"
| "score_runbooks query queryTokens threshold (rb # rbs) =
     (case runbook_score query queryTokens rb of
        None \<Rightarrow> score_runbooks query queryTokens threshold rbs
      | Some score \<Rightarrow>
          if score > threshold then (rb, score) # score_runbooks query queryTokens threshold rbs
          else score_runbooks query queryTokens threshold rbs)"

definition matchRunbooksWithThreshold ::
  "((Runbook \<times> rat) list \<Rightarrow> (Runbook \<times> rat) list) \<Rightarrow> string \<Rightarrow> Runbook list \<Rightarrow> int \<Rightarrow> rat \<Rightarrow> Runbook list" where
  "matchRunbooksWithThreshold rank query runbooks topN threshold =
     (if length runbooks = 0 \<or> topN \<le> 0 then []
      else let queryTokens = tokenizeQuery query
           in if length queryTokens = 0 then []
              else map fst (take (nat topN) (rank (score_runbooks query queryTokens threshold runbooks))))"

text \<open>What \<^verbatim>\<open>sort.Slice\<close> with the score comparison promises.\<close>

definition ranks_by_score :: "((Runbook \<times> rat) list \<Rightarrow> (Runbook \<times> rat) list) \<Rightarrow> bool" where
  "ranks_by_score rank \<longleftrightarrow> (\<forall>xs. mset (rank xs) = mset xs \<and> sorted_wrt (\<lambda>a b. snd b \<le> snd a) (rank xs))"

section \<open>The system prompt\<close>

definition incidentReportPrompt :: string where
  "incidentReportPrompt =
     newline @ newline @ ''## Incident Report Format'' @ newline @
     ''When investigating an incident, conclude with a structured report:'' @ newline @
     ''**Severity**: P1/P2/P3/P4'' @ newline @
     ''**Status**: Investigating/Identified/Monitoring/Resolved'' @ newline @
     ''**Timeline**: Key events with timestamps'' @ newline @
     ''**Impact**: What'' @ [CHR 0x27] @ ''s affected and scope'' @ newline @
     ''**Root Cause**: Identified or suspected cause'' @ newline @
     ''**Remediation**: Actions taken or recommended'' @ newline @
     ''**Action Items**: Follow-up tasks''"

definition planningInstruction :: string where
  "planningInstruction =
     newline @ ''## Planning Mode'' @ newline @
     ''Before taking any actions, create a brief execution plan wrapped in <plan> tags.'' @ newline @
     ''List 3-7 concrete steps you will take to accomplish this task.'' @ newline @
     ''After creating the plan, proceed to execute each step.'' @ newline @ newline @
     ''Example:'' @ newline @ ''<plan>'' @ newline @
     ''1. Check service health status'' @ newline @ ''2. Review recent logs for errors'' @ newline @
     ''3. Identify root cause'' @ newline @ ''4. Recommend remediation'' @ newline @ ''</plan>'' @ newline @ newline @
     ''After each major step, briefly note which step you completed.''"

record PromptConfig =
  pc_systemPrompt :: string
  pc_skillSummary :: string
  pc_skillSummaryMode :: string
  pc_skillSummaryCompact :: string
  pc_soulContext :: string
  pc_runbooks :: "Runbook list"
  pc_runbookMaxN :: int
  pc_runbookThreshold :: rat
  pc_planningEnabled :: bool

definition skill_section :: "PromptConfig \<Rightarrow> string" where
  "skill_section pc =
     (let mode = (if pc_skillSummaryMode pc = '''' then ''full'' else pc_skillSummaryMode pc);
          heading = newline @ newline @ ''## Available Skills'' @ newline
      in if mode = ''none'' then ''''
         else if mode = ''compact''
         then (if pc_skillSummaryCompact pc \<noteq> '''' then heading @ pc_skillSummaryCompact pc else '''')
         else (if pc_skillSummary pc \<noteq> '''' then heading @ pc_skillSummary pc else ''''))"

definition runbook_section ::
  "((Runbook \<times> rat) list \<Rightarrow> (Runbook \<times> rat) list) \<Rightarrow> PromptConfig \<Rightarrow> string \<Rightarrow> string" where
  "runbook_section rank pc userMessage =
     (if length (pc_runbooks pc) > 0 \<and> userMessage \<noteq> ''''
      then let maxN = (if pc_runbookMaxN pc \<le> 0 then 2 else pc_runbookMaxN pc);
               threshold = (if pc_runbookThreshold pc \<le> 0 then 5 / 100 else pc_runbookThreshold pc)
           in concat (map (\<lambda>rb. newline @ newline @ ''## Active Runbook: '' @ rb_Name rb @ newline @ rb_Description rb)
                (matchRunbooksWithThreshold rank userMessage (pc_runbooks pc) maxN threshold))
      else '''')"

definition buildSystemPrompt ::
  "((Runbook \<times> rat) list \<Rightarrow> (Runbook \<times> rat) list) \<Rightarrow> PromptConfig \<Rightarrow> string \<Rightarrow> string" where
  "buildSystemPrompt rank pc userMessage =
     pc_systemPrompt pc @ skill_section pc @ pc_soulContext pc @ runbook_section rank pc userMessage @
     (if detectIncidentContext userMessage then incidentReportPrompt else '''') @
     (if pc_planningEnabled pc \<and> shouldPlan userMessage then planningInstruction else '''')"

section \<open>Properties of the matching\<close>

lemma score_runbooks_eq:
  "score_runbooks q qt th rbs = map (\<lambda>rb. (rb, the (runbook_score q qt rb)))
     (filter (\<lambda>rb. case runbook_score q qt rb of None \<Rightarrow> False | Some s \<Rightarrow> th < s) rbs)"
  by (induction rbs) (auto split: option.splits)

lemma sorted_wrt_take_drop:
  "sorted_wrt R xs \<Longrightarrow> a \<in> set (take n xs) \<Longrightarrow> b \<in> set (drop n xs) \<Longrightarrow> R a b"
  by (metis append_take_drop_id sorted_wrt_append)

text \<open>
  Runbook matching returns the best: at most \<^verbatim>\<open>topN\<close> runbooks, each of the collection and above
  the threshold, and when a runbook above the threshold is left out, all returned ones score
  at least as high.
\<close>

theorem matchRunbooks_best:
  assumes "ranks_by_score rank" and "0 < topN" and "tokenizeQuery q \<noteq> []"
  shows "length (matchRunbooksWithThreshold rank q rbs topN th) \<le> nat topN \<and>
    (\<forall>rb \<in> set (matchRunbooksWithThreshold rank q rbs topN th).
       rb \<in> set rbs \<and> (\<exists>s. runbook_score q (tokenizeQuery q) rb = Some s \<and> th < s)) \<and>
    (\<forall>rb \<in> set rbs. \<forall>s. runbook_score q (tokenizeQuery q) rb = Some s \<longrightarrow> th < s \<longrightarrow>
       rb \<notin> set (matchRunbooksWithThreshold rank q rbs topN th) \<longrightarrow>
       (\<forall>m \<in> set (matchRunbooksWithThreshold rank q rbs topN th). \<exists>s'. runbook_score q (tokenizeQuery q) m = Some s' \<and> s \<le> s'))"
proof -
  define sc where "sc = score_runbooks q (tokenizeQuery q) th rbs"
  have perm: "set (rank sc) = set sc" and sorted: "sorted_wrt (\<lambda>a b. snd b \<le> snd a) (rank sc)"
    using assms(1) by (auto simp: ranks_by_score_def dest: mset_eq_setD)
  have m: "matchRunbooksWithThreshold rank q rbs topN th = map fst (take (nat topN) (rank sc))"
  proof (cases rbs)
    case Nil
    then have "rank sc = []" using perm by (simp add: sc_def)
    with Nil show ?thesis by (simp add: matchRunbooksWithThreshold_def)
  next
    case (Cons a as)
    with assms(2,3) show ?thesis by (simp add: matchRunbooksWithThreshold_def sc_def Let_def)
  qed
  have sc: "(rb, s) \<in> set sc \<longleftrightarrow> rb \<in> set rbs \<and> runbook_score q (tokenizeQuery q) rb = Some s \<and> th < s" for rb s
    by (auto simp: sc_def score_runbooks_eq split: option.splits)
  have taken: "rb \<in> set rbs \<and> (\<exists>s. runbook_score q (tokenizeQuery q) rb = Some s \<and> th < s)" if "(rb, s) \<in> set (take (nat topN) (rank sc))" for rb s
    using in_set_takeD[OF that] sc perm by auto
  have best: "\<exists>s'. runbook_score q (tokenizeQuery q) m' = Some s' \<and> s \<le> s'"
    if r: "rb \<in> set rbs" "runbook_score q (tokenizeQuery q) rb = Some s" "th < s"
      and out: "rb \<notin> fst ` set (take (nat topN) (rank sc))" and mem: "(m', s') \<in> set (take (nat topN) (rank sc))" for rb s m' s'
  proof -
    have "(rb, s) \<in> set (rank sc)" using r sc perm by blast
    moreover have "(rb, s) \<notin> set (take (nat topN) (rank sc))" using out by force
    ultimately have "(rb, s) \<in> set (drop (nat topN) (rank sc))"
      by (metis UnE append_take_drop_id set_append)
    from sorted_wrt_take_drop[OF sorted mem this] have "s \<le> s'" by simp
    moreover have "runbook_score q (tokenizeQuery q) m' = Some s'" using in_set_takeD[OF mem] sc perm by auto
    ultimately show ?thesis by blast
  qed
  show ?thesis
  proof (intro conjI)
    show "length (matchRunbooksWithThreshold rank q rbs topN th) \<le> nat topN" by (simp add: m)
  qed (use taken best in \<open>auto simp: m\<close>)
qed

definition demo_runbook :: Runbook where
  "demo_runbook = \<lparr>rb_Name = ''disk'', rb_Category = ''ops'', rb_Description = ''full disk''\<rparr>"

lemma sort_key_ranks: "ranks_by_score (sort_key (\<lambda>p. - snd p))"
proof -
  have "sorted_wrt (\<lambda>a b. snd b \<le> snd a) (sort_key (\<lambda>p. - snd p) xs)" for xs :: "(Runbook \<times> rat) list"
    using sorted_sort_key[of "\<lambda>p. - snd p" xs] by (simp add: sorted_map)
  then show ?thesis by (simp add: ranks_by_score_def)
qed

theorem matchRunbooks_best_witness:
  "length (matchRunbooksWithThreshold (sort_key (\<lambda>p. - snd p)) ''disk alert'' [demo_runbook] 1 (5 / 100)) \<le> 1"
proof -
  have "tokenizeQuery ''disk alert'' \<noteq> []"
    by (simp add: tokenizeQuery_def ToLower_def lower_char_def is_word_char_def agentStopWords_def)
  from matchRunbooks_best[OF sort_key_ranks _ this, of 1 "[demo_runbook]" "5 / 100"] show ?thesis by simp
qed

end
