(* ===== verification/AgentLoop.thy ===== *)
theory AgentLoop
  imports PipelineRuns Prompt
begin

text \<open>
  The agentic loop (\<^verbatim>\<open>Process\<close>, \<^verbatim>\<open>executeToolCalls\<close>, \<^verbatim>\<open>persistNewMessages\<close> of
  \<^verbatim>\<open>agent/orchestrator.go\<close>): load the conversation, append the user's message, trim, then call
  the model and execute the tools it asks for until it answers, an approval is pending or the
  iteration limit is reached; finally persist the new messages.

  The model is the function \<open>ag_send\<close> of the world. \<open>envs i j\<close> is the environment of the \<open>j\<close>-th tool call
  of iteration \<open>i\<close>. A slice expression whose start is beyond the end panics in Go; here it is the
  error \<open>SlicePanic\<close>.
\<close>

record Input =
  in_UserID :: string
  in_Message :: string
  in_CorrelationID :: string
  in_ConversationID :: string

record ToolCallResult =
  tcr_ToolName :: string
  tcr_Success :: bool

record Response =
  rp_Message :: string
  rp_TokensUsed :: int
  rp_ApprovalRequests :: "ApprovalRequest list"
  rp_ToolResults :: "ToolCallResult list"

datatype process_error = LLMRequestFailed string | SlicePanic

record 'w Agent =
  ag_send :: "'w \<Rightarrow> Request \<Rightarrow> (string + LLMResponse) \<times> 'w"
  ag_rank :: "(Runbook \<times> rat) list \<Rightarrow> (Runbook \<times> rat) list"
  ag_prompt :: PromptConfig
  ag_summarizeOnTruncate :: bool
  ag_lazyToolLoading :: bool
  ag_maxIterations :: int
  ag_maxHistoryMessages :: int
  ag_maxMessageBytes :: int

definition DefaultMaxIterations :: nat where "DefaultMaxIterations = 25"

section \<open>Tool calls\<close>

definition tool_request :: "Input \<Rightarrow> ContentBlock \<Rightarrow> ToolRequest" where
  "tool_request inp block =
     \<lparr>tr_UserID = in_UserID inp, tr_ToolName = cb_Name block, tr_Parameters = cb_Input block,
      tr_CorrelationID = in_CorrelationID inp, tr_ConversationID = in_ConversationID inp, tr_ToolUseID = cb_ID block\<rparr>"

fun executeToolCalls ::
  "(nat \<Rightarrow> env) \<Rightarrow> Input \<Rightarrow> 'w Orchestrator \<Rightarrow> ContentBlock list \<Rightarrow>
     ContentBlock list \<times> ToolCallResult list \<times> ApprovalRequest list \<times> 'w Orchestrator" where
  "executeToolCalls envs inp orc [] = ([], [], [], orc)"
| "executeToolCalls envs inp orc (block # blocks) =
     (let (res, orc1) = ExecuteTool (envs 0) orc (tool_request inp block);
          (bs, rs, as, orc2) = executeToolCalls (\<lambda>j. envs (Suc j)) inp orc1 blocks
      in case res of
           Inl (ErrApprovalPending a) \<Rightarrow>
             (ToolResultBlock (cb_ID block)
                (''Tool execution requires approval (id: '' @ ar_ApprovalID a @ ''). Waiting for human approval.'') True # bs,
              \<lparr>tcr_ToolName = cb_Name block, tcr_Success = False\<rparr> # rs, a # as, orc2)
         | Inl e \<Rightarrow>
             (ToolResultBlock (cb_ID block) (''Error: '' @ env_text (envs 0) e) True # bs,
              \<lparr>tcr_ToolName = cb_Name block, tcr_Success = False\<rparr> # rs, as, orc2)
         | Inr resp \<Rightarrow>
             (ToolResultBlock (cb_ID block) (TruncateOutput (tp_Output resp) MaxOutputBytes) False # bs,
              \<lparr>tcr_ToolName = cb_Name block, tcr_Success = tp_Success resp\<rparr> # rs, as, orc2))"

section \<open>The loop\<close>

record Loop =
  lp_history :: "Message list"
  lp_toolDefs :: "ToolDefinition list"
  lp_lazy :: bool
  lp_tokens :: int
  lp_results :: "ToolCallResult list"
  lp_approvals :: "ApprovalRequest list"

text \<open>The lazily loaded definitions are expanded when the model uses a registered tool it was not sent.\<close>

definition expand_needed :: "'w Registry \<Rightarrow> ToolDefinition list \<Rightarrow> ContentBlock list \<Rightarrow> bool" where
  "expand_needed reg toolDefs blocks \<longleftrightarrow>
     (\<exists>block \<in> set blocks. Registry_Get reg (cb_Name block) \<noteq> None \<and> cb_Name block \<notin> set (map td_Name toolDefs))"

definition expand_tools :: "'w Orchestrator \<Rightarrow> ContentBlock list \<Rightarrow> Loop \<Rightarrow> Loop" where
  "expand_tools orc blocks lp =
     (case o_toolRegistry orc of
        None \<Rightarrow> lp
      | Some reg \<Rightarrow>
          if lp_lazy lp \<and> expand_needed reg (lp_toolDefs lp) blocks
          then lp\<lparr>lp_toolDefs := ToLLMDefinitions reg, lp_lazy := False\<rparr> else lp)"

definition finish :: "string \<Rightarrow> Loop \<Rightarrow> Response" where
  "finish msg lp = \<lparr>rp_Message = msg, rp_TokensUsed = lp_tokens lp, rp_ApprovalRequests = lp_approvals lp,
     rp_ToolResults = lp_results lp\<rparr>"

definition assistant_message :: "LLMResponse \<Rightarrow> Message" where
  "assistant_message r = \<lparr>m_Role = RoleAssistant, m_Content = '''', m_ContentBlocks = lr_ContentBlocks r\<rparr>"

definition results_message :: "ContentBlock list \<Rightarrow> Message" where
  "results_message bs = \<lparr>m_Role = RoleUser, m_Content = '''', m_ContentBlocks = bs\<rparr>"

text \<open>
  \<open>k\<close> iterations are left. The result comes with the history to persist: every exit of the loop
  persists \<^verbatim>\<open>history[historyStart:]\<close>.
\<close>

fun process_loop ::
  "(nat \<Rightarrow> nat \<Rightarrow> env) \<Rightarrow> 'w Agent \<Rightarrow> Input \<Rightarrow> string \<Rightarrow> nat \<Rightarrow> 'w Orchestrator \<Rightarrow> Loop \<Rightarrow>
     (process_error + Response) \<times> Message list \<times> 'w Orchestrator" where
  "process_loop envs ag inp prompt 0 orc lp =
     (Inr (finish ''Maximum tool use iterations reached. Please refine your request.'' lp), lp_history lp, orc)"
| "process_loop envs ag inp prompt (Suc k) orc lp =
     (case ag_send ag (o_world orc) \<lparr>rq_SystemPrompt = prompt, rq_Messages = lp_history lp, rq_MaxTokens = 0,
             rq_Tools = lp_toolDefs lp\<rparr> of
        (Inl e, w) \<Rightarrow> (Inl (LLMRequestFailed e), lp_history lp, orc\<lparr>o_world := w\<rparr>)
      | (Inr resp, w) \<Rightarrow>
          let orc1 = orc\<lparr>o_world := w\<rparr>;
              lp1 = lp\<lparr>lp_tokens := lp_tokens lp + lr_InputTokens resp + lr_OutputTokens resp,
                       lp_history := lp_history lp @ [assistant_message resp]\<rparr>
          in if \<not> HasToolUse resp then (Inr (finish (lr_Content resp) lp1), lp_history lp1, orc1)
             else let lp2 = expand_tools orc1 (ToolUseBlocks resp) lp1;
                      (blocks, results, approvals, orc2) = executeToolCalls (envs 0) inp orc1 (ToolUseBlocks resp);
                      lp3 = lp2\<lparr>lp_results := lp_results lp2 @ results, lp_approvals := lp_approvals lp2 @ approvals,
                                lp_history := lp_history lp2 @ [results_message blocks]\<rparr>
                  in if length approvals > 0 then (Inr (finish (lr_Content resp) lp3), lp_history lp3, orc2)
                     else process_loop (\<lambda>i. envs (Suc i)) ag inp prompt k orc2 lp3)"

section \<open>The whole call\<close>

definition load_conversation ::
  "'w Agent \<Rightarrow> (string \<Rightarrow> uuid option) \<Rightarrow> uuid \<Rightarrow> 'w Orchestrator \<Rightarrow> Input \<Rightarrow> bool \<times> uuid \<times> Message list \<times> 'w Orchestrator" where
  "load_conversation ag parse newID orc inp =
     (case o_convStore orc of
        None \<Rightarrow> (False, 0, [], orc)
      | Some cs \<Rightarrow>
          if in_ConversationID inp = '''' then (False, 0, [], orc)
          else let wanted = (case parse (in_ConversationID inp) of Some u \<Rightarrow> u | None \<Rightarrow> newID)
               in case GetOrCreateConversation cs (in_UserID inp) wanted of
                    (Inl e, cs') \<Rightarrow> (False, 0, [], orc\<lparr>o_convStore := Some cs'\<rparr>)
                  | (Inr convID, cs') \<Rightarrow>
                      (True, convID, LoadHistory cs' convID (int (effective_max (ag_maxHistoryMessages ag))),
                       orc\<lparr>o_convStore := Some cs'\<rparr>))"

definition trim_history ::
  "'w Agent \<Rightarrow> 'w \<Rightarrow> Message list \<Rightarrow> int \<Rightarrow> Message list \<times> int \<times> 'w" where
  "trim_history ag w history historyStart =
     (let preTruncLen = int (length history);
          (h1, w1) = (if ag_summarizeOnTruncate ag
                      then summarizeHistory (ag_send ag) w history (effective_max (ag_maxHistoryMessages ag)) else (history, w));
          h2 = truncateHistory (ag_maxHistoryMessages ag) h1;
          dropped = preTruncLen - int (length h2);
          start = (if dropped > 0 then (if historyStart - dropped < 0 then 0 else historyStart - dropped) else historyStart)
      in (h2, start, w1))"

definition slice_from :: "int \<Rightarrow> 'a list \<Rightarrow> 'a list option" where
  "slice_from i xs = (if 0 \<le> i \<and> i \<le> int (length xs) then Some (drop (nat i) xs) else None)"

definition persistNewMessages :: "'w Orchestrator \<Rightarrow> bool \<Rightarrow> uuid \<Rightarrow> Message list \<Rightarrow> 'w Orchestrator" where
  "persistNewMessages orc persistent convID msgs =
     (if \<not> persistent \<or> length msgs = 0 then orc
      else orc\<lparr>o_convStore := map_option (\<lambda>cs. AppendMessages cs convID msgs) (o_convStore orc)\<rparr>)"

definition initial_tools :: "'w Agent \<Rightarrow> 'w Orchestrator \<Rightarrow> string \<Rightarrow> ToolDefinition list \<times> bool" where
  "initial_tools ag orc message =
     (case o_toolRegistry orc of
        None \<Rightarrow> ([], False)
      | Some reg \<Rightarrow> if ag_lazyToolLoading ag then (ToLLMDefinitionsForIntent reg (detectToolIntent message), True)
                    else (ToLLMDefinitions reg, False))"

definition user_message :: "'w Agent \<Rightarrow> Input \<Rightarrow> Message" where
  "user_message ag inp = \<lparr>m_Role = RoleUser, m_Content = truncateContent (ag_maxMessageBytes ag) (in_Message inp), m_ContentBlocks = []\<rparr>"

definition Process ::
  "(nat \<Rightarrow> nat \<Rightarrow> env) \<Rightarrow> (string \<Rightarrow> uuid option) \<Rightarrow> uuid \<Rightarrow> 'w Agent \<Rightarrow> 'w Orchestrator \<Rightarrow> Input \<Rightarrow>
     (process_error + Response) \<times> 'w Orchestrator" where
  "Process envs parse newID ag orc inp =
     (let (persistent, convID, loaded, orc1) = load_conversation ag parse newID orc inp;
          (history, historyStart, w) = trim_history ag (o_world orc1) (loaded @ [user_message ag inp]) (int (length loaded));
          (toolDefs, lazy) = initial_tools ag orc1 (in_Message inp);
          prompt = buildSystemPrompt (ag_rank ag) (ag_prompt ag) (in_Message inp);
          maxIter = (if ag_maxIterations ag \<le> 0 then DefaultMaxIterations else nat (ag_maxIterations ag));
          (res, final, orc2) = process_loop envs ag inp prompt maxIter (orc1\<lparr>o_world := w\<rparr>)
             \<lparr>lp_history = history, lp_toolDefs = toolDefs, lp_lazy = lazy, lp_tokens = 0, lp_results = [], lp_approvals = []\<rparr>
      in case slice_from historyStart final of
           None \<Rightarrow> (Inl SlicePanic, orc2)
         | Some msgs \<Rightarrow> (res, persistNewMessages orc2 persistent convID msgs))"

section \<open>The pipeline and the conversation store\<close>

text \<open>
  Executing a tool neither reads nor writes the conversation store: replacing the store before
  or after gives the same.
\<close>

definition with_conv :: "InMemoryConversationStore option \<Rightarrow> 'w Orchestrator \<Rightarrow> 'w Orchestrator" where
  "with_conv x orc = orc\<lparr>o_convStore := x\<rparr>"

lemma with_conv_sel [simp]:
  "o_security (with_conv x orc) = o_security orc" "o_toolRegistry (with_conv x orc) = o_toolRegistry orc"
  "o_approvalMgr (with_conv x orc) = o_approvalMgr orc" "o_policyEnforcer (with_conv x orc) = o_policyEnforcer orc"
  "o_autoApprover (with_conv x orc) = o_autoApprover orc" "o_toolCache (with_conv x orc) = o_toolCache orc"
  "o_readOnlyTools (with_conv x orc) = o_readOnlyTools orc" "o_autonomousMode (with_conv x orc) = o_autonomousMode orc"
  "o_world (with_conv x orc) = o_world orc" "o_convStore (with_conv x orc) = x"
  by (simp_all add: with_conv_def)

lemma with_conv_upd [simp]:
  "(with_conv x orc)\<lparr>o_security := s\<rparr> = with_conv x (orc\<lparr>o_security := s\<rparr>)"
  "(with_conv x orc)\<lparr>o_approvalMgr := m\<rparr> = with_conv x (orc\<lparr>o_approvalMgr := m\<rparr>)"
  "(with_conv x orc)\<lparr>o_autoApprover := a\<rparr> = with_conv x (orc\<lparr>o_autoApprover := a\<rparr>)"
  "(with_conv x orc)\<lparr>o_toolCache := c\<rparr> = with_conv x (orc\<lparr>o_toolCache := c\<rparr>)"
  "(with_conv x orc)\<lparr>o_world := w\<rparr> = with_conv x (orc\<lparr>o_world := w\<rparr>)"
  "(with_conv x orc)\<lparr>o_convStore := y\<rparr> = with_conv y orc"
  by (simp_all add: with_conv_def)

lemma with_conv_same: "o_convStore orc = x \<Longrightarrow> with_conv x orc = orc"
  by (auto simp: with_conv_def)

lemma log_event_conv [simp]: "log_event ev (with_conv x orc) = with_conv x (log_event ev orc)"
  by (simp add: log_event_def split: option.split)

lemma logAuditEvent_conv [simp]:
  "logAuditEvent t req a r c ap e (with_conv x orc) = with_conv x (logAuditEvent t req a r c ap e orc)"
  by (simp add: logAuditEvent_def)

lemma ask_auto_approver_conv:
  "ask_auto_approver env (with_conv x orc) req = apsnd (with_conv x) (ask_auto_approver env orc req)"
  by (simp add: ask_auto_approver_def split_beta Let_def split: option.split)

lemma request_approval_conv:
  "request_approval env (with_conv x orc) req action cost e = apsnd (with_conv x) (request_approval env orc req action cost e)"
  by (simp add: request_approval_def split: option.split prod.split sum.split)

lemma runSecurityChecks_conv:
  "runSecurityChecks env (with_conv x orc) req action cost = apsnd (with_conv x) (runSecurityChecks env orc req action cost)"
  by (simp add: runSecurityChecks_def Let_def ask_auto_approver_conv request_approval_conv split_beta split: option.split)

lemma executeWithAudit_conv:
  "executeWithAudit env (with_conv x orc) req tool action cost ap = apsnd (with_conv x) (executeWithAudit env orc req tool action cost ap)"
  by (simp add: executeWithAudit_def Let_def split_beta split: option.split prod.split sum.split)

lemma executeTool_conv:
  "executeTool (with_conv x orc) u tool ps = apsnd (with_conv x) (executeTool orc u tool ps)"
  by (simp add: executeTool_def split: prod.split sum.split)

lemma cacheToolResult_conv:
  "cacheToolResult env (with_conv x orc) n ps resp = with_conv x (cacheToolResult env orc n ps resp)"
  by (simp add: cacheToolResult_def split: option.split)

lemma checked_execution_conv:
  "checked_execution env (with_conv x orc) req tool = apsnd (with_conv x) (checked_execution env orc req tool)"
proof -
  let ?a = "tool_RequiredAction tool" and ?c = "tool_EstimateCost tool (tr_Parameters req)"
  let ?run = "\<lambda>orc. case o_security orc of
      Some _ \<Rightarrow> (case runSecurityChecks env orc req ?a ?c of
           (Some e, orc1) \<Rightarrow> (Inl e, orc1)
         | (None, orc1) \<Rightarrow> executeWithAudit env orc1 req tool ?a ?c '''')
    | None \<Rightarrow> executeTool orc (tr_UserID req) tool (tr_Parameters req)"
  have "?run (with_conv x orc) = apsnd (with_conv x) (?run orc)"
    by (simp add: runSecurityChecks_conv executeWithAudit_conv executeTool_conv split_beta split: option.split)
  then show ?thesis
    by (simp add: checked_execution_def Let_def cacheToolResult_conv split: prod.split sum.split)
qed

lemma ExecuteTool_conv:
  "ExecuteTool env (with_conv x orc) req = apsnd (with_conv x) (ExecuteTool env orc req)"
  by (simp add: ExecuteTool_def cache_lookup_def policy_check_def checked_execution_conv split: option.split)

lemma executeToolCalls_conv:
  "executeToolCalls envs inp (with_conv x orc) blocks =
     (case executeToolCalls envs inp orc blocks of (bs, rs, as, orc') \<Rightarrow> (bs, rs, as, with_conv x orc'))"
  by (induction blocks arbitrary: envs orc)
    (simp_all add: ExecuteTool_conv split_beta Let_def split: sum.split exec_error.split)

lemma process_loop_conv:
  "process_loop envs ag inp prompt k (with_conv x orc) lp =
     (case process_loop envs ag inp prompt k orc lp of (r, h, orc') \<Rightarrow> (r, h, with_conv x orc'))"
  by (induction k arbitrary: envs orc lp)
    (simp_all add: executeToolCalls_conv expand_tools_def split_beta Let_def split: sum.split prod.split)

lemma ExecuteTool_keeps_conv: "o_convStore (snd (ExecuteTool env orc req)) = o_convStore orc"
  using ExecuteTool_conv[of env "o_convStore orc" orc req] by (simp add: with_conv_same apsnd_def map_prod_def split_beta)
    (metis snd_conv with_conv_sel(10))

lemma process_loop_keeps_conv:
  "process_loop envs ag inp prompt k orc lp = (r, h, orc') \<Longrightarrow> o_convStore orc' = o_convStore orc"
  using process_loop_conv[of envs ag inp prompt k "o_convStore orc" orc lp]
  by (simp add: with_conv_same) (metis with_conv_sel(10))

section \<open>What a call adds to the history\<close>

text \<open>
  The shape the model's protocol asks for: assistant turns, each but the last followed by a user
  turn that answers its tool uses one by one, in order.
\<close>

fun answers :: "Message \<Rightarrow> Message \<Rightarrow> bool" where
  "answers a u \<longleftrightarrow> m_Role a = RoleAssistant \<and> m_Role u = RoleUser \<and>
     (\<forall>b \<in> set (m_ContentBlocks u). cb_Type b = ''tool_result'') \<and>
     map cb_ToolUseID (m_ContentBlocks u) = map cb_ID (filter (\<lambda>b. cb_Type b = ''tool_use'') (m_ContentBlocks a))"

fun well_paired :: "Message list \<Rightarrow> bool" where
  "well_paired [] = True"
| "well_paired [a] = (m_Role a = RoleAssistant)"
| "well_paired (a # u # ms) = (answers a u \<and> well_paired ms)"

lemma executeToolCalls_answers:
  "executeToolCalls envs inp orc blocks = (bs, rs, as, orc') \<Longrightarrow>
     map cb_ToolUseID bs = map cb_ID blocks \<and> (\<forall>b \<in> set bs. cb_Type b = ''tool_result'') \<and> length rs = length blocks"
  by (induction blocks arbitrary: envs orc bs rs as orc')
    (auto simp: Let_def ToolResultBlock_def split: prod.splits sum.splits exec_error.splits)

lemma expand_tools_frame [simp]:
  "lp_history (expand_tools orc bs lp) = lp_history lp"
  by (simp add: expand_tools_def split: option.split)

lemma process_loop_history:
  "process_loop envs ag inp prompt k orc lp = (r, final, orc') \<Longrightarrow>
     r \<noteq> Inl SlicePanic \<and> (\<exists>new. final = lp_history lp @ new \<and> well_paired new \<and> length new \<le> 2 * k)"
proof (induction k arbitrary: envs orc lp)
  case 0
  then show ?case by auto
next
  case (Suc k)
  obtain x w where send: "ag_send ag (o_world orc) \<lparr>rq_SystemPrompt = prompt, rq_Messages = lp_history lp, rq_MaxTokens = 0,
      rq_Tools = lp_toolDefs lp\<rparr> = (x, w)" by fastforce
  show ?case
  proof (cases x)
    case (Inl e)
    with Suc.prems send show ?thesis by auto
  next
    case (Inr resp)
    let ?orc1 = "orc\<lparr>o_world := w\<rparr>"
    let ?a = "assistant_message resp"
    have a: "m_Role ?a = RoleAssistant" by (simp add: assistant_message_def)
    show ?thesis
    proof (cases "HasToolUse resp")
      case False
      with Suc.prems send Inr a show ?thesis by (auto intro!: exI[of _ "[?a]"])
    next
      case True
      obtain bs rs as orc2 where ex: "executeToolCalls (envs 0) inp ?orc1 (ToolUseBlocks resp) = (bs, rs, as, orc2)"
        by (metis prod_cases4)
      let ?u = "results_message bs"
      have au: "answers ?a ?u"
        using executeToolCalls_answers[OF ex]
        by (simp add: assistant_message_def results_message_def ToolUseBlocks_def)
      let ?lp1 = "lp\<lparr>lp_tokens := lp_tokens lp + lr_InputTokens resp + lr_OutputTokens resp,
                       lp_history := lp_history lp @ [?a]\<rparr>"
      let ?lp2 = "expand_tools ?orc1 (ToolUseBlocks resp) ?lp1"
      let ?lp3 = "?lp2\<lparr>lp_results := lp_results ?lp2 @ rs, lp_approvals := lp_approvals ?lp2 @ as,
                      lp_history := lp_history ?lp2 @ [?u]\<rparr>"
      show ?thesis
      proof (cases "length as > 0")
        case pending: True
        with Suc.prems send Inr True ex have "final = lp_history lp @ [?a, ?u]" "r \<noteq> Inl SlicePanic"
          by (auto simp: Let_def)
        with au show ?thesis by (auto intro!: exI[of _ "[?a, ?u]"])
      next
        case go: False
        with Suc.prems send Inr True ex
        have "process_loop (\<lambda>i. envs (Suc i)) ag inp prompt k orc2 ?lp3 = (r, final, orc')" by (simp add: Let_def)
        from Suc.IH[OF this] obtain new where "r \<noteq> Inl SlicePanic" "final = lp_history lp @ [?a, ?u] @ new"
          "well_paired new" "length new \<le> 2 * k" by auto
        with au show ?thesis by (auto intro!: exI[of _ "?a # ?u # new"])
      qed
    qed
  qed
qed

text \<open>Trimming keeps the user's message last and points \<open>historyStart\<close> at it.\<close>

lemma trim_history_start:
  assumes "m_Role u = RoleUser" and "trim_history ag w (loaded @ [u]) (int (length loaded)) = (h, start, w')"
  shows "\<exists>kept. h = kept @ [u] \<and> start = int (length kept)"
proof -
  obtain h1 w1 where h1: "(if ag_summarizeOnTruncate ag
      then summarizeHistory (ag_send ag) w (loaded @ [u]) (effective_max (ag_maxHistoryMessages ag)) else (loaded @ [u], w)) = (h1, w1)"
    by fastforce
  have "\<exists>ys. h1 = ys @ [u] \<and> length ys \<le> length loaded"
    using h1 summarizeHistory_last[of "ag_send ag" w loaded u "effective_max (ag_maxHistoryMessages ag)"]
    by (auto split: if_splits)
  then obtain ys where ys: "h1 = ys @ [u]" "length ys \<le> length loaded" by blast
  obtain zs where zs: "truncateHistory (ag_maxHistoryMessages ag) h1 = zs @ [u]" "length zs \<le> length ys"
    using truncateHistory_last[OF assms(1), of "ag_maxHistoryMessages ag" ys] ys by auto
  have "h = zs @ [u]" "start = int (length zs)"
    using assms(2) h1 zs ys by (auto simp: trim_history_def Let_def split: if_splits)
  then show ?thesis by blast
qed

lemma user_message_role [simp]: "m_Role (user_message ag inp) = RoleUser"
  by (simp add: user_message_def)

definition max_iterations :: "'w Agent \<Rightarrow> nat" where
  "max_iterations ag = (if ag_maxIterations ag \<le> 0 then DefaultMaxIterations else nat (ag_maxIterations ag))"

lemma Process_outcome:
  assumes "load_conversation ag parse newID orc inp = (persistent, convID, loaded, orc1)"
    and "Process envs parse newID ag orc inp = (r, orc')"
  shows "r \<noteq> Inl SlicePanic \<and> (\<exists>new orc2. well_paired new \<and> length new \<le> 2 * max_iterations ag \<and>
    o_convStore orc2 = o_convStore orc1 \<and> orc' = persistNewMessages orc2 persistent convID (user_message ag inp # new))"
proof -
  obtain h start w where trim: "trim_history ag (o_world orc1) (loaded @ [user_message ag inp]) (int (length loaded)) = (h, start, w)"
    by (metis prod_cases3)
  obtain kept where kept: "h = kept @ [user_message ag inp]" "start = int (length kept)"
    using trim_history_start[OF user_message_role trim] by blast
  obtain toolDefs lazy where tools: "initial_tools ag orc1 (in_Message inp) = (toolDefs, lazy)" by fastforce
  let ?lp = "\<lparr>lp_history = h, lp_toolDefs = toolDefs, lp_lazy = lazy, lp_tokens = 0, lp_results = [], lp_approvals = []\<rparr>"
  obtain res final orc2 where loop: "process_loop envs ag inp (buildSystemPrompt (ag_rank ag) (ag_prompt ag) (in_Message inp))
      (max_iterations ag) (orc1\<lparr>o_world := w\<rparr>) ?lp = (res, final, orc2)" by (metis prod_cases3)
  from process_loop_history[OF loop] obtain new where new: "res \<noteq> Inl SlicePanic" "final = h @ new" "well_paired new"
      "length new \<le> 2 * max_iterations ag" by auto
  have "slice_from start final = Some (user_message ag inp # new)" using kept new(2) by (simp add: slice_from_def)
  then have "r = res" "orc' = persistNewMessages orc2 persistent convID (user_message ag inp # new)"
    using assms trim tools loop by (simp_all add: Process_def Let_def max_iterations_def)
  moreover have "o_convStore orc2 = o_convStore orc1" using process_loop_keeps_conv[OF loop] by simp
  ultimately show ?thesis using new by blast
qed

section \<open>Properties\<close>


text \<open>
  Conversations are private: a user who names a conversation that belongs to somebody else
  gets exactly the response he would get with no conversation store at all, and the store is
  unchanged.
\<close>

theorem foreign_conversation_isolated:
  assumes "o_convStore orc = Some cs" and "parse (in_ConversationID inp) = Some c"
    and "cs_owners cs c = Some other" and "other \<noteq> in_UserID inp"
  shows "fst (Process envs parse newID ag orc inp) = fst (Process envs parse newID ag (orc\<lparr>o_convStore := None\<rparr>) inp) \<and>
    o_convStore (snd (Process envs parse newID ag orc inp)) = Some cs"
proof -
  have l: "load_conversation ag parse newID orc inp = (False, 0, [], orc)"
    using assms by (auto simp: load_conversation_def GetOrCreateConversation_def)
  have l0: "load_conversation ag parse newID (with_conv None orc) inp = (False, 0, [], with_conv None orc)"
    by (simp add: load_conversation_def)
  have "fst (Process envs parse newID ag orc inp) = fst (Process envs parse newID ag (with_conv None orc) inp)"
    unfolding Process_def l l0
    by (simp add: initial_tools_def process_loop_conv split_beta Let_def split: option.split)
  moreover obtain r orc' where p: "Process envs parse newID ag orc inp = (r, orc')" by fastforce
  moreover have "o_convStore orc' = Some cs"
    using Process_outcome[OF l p] assms(1) by (auto simp: persistNewMessages_def)
  ultimately show ?thesis by (simp add: with_conv_def)
qed

definition demo_agent :: "nat Agent" where
  "demo_agent = \<lparr>ag_send = (\<lambda>w rq. (Inr \<lparr>lr_Content = ''hi'', lr_ContentBlocks = [ToolUseBlock ''t'' ''shell'' []], lr_InputTokens = 1,
       lr_OutputTokens = 1, lr_StopReason = ''tool_use''\<rparr>, w)), ag_rank = (\<lambda>xs. xs),
     ag_prompt = \<lparr>pc_systemPrompt = ''s'', pc_skillSummary = [], pc_skillSummaryMode = [], pc_skillSummaryCompact = [], pc_soulContext = [],
       pc_runbooks = [], pc_runbookMaxN = 0, pc_runbookThreshold = 0, pc_planningEnabled = False\<rparr>,
     ag_summarizeOnTruncate = False, ag_lazyToolLoading = False, ag_maxIterations = 2, ag_maxHistoryMessages = 0, ag_maxMessageBytes = 0\<rparr>"

definition demo_convs :: InMemoryConversationStore where
  "demo_convs = \<lparr>cs_history = [5 \<mapsto> []], cs_owners = [5 \<mapsto> ''olga'']\<rparr>"

definition demo_input :: "string \<Rightarrow> Input" where
  "demo_input u = \<lparr>in_UserID = u, in_Message = ''hello'', in_CorrelationID = [], in_ConversationID = ''five''\<rparr>"


theorem foreign_conversation_isolated_witness:
  "o_convStore (snd (Process (\<lambda>_ _. demo_env 0) (\<lambda>_. Some 5) 0 demo_agent (demo_orc\<lparr>o_convStore := Some demo_convs\<rparr>) (demo_input ''eve''))) = Some demo_convs"
  using foreign_conversation_isolated[of "demo_orc\<lparr>o_convStore := Some demo_convs\<rparr>" demo_convs "\<lambda>_. Some 5" "demo_input ''eve''" 5 "''olga''"
      "\<lambda>_ _. demo_env 0" 0 demo_agent]
  by (simp add: demo_convs_def demo_input_def)

end
