(* ===== verification/WorkflowStore.thy ===== *)
theory WorkflowStore
  imports WorkflowTypes Dag "HOL-Library.AList" "HOL-Library.Product_Lexorder"
begin

text \<open>
  The in-memory workflow store (\<^verbatim>\<open>orchestrator/memory_store.go\<close>). A Go map is an association
  list whose order stands for the iteration order of the runtime; the sorts of the list
  operations are stable on it. The task part of \<^verbatim>\<open>WorkflowStore\<close> is the interface
  \<open>task_store\<close>, on which the scheduler's lemmas rest.
\<close>

datatype store_error =
    WorkflowExists uuid
  | WorkflowNotFound uuid
  | TaskExists uuid
  | TaskNotFound uuid
  | NotSupported string

record InMemoryStore =
  st_workflows :: "(uuid \<times> Workflow) list"
  st_tasks :: "(uuid \<times> Task) list"
  st_messages :: "(uuid \<times> AgentMessage) list"

definition NewInMemoryStore :: InMemoryStore where
  "NewInMemoryStore = \<lparr>st_workflows = [], st_tasks = [], st_messages = []\<rparr>"

definition CreateWorkflow :: "InMemoryStore \<Rightarrow> Workflow \<Rightarrow> store_error option \<times> InMemoryStore" where
  "CreateWorkflow s flow =
     (if map_of (st_workflows s) (wf_ID flow) \<noteq> None then (Some (WorkflowExists (wf_ID flow)), s)
      else (None, s\<lparr>st_workflows := AList.update (wf_ID flow) flow (st_workflows s)\<rparr>))"

definition UpdateWorkflow :: "time \<Rightarrow> InMemoryStore \<Rightarrow> Workflow \<Rightarrow> store_error option \<times> InMemoryStore" where
  "UpdateWorkflow now s flow =
     (if map_of (st_workflows s) (wf_ID flow) = None then (Some (WorkflowNotFound (wf_ID flow)), s)
      else (None, s\<lparr>st_workflows := AList.update (wf_ID flow) (flow\<lparr>wf_UpdatedAt := now\<rparr>) (st_workflows s)\<rparr>))"

definition GetWorkflow :: "InMemoryStore \<Rightarrow> uuid \<Rightarrow> store_error + Workflow" where
  "GetWorkflow s i = (case map_of (st_workflows s) i of None \<Rightarrow> Inl (WorkflowNotFound i) | Some flow \<Rightarrow> Inr flow)"

definition CreateTask :: "InMemoryStore \<Rightarrow> Task \<Rightarrow> store_error option \<times> InMemoryStore" where
  "CreateTask s t =
     (if map_of (st_tasks s) (tk_ID t) \<noteq> None then (Some (TaskExists (tk_ID t)), s)
      else (None, s\<lparr>st_tasks := AList.update (tk_ID t) t (st_tasks s)\<rparr>))"

definition UpdateTask :: "time \<Rightarrow> InMemoryStore \<Rightarrow> Task \<Rightarrow> store_error option \<times> InMemoryStore" where
  "UpdateTask now s t =
     (if map_of (st_tasks s) (tk_ID t) = None then (Some (TaskNotFound (tk_ID t)), s)
      else (None, s\<lparr>st_tasks := AList.update (tk_ID t) (t\<lparr>tk_UpdatedAt := now\<rparr>) (st_tasks s)\<rparr>))"

definition GetTask :: "InMemoryStore \<Rightarrow> uuid \<Rightarrow> store_error + Task" where
  "GetTask s i = (case map_of (st_tasks s) i of None \<Rightarrow> Inl (TaskNotFound i) | Some t \<Rightarrow> Inr t)"

definition tasks_of :: "InMemoryStore \<Rightarrow> uuid \<Rightarrow> Task list" where
  "tasks_of s workflowID = filter (\<lambda>t. tk_WorkflowID t = workflowID) (map snd (st_tasks s))"

definition ListTasksByWorkflow :: "InMemoryStore \<Rightarrow> uuid \<Rightarrow> Task list" where
  "ListTasksByWorkflow s workflowID = sort_key tk_CreatedAt (tasks_of s workflowID)"

definition completed_in :: "InMemoryStore \<Rightarrow> uuid \<Rightarrow> uuid \<Rightarrow> bool" where
  "completed_in s workflowID i \<longleftrightarrow> i \<in> set (map tk_ID (filter (\<lambda>t. tk_Status t = TaskCompleted) (tasks_of s workflowID)))"

definition GetReadyTasks :: "InMemoryStore \<Rightarrow> uuid \<Rightarrow> Task list" where
  "GetReadyTasks s workflowID =
     (let candidates = filter (\<lambda>t. tk_Status t = TaskPending \<or> tk_Status t = TaskBlocked) (tasks_of s workflowID);
          ready = filter (\<lambda>t. all_met (completed_in s workflowID) (tk_DependsOn t)) candidates
      in sort_key (\<lambda>t. (tk_Priority t, tk_CreatedAt t)) ready)"

definition SaveMessage :: "InMemoryStore \<Rightarrow> AgentMessage \<Rightarrow> InMemoryStore" where
  "SaveMessage s m = s\<lparr>st_messages := AList.update (msg_ID m) m (st_messages s)\<rparr>"

definition ListMessages :: "InMemoryStore \<Rightarrow> uuid \<Rightarrow> AgentMessage list" where
  "ListMessages s workflowID =
     sort_key msg_CreatedAt (filter (\<lambda>m. msg_WorkflowID m = workflowID) (map snd (st_messages s)))"

definition ClaimReadyTasks :: "InMemoryStore \<Rightarrow> string \<Rightarrow> string list \<Rightarrow> int \<Rightarrow> store_error + Task list" where
  "ClaimReadyTasks s agentID roles n =
     Inl (NotSupported ''ClaimReadyTasks is not supported in in-memory mode; agent mode requires postgres'')"

definition HeartbeatTasks :: "InMemoryStore \<Rightarrow> string \<Rightarrow> uuid list \<Rightarrow> store_error option" where
  "HeartbeatTasks s agentID taskIDs =
     Some (NotSupported ''HeartbeatTasks is not supported in in-memory mode; agent mode requires postgres'')"

section \<open>The tasks as a map\<close>

definition task_map :: "InMemoryStore \<Rightarrow> uuid \<Rightarrow> Task option" where
  "task_map s = map_of (st_tasks s)"

definition wf_map :: "InMemoryStore \<Rightarrow> uuid \<Rightarrow> Workflow option" where
  "wf_map s = map_of (st_workflows s)"

text \<open>Every task is filed once, under its identifier.\<close>

definition store_ok :: "InMemoryStore \<Rightarrow> bool" where
  "store_ok s \<longleftrightarrow> distinct (map fst (st_tasks s)) \<and> (\<forall>(i, t) \<in> set (st_tasks s). tk_ID t = i)"

lemma store_ok_ID: "store_ok s \<Longrightarrow> task_map s i = Some t \<Longrightarrow> tk_ID t = i"
  by (auto simp: store_ok_def task_map_def dest!: map_of_SomeD)

lemma alist_update_ok:
  assumes "distinct (map fst xs)" and "\<forall>(i, t) \<in> set xs. tk_ID t = i" and "tk_ID t = k"
  shows "distinct (map fst (AList.update k t xs)) \<and> (\<forall>(i, t) \<in> set (AList.update k t xs). tk_ID t = i)"
proof
  show "distinct (map fst (AList.update k t xs))" by (rule distinct_update[OF assms(1)])
  show "\<forall>(i, t) \<in> set (AList.update k t xs). tk_ID t = i"
    using assms(2,3) by (induction xs) auto
qed

lemma CreateTask_ok [simp]: "store_ok s \<Longrightarrow> store_ok (snd (CreateTask s t))"
  using alist_update_ok[of "st_tasks s" t "tk_ID t"] by (simp add: CreateTask_def store_ok_def)

lemma UpdateTask_ok [simp]: "store_ok s \<Longrightarrow> store_ok (snd (UpdateTask now s t))"
  using alist_update_ok[of "st_tasks s" "t\<lparr>tk_UpdatedAt := now\<rparr>" "tk_ID t"] by (simp add: UpdateTask_def store_ok_def)

lemma store_frames [simp]:
  "st_tasks (SaveMessage s m) = st_tasks s" "st_workflows (SaveMessage s m) = st_workflows s"
  "st_tasks (snd (UpdateWorkflow now s w)) = st_tasks s" "st_tasks (snd (CreateWorkflow s w)) = st_tasks s"
  "st_workflows (snd (UpdateTask now s t)) = st_workflows s" "st_workflows (snd (CreateTask s t)) = st_workflows s"
  by (simp_all add: SaveMessage_def UpdateWorkflow_def CreateWorkflow_def UpdateTask_def CreateTask_def)

lemma task_map_frames [simp]:
  "task_map (SaveMessage s m) = task_map s"
  "task_map (snd (UpdateWorkflow now s w)) = task_map s" "task_map (snd (CreateWorkflow s w)) = task_map s"
  by (simp_all add: task_map_def)

lemma store_ok_frames [simp]:
  "store_ok (SaveMessage s m) = store_ok s"
  "store_ok (snd (UpdateWorkflow now s w)) = store_ok s" "store_ok (snd (CreateWorkflow s w)) = store_ok s"
  by (simp_all add: store_ok_def)

lemma wf_map_frames [simp]:
  "wf_map (SaveMessage s m) = wf_map s"
  "wf_map (snd (UpdateTask now s t)) = wf_map s" "wf_map (snd (CreateTask s t)) = wf_map s"
  by (simp_all add: wf_map_def)

lemma wf_map_UpdateWorkflow:
  "wf_map (snd (UpdateWorkflow now s w)) =
     (if wf_map s (wf_ID w) = None then wf_map s else (wf_map s)(wf_ID w \<mapsto> w\<lparr>wf_UpdatedAt := now\<rparr>))"
  by (simp add: wf_map_def UpdateWorkflow_def update_conv')

section \<open>The store interface\<close>

text \<open>
  What both implementations of the store promise (\<open>task_table\<close>): creating files a new task and refuses a known
  identifier, updating overwrites a known task, getting reads what is filed; nothing else changes. The
  database replaces an empty mode by its column default, so creation is promised for tasks with a mode.
\<close>

locale task_table =
  fixes create :: "'s \<Rightarrow> Task \<Rightarrow> store_error option \<times> 's"
    and update :: "time \<Rightarrow> 's \<Rightarrow> Task \<Rightarrow> store_error option \<times> 's"
    and get :: "'s \<Rightarrow> uuid \<Rightarrow> store_error + Task"
    and filed :: "'s \<Rightarrow> uuid \<Rightarrow> Task option"
  assumes create_mode: "filed s (tk_ID t) = None \<Longrightarrow> tk_Mode t \<noteq> [] \<Longrightarrow>
      fst (create s t) = None \<and> filed (snd (create s t)) = (filed s)(tk_ID t \<mapsto> t)"
    and create_known: "filed s (tk_ID t) \<noteq> None \<Longrightarrow> fst (create s t) \<noteq> None \<and> filed (snd (create s t)) = filed s"
    and update_known: "filed s (tk_ID t) \<noteq> None \<Longrightarrow>
      fst (update now s t) = None \<and> filed (snd (update now s t)) = (filed s)(tk_ID t \<mapsto> t\<lparr>tk_UpdatedAt := now\<rparr>)"
    and get_filed: "get s i = (case filed s i of None \<Rightarrow> Inl (TaskNotFound i) | Some t \<Rightarrow> Inr t)"
begin

lemma get_after_create: "fst (create s t) = None \<Longrightarrow> tk_Mode t \<noteq> [] \<Longrightarrow> get (snd (create s t)) (tk_ID t) = Inr t"
  using create_mode[of s t] create_known[of s t] by (cases "filed s (tk_ID t)") (auto simp: get_filed)

lemma get_after_update:
  "filed s (tk_ID t) \<noteq> None \<Longrightarrow> get (snd (update now s t)) (tk_ID t) = Inr (t\<lparr>tk_UpdatedAt := now\<rparr>)"
  using update_known[of s t now] by (auto simp: get_filed)

end

text \<open>What the scheduler relies on: updating also refuses an unknown task. Only the in-memory store promises that.\<close>

locale task_store = task_table +
  assumes create_new: "filed s (tk_ID t) = None \<Longrightarrow>
      fst (create s t) = None \<and> filed (snd (create s t)) = (filed s)(tk_ID t \<mapsto> t)"
    and update_new: "filed s (tk_ID t) = None \<Longrightarrow> fst (update now s t) \<noteq> None \<and> filed (snd (update now s t)) = filed s"
begin

lemma update_other: "i \<noteq> tk_ID t \<Longrightarrow> filed (snd (update now s t)) i = filed s i"
  using update_known[of s t now] update_new[of s t now] by (cases "filed s (tk_ID t)") auto

lemma dom_update: "dom (filed (snd (update now s t))) = dom (filed s)"
  using update_known[of s t now] update_new[of s t now] by (cases "filed s (tk_ID t)") auto

end

interpretation mem_tasks: task_store CreateTask UpdateTask GetTask task_map
  by unfold_locales
    (simp_all add: CreateTask_def UpdateTask_def GetTask_def task_map_def update_conv')

lemma task_map_UpdateTask:
  "task_map s (tk_ID t) = Some t0 \<Longrightarrow> task_map (snd (UpdateTask now s t)) = (task_map s)(tk_ID t \<mapsto> t\<lparr>tk_UpdatedAt := now\<rparr>)"
  using mem_tasks.update_known by simp

section \<open>Listing\<close>

lemma set_tasks_of: "store_ok s \<Longrightarrow> t \<in> set (tasks_of s w) \<longleftrightarrow> task_map s (tk_ID t) = Some t \<and> tk_WorkflowID t = w"
  by (force simp: tasks_of_def store_ok_def task_map_def)

lemma set_ListTasks: "store_ok s \<Longrightarrow> t \<in> set (ListTasksByWorkflow s w) \<longleftrightarrow> task_map s (tk_ID t) = Some t \<and> tk_WorkflowID t = w"
  by (simp add: ListTasksByWorkflow_def set_tasks_of)

lemma completed_in_iff:
  "store_ok s \<Longrightarrow> completed_in s w i \<longleftrightarrow> (\<exists>t. task_map s i = Some t \<and> tk_WorkflowID t = w \<and> tk_Status t = TaskCompleted)"
  by (auto simp: completed_in_def set_tasks_of dest: store_ok_ID)

lemma distinct_tasks_of: "store_ok s \<Longrightarrow> distinct (map tk_ID (tasks_of s w))"
proof -
  assume ok: "store_ok s"
  have e: "map tk_ID (map snd (st_tasks s)) = map fst (st_tasks s)"
    using ok by (auto simp: store_ok_def)
  have "distinct (map tk_ID (filter P xs))" if "distinct (map tk_ID xs)" for P and xs :: "Task list"
    using that by (induction xs) auto
  then show ?thesis using ok e unfolding tasks_of_def by (metis store_ok_def)
qed

lemma set_GetReadyTasks:
  "store_ok s \<Longrightarrow> t \<in> set (GetReadyTasks s w) \<longleftrightarrow> task_map s (tk_ID t) = Some t \<and> tk_WorkflowID t = w \<and>
     tk_Status t \<in> {TaskPending, TaskBlocked} \<and> (\<forall>d \<in> set (tk_DependsOn t). completed_in s w d)"
  by (auto simp: GetReadyTasks_def Let_def set_tasks_of)

lemma distinct_map_filter: "distinct (map f xs) \<Longrightarrow> distinct (map f (filter P xs))"
  by (induction xs) auto

lemma distinct_map_sort_key: "distinct (map f (sort_key k xs)) \<longleftrightarrow> distinct (map f xs)"
  by (metis mset_map mset_sort mset_eq_imp_distinct_iff)

lemma distinct_GetReadyTasks: "store_ok s \<Longrightarrow> distinct (map tk_ID (GetReadyTasks s w))"
  by (simp add: GetReadyTasks_def Let_def distinct_map_sort_key distinct_map_filter distinct_tasks_of)

end
