(* ===== verification/Skill.thy ===== *)
theory Skill
  imports WorkflowTypes "HOL-Library.AList"
begin

text \<open>
  Skill statistics (\<^verbatim>\<open>orchestrator/skill.go\<close> and the skill store of \<^verbatim>\<open>memory_store.go\<close>): the
  tracker updates success counts, moving averages, reliability and maturity after every task,
  the scorer turns them into scheduling scores. \<open>ustr\<close> is \<^verbatim>\<open>uuid.UUID.String\<close>. A nil tracker or
  scorer is the caller's \<open>None\<close>.
\<close>

datatype SkillMaturity = SkillBasic | SkillProven | SkillTrusted | SkillOptimized

fun maturityRank :: "SkillMaturity \<Rightarrow> int" where
  "maturityRank SkillBasic = 0"
| "maturityRank SkillProven = 1"
| "maturityRank SkillTrusted = 2"
| "maturityRank SkillOptimized = 3"

fun maturityBonus :: "SkillMaturity \<Rightarrow> rat" where
  "maturityBonus SkillBasic = 0"
| "maturityBonus SkillProven = 25 / 100"
| "maturityBonus SkillTrusted = 50 / 100"
| "maturityBonus SkillOptimized = 1"

record AgentSkill =
  sk_ID :: uuid
  sk_OrgID :: uuid
  sk_AgentRole :: AgentRole
  sk_SkillKey :: string
  sk_SuccessCount :: int
  sk_FailureCount :: int
  sk_AvgDurationMS :: rat
  sk_AvgCostUSD :: usd
  sk_ReliabilityScore :: rat
  sk_MaturityLevel :: SkillMaturity
  sk_LastUpdatedAt :: time
  sk_CreatedAt :: time
  sk_Name :: string
  sk_Category :: string
  sk_ToolsRequired :: "string list"
  sk_RiskLevel :: string
  sk_DefaultBudget :: usd
  sk_Description :: string

definition totalCompletions :: "AgentSkill \<Rightarrow> int" where
  "totalCompletions s = sk_SuccessCount s + sk_FailureCount s"

type_synonym InMemorySkillStore = "(string \<times> AgentSkill) list"

definition skillMapKey :: "(uuid \<Rightarrow> string) \<Rightarrow> uuid \<Rightarrow> AgentRole \<Rightarrow> string \<Rightarrow> string" where
  "skillMapKey ustr orgID role skillKey = ustr orgID @ '':'' @ role @ '':'' @ skillKey"

definition GetSkill :: "(uuid \<Rightarrow> string) \<Rightarrow> InMemorySkillStore \<Rightarrow> uuid \<Rightarrow> AgentRole \<Rightarrow> string \<Rightarrow> AgentSkill option" where
  "GetSkill ustr st orgID role skillKey = map_of st (skillMapKey ustr orgID role skillKey)"

definition UpsertSkill :: "(uuid \<Rightarrow> string) \<Rightarrow> InMemorySkillStore \<Rightarrow> AgentSkill \<Rightarrow> InMemorySkillStore" where
  "UpsertSkill ustr st skill =
     AList.update (skillMapKey ustr (sk_OrgID skill) (sk_AgentRole skill) (sk_SkillKey skill)) skill st"

definition ListSkillsByRole :: "(uuid \<Rightarrow> string) \<Rightarrow> InMemorySkillStore \<Rightarrow> uuid \<Rightarrow> AgentRole \<Rightarrow> AgentSkill list" where
  "ListSkillsByRole ustr st orgID role =
     map snd (filter (\<lambda>(k, v). HasPrefix k (ustr orgID @ '':'' @ role @ '':'')) st)"

definition emaAlpha :: rat where "emaAlpha = 1 / 10"

definition computeMaturity :: "int \<Rightarrow> rat \<Rightarrow> SkillMaturity" where
  "computeMaturity completions reliability =
     (if completions \<ge> 100 \<and> reliability \<ge> 95 / 100 then SkillOptimized
      else if completions \<ge> 50 \<and> reliability \<ge> 85 / 100 then SkillTrusted
      else if completions \<ge> 10 \<and> reliability \<ge> 70 / 100 then SkillProven
      else SkillBasic)"

definition skillKeyForTask :: "Task \<Rightarrow> string" where
  "skillKeyForTask t = tk_AgentRole t"

definition new_skill :: "uuid \<Rightarrow> time \<Rightarrow> uuid \<Rightarrow> Task \<Rightarrow> AgentSkill" where
  "new_skill newID now orgID t =
     \<lparr>sk_ID = newID, sk_OrgID = orgID, sk_AgentRole = tk_AgentRole t, sk_SkillKey = skillKeyForTask t,
      sk_SuccessCount = 0, sk_FailureCount = 0, sk_AvgDurationMS = 0, sk_AvgCostUSD = 0, sk_ReliabilityScore = 0,
      sk_MaturityLevel = SkillBasic, sk_LastUpdatedAt = 0, sk_CreatedAt = now,
      sk_Name = [], sk_Category = [], sk_ToolsRequired = [], sk_RiskLevel = [], sk_DefaultBudget = 0, sk_Description = []\<rparr>"

text \<open>The arithmetic of \<^verbatim>\<open>RecordCompletion\<close>: counts, averages, reliability, maturity.\<close>

definition record_outcome :: "time \<Rightarrow> rat \<Rightarrow> usd \<Rightarrow> bool \<Rightarrow> AgentSkill \<Rightarrow> AgentSkill" where
  "record_outcome now durationMS costUSD success skill =
     (let s1 = (if success then skill\<lparr>sk_SuccessCount := sk_SuccessCount skill + 1\<rparr>
                else skill\<lparr>sk_FailureCount := sk_FailureCount skill + 1\<rparr>);
          s2 = (if success
                then (if totalCompletions s1 = 1
                      then s1\<lparr>sk_AvgDurationMS := durationMS, sk_AvgCostUSD := costUSD\<rparr>
                      else s1\<lparr>sk_AvgDurationMS := emaAlpha * durationMS + (1 - emaAlpha) * sk_AvgDurationMS s1,
                              sk_AvgCostUSD := emaAlpha * costUSD + (1 - emaAlpha) * sk_AvgCostUSD s1\<rparr>)
                else s1);
          s3 = (if totalCompletions s2 > 0
                then s2\<lparr>sk_ReliabilityScore := of_int (sk_SuccessCount s2) / of_int (totalCompletions s2)\<rparr> else s2);
          newMaturity = computeMaturity (totalCompletions s3) (sk_ReliabilityScore s3);
          s4 = (if maturityRank newMaturity > maturityRank (sk_MaturityLevel s3)
                then s3\<lparr>sk_MaturityLevel := newMaturity\<rparr> else s3)
      in s4\<lparr>sk_LastUpdatedAt := now\<rparr>)"

definition RecordCompletion ::
  "(uuid \<Rightarrow> string) \<Rightarrow> uuid \<Rightarrow> time \<Rightarrow> InMemorySkillStore \<Rightarrow> uuid \<Rightarrow> Task \<Rightarrow> rat \<Rightarrow> usd \<Rightarrow> bool \<Rightarrow> InMemorySkillStore" where
  "RecordCompletion ustr newID now st orgID t durationMS costUSD success =
     (let skill = (case GetSkill ustr st orgID (tk_AgentRole t) (skillKeyForTask t) of
                     Some s \<Rightarrow> s | None \<Rightarrow> new_skill newID now orgID t)
      in UpsertSkill ustr st (record_outcome now durationMS costUSD success skill))"

record SkillWeights =
  sw_Reliability :: rat
  sw_Speed :: rat
  sw_Cost :: rat
  sw_Maturity :: rat

definition DefaultSkillWeights :: SkillWeights where
  "DefaultSkillWeights = \<lparr>sw_Reliability = 40 / 100, sw_Speed = 25 / 100, sw_Cost = 20 / 100, sw_Maturity = 15 / 100\<rparr>"

record SkillScorer =
  scr_store :: InMemorySkillStore
  scr_weights :: SkillWeights

fun max_of :: "(AgentSkill \<Rightarrow> rat) \<Rightarrow> rat \<Rightarrow> AgentSkill option list \<Rightarrow> rat" where
  "max_of f m [] = m"
| "max_of f m (None # xs) = max_of f m xs"
| "max_of f m (Some s # xs) = max_of f (if f s > m then f s else m) xs"

definition skill_score :: "SkillWeights \<Rightarrow> rat \<Rightarrow> usd \<Rightarrow> AgentSkill option \<Rightarrow> rat" where
  "skill_score weights maxDuration maxCost item =
     (case item of
        None \<Rightarrow> 5 / 10
      | Some sk \<Rightarrow>
          let normalizedDuration = (if maxDuration > 0 then sk_AvgDurationMS sk / maxDuration else 0);
              normalizedCost = (if maxCost > 0 then sk_AvgCostUSD sk / maxCost else 0)
          in sw_Reliability weights * sk_ReliabilityScore sk + sw_Speed weights * (1 - normalizedDuration) +
             sw_Cost weights * (1 - normalizedCost) + sw_Maturity weights * maturityBonus (sk_MaturityLevel sk))"

definition ScoreTasks :: "(uuid \<Rightarrow> string) \<Rightarrow> SkillScorer \<Rightarrow> uuid \<Rightarrow> Task list \<Rightarrow> (uuid \<times> rat) list" where
  "ScoreTasks ustr s orgID tasks =
     (let items = map (\<lambda>t. GetSkill ustr (scr_store s) orgID (tk_AgentRole t) (skillKeyForTask t)) tasks;
          maxDuration = max_of sk_AvgDurationMS 0 items;
          maxCost = max_of sk_AvgCostUSD 0 items
      in map (\<lambda>(t, item). (tk_ID t, skill_score (scr_weights s) maxDuration maxCost item)) (zip tasks items))"

section \<open>Skill statistics stay meaningful\<close>

definition skill_ok :: "AgentSkill \<Rightarrow> bool" where
  "skill_ok s \<longleftrightarrow> 0 \<le> sk_SuccessCount s \<and> 0 \<le> sk_FailureCount s \<and>
     sk_ReliabilityScore s = (if totalCompletions s = 0 then 0 else of_int (sk_SuccessCount s) / of_int (totalCompletions s)) \<and>
     maturityRank (computeMaturity (totalCompletions s) (sk_ReliabilityScore s)) \<le> maturityRank (sk_MaturityLevel s) \<and>
     0 \<le> sk_AvgDurationMS s \<and> 0 \<le> sk_AvgCostUSD s"

lemma new_skill_ok: "skill_ok (new_skill newID now orgID t)"
  by (simp add: skill_ok_def new_skill_def totalCompletions_def computeMaturity_def)

lemma reliability_range: "skill_ok s \<Longrightarrow> 0 \<le> sk_ReliabilityScore s \<and> sk_ReliabilityScore s \<le> 1"
  by (auto simp: skill_ok_def totalCompletions_def divide_le_eq_1 simp flip: of_int_add)

lemma record_outcome_counts:
  "sk_SuccessCount (record_outcome now d c ok s) = sk_SuccessCount s + (if ok then 1 else 0)"
  "sk_FailureCount (record_outcome now d c ok s) = sk_FailureCount s + (if ok then 0 else 1)"
  by (simp_all add: record_outcome_def Let_def)

lemma record_outcome_maturity_mono:
  "maturityRank (sk_MaturityLevel s) \<le> maturityRank (sk_MaturityLevel (record_outcome now d c ok s))"
  by (simp add: record_outcome_def Let_def)

lemma record_outcome_ok:
  assumes "skill_ok s" and "0 \<le> d" and "0 \<le> c"
  shows "skill_ok (record_outcome now d c ok s)"
proof -
  have "0 < totalCompletions (record_outcome now d c ok s)"
    using assms(1) by (simp add: totalCompletions_def record_outcome_counts skill_ok_def)
  with assms show ?thesis
    by (cases ok) (auto simp: skill_ok_def record_outcome_def Let_def totalCompletions_def emaAlpha_def)
qed

fun record_all ::
  "(uuid \<Rightarrow> string) \<Rightarrow> InMemorySkillStore \<Rightarrow> (uuid \<times> time \<times> uuid \<times> Task \<times> rat \<times> usd \<times> bool) list \<Rightarrow> InMemorySkillStore" where
  "record_all ustr st [] = st"
| "record_all ustr st ((newID, now, org, t, d, c, ok) # rest) = record_all ustr (RecordCompletion ustr newID now st org t d c ok) rest"

definition skills_ok :: "InMemorySkillStore \<Rightarrow> bool" where
  "skills_ok st \<longleftrightarrow> (\<forall>k s. map_of st k = Some s \<longrightarrow> skill_ok s)"

lemma RecordCompletion_ok:
  assumes "skills_ok st" and "0 \<le> d" and "0 \<le> c"
  shows "skills_ok (RecordCompletion ustr newID now st org t d c ok)"
proof -
  let ?s = "case GetSkill ustr st org (tk_AgentRole t) (skillKeyForTask t) of Some s \<Rightarrow> s | None \<Rightarrow> new_skill newID now org t"
  have "skill_ok ?s" using assms(1) by (auto simp: skills_ok_def GetSkill_def new_skill_ok split: option.split)
  from record_outcome_ok[OF this assms(2,3), of now ok] assms(1) show ?thesis
    by (auto simp: skills_ok_def RecordCompletion_def UpsertSkill_def update_conv' Let_def)
qed

lemma record_all_ok:
  "skills_ok st \<Longrightarrow> \<forall>(newID, now, org, t, d, c, ok) \<in> set evs. 0 \<le> d \<and> 0 \<le> c \<Longrightarrow> skills_ok (record_all ustr st evs)"
  by (induction ustr st evs rule: record_all.induct) (auto simp: RecordCompletion_ok)

lemma record_all_mono:
  assumes "map_of st k = Some s"
    and keys: "\<forall>k s. map_of st k = Some s \<longrightarrow> k = skillMapKey ustr (sk_OrgID s) (sk_AgentRole s) (sk_SkillKey s)"
  shows "\<exists>s'. map_of (record_all ustr st evs) k = Some s' \<and> maturityRank (sk_MaturityLevel s) \<le> maturityRank (sk_MaturityLevel s') \<and>
    totalCompletions s \<le> totalCompletions s'"
  using assms
proof (induction ustr st evs arbitrary: s rule: record_all.induct)
  case (1 ustr st)
  then show ?case by simp
next
  case (2 ustr st newID now org t d c ok rest)
  let ?key = "skillMapKey ustr org (tk_AgentRole t) (skillKeyForTask t)"
  define old where "old = (case map_of st ?key of Some s \<Rightarrow> s | None \<Rightarrow> new_skill newID now org t)"
  define new where "new = record_outcome now d c ok old"
  have id: "skillMapKey ustr (sk_OrgID old) (sk_AgentRole old) (sk_SkillKey old) = ?key"
    using "2.prems"(2) by (auto simp: old_def new_skill_def split: option.split)
  have newid: "sk_OrgID new = sk_OrgID old" "sk_AgentRole new = sk_AgentRole old" "sk_SkillKey new = sk_SkillKey old"
    by (simp_all add: new_def record_outcome_def Let_def)
  have st': "map_of (RecordCompletion ustr newID now st org t d c ok) = (map_of st)(?key \<mapsto> new)"
    by (simp add: RecordCompletion_def UpsertSkill_def update_conv' GetSkill_def Let_def id newid flip: old_def new_def)
  have keys': "\<forall>k s. map_of (RecordCompletion ustr newID now st org t d c ok) k = Some s \<longrightarrow>
      k = skillMapKey ustr (sk_OrgID s) (sk_AgentRole s) (sk_SkillKey s)"
    using "2.prems"(2) by (auto simp: st' newid id)
  obtain s1 where s1: "map_of (RecordCompletion ustr newID now st org t d c ok) k = Some s1"
    "maturityRank (sk_MaturityLevel s) \<le> maturityRank (sk_MaturityLevel s1)" "totalCompletions s \<le> totalCompletions s1"
  proof (cases "k = ?key")
    case True
    with "2.prems"(1) have "old = s" by (simp add: old_def)
    with True that[of new] show thesis
      by (simp add: st' new_def record_outcome_maturity_mono totalCompletions_def record_outcome_counts)
  next
    case False
    with "2.prems"(1) that[of s] show thesis by (simp add: st')
  qed
  from "2.IH"[OF s1(1) keys'] s1(2,3) show ?case by fastforce
qed

text \<open>
  Skill statistics: after any sequence of recorded completions with non-negative durations and
  costs, every skill's reliability is its share of successes, between 0 and 1, its averages are
  not negative and its maturity is at least what its counts deserve.
\<close>

theorem skill_statistics_meaningful:
  assumes "\<forall>(newID, now, org, t, d, c, ok) \<in> set evs. 0 \<le> d \<and> 0 \<le> c"
    and "map_of (record_all ustr [] evs) k = Some s"
  shows "skill_ok s \<and> 0 \<le> sk_ReliabilityScore s \<and> sk_ReliabilityScore s \<le> 1"
proof -
  have "skills_ok ([] :: InMemorySkillStore)" by (simp add: skills_ok_def)
  with record_all_ok[OF this assms(1)] assms(2) have "skill_ok s" by (auto simp: skills_ok_def)
  with reliability_range show ?thesis by blast
qed

section \<open>Scores\<close>

lemma max_of_ge: "m \<le> max_of f m xs"
  by (induction f m xs rule: max_of.induct) (auto split: if_splits)

lemma max_of_upper: "Some s \<in> set xs \<Longrightarrow> f s \<le> max_of f m xs"
proof (induction f m xs rule: max_of.induct)
  case (3 f m s' xs)
  then show ?case using max_of_ge[of "if f s' > m then f s' else m" f xs] by (auto split: if_splits)
qed auto

lemma maturityBonus_range: "0 \<le> maturityBonus m \<and> maturityBonus m \<le> 1"
  by (cases m) simp_all

lemma unit_mult: "0 \<le> (w::rat) \<Longrightarrow> 0 \<le> x \<Longrightarrow> x \<le> 1 \<Longrightarrow> 0 \<le> w * x \<and> w * x \<le> w"
  by (simp add: mult_left_le)

lemma skill_score_range:
  assumes "0 \<le> sw_Reliability w" "0 \<le> sw_Speed w" "0 \<le> sw_Cost w" "0 \<le> sw_Maturity w" and "skill_ok sk"
    and "sk_AvgDurationMS sk \<le> maxD" and "sk_AvgCostUSD sk \<le> maxC"
  shows "0 \<le> skill_score w maxD maxC (Some sk) \<and>
    skill_score w maxD maxC (Some sk) \<le> sw_Reliability w + sw_Speed w + sw_Cost w + sw_Maturity w"
proof -
  define nd where "nd = (if maxD > 0 then sk_AvgDurationMS sk / maxD else 0)"
  define nc where "nc = (if maxC > 0 then sk_AvgCostUSD sk / maxC else 0)"
  have n: "0 \<le> 1 - nd" "1 - nd \<le> 1" "0 \<le> 1 - nc" "1 - nc \<le> 1"
    using assms(5-7) by (auto simp: nd_def nc_def skill_ok_def divide_le_eq_1)
  note u = unit_mult[OF assms(1), of "sk_ReliabilityScore sk"] unit_mult[OF assms(2) n(1,2)] unit_mult[OF assms(3) n(3,4)]
    unit_mult[OF assms(4), of "maturityBonus (sk_MaturityLevel sk)"]
  have "skill_score w maxD maxC (Some sk) = sw_Reliability w * sk_ReliabilityScore sk + sw_Speed w * (1 - nd) +
      sw_Cost w * (1 - nc) + sw_Maturity w * maturityBonus (sk_MaturityLevel sk)"
    by (simp add: skill_score_def nd_def nc_def Let_def)
  with u reliability_range[OF assms(5)] maturityBonus_range[of "sk_MaturityLevel sk"] show ?thesis by simp
qed

text \<open>
  With the default weights every scheduling score lies between 0 and 1, and a task without
  statistics gets exactly one half.
\<close>

theorem ScoreTasks_unit_interval:
  assumes "skills_ok (scr_store s)" and "scr_weights s = DefaultSkillWeights" and "(i, x) \<in> set (ScoreTasks ustr s org ts)"
  shows "0 \<le> x \<and> x \<le> 1"
proof -
  let ?items = "map (\<lambda>t. GetSkill ustr (scr_store s) org (tk_AgentRole t) (skillKeyForTask t)) ts"
  obtain t item where ti: "(t, item) \<in> set (zip ts ?items)"
    and x: "x = skill_score DefaultSkillWeights (max_of sk_AvgDurationMS 0 ?items) (max_of sk_AvgCostUSD 0 ?items) item"
    using assms(2,3) by (auto simp: ScoreTasks_def Let_def)
  show ?thesis
  proof (cases item)
    case None
    with x show ?thesis by (simp add: skill_score_def)
  next
    case (Some sk)
    have mem: "Some sk \<in> set ?items" using ti Some by (auto dest: set_zip_rightD)
    then have "skill_ok sk" using assms(1) by (auto simp: skills_ok_def GetSkill_def)
    from skill_score_range[OF _ _ _ _ this max_of_upper[OF mem, of sk_AvgDurationMS 0] max_of_upper[OF mem, of sk_AvgCostUSD 0], of DefaultSkillWeights] x Some
    show ?thesis by (simp add: DefaultSkillWeights_def)
  qed
qed

definition demo_work :: Task where
  "demo_work = \<lparr>tk_ID = 1, tk_WorkflowID = 9, tk_OrgID = 7, tk_ParentTaskID = None, tk_AgentRole = ''executor'',
     tk_Description = [], tk_Input = [], tk_Output = [], tk_Status = TaskCompleted, tk_Mode = ''sequential'',
     tk_Depth = 1, tk_Priority = 0, tk_DependsOn = [], tk_CreatedAt = 0, tk_UpdatedAt = 0, tk_StartedAt = None,
     tk_CompletedAt = None, tk_Error = [], tk_CostUSD = 0, tk_TokensUsed = 0, tk_ClaimedBy = [], tk_ClaimedAt = None,
     tk_RetryCount = 0, tk_MaxRetries = 2, tk_OriginalTaskID = None, tk_Metadata = None\<rparr>"

definition demo_skills :: InMemorySkillStore where
  "demo_skills = record_all (\<lambda>_. ''org'') [] [(1, 0, 7, demo_work, 10, 1, True), (2, 1, 7, demo_work, 0, 0, False)]"

lemmas demo_skill_eval = demo_skills_def demo_work_def RecordCompletion_def UpsertSkill_def GetSkill_def skillMapKey_def
  new_skill_def skillKeyForTask_def record_outcome_def totalCompletions_def computeMaturity_def Let_def

theorem skill_statistics_meaningful_witness:
  "\<exists>s. map_of demo_skills ''org:executor:executor'' = Some s \<and> sk_ReliabilityScore s = 1 / 2 \<and> skill_ok s"
proof -
  obtain s where s: "map_of demo_skills ''org:executor:executor'' = Some s" "sk_ReliabilityScore s = 1 / 2"
    by (simp add: demo_skill_eval)
  from skill_statistics_meaningful[OF _ s(1)[unfolded demo_skills_def]] s show ?thesis by simp
qed

theorem ScoreTasks_unit_interval_witness:
  "0 \<le> snd (hd (ScoreTasks (\<lambda>_. ''org'') \<lparr>scr_store = demo_skills, scr_weights = DefaultSkillWeights\<rparr> 7 [demo_work])) \<and>
   snd (hd (ScoreTasks (\<lambda>_. ''org'') \<lparr>scr_store = demo_skills, scr_weights = DefaultSkillWeights\<rparr> 7 [demo_work])) \<le> 1"
proof -
  let ?s = "\<lparr>scr_store = demo_skills, scr_weights = DefaultSkillWeights\<rparr>"
  have "skills_ok ([] :: InMemorySkillStore)" by (simp add: skills_ok_def)
  then have "skills_ok (scr_store ?s)" unfolding demo_skills_def by (simp add: record_all_ok del: record_all.simps)
  moreover have "(1, snd (hd (ScoreTasks (\<lambda>_. ''org'') ?s 7 [demo_work]))) \<in> set (ScoreTasks (\<lambda>_. ''org'') ?s 7 [demo_work])"
    by (simp add: ScoreTasks_def Let_def demo_work_def)
  ultimately show ?thesis by (intro ScoreTasks_unit_interval[of ?s]) simp_all
qed

end
