(* ===== verification/Scheduler.thy ===== *)
theory Scheduler
  imports WorkflowStore Skill
begin

text \<open>
  The workflow engine: task execution (\<^verbatim>\<open>task_executor.go\<close>), the scheduling loop with planning
  and recovery (\<^verbatim>\<open>scheduler.go\<close>, \<^verbatim>\<open>recovery.go\<close>) and submission (\<^verbatim>\<open>engine.go\<close>), on the in-memory store.

  What comes from outside is the record \<open>outside\<close>: clock readings and fresh identifiers by a
  counter in the state, the cancellation of the context, the role agents (the interface
  \<^verbatim>\<open>AgentFactory\<close>) as functions of the world, the JSON decoders, the text of error messages, and
  the order in which the results of a batch arrive. The tasks of a batch run
  concurrently in Go and touch only their own task row and messages; here each runs to its end in the order of
  the batch. Waiting (half a second, or until cancelled) is a step that only advances the counter.
\<close>

section \<open>Configuration and environment\<close>

record RecoveryConfig =
  rc_Enabled :: bool
  rc_MaxRetries :: int
  rc_RecoveryBudgetPct :: rat
  rc_AllowRetry :: bool

definition MaxRetriesOrDefault :: "RecoveryConfig \<Rightarrow> int" where
  "MaxRetriesOrDefault r = (if rc_MaxRetries r > 0 then rc_MaxRetries r else 2)"

definition RecoveryBudgetPctOrDefault :: "RecoveryConfig \<Rightarrow> rat" where
  "RecoveryBudgetPctOrDefault r = (if rc_RecoveryBudgetPct r > 0 then rc_RecoveryBudgetPct r else 25 / 100)"

record EngineConfig =
  ec_DefaultBudgetLimitUSD :: usd
  ec_DefaultMaxDepth :: int
  ec_DefaultMaxTasks :: int
  ec_MaxConcurrentTasks :: int
  ec_ExternalAgents :: bool
  ec_Scorer :: "SkillWeights option"
  ec_Recovery :: "RecoveryConfig option"

definition budgetLimit :: "EngineConfig \<Rightarrow> usd" where
  "budgetLimit c = (if ec_DefaultBudgetLimitUSD c > 0 then ec_DefaultBudgetLimitUSD c else 1)"

definition maxDepth :: "EngineConfig \<Rightarrow> int" where
  "maxDepth c = (if ec_DefaultMaxDepth c > 0 then ec_DefaultMaxDepth c else 5)"

definition maxTasks :: "EngineConfig \<Rightarrow> int" where
  "maxTasks c = (if ec_DefaultMaxTasks c > 0 then ec_DefaultMaxTasks c else 50)"

definition concurrency :: "EngineConfig \<Rightarrow> int" where
  "concurrency c = (if ec_MaxConcurrentTasks c > 0 then ec_MaxConcurrentTasks c else 5)"

record RecoveryDecision =
  rd_Action :: string
  rd_Reason :: string
  rd_Confidence :: rat

datatype sched_error =
    MarkingRunning store_error
  | MarkingCompleted store_error
  | CreatingAgent AgentRole string
  | AgentExecution AgentRole string
  | PlannerEmpty
  | NoTaskArray string
  | MalformedArray string
  | ParsingPlan string
  | EmptyPlan
  | InvalidPlan dag_error
  | TaskLimit int nat int
  | DepthLimit int int
  | PlanIndexPanic
  | BadRole nat string
  | CreatingTask nat store_error
  | StoreFailure store_error
  | WorkflowEnded WorkflowStatus string
  | WorkflowStopped
  | DiagEmpty
  | NoDecision string
  | UnknownAction string
  | NoOriginal
  | LoadingOriginal store_error
  | RetryNotAllowed
  | MarkingRecovering store_error
  | CreatingDiagnostician store_error
  | BudgetExceeded usd usd

record 'w outside =
  or_clock :: "nat \<Rightarrow> time"
  or_fresh :: "nat \<Rightarrow> uuid"
  or_cancelled :: "nat \<Rightarrow> bool"
  or_agents :: "AgentRole \<Rightarrow> string + ('w \<Rightarrow> AgentInput \<Rightarrow> (string + AgentOutput) \<times> 'w)"
  or_plan :: "string \<Rightarrow> string + TaskSpec list"
  or_decision :: "string \<Rightarrow> string + RecoveryDecision"
  or_ustr :: "uuid \<Rightarrow> string"
  or_text :: "sched_error \<Rightarrow> string"
  or_arrival :: "(Task \<times> (sched_error + AgentOutput)) list \<Rightarrow> (Task \<times> (sched_error + AgentOutput)) list"

record 'w sched =
  sc_store :: InMemoryStore
  sc_skills :: "InMemorySkillStore option"
  sc_world :: 'w
  sc_tick :: nat

definition clock :: "'w outside \<Rightarrow> 'w sched \<Rightarrow> time" where
  "clock orc s = or_clock orc (sc_tick s)"

definition draw :: "'w outside \<Rightarrow> 'w sched \<Rightarrow> uuid \<times> 'w sched" where
  "draw orc s = (or_fresh orc (sc_tick s), s\<lparr>sc_tick := Suc (sc_tick s)\<rparr>)"

definition upd_task :: "'w outside \<Rightarrow> 'w sched \<Rightarrow> Task \<Rightarrow> store_error option \<times> 'w sched" where
  "upd_task orc s t = (let (e, st) = UpdateTask (clock orc s) (sc_store s) t in (e, s\<lparr>sc_store := st\<rparr>))"

definition upd_flow :: "'w outside \<Rightarrow> 'w sched \<Rightarrow> Workflow \<Rightarrow> store_error option \<times> 'w sched" where
  "upd_flow orc s w = (let (e, st) = UpdateWorkflow (clock orc s) (sc_store s) w in (e, s\<lparr>sc_store := st\<rparr>))"

definition save_msg :: "'w sched \<Rightarrow> AgentMessage \<Rightarrow> 'w sched" where
  "save_msg s m = s\<lparr>sc_store := SaveMessage (sc_store s) m\<rparr>"

section \<open>Executing one task\<close>

definition record_skill :: "'w outside \<Rightarrow> 'w sched \<Rightarrow> uuid \<Rightarrow> Task \<Rightarrow> rat \<Rightarrow> usd \<Rightarrow> bool \<Rightarrow> 'w sched" where
  "record_skill orc s orgID t durationMS costUSD success =
     (let (i, s1) = draw orc s
      in s1\<lparr>sc_skills := map_option (\<lambda>st. RecordCompletion (or_ustr orc) i (clock orc s) st orgID t durationMS costUSD success) (sc_skills s1)\<rparr>)"

definition failTask :: "'w outside \<Rightarrow> 'w sched \<Rightarrow> Task \<Rightarrow> sched_error \<Rightarrow> Task \<times> 'w sched" where
  "failTask orc s t e =
     (let now = clock orc s;
          t' = t\<lparr>tk_Status := TaskFailed, tk_Error := or_text orc e, tk_CompletedAt := Some now, tk_UpdatedAt := now\<rparr>;
          s1 = snd (upd_task orc s t')
      in (t', if tk_WorkflowID t' \<noteq> 0 then record_skill orc s1 (tk_OrgID t') t' 0 0 False else s1))"

definition relevant :: "Task \<Rightarrow> AgentMessage \<Rightarrow> bool" where
  "relevant t m =
     (if (case msg_ToTaskID m of Some i \<Rightarrow> i = tk_ID t | None \<Rightarrow> False) then True
      else if msg_ToTaskID m = None \<and> tk_ParentTaskID t \<noteq> None \<and> Some (msg_FromTaskID m) = tk_ParentTaskID t then True
      else msg_MessageType m = MsgTaskResult \<and> tk_ParentTaskID t \<noteq> None)"

definition filterMessagesForTask :: "AgentMessage list \<Rightarrow> Task \<Rightarrow> AgentMessage list" where
  "filterMessagesForTask messages t = filter (relevant t) messages"

definition agent_input :: "'w sched \<Rightarrow> Workflow \<Rightarrow> Task \<Rightarrow> AgentInput" where
  "agent_input s w t =
     \<lparr>ain_WorkflowID = wf_ID w, ain_TaskID = tk_ID t, ain_UserID = wf_UserID w, ain_CorrelationID = wf_CorrelationID w,
      ain_Messages = filterMessagesForTask (ListMessages (sc_store s) (wf_ID w)) t, ain_Instruction = tk_Input t\<rparr>"

definition completeTask :: "'w outside \<Rightarrow> 'w sched \<Rightarrow> Workflow \<Rightarrow> Task \<Rightarrow> AgentOutput \<Rightarrow> (sched_error + AgentOutput) \<times> Task \<times> 'w sched" where
  "completeTask orc s w t output =
     (let (i, s1) = draw orc s;
          s2 = save_msg s1 \<lparr>msg_ID = i, msg_WorkflowID = wf_ID w, msg_FromTaskID = tk_ID t, msg_ToTaskID = None,
                 msg_FromRole = tk_AgentRole t, msg_ToRole = RoleOrchestrator, msg_MessageType = MsgTaskResult,
                 msg_Content = aout_Response output, msg_Artifacts = [], msg_CorrelationID = wf_CorrelationID w, msg_CreatedAt = clock orc s1\<rparr>;
          completedAt = clock orc s2;
          t' = t\<lparr>tk_Status := TaskCompleted, tk_Output := aout_Response output, tk_CompletedAt := Some completedAt,
                 tk_UpdatedAt := completedAt, tk_TokensUsed := aout_TokensUsed output, tk_CostUSD := aout_CostUSD output\<rparr>
      in case upd_task orc s2 t' of
           (Some e, s3) \<Rightarrow> (Inl (MarkingCompleted e), t', s3)
         | (None, s3) \<Rightarrow>
             (Inr output, t',
              (case tk_StartedAt t' of
                 None \<Rightarrow> s3
               | Some started \<Rightarrow> record_skill orc s3 (wf_OrgID w) t' (of_int (completedAt - started) / 1000000) (aout_CostUSD output) True)))"

definition executeTask :: "'w outside \<Rightarrow> 'w sched \<Rightarrow> Workflow \<Rightarrow> Task \<Rightarrow> (sched_error + AgentOutput) \<times> Task \<times> 'w sched" where
  "executeTask orc s w t =
     (let now = clock orc s;
          t1 = t\<lparr>tk_Status := TaskRunning, tk_StartedAt := Some now, tk_UpdatedAt := now\<rparr>
      in case upd_task orc s t1 of
           (Some e, s1) \<Rightarrow> (Inl (MarkingRunning e), t1, s1)
         | (None, s1) \<Rightarrow>
             (case or_agents orc (tk_AgentRole t1) of
                Inl e \<Rightarrow> let err = CreatingAgent (tk_AgentRole t1) e; (t2, s2) = failTask orc s1 t1 err in (Inl err, t2, s2)
              | Inr agent \<Rightarrow>
                  (case agent (sc_world s1) (agent_input s1 w t1) of
                     (Inl e, wld) \<Rightarrow>
                       let err = AgentExecution (tk_AgentRole t1) e; (t2, s2) = failTask orc (s1\<lparr>sc_world := wld\<rparr>) t1 err
                       in (Inl err, t2, s2)
                   | (Inr output, wld) \<Rightarrow> completeTask orc (s1\<lparr>sc_world := wld\<rparr>) w t1 output)))"

section \<open>Planner output\<close>

fun index_of :: "char \<Rightarrow> string \<Rightarrow> nat \<Rightarrow> int" where
  "index_of c [] i = -1"
| "index_of c (x # xs) i = (if x = c then int i else index_of c xs (Suc i))"

definition findJSONArrayStart :: "string \<Rightarrow> int" where
  "findJSONArrayStart s = index_of (CHR ''['') s 0"

text \<open>The scan for the matching bracket: \<open>i\<close> is the index of the next character.\<close>

fun array_end :: "string \<Rightarrow> nat \<Rightarrow> int \<Rightarrow> bool \<Rightarrow> bool \<Rightarrow> int" where
  "array_end [] i depth inString escaped = -1"
| "array_end (c # s) i depth inString escaped =
     (if escaped then array_end s (Suc i) depth inString False
      else if c = CHR 0x5C \<and> inString then array_end s (Suc i) depth inString True
      else if c = CHR 0x22 then array_end s (Suc i) depth (\<not> inString) False
      else if inString then array_end s (Suc i) depth inString False
      else if c = CHR ''['' then array_end s (Suc i) (depth + 1) inString False
      else if c = CHR '']'' then (if depth - 1 = 0 then int i else array_end s (Suc i) (depth - 1) inString False)
      else array_end s (Suc i) depth inString False)"

definition findJSONArrayEnd :: "string \<Rightarrow> nat \<Rightarrow> int" where
  "findJSONArrayEnd s start = array_end (drop start s) start 0 False False"

definition parsePlannerOutput :: "'w outside \<Rightarrow> AgentOutput \<Rightarrow> sched_error + TaskSpec list" where
  "parsePlannerOutput orc output =
     (let r = aout_Response output;
          nonempty = (\<lambda>specs. if length specs = 0 then Inl EmptyPlan else Inr specs)
      in if r = '''' then Inl PlannerEmpty
         else case or_plan orc r of
                Inr specs \<Rightarrow> nonempty specs
              | Inl err \<Rightarrow>
                  (let start = findJSONArrayStart r
                   in if start < 0 then Inl (NoTaskArray err)
                      else let fin = findJSONArrayEnd r (nat start)
                           in if fin < 0 then Inl (MalformedArray err)
                              else case or_plan orc (take (nat (fin + 1 - start)) (drop (nat start) r)) of
                                     Inl err2 \<Rightarrow> Inl (ParsingPlan err2)
                                   | Inr specs \<Rightarrow> nonempty specs))"

fun draw_ids :: "'w outside \<Rightarrow> nat \<Rightarrow> 'w sched \<Rightarrow> uuid list \<times> 'w sched" where
  "draw_ids orc 0 s = ([], s)"
| "draw_ids orc (Suc n) s = (let (i, s1) = draw orc s; (is, s2) = draw_ids orc n s1 in (i # is, s2))"

definition planned_task :: "Workflow \<Rightarrow> Task \<Rightarrow> time \<Rightarrow> uuid \<Rightarrow> uuid list \<Rightarrow> TaskSpec \<Rightarrow> Task" where
  "planned_task w planner now i deps spec =
     \<lparr>tk_ID = i, tk_WorkflowID = wf_ID w, tk_OrgID = wf_OrgID w, tk_ParentTaskID = Some (tk_ID planner),
      tk_AgentRole = ts_AgentRole spec, tk_Description = ts_Description spec, tk_Input = ts_Input spec, tk_Output = [],
      tk_Status = TaskPending, tk_Mode = (if ts_Mode spec = '''' then TaskModeSequential else ts_Mode spec),
      tk_Depth = tk_Depth planner + 1, tk_Priority = ts_Priority spec, tk_DependsOn = deps, tk_CreatedAt = now, tk_UpdatedAt = now,
      tk_StartedAt = None, tk_CompletedAt = None, tk_Error = [], tk_CostUSD = 0, tk_TokensUsed = 0, tk_ClaimedBy = [],
      tk_ClaimedAt = None, tk_RetryCount = 0, tk_MaxRetries = 0, tk_OriginalTaskID = None, tk_Metadata = None\<rparr>"

definition assignment_message :: "Workflow \<Rightarrow> Task \<Rightarrow> time \<Rightarrow> uuid \<Rightarrow> uuid \<Rightarrow> TaskSpec \<Rightarrow> AgentMessage" where
  "assignment_message w planner now mid i spec =
     \<lparr>msg_ID = mid, msg_WorkflowID = wf_ID w, msg_FromTaskID = tk_ID planner, msg_ToTaskID = Some i,
      msg_FromRole = RolePlanner, msg_ToRole = ts_AgentRole spec, msg_MessageType = MsgTaskAssignment,
      msg_Content = ts_Input spec, msg_Artifacts = [], msg_CorrelationID = wf_CorrelationID w, msg_CreatedAt = now\<rparr>"

fun create_planned ::
  "'w outside \<Rightarrow> Workflow \<Rightarrow> Task \<Rightarrow> time \<Rightarrow> (nat \<rightharpoonup> uuid list) \<Rightarrow> nat \<Rightarrow> (TaskSpec \<times> uuid) list \<Rightarrow> 'w sched \<Rightarrow> sched_error option \<times> 'w sched" where
  "create_planned orc w planner now deps i [] s = (None, s)"
| "create_planned orc w planner now deps i ((spec, tid) # rest) s =
     (case ValidateRole (ts_AgentRole spec) of
        Some e \<Rightarrow> (Some (BadRole i e), s)
      | None \<Rightarrow>
          (case CreateTask (sc_store s) (planned_task w planner now tid (case deps i of None \<Rightarrow> [] | Some ds \<Rightarrow> ds) spec) of
             (Some e, st) \<Rightarrow> (Some (CreatingTask i e), s\<lparr>sc_store := st\<rparr>)
           | (None, st) \<Rightarrow>
               (let (mid, s1) = draw orc (s\<lparr>sc_store := st\<rparr>)
                in create_planned orc w planner now deps (Suc i) rest (save_msg s1 (assignment_message w planner now mid tid spec)))))"

definition handlePlannerOutput ::
  "'w outside \<Rightarrow> 'w sched \<Rightarrow> Workflow \<Rightarrow> Task \<Rightarrow> AgentOutput \<Rightarrow> sched_error option \<times> Workflow \<times> 'w sched" where
  "handlePlannerOutput orc s w planner output =
     (case parsePlannerOutput orc output of
        Inl e \<Rightarrow> (Some e, w, s)
      | Inr specs \<Rightarrow>
          (case ValidateDAG specs of
             Some e \<Rightarrow> (Some (InvalidPlan e), w, s)
           | None \<Rightarrow>
               if wf_TaskCount w + int (length specs) > wf_MaxTasks w
               then (Some (TaskLimit (wf_TaskCount w) (length specs) (wf_MaxTasks w)), w, s)
               else if tk_Depth planner + 1 \<ge> wf_MaxDepth w
               then (Some (DepthLimit (tk_Depth planner + 1) (wf_MaxDepth w)), w, s)
               else let (ids, s1) = draw_ids orc (length specs) s
                    in case ResolveDependencies specs ids of
                         None \<Rightarrow> (Some PlanIndexPanic, w, s1)
                       | Some deps \<Rightarrow>
                           (let now = clock orc s1
                            in case create_planned orc w planner now deps 0 (zip specs ids) s1 of
                                 (Some e, s2) \<Rightarrow> (Some e, w, s2)
                               | (None, s2) \<Rightarrow>
                                   (let w' = w\<lparr>wf_TaskCount := wf_TaskCount w + int (length specs), wf_UpdatedAt := now\<rparr>;
                                        (e, s3) = upd_flow orc s2 w'
                                    in (map_option StoreFailure e, w', s3)))))"

section \<open>Finishing and cancelling\<close>

definition finishWorkflow ::
  "'w outside \<Rightarrow> 'w sched \<Rightarrow> Workflow \<Rightarrow> WorkflowStatus \<Rightarrow> string \<Rightarrow> sched_error option \<times> Workflow \<times> 'w sched" where
  "finishWorkflow orc s w status errMsg =
     (let now = clock orc s;
          w' = w\<lparr>wf_Status := status, wf_CompletedAt := Some now, wf_UpdatedAt := now, wf_Error := errMsg\<rparr>
      in case upd_flow orc s w' of
           (Some e, s1) \<Rightarrow> (Some (StoreFailure e), w', s1)
         | (None, s1) \<Rightarrow> (if errMsg \<noteq> '''' then Some (WorkflowEnded status errMsg) else None, w', s1))"

fun skip_open :: "'w outside \<Rightarrow> Task list \<Rightarrow> 'w sched \<Rightarrow> 'w sched" where
  "skip_open orc [] s = s"
| "skip_open orc (t # ts) s =
     (if tk_Status t = TaskPending \<or> tk_Status t = TaskBlocked
      then skip_open orc ts (snd (upd_task orc s (t\<lparr>tk_Status := TaskSkipped, tk_UpdatedAt := clock orc s\<rparr>)))
      else skip_open orc ts s)"

definition cancelWorkflow :: "'w outside \<Rightarrow> 'w sched \<Rightarrow> Workflow \<Rightarrow> sched_error option \<times> Workflow \<times> 'w sched" where
  "cancelWorkflow orc s w =
     (let now = clock orc s;
          s1 = skip_open orc (ListTasksByWorkflow (sc_store s) (wf_ID w)) s;
          w' = w\<lparr>wf_Status := WorkflowCancelled, wf_CompletedAt := Some now, wf_UpdatedAt := now, wf_Error := or_text orc WorkflowStopped\<rparr>
      in (Some WorkflowStopped, w', snd (upd_flow orc s1 w')))"

section \<open>Recovery\<close>

definition countByStatus :: "Task list \<Rightarrow> TaskStatus \<Rightarrow> nat" where
  "countByStatus ts status = length (filter (\<lambda>t. tk_Status t = status) ts)"

definition recoverySpent :: "'w sched \<Rightarrow> Workflow \<Rightarrow> usd" where
  "recoverySpent s w = sum_list (map tk_CostUSD (filter (\<lambda>t. tk_AgentRole t = RoleDiagnostician)
     (ListTasksByWorkflow (sc_store s) (wf_ID w))))"

definition max_retries :: "RecoveryConfig \<Rightarrow> Task \<Rightarrow> int" where
  "max_retries rc t = (if tk_MaxRetries t \<le> 0 then MaxRetriesOrDefault rc else tk_MaxRetries t)"

definition shouldAttemptRecovery :: "EngineConfig \<Rightarrow> 'w sched \<Rightarrow> Workflow \<Rightarrow> Task \<Rightarrow> bool" where
  "shouldAttemptRecovery cfg s w t =
     (case ec_Recovery cfg of
        None \<Rightarrow> False
      | Some rc \<Rightarrow>
          if \<not> rc_Enabled rc then False
          else if tk_RetryCount t \<ge> max_retries rc t then False
          else if (let recoveryBudget = wf_BudgetLimitUSD w * RecoveryBudgetPctOrDefault rc
                   in recoveryBudget > 0 \<and> recoverySpent s w \<ge> recoveryBudget) then False
          else if tk_Depth t + 1 \<ge> wf_MaxDepth w then False
          else if wf_TaskCount w + 1 > wf_MaxTasks w then False
          else True)"

definition buildDiagnosticInput :: "'w outside \<Rightarrow> Task \<Rightarrow> string" where
  "buildDiagnosticInput orc t =
     (let nl = [CHR 0x0A]; maxRetries = (if tk_MaxRetries t \<le> 0 then 2 else tk_MaxRetries t)
      in ''## Failed Task Analysis'' @ nl @ nl @ ''**Task ID**: '' @ or_ustr orc (tk_ID t) @ nl @
         ''**Role**: '' @ tk_AgentRole t @ nl @ ''**Description**: '' @ tk_Description t @ nl @
         ''**Input**: '' @ tk_Input t @ nl @ nl @ ''**Error**: '' @ tk_Error t @ nl @ nl @
         ''**Retry Count**: '' @ int_str (tk_RetryCount t) @ nl @ ''**Max Retries**: '' @ int_str maxRetries @ nl @ nl @
         (if tk_Output t \<noteq> '''' then ''**Partial Output**:'' @ nl @ tk_Output t @ nl @ nl else '''') @
         ''Analyze this failure and recommend a recovery action.'' @ nl)"

definition diagnostician_task :: "'w outside \<Rightarrow> Workflow \<Rightarrow> Task \<Rightarrow> time \<Rightarrow> uuid \<Rightarrow> Task" where
  "diagnostician_task orc w failed now i =
     \<lparr>tk_ID = i, tk_WorkflowID = wf_ID w, tk_OrgID = wf_OrgID w, tk_ParentTaskID = tk_ParentTaskID failed,
      tk_AgentRole = RoleDiagnostician, tk_Description = ''Diagnose failure: '' @ tk_Description failed,
      tk_Input = buildDiagnosticInput orc failed, tk_Output = [], tk_Status = TaskPending, tk_Mode = TaskModeSequential,
      tk_Depth = tk_Depth failed + 1, tk_Priority = 0, tk_DependsOn = [], tk_CreatedAt = now, tk_UpdatedAt = now,
      tk_StartedAt = None, tk_CompletedAt = None, tk_Error = [], tk_CostUSD = 0, tk_TokensUsed = 0, tk_ClaimedBy = [],
      tk_ClaimedAt = None, tk_RetryCount = 0, tk_MaxRetries = 0, tk_OriginalTaskID = Some (tk_ID failed), tk_Metadata = None\<rparr>"

definition logRecoveryEvent :: "'w outside \<Rightarrow> 'w sched \<Rightarrow> Workflow \<Rightarrow> Task \<Rightarrow> Task \<Rightarrow> string \<Rightarrow> 'w sched" where
  "logRecoveryEvent orc s w failed diag result =
     (let (mid, s1) = draw orc s
      in save_msg s1 \<lparr>msg_ID = mid, msg_WorkflowID = wf_ID w, msg_FromTaskID = tk_ID diag, msg_ToTaskID = Some (tk_ID failed),
           msg_FromRole = RoleDiagnostician, msg_ToRole = tk_AgentRole failed, msg_MessageType = MsgRecoveryResult,
           msg_Content = result, msg_Artifacts = [], msg_CorrelationID = wf_CorrelationID w, msg_CreatedAt = clock orc s1\<rparr>)"

definition initiateRecovery :: "'w outside \<Rightarrow> 'w sched \<Rightarrow> Workflow \<Rightarrow> Task \<Rightarrow> sched_error option \<times> Workflow \<times> 'w sched" where
  "initiateRecovery orc s w failed =
     (let now = clock orc s; t1 = failed\<lparr>tk_Status := TaskRecovering, tk_UpdatedAt := now\<rparr>
      in case upd_task orc s t1 of
           (Some e, s1) \<Rightarrow> (Some (MarkingRecovering e), w, s1)
         | (None, s1) \<Rightarrow>
             (let (i, s2) = draw orc s1; diag = diagnostician_task orc w t1 now i
              in case CreateTask (sc_store s2) diag of
                   (Some e, st) \<Rightarrow>
                     (Some (CreatingDiagnostician e), w, snd (upd_task orc (s2\<lparr>sc_store := st\<rparr>) (t1\<lparr>tk_Status := TaskFailed\<rparr>)))
                 | (None, st) \<Rightarrow>
                     (let w' = w\<lparr>wf_TaskCount := wf_TaskCount w + 1, wf_UpdatedAt := now\<rparr>;
                          s3 = snd (upd_flow orc (s2\<lparr>sc_store := st\<rparr>) w')
                      in (None, w', logRecoveryEvent orc s3 w' t1 diag ''recovery_initiated''))))"

fun last_index_of :: "char \<Rightarrow> string \<Rightarrow> nat \<Rightarrow> int \<Rightarrow> int" where
  "last_index_of c [] i found = found"
| "last_index_of c (x # xs) i found = last_index_of c xs (Suc i) (if x = c then int i else found)"

definition check_decision :: "RecoveryDecision \<Rightarrow> sched_error + RecoveryDecision" where
  "check_decision d =
     (if rd_Action d \<notin> {''retry'', ''escalate'', ''skip''} then Inl (UnknownAction (rd_Action d))
      else if rd_Confidence d < 5 / 10 \<and> rd_Action d = ''retry''
      then Inr (d\<lparr>rd_Action := ''escalate'', rd_Reason := rd_Reason d @ '' [overridden: confidence too low for automatic retry]''\<rparr>)
      else Inr d)"

definition parseRecoveryDecision :: "'w outside \<Rightarrow> AgentOutput \<Rightarrow> sched_error + RecoveryDecision" where
  "parseRecoveryDecision orc output =
     (let r = aout_Response output
      in if r = '''' then Inl DiagEmpty
         else case or_decision orc r of
                Inr d \<Rightarrow> check_decision d
              | Inl err \<Rightarrow>
                  (let start = index_of (CHR ''{'') r 0; fin = last_index_of (CHR ''}'') r 0 (-1)
                   in if start < 0 \<or> fin \<le> start then Inl (NoDecision err)
                      else case or_decision orc (take (nat (fin + 1 - start)) (drop (nat start) r)) of
                             Inl err2 \<Rightarrow> Inl (NoDecision err2)
                           | Inr d \<Rightarrow> check_decision d))"

definition recoveryFailed :: "'w outside \<Rightarrow> 'w sched \<Rightarrow> Task \<Rightarrow> sched_error \<Rightarrow> sched_error option \<times> 'w sched" where
  "recoveryFailed orc s diag e =
     (case tk_OriginalTaskID diag of
        None \<Rightarrow> (Some e, s)
      | Some i \<Rightarrow>
          (case GetTask (sc_store s) i of
             Inl _ \<Rightarrow> (Some e, s)
           | Inr original \<Rightarrow>
               (Some e, snd (upd_task orc s (original\<lparr>tk_Status := TaskFailed, tk_UpdatedAt := clock orc s\<rparr>)))))"

definition retryTask :: "'w outside \<Rightarrow> 'w sched \<Rightarrow> Task \<Rightarrow> sched_error option \<times> 'w sched" where
  "retryTask orc s t =
     (let (e, s1) = upd_task orc s (t\<lparr>tk_Status := TaskPending, tk_Error := [], tk_Output := [], tk_RetryCount := tk_RetryCount t + 1,
            tk_StartedAt := None, tk_CompletedAt := None, tk_ClaimedBy := [], tk_ClaimedAt := None, tk_UpdatedAt := clock orc s\<rparr>)
      in (map_option StoreFailure e, s1))"

definition set_status :: "'w outside \<Rightarrow> 'w sched \<Rightarrow> Task \<Rightarrow> TaskStatus \<Rightarrow> sched_error option \<times> 'w sched" where
  "set_status orc s t st =
     (let (e, s1) = upd_task orc s (t\<lparr>tk_Status := st, tk_UpdatedAt := clock orc s\<rparr>) in (map_option StoreFailure e, s1))"

definition handleDiagnosticianOutput ::
  "'w outside \<Rightarrow> EngineConfig \<Rightarrow> 'w sched \<Rightarrow> Workflow \<Rightarrow> Task \<Rightarrow> AgentOutput \<Rightarrow> sched_error option \<times> 'w sched" where
  "handleDiagnosticianOutput orc cfg s w diag output =
     (case parseRecoveryDecision orc output of
        Inl e \<Rightarrow> recoveryFailed orc s diag e
      | Inr decision \<Rightarrow>
          (case tk_OriginalTaskID diag of
             None \<Rightarrow> (Some NoOriginal, s)
           | Some i \<Rightarrow>
               (case GetTask (sc_store s) i of
                  Inl e \<Rightarrow> (Some (LoadingOriginal e), s)
                | Inr original \<Rightarrow>
                    (let s1 = logRecoveryEvent orc s w original diag (''recovery_decision_'' @ rd_Action decision)
                     in if rd_Action decision = ''retry''
                        then (if (case ec_Recovery cfg of None \<Rightarrow> False | Some rc \<Rightarrow> \<not> rc_AllowRetry rc)
                              then recoveryFailed orc s1 diag RetryNotAllowed else retryTask orc s1 original)
                        else if rd_Action decision = ''escalate'' then set_status orc s1 original TaskFailed
                        else if rd_Action decision = ''skip'' then set_status orc s1 original TaskSkipped
                        else recoveryFailed orc s1 diag (UnknownAction (rd_Action decision))))))"

section \<open>The scheduling loop\<close>

definition reorderBySkillScore :: "'w outside \<Rightarrow> EngineConfig \<Rightarrow> 'w sched \<Rightarrow> uuid \<Rightarrow> Task list \<Rightarrow> Task list" where
  "reorderBySkillScore orc cfg s orgID tasks =
     (case (ec_Scorer cfg, sc_skills s) of
        (Some weights, Some st) \<Rightarrow>
          if length tasks \<le> 1 then tasks
          else let scores = ScoreTasks (or_ustr orc) \<lparr>scr_store = st, scr_weights = weights\<rparr> orgID tasks;
                   score = (\<lambda>i. case map_of (rev scores) i of None \<Rightarrow> 0 | Some x \<Rightarrow> x)
               in sort_key (\<lambda>t. (tk_Priority t, - score (tk_ID t))) tasks
      | _ \<Rightarrow> tasks)"

fun run_batch :: "'w outside \<Rightarrow> Workflow \<Rightarrow> Task list \<Rightarrow> 'w sched \<Rightarrow> (Task \<times> (sched_error + AgentOutput)) list \<times> 'w sched" where
  "run_batch orc w [] s = ([], s)"
| "run_batch orc w (t # ts) s =
     (let (res, t', s1) = executeTask orc s w t; (rest, s2) = run_batch orc w ts s1 in ((t', res) # rest, s2))"

fun handle_results ::
  "'w outside \<Rightarrow> EngineConfig \<Rightarrow> (Task \<times> (sched_error + AgentOutput)) list \<Rightarrow> Workflow \<Rightarrow> 'w sched \<Rightarrow> Workflow \<times> 'w sched" where
  "handle_results orc cfg [] w s = (w, s)"
| "handle_results orc cfg ((t, Inl e) # rest) w s = handle_results orc cfg rest w s"
| "handle_results orc cfg ((t, Inr output) # rest) w s =
     (let (w1, s1) = (if tk_AgentRole t = RolePlanner then snd (handlePlannerOutput orc s w t output) else (w, s));
          s2 = (if tk_AgentRole t = RoleDiagnostician then snd (handleDiagnosticianOutput orc cfg s1 w1 t output) else s1)
      in handle_results orc cfg rest (w1\<lparr>wf_BudgetSpentUSD := wf_BudgetSpentUSD w1 + aout_CostUSD output\<rparr>) s2)"

fun recover_failed ::
  "'w outside \<Rightarrow> EngineConfig \<Rightarrow> Task list \<Rightarrow> Workflow \<Rightarrow> 'w sched \<Rightarrow> bool \<times> Workflow \<times> 'w sched" where
  "recover_failed orc cfg [] w s = (False, w, s)"
| "recover_failed orc cfg (t # ts) w s =
     (if tk_Status t = TaskFailed \<and> shouldAttemptRecovery cfg s w t
      then (let (e, w1, s1) = initiateRecovery orc s w t; (b, w2, s2) = recover_failed orc cfg ts w1 s1
            in (b \<or> e = None, w2, s2))
      else recover_failed orc cfg ts w s)"

definition wait :: "'w sched \<Rightarrow> 'w sched" where
  "wait s = s\<lparr>sc_tick := Suc (sc_tick s)\<rparr>"

text \<open>
  One round of the loop. The first component is \<open>None\<close> when the loop goes on and \<open>Some r\<close> when it
  returns \<open>r\<close>.
\<close>

definition quiescent ::
  "'w outside \<Rightarrow> EngineConfig \<Rightarrow> 'w sched \<Rightarrow> Workflow \<Rightarrow> Task list \<Rightarrow> sched_error option option \<times> Workflow \<times> 'w sched" where
  "quiescent orc cfg s w allTasks =
     (let failed = countByStatus allTasks TaskFailed;
          recovery = (case ec_Recovery cfg of None \<Rightarrow> False | Some rc \<Rightarrow> rc_Enabled rc);
          (attempted, w1, s1) = (if failed > 0 \<and> recovery then recover_failed orc cfg allTasks w s else (False, w, s))
      in if attempted then (None, w1, s1)
         else let (e, w2, s2) = (if failed > 0 then finishWorkflow orc s1 w1 WorkflowFailed (nat_str failed @ '' task(s) failed'')
                                 else finishWorkflow orc s1 w1 WorkflowCompleted '''')
              in (Some e, w2, s2))"

definition dispatch ::
  "'w outside \<Rightarrow> EngineConfig \<Rightarrow> 'w sched \<Rightarrow> Workflow \<Rightarrow> Task list \<Rightarrow> sched_error option option \<times> Workflow \<times> 'w sched" where
  "dispatch orc cfg s w batch =
     (let (results, s1) = run_batch orc w batch s;
          (w1, s2) = handle_results orc cfg (or_arrival orc results) w s1;
          w2 = (case GetWorkflow (sc_store s2) (wf_ID w1) of Inr latest \<Rightarrow> latest | Inl _ \<Rightarrow> w1)
      in if wf_BudgetLimitUSD w2 > 0 \<and> wf_BudgetSpentUSD w2 > wf_BudgetLimitUSD w2
         then (let (e, w3, s3) = finishWorkflow orc s2 w2 WorkflowFailed (or_text orc (BudgetExceeded (wf_BudgetSpentUSD w2) (wf_BudgetLimitUSD w2)))
               in (Some e, w3, s3))
         else (None, w2, s2))"

definition iterate ::
  "'w outside \<Rightarrow> EngineConfig \<Rightarrow> 'w sched \<Rightarrow> Workflow \<Rightarrow> sched_error option option \<times> Workflow \<times> 'w sched" where
  "iterate orc cfg s w =
     (if or_cancelled orc (sc_tick s) then (let (e, w1, s1) = cancelWorkflow orc s w in (Some e, w1, s1))
      else let ready = reorderBySkillScore orc cfg s (wf_OrgID w) (GetReadyTasks (sc_store s) (wf_ID w));
               allTasks = ListTasksByWorkflow (sc_store s) (wf_ID w);
               running = countByStatus allTasks TaskRunning;
               recovering = countByStatus allTasks TaskRecovering;
               slots = concurrency cfg - int running
           in if ready = [] \<and> running = 0 \<and> recovering = 0 then quiescent orc cfg s w allTasks
              else if ready = [] then (None, w, wait s)
              else if slots \<le> 0 then (None, w, wait s)
              else dispatch orc cfg s w (take (nat slots) ready))"

fun run :: "nat \<Rightarrow> 'w outside \<Rightarrow> EngineConfig \<Rightarrow> 'w sched \<Rightarrow> Workflow \<Rightarrow> sched_error option option \<times> Workflow \<times> 'w sched" where
  "run 0 orc cfg s w = (None, w, s)"
| "run (Suc n) orc cfg s w =
     (case iterate orc cfg s w of
        (Some r, w1, s1) \<Rightarrow> (Some r, w1, s1)
      | (None, w1, s1) \<Rightarrow> run n orc cfg s1 w1)"

section \<open>Submission\<close>

definition new_workflow :: "EngineConfig \<Rightarrow> WorkflowRequest \<Rightarrow> time \<Rightarrow> uuid \<Rightarrow> Workflow" where
  "new_workflow cfg req now wid =
     \<lparr>wf_ID = wid, wf_OrgID = wr_OrgID req, wf_UserID = wr_UserID req, wf_CorrelationID = wr_CorrelationID req,
      wf_Goal = wr_Goal req, wf_Status = WorkflowPending, wf_RootTaskID = None,
      wf_BudgetLimitUSD = (if wr_BudgetLimitUSD req \<le> 0 then budgetLimit cfg else wr_BudgetLimitUSD req),
      wf_BudgetSpentUSD = 0, wf_MaxDepth = (if wr_MaxDepth req \<le> 0 then maxDepth cfg else wr_MaxDepth req),
      wf_MaxTasks = (if wr_MaxTasks req \<le> 0 then maxTasks cfg else wr_MaxTasks req), wf_TaskCount = 0,
      wf_CreatedAt = now, wf_UpdatedAt = now, wf_CompletedAt = None, wf_Error = [], wf_Metadata = None\<rparr>"

definition root_task :: "WorkflowRequest \<Rightarrow> time \<Rightarrow> uuid \<Rightarrow> uuid \<Rightarrow> Task" where
  "root_task req now wid tid =
     \<lparr>tk_ID = tid, tk_WorkflowID = wid, tk_OrgID = wr_OrgID req, tk_ParentTaskID = None, tk_AgentRole = RolePlanner,
      tk_Description = ''Decompose goal into sub-tasks'', tk_Input = wr_Goal req, tk_Output = [], tk_Status = TaskPending,
      tk_Mode = TaskModeSequential, tk_Depth = 0, tk_Priority = 0, tk_DependsOn = [], tk_CreatedAt = now, tk_UpdatedAt = now,
      tk_StartedAt = None, tk_CompletedAt = None, tk_Error = [], tk_CostUSD = 0, tk_TokensUsed = 0, tk_ClaimedBy = [],
      tk_ClaimedAt = None, tk_RetryCount = 0, tk_MaxRetries = 0, tk_OriginalTaskID = None, tk_Metadata = None\<rparr>"

definition Submit ::
  "'w outside \<Rightarrow> EngineConfig \<Rightarrow> 'w sched \<Rightarrow> WorkflowRequest \<Rightarrow> (sched_error + Workflow) \<times> 'w sched" where
  "Submit orc cfg s req =
     (let now = clock orc s; (wid, s1) = draw orc s; w = new_workflow cfg req now wid
      in case CreateWorkflow (sc_store s1) w of
           (Some e, st) \<Rightarrow> (Inl (StoreFailure e), s1\<lparr>sc_store := st\<rparr>)
         | (None, st) \<Rightarrow>
             (let (tid, s2) = draw orc (s1\<lparr>sc_store := st\<rparr>)
              in case CreateTask (sc_store s2) (root_task req now wid tid) of
                   (Some e, st2) \<Rightarrow> (Inl (StoreFailure e), s2\<lparr>sc_store := st2\<rparr>)
                 | (None, st2) \<Rightarrow>
                     (let w' = w\<lparr>wf_RootTaskID := Some tid, wf_TaskCount := 1, wf_Status := WorkflowRunning, wf_UpdatedAt := now\<rparr>
                      in case upd_flow orc (s2\<lparr>sc_store := st2\<rparr>) w' of
                           (Some e, s3) \<Rightarrow> (Inl (StoreFailure e), s3)
                         | (None, s3) \<Rightarrow> (Inr w', s3))))"

end
