(* ===== verification/TaskMachine.thy ===== *)
theory TaskMachine
  imports Scheduler
begin

text \<open>
  What the scheduler promises, without its loops: a transition system on the task rows of one
  workflow. A state is the map of the stored tasks together with the set of completed
  diagnosticians whose decision has not been applied yet. The rules are the life cycle of a task
  (planned, started, completed, failed, under recovery, decided, skipped); the invariant \<open>machine_ok\<close>
  gives the ordering and the bounds. The theory \<open>SchedulerRuns\<close> shows that the code refines it.
\<close>

type_synonym machine = "(uuid \<Rightarrow> Task option) \<times> uuid set"

definition same_task :: "Task \<Rightarrow> Task \<Rightarrow> bool" where
  "same_task t t' \<longleftrightarrow> tk_ID t' = tk_ID t \<and> tk_WorkflowID t' = tk_WorkflowID t \<and> tk_AgentRole t' = tk_AgentRole t \<and>
     tk_Depth t' = tk_Depth t \<and> tk_DependsOn t' = tk_DependsOn t \<and> tk_OriginalTaskID t' = tk_OriginalTaskID t \<and>
     tk_MaxRetries t' = tk_MaxRetries t"

definition deps_done :: "(uuid \<Rightarrow> Task option) \<Rightarrow> uuid \<Rightarrow> Task \<Rightarrow> bool" where
  "deps_done m W t \<longleftrightarrow>
     (\<forall>d \<in> set (tk_DependsOn t). \<exists>u. m d = Some u \<and> tk_WorkflowID u = W \<and> tk_Status u = TaskCompleted)"

definition retry_cap :: "RecoveryConfig option \<Rightarrow> Task \<Rightarrow> int" where
  "retry_cap rc t = (case rc of None \<Rightarrow> 0 | Some r \<Rightarrow> max_retries r t)"

inductive task_step :: "RecoveryConfig option \<Rightarrow> uuid \<Rightarrow> int \<Rightarrow> machine \<Rightarrow> machine \<Rightarrow> bool" for rc W D where
  plan: "\<lbrakk>m (tk_ID t) = None; tk_WorkflowID t = W; tk_Status t = TaskPending; tk_OriginalTaskID t = None;
          tk_RetryCount t = 0; tk_Depth t < D\<rbrakk> \<Longrightarrow> task_step rc W D (m, H) (m(tk_ID t \<mapsto> t), H)"
| start: "\<lbrakk>m i = Some t; tk_WorkflowID t = W; tk_Status t \<in> {TaskPending, TaskBlocked}; deps_done m W t; same_task t t';
           tk_Status t' = TaskRunning; tk_RetryCount t' = tk_RetryCount t\<rbrakk> \<Longrightarrow> task_step rc W D (m, H) (m(i \<mapsto> t'), H)"
| complete: "\<lbrakk>m i = Some t; tk_WorkflowID t = W; tk_Status t = TaskRunning; same_task t t'; tk_Status t' = TaskCompleted;
              tk_RetryCount t' = tk_RetryCount t\<rbrakk>
     \<Longrightarrow> task_step rc W D (m, H) (m(i \<mapsto> t'), if tk_OriginalTaskID t = None then H else insert i H)"
| fail: "\<lbrakk>m i = Some t; tk_WorkflowID t = W; tk_Status t \<in> {TaskRunning, TaskFailed}; same_task t t'; tk_Status t' = TaskFailed;
          tk_RetryCount t' = tk_RetryCount t\<rbrakk> \<Longrightarrow> task_step rc W D (m, H) (m(i \<mapsto> t'), H)"
| skip: "\<lbrakk>m i = Some t; tk_WorkflowID t = W; tk_Status t \<in> {TaskPending, TaskBlocked}; same_task t t'; tk_Status t' = TaskSkipped;
          tk_RetryCount t' = tk_RetryCount t\<rbrakk> \<Longrightarrow> task_step rc W D (m, H) (m(i \<mapsto> t'), H)"
| recover: "\<lbrakk>m i = Some t; tk_WorkflowID t = W; tk_Status t = TaskFailed; tk_RetryCount t < retry_cap rc t; same_task t t';
             tk_Status t' = TaskRecovering; tk_RetryCount t' = tk_RetryCount t; m (tk_ID d) = None; tk_WorkflowID d = W;
             tk_Status d = TaskPending; tk_AgentRole d = RoleDiagnostician; tk_OriginalTaskID d = Some i; tk_RetryCount d = 0;
             tk_DependsOn d = []; tk_Depth d < D\<rbrakk> \<Longrightarrow> task_step rc W D (m, H) (m(i \<mapsto> t', tk_ID d \<mapsto> d), H)"
| decide: "\<lbrakk>d \<in> H; m d = Some u; tk_OriginalTaskID u = Some i; m i = Some t; same_task t t';
            tk_Status t' \<in> {TaskPending, TaskFailed, TaskSkipped};
            tk_RetryCount t' = tk_RetryCount t + (if tk_Status t' = TaskPending then 1 else 0)\<rbrakk>
     \<Longrightarrow> task_step rc W D (m, H) (m(i \<mapsto> t'), H - {d})"

section \<open>Invariant\<close>

text \<open>A diagnostician is live until it is skipped or its decision has been applied.\<close>

definition live :: "uuid set \<Rightarrow> Task \<Rightarrow> bool" where
  "live H d \<longleftrightarrow> tk_OriginalTaskID d \<noteq> None \<and> tk_Status d \<noteq> TaskSkipped \<and> (tk_Status d = TaskCompleted \<longrightarrow> tk_ID d \<in> H)"

definition row_ok :: "RecoveryConfig option \<Rightarrow> uuid \<Rightarrow> int \<Rightarrow> (uuid \<Rightarrow> Task option) \<Rightarrow> Task \<Rightarrow> bool" where
  "row_ok rc W D m t \<longleftrightarrow> tk_Depth t < D \<and> tk_RetryCount t \<le> retry_cap rc t \<and>
     (tk_Status t = TaskRecovering \<longrightarrow> tk_RetryCount t < retry_cap rc t) \<and>
     (tk_Status t \<notin> {TaskPending, TaskBlocked, TaskSkipped} \<longrightarrow> deps_done m W t) \<and>
     (tk_OriginalTaskID t \<noteq> None \<longrightarrow> tk_AgentRole t = RoleDiagnostician)"

definition recovery_ok :: "uuid \<Rightarrow> uuid set \<Rightarrow> (uuid \<Rightarrow> Task option) \<Rightarrow> bool" where
  "recovery_ok W H m \<longleftrightarrow>
     (\<forall>i t j. m i = Some t \<and> tk_WorkflowID t = W \<and> tk_OriginalTaskID t = Some j \<and> live H t \<longrightarrow>
        (\<exists>u. m j = Some u \<and> tk_WorkflowID u = W \<and> tk_Status u = TaskRecovering)) \<and>
     (\<forall>i t i' t'. m i = Some t \<and> tk_WorkflowID t = W \<and> m i' = Some t' \<and> tk_WorkflowID t' = W \<and>
        tk_OriginalTaskID t = tk_OriginalTaskID t' \<and> live H t \<and> live H t' \<longrightarrow> i = i')"

definition machine_ok :: "RecoveryConfig option \<Rightarrow> uuid \<Rightarrow> int \<Rightarrow> machine \<Rightarrow> bool" where
  "machine_ok rc W D = (\<lambda>(m, H).
     (\<forall>i t. m i = Some t \<longrightarrow> tk_ID t = i) \<and>
     (\<forall>i t. m i = Some t \<and> tk_WorkflowID t = W \<longrightarrow> row_ok rc W D m t) \<and>
     (\<forall>d \<in> H. \<exists>t. m d = Some t \<and> tk_WorkflowID t = W \<and> tk_Status t = TaskCompleted \<and> tk_OriginalTaskID t \<noteq> None) \<and>
     recovery_ok W H m)"

lemma machine_okD:
  assumes "machine_ok rc W D (m, H)"
  shows "m i = Some t \<Longrightarrow> tk_ID t = i"
    and "m i = Some t \<Longrightarrow> tk_WorkflowID t = W \<Longrightarrow> row_ok rc W D m t"
    and "d \<in> H \<Longrightarrow> \<exists>t. m d = Some t \<and> tk_WorkflowID t = W \<and> tk_Status t = TaskCompleted \<and> tk_OriginalTaskID t \<noteq> None"
    and "recovery_ok W H m"
  using assms by (auto simp: machine_ok_def)

text \<open>The original of a diagnostician whose decision is pending is under recovery.\<close>

lemma decided_original:
  assumes ok: "machine_ok rc W D (m, H)" and "d \<in> H" "m d = Some u" "tk_OriginalTaskID u = Some i"
  shows "\<exists>t. m i = Some t \<and> tk_WorkflowID t = W \<and> tk_Status t = TaskRecovering"
proof -
  have u: "tk_WorkflowID u = W" "tk_Status u = TaskCompleted" "tk_ID u = d"
    using machine_okD(1,3)[OF ok] assms(2,3) by force+
  then have "live H u" using assms by (simp add: live_def)
  then show ?thesis using machine_okD(4)[OF ok] assms(3,4) u unfolding recovery_ok_def by blast
qed

lemma completed_row_final:
  assumes "machine_ok rc W D (m, H)" "task_step rc W D (m, H) (m', H')" "m i = Some t" "tk_Status t = TaskCompleted"
  shows "m' i = Some t"
  using assms(2)
proof cases
  case (decide d u j r r')
  then have "j \<noteq> i" using decided_original[OF assms(1), of d u j] assms(3,4) by auto
  then show ?thesis using decide assms(3) by simp
qed (use assms(3,4) in auto)

lemma step_foreign_row:
  assumes "machine_ok rc W D (m, H)" "task_step rc W D (m, H) (m', H')"
    and "(\<exists>t. m i = Some t \<and> tk_WorkflowID t \<noteq> W) \<or> (\<exists>t. m' i = Some t \<and> tk_WorkflowID t \<noteq> W)"
  shows "m' i = m i"
  using assms(2)
proof cases
  case (decide d u j r r')
  then obtain r0 where "m j = Some r0" "tk_WorkflowID r0 = W" using decided_original[OF assms(1), of d u j] by auto
  then show ?thesis using decide assms(3) by (auto simp: same_task_def split: if_splits)
qed (use assms(3) in \<open>auto simp: same_task_def split: if_splits\<close>)

lemma deps_done_mono:
  assumes "deps_done m W t" "tk_DependsOn t' = tk_DependsOn t"
    and "\<And>i u. m i = Some u \<Longrightarrow> tk_Status u = TaskCompleted \<Longrightarrow> m' i = Some u"
  shows "deps_done m' W t'"
  using assms unfolding deps_done_def by metis

section \<open>Every step keeps the invariant\<close>

lemma recovery_update:
  assumes ok: "recovery_ok W H m"
    and i: "m i = Some t" "tk_WorkflowID t = W" "same_task t t'"
    and own_row: "live H' t' \<Longrightarrow> live H t"
    and others: "\<And>j u. m j = Some u \<Longrightarrow> j \<noteq> i \<Longrightarrow> live H' u \<Longrightarrow> live H u"
    and leaving: "tk_Status t = TaskRecovering \<Longrightarrow> tk_Status t' \<noteq> TaskRecovering \<Longrightarrow>
      (\<forall>j u. m j = Some u \<and> tk_WorkflowID u = W \<and> live H u \<and> tk_OriginalTaskID u = Some i \<longrightarrow> \<not> live H' (if j = i then t' else u))"
  shows "recovery_ok W H' (m(i \<mapsto> t'))"
proof -
  have same: "tk_WorkflowID t' = W" "tk_OriginalTaskID t' = tk_OriginalTaskID t" using i by (auto simp: same_task_def)
  have prior: "\<exists>u0. m j = Some u0 \<and> tk_WorkflowID u0 = W \<and> live H u0 \<and> tk_OriginalTaskID u0 = tk_OriginalTaskID u \<and>
      u = (if j = i then t' else u0)"
    if "(m(i \<mapsto> t')) j = Some u" "tk_WorkflowID u = W" "live H' u" for j u
    using that i own_row others same by (cases "j = i") auto
  show ?thesis unfolding recovery_ok_def
  proof (intro conjI allI impI; elim conjE)
    fix j u k assume a: "(m(i \<mapsto> t')) j = Some u" "tk_WorkflowID u = W" "tk_OriginalTaskID u = Some k" "live H' u"
    obtain u0 where u0: "m j = Some u0" "tk_WorkflowID u0 = W" "live H u0" "tk_OriginalTaskID u0 = Some k" "u = (if j = i then t' else u0)"
      using prior[OF a(1) a(2) a(4)] a(3) by auto
    obtain v where v: "m k = Some v" "tk_WorkflowID v = W" "tk_Status v = TaskRecovering"
      using ok u0(1-4) unfolding recovery_ok_def by blast
    show "\<exists>v. (m(i \<mapsto> t')) k = Some v \<and> tk_WorkflowID v = W \<and> tk_Status v = TaskRecovering"
    proof (cases "k = i")
      case True
      then have "tk_Status t' = TaskRecovering" using leaving v i u0 a(4) by auto
      then show ?thesis using True same by simp
    qed (use v in simp)
  next
    fix j u j' u' assume a: "(m(i \<mapsto> t')) j = Some u" "tk_WorkflowID u = W" "(m(i \<mapsto> t')) j' = Some u'" "tk_WorkflowID u' = W"
      "tk_OriginalTaskID u = tk_OriginalTaskID u'" "live H' u" "live H' u'"
    obtain v where v: "m j = Some v" "tk_WorkflowID v = W" "live H v" "tk_OriginalTaskID v = tk_OriginalTaskID u"
      using prior[OF a(1,2,6)] by auto
    obtain v' where v': "m j' = Some v'" "tk_WorkflowID v' = W" "live H v'" "tk_OriginalTaskID v' = tk_OriginalTaskID u'"
      using prior[OF a(3,4,7)] by auto
    show "j = j'" using ok v v' a(5) unfolding recovery_ok_def by metis
  qed
qed

lemma row_ok_mono:
  assumes "row_ok rc W D m t" and "\<And>i u. m i = Some u \<Longrightarrow> tk_Status u = TaskCompleted \<Longrightarrow> m' i = Some u"
  shows "row_ok rc W D m' t"
  using assms(1) deps_done_mono[of m W t t m', OF _ refl assms(2)] by (simp add: row_ok_def)

lemma retry_cap_same: "same_task t t' \<Longrightarrow> retry_cap rc t' = retry_cap rc t"
  by (simp add: retry_cap_def max_retries_def same_task_def split: option.split)

text \<open>A change of one row that leaves no completed row behind.\<close>

lemma row_update:
  assumes ok: "machine_ok rc W D (m, H)" and i: "m i = Some t" "tk_WorkflowID t = W" "same_task t t'"
    and open_row: "tk_Status t \<noteq> TaskCompleted"
    and retries: "tk_RetryCount t' \<le> retry_cap rc t" "tk_Status t' = TaskRecovering \<Longrightarrow> tk_RetryCount t' < retry_cap rc t"
    and deps: "tk_Status t' \<notin> {TaskPending, TaskBlocked, TaskSkipped} \<Longrightarrow> deps_done m W t"
    and unhandled: "\<And>d. d \<in> H' \<Longrightarrow> d \<in> H \<or> d = i \<and> tk_Status t' = TaskCompleted \<and> tk_OriginalTaskID t \<noteq> None"
    and rec: "recovery_ok W H' (m(i \<mapsto> t'))"
  shows "machine_ok rc W D (m(i \<mapsto> t'), H')"
proof -
  note D = machine_okD[OF ok]
  have final: "(m(i \<mapsto> t')) j = Some u" if "m j = Some u" "tk_Status u = TaskCompleted" for j u
    using that i open_row by auto
  have same: "tk_ID t' = i" "tk_WorkflowID t' = W" "tk_DependsOn t' = tk_DependsOn t" "tk_OriginalTaskID t' = tk_OriginalTaskID t"
    "tk_Depth t' = tk_Depth t" "tk_AgentRole t' = tk_AgentRole t"
    using i D(1) by (auto simp: same_task_def)
  have t: "row_ok rc W D m t" using D(2) i by blast
  have t': "row_ok rc W D (m(i \<mapsto> t')) t'"
    using t retries deps retry_cap_same[OF i(3), of rc] deps_done_mono[of m W t t' "m(i \<mapsto> t')", OF _ same(3) final]
    by (auto simp: row_ok_def same)
  have rows: "row_ok rc W D (m(i \<mapsto> t')) u" if "(m(i \<mapsto> t')) j = Some u" "tk_WorkflowID u = W" for j u
    using that t' row_ok_mono[of rc W D m u "m(i \<mapsto> t')", OF _ final] D(2)[of j u] by (cases "j = i") auto
  have H: "\<exists>u. (m(i \<mapsto> t')) d = Some u \<and> tk_WorkflowID u = W \<and> tk_Status u = TaskCompleted \<and> tk_OriginalTaskID u \<noteq> None"
    if "d \<in> H'" for d
    using unhandled[OF that] D(3)[of d] i open_row same by (cases "d = i") auto
  have ids: "tk_ID u = j" if "(m(i \<mapsto> t')) j = Some u" for j u
    using that D(1)[of j u] same by (cases "j = i") auto
  show ?thesis unfolding machine_ok_def prod.case using rows H rec ids by blast
qed

lemma retry_cap_nonneg [simp]: "0 \<le> retry_cap rc t"
  by (simp add: retry_cap_def max_retries_def MaxRetriesOrDefault_def split: option.split)

lemma row_create:
  assumes ok: "machine_ok rc W D (m, H)"
    and new: "m (tk_ID d) = None" "tk_WorkflowID d = W" "tk_Status d = TaskPending" "tk_RetryCount d = 0" "tk_Depth d < D"
    and orig: "\<And>i. tk_OriginalTaskID d = Some i \<Longrightarrow> tk_AgentRole d = RoleDiagnostician \<and>
        (\<exists>u. m i = Some u \<and> tk_WorkflowID u = W \<and> tk_Status u = TaskRecovering) \<and>
        (\<forall>j u. m j = Some u \<and> tk_WorkflowID u = W \<and> tk_OriginalTaskID u = Some i \<longrightarrow> \<not> live H u)"
  shows "machine_ok rc W D (m(tk_ID d \<mapsto> d), H)"
proof -
  let ?m = "m(tk_ID d \<mapsto> d)"
  note D = machine_okD[OF ok]
  have keep: "?m j = Some u" if "m j = Some u" for j u using that new(1) by auto
  have d: "row_ok rc W D ?m d" using new orig by (auto simp: row_ok_def)
  have rows: "row_ok rc W D ?m u" if "?m j = Some u" "tk_WorkflowID u = W" for j u
    using that d row_ok_mono[of rc W D m u ?m, OF _ keep] D(2)[of j u] by (cases "j = tk_ID d") auto
  have ids: "tk_ID u = j" if "?m j = Some u" for j u
    using that D(1)[of j u] by (cases "j = tk_ID d") auto
  have H: "\<exists>u. ?m j = Some u \<and> tk_WorkflowID u = W \<and> tk_Status u = TaskCompleted \<and> tk_OriginalTaskID u \<noteq> None" if "j \<in> H" for j
    using D(3)[OF that] keep by blast
  have rec: "recovery_ok W H m" by (rule D(4))
  have "recovery_ok W H ?m" unfolding recovery_ok_def
  proof (intro conjI allI impI; elim conjE)
    fix j u k assume a: "?m j = Some u" "tk_WorkflowID u = W" "tk_OriginalTaskID u = Some k" "live H u"
    have "\<exists>v. m k = Some v \<and> tk_WorkflowID v = W \<and> tk_Status v = TaskRecovering"
    proof (cases "j = tk_ID d")
      case False
      then have "m j = Some u" using a by simp
      then show ?thesis using rec a unfolding recovery_ok_def by blast
    qed (use a orig in auto)
    then show "\<exists>v. ?m k = Some v \<and> tk_WorkflowID v = W \<and> tk_Status v = TaskRecovering" using keep by blast
  next
    fix j u j' u' assume a: "?m j = Some u" "tk_WorkflowID u = W" "?m j' = Some u'" "tk_WorkflowID u' = W"
      "tk_OriginalTaskID u = tk_OriginalTaskID u'" "live H u" "live H u'"
    have other: "tk_OriginalTaskID v \<noteq> tk_OriginalTaskID d" if v: "m l = Some v" "tk_WorkflowID v = W" "live H v" for l v
    proof
      assume e: "tk_OriginalTaskID v = tk_OriginalTaskID d"
      obtain y where "tk_OriginalTaskID v = Some y" using v(3) by (auto simp: live_def)
      then show False using orig[of y] e v by auto
    qed
    have "\<not> (j = tk_ID d \<and> j' \<noteq> tk_ID d)" "\<not> (j \<noteq> tk_ID d \<and> j' = tk_ID d)"
      using a other[of j u] other[of j' u'] by (auto split: if_splits)
    moreover have "j = j'" if "m j = Some u" "m j' = Some u'" using rec a that unfolding recovery_ok_def by blast
    ultimately show "j = j'" using a by auto
  qed
  then show ?thesis unfolding machine_ok_def prod.case using rows H ids by blast
qed

lemma plain_row_update:
  assumes ok: "machine_ok rc W D (m, H)" and i: "m i = Some t" "tk_WorkflowID t = W" "same_task t t'"
    and from_to: "tk_Status t \<notin> {TaskCompleted, TaskRecovering, TaskSkipped}" "tk_Status t' \<noteq> TaskCompleted"
    and retries: "tk_RetryCount t' = tk_RetryCount t" "tk_Status t' = TaskRecovering \<Longrightarrow> tk_RetryCount t' < retry_cap rc t"
    and deps: "tk_Status t' \<notin> {TaskPending, TaskBlocked, TaskSkipped} \<Longrightarrow> deps_done m W t"
  shows "machine_ok rc W D (m(i \<mapsto> t'), H)"
proof (rule row_update[OF ok i])
  have ID: "tk_OriginalTaskID t' = tk_OriginalTaskID t" using i by (simp add: same_task_def)
  show "recovery_ok W H (m(i \<mapsto> t'))"
    by (rule recovery_update[OF machine_okD(4)[OF ok] i]) (use from_to ID in \<open>auto simp: live_def\<close>)
  show "tk_RetryCount t' \<le> retry_cap rc t"
    using machine_okD(2)[OF ok i(1,2)] retries by (simp add: row_ok_def)
qed (use from_to retries deps in auto)

lemma recover_ok:
  assumes ok: "machine_ok rc W D (m, H)"
    and t: "m i = Some t" "tk_WorkflowID t = W" "tk_Status t = TaskFailed" "tk_RetryCount t < retry_cap rc t" "same_task t t'"
      "tk_Status t' = TaskRecovering" "tk_RetryCount t' = tk_RetryCount t"
    and d: "m (tk_ID d) = None" "tk_WorkflowID d = W" "tk_Status d = TaskPending" "tk_AgentRole d = RoleDiagnostician"
      "tk_OriginalTaskID d = Some i" "tk_RetryCount d = 0" "tk_Depth d < D"
  shows "machine_ok rc W D (m(i \<mapsto> t', tk_ID d \<mapsto> d), H)"
proof -
  let ?m = "m(i \<mapsto> t')"
  have mid: "machine_ok rc W D (?m, H)"
    by (rule plain_row_update[OF ok, of i t t']) (use t machine_okD(2)[OF ok, of i t] in \<open>auto simp: row_ok_def\<close>)
  have new: "?m (tk_ID d) = None" using t d by auto
  have no: "\<not> live H u" if u: "?m j = Some u" "tk_WorkflowID u = W" "tk_OriginalTaskID u = Some i" for j u
  proof
    assume l: "live H u"
    have st: "tk_OriginalTaskID t' = tk_OriginalTaskID t" "tk_ID t' = tk_ID t" "tk_WorkflowID t' = tk_WorkflowID t"
      using t d by (auto simp: same_task_def)
    obtain u0 where "m j = Some u0" "tk_WorkflowID u0 = W" "tk_OriginalTaskID u0 = Some i" "live H u0"
      using u l t st by (cases "j = i") (auto simp: live_def)
    then obtain v where "m i = Some v" "tk_Status v = TaskRecovering"
      using machine_okD(4)[OF ok] unfolding recovery_ok_def by blast
    then show False using t d by simp
  qed
  have "tk_WorkflowID t' = W" using t d by (simp add: same_task_def)
  then have "\<exists>u. ?m i = Some u \<and> tk_WorkflowID u = W \<and> tk_Status u = TaskRecovering" using t by simp
  then show ?thesis
    by (intro row_create[OF mid new]) (use d no in \<open>auto simp del: fun_upd_apply\<close>)
qed

lemma decide_ok:
  assumes ok: "machine_ok rc W D (m, H)"
    and d: "d \<in> H" "m d = Some u" "tk_OriginalTaskID u = Some i"
    and t: "m i = Some t" "same_task t t'" "tk_Status t' \<in> {TaskPending, TaskFailed, TaskSkipped}"
      "tk_RetryCount t' = tk_RetryCount t + (if tk_Status t' = TaskPending then 1 else 0)"
  shows "machine_ok rc W D (m(i \<mapsto> t'), H - {d})"
proof -
  have orig: "tk_WorkflowID t = W" "tk_Status t = TaskRecovering"
    using decided_original[OF ok, of d u i] d t by auto
  have u: "tk_ID u = d" "tk_WorkflowID u = W" "tk_Status u = TaskCompleted" "live H u"
    using machine_okD(1,3)[OF ok, of d] d t by (force simp: live_def)+
  have r: "row_ok rc W D m t" using d t orig machine_okD(2)[OF ok, of i t] by simp
  have only: "j = d" if "m j = Some v" "tk_WorkflowID v = W" "tk_OriginalTaskID v = Some i" "live H v" for j v
    using machine_okD(4)[OF ok] that u d t unfolding recovery_ok_def by metis
  have gone: "\<not> live (H - {d}) u" using u by (simp add: live_def)
  have "recovery_ok W (H - {d}) (m(i \<mapsto> t'))"
  proof (rule recovery_update[OF machine_okD(4)[OF ok], of i t t'])
    show "live H t" if "live (H - {d}) t'" using that d t orig by (auto simp: live_def same_task_def)
    show "\<forall>j v. m j = Some v \<and> tk_WorkflowID v = W \<and> live H v \<and> tk_OriginalTaskID v = Some i \<longrightarrow>
        \<not> live (H - {d}) (if j = i then t' else v)"
    proof (intro allI impI; elim conjE)
      fix j v assume a: "m j = Some v" "tk_WorkflowID v = W" "live H v" "tk_OriginalTaskID v = Some i"
      then have "j = d" "v = u" using only[of j v] d t by auto
      moreover have "d \<noteq> i" using d t orig u by auto
      ultimately show "\<not> live (H - {d}) (if j = i then t' else v)" using gone by simp
    qed
  qed (use d t orig in \<open>auto simp: live_def\<close>)
  then show ?thesis
    by (intro row_update[OF ok, of i t t']) (use d t orig r in \<open>auto simp: row_ok_def\<close>)
qed

theorem task_step_keeps_ok:
  assumes ok: "machine_ok rc W D (m, H)" and step: "task_step rc W D (m, H) (m', H')"
  shows "machine_ok rc W D (m', H')"
  using step
proof cases
  case (plan t)
  then show ?thesis using row_create[OF ok, of t] by auto
next
  case (start i t t')
  then show ?thesis using plain_row_update[OF ok, of i t t'] by auto
next
  case (fail i t t')
  then show ?thesis using plain_row_update[OF ok, of i t t'] machine_okD(2)[OF ok, of i t] by (auto simp: row_ok_def)
next
  case (skip i t t')
  then show ?thesis using plain_row_update[OF ok, of i t t'] by auto
next
  case (complete i t t')
  have s: "tk_ID t' = i" "tk_OriginalTaskID t' = tk_OriginalTaskID t"
    using complete machine_okD(1)[OF ok, of i t] by (auto simp: same_task_def)
  have r: "row_ok rc W D m t" using complete machine_okD(2)[OF ok, of i t] by simp
  have "recovery_ok W H' (m(i \<mapsto> t'))"
    by (rule recovery_update[OF machine_okD(4)[OF ok], of i t t' H'])
      (use complete s machine_okD(1)[OF ok] in \<open>auto simp: live_def split: if_splits\<close>)
  then have "machine_ok rc W D (m(i \<mapsto> t'), H')"
    by (intro row_update[OF ok, of i t t' H']) (use complete r in \<open>auto simp: row_ok_def split: if_splits\<close>)
  then show ?thesis using complete by simp
next
  case (recover i t t' d)
  then show ?thesis using recover_ok[OF ok] by simp
next
  case (decide d u i t t')
  then show ?thesis using decide_ok[OF ok] by simp
qed

end
