(* ===== verification/SchedulerRuns.thy ===== *)
theory SchedulerRuns
  imports TaskMachine
begin

text \<open>
  The scheduler refines the task machine: every operation of \<open>Scheduler\<close> that writes task rows is a
  sequence of steps of \<open>task_step\<close> on the map of the stored tasks. The invariant of the machine
  then gives the ordering of tasks along dependencies, the retry and depth bounds and the isolation
  of workflows for every run of the loop.
\<close>

abbreviation tasks :: "'w sched \<Rightarrow> uuid \<Rightarrow> Task option" where
  "tasks s \<equiv> task_map (sc_store s)"

text \<open>The stored row of the workflow keeps its identifier and its depth limit.\<close>

definition flow_kept :: "uuid \<Rightarrow> int \<Rightarrow> 'w sched \<Rightarrow> bool" where
  "flow_kept W D s \<longleftrightarrow> (\<forall>x. wf_map (sc_store s) W = Some x \<longrightarrow> wf_ID x = W \<and> wf_MaxDepth x = D)"

definition good :: "RecoveryConfig option \<Rightarrow> uuid \<Rightarrow> int \<Rightarrow> 'w sched \<Rightarrow> uuid set \<Rightarrow> bool" where
  "good rc W D s H \<longleftrightarrow> machine_ok rc W D (tasks s, H) \<and> store_ok (sc_store s) \<and> flow_kept W D s"

definition reaches :: "RecoveryConfig option \<Rightarrow> uuid \<Rightarrow> int \<Rightarrow> 'w sched \<Rightarrow> uuid set \<Rightarrow> 'w sched \<Rightarrow> uuid set \<Rightarrow> bool" where
  "reaches rc W D s H s' H' \<longleftrightarrow> (task_step rc W D)\<^sup>*\<^sup>* (tasks s, H) (tasks s', H') \<and> good rc W D s' H'"

lemma reaches_refl: "good rc W D s H \<Longrightarrow> reaches rc W D s H s H"
  by (simp add: reaches_def)

lemma reaches_trans [trans]:
  "reaches rc W D s H s1 H1 \<Longrightarrow> reaches rc W D s1 H1 s2 H2 \<Longrightarrow> reaches rc W D s H s2 H2"
  unfolding reaches_def by (meson rtranclp_trans)

lemma reaches_good: "reaches rc W D s H s' H' \<Longrightarrow> good rc W D s' H'"
  by (simp add: reaches_def)

lemma good_same:
  "good rc W D s H \<Longrightarrow> st_tasks (sc_store s') = st_tasks (sc_store s) \<Longrightarrow> flow_kept W D s' \<Longrightarrow> good rc W D s' H"
  by (simp add: good_def task_map_def store_ok_def)

section \<open>Operations that do not write task rows\<close>

lemma draw_frame [simp]:
  "sc_store (snd (draw orc s)) = sc_store s" "good rc W D (snd (draw orc s)) H = good rc W D s H"
  by (simp_all add: draw_def good_def flow_kept_def)

lemma save_msg_frame [simp]:
  "tasks (save_msg s m) = tasks s" "good rc W D (save_msg s m) H = good rc W D s H"
  "wf_map (sc_store (save_msg s m)) = wf_map (sc_store s)"
  by (simp_all add: save_msg_def good_def flow_kept_def)

lemma record_skill_frame [simp]:
  "sc_store (record_skill orc s i t a b c) = sc_store s" "good rc W D (record_skill orc s i t a b c) H = good rc W D s H"
  by (simp_all add: record_skill_def draw_def Let_def good_def flow_kept_def)

lemma good_update [simp]:
  "good rc W D (s\<lparr>sc_world := x\<rparr>) H = good rc W D s H" "good rc W D (wait s) H = good rc W D s H"
  "sc_store (wait s) = sc_store s"
  by (simp_all add: wait_def good_def flow_kept_def)

lemma upd_flow_frame [simp]: "tasks (snd (upd_flow orc s w)) = tasks s"
  by (simp add: upd_flow_def case_prod_beta)

lemma upd_flow_good:
  assumes "good rc W D s H" "wf_ID w = W" "wf_MaxDepth w = D"
  shows "good rc W D (snd (upd_flow orc s w)) H"
  using assms by (auto simp: upd_flow_def case_prod_beta good_def flow_kept_def wf_map_UpdateWorkflow)

lemma logRecoveryEvent_frame [simp]:
  "tasks (logRecoveryEvent orc s w t d r) = tasks s"
  "good rc W D (logRecoveryEvent orc s w t d r) H = good rc W D s H"
  by (simp_all add: logRecoveryEvent_def case_prod_beta)

section \<open>Writing one row\<close>

lemma upd_task_known:
  assumes "tasks s (tk_ID t) = Some t0"
  shows "fst (upd_task orc s t) = None"
    "tasks (snd (upd_task orc s t)) = (tasks s)(tk_ID t \<mapsto> t\<lparr>tk_UpdatedAt := clock orc s\<rparr>)"
  using mem_tasks.update_known[of "sc_store s" t "clock orc s"] assms by (simp_all add: upd_task_def case_prod_beta)

lemma upd_task_frame [simp]:
  "sc_tick (snd (upd_task orc s t)) = sc_tick s" "clock orc (snd (upd_task orc s t)) = clock orc s"
  by (simp_all add: upd_task_def clock_def case_prod_beta)

lemma upd_task_step:
  assumes g: "good rc W D s H" and old: "tasks s (tk_ID t) = Some t0"
    and step: "task_step rc W D (tasks s, H) ((tasks s)(tk_ID t \<mapsto> t\<lparr>tk_UpdatedAt := clock orc s\<rparr>), H')"
  shows "reaches rc W D s H (snd (upd_task orc s t)) H'"
proof -
  have e: "tasks (snd (upd_task orc s t)) = (tasks s)(tk_ID t \<mapsto> t\<lparr>tk_UpdatedAt := clock orc s\<rparr>)"
    by (rule upd_task_known(2)[OF old])
  have "machine_ok rc W D (tasks (snd (upd_task orc s t)), H')"
    using task_step_keeps_ok[OF _ step] g by (simp add: e good_def)
  moreover have "store_ok (sc_store (snd (upd_task orc s t)))" "flow_kept W D (snd (upd_task orc s t))"
    using g by (simp_all add: upd_task_def case_prod_beta good_def flow_kept_def)
  ultimately show ?thesis using step by (simp add: reaches_def good_def e r_into_rtranclp)
qed

lemma same_task_upd [simp]:
  "same_task t (u\<lparr>tk_Status := a\<rparr>) = same_task t u" "same_task t (u\<lparr>tk_UpdatedAt := b\<rparr>) = same_task t u"
  "same_task t (u\<lparr>tk_StartedAt := c\<rparr>) = same_task t u" "same_task t (u\<lparr>tk_CompletedAt := c\<rparr>) = same_task t u"
  "same_task t (u\<lparr>tk_Error := d\<rparr>) = same_task t u" "same_task t (u\<lparr>tk_Output := d\<rparr>) = same_task t u"
  "same_task t (u\<lparr>tk_TokensUsed := e\<rparr>) = same_task t u" "same_task t (u\<lparr>tk_CostUSD := f\<rparr>) = same_task t u"
  "same_task t (u\<lparr>tk_RetryCount := g\<rparr>) = same_task t u" "same_task t (u\<lparr>tk_ClaimedBy := d\<rparr>) = same_task t u"
  "same_task t (u\<lparr>tk_ClaimedAt := c\<rparr>) = same_task t u" "same_task t t"
  by (simp_all add: same_task_def)

lemma same_taskD:
  assumes "same_task t u"
  shows "tk_ID u = tk_ID t" "tk_WorkflowID u = tk_WorkflowID t" "tk_AgentRole u = tk_AgentRole t" "tk_Depth u = tk_Depth t"
    "tk_DependsOn u = tk_DependsOn t" "tk_OriginalTaskID u = tk_OriginalTaskID t" "tk_MaxRetries u = tk_MaxRetries t"
  using assms by (simp_all add: same_task_def)

section \<open>Executing a task\<close>

lemma failTask_step:
  assumes g: "good rc W D s H" and t: "tasks s (tk_ID t) = Some t" "tk_WorkflowID t = W" "tk_Status t = TaskRunning"
    and run: "failTask orc s t e = (t', s')"
  shows "reaches rc W D s H s' H \<and> same_task t t' \<and> tasks s' = (tasks s)(tk_ID t \<mapsto> t')"
proof -
  define u where "u = t\<lparr>tk_Status := TaskFailed, tk_Error := or_text orc e, tk_CompletedAt := Some (clock orc s), tk_UpdatedAt := clock orc s\<rparr>"
  let ?s = "snd (upd_task orc s u)"
  have u: "tk_ID u = tk_ID t" "u\<lparr>tk_UpdatedAt := clock orc s\<rparr> = u" "same_task t u" "tk_Status u = TaskFailed" "tk_RetryCount u = tk_RetryCount t"
    by (simp_all add: u_def)
  have r: "t' = u" "sc_store s' = sc_store ?s" "good rc W D s' H = good rc W D ?s H"
    using run by (auto simp: failTask_def Let_def u_def split: if_splits)
  have "reaches rc W D s H ?s H"
    by (rule upd_task_step[OF g]) (use t u in \<open>auto intro: fail\<close>)
  then show ?thesis using r u upd_task_known(2)[of s u t orc] t by (simp add: reaches_def)
qed

lemma completeTask_step:
  assumes g: "good rc W D s H" and t: "tasks s (tk_ID t) = Some t" "tk_WorkflowID t = W" "tk_Status t = TaskRunning"
    and run: "completeTask orc s w t out = (res, t', s')"
  shows "reaches rc W D s H s' (if tk_OriginalTaskID t = None then H else insert (tk_ID t) H) \<and> same_task t t' \<and>
    tasks s' = (tasks s)(tk_ID t \<mapsto> t') \<and> res = Inr out \<and> tk_Status t' = TaskCompleted"
proof -
  define s2 where "s2 = save_msg (snd (draw orc s)) \<lparr>msg_ID = fst (draw orc s), msg_WorkflowID = wf_ID w, msg_FromTaskID = tk_ID t, msg_ToTaskID = None,
                 msg_FromRole = tk_AgentRole t, msg_ToRole = RoleOrchestrator, msg_MessageType = MsgTaskResult,
                 msg_Content = aout_Response out, msg_Artifacts = [], msg_CorrelationID = wf_CorrelationID w, msg_CreatedAt = clock orc (snd (draw orc s))\<rparr>"
  define u where "u = t\<lparr>tk_Status := TaskCompleted, tk_Output := aout_Response out, tk_CompletedAt := Some (clock orc s2),
                 tk_UpdatedAt := clock orc s2, tk_TokensUsed := aout_TokensUsed out, tk_CostUSD := aout_CostUSD out\<rparr>"
  have s2: "tasks s2 = tasks s" "good rc W D s2 H" using g by (simp_all add: s2_def)
  have u: "tk_ID u = tk_ID t" "u\<lparr>tk_UpdatedAt := clock orc s2\<rparr> = u" "same_task t u" "tk_Status u = TaskCompleted" "tk_RetryCount u = tk_RetryCount t"
    by (simp_all add: u_def)
  obtain s3 where ok: "upd_task orc s2 u = (None, s3)"
    using upd_task_known(1)[of s2 u t orc] t s2 u by (cases "upd_task orc s2 u") auto
  have r: "res = Inr out" "t' = u" "sc_store s' = sc_store s3" "\<And>K. good rc W D s' K = good rc W D s3 K"
    using run ok by (auto simp: completeTask_def Let_def case_prod_beta u_def[symmetric] s2_def[symmetric] split: option.splits)
  have "reaches rc W D s2 H s3 (if tk_OriginalTaskID t = None then H else insert (tk_ID t) H)"
    using upd_task_step[OF s2(2), of u t orc] t s2 u ok complete[of "tasks s" "tk_ID t" t W u rc D H] by simp
  then show ?thesis using r u s2 upd_task_known(2)[of s2 u t orc] t ok by (simp add: reaches_def)
qed

lemma executeTask_unfold:
  assumes "t1 = t\<lparr>tk_Status := TaskRunning, tk_StartedAt := Some (clock orc s), tk_UpdatedAt := clock orc s\<rparr>"
    and "upd_task orc s t1 = (None, s1)"
  shows "executeTask orc s w t =
    (case or_agents orc (tk_AgentRole t1) of
       Inl e \<Rightarrow> (case failTask orc s1 t1 (CreatingAgent (tk_AgentRole t1) e) of (t2, s2) \<Rightarrow> (Inl (CreatingAgent (tk_AgentRole t1) e), t2, s2))
     | Inr agent \<Rightarrow>
         (case agent (sc_world s1) (agent_input s1 w t1) of
            (Inl e, wld) \<Rightarrow>
              (case failTask orc (s1\<lparr>sc_world := wld\<rparr>) t1 (AgentExecution (tk_AgentRole t1) e) of
                 (t2, s2) \<Rightarrow> (Inl (AgentExecution (tk_AgentRole t1) e), t2, s2))
          | (Inr out, wld) \<Rightarrow> completeTask orc (s1\<lparr>sc_world := wld\<rparr>) w t1 out))"
  unfolding executeTask_def Let_def assms(1)[symmetric] assms(2) by simp

lemma executeTask_step:
  assumes g: "good rc W D s H" and t: "tasks s (tk_ID t) = Some t" "tk_WorkflowID t = W"
    "tk_Status t \<in> {TaskPending, TaskBlocked}" "deps_done (tasks s) W t"
    and run: "executeTask orc s w t = (res, t', s')"
  shows "reaches rc W D s H s' (if isl res \<or> tk_OriginalTaskID t = None then H else insert (tk_ID t) H) \<and> same_task t t' \<and>
    tasks s' = (tasks s)(tk_ID t \<mapsto> t') \<and> (\<not> isl res \<longrightarrow> tk_Status t' = TaskCompleted)"
proof -
  define t1 where "t1 = t\<lparr>tk_Status := TaskRunning, tk_StartedAt := Some (clock orc s), tk_UpdatedAt := clock orc s\<rparr>"
  have t1: "tk_ID t1 = tk_ID t" "t1\<lparr>tk_UpdatedAt := clock orc s\<rparr> = t1" "same_task t t1" "tk_Status t1 = TaskRunning"
    "tk_RetryCount t1 = tk_RetryCount t" "tk_WorkflowID t1 = W" "tk_OriginalTaskID t1 = tk_OriginalTaskID t"
    using t by (simp_all add: t1_def)
  obtain s1 where ok: "upd_task orc s t1 = (None, s1)"
    using upd_task_known(1)[of s t1 t orc] t t1 by (cases "upd_task orc s t1") auto
  note unfold = executeTask_unfold[OF t1_def ok, of w]
  have rows: "tasks s1 = (tasks s)(tk_ID t \<mapsto> t1)" using upd_task_known(2)[of s t1 t orc] t t1 ok by simp
  have first: "reaches rc W D s H s1 H"
    using upd_task_step[OF g, of t1 t orc H] t t1 ok start[of "tasks s" "tk_ID t" t W t1 rc D H] by auto
  have g1: "good rc W D (s1\<lparr>sc_world := x\<rparr>) H" for x using reaches_good[OF first] by simp
  have row1: "tasks (s1\<lparr>sc_world := x\<rparr>) (tk_ID t1) = Some t1" for x using rows t1 by simp
  have same: "same_task t u" if "same_task t1 u" for u using that t1(3) by (simp add: same_task_def)
  have next_steps: "reaches rc W D s H z K" if "reaches rc W D (s1\<lparr>sc_world := x\<rparr>) H z K" for x z K
    using that reaches_trans[OF first, of z K] by (simp add: reaches_def)
  show ?thesis
  proof (cases "or_agents orc (tk_AgentRole t1)")
    case (Inl e)
    obtain u s2 where f: "failTask orc s1 t1 (CreatingAgent (tk_AgentRole t1) e) = (u, s2)" by fastforce
    then have "res = Inl (CreatingAgent (tk_AgentRole t1) e)" "t' = u" "s' = s2"
      using run Inl by (auto simp: unfold)
    then show ?thesis
      using failTask_step[OF g1[of "sc_world s1", simplified] _ t1(6,4) f] row1[of "sc_world s1"] rows first same t1(1)
      by (auto intro: reaches_trans)
  next
    case (Inr agent)
    obtain r x where a: "agent (sc_world s1) (agent_input s1 w t1) = (r, x)" by fastforce
    let ?s = "s1\<lparr>sc_world := x\<rparr>"
    show ?thesis
    proof (cases r)
      case (Inl e)
      obtain u s2 where f: "failTask orc ?s t1 (AgentExecution (tk_AgentRole t1) e) = (u, s2)" by fastforce
      then have "res = Inl (AgentExecution (tk_AgentRole t1) e)" "t' = u" "s' = s2"
        using run Inl Inr a by (auto simp: unfold)
      then show ?thesis
        using failTask_step[OF g1 row1 t1(6,4) f] rows same t1(1) by (auto intro: next_steps)
    next
      case out: (Inr out)
      have "completeTask orc ?s w t1 out = (res, t', s')"
        using run Inr a out by (auto simp: unfold)
      from completeTask_step[OF g1 row1 t1(6,4) this]
      show ?thesis using rows same t1(1,7) by (auto intro: next_steps)
    qed
  qed
qed

section \<open>A batch\<close>

text \<open>Along steps completed rows stay as they are, and so do the rows of other workflows.\<close>

definition kept_rows :: "uuid \<Rightarrow> (uuid \<Rightarrow> Task option) \<Rightarrow> (uuid \<Rightarrow> Task option) \<Rightarrow> bool" where
  "kept_rows W m m' \<longleftrightarrow> (\<forall>i t. m i = Some t \<and> tk_Status t = TaskCompleted \<longrightarrow> m' i = Some t) \<and>
     (\<forall>i t. tk_WorkflowID t \<noteq> W \<longrightarrow> (m' i = Some t) = (m i = Some t))"

lemma kept_rows_refl: "kept_rows W m m"
  by (simp add: kept_rows_def)

lemma kept_rows_trans: "kept_rows W m m1 \<Longrightarrow> kept_rows W m1 m2 \<Longrightarrow> kept_rows W m m2"
  by (simp add: kept_rows_def)

lemma step_kept_rows:
  assumes "machine_ok rc W D p" "task_step rc W D p q"
  shows "kept_rows W (fst p) (fst q)"
proof -
  obtain m H m' H' where e: "p = (m, H)" "q = (m', H')" by fastforce
  have ok: "machine_ok rc W D (m, H)" and st: "task_step rc W D (m, H) (m', H')" using assms e by auto
  show ?thesis unfolding kept_rows_def e fst_conv
    using completed_row_final[OF ok st] step_foreign_row[OF ok st] by metis
qed

lemma steps_kept_rows:
  assumes "(task_step rc W D)\<^sup>*\<^sup>* p q" "machine_ok rc W D p"
  shows "machine_ok rc W D q \<and> kept_rows W (fst p) (fst q)"
  using assms
proof (induction rule: rtranclp_induct)
  case (step y z)
  have y: "machine_ok rc W D y" "kept_rows W (fst p) (fst y)" using step.IH step.prems by auto
  have "machine_ok rc W D z" using task_step_keeps_ok[of rc W D "fst y" "snd y" "fst z" "snd z"] y step.hyps by simp
  then show ?case using kept_rows_trans[OF y(2) step_kept_rows[OF y(1) step.hyps(2)]] by simp
qed (simp add: kept_rows_refl)

lemma reaches_kept_rows:
  "good rc W D s H \<Longrightarrow> reaches rc W D s H s' H' \<Longrightarrow> kept_rows W (tasks s) (tasks s')"
  using steps_kept_rows[of rc W D "(tasks s, H)" "(tasks s', H')"] by (simp add: reaches_def good_def)

lemma reaches_completed:
  assumes "good rc W D s H" "reaches rc W D s H s' H'" "tasks s i = Some t" "tk_Status t = TaskCompleted"
  shows "tasks s' i = Some t"
  using reaches_kept_rows[OF assms(1,2)] assms(3,4) unfolding kept_rows_def by blast

definition unhandled :: "(Task \<times> (sched_error + AgentOutput)) list \<Rightarrow> uuid set" where
  "unhandled rs = {tk_ID t | t out. (t, Inr out) \<in> set rs \<and> tk_OriginalTaskID t \<noteq> None}"

definition startable :: "uuid \<Rightarrow> 'w sched \<Rightarrow> Task \<Rightarrow> bool" where
  "startable W s t \<longleftrightarrow> tasks s (tk_ID t) = Some t \<and> tk_WorkflowID t = W \<and> tk_Status t \<in> {TaskPending, TaskBlocked} \<and>
     deps_done (tasks s) W t"

definition delivered :: "uuid \<Rightarrow> 'w sched \<Rightarrow> Task \<times> (sched_error + AgentOutput) \<Rightarrow> bool" where
  "delivered W s = (\<lambda>(t, r). tasks s (tk_ID t) = Some t \<and> tk_WorkflowID t = W \<and> (\<not> isl r \<longrightarrow> tk_Status t = TaskCompleted))"

lemma startable_other:
  assumes "startable W s u" "tasks s i = Some t" "tk_Status t \<noteq> TaskCompleted" "tk_ID u \<noteq> i" "tasks s' = (tasks s)(i \<mapsto> t')"
  shows "startable W s' u"
proof -
  have "deps_done (tasks s') W u"
    by (rule deps_done_mono[of "tasks s" W u u, OF _ refl]) (use assms in \<open>auto simp: startable_def\<close>)
  then show ?thesis using assms by (auto simp: startable_def)
qed

lemma run_batch_step:
  assumes "good rc W D s H" "\<And>t. t \<in> set ts \<Longrightarrow> startable W s t" "distinct (map tk_ID ts)" "run_batch orc w ts s = (rs, s')"
  shows "reaches rc W D s H s' (H \<union> unhandled rs) \<and> list_all (delivered W s') rs \<and> map (\<lambda>p. tk_ID (fst p)) rs = map tk_ID ts \<and>
    (\<forall>i. i \<notin> set (map tk_ID ts) \<longrightarrow> tasks s' i = tasks s i)"
  using assms
proof (induction ts arbitrary: s H rs)
  case Nil
  then show ?case by (auto simp: unhandled_def reaches_refl)
next
  case (Cons t ts)
  obtain res t' s1 where x: "executeTask orc s w t = (res, t', s1)" by (cases "executeTask orc s w t")
  obtain rs1 where b: "run_batch orc w ts s1 = (rs1, s')" "rs = (t', res) # rs1"
    using Cons.prems(4) x by (auto simp: case_prod_beta prod_eq_iff)
  let ?H = "if isl res \<or> tk_OriginalTaskID t = None then H else insert (tk_ID t) H"
  have st: "startable W s t" using Cons.prems(2) by simp
  have e: "reaches rc W D s H s1 ?H" "same_task t t'" "tasks s1 = (tasks s)(tk_ID t \<mapsto> t')" "\<not> isl res \<longrightarrow> tk_Status t' = TaskCompleted"
    using executeTask_step[OF Cons.prems(1) _ _ _ _ x] st by (auto simp: startable_def)
  have s1: "startable W s1 u" if "u \<in> set ts" for u
  proof (rule startable_other[OF _ _ _ _ e(3)])
    show "startable W s u" using Cons.prems(2) that by simp
    show "tasks s (tk_ID t) = Some t" "tk_Status t \<noteq> TaskCompleted" using st by (auto simp: startable_def)
    show "tk_ID u \<noteq> tk_ID t" using Cons.prems(3) that by (metis distinct.simps(2) image_eqI list.set_map list.simps(9))
  qed
  have ih: "reaches rc W D s1 ?H s' (?H \<union> unhandled rs1)" "list_all (delivered W s') rs1" "map (\<lambda>p. tk_ID (fst p)) rs1 = map tk_ID ts"
    "\<forall>i. i \<notin> set (map tk_ID ts) \<longrightarrow> tasks s' i = tasks s1 i"
    using Cons.IH[OF reaches_good[OF e(1)] s1 _ b(1)] Cons.prems(3) by (auto simp: comp_def)
  have id: "tk_ID t' = tk_ID t" "tk_OriginalTaskID t' = tk_OriginalTaskID t" "tk_WorkflowID t' = W"
    using same_taskD[OF e(2)] st by (auto simp: startable_def)
  have "?H \<union> unhandled rs1 = H \<union> unhandled rs"
    using id b(2) by (cases res) (auto simp: unhandled_def intro: exI[of _ t'])
  moreover have "delivered W s' (t', res)"
    using e(3,4) ih(4) Cons.prems(3) id by (auto simp: delivered_def)
  ultimately show ?case
    using reaches_trans[OF e(1) ih(1)] ih b(2) id e(3) by auto
qed

section \<open>Planner and diagnostician results\<close>

lemma CreateTask_step:
  assumes g: "good rc W D s H" and c: "CreateTask (sc_store s) t = (None, st)"
    and step: "task_step rc W D (tasks s, H) ((tasks s)(tk_ID t \<mapsto> t), H')"
  shows "reaches rc W D s H (s\<lparr>sc_store := st\<rparr>) H' \<and> tasks (s\<lparr>sc_store := st\<rparr>) = (tasks s)(tk_ID t \<mapsto> t)"
proof -
  have e: "task_map st = (tasks s)(tk_ID t \<mapsto> t)"
    using mem_tasks.create_new[of "sc_store s" t] mem_tasks.create_known[of "sc_store s" t] c by fastforce
  have k: "store_ok st" "wf_map st = wf_map (sc_store s)"
    using CreateTask_ok[of "sc_store s" t] wf_map_frames(3)[of "sc_store s" t] g c by (auto simp: good_def)
  have "machine_ok rc W D (task_map st, H')" using task_step_keeps_ok[OF _ step] g by (simp add: e good_def)
  then show ?thesis using k g step by (simp add: reaches_def good_def flow_kept_def e r_into_rtranclp)
qed

lemma CreateTask_new: "CreateTask (sc_store s) t = (None, st) \<Longrightarrow> tasks s (tk_ID t) = None"
  by (auto simp: CreateTask_def task_map_def split: if_splits)

lemma CreateTask_refused: "CreateTask (sc_store s) t = (Some e, st) \<Longrightarrow> st = sc_store s"
  by (auto simp: CreateTask_def split: if_splits)

lemma create_planned_step:
  assumes "good rc W D s H" "wf_ID w = W" "tk_Depth planner + 1 < D"
    "create_planned orc w planner now deps i specs s = (e, s')"
  shows "reaches rc W D s H s' H"
  using assms
proof (induction specs arbitrary: i s)
  case Nil
  then show ?case by (simp add: reaches_refl)
next
  case (Cons p specs)
  obtain spec tid where p: "p = (spec, tid)" by fastforce
  let ?t = "planned_task w planner now tid (case deps i of None \<Rightarrow> [] | Some ds \<Rightarrow> ds) spec"
  obtain c st where c: "CreateTask (sc_store s) ?t = (c, st)" by fastforce
  show ?case
  proof (cases "ValidateRole (ts_AgentRole spec) \<noteq> None \<or> c \<noteq> None")
    case True
    then have "s' = s \<or> s' = s\<lparr>sc_store := st\<rparr> \<and> c \<noteq> None"
      using Cons.prems(4) p c by (auto split: option.splits)
    then have "s' = s" using c CreateTask_refused[of s ?t] by auto
    then show ?thesis using Cons.prems(1) by (simp add: reaches_refl)
  next
    case False
    then have ok: "CreateTask (sc_store s) ?t = (None, st)" using c by simp
    have "reaches rc W D s H (s\<lparr>sc_store := st\<rparr>) H"
      using CreateTask_step[OF Cons.prems(1) ok plan] CreateTask_new[OF ok] Cons.prems(2,3) by (simp add: planned_task_def)
    moreover obtain m s2 where s2: "s2 = save_msg (snd (draw orc (s\<lparr>sc_store := st\<rparr>))) m"
        "create_planned orc w planner now deps (Suc i) specs s2 = (e, s')"
      using Cons.prems(4) p False ok by (auto simp: case_prod_beta)
    moreover have "reaches rc W D s2 H s' H"
      using Cons.IH[OF _ Cons.prems(2,3) s2(2)] reaches_good[OF calculation(1)] s2(1) by simp
    ultimately show ?thesis by (auto simp: reaches_def)
  qed
qed

lemma draw_ids_frame: "draw_ids orc n s = (is, s') \<Longrightarrow> sc_store s' = sc_store s \<and> length is = n"
  by (induction n arbitrary: s "is") (auto simp: draw_def Let_def split: prod.splits)

lemma good_store: "sc_store s' = sc_store s \<Longrightarrow> good rc W D s' H = good rc W D s H"
  by (simp add: good_def flow_kept_def)

lemma handlePlannerOutput_step:
  assumes g: "good rc W D s H" and w: "wf_ID w = W" "wf_MaxDepth w = D"
    and run: "handlePlannerOutput orc s w planner out = (e, w', s')"
  shows "reaches rc W D s H s' H \<and> wf_ID w' = W \<and> wf_MaxDepth w' = D"
proof -
  have "(w' = w \<and> sc_store s' = sc_store s) \<or>
    (\<exists>s1 s2 now deps ps e1. sc_store s1 = sc_store s \<and> create_planned orc w planner now deps 0 ps s1 = (e1, s2) \<and>
       tk_Depth planner + 1 < D \<and>
       (w' = w \<and> s' = s2 \<or> (\<exists>n u. w' = w\<lparr>wf_TaskCount := n, wf_UpdatedAt := u\<rparr> \<and> s' = snd (upd_flow orc s2 w'))))"
    using run w unfolding handlePlannerOutput_def
    by (auto simp: Let_def case_prod_beta split: sum.splits option.splits if_splits dest: draw_ids_frame)
      (metis draw_ids_frame prod.collapse | (use draw_ids_frame in fastforce))+
  then consider "w' = w" "sc_store s' = sc_store s"
    | s1 s2 now deps ps e1 where "sc_store s1 = sc_store s" "create_planned orc w planner now deps 0 ps s1 = (e1, s2)"
       "tk_Depth planner + 1 < D"
       "w' = w \<and> s' = s2 \<or> (\<exists>n u. w' = w\<lparr>wf_TaskCount := n, wf_UpdatedAt := u\<rparr> \<and> s' = snd (upd_flow orc s2 w'))"
    by blast
  then show ?thesis
  proof cases
    case 1
    then show ?thesis using g w good_store[of s' s] by (simp add: reaches_def)
  next
    case 2
    have r: "reaches rc W D s H s2 H"
      using create_planned_step[OF _ w(1) 2(3,2)] g good_store[OF 2(1)] 2(1) by (simp add: reaches_def)
    from 2(4) show ?thesis
    proof
      assume "\<exists>n u. w' = w\<lparr>wf_TaskCount := n, wf_UpdatedAt := u\<rparr> \<and> s' = snd (upd_flow orc s2 w')"
      then show ?thesis using r w upd_flow_good[OF reaches_good[OF r], of w' orc] by (auto simp: reaches_def)
    qed (use r w in simp)
  qed
qed

text \<open>Applying a decision: the original of the diagnostician is rewritten once.\<close>

lemma decision_write:
  assumes g: "good rc W D s H" and d: "tk_ID d \<in> H" "tasks s (tk_ID d) = Some d" "tk_OriginalTaskID d = Some i"
    and t: "tasks s i = Some t" "same_task t t'" "tk_Status t' \<in> {TaskPending, TaskFailed, TaskSkipped}"
      "tk_RetryCount t' = tk_RetryCount t + (if tk_Status t' = TaskPending then 1 else 0)"
  shows "reaches rc W D s H (snd (upd_task orc s t')) (H - {tk_ID d})"
proof -
  have i: "tk_ID t' = i" using g t(1,2) machine_okD(1)[of rc W D "tasks s" H i t] by (simp add: good_def same_task_def)
  show ?thesis
    by (rule upd_task_step[OF g, of _ t]) (use d t i decide[of "tk_ID d" H "tasks s" d i t] in auto)
qed

lemma GetTask_tasks: "GetTask (sc_store s) i = (case tasks s i of None \<Rightarrow> Inl (TaskNotFound i) | Some t \<Rightarrow> Inr t)"
  by (rule mem_tasks.get_filed)

lemma recoveryFailed_step:
  assumes g: "good rc W D s H" and d: "tk_ID d \<in> H" "tasks s (tk_ID d) = Some d" "tk_OriginalTaskID d = Some i"
  shows "reaches rc W D s H (snd (recoveryFailed orc s d e)) (H - {tk_ID d})"
proof -
  obtain t where t: "tasks s i = Some t"
    using decided_original[of rc W D "tasks s" H "tk_ID d" d i] g d by (auto simp: good_def)
  show ?thesis
    using decision_write[OF g d t, of "t\<lparr>tk_Status := TaskFailed, tk_UpdatedAt := clock orc s\<rparr>"]
    by (simp add: recoveryFailed_def d(3) GetTask_tasks t)
qed

lemma handleDiagnosticianOutput_step:
  assumes g: "good rc W D s H" and d: "tk_ID d \<in> H" "tasks s (tk_ID d) = Some d" "tk_OriginalTaskID d \<noteq> None"
  shows "reaches rc W D s H (snd (handleDiagnosticianOutput orc cfg s w d out)) (H - {tk_ID d})"
proof -
  obtain i where i: "tk_OriginalTaskID d = Some i" using d by auto
  obtain t where t: "tasks s i = Some t"
    using decided_original[of rc W D "tasks s" H "tk_ID d" d i] g d i by (auto simp: good_def)
  show ?thesis
  proof (cases "parseRecoveryDecision orc out")
    case (Inl e)
    then show ?thesis using recoveryFailed_step[OF g d(1,2) i] by (simp add: handleDiagnosticianOutput_def)
  next
    case (Inr decision)
    define s1 where "s1 = logRecoveryEvent orc s w t d (''recovery_decision_'' @ rd_Action decision)"
    have s1: "tasks s1 = tasks s" "good rc W D s1 H" using g by (simp_all add: s1_def)
    have written: "reaches rc W D s H (snd (upd_task orc s1 t')) (H - {tk_ID d})"
      if "same_task t t'" "tk_Status t' \<in> {TaskPending, TaskFailed, TaskSkipped}"
        "tk_RetryCount t' = tk_RetryCount t + (if tk_Status t' = TaskPending then 1 else 0)" for t'
      using decision_write[OF s1(2) d(1) _ i _ that, of orc] s1(1) d(2) t by (simp add: reaches_def)
    have failed: "reaches rc W D s H (snd (recoveryFailed orc s1 d e)) (H - {tk_ID d})" for e
      using recoveryFailed_step[OF s1(2) d(1) _ i, of orc e] s1(1) d(2) by (simp add: reaches_def)
    have e: "handleDiagnosticianOutput orc cfg s w d out =
       (if rd_Action decision = ''retry''
        then (if (case ec_Recovery cfg of None \<Rightarrow> False | Some rc \<Rightarrow> \<not> rc_AllowRetry rc)
              then recoveryFailed orc s1 d RetryNotAllowed else retryTask orc s1 t)
        else if rd_Action decision = ''escalate'' then set_status orc s1 t TaskFailed
        else if rd_Action decision = ''skip'' then set_status orc s1 t TaskSkipped
        else recoveryFailed orc s1 d (UnknownAction (rd_Action decision)))"
      by (simp only: handleDiagnosticianOutput_def Inr i GetTask_tasks t sum.case option.case Let_def s1_def)
    show ?thesis
      unfolding e retryTask_def set_status_def by (simp add: case_prod_beta Let_def failed written)
  qed
qed

lemma handleDiagnosticianOutput_orphan:
  "tk_OriginalTaskID d = None \<Longrightarrow> snd (handleDiagnosticianOutput orc cfg s w d out) = s"
  by (simp add: handleDiagnosticianOutput_def recoveryFailed_def split: sum.split)

lemma unhandled_simps [simp]:
  "unhandled [] = {}" "unhandled ((t, Inl e) # rs) = unhandled rs"
  "unhandled ((t, Inr out) # rs) = (if tk_OriginalTaskID t = None then unhandled rs else insert (tk_ID t) (unhandled rs))"
  by (auto simp: unhandled_def)

lemma handle_results_step:
  assumes "good rc W D s (unhandled rs)" "wf_ID w = W" "wf_MaxDepth w = D" "list_all (\<lambda>p. isl (snd p) \<or> delivered W s p) rs"
    "distinct (map (\<lambda>p. tk_ID (fst p)) rs)" "handle_results orc cfg rs w s = (w', s')"
  shows "reaches rc W D s (unhandled rs) s' {} \<and> wf_ID w' = W \<and> wf_MaxDepth w' = D"
  using assms
proof (induction rs arbitrary: w s)
  case Nil
  then show ?case by (simp add: reaches_refl)
next
  case (Cons p rs)
  show ?case
  proof (cases "snd p")
    case (Inl e)
    then show ?thesis using Cons by (cases p) auto
  next
    case (Inr out)
    then obtain t where p: "p = (t, Inr out)" by (cases p) auto
    let ?H = "unhandled (p # rs)"
    obtain w1 s1 where pl: "(w1, s1) = (if tk_AgentRole t = RolePlanner then snd (handlePlannerOutput orc s w t out) else (w, s))"
      by (metis surj_pair)
    define s2 where "s2 = (if tk_AgentRole t = RoleDiagnostician then snd (handleDiagnosticianOutput orc cfg s1 w1 t out) else s1)"
    have r1: "reaches rc W D s ?H s1 ?H \<and> wf_ID w1 = W \<and> wf_MaxDepth w1 = D"
      using pl handlePlannerOutput_step[OF Cons.prems(1-3), of orc t out] Cons.prems(1-3) reaches_refl[OF Cons.prems(1)]
      by (cases "handlePlannerOutput orc s w t out") (auto split: if_splits)
    have row: "tasks s (tk_ID t) = Some t" "tk_Status t = TaskCompleted" "tk_WorkflowID t = W"
      using Cons.prems(4) p by (auto simp: delivered_def)
    have row1: "tasks s1 (tk_ID t) = Some t" using reaches_completed[OF Cons.prems(1) _ row(1,2)] r1 by blast
    have fresh: "tk_ID t \<notin> unhandled rs" using Cons.prems(5) p by (force simp: unhandled_def)
    have r2: "reaches rc W D s1 ?H s2 (unhandled rs)"
    proof (cases "tk_OriginalTaskID t = None")
      case True
      then show ?thesis using p r1 reaches_good by (auto simp: s2_def handleDiagnosticianOutput_orphan reaches_def)
    next
      case False
      have "tk_AgentRole t = RoleDiagnostician"
        using reaches_good[of rc W D s ?H s1 ?H] r1 machine_okD(2)[of rc W D "tasks s1" ?H "tk_ID t" t] row1 row(3) False
        by (auto simp: good_def row_ok_def)
      then show ?thesis
        using handleDiagnosticianOutput_step[of rc W D s1 ?H t orc cfg w1 out] r1 row1 False p fresh reaches_good[of rc W D s ?H s1 ?H]
        by (auto simp: s2_def)
    qed
    have r: "reaches rc W D s ?H s2 (unhandled rs)" using reaches_trans[of rc W D s ?H s1 ?H s2] r1 r2 by blast
    have rest: "handle_results orc cfg rs (w1\<lparr>wf_BudgetSpentUSD := wf_BudgetSpentUSD w1 + aout_CostUSD out\<rparr>) s2 = (w', s')"
      using Cons.prems(6) by (simp only: p handle_results.simps pl[symmetric] Let_def prod.case s2_def)
    have "list_all (\<lambda>p. isl (snd p) \<or> delivered W s2 p) rs"
      using Cons.prems(4) reaches_completed[OF Cons.prems(1) r] by (auto simp: list_all_iff delivered_def)
    then show ?thesis
      using Cons.IH[OF reaches_good[OF r] _ _ _ _ rest] Cons.prems(5) r1 reaches_trans[OF r] by auto
  qed
qed

section \<open>Recovery, cancellation and the loop\<close>

lemma initiateRecovery_step:
  assumes g: "good rc W D s H" and w: "wf_ID w = W" "wf_MaxDepth w = D"
    and t: "tasks s (tk_ID t) = Some t" "tk_WorkflowID t = W" "tk_Status t = TaskFailed" "tk_RetryCount t < retry_cap rc t"
      "tk_Depth t + 1 < D"
    and run: "initiateRecovery orc s w t = (e, w', s')"
  shows "reaches rc W D s H s' H \<and> wf_ID w' = W \<and> wf_MaxDepth w' = D \<and>
    (\<forall>u. tk_ID u \<noteq> tk_ID t \<and> tasks s (tk_ID u) = Some u \<longrightarrow> tasks s' (tk_ID u) = Some u)"
proof -
  define t1 where "t1 = t\<lparr>tk_Status := TaskRecovering, tk_UpdatedAt := clock orc s\<rparr>"
  have t1: "tk_ID t1 = tk_ID t" "t1\<lparr>tk_UpdatedAt := clock orc s\<rparr> = t1" "same_task t t1" "tk_Status t1 = TaskRecovering"
    "tk_RetryCount t1 = tk_RetryCount t" "tk_Depth t1 = tk_Depth t" by (simp_all add: t1_def)
  obtain s1 where ok: "upd_task orc s t1 = (None, s1)"
    using upd_task_known(1)[of s t1 t orc] t t1 by (cases "upd_task orc s t1") auto
  have rows: "tasks s1 = (tasks s)(tk_ID t \<mapsto> t1)" using upd_task_known(2)[of s t1 t orc] t t1 ok by simp
  have k1: "store_ok (sc_store s1)" "flow_kept W D s1" "clock orc s1 = clock orc s"
    using g ok upd_task_frame(2)[of orc s t1] by (auto simp: upd_task_def case_prod_beta good_def flow_kept_def)
  obtain i s2 where dr: "draw orc s1 = (i, s2)" by fastforce
  have s2: "sc_store s2 = sc_store s1" using draw_frame(1)[of orc s1] dr by simp
  let ?d = "diagnostician_task orc w t1 (clock orc s) i"
  obtain c st where c: "CreateTask (sc_store s2) ?d = (c, st)" by fastforce
  show ?thesis
  proof (cases c)
    case None
    let ?s3 = "s2\<lparr>sc_store := st\<rparr>"
    have new: "tasks s1 (tk_ID ?d) = None" using CreateTask_new[of s2 ?d st] c None s2 by simp
    have e: "task_map st = (tasks s)(tk_ID t \<mapsto> t1, tk_ID ?d \<mapsto> ?d)"
      using mem_tasks.create_new[of "sc_store s2" ?d] new c s2 rows by simp
    have step: "task_step rc W D (tasks s, H) (task_map st, H)"
      unfolding e by (rule recover) (use t t1 w new rows in \<open>auto simp: diagnostician_task_def split: if_splits\<close>)
    have "machine_ok rc W D (task_map st, H)" using task_step_keeps_ok[OF _ step] g by (simp add: good_def)
    moreover have "store_ok st" "wf_map st = wf_map (sc_store s2)"
      using CreateTask_ok wf_map_frames(3) k1(1) s2 c by (metis snd_conv)+
    ultimately have g3: "good rc W D ?s3 H" using k1 s2 by (simp add: good_def flow_kept_def)
    obtain w3 where r: "w' = w3" "wf_ID w3 = W" "wf_MaxDepth w3 = D" "tasks s' = tasks ?s3" "good rc W D s' H"
      using run ok dr c None w upd_flow_good[OF g3] unfolding initiateRecovery_def Let_def t1_def[symmetric] by fastforce
    then show ?thesis using step e new rows by (auto simp: reaches_def)
  next
    case (Some x)
    let ?t2 = "t1\<lparr>tk_Status := TaskFailed\<rparr>" and ?s2 = "s2\<lparr>sc_store := st\<rparr>"
    have st: "st = sc_store s1" using CreateTask_refused[of s2 ?d x st] c Some s2 by simp
    have r: "w' = w" "s' = snd (upd_task orc ?s2 ?t2)"
      using run ok dr c Some unfolding initiateRecovery_def Let_def t1_def[symmetric] by auto
    have fin: "tasks s' = (tasks s)(tk_ID t \<mapsto> ?t2\<lparr>tk_UpdatedAt := clock orc ?s2\<rparr>)"
      unfolding r(2) using upd_task_known(2)[of ?s2 ?t2 t1 orc] rows st t1 by simp
    have step: "task_step rc W D (tasks s, H) (tasks s', H)"
      unfolding fin by (rule fail) (use t t1 in auto)
    have "store_ok (sc_store s')" "flow_kept W D s'"
      unfolding r(2) using k1 st by (simp_all add: upd_task_def case_prod_beta flow_kept_def)
    then have "good rc W D s' H" using task_step_keeps_ok[OF _ step] g by (simp add: good_def)
    then show ?thesis using step r w fin by (auto simp: reaches_def)
  qed
qed

lemma recover_failed_step:
  assumes "good (ec_Recovery cfg) W D s H" "wf_ID w = W" "wf_MaxDepth w = D"
    "\<And>t. t \<in> set ts \<Longrightarrow> tasks s (tk_ID t) = Some t \<and> tk_WorkflowID t = W" "distinct (map tk_ID ts)"
    "recover_failed orc cfg ts w s = (b, w', s')"
  shows "reaches (ec_Recovery cfg) W D s H s' H \<and> wf_ID w' = W \<and> wf_MaxDepth w' = D"
  using assms
proof (induction ts arbitrary: w s b)
  case Nil
  then show ?case by (simp add: reaches_refl)
next
  case (Cons t ts)
  show ?case
  proof (cases "tk_Status t = TaskFailed \<and> shouldAttemptRecovery cfg s w t")
    case False
    then show ?thesis using Cons.IH[OF Cons.prems(1-3), of b] Cons.prems(4-6) by auto
  next
    case True
    have lim: "tk_RetryCount t < retry_cap (ec_Recovery cfg) t" "tk_Depth t + 1 < D"
      using True Cons.prems(3) by (auto simp: shouldAttemptRecovery_def retry_cap_def split: option.splits if_splits)
    obtain e w1 s1 where i: "initiateRecovery orc s w t = (e, w1, s1)" by (cases "initiateRecovery orc s w t")
    obtain b1 where r: "recover_failed orc cfg ts w1 s1 = (b1, w', s')"
      using Cons.prems(6) True i by (auto simp: case_prod_beta prod_eq_iff)
    have st: "reaches (ec_Recovery cfg) W D s H s1 H" "wf_ID w1 = W" "wf_MaxDepth w1 = D"
      "\<And>u. tk_ID u \<noteq> tk_ID t \<Longrightarrow> tasks s (tk_ID u) = Some u \<Longrightarrow> tasks s1 (tk_ID u) = Some u"
      using initiateRecovery_step[OF Cons.prems(1-3) _ _ _ lim i] Cons.prems(4)[of t] True by auto
    have "tasks s1 (tk_ID u) = Some u \<and> tk_WorkflowID u = W" if "u \<in> set ts" for u
    proof -
      have "tk_ID u \<noteq> tk_ID t"
        using Cons.prems(5) that by (metis distinct.simps(2) image_eqI list.set_map list.simps(9))
      then show ?thesis using st(4)[of u] Cons.prems(4)[of u] that by simp
    qed
    then show ?thesis
      using Cons.IH[OF reaches_good[OF st(1)] st(2,3) _ _ r] Cons.prems(5) reaches_trans[OF st(1)] by auto
  qed
qed

lemma skip_open_step:
  assumes "good rc W D s H" "\<And>t. t \<in> set ts \<Longrightarrow> tasks s (tk_ID t) = Some t \<and> tk_WorkflowID t = W" "distinct (map tk_ID ts)"
  shows "reaches rc W D s H (skip_open orc ts s) H"
  using assms
proof (induction ts arbitrary: s)
  case Nil
  then show ?case by (simp add: reaches_refl)
next
  case (Cons t ts)
  show ?case
  proof (cases "tk_Status t \<in> {TaskPending, TaskBlocked}")
    case False
    then show ?thesis using Cons by auto
  next
    case True
    let ?t = "t\<lparr>tk_Status := TaskSkipped, tk_UpdatedAt := clock orc s\<rparr>"
    let ?s = "snd (upd_task orc s ?t)"
    have t: "tasks s (tk_ID t) = Some t" "tk_WorkflowID t = W" using Cons.prems(2)[of t] by auto
    have st: "reaches rc W D s H ?s H"
      by (rule upd_task_step[OF Cons.prems(1), of _ t]) (use t True in \<open>auto intro!: skip\<close>)
    have rows: "tasks ?s (tk_ID u) = Some u \<and> tk_WorkflowID u = W" if "u \<in> set ts" for u
    proof -
      have "tk_ID u \<noteq> tk_ID t"
        using Cons.prems(3) that by (metis distinct.simps(2) image_eqI list.set_map list.simps(9))
      then show ?thesis using upd_task_known(2)[of s ?t t orc] t Cons.prems(2)[of u] that by simp
    qed
    have "reaches rc W D ?s H (skip_open orc ts ?s) H"
      using Cons.IH[OF reaches_good[OF st] rows] Cons.prems(3) by simp
    then show ?thesis using reaches_trans[OF st] True by auto
  qed
qed

lemma listed_rows:
  assumes "good rc W D s H"
  shows "t \<in> set (ListTasksByWorkflow (sc_store s) W) \<Longrightarrow> tasks s (tk_ID t) = Some t \<and> tk_WorkflowID t = W"
    "distinct (map tk_ID (ListTasksByWorkflow (sc_store s) W))"
  using assms by (simp_all add: good_def set_tasks_of ListTasksByWorkflow_def distinct_map_sort_key distinct_tasks_of)

lemma ready_startable:
  assumes "good rc W D s H" "t \<in> set (GetReadyTasks (sc_store s) W)"
  shows "startable W s t"
  using assms by (auto simp: good_def set_GetReadyTasks completed_in_iff startable_def deps_done_def)

lemma reorder_perm [simp]:
  "set (reorderBySkillScore orc cfg s i ts) = set ts"
  "distinct (map tk_ID (reorderBySkillScore orc cfg s i ts)) = distinct (map tk_ID ts)"
  by (simp_all add: reorderBySkillScore_def Let_def distinct_map_sort_key split: option.split)

lemma finishWorkflow_step:
  assumes "good rc W D s H" "wf_ID w = W" "wf_MaxDepth w = D" "finishWorkflow orc s w st msg = (e, w', s')"
  shows "reaches rc W D s H s' H \<and> wf_ID w' = W \<and> wf_MaxDepth w' = D \<and> wf_Status w' = st \<and> tasks s' = tasks s"
proof -
  define v where "v = w\<lparr>wf_Status := st, wf_CompletedAt := Some (clock orc s), wf_UpdatedAt := clock orc s, wf_Error := msg\<rparr>"
  have v: "wf_ID v = W" "wf_MaxDepth v = D" "wf_Status v = st" using assms by (simp_all add: v_def)
  have "w' = v" "s' = snd (upd_flow orc s v)"
    using assms(4) unfolding finishWorkflow_def Let_def v_def[symmetric] by (auto split: prod.splits option.splits)
  then show ?thesis using v upd_flow_good[OF assms(1) v(1,2), of orc] by (simp add: reaches_def)
qed

lemma cancelWorkflow_step:
  assumes g: "good rc W D s H" "wf_ID w = W" "wf_MaxDepth w = D" and run: "cancelWorkflow orc s w = (e, w', s')"
  shows "reaches rc W D s H s' H \<and> wf_ID w' = W \<and> wf_MaxDepth w' = D"
proof -
  let ?s1 = "skip_open orc (ListTasksByWorkflow (sc_store s) W) s"
  have r: "reaches rc W D s H ?s1 H" by (rule skip_open_step[OF g(1)]) (use listed_rows[OF g(1)] in auto)
  have w': "wf_ID w' = W" "wf_MaxDepth w' = D" "s' = snd (upd_flow orc ?s1 w')"
    using run g by (auto simp: cancelWorkflow_def Let_def)
  show ?thesis
    using r w' upd_flow_good[OF reaches_good[OF r] w'(1,2), of orc] by (simp add: reaches_def)
qed

text \<open>A channel delivers every result once; only the order is open.\<close>

definition delivers_all :: "'w outside \<Rightarrow> bool" where
  "delivers_all orc \<longleftrightarrow> (\<forall>rs. mset (or_arrival orc rs) = mset rs)"

lemma delivers_all_facts:
  assumes "delivers_all orc"
  shows "set (or_arrival orc rs) = set rs" "unhandled (or_arrival orc rs) = unhandled rs"
    "distinct (map (\<lambda>p. tk_ID (fst p)) (or_arrival orc rs)) = distinct (map (\<lambda>p. tk_ID (fst p)) rs)"
proof -
  have m: "mset (or_arrival orc rs) = mset rs" using assms by (simp add: delivers_all_def)
  show s: "set (or_arrival orc rs) = set rs" using mset_eq_setD[OF m] .
  show "unhandled (or_arrival orc rs) = unhandled rs" by (simp add: unhandled_def s)
  show "distinct (map (\<lambda>p. tk_ID (fst p)) (or_arrival orc rs)) = distinct (map (\<lambda>p. tk_ID (fst p)) rs)"
    using m by (metis mset_map mset_eq_imp_distinct_iff)
qed

definition loop_ok :: "EngineConfig \<Rightarrow> uuid \<Rightarrow> int \<Rightarrow> 'w sched \<Rightarrow> Workflow \<Rightarrow> bool" where
  "loop_ok cfg W D s w \<longleftrightarrow> good (ec_Recovery cfg) W D s {} \<and> wf_ID w = W \<and> wf_MaxDepth w = D"

lemma reaches_loop_ok:
  assumes "reaches (ec_Recovery cfg) W D s {} s' {}" "wf_ID w' = W" "wf_MaxDepth w' = D"
  shows "reaches (ec_Recovery cfg) W D s {} s' {} \<and> loop_ok cfg W D s' w'"
  using assms reaches_good[OF assms(1)] by (simp add: loop_ok_def)

lemma finish_loop_ok:
  assumes "reaches (ec_Recovery cfg) W D s {} s1 {}" "wf_ID w = W" "wf_MaxDepth w = D" "finishWorkflow orc s1 w st msg = (e, w', s')"
  shows "reaches (ec_Recovery cfg) W D s {} s' {} \<and> loop_ok cfg W D s' w'"
proof -
  have f: "reaches (ec_Recovery cfg) W D s1 {} s' {}" "wf_ID w' = W" "wf_MaxDepth w' = D"
    using finishWorkflow_step[OF reaches_good[OF assms(1)] assms(2-4)] by auto
  show ?thesis by (rule reaches_loop_ok[OF reaches_trans[OF assms(1) f(1)] f(2,3)])
qed

lemma quiescent_step:
  assumes ok: "loop_ok cfg W D s w" and run: "quiescent orc cfg s w (ListTasksByWorkflow (sc_store s) W) = (r, w', s')"
  shows "reaches (ec_Recovery cfg) W D s {} s' {} \<and> loop_ok cfg W D s' w'"
proof -
  let ?all = "ListTasksByWorkflow (sc_store s) W"
  have g: "good (ec_Recovery cfg) W D s {}" "wf_ID w = W" "wf_MaxDepth w = D" using ok by (auto simp: loop_ok_def)
  obtain b w1 s1 where a: "(if countByStatus ?all TaskFailed > 0 \<and> (case ec_Recovery cfg of None \<Rightarrow> False | Some rc \<Rightarrow> rc_Enabled rc)
      then recover_failed orc cfg ?all w s else (False, w, s)) = (b, w1, s1)" by (metis surj_pair)
  have r: "reaches (ec_Recovery cfg) W D s {} s1 {}" "wf_ID w1 = W" "wf_MaxDepth w1 = D"
    using a g reaches_refl[OF g(1)] recover_failed_step[OF g, of ?all orc b w1 s1] listed_rows[OF g(1)] by (auto split: if_splits)
  show ?thesis
  proof (cases b)
    case True
    then have "w' = w1" "s' = s1" using run a by (auto simp: quiescent_def Let_def)
    then show ?thesis using r reaches_good[OF r(1)] by (simp add: loop_ok_def)
  next
    case False
    then obtain st msg e where f: "finishWorkflow orc s1 w1 st msg = (e, w', s')"
      using run a by (auto simp: quiescent_def Let_def split: if_splits prod.splits)
    then show ?thesis using finish_loop_ok[OF r] by blast
  qed
qed

lemma dispatch_step:
  assumes ok: "loop_ok cfg W D s w" and arr: "delivers_all orc"
    and batch: "\<And>t. t \<in> set ts \<Longrightarrow> startable W s t" "distinct (map tk_ID ts)"
    and run: "dispatch orc cfg s w ts = (r, w', s')"
  shows "reaches (ec_Recovery cfg) W D s {} s' {} \<and> loop_ok cfg W D s' w'"
proof -
  have g: "good (ec_Recovery cfg) W D s {}" "wf_ID w = W" "wf_MaxDepth w = D" using ok by (auto simp: loop_ok_def)
  obtain rs s1 where b: "run_batch orc w ts s = (rs, s1)" by fastforce
  obtain w1 s2 where h: "handle_results orc cfg (or_arrival orc rs) w s1 = (w1, s2)" by fastforce
  define w2 where "w2 = (case GetWorkflow (sc_store s2) (wf_ID w1) of Inr latest \<Rightarrow> latest | Inl _ \<Rightarrow> w1)"
  have r1: "reaches (ec_Recovery cfg) W D s {} s1 (unhandled rs)" "list_all (delivered W s1) rs" "distinct (map (\<lambda>p. tk_ID (fst p)) rs)"
    using run_batch_step[OF g(1) batch b] batch(2) by auto
  have r2: "reaches (ec_Recovery cfg) W D s1 (unhandled rs) s2 {} \<and> wf_ID w1 = W \<and> wf_MaxDepth w1 = D"
    using handle_results_step[of "ec_Recovery cfg" W D s1 "or_arrival orc rs" w orc cfg w1 s2] reaches_good[OF r1(1)] g h r1(2,3)
    by (auto simp: delivers_all_facts[OF arr] list_all_iff)
  have r: "reaches (ec_Recovery cfg) W D s {} s2 {}" using reaches_trans[OF r1(1)] r2 by blast
  have w2: "wf_ID w2 = W" "wf_MaxDepth w2 = D"
    using r2 reaches_good[OF r] by (auto simp: w2_def GetWorkflow_def good_def flow_kept_def wf_map_def split: option.split)
  show ?thesis
  proof (cases "wf_BudgetLimitUSD w2 > 0 \<and> wf_BudgetSpentUSD w2 > wf_BudgetLimitUSD w2")
    case True
    then obtain e msg where f: "finishWorkflow orc s2 w2 WorkflowFailed msg = (e, w', s')"
      using run b h by (auto simp: dispatch_def Let_def w2_def[symmetric] split: prod.splits)
    then show ?thesis using finish_loop_ok[OF r w2] by blast
  next
    case False
    then have "w' = w2" "s' = s2" using run b h by (auto simp: dispatch_def Let_def w2_def[symmetric])
    then show ?thesis using r w2 reaches_good[OF r] by (simp add: loop_ok_def)
  qed
qed

lemma if_chain:
  "x = (if a then c else if b then q else if d then i else if e then i else f n) \<Longrightarrow> a \<or> x = q \<or> x = i \<or> (\<exists>n. x = f n)"
  by auto

lemma iterate_step:
  assumes ok: "loop_ok cfg W D s w" and arr: "delivers_all orc" and run: "iterate orc cfg s w = (r, w', s')"
  shows "reaches (ec_Recovery cfg) W D s {} s' {} \<and> loop_ok cfg W D s' w'"
proof -
  have g: "good (ec_Recovery cfg) W D s {}" "wf_ID w = W" "wf_MaxDepth w = D" using ok by (auto simp: loop_ok_def)
  define ready where "ready = reorderBySkillScore orc cfg s (wf_OrgID w) (GetReadyTasks (sc_store s) W)"
  have ready: "startable W s t" if "t \<in> set (take n ready)" for t n
    using ready_startable[OF g(1), of t] in_set_takeD[OF that] by (simp add: ready_def)
  have dist: "distinct (map tk_ID (take n ready))" for n
    using distinct_GetReadyTasks[of "sc_store s" W] g(1) by (simp add: ready_def good_def distinct_take take_map[symmetric])
  have "or_cancelled orc (sc_tick s) \<or> iterate orc cfg s w = quiescent orc cfg s w (ListTasksByWorkflow (sc_store s) W) \<or>
      iterate orc cfg s w = (None, w, wait s) \<or> (\<exists>n. iterate orc cfg s w = dispatch orc cfg s w (take n ready))"
    by (rule if_chain[where f = "\<lambda>n. dispatch orc cfg s w (take n ready)"]) (unfold iterate_def Let_def g(2) ready_def, rule refl)
  then consider (cancel) "or_cancelled orc (sc_tick s)"
    | (quiet) "iterate orc cfg s w = quiescent orc cfg s w (ListTasksByWorkflow (sc_store s) W)"
    | (idle) "iterate orc cfg s w = (None, w, wait s)" | (go) n where "iterate orc cfg s w = dispatch orc cfg s w (take n ready)"
    by blast
  then show ?thesis
  proof cases
    case cancel
    then obtain e where "cancelWorkflow orc s w = (e, w', s')" using run by (auto simp: iterate_def split: prod.splits)
    then show ?thesis using cancelWorkflow_step[OF g] reaches_loop_ok by blast
  next
    case quiet
    then show ?thesis using quiescent_step[OF ok trans[OF sym run]] by simp
  next
    case idle
    then have "w' = w" "s' = wait s" using run by auto
    then show ?thesis using ok by (simp add: loop_ok_def reaches_def)
  next
    case go
    then show ?thesis using dispatch_step[OF ok arr ready dist trans[OF sym run]] by simp
  qed
qed

lemma run_step:
  assumes "loop_ok cfg W D s w" "delivers_all orc" "run n orc cfg s w = (r, w', s')"
  shows "reaches (ec_Recovery cfg) W D s {} s' {} \<and> loop_ok cfg W D s' w'"
  using assms
proof (induction n arbitrary: s w)
  case 0
  then show ?case by (auto simp: loop_ok_def reaches_refl)
next
  case (Suc n)
  obtain x w1 s1 where i: "iterate orc cfg s w = (x, w1, s1)" by (cases "iterate orc cfg s w")
  have st: "reaches (ec_Recovery cfg) W D s {} s1 {}" "loop_ok cfg W D s1 w1" using iterate_step[OF Suc.prems(1,2) i] by auto
  show ?case
  proof (cases x)
    case None
    then show ?thesis using Suc.IH[OF st(2) Suc.prems(2)] Suc.prems(3) i reaches_trans[OF st(1)] by auto
  qed (use Suc.prems(3) i st in auto)
qed

section \<open>From submission\<close>

text \<open>Every stored task belongs to a stored workflow.\<close>

definition tasks_filed :: "InMemoryStore \<Rightarrow> bool" where
  "tasks_filed st \<longleftrightarrow> (\<forall>i t. task_map st i = Some t \<longrightarrow> wf_map st (tk_WorkflowID t) \<noteq> None)"

lemma Submit_loop_ok:
  assumes st: "store_ok (sc_store s)" "tasks_filed (sc_store s)" and sub: "Submit orc cfg s req = (Inr w, s1)"
  shows "loop_ok cfg (wf_ID w) (wf_MaxDepth w) s1 w"
proof -
  let ?W = "fst (draw orc s)" and ?D = "if wr_MaxDepth req \<le> 0 then maxDepth cfg else wr_MaxDepth req"
  have D: "0 < ?D" by (simp add: maxDepth_def)
  define w0 where "w0 = new_workflow cfg req (clock orc s) ?W"
  define root where "root = root_task req (clock orc s) ?W (fst (draw orc (snd (draw orc s))))"
  obtain a x where c: "CreateWorkflow (sc_store s) w0 = (x, a)" by fastforce
  obtain b y where d: "CreateTask a root = (y, b)" by fastforce
  have x: "x = None" using sub c by (auto simp: Submit_def Let_def draw_def w0_def split: option.splits)
  have y: "y = None" using sub c d x by (auto simp: Submit_def Let_def draw_def w0_def root_def split: option.splits)
  define s2 where "s2 = s\<lparr>sc_tick := Suc (Suc (sc_tick s)), sc_store := b\<rparr>"
  have u: "sc_store s2 = b" "s1 = snd (upd_flow orc s2 w)" "wf_ID w = ?W" "wf_MaxDepth w = ?D"
    using sub c d x y
    by (auto simp: Submit_def Let_def draw_def w0_def root_def new_workflow_def s2_def split: option.splits prod.splits)
  have w0: "wf_ID w0 = ?W" by (simp add: w0_def new_workflow_def)
  have r: "CreateTask a root = (None, b)" "tk_WorkflowID root = ?W" "tk_Status root = TaskPending" "tk_OriginalTaskID root = None"
        "tk_RetryCount root = 0" "tk_Depth root = 0"
    using d y by (simp_all add: root_def root_task_def)
  have rows: "task_map a = tasks s" "store_ok a" "wf_map (sc_store s) ?W = None"
    using c x w0 st(1) by (auto simp: CreateWorkflow_def wf_map_def task_map_def store_ok_def split: if_splits)
  have none: "tk_WorkflowID t \<noteq> ?W" if "tasks s i = Some t" for i t
    using st(2) that rows(3) unfolding tasks_filed_def by metis
  then have start: "machine_ok (ec_Recovery cfg) ?W ?D (task_map a, {})"
    using st(1) by (auto simp: machine_ok_def recovery_ok_def rows(1) dest: store_ok_ID)
  have b: "task_map b = (task_map a)(tk_ID root \<mapsto> root)" "task_map a (tk_ID root) = None"
    using mem_tasks.create_new[of a root] mem_tasks.create_known[of a root] r(1) by fastforce+
  have "machine_ok (ec_Recovery cfg) ?W ?D (task_map b, {})"
    unfolding b(1) by (rule row_create[OF start]) (use b(2) r D in auto)
  moreover have "store_ok b" using CreateTask_ok[OF rows(2), of root] r(1) by simp
  moreover have "wf_map b ?W \<noteq> None"
    using wf_map_frames(3)[of a root] r(1) c x w0 by (auto simp: CreateWorkflow_def wf_map_def update_conv' split: if_splits)
  ultimately have "good (ec_Recovery cfg) ?W ?D s1 {}"
    using u by (auto simp: good_def flow_kept_def upd_flow_def case_prod_beta wf_map_UpdateWorkflow)
  then show ?thesis using u by (simp add: loop_ok_def)
qed

end
