(* ===== verification/SchedulerTheorems.thy ===== *)
theory SchedulerTheorems
  imports SchedulerRuns
begin

text \<open>
  What the refinement gives for the code: the theorems about every run of the scheduling loop on a
  submitted workflow, and two behaviours of the loop that its comments do not promise (a recovery
  that waits forever, a batch whose spend is forgotten). The runs of the witnesses use a small
  environment whose agents answer fixed texts.
\<close>

lemma submitted_run:
  assumes "store_ok (sc_store s0)" "tasks_filed (sc_store s0)" "delivers_all orc"
    "Submit orc cfg s0 req = (Inr w, s)" "run n orc cfg s w = (r, w', s')"
  shows "good (ec_Recovery cfg) (wf_ID w) (wf_MaxDepth w) s {}"
    and "reaches (ec_Recovery cfg) (wf_ID w) (wf_MaxDepth w) s {} s' {}"
  using Submit_loop_ok[OF assms(1,2,4)] run_step[OF Submit_loop_ok[OF assms(1,2,4)] assms(3,5)] by (auto simp: loop_ok_def)

section \<open>An environment\<close>

definition demo_spec :: "string \<Rightarrow> int list \<Rightarrow> TaskSpec" where
  "demo_spec role deps = \<lparr>ts_AgentRole = role, ts_Description = ''d'', ts_Input = ''i'', ts_Mode = [], ts_DependsOn = deps, ts_Priority = 0\<rparr>"

text \<open>The agents share a counter; the executor fails as long as it is below a limit.\<close>

definition demo_agents :: "nat \<Rightarrow> string \<Rightarrow> AgentRole \<Rightarrow> string + (nat \<Rightarrow> AgentInput \<Rightarrow> (string + AgentOutput) \<times> nat)" where
  "demo_agents failures advice role =
     Inr (\<lambda>k inp. if role = RolePlanner then (Inr \<lparr>aout_Response = ''p'', aout_TokensUsed = 0, aout_CostUSD = 1 / 10\<rparr>, k)
          else if role = RoleDiagnostician
          then (if advice = [] then (Inl ''unreachable'', k) else (Inr \<lparr>aout_Response = advice, aout_TokensUsed = 0, aout_CostUSD = 1 / 10\<rparr>, k))
          else if k < failures then (Inl ''boom'', Suc k) else (Inr \<lparr>aout_Response = ''done'', aout_TokensUsed = 0, aout_CostUSD = 9 / 10\<rparr>, Suc k))"

definition demo_orc :: "nat \<Rightarrow> string \<Rightarrow> nat outside" where
  "demo_orc failures advice = \<lparr>or_clock = int, or_fresh = (\<lambda>n. word_of_nat (Suc n)), or_cancelled = (\<lambda>_. False),
     or_agents = demo_agents failures advice,
     or_plan = (\<lambda>_. Inr [demo_spec RoleExecutor [], demo_spec RoleExecutor [0]]),
     or_decision = (\<lambda>a. Inr \<lparr>rd_Action = a, rd_Reason = [], rd_Confidence = 1\<rparr>),
     or_ustr = (\<lambda>_. []), or_text = (\<lambda>_. ''e''), or_arrival = (\<lambda>rs. rs)\<rparr>"

definition demo_cfg :: EngineConfig where
  "demo_cfg = \<lparr>ec_DefaultBudgetLimitUSD = 0, ec_DefaultMaxDepth = 0, ec_DefaultMaxTasks = 0, ec_MaxConcurrentTasks = 0,
     ec_ExternalAgents = False, ec_Scorer = None,
     ec_Recovery = Some \<lparr>rc_Enabled = True, rc_MaxRetries = 0, rc_RecoveryBudgetPct = 0, rc_AllowRetry = True\<rparr>\<rparr>"

definition demo_req :: WorkflowRequest where
  "demo_req = \<lparr>wr_UserID = ''u'', wr_OrgID = 7, wr_Goal = ''g'', wr_CorrelationID = ''c'', wr_BudgetLimitUSD = 0, wr_MaxDepth = 0, wr_MaxTasks = 0\<rparr>"

definition demo_start :: "nat sched" where
  "demo_start = \<lparr>sc_store = NewInMemoryStore, sc_skills = None, sc_world = 0, sc_tick = 0\<rparr>"

definition demo_run :: "nat \<Rightarrow> nat \<Rightarrow> string \<Rightarrow> sched_error option option \<times> Workflow \<times> nat sched" where
  "demo_run n failures advice =
     (case Submit (demo_orc failures advice) demo_cfg demo_start demo_req of
        (Inr w, s) \<Rightarrow> run n (demo_orc failures advice) demo_cfg s w)"

lemma demo_facts:
  "store_ok (sc_store demo_start)" "tasks_filed (sc_store demo_start)" "delivers_all (demo_orc k a)"
  by (simp_all add: demo_start_def NewInMemoryStore_def store_ok_def tasks_filed_def task_map_def delivers_all_def demo_orc_def)

lemma demo_submitted:
  obtains w s where "Submit (demo_orc k a) demo_cfg demo_start demo_req = (Inr w, s)"
    and "\<And>n. run n (demo_orc k a) demo_cfg s w = demo_run n k a" and "wf_ID w = 1"
proof -
  have "fst (Submit (demo_orc k a) demo_cfg demo_start demo_req) \<noteq> Inl e \<and> wf_ID (projr (fst (Submit (demo_orc k a) demo_cfg demo_start demo_req))) = 1" for e
    by (simp add: Submit_def Let_def draw_def demo_start_def NewInMemoryStore_def demo_orc_def CreateWorkflow_def CreateTask_def
        upd_flow_def UpdateWorkflow_def new_workflow_def)
  then show thesis
    using that by (cases "Submit (demo_orc k a) demo_cfg demo_start demo_req"; cases "fst (Submit (demo_orc k a) demo_cfg demo_start demo_req)")
      (auto simp: demo_run_def)
qed

section \<open>Every run of a submitted workflow\<close>

text \<open>
  (C4) Whatever the agents answer and in whatever order results arrive, the rounds of the scheduling
  loop on a submitted workflow change its task rows only by steps of the task machine: a task is
  planned, started when its dependencies are complete, completed, failed, put under recovery below its
  retry cap, decided by its diagnostician, or skipped.
\<close>

theorem run_refines_task_machine:
  assumes "store_ok (sc_store s0)" "tasks_filed (sc_store s0)" "delivers_all orc"
    and "Submit orc cfg s0 req = (Inr w, s)" and "run n orc cfg s w = (r, w', s')"
  shows "(task_step (ec_Recovery cfg) (wf_ID w) (wf_MaxDepth w))\<^sup>*\<^sup>* (task_map (sc_store s), {}) (task_map (sc_store s'), {})"
  using submitted_run(2)[OF assms] by (simp add: reaches_def)

text \<open>
  (C5) Dependencies come first: after any number of rounds, a task of the workflow that has been started
  (it is running, completed, failed or under recovery) has all the tasks it depends on completed.
\<close>

theorem dependencies_complete_first:
  assumes "store_ok (sc_store s0)" "tasks_filed (sc_store s0)" "delivers_all orc"
    and "Submit orc cfg s0 req = (Inr w, s)" and "run n orc cfg s w = (r, w', s')"
    and "task_map (sc_store s') i = Some t" "tk_WorkflowID t = wf_ID w" "tk_Status t \<notin> {TaskPending, TaskBlocked, TaskSkipped}"
    and "d \<in> set (tk_DependsOn t)"
  shows "\<exists>u. task_map (sc_store s') d = Some u \<and> tk_WorkflowID u = wf_ID w \<and> tk_Status u = TaskCompleted"
proof -
  have "row_ok (ec_Recovery cfg) (wf_ID w) (wf_MaxDepth w) (tasks s') t"
    using reaches_good[OF submitted_run(2)[OF assms(1-5)]] machine_okD(2) assms(6,7) unfolding good_def by blast
  then show ?thesis using assms(8,9) by (auto simp: row_ok_def deps_done_def)
qed

text \<open>
  (C19) Recovery is bounded: no task is nested as deep as the workflow's depth limit, no task is retried more
  often than its cap, and a task under recovery still has a retry left.
\<close>

theorem recovery_bounded:
  assumes "store_ok (sc_store s0)" "tasks_filed (sc_store s0)" "delivers_all orc"
    and "Submit orc cfg s0 req = (Inr w, s)" and "run n orc cfg s w = (r, w', s')"
    and "task_map (sc_store s') i = Some t" "tk_WorkflowID t = wf_ID w" and "ec_Recovery cfg = Some rc"
  shows "tk_Depth t < wf_MaxDepth w \<and> tk_RetryCount t \<le> max_retries rc t \<and>
    (tk_Status t = TaskRecovering \<longrightarrow> tk_RetryCount t < max_retries rc t)"
proof -
  have "row_ok (ec_Recovery cfg) (wf_ID w) (wf_MaxDepth w) (tasks s') t"
    using reaches_good[OF submitted_run(2)[OF assms(1-5)]] machine_okD(2) assms(6,7) unfolding good_def by blast
  then show ?thesis using assms(8) by (auto simp: row_ok_def retry_cap_def)
qed

text \<open>
  (C20) Between any two moments of a run, a completed task keeps its row, its output included, and the
  tasks of every other workflow are exactly what they were.
\<close>

theorem completed_tasks_final:
  assumes "store_ok (sc_store s0)" "tasks_filed (sc_store s0)" "delivers_all orc"
    and "Submit orc cfg s0 req = (Inr w, s)"
    and "run n orc cfg s w = (r1, w1, s1)" "run k orc cfg s1 w1 = (r2, w2, s2)"
  shows "(task_map (sc_store s1) i = Some t \<and> tk_Status t = TaskCompleted \<longrightarrow> task_map (sc_store s2) i = Some t) \<and>
    (tk_WorkflowID t \<noteq> wf_ID w \<longrightarrow> (task_map (sc_store s2) i = Some t \<longleftrightarrow> task_map (sc_store s1) i = Some t))"
proof -
  have l: "loop_ok cfg (wf_ID w) (wf_MaxDepth w) s1 w1"
    using run_step[OF Submit_loop_ok[OF assms(1,2,4)] assms(3,5)] by blast
  have "kept_rows (wf_ID w) (tasks s1) (tasks s2)"
    using reaches_kept_rows[of "ec_Recovery cfg" "wf_ID w" "wf_MaxDepth w" s1 "{}" s2 "{}"] run_step[OF l assms(3,6)] l
    by (simp add: loop_ok_def)
  then show ?thesis by (auto simp: kept_rows_def)
qed

lemma demo_planned:
  "map_option (\<lambda>t. (tk_WorkflowID t, tk_Status t, tk_DependsOn t)) (task_map (sc_store (snd (snd (demo_run 3 0 ''skip'')))) 6) =
     Some (1, TaskCompleted, [5])"
  by code_simp

lemma demo_root_done:
  "map_option tk_Status (task_map (sc_store (snd (snd (demo_run 1 0 ''skip'')))) 2) = Some TaskCompleted"
  by code_simp

theorem run_refines_task_machine_witness:
  "\<exists>w s r w' s'. Submit (demo_orc 0 ''skip'') demo_cfg demo_start demo_req = (Inr w, s) \<and>
     run 1 (demo_orc 0 ''skip'') demo_cfg s w = (r, w', s') \<and> task_map (sc_store s') \<noteq> task_map (sc_store s) \<and>
     (task_step (ec_Recovery demo_cfg) (wf_ID w) (wf_MaxDepth w))\<^sup>*\<^sup>* (task_map (sc_store s), {}) (task_map (sc_store s'), {})"
proof -
  obtain w s where sub: "Submit (demo_orc 0 ''skip'') demo_cfg demo_start demo_req = (Inr w, s)"
    and r: "run 1 (demo_orc 0 ''skip'') demo_cfg s w = demo_run 1 0 ''skip''" by (rule demo_submitted[of 0 "''skip''"]) blast
  obtain x w' s' where e: "demo_run 1 0 ''skip'' = (x, w', s')" by (cases "demo_run 1 0 ''skip''")
  have "map_option tk_Status (task_map (sc_store s) 2) = Some TaskPending"
    using sub by (auto simp: Submit_def Let_def draw_def demo_start_def NewInMemoryStore_def demo_orc_def CreateWorkflow_def CreateTask_def
        upd_flow_def UpdateWorkflow_def new_workflow_def root_task_def task_map_def)
  then have "task_map (sc_store s') \<noteq> task_map (sc_store s)" using demo_root_done e by auto
  then show ?thesis
    using run_refines_task_machine[OF demo_facts sub, of 1 x w' s'] sub r e by (intro exI[of _ w] exI[of _ s]) auto
qed

theorem dependencies_complete_first_witness:
  "\<exists>w s r w' s' t. Submit (demo_orc 0 ''skip'') demo_cfg demo_start demo_req = (Inr w, s) \<and>
     run 3 (demo_orc 0 ''skip'') demo_cfg s w = (r, w', s') \<and>
     task_map (sc_store s') 6 = Some t \<and> tk_DependsOn t = [5] \<and> tk_Status t = TaskCompleted \<and>
     (\<exists>u. task_map (sc_store s') 5 = Some u \<and> tk_WorkflowID u = wf_ID w \<and> tk_Status u = TaskCompleted)"
proof -
  obtain w s where sub: "Submit (demo_orc 0 ''skip'') demo_cfg demo_start demo_req = (Inr w, s)"
    and r: "run 3 (demo_orc 0 ''skip'') demo_cfg s w = demo_run 3 0 ''skip''" "wf_ID w = 1" by (rule demo_submitted[of 0 "''skip''"]) blast
  obtain x w' s' where e: "demo_run 3 0 ''skip'' = (x, w', s')" by (cases "demo_run 3 0 ''skip''")
  obtain t where t: "task_map (sc_store s') 6 = Some t" "tk_WorkflowID t = 1" "tk_Status t = TaskCompleted" "tk_DependsOn t = [5]"
    using demo_planned e by auto
  show ?thesis
    using dependencies_complete_first[OF demo_facts sub, of 3 x w' s' 6 t 5] sub r e t
    by (intro exI[of _ w] exI[of _ s] exI[of _ x] exI[of _ w'] exI[of _ s'] exI[of _ t]) auto
qed

theorem recovery_bounded_witness:
  "\<exists>w s r w' s' t. Submit (demo_orc 0 ''skip'') demo_cfg demo_start demo_req = (Inr w, s) \<and>
     run 3 (demo_orc 0 ''skip'') demo_cfg s w = (r, w', s') \<and> task_map (sc_store s') 6 = Some t \<and>
     tk_RetryCount t \<le> max_retries (the (ec_Recovery demo_cfg)) t \<and> tk_Depth t < wf_MaxDepth w"
proof -
  obtain w s where sub: "Submit (demo_orc 0 ''skip'') demo_cfg demo_start demo_req = (Inr w, s)"
    and r: "run 3 (demo_orc 0 ''skip'') demo_cfg s w = demo_run 3 0 ''skip''" "wf_ID w = 1" by (rule demo_submitted[of 0 "''skip''"]) blast
  obtain x w' s' where e: "demo_run 3 0 ''skip'' = (x, w', s')" by (cases "demo_run 3 0 ''skip''")
  obtain t where t: "task_map (sc_store s') 6 = Some t" "tk_WorkflowID t = 1"
    using demo_planned e by auto
  have "ec_Recovery demo_cfg = Some (the (ec_Recovery demo_cfg))" by (simp add: demo_cfg_def)
  then show ?thesis
    using recovery_bounded[OF demo_facts sub, of 3 x w' s' 6 t "the (ec_Recovery demo_cfg)"] sub r e t
    by (intro exI[of _ w] exI[of _ s] exI[of _ x] exI[of _ w'] exI[of _ s'] exI[of _ t]) auto
qed

theorem completed_tasks_final_witness:
  "\<exists>w s r1 w1 s1 r2 w2 s2 t. Submit (demo_orc 0 ''skip'') demo_cfg demo_start demo_req = (Inr w, s) \<and>
     run 1 (demo_orc 0 ''skip'') demo_cfg s w = (r1, w1, s1) \<and> run 2 (demo_orc 0 ''skip'') demo_cfg s1 w1 = (r2, w2, s2) \<and>
     task_map (sc_store s1) 2 = Some t \<and> tk_Status t = TaskCompleted \<and> task_map (sc_store s2) 2 = Some t"
proof -
  obtain w s where sub: "Submit (demo_orc 0 ''skip'') demo_cfg demo_start demo_req = (Inr w, s)"
    and r: "run 1 (demo_orc 0 ''skip'') demo_cfg s w = demo_run 1 0 ''skip''" by (rule demo_submitted[of 0 "''skip''"]) blast
  obtain x w1 s1 where e: "demo_run 1 0 ''skip'' = (x, w1, s1)" by (cases "demo_run 1 0 ''skip''")
  obtain y w2 s2 where e2: "run 2 (demo_orc 0 ''skip'') demo_cfg s1 w1 = (y, w2, s2)" by (metis prod_cases3)
  obtain t where t: "task_map (sc_store s1) 2 = Some t" "tk_Status t = TaskCompleted" using demo_root_done e by auto
  show ?thesis
    using completed_tasks_final[OF demo_facts sub, of 1 x w1 s1 2 y w2 s2 2 t] sub r e e2 t
    by (intro exI[of _ w] exI[of _ s] exI[of _ x] exI[of _ w1] exI[of _ s1] exI[of _ y] exI[of _ w2] exI[of _ s2] exI[of _ t]) auto
qed

section \<open>Behaviours at the edges\<close>

lemma waiting_round:
  assumes "\<not> or_cancelled orc (sc_tick s)" and "GetReadyTasks (sc_store s) (wf_ID w) = []"
    and "countByStatus (ListTasksByWorkflow (sc_store s) (wf_ID w)) TaskRecovering > 0"
  shows "iterate orc cfg s w = (None, w, wait s)"
  using assms by (simp add: iterate_def Let_def reorderBySkillScore_def split: option.split)

text \<open>
  A recovery can wait forever: with no task ready and one still under recovery (its diagnostician failed, so
  nobody will decide it), the loop only waits, for any number of rounds, unless the workflow is cancelled.
\<close>

theorem recovery_waits_forever:
  assumes "\<And>k. \<not> or_cancelled orc k" and "GetReadyTasks (sc_store s) (wf_ID w) = []"
    and "countByStatus (ListTasksByWorkflow (sc_store s) (wf_ID w)) TaskRecovering > 0"
  shows "run n orc cfg s w = (None, w, s\<lparr>sc_tick := sc_tick s + n\<rparr>)"
  using assms(2,3)
proof (induction n arbitrary: s)
  case (Suc n)
  have "run n orc cfg (wait s) w = (None, w, (wait s)\<lparr>sc_tick := sc_tick (wait s) + n\<rparr>)"
    by (rule Suc.IH) (use Suc.prems in \<open>simp_all add: wait_def\<close>)
  then show ?case using waiting_round[OF assms(1) Suc.prems] by (simp add: wait_def)
qed simp

text \<open>The rows a failed diagnostician leaves behind.\<close>

definition stuck_state :: "nat sched" where
  "stuck_state = \<lparr>sc_store = \<lparr>st_workflows = [], st_tasks =
       [(5, (root_task demo_req 0 1 5)\<lparr>tk_Status := TaskRecovering\<rparr>),
        (10, (root_task demo_req 0 1 10)\<lparr>tk_Status := TaskFailed, tk_AgentRole := RoleDiagnostician, tk_OriginalTaskID := Some 5\<rparr>)], st_messages = []\<rparr>,
     sc_skills = None, sc_world = 0, sc_tick = 0\<rparr>"

theorem recovery_waits_forever_witness:
  "\<forall>n. run n (demo_orc 1 []) demo_cfg stuck_state (new_workflow demo_cfg demo_req 0 1) =
     (None, new_workflow demo_cfg demo_req 0 1, stuck_state\<lparr>sc_tick := n\<rparr>)"
proof -
  have "GetReadyTasks (sc_store stuck_state) 1 = []" "countByStatus (ListTasksByWorkflow (sc_store stuck_state) 1) TaskRecovering = 1"
    by (simp_all add: stuck_state_def root_task_def GetReadyTasks_def ListTasksByWorkflow_def tasks_of_def countByStatus_def Let_def)
  moreover have "wf_ID (new_workflow demo_cfg demo_req 0 1) = 1" "sc_tick stuck_state = 0" by (simp_all add: new_workflow_def stuck_state_def)
  moreover have "\<not> or_cancelled (demo_orc 1 []) k" for k by (simp add: demo_orc_def)
  ultimately show ?thesis
    using recovery_waits_forever[of "demo_orc 1 []" stuck_state "new_workflow demo_cfg demo_req 0 1"] by simp
qed

text \<open>A skipped task leaves its dependents pending, and the workflow is reported completed.\<close>

definition skipped_state :: "nat sched" where
  "skipped_state = stuck_state\<lparr>sc_store := \<lparr>st_workflows = [(1, new_workflow demo_cfg demo_req 0 1)], st_tasks =
       [(5, (root_task demo_req 0 1 5)\<lparr>tk_Status := TaskSkipped\<rparr>),
        (6, (root_task demo_req 0 1 6)\<lparr>tk_DependsOn := [5]\<rparr>)], st_messages = []\<rparr>\<rparr>"

lemma skip_completes_with_pending_work:
  "\<exists>w s. iterate (demo_orc 1 []) demo_cfg skipped_state (new_workflow demo_cfg demo_req 0 1) = (Some None, w, s) \<and>
     wf_Status w = WorkflowCompleted \<and> map_option tk_Status (task_map (sc_store s) 6) = Some TaskPending"
  by (simp add: iterate_def quiescent_def finishWorkflow_def upd_flow_def UpdateWorkflow_def skipped_state_def stuck_state_def
      demo_orc_def new_workflow_def root_task_def GetReadyTasks_def ListTasksByWorkflow_def tasks_of_def completed_in_def
      countByStatus_def Let_def reorderBySkillScore_def task_map_def clock_def demo_cfg_def)

text \<open>
  The spend of a batch without a planner is forgotten: whatever its tasks cost, the round ends with the
  workflow row as it was stored before, and the budget check has only seen the old amount.
\<close>

lemma failTask_rest: "st_workflows (sc_store (snd (failTask orc s t e))) = st_workflows (sc_store s)"
  "tk_AgentRole (fst (failTask orc s t e)) = tk_AgentRole t"
  by (simp_all add: failTask_def Let_def upd_task_def case_prod_beta)

lemma completeTask_rest: "st_workflows (sc_store (snd (snd (completeTask orc s w t out)))) = st_workflows (sc_store s)"
  "tk_AgentRole (fst (snd (completeTask orc s w t out))) = tk_AgentRole t"
  by (auto simp: completeTask_def Let_def upd_task_def save_msg_def case_prod_beta split: option.split prod.split)

lemma executeTask_rest: "st_workflows (sc_store (snd (snd (executeTask orc s w t)))) = st_workflows (sc_store s)"
  "tk_AgentRole (fst (snd (executeTask orc s w t))) = tk_AgentRole t"
  by (auto simp: executeTask_def Let_def upd_task_def failTask_rest completeTask_rest case_prod_beta split: option.split prod.split sum.split)

lemma run_batch_rest:
  "st_workflows (sc_store (snd (run_batch orc w ts s))) = st_workflows (sc_store s)"
  "map (\<lambda>(t, r). tk_AgentRole t) (fst (run_batch orc w ts s)) = map tk_AgentRole ts"
  by (induction ts arbitrary: s) (simp_all add: case_prod_beta executeTask_rest)

lemma upd_task_flows [simp]: "st_workflows (sc_store (snd (upd_task orc s t))) = st_workflows (sc_store s)"
  by (simp add: upd_task_def case_prod_beta)

lemma logRecoveryEvent_flows [simp]: "st_workflows (sc_store (logRecoveryEvent orc s w t d r)) = st_workflows (sc_store s)"
  by (simp add: logRecoveryEvent_def save_msg_def case_prod_beta)

lemma diagnostician_rest:
  "st_workflows (sc_store (snd (handleDiagnosticianOutput orc cfg s w d out))) = st_workflows (sc_store s)"
  by (simp add: handleDiagnosticianOutput_def recoveryFailed_def retryTask_def set_status_def Let_def case_prod_beta
      split: sum.split option.split)

lemma handle_results_rest:
  assumes "\<forall>(t, r) \<in> set rs. tk_AgentRole t \<noteq> RolePlanner"
  shows "st_workflows (sc_store (snd (handle_results orc cfg rs w s))) = st_workflows (sc_store s)"
    "wf_ID (fst (handle_results orc cfg rs w s)) = wf_ID w"
  using assms by (induction orc cfg rs w s rule: handle_results.induct) (auto simp: Let_def diagnostician_rest split: if_splits)

theorem batch_spend_forgotten:
  assumes "delivers_all orc" and "\<forall>t \<in> set ts. tk_AgentRole t \<noteq> RolePlanner"
    and "GetWorkflow (sc_store s) (wf_ID w) = Inr v" and "wf_BudgetSpentUSD v \<le> wf_BudgetLimitUSD v"
  shows "fst (dispatch orc cfg s w ts) = None \<and> fst (snd (dispatch orc cfg s w ts)) = v"
proof -
  obtain rs s1 where b: "run_batch orc w ts s = (rs, s1)" by fastforce
  have r: "\<forall>(t, r) \<in> set (or_arrival orc rs). tk_AgentRole t \<noteq> RolePlanner"
  proof -
    have "map (\<lambda>(t, r). tk_AgentRole t) rs = map tk_AgentRole ts" using run_batch_rest(2)[of orc w ts s] b by simp
    then have e: "(\<lambda>(t, r). tk_AgentRole t) ` set rs = tk_AgentRole ` set ts" by (metis list.set_map)
    have "tk_AgentRole t \<in> tk_AgentRole ` set ts" if "(t, x) \<in> set rs" for t x
      using imageI[OF that, of "\<lambda>(t, r). tk_AgentRole t"] e by simp
    then have "tk_AgentRole t \<noteq> RolePlanner" if "(t, x) \<in> set rs" for t x
      using that assms(2) by (metis (no_types, lifting) imageE)
    then show ?thesis unfolding delivers_all_facts(1)[OF assms(1)] by auto
  qed
  obtain w1 s2 where h: "handle_results orc cfg (or_arrival orc rs) w s1 = (w1, s2)" by fastforce
  have g: "GetWorkflow (sc_store s2) (wf_ID w1) = Inr v"
    using handle_results_rest[OF r, of orc cfg w s1] run_batch_rest(1)[of orc w ts s] b h assms(3) by (simp add: GetWorkflow_def)
  have n: "(wf_BudgetLimitUSD v > 0 \<and> wf_BudgetSpentUSD v > wf_BudgetLimitUSD v) = False" using assms(4) by simp
  show ?thesis by (simp only: dispatch_def Let_def b h prod.case g sum.case n if_False fst_conv snd_conv simp_thms)
qed

end
