(* ===== verification/Fleet.thy ===== *)
theory Fleet
  imports Prelude "HOL-Library.AList"
begin

text \<open>
  The fleet of remote agents: the registry of connected agents with least-loaded routing
  (\<^verbatim>\<open>agent/registry.go\<close>) and the life cycle of dispatched tasks (\<^verbatim>\<open>gateway/ws/tasktracker.go\<close>). A connection
  pointer is a number; the Go maps are association lists whose order stands for the iteration order of the
  runtime, so what is proved of \<open>Route\<close> holds for every order.
\<close>

section \<open>The registry\<close>

datatype AgentStatus = AgentIdle | AgentBusy | AgentDraining

record AgentCapabilities =
  cap_AgentID :: string
  cap_Skills :: "string list"
  cap_Model :: string
  cap_MaxParallel :: int
  cap_Version :: string

record ConnectedAgent =
  ca_Info :: AgentCapabilities
  ca_Conn :: nat
  ca_ActiveTasks :: int
  ca_LastSeen :: time
  ca_Status :: AgentStatus
  ca_ConnectedAt :: time

record StaleAgent =
  sa_AgentID :: string
  sa_Conn :: nat
  sa_LastSeen :: time
  sa_ConnectedAt :: time

type_synonym AgentRegistry = "(string \<times> ConnectedAgent) list"

definition RegisterOrReplace :: "time \<Rightarrow> AgentRegistry \<Rightarrow> AgentCapabilities \<Rightarrow> nat \<Rightarrow> nat option \<times> AgentRegistry" where
  "RegisterOrReplace now reg info conn =
     (map_option ca_Conn (map_of reg (cap_AgentID info)),
      AList.update (cap_AgentID info)
        \<lparr>ca_Info = info, ca_Conn = conn, ca_ActiveTasks = 0, ca_LastSeen = now, ca_Status = AgentIdle, ca_ConnectedAt = now\<rparr> reg)"

definition Deregister :: "AgentRegistry \<Rightarrow> string \<Rightarrow> nat \<Rightarrow> AgentRegistry" where
  "Deregister reg agentID conn =
     (case map_of reg agentID of
        None \<Rightarrow> reg
      | Some existing \<Rightarrow> if ca_Conn existing = conn then AList.delete agentID reg else reg)"

definition Agent_Get :: "AgentRegistry \<Rightarrow> string \<Rightarrow> ConnectedAgent option" where
  "Agent_Get reg agentID = map_of reg agentID"

definition hasAllSkills :: "string list \<Rightarrow> string list \<Rightarrow> bool" where
  "hasAllSkills agentSkills required \<longleftrightarrow> (\<forall>r \<in> set required. r \<in> set agentSkills)"

definition max_int :: int where "max_int = 2 ^ 63 - 1"

definition routable :: "string list \<Rightarrow> ConnectedAgent \<Rightarrow> bool" where
  "routable skills a \<longleftrightarrow>
     ca_Status a \<noteq> AgentDraining \<and>
     \<not> (cap_MaxParallel (ca_Info a) > 0 \<and> ca_ActiveTasks a \<ge> cap_MaxParallel (ca_Info a)) \<and>
     \<not> (length skills > 0 \<and> \<not> hasAllSkills (cap_Skills (ca_Info a)) skills)"

fun route_from :: "string list \<Rightarrow> ConnectedAgent option \<times> int \<Rightarrow> AgentRegistry \<Rightarrow> ConnectedAgent option" where
  "route_from skills (best, bestLoad) [] = best"
| "route_from skills (best, bestLoad) ((i, a) # rest) =
     (if \<not> routable skills a then route_from skills (best, bestLoad) rest
      else if ca_ActiveTasks a < bestLoad then route_from skills (Some a, ca_ActiveTasks a) rest
      else route_from skills (best, bestLoad) rest)"

definition Route :: "AgentRegistry \<Rightarrow> string list \<Rightarrow> ConnectedAgent option" where
  "Route reg skills = route_from skills (None, max_int) reg"

definition on_agent :: "AgentRegistry \<Rightarrow> string \<Rightarrow> (ConnectedAgent \<Rightarrow> ConnectedAgent) \<Rightarrow> AgentRegistry" where
  "on_agent reg agentID f =
     (case map_of reg agentID of None \<Rightarrow> reg | Some a \<Rightarrow> AList.update agentID (f a) reg)"

definition UpdateHeartbeat :: "time \<Rightarrow> AgentRegistry \<Rightarrow> string \<Rightarrow> int \<Rightarrow> AgentRegistry" where
  "UpdateHeartbeat now reg agentID activeTasks =
     on_agent reg agentID (\<lambda>a.
       if activeTasks \<ge> 0
       then a\<lparr>ca_LastSeen := now, ca_ActiveTasks := activeTasks, ca_Status := (if activeTasks > 0 then AgentBusy else AgentIdle)\<rparr>
       else a\<lparr>ca_LastSeen := now\<rparr>)"

definition IncrementTasks :: "AgentRegistry \<Rightarrow> string \<Rightarrow> AgentRegistry" where
  "IncrementTasks reg agentID =
     on_agent reg agentID (\<lambda>a. a\<lparr>ca_ActiveTasks := ca_ActiveTasks a + 1, ca_Status := AgentBusy\<rparr>)"

definition DecrementTasks :: "AgentRegistry \<Rightarrow> string \<Rightarrow> AgentRegistry" where
  "DecrementTasks reg agentID =
     on_agent reg agentID (\<lambda>a.
       if ca_ActiveTasks a - 1 \<le> 0 then a\<lparr>ca_ActiveTasks := 0, ca_Status := AgentIdle\<rparr>
       else a\<lparr>ca_ActiveTasks := ca_ActiveTasks a - 1\<rparr>)"

definition Agents_List :: "AgentRegistry \<Rightarrow> ConnectedAgent list" where
  "Agents_List reg = map snd reg"

definition Agents_Count :: "AgentRegistry \<Rightarrow> nat" where
  "Agents_Count reg = length reg"

definition RemoveStale :: "time \<Rightarrow> AgentRegistry \<Rightarrow> time \<Rightarrow> StaleAgent list \<times> AgentRegistry" where
  "RemoveStale now reg threshold =
     (let cutoff = now - threshold; old = (\<lambda>(i, a). ca_LastSeen a < cutoff)
      in (map (\<lambda>(i, a). \<lparr>sa_AgentID = i, sa_Conn = ca_Conn a, sa_LastSeen = ca_LastSeen a, sa_ConnectedAt = ca_ConnectedAt a\<rparr>)
            (filter old reg),
          filter (\<lambda>p. \<not> old p) reg))"

section \<open>The task tracker\<close>

datatype TaskState = Dispatched | Accepted | Running | Completed | Failed | TimedOut

record TaskAssignment =
  ta_TaskID :: string
  ta_WorkflowID :: string
  ta_UserID :: string
  ta_Goal :: string
  ta_SkillName :: string
  ta_Context :: "(string \<times> string) list"
  ta_BudgetUSD :: usd
  ta_TimeoutSecs :: int

record TrackedTask =
  tt_TaskID :: string
  tt_AgentID :: string
  tt_Assignment :: TaskAssignment
  tt_State :: TaskState
  tt_DispatchedAt :: time
  tt_AcceptedAt :: "time option"
  tt_CompletedAt :: "time option"
  tt_LastProgress :: "time option"
  tt_Error :: string

record TaskTracker =
  trk_tasks :: "(string \<times> TrackedTask) list"
  trk_ackTimeout :: time

definition NewTaskTracker :: "time \<Rightarrow> TaskTracker" where
  "NewTaskTracker ackTimeout = \<lparr>trk_tasks = [], trk_ackTimeout = (if ackTimeout = 0 then 30 * Second else ackTimeout)\<rparr>"

definition Track :: "time \<Rightarrow> TaskTracker \<Rightarrow> TaskAssignment \<Rightarrow> string \<Rightarrow> TaskTracker" where
  "Track now t assignment agentID =
     t\<lparr>trk_tasks := AList.update (ta_TaskID assignment)
         \<lparr>tt_TaskID = ta_TaskID assignment, tt_AgentID = agentID, tt_Assignment = assignment, tt_State = Dispatched,
          tt_DispatchedAt = now, tt_AcceptedAt = None, tt_CompletedAt = None, tt_LastProgress = None, tt_Error = []\<rparr> (trk_tasks t)\<rparr>"

definition on_task :: "TaskTracker \<Rightarrow> string \<Rightarrow> (TrackedTask \<Rightarrow> TrackedTask) \<Rightarrow> TaskTracker" where
  "on_task t taskID f =
     (case map_of (trk_tasks t) taskID of
        None \<Rightarrow> t
      | Some task \<Rightarrow> t\<lparr>trk_tasks := AList.update taskID (f task) (trk_tasks t)\<rparr>)"

definition MarkAccepted :: "time \<Rightarrow> TaskTracker \<Rightarrow> string \<Rightarrow> bool \<times> TaskTracker" where
  "MarkAccepted now t taskID =
     (case map_of (trk_tasks t) taskID of
        None \<Rightarrow> (False, t)
      | Some task \<Rightarrow>
          if tt_State task \<noteq> Dispatched then (False, t)
          else (True, on_task t taskID (\<lambda>x. x\<lparr>tt_State := Accepted, tt_AcceptedAt := Some now\<rparr>)))"

definition MarkProgress :: "time \<Rightarrow> TaskTracker \<Rightarrow> string \<Rightarrow> TaskTracker" where
  "MarkProgress now t taskID =
     on_task t taskID (\<lambda>x. x\<lparr>tt_State := (if tt_State x = Accepted then Running else tt_State x), tt_LastProgress := Some now\<rparr>)"

definition MarkCompleted :: "time \<Rightarrow> TaskTracker \<Rightarrow> string \<Rightarrow> TaskTracker" where
  "MarkCompleted now t taskID = on_task t taskID (\<lambda>x. x\<lparr>tt_State := Completed, tt_CompletedAt := Some now\<rparr>)"

definition MarkFailed :: "time \<Rightarrow> TaskTracker \<Rightarrow> string \<Rightarrow> string \<Rightarrow> TaskTracker" where
  "MarkFailed now t taskID errMsg =
     on_task t taskID (\<lambda>x. x\<lparr>tt_State := Failed, tt_CompletedAt := Some now, tt_Error := errMsg\<rparr>)"

definition UnacknowledgedTasks :: "time \<Rightarrow> TaskTracker \<Rightarrow> TrackedTask list" where
  "UnacknowledgedTasks now t =
     (let deadline = now - trk_ackTimeout t
      in filter (\<lambda>x. tt_State x = Dispatched \<and> tt_DispatchedAt x < deadline) (map snd (trk_tasks t)))"

definition TasksForAgent :: "TaskTracker \<Rightarrow> string \<Rightarrow> TrackedTask list" where
  "TasksForAgent t agentID =
     filter (\<lambda>x. tt_AgentID x = agentID \<and> tt_State x \<noteq> Completed \<and> tt_State x \<noteq> Failed \<and> tt_State x \<noteq> TimedOut)
       (map snd (trk_tasks t))"

definition Tracker_Remove :: "TaskTracker \<Rightarrow> string \<Rightarrow> TaskTracker" where
  "Tracker_Remove t taskID = t\<lparr>trk_tasks := AList.delete taskID (trk_tasks t)\<rparr>"

definition MarkTimedOut :: "time \<Rightarrow> TaskTracker \<Rightarrow> string \<Rightarrow> TrackedTask option \<times> TaskTracker" where
  "MarkTimedOut now t taskID =
     (let t' = on_task t taskID (\<lambda>x. x\<lparr>tt_State := TimedOut, tt_CompletedAt := Some now\<rparr>)
      in (map_of (trk_tasks t') taskID, t'))"

definition terminal :: "TaskState \<Rightarrow> bool" where
  "terminal st \<longleftrightarrow> st = Completed \<or> st = Failed \<or> st = TimedOut"

text \<open>A zero \<^verbatim>\<open>CompletedAt\<close> (here \<open>None\<close>) lies before every deadline.\<close>

definition CleanCompleted :: "time \<Rightarrow> TaskTracker \<Rightarrow> time \<Rightarrow> nat \<times> TaskTracker" where
  "CleanCompleted now t maxAge =
     (let deadline = now - maxAge;
          old = (\<lambda>(i, x). terminal (tt_State x) \<and> (case tt_CompletedAt x of None \<Rightarrow> True | Some c \<Rightarrow> c < deadline))
      in (length (filter old (trk_tasks t)), t\<lparr>trk_tasks := filter (\<lambda>p. \<not> old p) (trk_tasks t)\<rparr>))"

definition ActiveCount :: "TaskTracker \<Rightarrow> nat" where
  "ActiveCount t = length (filter (\<lambda>x. tt_State x = Dispatched \<or> tt_State x = Accepted \<or> tt_State x = Running) (map snd (trk_tasks t)))"

section \<open>Routing picks a least loaded agent\<close>

lemma route_from_best:
  assumes "route_from skills (best, load) reg = r" "best = None \<or> (\<exists>b. best = Some b \<and> ca_ActiveTasks b = load)" "load \<le> max_int"
    "\<forall>(i, a) \<in> set reg. routable skills a \<longrightarrow> ca_ActiveTasks a < max_int"
  shows "(case r of
      None \<Rightarrow> best = None \<and> (\<forall>(i, a) \<in> set reg. routable skills a \<longrightarrow> load \<le> ca_ActiveTasks a)
    | Some a \<Rightarrow> (best = Some a \<or> (\<exists>i. (i, a) \<in> set reg \<and> routable skills a)) \<and> ca_ActiveTasks a \<le> load \<and>
        (\<forall>(i, b) \<in> set reg. routable skills b \<longrightarrow> ca_ActiveTasks a \<le> ca_ActiveTasks b))"
  using assms
proof (induction reg arbitrary: best load)
  case Nil
  then show ?case by (auto split: option.split)
next
  case (Cons p reg)
  obtain i a where p: "p = (i, a)" by fastforce
  show ?case
  proof (cases "routable skills a \<and> ca_ActiveTasks a < load")
    case True
    have "route_from skills (Some a, ca_ActiveTasks a) reg = r" using Cons.prems(1) p True by simp
    from Cons.IH[OF this] have "case r of None \<Rightarrow> False
      | Some x \<Rightarrow> (a = x \<or> (\<exists>j. (j, x) \<in> set reg \<and> routable skills x)) \<and> ca_ActiveTasks x \<le> ca_ActiveTasks a \<and>
          (\<forall>(j, b) \<in> set reg. routable skills b \<longrightarrow> ca_ActiveTasks x \<le> ca_ActiveTasks b)"
      using Cons.prems(3,4) True p by (auto split: option.splits)
    then show ?thesis using True p by (auto split: option.splits)
  next
    case False
    have "route_from skills (best, load) reg = r" using Cons.prems(1) p False by (auto split: if_splits)
    from Cons.IH[OF this] Cons.prems(2-4) show ?thesis using False p by (auto split: option.splits)
  qed
qed

text \<open>Among the agents that are not draining, have a free slot and all the wanted skills, \<open>Route\<close> returns one
  with the fewest active tasks, whatever the iteration order of the map; it reports that no agent is
  available exactly when there is none.\<close>

theorem Route_least_loaded:
  assumes "\<forall>(i, a) \<in> set reg. ca_ActiveTasks a < max_int"
  shows "case Route reg skills of
      None \<Rightarrow> \<forall>(i, a) \<in> set reg. \<not> routable skills a
    | Some a \<Rightarrow> (\<exists>i. (i, a) \<in> set reg) \<and> routable skills a \<and>
        (\<forall>(i, b) \<in> set reg. routable skills b \<longrightarrow> ca_ActiveTasks a \<le> ca_ActiveTasks b)"
proof -
  have "\<forall>(i, a) \<in> set reg. routable skills a \<longrightarrow> ca_ActiveTasks a < max_int" using assms by auto
  from route_from_best[OF refl _ order_refl this, of None] show ?thesis
    using assms by (fastforce simp: Route_def split: option.splits)
qed

definition demo_caps :: "string \<Rightarrow> int \<Rightarrow> AgentCapabilities" where
  "demo_caps i n = \<lparr>cap_AgentID = i, cap_Skills = [''go''], cap_Model = ''m'', cap_MaxParallel = n, cap_Version = ''1''\<rparr>"

definition demo_registry :: AgentRegistry where
  "demo_registry = IncrementTasks (snd (RegisterOrReplace 0 (snd (RegisterOrReplace 0 [] (demo_caps ''a'' 1) 7)) (demo_caps ''b'' 2) 8)) ''a''"

theorem Route_least_loaded_witness:
  "\<exists>a. Route demo_registry [''go''] = Some a \<and> ca_Conn a = 8 \<and> routable [''go''] a"
proof -
  have "map_option ca_Conn (Route demo_registry [''go'']) = Some 8" by code_simp
  then obtain a where a: "Route demo_registry [''go''] = Some a" "ca_Conn a = 8" by auto
  have "\<forall>(i, a) \<in> set demo_registry. ca_ActiveTasks a < max_int" by code_simp
  from Route_least_loaded[OF this, of "[''go'']"] a show ?thesis by simp
qed

section \<open>The tracker as a ledger\<close>

text \<open>
  What the server relies on: the state recorded for a task, how each operation changes it, and that the
  lists the tracker returns name exactly the tasks in question. \<open>task_ledger\<close> is that interface; the tracker
  of the code is an instance of it as long as its map is keyed by the identifiers of its entries.
\<close>

locale task_ledger =
  fixes sound :: "'l \<Rightarrow> bool"
    and state_of :: "'l \<Rightarrow> string \<Rightarrow> TaskState option"
    and track :: "time \<Rightarrow> 'l \<Rightarrow> TaskAssignment \<Rightarrow> string \<Rightarrow> 'l"
    and accept :: "time \<Rightarrow> 'l \<Rightarrow> string \<Rightarrow> bool \<times> 'l"
    and progress :: "time \<Rightarrow> 'l \<Rightarrow> string \<Rightarrow> 'l"
    and complete :: "time \<Rightarrow> 'l \<Rightarrow> string \<Rightarrow> 'l"
    and fail :: "time \<Rightarrow> 'l \<Rightarrow> string \<Rightarrow> string \<Rightarrow> 'l"
    and expire :: "time \<Rightarrow> 'l \<Rightarrow> string \<Rightarrow> TrackedTask option \<times> 'l"
    and clean :: "time \<Rightarrow> 'l \<Rightarrow> time \<Rightarrow> nat \<times> 'l"
  assumes track_state: "state_of (track now l a ag) = (state_of l)(ta_TaskID a \<mapsto> Dispatched)"
    and accept_state: "state_of (snd (accept now l t)) =
      (if state_of l t = Some Dispatched then (state_of l)(t \<mapsto> Accepted) else state_of l)"
    and progress_state: "state_of (progress now l t) =
      (if state_of l t = Some Accepted then (state_of l)(t \<mapsto> Running) else state_of l)"
    and complete_state: "state_of (complete now l t) = (if state_of l t = None then state_of l else (state_of l)(t \<mapsto> Completed))"
    and fail_state: "state_of (fail now l t e) = (if state_of l t = None then state_of l else (state_of l)(t \<mapsto> Failed))"
    and expire_state: "state_of (snd (expire now l t)) = (if state_of l t = None then state_of l else (state_of l)(t \<mapsto> TimedOut))"
    and clean_state: "sound l \<Longrightarrow> state_of l t = Some st \<Longrightarrow> \<not> terminal st \<Longrightarrow> state_of (snd (clean now l age)) t = Some st"
    and sound_keeps: "sound l \<Longrightarrow> sound (track now l a ag)" "sound l \<Longrightarrow> sound (snd (accept now l t))"
      "sound l \<Longrightarrow> sound (progress now l t)" "sound l \<Longrightarrow> sound (complete now l t)" "sound l \<Longrightarrow> sound (fail now l t e)"
      "sound l \<Longrightarrow> sound (snd (expire now l t))" "sound l \<Longrightarrow> sound (snd (clean now l age))"
begin

definition active :: "'l \<Rightarrow> string \<Rightarrow> bool" where
  "active l t \<longleftrightarrow> (\<exists>st. state_of l t = Some st \<and> \<not> terminal st)"

lemma active_track: "active (track now l a ag) t \<longleftrightarrow> t = ta_TaskID a \<or> active l t"
  by (auto simp: active_def track_state terminal_def)

lemma active_accept: "active (snd (accept now l u)) t \<longleftrightarrow> active l t"
  by (auto simp: active_def accept_state terminal_def)

lemma active_progress: "active (progress now l u) t \<longleftrightarrow> active l t"
  by (auto simp: active_def progress_state terminal_def)

lemma active_complete: "active (complete now l u) t \<longleftrightarrow> active l t \<and> t \<noteq> u"
  by (auto simp: active_def complete_state terminal_def)

lemma active_fail: "active (fail now l u e) t \<longleftrightarrow> active l t \<and> t \<noteq> u"
  by (auto simp: active_def fail_state terminal_def)

lemma active_expire: "active (snd (expire now l u)) t \<longleftrightarrow> active l t \<and> t \<noteq> u"
  by (auto simp: active_def expire_state terminal_def)

lemma active_clean: "sound l \<Longrightarrow> active l t \<Longrightarrow> active (snd (clean now l age)) t"
  by (auto simp: active_def intro: clean_state)

lemmas ledger_rules = active_track active_accept active_progress active_complete active_fail active_expire

end

definition tracker_ok :: "TaskTracker \<Rightarrow> bool" where
  "tracker_ok t \<longleftrightarrow> distinct (map fst (trk_tasks t)) \<and>
     (\<forall>(i, x) \<in> set (trk_tasks t). tt_TaskID x = i \<and> ta_TaskID (tt_Assignment x) = i)"

definition tracked_state :: "TaskTracker \<Rightarrow> string \<Rightarrow> TaskState option" where
  "tracked_state t taskID = map_option tt_State (map_of (trk_tasks t) taskID)"

lemma set_update_subset: "set (AList.update k v al) \<subseteq> insert (k, v) (set al)"
  by (induction al) (auto split: if_splits)

lemma tracker_ok_update:
  assumes "tracker_ok t" "tt_TaskID x = i" "ta_TaskID (tt_Assignment x) = i"
  shows "tracker_ok (t\<lparr>trk_tasks := AList.update i x (trk_tasks t)\<rparr>)"
  using assms set_update_subset[of i x "trk_tasks t"] by (fastforce simp: tracker_ok_def distinct_update)

lemma tracker_ok_entry: "tracker_ok t \<Longrightarrow> map_of (trk_tasks t) i = Some x \<Longrightarrow> tt_TaskID x = i \<and> ta_TaskID (tt_Assignment x) = i"
  by (auto simp: tracker_ok_def dest: map_of_SomeD)

lemma tracker_ok_on_task:
  assumes "tracker_ok t" "\<And>x. tt_TaskID (f x) = tt_TaskID x" "\<And>x. tt_Assignment (f x) = tt_Assignment x"
  shows "tracker_ok (on_task t i f)"
  using assms tracker_ok_entry[OF assms(1)] by (auto simp: on_task_def split: option.splits intro!: tracker_ok_update)

lemma tracker_ok_filter: "tracker_ok t \<Longrightarrow> tracker_ok (t\<lparr>trk_tasks := filter P (trk_tasks t)\<rparr>)"
  by (auto simp: tracker_ok_def distinct_map_filter)

lemma tracked_state_on_task:
  "tracked_state (on_task t i f) =
     (case map_of (trk_tasks t) i of None \<Rightarrow> tracked_state t | Some x \<Rightarrow> (tracked_state t)(i \<mapsto> tt_State (f x)))"
  by (rule ext) (auto simp: on_task_def tracked_state_def update_conv' split: option.split)

lemma CleanCompleted_keeps:
  assumes "tracker_ok t" "tracked_state t i = Some st" "\<not> terminal st"
  shows "tracked_state (snd (CleanCompleted now t age)) i = Some st"
proof -
  obtain x where x: "map_of (trk_tasks t) i = Some x" "tt_State x = st" using assms(2) by (auto simp: tracked_state_def)
  let ?P = "\<lambda>p. \<not> (case p of (i, x) \<Rightarrow> terminal (tt_State x) \<and> (case tt_CompletedAt x of None \<Rightarrow> True | Some c \<Rightarrow> c < now - age))"
  have "(i, x) \<in> set (filter ?P (trk_tasks t))" using x assms(3) by (auto dest: map_of_SomeD)
  moreover have "distinct (map fst (filter ?P (trk_tasks t)))" using assms(1) by (simp add: tracker_ok_def distinct_map_filter)
  ultimately have "map_of (filter ?P (trk_tasks t)) i = Some x" by (rule map_of_is_SomeI[rotated])
  then show ?thesis using x(2) by (simp add: tracked_state_def CleanCompleted_def Let_def)
qed

interpretation ledger: task_ledger tracker_ok tracked_state Track MarkAccepted MarkProgress MarkCompleted MarkFailed
  MarkTimedOut CleanCompleted
proof unfold_locales
  show "tracked_state (Track now l a ag) = (tracked_state l)(ta_TaskID a \<mapsto> Dispatched)" for now l a ag
    by (rule ext) (simp add: tracked_state_def Track_def update_conv')
  show "tracked_state (snd (MarkAccepted now l t)) =
      (if tracked_state l t = Some Dispatched then (tracked_state l)(t \<mapsto> Accepted) else tracked_state l)" for now l t
    by (auto simp: MarkAccepted_def tracked_state_on_task tracked_state_def split: option.split)
  show "tracked_state (MarkProgress now l t) =
      (if tracked_state l t = Some Accepted then (tracked_state l)(t \<mapsto> Running) else tracked_state l)" for now l t
    by (rule ext) (auto simp: MarkProgress_def tracked_state_on_task tracked_state_def split: option.split)
  show "tracked_state (snd (CleanCompleted now l age)) t = Some st"
    if "tracker_ok l" "tracked_state l t = Some st" "\<not> terminal st" for now l age t st
    by (rule CleanCompleted_keeps[OF that])
qed (auto simp: MarkCompleted_def MarkFailed_def MarkTimedOut_def Let_def tracked_state_on_task tracked_state_def
      split: option.split intro!: tracker_ok_on_task simp: Track_def tracker_ok_update MarkAccepted_def MarkProgress_def CleanCompleted_def tracker_ok_filter)

end
