(* ===== verification/WsServer.thy ===== *)
theory WsServer
  imports Fleet
begin

text \<open>
  The gateway's side of the agent protocol (\<^verbatim>\<open>gateway/ws/server.go\<close>, \<^verbatim>\<open>sync.go\<close>, \<^verbatim>\<open>protocol/messages.go\<close>) and the
  agent that chooses between remote and embedded execution (\<^verbatim>\<open>agent/routing.go\<close>).

  \<^item> The JSON decoders of the payloads are the record \<open>decoders\<close>; a payload the decoder rejects is \<open>None\<close>.
    Messages the server sends carry their payload as a value; message identifiers and timestamps,
    which nothing reads, are left out.
  \<^item> Whether a write to a connection succeeds is a function \<open>up\<close> of everything written before; the server keeps
    the log of its writes. A connection it has closed refuses writes.
  \<^item> Channels are numbered in the order of their creation; every channel the server sends on has
    capacity one, so a second send on the same channel would block the sender.
  \<^item> Every handler is one step. The finer interleavings of the goroutines are not modelled.
\<close>

section \<open>Protocol and state\<close>

datatype WsMessageType =
    MsgAgentRegister | MsgAgentHeartbeat | MsgTaskAccepted | MsgTaskProgress | MsgTaskDone | MsgTaskFailed
  | MsgApprovalRequest | MsgRegistered | MsgTaskAssign | MsgTaskCancel | MsgApprovalResult | MsgPing | MsgPong
  | MsgError | MsgUnknown string

record ApprovalResultPayload =
  arp_ApprovalID :: string
  arp_Decision :: string
  arp_ApproverID :: string

datatype Payload =
    PNone | PRegistered string | PAssign TaskAssignment | PApprovalResult ApprovalResultPayload | PRaw string

record Envelope =
  env_Type :: WsMessageType
  env_AgentID :: string
  env_TaskID :: string
  env_Payload :: Payload

record TaskStateInfo =
  tsi_TaskID :: string
  tsi_State :: string
  tsi_Elapsed :: string

record HeartbeatPayload =
  hb_ActiveTasks :: int
  hb_TaskIDs :: "string list"
  hb_TaskStates :: "TaskStateInfo list"

record TaskProgressPayload =
  tp_Message :: string
  tp_TokensUsed :: int
  tp_CostUSD :: usd

record TaskResultPayload =
  trp_Output :: string
  trp_TokensUsed :: int
  trp_CostUSD :: usd
  trp_ToolCalls :: int
  trp_Duration :: string

record TaskFailedPayload =
  tfp_Error :: string
  tfp_TokensUsed :: int
  tfp_CostUSD :: usd

record ApprovalRequestPayload =
  arq_ApprovalID :: string
  arq_UserID :: string
  arq_ToolName :: string
  arq_Parameters :: string
  arq_RiskLevel :: string

record decoders =
  dec_envelope :: "string \<Rightarrow> Envelope option"
  dec_caps :: "Payload \<Rightarrow> AgentCapabilities option"
  dec_heartbeat :: "Payload \<Rightarrow> HeartbeatPayload option"
  dec_progress :: "Payload \<Rightarrow> TaskProgressPayload option"
  dec_result :: "Payload \<Rightarrow> TaskResultPayload option"
  dec_failed :: "Payload \<Rightarrow> TaskFailedPayload option"
  dec_approval :: "Payload \<Rightarrow> ApprovalRequestPayload option"

definition NewEnvelope :: "WsMessageType \<Rightarrow> Payload \<Rightarrow> Envelope" where
  "NewEnvelope msgType payload = \<lparr>env_Type = msgType, env_AgentID = [], env_TaskID = [], env_Payload = payload\<rparr>"

record SyncTaskResult =
  str_Success :: bool
  str_Output :: string
  str_TokensUsed :: int
  str_Error :: string

record pendingTask =
  pt_assignment :: TaskAssignment
  pt_result :: nat

datatype WsError =
    WriteFailed | SendingTask string WsError | NoAvailableAgent | DispatchingTask string WsError | TaskTimeout string
  | ContextDone | NoAgentForApproval string | AgentNotConnected string | BadRegistration string

record WebSocketGatewayConfig =
  ws_Enabled :: bool
  ws_ListenAddr :: string
  ws_Path :: string
  ws_AgentToken :: string
  ws_HeartbeatIntervalSeconds :: int
  ws_AckTimeoutSeconds :: int
  ws_TaskReassignTimeoutSeconds :: int
  ws_StaleTimeoutSeconds :: int

definition WSHeartbeatInterval :: "WebSocketGatewayConfig option \<Rightarrow> duration" where
  "WSHeartbeatInterval w = (case w of
     Some c \<Rightarrow> if ws_HeartbeatIntervalSeconds c > 0 then ws_HeartbeatIntervalSeconds c * Second else 30 * Second
   | None \<Rightarrow> 30 * Second)"

definition WSAckTimeout :: "WebSocketGatewayConfig option \<Rightarrow> duration" where
  "WSAckTimeout w = (case w of
     Some c \<Rightarrow> if ws_AckTimeoutSeconds c > 0 then ws_AckTimeoutSeconds c * Second else 30 * Second
   | None \<Rightarrow> 30 * Second)"

definition WSStaleTimeout :: "WebSocketGatewayConfig option \<Rightarrow> duration" where
  "WSStaleTimeout w = (case w of
     Some c \<Rightarrow> if ws_StaleTimeoutSeconds c > 0 then ws_StaleTimeoutSeconds c * Second else 3 * WSHeartbeatInterval w
   | None \<Rightarrow> 3 * WSHeartbeatInterval w)"

type_synonym sent_log = "(nat \<times> Envelope \<times> bool) list"

record Server =
  srv_registry :: AgentRegistry
  srv_tracker :: TaskTracker
  srv_cfg :: "WebSocketGatewayConfig option"
  srv_pending :: "pendingTask list"
  srv_waiters :: "(string \<times> nat) list"
  srv_approvals :: "(string \<times> string) list"
  srv_chans :: nat
  srv_results :: "(nat \<times> WsError option) list"
  srv_delivered :: "(nat \<times> SyncTaskResult) list"
  srv_sent :: sent_log
  srv_closed :: "nat list"

definition NewServer :: "AgentRegistry \<Rightarrow> WebSocketGatewayConfig option \<Rightarrow> Server" where
  "NewServer registry cfg =
     \<lparr>srv_registry = registry, srv_tracker = NewTaskTracker (WSAckTimeout cfg), srv_cfg = cfg, srv_pending = [],
      srv_waiters = [], srv_approvals = [], srv_chans = 0, srv_results = [], srv_delivered = [], srv_sent = [], srv_closed = []\<rparr>"

type_synonym network = "sent_log \<Rightarrow> nat \<Rightarrow> Envelope \<Rightarrow> bool"

definition writeEnvelope :: "network \<Rightarrow> Server \<Rightarrow> nat \<Rightarrow> Envelope \<Rightarrow> WsError option \<times> Server" where
  "writeEnvelope up s conn env =
     (let ok = conn \<notin> set (srv_closed s) \<and> up (srv_sent s) conn env
      in (if ok then None else Some WriteFailed, s\<lparr>srv_sent := (conn, env, ok) # srv_sent s\<rparr>))"

section \<open>Waiters\<close>

definition sync_register :: "Server \<Rightarrow> string \<Rightarrow> nat \<times> Server" where
  "sync_register s taskID =
     (srv_chans s, s\<lparr>srv_chans := srv_chans s + 1, srv_waiters := AList.update taskID (srv_chans s) (srv_waiters s)\<rparr>)"

definition sync_resolve :: "Server \<Rightarrow> string \<Rightarrow> SyncTaskResult \<Rightarrow> bool \<times> Server" where
  "sync_resolve s taskID result =
     (case map_of (srv_waiters s) taskID of
        None \<Rightarrow> (False, s)
      | Some ch \<Rightarrow> (True, s\<lparr>srv_waiters := AList.delete taskID (srv_waiters s), srv_delivered := (ch, result) # srv_delivered s\<rparr>))"

definition sync_remove :: "Server \<Rightarrow> string \<Rightarrow> Server" where
  "sync_remove s taskID = s\<lparr>srv_waiters := AList.delete taskID (srv_waiters s)\<rparr>"

section \<open>Dispatch\<close>

definition sendTaskToAgent :: "network \<Rightarrow> time \<Rightarrow> Server \<Rightarrow> ConnectedAgent \<Rightarrow> TaskAssignment \<Rightarrow> WsError option \<times> Server" where
  "sendTaskToAgent up now s a assignment =
     (let agentID = cap_AgentID (ca_Info a);
          env = (NewEnvelope MsgTaskAssign (PAssign assignment))\<lparr>env_AgentID := agentID, env_TaskID := ta_TaskID assignment\<rparr>;
          (err, s) = writeEnvelope up s (ca_Conn a) env
      in case err of
           Some e \<Rightarrow> (Some (SendingTask agentID e), s)
         | None \<Rightarrow> (None, s\<lparr>srv_registry := IncrementTasks (srv_registry s) agentID,
                           srv_tracker := Track now (srv_tracker s) assignment agentID\<rparr>))"

fun drain_tasks :: "network \<Rightarrow> time \<Rightarrow> Server \<Rightarrow> pendingTask list \<Rightarrow> pendingTask list \<Rightarrow> pendingTask list \<times> Server" where
  "drain_tasks up now s remaining [] = (remaining, s)"
| "drain_tasks up now s remaining (pt # pts) =
     (case Route (srv_registry s) [] of
        None \<Rightarrow> drain_tasks up now s (remaining @ [pt]) pts
      | Some a \<Rightarrow>
          let (sendErr, s) = sendTaskToAgent up now s a (pt_assignment pt)
          in drain_tasks up now (s\<lparr>srv_results := (pt_result pt, sendErr) # srv_results s\<rparr>) remaining pts)"

definition drainPendingTasks :: "network \<Rightarrow> time \<Rightarrow> Server \<Rightarrow> Server" where
  "drainPendingTasks up now s = (let (remaining, s') = drain_tasks up now s [] (srv_pending s) in s'\<lparr>srv_pending := remaining\<rparr>)"

definition enqueue :: "Server \<Rightarrow> TaskAssignment \<Rightarrow> Server" where
  "enqueue s assignment =
     s\<lparr>srv_chans := srv_chans s + 1, srv_pending := srv_pending s @ [\<lparr>pt_assignment = assignment, pt_result = srv_chans s\<rparr>]\<rparr>"

definition requeueTask :: "network \<Rightarrow> time \<Rightarrow> Server \<Rightarrow> TaskAssignment \<Rightarrow> Server" where
  "requeueTask up now s assignment = drainPendingTasks up now (enqueue s assignment)"

text \<open>\<open>AssignTask\<close> either returns at once (\<open>Inr\<close> the error, if any) or waits on a channel (\<open>Inl\<close> its number) until the
  channel is served or its context ends; neither changes the server.\<close>

definition AssignTask :: "network \<Rightarrow> time \<Rightarrow> Server \<Rightarrow> TaskAssignment \<Rightarrow> (nat + WsError option) \<times> Server" where
  "AssignTask up now s assignment =
     (case Route (srv_registry s) [] of
        Some a \<Rightarrow> let (err, s) = sendTaskToAgent up now s a assignment in (Inr err, s)
      | None \<Rightarrow> (Inl (srv_chans s), enqueue s assignment))"

definition sync_assignment :: "string \<Rightarrow> string \<Rightarrow> string \<Rightarrow> usd \<Rightarrow> duration \<Rightarrow> TaskAssignment" where
  "sync_assignment taskID userID message budgetUSD timeout =
     \<lparr>ta_TaskID = taskID, ta_WorkflowID = [], ta_UserID = userID, ta_Goal = message, ta_SkillName = [], ta_Context = [],
      ta_BudgetUSD = budgetUSD, ta_TimeoutSecs = (if timeout < 0 then - ((- timeout) div Second) else timeout div Second)\<rparr>"

definition ExecuteSync_begin ::
  "network \<Rightarrow> time \<Rightarrow> Server \<Rightarrow> string \<Rightarrow> string \<Rightarrow> string \<Rightarrow> usd \<Rightarrow> duration \<Rightarrow> (WsError + nat) \<times> Server" where
  "ExecuteSync_begin up now s taskID userID message budgetUSD timeout =
     (case Route (srv_registry s) [] of
        None \<Rightarrow> (Inl NoAvailableAgent, s)
      | Some a \<Rightarrow>
          let (ch, s) = sync_register s taskID;
              (err, s) = sendTaskToAgent up now s a (sync_assignment taskID userID message budgetUSD timeout)
          in case err of
               Some e \<Rightarrow> (Inl (DispatchingTask (cap_AgentID (ca_Info a)) e), sync_remove s taskID)
             | None \<Rightarrow> (Inr ch, s))"

datatype wake = ResultReady | TimerFired | CtxDone

definition ExecuteSync_end :: "Server \<Rightarrow> string \<Rightarrow> nat \<Rightarrow> wake \<Rightarrow> (WsError + SyncTaskResult) option \<times> Server" where
  "ExecuteSync_end s taskID ch w =
     (case w of
        ResultReady \<Rightarrow> (map_option Inr (map_of (srv_delivered s) ch), s)
      | TimerFired \<Rightarrow> (Some (Inl (TaskTimeout taskID)), sync_remove s taskID)
      | CtxDone \<Rightarrow> (Some (Inl ContextDone), sync_remove s taskID))"

section \<open>Connections\<close>

text \<open>The token comes from the query, or else from the \<^verbatim>\<open>Authorization\<close> header with an optional \<^verbatim>\<open>Bearer \<close> in front.\<close>

definition presented_token :: "string \<Rightarrow> string \<Rightarrow> string" where
  "presented_token query header =
     (if query \<noteq> [] then query
      else if length header > 7 \<and> take 7 header = ''Bearer '' then drop 7 header else header)"

definition upgrade_allowed :: "WebSocketGatewayConfig option \<Rightarrow> string \<Rightarrow> string \<Rightarrow> bool" where
  "upgrade_allowed cfg query header =
     (case cfg of
        None \<Rightarrow> True
      | Some c \<Rightarrow> ws_AgentToken c = [] \<or> presented_token query header = ws_AgentToken c)"

definition registered_msg :: "string \<Rightarrow> Envelope" where
  "registered_msg agentID = (NewEnvelope MsgRegistered (PRegistered (''registered as '' @ agentID)))\<lparr>env_AgentID := agentID\<rparr>"

text \<open>The first message of a connection; \<open>None\<close> is a failed read.\<close>

definition waitForRegistration ::
  "decoders \<Rightarrow> network \<Rightarrow> time \<Rightarrow> Server \<Rightarrow> nat \<Rightarrow> string option \<Rightarrow> (WsError + string) \<times> Server" where
  "waitForRegistration cd up now s conn data =
     (case data of
        None \<Rightarrow> (Inl (BadRegistration ''reading registration''), s)
      | Some d \<Rightarrow>
          (case dec_envelope cd d of
             None \<Rightarrow> (Inl (BadRegistration ''parsing registration''), s)
           | Some env \<Rightarrow>
               if env_Type env \<noteq> MsgAgentRegister then (Inl (BadRegistration ''expected agent.register''), s)
               else (case dec_caps cd (env_Payload env) of
                       None \<Rightarrow> (Inl (BadRegistration ''parsing capabilities''), s)
                     | Some caps \<Rightarrow>
                         if cap_AgentID caps = [] then (Inl (BadRegistration ''agent_id is required''), s)
                         else let (oldConn, reg) = RegisterOrReplace now (srv_registry s) caps conn;
                                  s = s\<lparr>srv_registry := reg, srv_closed := (case oldConn of None \<Rightarrow> srv_closed s | Some c \<Rightarrow> c # srv_closed s)\<rparr>;
                                  (err, s) = writeEnvelope up s conn (registered_msg (cap_AgentID caps))
                              in (Inr (cap_AgentID caps), s))))"

definition handleUpgrade ::
  "decoders \<Rightarrow> network \<Rightarrow> time \<Rightarrow> Server \<Rightarrow> string \<Rightarrow> string \<Rightarrow> nat \<Rightarrow> string option \<Rightarrow> string option \<times> Server" where
  "handleUpgrade cd up now s query header conn data =
     (if \<not> upgrade_allowed (srv_cfg s) query header then (None, s)
      else case waitForRegistration cd up now s conn data of
             (Inl e, s) \<Rightarrow> (None, s\<lparr>srv_closed := conn # srv_closed s\<rparr>)
           | (Inr agentID, s) \<Rightarrow> (Some agentID, drainPendingTasks up now s))"

text \<open>The deferred cleanup of a connection that registered.\<close>

definition agent_gone :: SyncTaskResult where
  "agent_gone = \<lparr>str_Success = False, str_Output = [], str_TokensUsed = 0, str_Error = ''agent disconnected''\<rparr>"

fun requeue_orphans :: "network \<Rightarrow> time \<Rightarrow> Server \<Rightarrow> TrackedTask list \<Rightarrow> Server" where
  "requeue_orphans up now s [] = s"
| "requeue_orphans up now s (task # tasks) =
     (let s = s\<lparr>srv_tracker := MarkFailed now (srv_tracker s) (tt_TaskID task) ''agent disconnected''\<rparr>;
          s = snd (sync_resolve s (tt_TaskID task) agent_gone)
      in requeue_orphans up now (requeueTask up now s (tt_Assignment task)) tasks)"

definition disconnect :: "network \<Rightarrow> time \<Rightarrow> Server \<Rightarrow> string \<Rightarrow> nat \<Rightarrow> Server" where
  "disconnect up now s agentID conn =
     (let s = requeue_orphans up now s (TasksForAgent (srv_tracker s) agentID)
      in s\<lparr>srv_registry := Deregister (srv_registry s) agentID conn, srv_closed := conn # srv_closed s\<rparr>)"

definition handleMessage :: "decoders \<Rightarrow> network \<Rightarrow> time \<Rightarrow> Server \<Rightarrow> string \<Rightarrow> Envelope \<Rightarrow> Server" where
  "handleMessage cd up now s agentID env =
     (let tid = env_TaskID env; payload = env_Payload env
      in case env_Type env of
           MsgAgentHeartbeat \<Rightarrow>
             (case dec_heartbeat cd payload of
                None \<Rightarrow> s
              | Some hb \<Rightarrow> s\<lparr>srv_registry := UpdateHeartbeat now (srv_registry s) agentID (hb_ActiveTasks hb)\<rparr>)
         | MsgTaskAccepted \<Rightarrow> s\<lparr>srv_tracker := snd (MarkAccepted now (srv_tracker s) tid)\<rparr>
         | MsgTaskProgress \<Rightarrow>
             (case dec_progress cd payload of None \<Rightarrow> s | Some p \<Rightarrow> s\<lparr>srv_tracker := MarkProgress now (srv_tracker s) tid\<rparr>)
         | MsgTaskDone \<Rightarrow>
             let s = s\<lparr>srv_registry := DecrementTasks (srv_registry s) agentID, srv_tracker := MarkCompleted now (srv_tracker s) tid\<rparr>;
                 s = (case dec_result cd payload of
                        None \<Rightarrow> s
                      | Some r \<Rightarrow> snd (sync_resolve s tid
                          \<lparr>str_Success = True, str_Output = trp_Output r, str_TokensUsed = trp_TokensUsed r, str_Error = []\<rparr>))
             in drainPendingTasks up now s
         | MsgTaskFailed \<Rightarrow>
             let s = s\<lparr>srv_registry := DecrementTasks (srv_registry s) agentID\<rparr>;
                 s = (case dec_failed cd payload of
                        None \<Rightarrow> s
                      | Some f \<Rightarrow> snd (sync_resolve (s\<lparr>srv_tracker := MarkFailed now (srv_tracker s) tid (tfp_Error f)\<rparr>) tid
                          \<lparr>str_Success = False, str_Output = [], str_TokensUsed = tfp_TokensUsed f, str_Error = tfp_Error f\<rparr>))
             in drainPendingTasks up now s
         | MsgApprovalRequest \<Rightarrow>
             (case dec_approval cd payload of
                None \<Rightarrow> s
              | Some req \<Rightarrow> s\<lparr>srv_approvals := AList.update (arq_ApprovalID req) agentID (srv_approvals s)\<rparr>)
         | MsgPong \<Rightarrow> s\<lparr>srv_registry := UpdateHeartbeat now (srv_registry s) agentID (-1)\<rparr>
         | _ \<Rightarrow> s)"

text \<open>One turn of the read loop: an undecodable message is skipped; the sender is the registered agent.\<close>

definition receive :: "decoders \<Rightarrow> network \<Rightarrow> time \<Rightarrow> Server \<Rightarrow> string \<Rightarrow> string \<Rightarrow> Server" where
  "receive cd up now s agentID data =
     (case dec_envelope cd data of
        None \<Rightarrow> s
      | Some env \<Rightarrow> handleMessage cd up now s agentID (env\<lparr>env_AgentID := agentID\<rparr>))"

definition RouteApprovalResult :: "network \<Rightarrow> Server \<Rightarrow> string \<Rightarrow> string \<Rightarrow> string \<Rightarrow> WsError option \<times> Server" where
  "RouteApprovalResult up s approvalID decision approverID =
     (case map_of (srv_approvals s) approvalID of
        None \<Rightarrow> (Some (NoAgentForApproval approvalID), s)
      | Some agentID \<Rightarrow>
          (case Agent_Get (srv_registry s) agentID of
             None \<Rightarrow> (Some (AgentNotConnected agentID), s)
           | Some a \<Rightarrow>
               writeEnvelope up s (ca_Conn a)
                 ((NewEnvelope MsgApprovalResult (PApprovalResult
                     \<lparr>arp_ApprovalID = approvalID, arp_Decision = decision, arp_ApproverID = approverID\<rparr>))\<lparr>env_AgentID := agentID\<rparr>)))"

section \<open>Background loops\<close>

definition ping :: "network \<Rightarrow> Server \<Rightarrow> nat \<Rightarrow> Server" where
  "ping up s conn = snd (writeEnvelope up s conn (NewEnvelope MsgPing PNone))"

definition stale_check :: "time \<Rightarrow> Server \<Rightarrow> Server" where
  "stale_check now s =
     (let (stale, reg) = RemoveStale now (srv_registry s) (WSStaleTimeout (srv_cfg s))
      in s\<lparr>srv_registry := reg, srv_closed := map sa_Conn stale @ srv_closed s\<rparr>)"

fun requeue_unacknowledged :: "network \<Rightarrow> time \<Rightarrow> Server \<Rightarrow> TrackedTask list \<Rightarrow> Server" where
  "requeue_unacknowledged up now s [] = s"
| "requeue_unacknowledged up now s (task # tasks) =
     (let s = s\<lparr>srv_tracker := snd (MarkTimedOut now (srv_tracker s) (tt_TaskID task))\<rparr>;
          s = s\<lparr>srv_registry := DecrementTasks (srv_registry s) (tt_AgentID task)\<rparr>
      in requeue_unacknowledged up now (requeueTask up now s (tt_Assignment task)) tasks)"

definition ack_check :: "network \<Rightarrow> time \<Rightarrow> Server \<Rightarrow> Server" where
  "ack_check up now s = requeue_unacknowledged up now s (UnacknowledgedTasks now (srv_tracker s))"

definition clean_check :: "time \<Rightarrow> Server \<Rightarrow> Server" where
  "clean_check now s = s\<lparr>srv_tracker := snd (CleanCompleted now (srv_tracker s) (5 * Minute))\<rparr>"

definition Shutdown :: "Server \<Rightarrow> Server" where
  "Shutdown s = s\<lparr>srv_closed := map ca_Conn (Agents_List (srv_registry s)) @ srv_closed s\<rparr>"

section \<open>Runs\<close>

datatype event =
    Upgrade time string string nat "string option"
  | Receive time string string
  | Gone time string nat
  | Assign time TaskAssignment
  | SyncBegin time string string string usd duration
  | SyncEnd string nat wake
  | Decide string string string
  | Ping nat
  | StaleTick time
  | AckTick time
  | CleanTick time
  | Stop

fun handle :: "decoders \<Rightarrow> network \<Rightarrow> Server \<Rightarrow> event \<Rightarrow> Server" where
  "handle cd up s (Upgrade now query header conn data) = snd (handleUpgrade cd up now s query header conn data)"
| "handle cd up s (Receive now agentID data) = receive cd up now s agentID data"
| "handle cd up s (Gone now agentID conn) = disconnect up now s agentID conn"
| "handle cd up s (Assign now assignment) = snd (AssignTask up now s assignment)"
| "handle cd up s (SyncBegin now taskID userID message budget timeout) =
     snd (ExecuteSync_begin up now s taskID userID message budget timeout)"
| "handle cd up s (SyncEnd taskID ch w) = snd (ExecuteSync_end s taskID ch w)"
| "handle cd up s (Decide approvalID decision approverID) = snd (RouteApprovalResult up s approvalID decision approverID)"
| "handle cd up s (Ping conn) = ping up s conn"
| "handle cd up s (StaleTick now) = stale_check now s"
| "handle cd up s (AckTick now) = ack_check up now s"
| "handle cd up s (CleanTick now) = clean_check now s"
| "handle cd up s Stop = Shutdown s"

abbreviation serve :: "decoders \<Rightarrow> network \<Rightarrow> Server \<Rightarrow> event list \<Rightarrow> Server" where
  "serve cd up s evs \<equiv> foldl (handle cd up) s evs"

end
