(* ===== verification/WsServerRuns.thy ===== *)
theory WsServerRuns
  imports WsServer
begin

text \<open>
  What holds in every run of the WebSocket server: a task it has taken over is never forgotten, and no
  send on one of its channels can block. The first argument rests on the ledger laws of the tracker
  (\<open>Fleet.task_ledger\<close>), the second on counting channel numbers.
\<close>

section \<open>Where a task is\<close>

definition waiting :: "Server \<Rightarrow> string \<Rightarrow> bool" where
  "waiting s t \<longleftrightarrow> (\<exists>pt \<in> set (srv_pending s). ta_TaskID (pt_assignment pt) = t)"

definition refused :: "Server \<Rightarrow> string \<Rightarrow> bool" where
  "refused s t \<longleftrightarrow> (\<exists>(conn, env, ok) \<in> set (srv_sent s). \<not> ok \<and> (\<exists>a. env_Payload env = PAssign a \<and> ta_TaskID a = t))"

abbreviation at_agent :: "Server \<Rightarrow> string \<Rightarrow> bool" where
  "at_agent s t \<equiv> ledger.active (srv_tracker s) t"

definition held :: "Server \<Rightarrow> string \<Rightarrow> bool" where
  "held s t \<longleftrightarrow> waiting s t \<or> at_agent s t \<or> refused s t"

definition reports :: "decoders \<Rightarrow> event \<Rightarrow> string \<Rightarrow> bool" where
  "reports cd e t \<longleftrightarrow>
     (case e of
        Receive now agentID data \<Rightarrow>
          (case dec_envelope cd data of
             None \<Rightarrow> False
           | Some env \<Rightarrow> env_TaskID env = t \<and> (env_Type env = MsgTaskDone \<or> env_Type env = MsgTaskFailed))
      | _ \<Rightarrow> False)"

named_theorems ws_defs \<open>the parts of the server that only update fields\<close>

declare waiting_def [ws_defs] refused_def [ws_defs] held_def [ws_defs] Let_def [ws_defs]

lemma write_fields:
  assumes "writeEnvelope up s conn env = (e, s')"
  shows "\<exists>ok. s' = s\<lparr>srv_sent := (conn, env, ok) # srv_sent s\<rparr> \<and> (e = None \<longleftrightarrow> ok)"
  using assms by (auto simp: writeEnvelope_def Let_def)

lemma send_cases:
  assumes "sendTaskToAgent up now s a asg = (e, s')"
  obtains (sent) env where "e = None" "env_Payload env = PAssign asg"
      "s' = s\<lparr>srv_sent := (ca_Conn a, env, True) # srv_sent s,
              srv_registry := IncrementTasks (srv_registry s) (cap_AgentID (ca_Info a)),
              srv_tracker := Track now (srv_tracker s) asg (cap_AgentID (ca_Info a))\<rparr>"
    | (refused) env where "e \<noteq> None" "env_Payload env = PAssign asg"
      "s' = s\<lparr>srv_sent := (ca_Conn a, env, False) # srv_sent s\<rparr>"
proof -
  let ?env = "(NewEnvelope MsgTaskAssign (PAssign asg))\<lparr>env_AgentID := cap_AgentID (ca_Info a), env_TaskID := ta_TaskID asg\<rparr>"
  obtain w s1 where w: "writeEnvelope up s (ca_Conn a) ?env = (w, s1)" by fastforce
  from write_fields[OF w] obtain ok where ok: "s1 = s\<lparr>srv_sent := (ca_Conn a, ?env, ok) # srv_sent s\<rparr>" "w = None \<longleftrightarrow> ok" by blast
  have p: "env_Payload ?env = PAssign asg" by (simp add: NewEnvelope_def)
  show ?thesis
  proof (cases w)
    case None
    then show ?thesis using assms w ok by (intro sent[OF _ p]) (auto simp: sendTaskToAgent_def Let_def)
  next
    case (Some x)
    then show ?thesis using assms w ok by (intro refused[OF _ p]) (auto simp: sendTaskToAgent_def Let_def)
  qed
qed

definition kept_off_queue :: "Server \<Rightarrow> string \<Rightarrow> bool" where
  "kept_off_queue s t \<longleftrightarrow> at_agent s t \<or> refused s t"

lemma held_split: "held s t \<longleftrightarrow> waiting s t \<or> kept_off_queue s t"
  by (simp add: held_def kept_off_queue_def)

lemma send_keeps:
  assumes "sendTaskToAgent up now s a asg = (e, s')"
  shows "kept_off_queue s' (ta_TaskID asg)" "kept_off_queue s t \<Longrightarrow> kept_off_queue s' t"
    "srv_pending s' = srv_pending s" "tracker_ok (srv_tracker s) \<Longrightarrow> tracker_ok (srv_tracker s')"
  using assms by (cases rule: send_cases; auto simp: kept_off_queue_def refused_def ledger.active_track intro: ledger.sound_keeps)+

lemma drain_tasks_keeps:
  assumes "drain_tasks up now s rem pts = (rem', s')"
  shows "(kept_off_queue s t \<longrightarrow> kept_off_queue s' t) \<and>
    ((\<exists>pt \<in> set (rem @ pts). ta_TaskID (pt_assignment pt) = t) \<longrightarrow>
       (\<exists>pt \<in> set rem'. ta_TaskID (pt_assignment pt) = t) \<or> kept_off_queue s' t) \<and>
    (tracker_ok (srv_tracker s) \<longrightarrow> tracker_ok (srv_tracker s'))"
  using assms
proof (induction pts arbitrary: s rem)
  case Nil
  then show ?case by auto
next
  case (Cons pt pts)
  show ?case
  proof (cases "Route (srv_registry s) []")
    case None
    with Cons.prems have "drain_tasks up now s (rem @ [pt]) pts = (rem', s')" by simp
    from Cons.IH[OF this] show ?thesis by simp
  next
    case (Some a)
    obtain e s1 where s1: "sendTaskToAgent up now s a (pt_assignment pt) = (e, s1)" by fastforce
    let ?s = "s1\<lparr>srv_results := (pt_result pt, e) # srv_results s1\<rparr>"
    have "drain_tasks up now ?s rem pts = (rem', s')" using Cons.prems Some s1 by simp
    note ih = Cons.IH[OF this]
    have eq: "kept_off_queue ?s t = kept_off_queue s1 t" by (simp add: kept_off_queue_def refused_def)
    show ?thesis using ih send_keeps[OF s1] unfolding eq by auto
  qed
qed

lemma drain_keeps:
  assumes "held s t" shows "held (drainPendingTasks up now s) t"
proof -
  obtain rem s' where d: "drain_tasks up now s [] (srv_pending s) = (rem, s')" by fastforce
  have "kept_off_queue (s'\<lparr>srv_pending := rem\<rparr>) t = kept_off_queue s' t" by (simp add: kept_off_queue_def refused_def)
  then show ?thesis using assms drain_tasks_keeps[OF d, of t] d by (auto simp: held_split drainPendingTasks_def waiting_def)
qed

lemma drain_tracker_ok: "tracker_ok (srv_tracker s) \<Longrightarrow> tracker_ok (srv_tracker (drainPendingTasks up now s))"
proof -
  obtain rem s' where d: "drain_tasks up now s [] (srv_pending s) = (rem, s')" by fastforce
  show "tracker_ok (srv_tracker s) \<Longrightarrow> ?thesis" using drain_tasks_keeps[OF d] d by (simp add: drainPendingTasks_def)
qed

lemma enqueue_held: "held (enqueue s asg) t \<longleftrightarrow> t = ta_TaskID asg \<or> held s t"
  by (auto simp: enqueue_def ws_defs)

lemma requeue_held: "t = ta_TaskID asg \<or> held s t \<Longrightarrow> held (requeueTask up now s asg) t"
  unfolding requeueTask_def by (rule drain_keeps) (simp add: enqueue_held)

lemma requeue_tracker_ok: "tracker_ok (srv_tracker s) \<Longrightarrow> tracker_ok (srv_tracker (requeueTask up now s asg))"
  unfolding requeueTask_def by (rule drain_tracker_ok) (simp add: enqueue_def)

lemma resolve_held [simp]: "held (snd (sync_resolve s u r)) t = held s t"
  and resolve_tracker [simp]: "srv_tracker (snd (sync_resolve s u r)) = srv_tracker s"
  by (auto simp: sync_resolve_def ws_defs split: option.split)

lemma tracker_update_held:
  "held (s\<lparr>srv_registry := r, srv_tracker := l\<rparr>) t = held (s\<lparr>srv_tracker := l\<rparr>) t"
  "held (s\<lparr>srv_registry := r\<rparr>) t = held s t"
  "held (s\<lparr>srv_waiters := w\<rparr>) t = held s t"
  "held (s\<lparr>srv_approvals := ap\<rparr>) t = held s t"
  "held (s\<lparr>srv_closed := cl\<rparr>) t = held s t"
  by (auto simp: ws_defs)

lemma held_tracker:
  assumes "held s t"
  shows "t \<noteq> u \<Longrightarrow> held (s\<lparr>srv_tracker := MarkFailed now (srv_tracker s) u e\<rparr>) t"
    "t \<noteq> u \<Longrightarrow> held (s\<lparr>srv_tracker := MarkCompleted now (srv_tracker s) u\<rparr>) t"
    "t \<noteq> u \<Longrightarrow> held (s\<lparr>srv_tracker := snd (MarkTimedOut now (srv_tracker s) u)\<rparr>) t"
    "held (s\<lparr>srv_tracker := snd (MarkAccepted now (srv_tracker s) u)\<rparr>) t"
    "held (s\<lparr>srv_tracker := MarkProgress now (srv_tracker s) u\<rparr>) t"
    "tracker_ok (srv_tracker s) \<Longrightarrow> held (s\<lparr>srv_tracker := snd (CleanCompleted now (srv_tracker s) age)\<rparr>) t"
  using assms ledger.active_clean by (auto simp: held_def waiting_def refused_def ledger.ledger_rules)

section \<open>Each event keeps what is held\<close>

definition matching :: "TrackedTask list \<Rightarrow> bool" where
  "matching tasks \<longleftrightarrow> (\<forall>x \<in> set tasks. tt_TaskID x = ta_TaskID (tt_Assignment x))"

lemma matching_lists:
  assumes "tracker_ok l"
  shows "matching (TasksForAgent l agentID)" "matching (UnacknowledgedTasks now l)"
  using assms by (auto simp: matching_def tracker_ok_def TasksForAgent_def UnacknowledgedTasks_def Let_def)

lemma requeue_orphans_keeps:
  assumes "matching tasks" "tracker_ok (srv_tracker s)"
  shows "tracker_ok (srv_tracker (requeue_orphans up now s tasks)) \<and> (held s t \<longrightarrow> held (requeue_orphans up now s tasks) t)"
  using assms
proof (induction tasks arbitrary: s)
  case (Cons x xs)
  let ?s = "requeueTask up now (snd (sync_resolve (s\<lparr>srv_tracker := MarkFailed now (srv_tracker s) (tt_TaskID x) ''agent disconnected''\<rparr>)
              (tt_TaskID x) agent_gone)) (tt_Assignment x)"
  have "tracker_ok (srv_tracker ?s)" using Cons.prems(2) by (auto intro!: requeue_tracker_ok ledger.sound_keeps)
  moreover have "held s t \<longrightarrow> held ?s t"
    using Cons.prems(1) by (intro impI requeue_held) (auto simp: matching_def intro: held_tracker)
  ultimately show ?case using Cons.IH[of ?s] Cons.prems(1) by (auto simp: matching_def Let_def)
qed simp

lemma requeue_unacknowledged_keeps:
  assumes "matching tasks" "tracker_ok (srv_tracker s)"
  shows "tracker_ok (srv_tracker (requeue_unacknowledged up now s tasks)) \<and>
    (held s t \<longrightarrow> held (requeue_unacknowledged up now s tasks) t)"
  using assms
proof (induction tasks arbitrary: s)
  case (Cons x xs)
  let ?s = "requeueTask up now (s\<lparr>srv_tracker := snd (MarkTimedOut now (srv_tracker s) (tt_TaskID x)),
              srv_registry := DecrementTasks (srv_registry s) (tt_AgentID x)\<rparr>) (tt_Assignment x)"
  have "tracker_ok (srv_tracker ?s)" using Cons.prems(2) by (auto intro!: requeue_tracker_ok ledger.sound_keeps)
  moreover have "held s t \<longrightarrow> held ?s t"
    using Cons.prems(1) by (intro impI requeue_held) (auto simp: matching_def tracker_update_held(2) intro: held_tracker)
  ultimately show ?case using Cons.IH[of ?s] Cons.prems(1) by (auto simp: matching_def Let_def)
qed simp

lemma handleMessage_keeps:
  assumes "held s t" "\<not> (env_TaskID env = t \<and> (env_Type env = MsgTaskDone \<or> env_Type env = MsgTaskFailed))"
  shows "held (handleMessage cd up now s agentID env) t"
  using assms
  by (cases "env_Type env")
     (auto simp: handleMessage_def Let_def tracker_update_held intro!: drain_keeps held_tracker split: option.split)

lemma handleMessage_tracker_ok:
  "tracker_ok (srv_tracker s) \<Longrightarrow> tracker_ok (srv_tracker (handleMessage cd up now s agentID env))"
  by (cases "env_Type env")
     (auto simp: handleMessage_def Let_def intro!: drain_tracker_ok ledger.sound_keeps split: option.split)

lemma write_held:
  assumes "writeEnvelope up s conn env = (e, s')"
  shows "held s t \<Longrightarrow> held s' t" "srv_tracker s' = srv_tracker s"
  using write_fields[OF assms] by (auto simp: ws_defs)

lemma waitForRegistration_keeps:
  assumes "waitForRegistration cd up now s conn data = (r, s')"
  shows "held s t \<Longrightarrow> held s' t" "srv_tracker s' = srv_tracker s"
  using assms
  by (auto simp: waitForRegistration_def Let_def tracker_update_held write_held
      split: option.splits if_splits prod.splits dest!: write_held)

lemma ExecuteSync_begin_keeps:
  assumes "ExecuteSync_begin up now s taskID userID message budget timeout = (r, s')"
  shows "held s t \<Longrightarrow> held s' t" "tracker_ok (srv_tracker s) \<Longrightarrow> tracker_ok (srv_tracker s')"
    "\<not> isl r \<Longrightarrow> held s' taskID"
proof -
  show "(held s t \<Longrightarrow> held s' t)" "(tracker_ok (srv_tracker s) \<Longrightarrow> tracker_ok (srv_tracker s'))" "(\<not> isl r \<Longrightarrow> held s' taskID)"
  proof (atomize (full), cases "Route (srv_registry s) []")
    case None
    then show "(held s t \<longrightarrow> held s' t) \<and> (tracker_ok (srv_tracker s) \<longrightarrow> tracker_ok (srv_tracker s')) \<and> (\<not> isl r \<longrightarrow> held s' taskID)"
      using assms by (auto simp: ExecuteSync_begin_def)
  next
    case (Some a)
    let ?s0 = "s\<lparr>srv_chans := srv_chans s + 1, srv_waiters := AList.update taskID (srv_chans s) (srv_waiters s)\<rparr>"
    obtain e s1 where e: "sendTaskToAgent up now ?s0 a (sync_assignment taskID userID message budget timeout) = (e, s1)" by fastforce
    have eq: "held ?s0 t = held s t" "kept_off_queue ?s0 t = kept_off_queue s t" "waiting ?s0 t = waiting s t"
      by (simp_all add: kept_off_queue_def ws_defs)
    have s': "s' = s1 \<or> s' = sync_remove s1 taskID" using assms Some e
      by (auto simp: ExecuteSync_begin_def sync_register_def split: option.splits)
    have p: "waiting s1 t = waiting s t" using send_keeps(3)[OF e] by (simp add: waiting_def)
    have h: "held s' u = held s1 u" for u using s' by (auto simp: sync_remove_def tracker_update_held)
    have tr: "srv_tracker s' = srv_tracker s1" using s' by (auto simp: sync_remove_def)
    show "(held s t \<longrightarrow> held s' t) \<and> (tracker_ok (srv_tracker s) \<longrightarrow> tracker_ok (srv_tracker s')) \<and> (\<not> isl r \<longrightarrow> held s' taskID)"
      unfolding h tr using send_keeps(1,4)[OF e] send_keeps(2)[OF e, of t, unfolded eq]
      by (auto simp: held_split p sync_assignment_def)
  qed
qed

lemma AssignTask_keeps:
  assumes "AssignTask up now s asg = (r, s')"
  shows "held s t \<Longrightarrow> held s' t" "held s' (ta_TaskID asg)" "tracker_ok (srv_tracker s) \<Longrightarrow> tracker_ok (srv_tracker s')"
proof -
  show "(held s t \<Longrightarrow> held s' t)" "held s' (ta_TaskID asg)" "(tracker_ok (srv_tracker s) \<Longrightarrow> tracker_ok (srv_tracker s'))"
  proof (atomize (full), cases "Route (srv_registry s) []")
    case None
    then show "(held s t \<longrightarrow> held s' t) \<and> held s' (ta_TaskID asg) \<and> (tracker_ok (srv_tracker s) \<longrightarrow> tracker_ok (srv_tracker s'))"
      using assms by (auto simp: AssignTask_def enqueue_held) (auto simp: enqueue_def)
  next
    case (Some a)
    obtain e where e: "sendTaskToAgent up now s a asg = (e, s')" using assms Some by (auto simp: AssignTask_def split: prod.splits)
    then show "(held s t \<longrightarrow> held s' t) \<and> held s' (ta_TaskID asg) \<and> (tracker_ok (srv_tracker s) \<longrightarrow> tracker_ok (srv_tracker s'))"
      using send_keeps[OF e] by (auto simp: held_split waiting_def)
  qed
qed

lemma stays_held:
  "waitForRegistration cd up now s conn data = (r, s') \<Longrightarrow> held s t \<Longrightarrow> held (drainPendingTasks up now s') t"
  by (rule drain_keeps, rule waitForRegistration_keeps(1))

lemma handle_tracker_ok:
  assumes "tracker_ok (srv_tracker s)"
  shows "tracker_ok (srv_tracker (handle cd up s e))"
proof (cases e)
  case (Upgrade now q h conn data)
  then show ?thesis using assms
    by (auto simp: handleUpgrade_def waitForRegistration_keeps(2) intro!: drain_tracker_ok split: prod.split sum.split)
next
  case (Gone now agentID conn)
  then show ?thesis using requeue_orphans_keeps[OF matching_lists(1)[OF assms] assms] by (simp add: disconnect_def Let_def)
next
  case (AckTick now)
  then show ?thesis using requeue_unacknowledged_keeps[OF matching_lists(2)[OF assms] assms] by (simp add: ack_check_def)
next
  case (Assign now asg)
  then show ?thesis using assms AssignTask_keeps(3) by (metis handle.simps(4) prod.collapse)
next
  case (SyncBegin now tid u m b t)
  then show ?thesis using assms ExecuteSync_begin_keeps(2) by (metis handle.simps(5) prod.collapse)
qed (use assms in \<open>auto simp: receive_def handleMessage_tracker_ok ExecuteSync_end_def sync_remove_def RouteApprovalResult_def
       ping_def writeEnvelope_def stale_check_def clean_check_def Shutdown_def Let_def ledger.sound_keeps
       split: option.split wake.split prod.split\<close>)

lemma write_snd_held: "held s t \<Longrightarrow> held (snd (writeEnvelope up s conn env)) t"
  by (metis prod.collapse write_held(1))

lemma handle_keeps:
  assumes "tracker_ok (srv_tracker s)" "held s t" "\<not> reports cd e t"
  shows "held (handle cd up s e) t"
proof (cases e)
  case (Upgrade now q h conn data)
  then show ?thesis using assms(2)
    by (auto simp: handleUpgrade_def tracker_update_held waitForRegistration_keeps(1) stays_held split: prod.split sum.split)
next
  case (Receive now agentID data)
  then show ?thesis using assms(2,3)
    by (auto simp: receive_def reports_def intro!: handleMessage_keeps split: option.splits)
next
  case (Gone now agentID conn)
  then show ?thesis using assms(2) requeue_orphans_keeps[OF matching_lists(1)[OF assms(1)] assms(1)]
    by (simp add: disconnect_def Let_def tracker_update_held)
next
  case (AckTick now)
  then show ?thesis using assms(2) requeue_unacknowledged_keeps[OF matching_lists(2)[OF assms(1)] assms(1)]
    by (simp add: ack_check_def)
next
  case (Assign now asg)
  then show ?thesis using assms(2) AssignTask_keeps(1) by (metis handle.simps(4) prod.collapse)
next
  case (SyncBegin now tid u m b t)
  then show ?thesis using assms(2) ExecuteSync_begin_keeps(1) by (metis handle.simps(5) prod.collapse)
qed (use assms(1,2) in \<open>auto simp: ExecuteSync_end_def sync_remove_def RouteApprovalResult_def ping_def stale_check_def
       clean_check_def Shutdown_def Let_def tracker_update_held held_tracker write_snd_held split: option.split wake.split prod.split\<close>)

lemma serve_tracker_ok: "tracker_ok (srv_tracker s) \<Longrightarrow> tracker_ok (srv_tracker (serve cd up s evs))"
  by (induction evs arbitrary: s) (simp_all add: handle_tracker_ok)

lemma serve_keeps:
  assumes "tracker_ok (srv_tracker s)" "held s t"
  shows "held (serve cd up s evs) t \<or> (\<exists>e \<in> set evs. reports cd e t)"
  using assms
proof (induction evs arbitrary: s)
  case (Cons e evs)
  show ?case
  proof (cases "reports cd e t")
    case False
    with Cons show ?thesis using Cons.IH[of "handle cd up s e"] handle_keeps handle_tracker_ok by fastforce
  qed simp
qed simp

lemma NewServer_tracker_ok [simp]: "tracker_ok (srv_tracker (NewServer reg cfg))"
  by (simp add: NewServer_def NewTaskTracker_def tracker_ok_def)

text \<open>(C7) No task is lost: after \<open>AssignTask\<close>, or after an \<open>ExecuteSync\<close> that found an agent and could send to it,
  whatever agents do, connect or disconnect, the task is queued, tracked at an agent in a
  state that is not final, reported done or failed by an agent in the meantime, or a write that carried
  it failed.\<close>

theorem task_not_lost:
  assumes "s = serve cd up (NewServer registry cfg) before"
    and "(\<exists>now a. e = Assign now a \<and> t = ta_TaskID a) \<or>
      (\<exists>now u m b d. e = SyncBegin now t u m b d \<and> \<not> isl (fst (ExecuteSync_begin up now s t u m b d)))"
    and "s' = serve cd up s (e # after)"
  shows "(\<exists>pt \<in> set (srv_pending s'). ta_TaskID (pt_assignment pt) = t) \<or>
    (\<exists>st. tracked_state (srv_tracker s') t = Some st \<and> \<not> terminal st) \<or>
    (\<exists>e \<in> set after. reports cd e t) \<or>
    (\<exists>conn env a. (conn, env, False) \<in> set (srv_sent s') \<and> env_Payload env = PAssign a \<and> ta_TaskID a = t)"
proof -
  have ok: "tracker_ok (srv_tracker s)" unfolding assms(1) by (intro serve_tracker_ok) simp
  have "held (handle cd up s e) t" using assms(2) AssignTask_keeps(2) ExecuteSync_begin_keeps(3)
    by (auto simp: prod_eq_iff)
  from serve_keeps[OF handle_tracker_ok[OF ok] this, of cd up after]
  show ?thesis using assms(3) unfolding held_def waiting_def refused_def ledger.active_def by fastforce
qed

definition demo_codec :: "int \<Rightarrow> decoders" where
  "demo_codec maxParallel =
     \<lparr>dec_envelope = (\<lambda>d. if d = ''r'' then Some (NewEnvelope MsgAgentRegister PNone)
                        else if d = ''d'' then Some ((NewEnvelope MsgTaskDone PNone)\<lparr>env_TaskID := ''t''\<rparr>) else None),
      dec_caps = (\<lambda>p. Some (demo_caps ''a'' maxParallel)), dec_heartbeat = (\<lambda>p. None), dec_progress = (\<lambda>p. None),
      dec_result = (\<lambda>p. Some \<lparr>trp_Output = ''out'', trp_TokensUsed = 1, trp_CostUSD = 0, trp_ToolCalls = 0, trp_Duration = []\<rparr>),
      dec_failed = (\<lambda>p. None), dec_approval = (\<lambda>p. None)\<rparr>"

definition demo_assignment :: TaskAssignment where
  "demo_assignment = sync_assignment ''t'' ''u'' ''goal'' 1 0"

definition demo_joined :: "event list" where
  "demo_joined = [Upgrade 0 [] [] 1 (Some ''r'')]"

theorem task_not_lost_witness:
  "let s = serve (demo_codec 1) (\<lambda>log c e. True) (NewServer [] None) demo_joined;
       s' = serve (demo_codec 1) (\<lambda>log c e. True) s [Assign 1 demo_assignment, Gone 2 ''a'' 1]
   in map pt_assignment (srv_pending s') = [demo_assignment] \<and>
      ((\<exists>pt \<in> set (srv_pending s'). ta_TaskID (pt_assignment pt) = ''t'') \<or>
       (\<exists>st. tracked_state (srv_tracker s') ''t'' = Some st \<and> \<not> terminal st) \<or>
       (\<exists>e \<in> set [Gone 2 ''a'' 1]. reports (demo_codec 1) e ''t'') \<or>
       (\<exists>conn env a. (conn, env, False) \<in> set (srv_sent s') \<and> env_Payload env = PAssign a \<and> ta_TaskID a = ''t''))"
proof -
  let ?s = "serve (demo_codec 1) (\<lambda>log c e. True) (NewServer [] None) demo_joined"
  have "map pt_assignment (srv_pending (serve (demo_codec 1) (\<lambda>log c e. True) ?s [Assign 1 demo_assignment, Gone 2 ''a'' 1])) = [demo_assignment]"
    by code_simp
  moreover have "(\<exists>now a. Assign 1 demo_assignment = Assign now a \<and> ''t'' = ta_TaskID a)"
    by (simp add: demo_assignment_def sync_assignment_def)
  ultimately show ?thesis
    unfolding Let_def using task_not_lost[OF refl, of "Assign 1 demo_assignment" "''t''" _ _ _ _ demo_joined, OF _ refl] by blast
qed

text \<open>
  When the only agent disconnects, its tasks are put back into the queue while it is still registered: routing
  picks the dead agent, the write fails, and the task is neither queued nor tracked as running.
\<close>

theorem requeue_to_dead_agent_drops_task:
  "let s = serve (demo_codec 0) (\<lambda>log c e. length log < 2) (NewServer [] None) (demo_joined @ [Assign 1 demo_assignment]);
       s' = handle (demo_codec 0) (\<lambda>log c e. length log < 2) s (Gone 2 ''a'' 1)
   in tracked_state (srv_tracker s) ''t'' = Some Dispatched \<and>
      srv_pending s' = [] \<and> tracked_state (srv_tracker s') ''t'' = Some Failed \<and> srv_registry s' = []"
  by code_simp

text \<open>A duplicate connection: the old connection's cleanup takes the tasks of the agent's new connection.\<close>

theorem duplicate_connection_requeues_new_tasks:
  "let s = serve (demo_codec 1) (\<lambda>log c e. True) (NewServer [] None)
         (demo_joined @ [Upgrade 1 [] [] 2 (Some ''r''), Assign 2 demo_assignment]);
       s' = handle (demo_codec 1) (\<lambda>log c e. True) s (Gone 3 ''a'' 1)
   in map_option ca_Conn (map_of (srv_registry s) ''a'') = Some 2 \<and> tracked_state (srv_tracker s) ''t'' = Some Dispatched \<and>
      map_option ca_Conn (map_of (srv_registry s') ''a'') = Some 2 \<and> tracked_state (srv_tracker s') ''t'' = Some Failed"
  by code_simp

text \<open>A synchronous caller is told that the agent disconnected, while the same task is queued to be executed again.\<close>

theorem failed_sync_task_runs_again:
  "let s = serve (demo_codec 1) (\<lambda>log c e. True) (NewServer [] None) (demo_joined @ [SyncBegin 1 ''t'' ''u'' ''goal'' 1 0]);
       s' = handle (demo_codec 1) (\<lambda>log c e. True) s (Gone 2 ''a'' 1)
   in srv_delivered s' = [(0, agent_gone)] \<and> map (ta_TaskID \<circ> pt_assignment) (srv_pending s') = [''t'']"
  by code_simp

section \<open>Channels\<close>

definition used :: "Server \<Rightarrow> nat list" where
  "used s = map pt_result (srv_pending s) @ map snd (srv_waiters s) @ map fst (srv_results s) @ map fst (srv_delivered s)"

definition chan_ok :: "Server \<Rightarrow> bool" where
  "chan_ok s \<longleftrightarrow> distinct (used s) \<and> (\<forall>c \<in> set (used s). c < srv_chans s)"

lemma distinct_submset: "mset xs \<subseteq># mset ys \<Longrightarrow> distinct ys \<Longrightarrow> distinct xs"
  by (metis distinct_count_atmost_1 count_mset_0_iff le_zero_eq mset_subset_eq_count less_one linorder_not_le
      le_antisym less_eq_nat.simps(1))

lemma chan_ok_sub:
  assumes "chan_ok s" "mset (used s') \<subseteq># mset (used s)" "srv_chans s' = srv_chans s"
  shows "chan_ok s'"
  using assms distinct_submset set_mset_mono[OF assms(2)] by (auto simp: chan_ok_def)

lemma chan_ok_fresh:
  assumes "chan_ok s" "mset (used s') \<subseteq># add_mset (srv_chans s) (mset (used s))" "srv_chans s' = Suc (srv_chans s)"
  shows "chan_ok s'"
proof -
  have "distinct (srv_chans s # used s)" using assms(1) by (auto simp: chan_ok_def)
  then have "distinct (used s')" using assms(2) by (intro distinct_submset[of "used s'" "srv_chans s # used s"]) auto
  then show ?thesis using assms set_mset_mono[OF assms(2)] by (fastforce simp: chan_ok_def)
qed

lemma mset_update_snd: "mset (map snd (AList.update k v al)) \<subseteq># add_mset v (mset (map snd al))"
  by (induction al) (auto simp: add_mset_commute intro: mset_subset_eq_add_mset_cancel subset_mset.order_trans)

lemma mset_delete_snd: "mset (map snd (AList.delete k al)) \<subseteq># mset (map snd al)"
  by (simp add: AList.delete_eq multiset_filter_subset image_mset_subseteq_mono mset_filter)

lemma mset_delete_found: "map_of al k = Some v \<Longrightarrow> add_mset v (mset (map snd (AList.delete k al))) \<subseteq># mset (map snd al)"
proof (induction al)
  case (Cons p al)
  then show ?case using mset_delete_snd[of k al] by (cases p) (auto simp: add_mset_commute split: if_splits)
qed simp

lemma send_channels:
  assumes "sendTaskToAgent up now s a asg = (e, s')"
  shows "srv_chans s' = srv_chans s" "srv_waiters s' = srv_waiters s" "srv_results s' = srv_results s"
    "srv_delivered s' = srv_delivered s" "srv_pending s' = srv_pending s"
  using assms by (cases rule: send_cases; simp)+

lemma drain_tasks_channels:
  assumes "drain_tasks up now s rem pts = (rem', s')"
  shows "srv_chans s' = srv_chans s \<and> srv_waiters s' = srv_waiters s \<and> srv_delivered s' = srv_delivered s \<and>
    mset (map pt_result rem' @ map fst (srv_results s')) = mset (map pt_result (rem @ pts) @ map fst (srv_results s))"
  using assms
proof (induction pts arbitrary: s rem)
  case (Cons pt pts)
  show ?case
  proof (cases "Route (srv_registry s) []")
    case None
    then show ?thesis using Cons.IH[of s "rem @ [pt]"] Cons.prems by simp
  next
    case (Some a)
    obtain e s1 where s1: "sendTaskToAgent up now s a (pt_assignment pt) = (e, s1)" by fastforce
    then show ?thesis using Cons.IH[of "s1\<lparr>srv_results := (pt_result pt, e) # srv_results s1\<rparr>" rem] Cons.prems Some
      by (simp add: send_channels[OF s1])
  qed
qed simp

lemma drain_chan_ok: "chan_ok s \<Longrightarrow> chan_ok (drainPendingTasks up now s)"
proof -
  obtain rem s' where d: "drain_tasks up now s [] (srv_pending s) = (rem, s')" by fastforce
  show "chan_ok s \<Longrightarrow> ?thesis"
    by (erule chan_ok_sub) (use drain_tasks_channels[OF d] d in \<open>simp_all add: drainPendingTasks_def used_def union_ac\<close>)
qed

lemma enqueue_chan_ok: "chan_ok s \<Longrightarrow> chan_ok (enqueue s asg)"
  by (erule chan_ok_fresh) (simp_all add: enqueue_def used_def)

lemma requeue_chan_ok: "chan_ok s \<Longrightarrow> chan_ok (requeueTask up now s asg)"
  by (simp add: requeueTask_def drain_chan_ok enqueue_chan_ok)

lemma resolve_chan_ok:
  assumes "chan_ok s" shows "chan_ok (snd (sync_resolve s u r))"
proof (cases "map_of (srv_waiters s) u")
  case None
  then show ?thesis using assms by (simp add: sync_resolve_def)
next
  case (Some ch)
  from mset_delete_found[OF this] show ?thesis using assms Some
    by (intro chan_ok_sub[OF assms]) (auto simp: sync_resolve_def used_def ac_simps intro: subset_mset.add_left_mono)
qed

lemma remove_chan_ok: "chan_ok s \<Longrightarrow> chan_ok (sync_remove s u)"
  by (erule chan_ok_sub) (auto simp: sync_remove_def used_def mset_delete_snd[simplified])

lemma register_chan_ok:
  "chan_ok s \<Longrightarrow> chan_ok (s\<lparr>srv_chans := Suc (srv_chans s), srv_waiters := AList.update u (srv_chans s) (srv_waiters s)\<rparr>)"
proof (erule chan_ok_fresh)
  let ?rest = "mset (map fst (srv_results s)) + mset (map fst (srv_delivered s))"
  have "mset (map pt_result (srv_pending s)) + (mset (map snd (AList.update u (srv_chans s) (srv_waiters s))) + ?rest) \<subseteq>#
        mset (map pt_result (srv_pending s)) + (add_mset (srv_chans s) (mset (map snd (srv_waiters s))) + ?rest)"
    by (intro subset_mset.add_mono subset_mset.order_refl mset_update_snd)
  then show "mset (used (s\<lparr>srv_chans := Suc (srv_chans s), srv_waiters := AList.update u (srv_chans s) (srv_waiters s)\<rparr>))
      \<subseteq># add_mset (srv_chans s) (mset (used s))" by (simp add: used_def)
qed simp

lemma field_chan_ok [simp]:
  "chan_ok (s\<lparr>srv_tracker := l\<rparr>) = chan_ok s" "chan_ok (s\<lparr>srv_registry := r\<rparr>) = chan_ok s"
  "chan_ok (s\<lparr>srv_registry := r, srv_tracker := l\<rparr>) = chan_ok s"
  "chan_ok (s\<lparr>srv_approvals := ap\<rparr>) = chan_ok s" "chan_ok (s\<lparr>srv_closed := cl\<rparr>) = chan_ok s"
  "chan_ok (s\<lparr>srv_sent := sl\<rparr>) = chan_ok s" "chan_ok (s\<lparr>srv_registry := r, srv_closed := cl\<rparr>) = chan_ok s"
  by (simp_all add: chan_ok_def used_def)

lemma write_chan_ok: "writeEnvelope up s conn env = (e, s') \<Longrightarrow> chan_ok s' = chan_ok s"
  by (drule write_fields) auto

lemma orphans_chan_ok: "chan_ok s \<Longrightarrow> chan_ok (requeue_orphans up now s tasks)"
  by (induction tasks arbitrary: s) (simp_all add: Let_def requeue_chan_ok resolve_chan_ok)

lemma unacknowledged_chan_ok: "chan_ok s \<Longrightarrow> chan_ok (requeue_unacknowledged up now s tasks)"
  by (induction tasks arbitrary: s) (simp_all add: Let_def requeue_chan_ok)

lemma send_chan_ok: "sendTaskToAgent up now s a asg = (e, s') \<Longrightarrow> chan_ok s' = chan_ok s"
  by (simp add: chan_ok_def used_def send_channels)

lemma ExecuteSync_begin_chan_ok: "chan_ok s \<Longrightarrow> chan_ok (snd (ExecuteSync_begin up now s tid u m b d))"
  by (auto simp: ExecuteSync_begin_def sync_register_def Let_def send_chan_ok register_chan_ok remove_chan_ok
      split: option.split prod.split)

lemma handleMessage_chan_ok: "chan_ok s \<Longrightarrow> chan_ok (handleMessage cd up now s agentID env)"
  by (cases "env_Type env")
     (auto simp: handleMessage_def Let_def intro!: drain_chan_ok resolve_chan_ok split: option.split)

lemma registration_chan_ok: "waitForRegistration cd up now s conn data = (r, s') \<Longrightarrow> chan_ok s' = chan_ok s"
  by (auto simp: waitForRegistration_def Let_def split: option.splits if_splits prod.splits dest!: write_chan_ok)

lemma handle_chan_ok: "chan_ok s \<Longrightarrow> chan_ok (handle cd up s e)"
  by (cases e)
     (auto simp: handleUpgrade_def registration_chan_ok drain_chan_ok receive_def handleMessage_chan_ok disconnect_def Let_def
       orphans_chan_ok AssignTask_def send_chan_ok enqueue_chan_ok ExecuteSync_begin_chan_ok ExecuteSync_end_def remove_chan_ok
       RouteApprovalResult_def ping_def write_chan_ok[OF surjective_pairing] stale_check_def ack_check_def unacknowledged_chan_ok
       clean_check_def Shutdown_def split: option.split wake.split prod.split sum.split)

lemma serve_chan_ok: "chan_ok s \<Longrightarrow> chan_ok (serve cd up s evs)"
  by (induction evs arbitrary: s) (simp_all add: handle_chan_ok)

text \<open>Every channel the server sends on, the result channels of queued tasks and those of synchronous callers,
  gets at most one value in any run; since each has room for one, no handler ever blocks on a send,
  in particular not while it holds the lock of the queue. A synchronous caller gets at most one result.\<close>

theorem channels_served_once:
  "let s = serve cd up (NewServer registry cfg) evs
   in distinct (map fst (srv_results s) @ map fst (srv_delivered s))"
proof -
  have "chan_ok (serve cd up (NewServer registry cfg) evs)"
    by (rule serve_chan_ok) (simp add: chan_ok_def used_def NewServer_def)
  then show ?thesis by (auto simp: chan_ok_def used_def Let_def)
qed

end
