(* ===== verification/Routing.thy ===== *)
theory Routing
  imports AgentLoop WsServer
begin

text \<open>
  The agent that answers from a remote agent when one is remotes and from the embedded agent otherwise
  (\<^verbatim>\<open>agent/routing.go\<close>, with \<^verbatim>\<open>gateway/ws/adapter.go\<close>). The remote execution and the embedded agent are functions
  of one state.
\<close>

record RoutingAgent =
  ra_remote :: bool
  ra_embeddedEnabled :: bool
  ra_embeddedFallback :: bool
  ra_budgetUSD :: usd
  ra_timeout :: duration

datatype 'e route_error =
    RemoteAgentError string
  | RemoteFailedNoFallback WsError
  | NoAgentsAvailable
  | EmbeddedError 'e

definition remote_response :: "SyncTaskResult \<Rightarrow> Response" where
  "remote_response r = \<lparr>rp_Message = str_Output r, rp_TokensUsed = str_TokensUsed r, rp_ApprovalRequests = [], rp_ToolResults = []\<rparr>"

definition run_embedded ::
  "RoutingAgent \<Rightarrow> (Input \<Rightarrow> 's \<Rightarrow> ('e + Response) \<times> 's) \<Rightarrow> Input \<Rightarrow> 's \<Rightarrow> ('e route_error + Response) \<times> 's" where
  "run_embedded r embedded inp s =
     (if \<not> ra_embeddedEnabled r \<and> \<not> ra_embeddedFallback r then (Inl NoAgentsAvailable, s)
      else (case embedded inp s of
              (res, s') \<Rightarrow> (map_sum EmbeddedError (\<lambda>resp. resp) res, s')))"

definition Routing_Process ::
  "RoutingAgent \<Rightarrow> ('s \<Rightarrow> nat) \<Rightarrow> (string \<Rightarrow> string \<Rightarrow> usd \<Rightarrow> duration \<Rightarrow> 's \<Rightarrow> (WsError + SyncTaskResult) \<times> 's) \<Rightarrow>
   (Input \<Rightarrow> 's \<Rightarrow> ('e + Response) \<times> 's) \<Rightarrow> Input \<Rightarrow> 's \<Rightarrow> ('e route_error + Response) \<times> 's" where
  "Routing_Process r remotes execute embedded inp s =
     (if ra_remote r \<and> remotes s > 0
      then (let timeout = (if ra_timeout r = 0 then 5 * Minute else ra_timeout r)
            in case execute (in_UserID inp) (in_Message inp) (ra_budgetUSD r) timeout s of
                 (Inr result, s') \<Rightarrow>
                   if str_Success result then (Inr (remote_response result), s')
                   else (Inl (RemoteAgentError (str_Error result)), s')
               | (Inl e, s') \<Rightarrow>
                   if \<not> ra_embeddedFallback r then (Inl (RemoteFailedNoFallback e), s')
                   else run_embedded r embedded inp s')
      else run_embedded r embedded inp s)"

end
