(* ===== verification/WorkflowRepo.thy ===== *)
theory WorkflowRepo
  imports WorkflowStore
begin

text \<open>
  The PostgreSQL implementation of the workflow store (\<^verbatim>\<open>storage/postgres/workflow_repo.go\<close>,
  \<^verbatim>\<open>convert_workflow.go\<close> and the three tables of \<^verbatim>\<open>models.go\<close>).

  \<^item> A table is the list of its rows in the order a query without \<^verbatim>\<open>ORDER BY\<close> happens to return them; \<^verbatim>\<open>Create\<close> fails on
    a known primary key, \<^verbatim>\<open>Save\<close> updates the row with the key or inserts one and stamps \<^verbatim>\<open>updated_at\<close>, and an inserted
    zero value takes the default of its column, as GORM documents. A database that does not answer and the
    rounding of the \<^verbatim>\<open>numeric(14,6)\<close> columns are not modelled.
  \<^item> A status column holds the text of a status; the queries compare that text. A \<^verbatim>\<open>JSONB\<close> column holds the JSON of a
    value, which is identified with the value: unmarshalling into another type yields nothing. Marshalling these types
    cannot fail, so the fallbacks for a failing \<^verbatim>\<open>json.Marshal\<close> do not appear.
\<close>

section \<open>Rows\<close>

datatype JSONB = JUUIDs "uuid list" | JObject "params option" | JArtifacts "Artifact list"

fun unmarshal_uuids :: "JSONB \<Rightarrow> uuid list" where
  "unmarshal_uuids (JUUIDs xs) = xs"
| "unmarshal_uuids _ = []"

fun unmarshal_object :: "JSONB \<Rightarrow> params option" where
  "unmarshal_object (JObject ps) = ps"
| "unmarshal_object _ = None"

fun unmarshal_artifacts :: "JSONB \<Rightarrow> Artifact list" where
  "unmarshal_artifacts (JArtifacts xs) = xs"
| "unmarshal_artifacts _ = []"

fun task_status_text :: "TaskStatus \<Rightarrow> string" where
  "task_status_text TaskPending = ''pending''"
| "task_status_text TaskBlocked = ''blocked''"
| "task_status_text TaskRunning = ''running''"
| "task_status_text TaskCompleted = ''completed''"
| "task_status_text TaskFailed = ''failed''"
| "task_status_text TaskRecovering = ''recovering''"
| "task_status_text TaskSkipped = ''skipped''"

fun workflow_status_text :: "WorkflowStatus \<Rightarrow> string" where
  "workflow_status_text WorkflowPending = ''pending''"
| "workflow_status_text WorkflowRunning = ''running''"
| "workflow_status_text WorkflowCompleted = ''completed''"
| "workflow_status_text WorkflowFailed = ''failed''"
| "workflow_status_text WorkflowCancelled = ''cancelled''"

record WorkflowModel =
  wm_ID :: uuid
  wm_OrgID :: uuid
  wm_UserID :: string
  wm_CorrelationID :: string
  wm_Goal :: string
  wm_Status :: WorkflowStatus
  wm_RootTaskID :: "uuid option"
  wm_BudgetLimitUSD :: usd
  wm_BudgetSpentUSD :: usd
  wm_MaxDepth :: int
  wm_MaxTasks :: int
  wm_TaskCount :: int
  wm_Error :: string
  wm_Metadata :: JSONB
  wm_CreatedAt :: time
  wm_UpdatedAt :: time
  wm_CompletedAt :: "time option"

record TaskModel =
  tm_ID :: uuid
  tm_WorkflowID :: uuid
  tm_OrgID :: uuid
  tm_ParentTaskID :: "uuid option"
  tm_AgentRole :: string
  tm_Description :: string
  tm_Input :: string
  tm_Output :: string
  tm_Status :: TaskStatus
  tm_Mode :: string
  tm_Depth :: int
  tm_Priority :: int
  tm_DependsOn :: JSONB
  tm_Error :: string
  tm_CostUSD :: usd
  tm_TokensUsed :: int
  tm_ClaimedBy :: string
  tm_ClaimedAt :: "time option"
  tm_RetryCount :: int
  tm_MaxRetries :: int
  tm_OriginalTaskID :: "uuid option"
  tm_Metadata :: JSONB
  tm_CreatedAt :: time
  tm_UpdatedAt :: time
  tm_StartedAt :: "time option"
  tm_CompletedAt :: "time option"

record AgentMessageModel =
  am_ID :: uuid
  am_WorkflowID :: uuid
  am_OrgID :: uuid
  am_FromTaskID :: uuid
  am_ToTaskID :: "uuid option"
  am_FromRole :: string
  am_ToRole :: string
  am_MessageType :: string
  am_Content :: string
  am_Artifacts :: JSONB
  am_CorrelationID :: string
  am_CreatedAt :: time

section \<open>Conversions\<close>

definition toWorkflowModel :: "Workflow \<Rightarrow> WorkflowModel" where
  "toWorkflowModel w =
     \<lparr>wm_ID = wf_ID w, wm_OrgID = wf_OrgID w, wm_UserID = wf_UserID w, wm_CorrelationID = wf_CorrelationID w,
      wm_Goal = wf_Goal w, wm_Status = wf_Status w, wm_RootTaskID = wf_RootTaskID w, wm_BudgetLimitUSD = wf_BudgetLimitUSD w,
      wm_BudgetSpentUSD = wf_BudgetSpentUSD w, wm_MaxDepth = wf_MaxDepth w, wm_MaxTasks = wf_MaxTasks w,
      wm_TaskCount = wf_TaskCount w, wm_Error = wf_Error w, wm_Metadata = JObject (wf_Metadata w),
      wm_CreatedAt = wf_CreatedAt w, wm_UpdatedAt = wf_UpdatedAt w, wm_CompletedAt = wf_CompletedAt w\<rparr>"

definition toWorkflowDomain :: "WorkflowModel \<Rightarrow> Workflow" where
  "toWorkflowDomain m =
     \<lparr>wf_ID = wm_ID m, wf_OrgID = wm_OrgID m, wf_UserID = wm_UserID m, wf_CorrelationID = wm_CorrelationID m,
      wf_Goal = wm_Goal m, wf_Status = wm_Status m, wf_RootTaskID = wm_RootTaskID m, wf_BudgetLimitUSD = wm_BudgetLimitUSD m,
      wf_BudgetSpentUSD = wm_BudgetSpentUSD m, wf_MaxDepth = wm_MaxDepth m, wf_MaxTasks = wm_MaxTasks m,
      wf_TaskCount = wm_TaskCount m, wf_CreatedAt = wm_CreatedAt m, wf_UpdatedAt = wm_UpdatedAt m,
      wf_CompletedAt = wm_CompletedAt m, wf_Error = wm_Error m, wf_Metadata = unmarshal_object (wm_Metadata m)\<rparr>"

definition toTaskModel :: "Task \<Rightarrow> TaskModel" where
  "toTaskModel t =
     \<lparr>tm_ID = tk_ID t, tm_WorkflowID = tk_WorkflowID t, tm_OrgID = tk_OrgID t, tm_ParentTaskID = tk_ParentTaskID t,
      tm_AgentRole = tk_AgentRole t, tm_Description = tk_Description t, tm_Input = tk_Input t, tm_Output = tk_Output t,
      tm_Status = tk_Status t, tm_Mode = tk_Mode t, tm_Depth = tk_Depth t, tm_Priority = tk_Priority t,
      tm_DependsOn = JUUIDs (tk_DependsOn t), tm_Error = tk_Error t, tm_CostUSD = tk_CostUSD t, tm_TokensUsed = tk_TokensUsed t,
      tm_ClaimedBy = tk_ClaimedBy t, tm_ClaimedAt = tk_ClaimedAt t, tm_RetryCount = tk_RetryCount t,
      tm_MaxRetries = tk_MaxRetries t, tm_OriginalTaskID = tk_OriginalTaskID t, tm_Metadata = JObject (tk_Metadata t),
      tm_CreatedAt = tk_CreatedAt t, tm_UpdatedAt = tk_UpdatedAt t, tm_StartedAt = tk_StartedAt t, tm_CompletedAt = tk_CompletedAt t\<rparr>"

definition toTaskDomain :: "TaskModel \<Rightarrow> Task" where
  "toTaskDomain m =
     \<lparr>tk_ID = tm_ID m, tk_WorkflowID = tm_WorkflowID m, tk_OrgID = tm_OrgID m, tk_ParentTaskID = tm_ParentTaskID m,
      tk_AgentRole = tm_AgentRole m, tk_Description = tm_Description m, tk_Input = tm_Input m, tk_Output = tm_Output m,
      tk_Status = tm_Status m, tk_Mode = tm_Mode m, tk_Depth = tm_Depth m, tk_Priority = tm_Priority m,
      tk_DependsOn = unmarshal_uuids (tm_DependsOn m), tk_CreatedAt = tm_CreatedAt m, tk_UpdatedAt = tm_UpdatedAt m,
      tk_StartedAt = tm_StartedAt m, tk_CompletedAt = tm_CompletedAt m, tk_Error = tm_Error m, tk_CostUSD = tm_CostUSD m,
      tk_TokensUsed = tm_TokensUsed m, tk_ClaimedBy = tm_ClaimedBy m, tk_ClaimedAt = tm_ClaimedAt m,
      tk_RetryCount = tm_RetryCount m, tk_MaxRetries = tm_MaxRetries m, tk_OriginalTaskID = tm_OriginalTaskID m,
      tk_Metadata = unmarshal_object (tm_Metadata m)\<rparr>"

definition toAgentMessageModel :: "AgentMessage \<Rightarrow> AgentMessageModel" where
  "toAgentMessageModel msg =
     \<lparr>am_ID = msg_ID msg, am_WorkflowID = msg_WorkflowID msg, am_OrgID = msg_WorkflowID msg, am_FromTaskID = msg_FromTaskID msg,
      am_ToTaskID = msg_ToTaskID msg, am_FromRole = msg_FromRole msg, am_ToRole = msg_ToRole msg,
      am_MessageType = msg_MessageType msg, am_Content = msg_Content msg, am_Artifacts = JArtifacts (msg_Artifacts msg),
      am_CorrelationID = msg_CorrelationID msg, am_CreatedAt = msg_CreatedAt msg\<rparr>"

definition toAgentMessageDomain :: "AgentMessageModel \<Rightarrow> AgentMessage" where
  "toAgentMessageDomain m =
     \<lparr>msg_ID = am_ID m, msg_WorkflowID = am_WorkflowID m, msg_FromTaskID = am_FromTaskID m, msg_ToTaskID = am_ToTaskID m,
      msg_FromRole = am_FromRole m, msg_ToRole = am_ToRole m, msg_MessageType = am_MessageType m, msg_Content = am_Content m,
      msg_Artifacts = unmarshal_artifacts (am_Artifacts m), msg_CorrelationID = am_CorrelationID m, msg_CreatedAt = am_CreatedAt m\<rparr>"

section \<open>Tables and operations\<close>

record WorkflowDB =
  db_workflows :: "WorkflowModel list"
  db_tasks :: "TaskModel list"
  db_messages :: "AgentMessageModel list"

text \<open>Column defaults of an insert: \<^verbatim>\<open>max_depth\<close> 5, \<^verbatim>\<open>max_tasks\<close> 50, \<^verbatim>\<open>mode\<close> sequential.\<close>

definition workflow_defaults :: "WorkflowModel \<Rightarrow> WorkflowModel" where
  "workflow_defaults m =
     m\<lparr>wm_MaxDepth := (if wm_MaxDepth m = 0 then 5 else wm_MaxDepth m),
       wm_MaxTasks := (if wm_MaxTasks m = 0 then 50 else wm_MaxTasks m)\<rparr>"

definition task_defaults :: "TaskModel \<Rightarrow> TaskModel" where
  "task_defaults m = m\<lparr>tm_Mode := (if tm_Mode m = [] then ''sequential'' else tm_Mode m)\<rparr>"

definition PG_CreateWorkflow :: "WorkflowDB \<Rightarrow> Workflow \<Rightarrow> store_error option \<times> WorkflowDB" where
  "PG_CreateWorkflow db w =
     (if wf_ID w \<in> wm_ID ` set (db_workflows db) then (Some (WorkflowExists (wf_ID w)), db)
      else (None, db\<lparr>db_workflows := db_workflows db @ [workflow_defaults (toWorkflowModel w)]\<rparr>))"

definition PG_UpdateWorkflow :: "time \<Rightarrow> WorkflowDB \<Rightarrow> Workflow \<Rightarrow> store_error option \<times> WorkflowDB" where
  "PG_UpdateWorkflow now db w =
     (let model = (toWorkflowModel w)\<lparr>wm_UpdatedAt := now\<rparr>
      in (None,
          if wf_ID w \<in> wm_ID ` set (db_workflows db)
          then db\<lparr>db_workflows := map (\<lambda>r. if wm_ID r = wf_ID w then model else r) (db_workflows db)\<rparr>
          else db\<lparr>db_workflows := db_workflows db @ [workflow_defaults model]\<rparr>))"

definition PG_GetWorkflow :: "WorkflowDB \<Rightarrow> uuid \<Rightarrow> store_error + Workflow" where
  "PG_GetWorkflow db i =
     (case find (\<lambda>m. wm_ID m = i) (db_workflows db) of
        None \<Rightarrow> Inl (WorkflowNotFound i)
      | Some m \<Rightarrow> Inr (toWorkflowDomain m))"

definition PG_CreateTask :: "WorkflowDB \<Rightarrow> Task \<Rightarrow> store_error option \<times> WorkflowDB" where
  "PG_CreateTask db t =
     (if tk_ID t \<in> tm_ID ` set (db_tasks db) then (Some (TaskExists (tk_ID t)), db)
      else (None, db\<lparr>db_tasks := db_tasks db @ [task_defaults (toTaskModel t)]\<rparr>))"

definition PG_UpdateTask :: "time \<Rightarrow> WorkflowDB \<Rightarrow> Task \<Rightarrow> store_error option \<times> WorkflowDB" where
  "PG_UpdateTask now db t =
     (let model = (toTaskModel t)\<lparr>tm_UpdatedAt := now\<rparr>
      in (None,
          if tk_ID t \<in> tm_ID ` set (db_tasks db)
          then db\<lparr>db_tasks := map (\<lambda>r. if tm_ID r = tk_ID t then model else r) (db_tasks db)\<rparr>
          else db\<lparr>db_tasks := db_tasks db @ [task_defaults model]\<rparr>))"

definition PG_GetTask :: "WorkflowDB \<Rightarrow> uuid \<Rightarrow> store_error + Task" where
  "PG_GetTask db i =
     (case find (\<lambda>m. tm_ID m = i) (db_tasks db) of
        None \<Rightarrow> Inl (TaskNotFound i)
      | Some m \<Rightarrow> Inr (toTaskDomain m))"

definition PG_ListTasksByWorkflow :: "WorkflowDB \<Rightarrow> uuid \<Rightarrow> Task list" where
  "PG_ListTasksByWorkflow db workflowID =
     map toTaskDomain (sort_key tm_CreatedAt (filter (\<lambda>m. tm_WorkflowID m = workflowID) (db_tasks db)))"

definition PG_GetReadyTasks :: "WorkflowDB \<Rightarrow> uuid \<Rightarrow> Task list" where
  "PG_GetReadyTasks db workflowID =
     (let tasks = map toTaskDomain (filter (\<lambda>m. tm_WorkflowID m = workflowID) (db_tasks db));
          completed = (\<lambda>i. i \<in> set (map tk_ID (filter (\<lambda>t. tk_Status t = TaskCompleted) tasks)));
          candidates = filter (\<lambda>t. tk_Status t = TaskPending \<or> tk_Status t = TaskBlocked) tasks
      in filter (\<lambda>t. all_met completed (tk_DependsOn t)) candidates)"

definition PG_SaveMessage :: "WorkflowDB \<Rightarrow> AgentMessage \<Rightarrow> bool \<times> WorkflowDB" where
  "PG_SaveMessage db msg =
     (if msg_ID msg \<in> am_ID ` set (db_messages db) then (False, db)
      else (True, db\<lparr>db_messages := db_messages db @ [toAgentMessageModel msg]\<rparr>))"

definition PG_ListMessages :: "WorkflowDB \<Rightarrow> uuid \<Rightarrow> AgentMessage list" where
  "PG_ListMessages db workflowID =
     map toAgentMessageDomain (sort_key am_CreatedAt (filter (\<lambda>m. am_WorkflowID m = workflowID) (db_messages db)))"

section \<open>Claiming\<close>

text \<open>The three statements of \<^verbatim>\<open>ClaimReadyTasks\<close>, between which other clients may act: the selection, the conditional
  update and the reading back.\<close>

definition claim_candidates :: "WorkflowDB \<Rightarrow> string list \<Rightarrow> TaskModel list" where
  "claim_candidates db roles =
     filter (\<lambda>m. (\<exists>w \<in> set (db_workflows db). wm_ID w = tm_WorkflowID m \<and> workflow_status_text (wm_Status w) = ''running'') \<and>
                 task_status_text (tm_Status m) = ''pending'' \<and> tm_ClaimedBy m = [] \<and>
                 (length roles > 0 \<longrightarrow> tm_AgentRole m \<in> set roles)) (db_tasks db)"

definition completed_rows :: "WorkflowDB \<Rightarrow> uuid \<Rightarrow> uuid \<Rightarrow> bool" where
  "completed_rows db wfID i \<longleftrightarrow>
     i \<in> set (map tm_ID (filter (\<lambda>m. tm_WorkflowID m = wfID \<and> task_status_text (tm_Status m) = ''completed'') (db_tasks db)))"

fun take_ready :: "WorkflowDB \<Rightarrow> int \<Rightarrow> uuid list \<Rightarrow> TaskModel list \<Rightarrow> uuid list" where
  "take_ready db n readyIDs [] = readyIDs"
| "take_ready db n readyIDs (m # ms) =
     (if all_met (completed_rows db (tm_WorkflowID m)) (unmarshal_uuids (tm_DependsOn m))
      then (let readyIDs = readyIDs @ [tm_ID m]
            in if int (length readyIDs) \<ge> n then readyIDs else take_ready db n readyIDs ms)
      else take_ready db n readyIDs ms)"

definition claim_select :: "WorkflowDB \<Rightarrow> string list \<Rightarrow> int \<Rightarrow> uuid list" where
  "claim_select db roles n = take_ready db n [] (claim_candidates db roles)"

definition claim_update :: "time \<Rightarrow> WorkflowDB \<Rightarrow> string \<Rightarrow> uuid list \<Rightarrow> WorkflowDB" where
  "claim_update now db agentID readyIDs =
     db\<lparr>db_tasks := map (\<lambda>m.
          if tm_ID m \<in> set readyIDs \<and> task_status_text (tm_Status m) = ''pending''
          then m\<lparr>tm_Status := TaskRunning, tm_ClaimedBy := agentID, tm_ClaimedAt := Some now, tm_UpdatedAt := now,
                 tm_StartedAt := Some now\<rparr>
          else m) (db_tasks db)\<rparr>"

definition claim_reload :: "WorkflowDB \<Rightarrow> string \<Rightarrow> uuid list \<Rightarrow> Task list" where
  "claim_reload db agentID readyIDs =
     map toTaskDomain (sort_key (\<lambda>m. (tm_Priority m, tm_CreatedAt m))
       (filter (\<lambda>m. tm_ID m \<in> set readyIDs \<and> tm_ClaimedBy m = agentID) (db_tasks db)))"

definition PG_ClaimReadyTasks :: "time \<Rightarrow> WorkflowDB \<Rightarrow> string \<Rightarrow> string list \<Rightarrow> int \<Rightarrow> Task list \<times> WorkflowDB" where
  "PG_ClaimReadyTasks now db agentID roles n =
     (let readyIDs = claim_select db roles n
      in if readyIDs = [] then ([], db)
         else let db' = claim_update now db agentID readyIDs in (claim_reload db' agentID readyIDs, db'))"

definition PG_HeartbeatTasks :: "time \<Rightarrow> WorkflowDB \<Rightarrow> string \<Rightarrow> uuid list \<Rightarrow> WorkflowDB" where
  "PG_HeartbeatTasks now db agentID taskIDs =
     (if taskIDs = [] then db
      else db\<lparr>db_tasks := map (\<lambda>m.
             if tm_ID m \<in> set taskIDs \<and> tm_ClaimedBy m = agentID then m\<lparr>tm_ClaimedAt := Some now, tm_UpdatedAt := now\<rparr> else m) (db_tasks db)\<rparr>)"

section \<open>Round trips\<close>

lemma domain_of_model [simp]:
  "toWorkflowDomain (toWorkflowModel w) = w" "toTaskDomain (toTaskModel t) = t"
  "toAgentMessageDomain (toAgentMessageModel msg) = msg"
  by (simp_all add: toWorkflowDomain_def toWorkflowModel_def toTaskDomain_def toTaskModel_def
      toAgentMessageDomain_def toAgentMessageModel_def)

lemma toTaskDomain_fields [simp]:
  "tk_ID (toTaskDomain m) = tm_ID m" "tk_WorkflowID (toTaskDomain m) = tm_WorkflowID m" "tk_Status (toTaskDomain m) = tm_Status m"
  "tk_DependsOn (toTaskDomain m) = unmarshal_uuids (tm_DependsOn m)" "tk_ClaimedBy (toTaskDomain m) = tm_ClaimedBy m"
  "tk_AgentRole (toTaskDomain m) = tm_AgentRole m"
  by (simp_all add: toTaskDomain_def)

lemma toTaskModel_ID [simp]: "tm_ID (toTaskModel t) = tk_ID t" "tm_Mode (toTaskModel t) = tk_Mode t"
  by (simp_all add: toTaskModel_def)

lemma task_defaults_ID [simp]: "tm_ID (task_defaults m) = tm_ID m"
  by (simp add: task_defaults_def)

lemma task_defaults_mode: "tm_Mode m \<noteq> [] \<Longrightarrow> task_defaults m = m"
  by (simp add: task_defaults_def)

lemma domain_stamped: "toTaskDomain ((toTaskModel t)\<lparr>tm_UpdatedAt := now\<rparr>) = t\<lparr>tk_UpdatedAt := now\<rparr>"
  by (simp add: toTaskDomain_def toTaskModel_def)

definition pg_task_map :: "WorkflowDB \<Rightarrow> uuid \<Rightarrow> Task option" where
  "pg_task_map db i = map_option toTaskDomain (find (\<lambda>m. tm_ID m = i) (db_tasks db))"

lemma find_append: "find P (xs @ ys) = (case find P xs of None \<Rightarrow> find P ys | Some x \<Rightarrow> Some x)"
  by (induction xs) auto

lemma find_replace:
  "find (\<lambda>m. tm_ID m = i) (map (\<lambda>r. if tm_ID r = tm_ID model then model else r) ms) =
     (if i = tm_ID model \<and> i \<in> tm_ID ` set ms then Some model else find (\<lambda>m. tm_ID m = i) ms)"
  by (induction ms) auto

lemma pg_task_map_None: "pg_task_map db i = None \<longleftrightarrow> i \<notin> tm_ID ` set (db_tasks db)"
  by (auto simp: pg_task_map_def find_None_iff)

lemma pg_task_map_create:
  assumes "pg_task_map db (tk_ID t) = None"
  shows "pg_task_map (snd (PG_CreateTask db t)) = (pg_task_map db)(tk_ID t \<mapsto> toTaskDomain (task_defaults (toTaskModel t)))"
proof -
  have "find (\<lambda>m. tm_ID m = tk_ID t) (db_tasks db) = None" using assms by (simp add: pg_task_map_def)
  then show ?thesis using assms
    by (auto simp: fun_eq_iff PG_CreateTask_def pg_task_map_None) (auto simp: pg_task_map_def find_append split: option.splits)
qed

lemma pg_task_map_update:
  assumes "pg_task_map db (tk_ID t) \<noteq> None"
  shows "pg_task_map (snd (PG_UpdateTask now db t)) = (pg_task_map db)(tk_ID t \<mapsto> t\<lparr>tk_UpdatedAt := now\<rparr>)"
proof -
  have "tk_ID t \<in> tm_ID ` set (db_tasks db)" using assms by (simp add: pg_task_map_None)
  then show ?thesis using find_replace[of _ "(toTaskModel t)\<lparr>tm_UpdatedAt := now\<rparr>" "db_tasks db"]
    by (auto simp: fun_eq_iff PG_UpdateTask_def Let_def pg_task_map_def domain_stamped)
qed

interpretation pg_tasks: task_table PG_CreateTask PG_UpdateTask PG_GetTask pg_task_map
proof unfold_locales
  fix s :: WorkflowDB and t now i
  show "fst (PG_CreateTask s t) = None \<and> pg_task_map (snd (PG_CreateTask s t)) = (pg_task_map s)(tk_ID t \<mapsto> t)"
    if "pg_task_map s (tk_ID t) = None" "tk_Mode t \<noteq> []"
    using that(2) pg_task_map_create[OF that(1)] that(1) by (simp add: task_defaults_mode PG_CreateTask_def pg_task_map_None)
  show "fst (PG_CreateTask s t) \<noteq> None \<and> pg_task_map (snd (PG_CreateTask s t)) = pg_task_map s"
    if "pg_task_map s (tk_ID t) \<noteq> None" using that by (simp add: PG_CreateTask_def pg_task_map_None)
  show "fst (PG_UpdateTask now s t) = None \<and>
      pg_task_map (snd (PG_UpdateTask now s t)) = (pg_task_map s)(tk_ID t \<mapsto> t\<lparr>tk_UpdatedAt := now\<rparr>)"
    if "pg_task_map s (tk_ID t) \<noteq> None" using pg_task_map_update[OF that] by (simp add: PG_UpdateTask_def Let_def)
  show "PG_GetTask s i = (case pg_task_map s i of None \<Rightarrow> Inl (TaskNotFound i) | Some t \<Rightarrow> Inr t)"
    by (simp add: PG_GetTask_def pg_task_map_def split: option.split)
qed


definition demo_row :: "uuid \<Rightarrow> string \<Rightarrow> TaskStatus \<Rightarrow> uuid list \<Rightarrow> Task" where
  "demo_row i role st deps =
     \<lparr>tk_ID = i, tk_WorkflowID = 9, tk_OrgID = 0, tk_ParentTaskID = None, tk_AgentRole = role, tk_Description = ''d'',
      tk_Input = [], tk_Output = [], tk_Status = st, tk_Mode = TaskModeSequential, tk_Depth = 1, tk_Priority = 0,
      tk_DependsOn = deps, tk_CreatedAt = 0, tk_UpdatedAt = 0, tk_StartedAt = None, tk_CompletedAt = None, tk_Error = [],
      tk_CostUSD = 0, tk_TokensUsed = 0, tk_ClaimedBy = [], tk_ClaimedAt = None, tk_RetryCount = 0, tk_MaxRetries = 0,
      tk_OriginalTaskID = None, tk_Metadata = Some [(''k'', ABool True)]\<rparr>"

definition empty_db :: WorkflowDB where
  "empty_db = \<lparr>db_workflows = [], db_tasks = [], db_messages = []\<rparr>"


section \<open>The two stores agree on readiness\<close>

definition unique_rows :: "WorkflowDB \<Rightarrow> bool" where
  "unique_rows db \<longleftrightarrow> distinct (map tm_ID (db_tasks db))"

lemma find_row:
  assumes "unique_rows db" "m \<in> set (db_tasks db)"
  shows "find (\<lambda>r. tm_ID r = tm_ID m) (db_tasks db) = Some m"
proof -
  obtain r where r: "find (\<lambda>r. tm_ID r = tm_ID m) (db_tasks db) = Some r"
    using assms(2) by (cases "find (\<lambda>r. tm_ID r = tm_ID m) (db_tasks db)") (auto simp: find_None_iff)
  then have "r \<in> set (db_tasks db)" "tm_ID r = tm_ID m" by (auto simp: find_Some_iff)
  then have "r = m" using assms by (auto simp: unique_rows_def distinct_map dest: inj_onD)
  then show ?thesis using r by simp
qed

lemma pg_task_map_iff:
  assumes "unique_rows db"
  shows "pg_task_map db i = Some t \<longleftrightarrow> (\<exists>m \<in> set (db_tasks db). tm_ID m = i \<and> toTaskDomain m = t)"
proof
  assume "pg_task_map db i = Some t"
  then show "\<exists>m \<in> set (db_tasks db). tm_ID m = i \<and> toTaskDomain m = t" by (auto simp: pg_task_map_def find_Some_iff)
next
  assume "\<exists>m \<in> set (db_tasks db). tm_ID m = i \<and> toTaskDomain m = t"
  then show "pg_task_map db i = Some t" using find_row[OF assms] by (auto simp: pg_task_map_def)
qed

lemma set_PG_GetReadyTasks:
  assumes "unique_rows db"
  shows "t \<in> set (PG_GetReadyTasks db w) \<longleftrightarrow> pg_task_map db (tk_ID t) = Some t \<and> tk_WorkflowID t = w \<and>
     tk_Status t \<in> {TaskPending, TaskBlocked} \<and>
     (\<forall>d \<in> set (tk_DependsOn t). \<exists>u. pg_task_map db d = Some u \<and> tk_WorkflowID u = w \<and> tk_Status u = TaskCompleted)"
proof -
  let ?tasks = "map toTaskDomain (filter (\<lambda>m. tm_WorkflowID m = w) (db_tasks db))"
  have fin: "i \<in> set (map tk_ID (filter (\<lambda>t. tk_Status t = TaskCompleted) ?tasks)) \<longleftrightarrow>
      (\<exists>u. pg_task_map db i = Some u \<and> tk_WorkflowID u = w \<and> tk_Status u = TaskCompleted)" for i
  proof -
    have "i \<in> set (map tk_ID (filter (\<lambda>t. tk_Status t = TaskCompleted) ?tasks)) \<longleftrightarrow>
        (\<exists>m \<in> set (db_tasks db). tm_ID m = i \<and> tm_WorkflowID m = w \<and> tm_Status m = TaskCompleted)"
      by (induction "db_tasks db") (auto simp: filter_map comp_def)
    then show ?thesis unfolding pg_task_map_iff[OF assms] by fastforce
  qed
  have mem: "t \<in> set ?tasks \<longleftrightarrow> pg_task_map db (tk_ID t) = Some t \<and> tk_WorkflowID t = w"
    by (auto simp: pg_task_map_iff[OF assms])
  show ?thesis unfolding PG_GetReadyTasks_def Let_def set_filter mem_Collect_eq mem fin by auto
qed

lemma distinct_PG_GetReadyTasks:
  assumes "unique_rows db" shows "distinct (map tk_ID (PG_GetReadyTasks db w))"
  using assms by (auto simp: PG_GetReadyTasks_def Let_def unique_rows_def comp_def distinct_map_filter)

text \<open>(C27) The database and the in-memory store agree: filled with the same tasks, \<^verbatim>\<open>GetReadyTasks\<close> returns the
  same tasks from either, each once.\<close>

theorem ready_tasks_agree:
  assumes "store_ok s" "unique_rows db" "task_map s = pg_task_map db"
  shows "mset (PG_GetReadyTasks db w) = mset (GetReadyTasks s w)"
proof -
  have "set (PG_GetReadyTasks db w) = set (GetReadyTasks s w)"
    using assms(3) by (auto simp: set_PG_GetReadyTasks[OF assms(2)] set_GetReadyTasks[OF assms(1)] completed_in_iff[OF assms(1)])
  moreover have "distinct (PG_GetReadyTasks db w)" "distinct (GetReadyTasks s w)"
    using distinct_PG_GetReadyTasks[OF assms(2)] distinct_GetReadyTasks[OF assms(1)] by (simp_all add: distinct_map)
  ultimately show ?thesis by (simp add: set_eq_iff_mset_eq_distinct)
qed

definition demo_db :: WorkflowDB where
  "demo_db = snd (PG_CreateTask (snd (PG_CreateTask empty_db (demo_row 1 RoleExecutor TaskCompleted [])))
                   (demo_row 2 RoleExecutor TaskPending [1]))"

definition demo_store :: InMemoryStore where
  "demo_store = snd (CreateTask (snd (CreateTask NewInMemoryStore (demo_row 1 RoleExecutor TaskCompleted [])))
                   (demo_row 2 RoleExecutor TaskPending [1]))"

lemma demo_same: "store_ok demo_store" "unique_rows demo_db" "task_map demo_store = pg_task_map demo_db"
proof -
  show "store_ok demo_store" unfolding demo_store_def by (intro CreateTask_ok) (simp add: NewInMemoryStore_def store_ok_def)
  show "unique_rows demo_db"
    by (simp add: demo_db_def empty_db_def PG_CreateTask_def unique_rows_def demo_row_def)
  have "pg_task_map empty_db = Map.empty" by (auto simp: pg_task_map_def empty_db_def)
  then have "pg_task_map demo_db = [1 \<mapsto> demo_row 1 RoleExecutor TaskCompleted [], 2 \<mapsto> demo_row 2 RoleExecutor TaskPending [1]]"
    by (simp add: demo_db_def pg_tasks.create_mode demo_row_def fun_upd_twist)
  moreover have "task_map NewInMemoryStore = Map.empty" by (auto simp: task_map_def NewInMemoryStore_def)
  then have "task_map demo_store = [1 \<mapsto> demo_row 1 RoleExecutor TaskCompleted [], 2 \<mapsto> demo_row 2 RoleExecutor TaskPending [1]]"
    by (simp add: demo_store_def mem_tasks.create_new demo_row_def fun_upd_twist)
  ultimately show "task_map demo_store = pg_task_map demo_db" by simp
qed

theorem ready_tasks_agree_witness:
  "mset (PG_GetReadyTasks demo_db 9) = mset (GetReadyTasks demo_store 9) \<and>
   map tk_ID (PG_GetReadyTasks demo_db 9) = [2]"
proof
  show "mset (PG_GetReadyTasks demo_db 9) = mset (GetReadyTasks demo_store 9)" by (rule ready_tasks_agree[OF demo_same])
  show "map tk_ID (PG_GetReadyTasks demo_db 9) = [2]" by code_simp
qed

text \<open>They disagree on the order: the database ignores the priority.\<close>

theorem ready_order_ignores_priority:
  "let urgent = (demo_row 2 RoleExecutor TaskPending [])\<lparr>tk_Priority := 0\<rparr>;
       later = (demo_row 1 RoleExecutor TaskPending [])\<lparr>tk_Priority := 5\<rparr>
   in map tk_ID (PG_GetReadyTasks (snd (PG_CreateTask (snd (PG_CreateTask empty_db later)) urgent)) 9) = [1, 2] \<and>
      map tk_ID (GetReadyTasks (snd (CreateTask (snd (CreateTask NewInMemoryStore later)) urgent)) 9) = [2, 1]"
  by code_simp

text \<open>They disagree on an unknown task: the database inserts it, the in-memory store refuses it.\<close>

theorem update_of_unknown_task_inserts:
  "fst (PG_UpdateTask now empty_db t) = None \<and> pg_task_map (snd (PG_UpdateTask now empty_db t)) (tk_ID t) \<noteq> None \<and>
   fst (UpdateTask now NewInMemoryStore t) \<noteq> None"
  by (simp add: PG_UpdateTask_def UpdateTask_def NewInMemoryStore_def pg_task_map_None Let_def empty_db_def)

text \<open>The organisation column of a message holds the identifier of its workflow.\<close>

theorem message_org_is_workflow: "am_OrgID (toAgentMessageModel msg) = msg_WorkflowID msg"
  by (simp add: toAgentMessageModel_def)

text \<open>A claimed task is never selected again, whatever the age of its claim: the heartbeats refresh a time nobody reads.\<close>

theorem stale_claim_never_reclaimed:
  assumes "m \<in> set (claim_candidates db roles)"
  shows "tm_ClaimedBy m = [] \<and> m\<lparr>tm_ClaimedAt := any_time\<rparr> \<in> set (claim_candidates (db\<lparr>db_tasks := map (\<lambda>r. r\<lparr>tm_ClaimedAt := any_time\<rparr>) (db_tasks db)\<rparr>) roles)"
  using assms by (auto simp: claim_candidates_def)

section \<open>Claims exclude each other\<close>

text \<open>
  Agents that poll the same database. An agent polls in three steps, between which the others act; it works on
  the tasks it was given until it stores their outcome; a task that does not run may be settled by the scheduler,
  a failed one set to pending without a claim; planners add tasks.
\<close>

datatype poll = Idle | Selected "uuid list" | Updated "uuid list"

record claims =
  cl_db :: WorkflowDB
  cl_poll :: "string \<Rightarrow> poll"
  cl_held :: "(string \<times> uuid) set"

inductive claim_step :: "claims \<Rightarrow> claims \<Rightarrow> bool" where
  select: "a \<noteq> [] \<Longrightarrow> cl_poll c a = Idle \<Longrightarrow>
    claim_step c (c\<lparr>cl_poll := (cl_poll c)(a := Selected (claim_select (cl_db c) roles n))\<rparr>)"
| update: "cl_poll c a = Selected ids \<Longrightarrow>
    claim_step c (c\<lparr>cl_db := claim_update now (cl_db c) a ids, cl_poll := (cl_poll c)(a := Updated ids)\<rparr>)"
| reload: "cl_poll c a = Updated ids \<Longrightarrow>
    claim_step c (c\<lparr>cl_poll := (cl_poll c)(a := Idle), cl_held := cl_held c \<union> (\<lambda>t. (a, tk_ID t)) ` set (claim_reload (cl_db c) a ids)\<rparr>)"
| work: "(a, tk_ID t) \<in> cl_held c \<Longrightarrow> tk_ClaimedBy t = a \<Longrightarrow> tk_Status t = TaskRunning \<Longrightarrow>
    claim_step c (c\<lparr>cl_db := snd (PG_UpdateTask now (cl_db c) t)\<rparr>)"
| store: "(a, tk_ID t) \<in> cl_held c \<Longrightarrow> tk_ClaimedBy t = a \<Longrightarrow> tk_Status t \<in> {TaskCompleted, TaskFailed} \<Longrightarrow>
    claim_step c (c\<lparr>cl_db := snd (PG_UpdateTask now (cl_db c) t), cl_held := cl_held c - {(a, tk_ID t)}\<rparr>)"
| settle: "m \<in> set (db_tasks (cl_db c)) \<Longrightarrow> tm_Status m \<noteq> TaskRunning \<Longrightarrow> tk_ID t = tm_ID m \<Longrightarrow> tk_ClaimedBy t \<in> {[], tm_ClaimedBy m} \<Longrightarrow>
    claim_step c (c\<lparr>cl_db := snd (PG_UpdateTask now (cl_db c) t)\<rparr>)"
| create: "tk_ClaimedBy t = [] \<Longrightarrow> claim_step c (c\<lparr>cl_db := snd (PG_CreateTask (cl_db c) t)\<rparr>)"
| beat: "claim_step c (c\<lparr>cl_db := PG_HeartbeatTasks now (cl_db c) a ids\<rparr>)"
| flow: "claim_step c (c\<lparr>cl_db := (cl_db c)\<lparr>db_workflows := ws\<rparr>\<rparr>)"

text \<open>Of a row, only the claim and the status matter.\<close>

definition claim_view :: "WorkflowDB \<Rightarrow> uuid \<Rightarrow> (string \<times> TaskStatus) option" where
  "claim_view db i = map_option (\<lambda>t. (tk_ClaimedBy t, tk_Status t)) (pg_task_map db i)"

definition consistent :: "WorkflowDB \<Rightarrow> (string \<Rightarrow> poll) \<Rightarrow> (string \<times> uuid) set \<Rightarrow> bool" where
  "consistent db polls held \<longleftrightarrow>
     unique_rows db \<and> polls [] = Idle \<and>
     (\<forall>a i. (a, i) \<in> held \<longrightarrow> claim_view db i = Some (a, TaskRunning)) \<and>
     (\<forall>a ids i st. polls a = Selected ids \<and> i \<in> set ids \<longrightarrow> claim_view db i \<noteq> Some (a, st)) \<and>
     (\<forall>a ids i st. polls a = Updated ids \<and> i \<in> set ids \<and> claim_view db i = Some (a, st) \<longrightarrow> st = TaskRunning \<and> (a, i) \<notin> held)"

abbreviation claims_ok :: "claims \<Rightarrow> bool" where
  "claims_ok c \<equiv> consistent (cl_db c) (cl_poll c) (cl_held c)"

lemma claims_okD:
  assumes "claims_ok c"
  shows "unique_rows (cl_db c)" "cl_poll c [] = Idle"
    "(a, i) \<in> cl_held c \<Longrightarrow> claim_view (cl_db c) i = Some (a, TaskRunning)"
    "cl_poll c a = Selected ids \<Longrightarrow> i \<in> set ids \<Longrightarrow> claim_view (cl_db c) i \<noteq> Some (a, st)"
    "cl_poll c a = Updated ids \<Longrightarrow> i \<in> set ids \<Longrightarrow> claim_view (cl_db c) i = Some (a, st) \<Longrightarrow> st = TaskRunning \<and> (a, i) \<notin> cl_held c"
  using assms unfolding consistent_def by blast+

lemma text_pending [simp]: "task_status_text st = ''pending'' \<longleftrightarrow> st = TaskPending"
  by (cases st) auto

lemma claim_view_row:
  assumes "unique_rows db" "m \<in> set (db_tasks db)"
  shows "claim_view db (tm_ID m) = Some (tm_ClaimedBy m, tm_Status m)"
  using find_row[OF assms] by (simp add: claim_view_def pg_task_map_def)

lemma find_map_same:
  assumes "\<And>m. tm_ID (g m) = tm_ID m"
  shows "find (\<lambda>m. tm_ID m = i) (map g ms) = map_option g (find (\<lambda>m. tm_ID m = i) ms)"
  by (induction ms) (auto simp: assms)

lemma map_same:
  assumes "\<And>m. tm_ID (g m) = tm_ID m"
  shows "claim_view (db\<lparr>db_tasks := map g (db_tasks db)\<rparr>) i =
      map_option (\<lambda>m. (tm_ClaimedBy (g m), tm_Status (g m))) (find (\<lambda>m. tm_ID m = i) (db_tasks db))"
    and "unique_rows (db\<lparr>db_tasks := map g (db_tasks db)\<rparr>) = unique_rows db"
  by (simp_all add: claim_view_def pg_task_map_def find_map_same[OF assms] option.map_comp comp_def assms unique_rows_def)

lemma view_claim_update:
  "claim_view (claim_update now db a ids) i =
     (if i \<in> set ids \<and> (\<exists>b. claim_view db i = Some (b, TaskPending)) then Some (a, TaskRunning) else claim_view db i)"
proof -
  let ?g = "\<lambda>m. if tm_ID m \<in> set ids \<and> task_status_text (tm_Status m) = ''pending''
    then m\<lparr>tm_Status := TaskRunning, tm_ClaimedBy := a, tm_ClaimedAt := Some now, tm_UpdatedAt := now, tm_StartedAt := Some now\<rparr> else m"
  have "tm_ID (?g m) = tm_ID m" for m by simp
  note step = map_same(1)[OF this, where db = db and i = i]
  show ?thesis
  proof (cases "find (\<lambda>m. tm_ID m = i) (db_tasks db)")
    case None
    then show ?thesis unfolding claim_update_def step by (simp add: claim_view_def pg_task_map_def)
  next
    case (Some m)
    then have "tm_ID m = i" by (auto simp: find_Some_iff)
    then show ?thesis unfolding claim_update_def step using Some by (simp add: claim_view_def pg_task_map_def)
  qed
qed

lemma unique_claim_update: "unique_rows (claim_update now db a ids) = unique_rows db"
  unfolding claim_update_def by (rule map_same(2)) simp

lemma view_update:
  assumes "claim_view db (tk_ID t) \<noteq> None"
  shows "claim_view (snd (PG_UpdateTask now db t)) = (claim_view db)(tk_ID t \<mapsto> (tk_ClaimedBy t, tk_Status t))"
  using pg_task_map_update[of db t now] assms by (auto simp: claim_view_def fun_eq_iff)

lemma unique_update:
  assumes "claim_view db (tk_ID t) \<noteq> None"
  shows "unique_rows (snd (PG_UpdateTask now db t)) = unique_rows db"
proof -
  have "tk_ID t \<in> tm_ID ` set (db_tasks db)" using assms pg_task_map_None[of db "tk_ID t"] by (auto simp: claim_view_def)
  then have "snd (PG_UpdateTask now db t) =
    db\<lparr>db_tasks := map (\<lambda>r. if tm_ID r = tk_ID t then (toTaskModel t)\<lparr>tm_UpdatedAt := now\<rparr> else r) (db_tasks db)\<rparr>"
    by (simp add: PG_UpdateTask_def Let_def)
  then show ?thesis using map_same(2)[of "\<lambda>r. if tm_ID r = tk_ID t then (toTaskModel t)\<lparr>tm_UpdatedAt := now\<rparr> else r" db] by simp
qed

lemma view_create:
  "claim_view (snd (PG_CreateTask db t)) =
     (if claim_view db (tk_ID t) = None then (claim_view db)(tk_ID t \<mapsto> (tk_ClaimedBy t, tk_Status t)) else claim_view db)"
proof (cases "pg_task_map db (tk_ID t)")
  case None
  have "tk_ClaimedBy (toTaskDomain (task_defaults (toTaskModel t))) = tk_ClaimedBy t"
    "tk_Status (toTaskDomain (task_defaults (toTaskModel t))) = tk_Status t"
    by (simp_all add: task_defaults_def toTaskModel_def)
  then show ?thesis using None pg_task_map_create[OF None] by (auto simp: claim_view_def fun_eq_iff)
next
  case (Some u)
  then have "snd (PG_CreateTask db t) = db" using pg_task_map_None[of db "tk_ID t"] by (simp add: PG_CreateTask_def)
  then show ?thesis using Some by (simp add: claim_view_def)
qed

lemma unique_create: "unique_rows db \<Longrightarrow> unique_rows (snd (PG_CreateTask db t))"
  by (auto simp: PG_CreateTask_def unique_rows_def)

lemma heartbeat_same:
  "claim_view (PG_HeartbeatTasks now db a ids) = claim_view db" "unique_rows (PG_HeartbeatTasks now db a ids) = unique_rows db"
proof -
  let ?g = "\<lambda>m. if tm_ID m \<in> set ids \<and> tm_ClaimedBy m = a then m\<lparr>tm_ClaimedAt := Some now, tm_UpdatedAt := now\<rparr> else m"
  have g: "tm_ID (?g m) = tm_ID m" "tm_ClaimedBy (?g m) = tm_ClaimedBy m" "tm_Status (?g m) = tm_Status m" for m by simp_all
  show "claim_view (PG_HeartbeatTasks now db a ids) = claim_view db"
    using map_same(1)[of ?g db, OF g(1)] unfolding g by (auto simp: PG_HeartbeatTasks_def fun_eq_iff claim_view_def pg_task_map_def option.map_comp comp_def)
  show "unique_rows (PG_HeartbeatTasks now db a ids) = unique_rows db"
    using map_same(2)[of ?g db, OF g(1)] by (simp add: PG_HeartbeatTasks_def)
qed

lemma flow_same [simp]:
  "claim_view (db\<lparr>db_workflows := ws\<rparr>) = claim_view db" "unique_rows (db\<lparr>db_workflows := ws\<rparr>) = unique_rows db"
  by (auto simp: claim_view_def pg_task_map_def unique_rows_def)

lemma take_ready_subset: "set (take_ready db n ids ms) \<subseteq> set ids \<union> tm_ID ` set ms"
proof (induction ms arbitrary: ids)
  case (Cons m ms)
  show ?case using Cons[of ids] Cons[of "ids @ [tm_ID m]"] by (auto simp: Let_def)
qed simp

lemma selected_unclaimed:
  assumes "unique_rows db" "i \<in> set (claim_select db roles n)"
  shows "claim_view db i = Some ([], TaskPending)"
proof -
  obtain m where "m \<in> set (claim_candidates db roles)" "tm_ID m = i"
    using take_ready_subset[of db n "[]" "claim_candidates db roles"] assms(2) by (auto simp: claim_select_def)
  then show ?thesis using claim_view_row[OF assms(1), of m] by (auto simp: claim_candidates_def)
qed

lemma reloaded_view:
  assumes "unique_rows db" "t \<in> set (claim_reload db a ids)"
  shows "tk_ID t \<in> set ids \<and> (\<exists>st. claim_view db (tk_ID t) = Some (a, st))"
  using assms(2) claim_view_row[OF assms(1)] by (auto simp: claim_reload_def)

lemma claims_ok_change:
  assumes "claims_ok c" "unique_rows db'" "claim_view db' = (claim_view (cl_db c))(i \<mapsto> (b, st))"
    and "held' \<subseteq> cl_held c" "\<And>a. (a, i) \<notin> held'"
    and "\<And>ids. cl_poll c b = Selected ids \<or> cl_poll c b = Updated ids \<Longrightarrow> i \<notin> set ids"
  shows "claims_ok (c\<lparr>cl_db := db', cl_held := held'\<rparr>)"
proof -
  have "claim_view db' j = Some (a, TaskRunning)" if "(a, j) \<in> held'" for a j
    using that assms(4,5) claims_okD(3)[OF assms(1)] by (metis assms(3) fun_upd_other subsetD)
  moreover have "claim_view db' j \<noteq> Some (a, st')" if "cl_poll c a = Selected ids" "j \<in> set ids" for a j ids st'
    using that assms(6) claims_okD(4)[OF assms(1) that] by (auto simp: assms(3))
  moreover have "st' = TaskRunning \<and> (a, j) \<notin> held'"
    if "cl_poll c a = Updated ids" "j \<in> set ids" "claim_view db' j = Some (a, st')" for a j ids st'
  proof -
    have "j \<noteq> i" using that assms(6) by (auto simp: assms(3))
    then show ?thesis using that(3) claims_okD(5)[OF assms(1) that(1,2), of st'] assms(4) by (auto simp: assms(3))
  qed
  ultimately show ?thesis using assms(2) claims_okD(2)[OF assms(1)]
    unfolding consistent_def by simp blast
qed

lemma consistent_same:
  "claim_view db' = claim_view db \<Longrightarrow> unique_rows db' = unique_rows db \<Longrightarrow> consistent db' polls held = consistent db polls held"
  by (simp only: consistent_def)

lemma claim_step_ok:
  assumes "claim_step c c'" "claims_ok c"
  shows "claims_ok c'"
  using assms
proof (induction rule: claim_step.induct)
  case (select a c roles n)
  have "claim_view (cl_db c) i = Some ([], TaskPending)" if "i \<in> set (claim_select (cl_db c) roles n)" for i
    using selected_unclaimed that select.prems by (simp add: consistent_def)
  then show ?case using select by (auto simp: consistent_def)
next
  case (update c a ids now)
  have free: "claim_view (cl_db c) i \<noteq> Some (a, st)" if "i \<in> set ids" for i st using update that by (auto simp: consistent_def)
  have unheld: "(a, i) \<notin> cl_held c" if "i \<in> set ids" for i using free[OF that] claims_okD(3)[OF update.prems] by blast
  have a: "a \<noteq> []" using claims_okD(2)[OF update.prems] update.hyps by auto
  note v = view_claim_update[of now "cl_db c" a ids]
  show ?case unfolding consistent_def
  proof (intro conjI allI impI)
    show "unique_rows (cl_db (c\<lparr>cl_db := claim_update now (cl_db c) a ids, cl_poll := (cl_poll c)(a := Updated ids)\<rparr>))"
      using claims_okD(1)[OF update.prems] by (simp add: unique_claim_update)
  qed (use a claims_okD(2)[OF update.prems] claims_okD(3)[OF update.prems] claims_okD(4)[OF update.prems]
       claims_okD(5)[OF update.prems] free unheld in \<open>auto simp: v split: if_splits\<close>)
next
  case (reload c a ids)
  have "tk_ID t \<in> set ids \<and> claim_view (cl_db c) (tk_ID t) = Some (a, TaskRunning)" if "t \<in> set (claim_reload (cl_db c) a ids)" for t
    using reloaded_view[OF _ that] reload by (auto simp: consistent_def)
  then show ?case using reload by (auto simp: consistent_def)
next
  case (work a t c now)
  then have v: "claim_view (cl_db c) (tk_ID t) = Some (a, TaskRunning)" using claims_okD(3) by blast
  then have "claim_view (snd (PG_UpdateTask now (cl_db c) t)) = claim_view (cl_db c)"
    using work.hyps by (simp add: view_update fun_upd_idem)
  then have "consistent (snd (PG_UpdateTask now (cl_db c) t)) (cl_poll c) (cl_held c) = claims_ok c"
    using unique_update[of "cl_db c" t now] v by (intro consistent_same) simp_all
  then show ?case using work.prems by simp
next
  case (store a t c now)
  then have v: "claim_view (cl_db c) (tk_ID t) = Some (a, TaskRunning)" using claims_okD(3) by blast
  show ?case
  proof (rule claims_ok_change[OF store.prems, where i = "tk_ID t" and b = a and st = "tk_Status t"])
    show "(b, tk_ID t) \<notin> cl_held c - {(a, tk_ID t)}" for b using claims_okD(3)[OF store.prems, of b] v by auto
    show "tk_ID t \<notin> set ids" if "cl_poll c a = Selected ids \<or> cl_poll c a = Updated ids" for ids
      using that claims_okD(4,5)[OF store.prems, of a ids "tk_ID t"] v store.hyps(1) by blast
  qed (use v store.hyps claims_okD(1)[OF store.prems] in \<open>auto simp: view_update unique_update\<close>)
next
  case (settle m c t now)
  have v: "claim_view (cl_db c) (tk_ID t) = Some (tm_ClaimedBy m, tm_Status m)"
    using claim_view_row[OF claims_okD(1)[OF settle.prems] settle.hyps(1)] settle.hyps(3) by simp
  have "claims_ok (c\<lparr>cl_db := snd (PG_UpdateTask now (cl_db c) t), cl_held := cl_held c\<rparr>)"
  proof (rule claims_ok_change[OF settle.prems, where i = "tk_ID t" and b = "tk_ClaimedBy t" and st = "tk_Status t"])
    show "(b, tk_ID t) \<notin> cl_held c" for b using claims_okD(3)[OF settle.prems, of b] v settle.hyps(2) by auto
    show "tk_ID t \<notin> set ids" if "cl_poll c (tk_ClaimedBy t) = Selected ids \<or> cl_poll c (tk_ClaimedBy t) = Updated ids" for ids
      using that claims_okD(2)[OF settle.prems] claims_okD(4,5)[OF settle.prems, of "tm_ClaimedBy m" ids "tk_ID t" "tm_Status m"] v settle.hyps(2,4) by auto
  qed (use v claims_okD(1)[OF settle.prems] in \<open>auto simp: view_update unique_update\<close>)
  then show ?case by simp
next
  case (create t c)
  show ?case
  proof (cases "claim_view (cl_db c) (tk_ID t)")
    case None
    have "claims_ok (c\<lparr>cl_db := snd (PG_CreateTask (cl_db c) t), cl_held := cl_held c\<rparr>)"
    proof (rule claims_ok_change[OF create.prems, where i = "tk_ID t" and b = "[]" and st = "tk_Status t"])
      show "(b, tk_ID t) \<notin> cl_held c" for b using claims_okD(3)[OF create.prems, of b] None by auto
    qed (use None claims_okD(1,2)[OF create.prems] create.hyps in \<open>auto simp: view_create unique_create\<close>)
    then show ?thesis by simp
  next
    case (Some v)
    then have "snd (PG_CreateTask (cl_db c) t) = cl_db c"
      using pg_task_map_None[of "cl_db c" "tk_ID t"] by (auto simp: PG_CreateTask_def claim_view_def)
    then show ?thesis using create.prems by simp
  qed
qed (simp_all add: consistent_same[OF heartbeat_same] consistent_same[OF flow_same])

text \<open>(C6) Claims exclude each other: however the statements of polling agents interleave, with each other, with the
  scheduler settling tasks that do not run and with planners adding tasks, no task is worked on by two agents at
  the same time, and a task an agent works on is marked as running and claimed by it.\<close>

theorem claims_exclusive:
  assumes "claim_step\<^sup>*\<^sup>* \<lparr>cl_db = db, cl_poll = (\<lambda>a. Idle), cl_held = {}\<rparr> c" "unique_rows db" "(a, i) \<in> cl_held c"
  shows "(\<forall>b. (b, i) \<in> cl_held c \<longrightarrow> b = a) \<and> (\<exists>t. PG_GetTask (cl_db c) i = Inr t \<and> tk_ClaimedBy t = a \<and> tk_Status t = TaskRunning)"
proof -
  have "claims_ok c" using assms(1)
    by (induction rule: rtranclp_induct) (auto simp: assms(2) consistent_def[of db] dest: claim_step_ok)
  then have "claim_view (cl_db c) j = Some (b, TaskRunning)" if "(b, j) \<in> cl_held c" for b j using that by (simp add: consistent_def)
  from this[OF assms(3)] this show ?thesis by (fastforce simp: claim_view_def pg_tasks.get_filed)
qed

definition demo_flow :: WorkflowModel where
  "demo_flow = \<lparr>wm_ID = 9, wm_OrgID = 0, wm_UserID = ''u'', wm_CorrelationID = [], wm_Goal = ''g'', wm_Status = WorkflowRunning,
     wm_RootTaskID = None, wm_BudgetLimitUSD = 1, wm_BudgetSpentUSD = 0, wm_MaxDepth = 5, wm_MaxTasks = 50, wm_TaskCount = 2,
     wm_Error = [], wm_Metadata = JObject None, wm_CreatedAt = 0, wm_UpdatedAt = 0, wm_CompletedAt = None\<rparr>"

definition demo_claims :: claims where
  "demo_claims = \<lparr>cl_db = demo_db\<lparr>db_workflows := [demo_flow]\<rparr>, cl_poll = (\<lambda>a. Idle), cl_held = {}\<rparr>"

definition demo_claimed :: claims where
  "demo_claimed = (let db = claim_update 3 (cl_db demo_claims) ''a'' [2]
     in \<lparr>cl_db = db, cl_poll = ((\<lambda>a. Idle)(''a'' := Selected [2], ''a'' := Updated [2], ''a'' := Idle)),
         cl_held = {} \<union> (\<lambda>t. (''a'', tk_ID t)) ` set (claim_reload db ''a'' [2])\<rparr>)"

lemma demo_claimed_run: "claim_step\<^sup>*\<^sup>* demo_claims demo_claimed"
proof -
  have sel: "claim_select (cl_db demo_claims) [] 5 = [2]" by code_simp
  let ?c1 = "demo_claims\<lparr>cl_poll := (cl_poll demo_claims)(''a'' := Selected [2])\<rparr>"
  let ?c2 = "?c1\<lparr>cl_db := claim_update 3 (cl_db ?c1) ''a'' [2], cl_poll := (cl_poll ?c1)(''a'' := Updated [2])\<rparr>"
  have "claim_step demo_claims ?c1"
    using claim_step.select[of "''a''" demo_claims "[]" 5] unfolding sel by (simp add: demo_claims_def)
  moreover have "claim_step ?c1 ?c2" by (rule claim_step.update) simp
  moreover have "claim_step ?c2 demo_claimed"
    using claim_step.reload[of ?c2 "''a''" "[2]"] by (simp add: demo_claimed_def demo_claims_def Let_def)
  ultimately show ?thesis by (meson converse_rtranclp_into_rtranclp r_into_rtranclp)
qed

theorem claims_exclusive_witness:
  "(''a'', 2) \<in> cl_held demo_claimed \<and> (''b'', 2) \<notin> cl_held demo_claimed \<and>
   (\<exists>t. PG_GetTask (cl_db demo_claimed) 2 = Inr t \<and> tk_ClaimedBy t = ''a'' \<and> tk_Status t = TaskRunning)"
proof -
  have run: "claim_step\<^sup>*\<^sup>* \<lparr>cl_db = demo_db\<lparr>db_workflows := [demo_flow]\<rparr>, cl_poll = (\<lambda>a. Idle), cl_held = {}\<rparr> demo_claimed"
    using demo_claimed_run by (simp add: demo_claims_def)
  have rows: "unique_rows (demo_db\<lparr>db_workflows := [demo_flow]\<rparr>)" using demo_same(2) by simp
  have "map tk_ID (claim_reload (claim_update 3 (cl_db demo_claims) ''a'' [2]) ''a'' [2]) = [2]" by code_simp
  then have "2 \<in> set (map tk_ID (claim_reload (claim_update 3 (cl_db demo_claims) ''a'' [2]) ''a'' [2]))" by simp
  then have held: "(''a'', 2) \<in> cl_held demo_claimed" unfolding demo_claimed_def Let_def by force
  note excl = claims_exclusive[OF run rows held]
  have "(''b'', 2) \<notin> cl_held demo_claimed"
    using conjunct1[OF excl, THEN spec, of "''b''"] by simp
  with held conjunct2[OF excl] show ?thesis by blast
qed

section \<open>What a poll returns\<close>

lemma take_ready_deps:
  "i \<in> set (take_ready db n ids ms) \<Longrightarrow>
     i \<in> set ids \<or> (\<exists>m \<in> set ms. tm_ID m = i \<and> (\<forall>d \<in> set (unmarshal_uuids (tm_DependsOn m)). completed_rows db (tm_WorkflowID m) d))"
proof (induction ms arbitrary: ids)
  case (Cons m ms)
  then show ?case using Cons.IH[of ids] Cons.IH[of "ids @ [tm_ID m]"] by (auto simp: Let_def split: if_splits)
qed simp

lemma take_ready_length: "int (length ids) < n \<or> ids = [] \<Longrightarrow> int (length (take_ready db n ids ms)) \<le> max 1 n"
proof (induction ms arbitrary: ids)
  case (Cons m ms)
  show ?case using Cons.prems Cons.IH[of ids] Cons.IH[of "ids @ [tm_ID m]"] by (auto simp: Let_def)
qed auto

lemma claimed_length:
  assumes "unique_rows db"
  shows "length (claim_reload db a ids) \<le> length ids"
proof -
  let ?rows = "filter (\<lambda>m. tm_ID m \<in> set ids \<and> tm_ClaimedBy m = a) (db_tasks db)"
  have "distinct (map tm_ID ?rows)" using assms by (simp add: unique_rows_def distinct_map_filter)
  from distinct_card[OF this] have "length ?rows = card (tm_ID ` set ?rows)" by simp
  also have "\<dots> \<le> card (set ids)" by (rule card_mono) auto
  also have "\<dots> \<le> length ids" by (rule card_length)
  finally show ?thesis by (simp add: claim_reload_def)
qed

text \<open>A poll claims only ready work: every task \<^verbatim>\<open>ClaimReadyTasks\<close> returns was pending and unclaimed, of a wanted role,
  in a running workflow in which all its dependencies are completed; it is returned running and claimed by the
  caller, and at most the limit are (one, if the limit is not positive).\<close>

theorem claimed_tasks_ready:
  assumes "unique_rows db" "agentID \<noteq> []"
  shows "int (length (fst (PG_ClaimReadyTasks now db agentID roles n))) \<le> max 1 n \<and>
    (\<forall>t \<in> set (fst (PG_ClaimReadyTasks now db agentID roles n)).
       tk_Status t = TaskRunning \<and> tk_ClaimedBy t = agentID \<and>
       (\<exists>m \<in> set (db_tasks db). tm_ID m = tk_ID t \<and> tm_Status m = TaskPending \<and> tm_ClaimedBy m = [] \<and>
          (roles \<noteq> [] \<longrightarrow> tm_AgentRole m \<in> set roles) \<and>
          (\<exists>w \<in> set (db_workflows db). wm_ID w = tm_WorkflowID m \<and> wm_Status w = WorkflowRunning) \<and>
          (\<forall>d \<in> set (unmarshal_uuids (tm_DependsOn m)).
             \<exists>u \<in> set (db_tasks db). tm_ID u = d \<and> tm_WorkflowID u = tm_WorkflowID m \<and> tm_Status u = TaskCompleted)))"
proof -
  let ?ids = "claim_select db roles n"
  let ?db = "claim_update now db agentID ?ids"
  have texts: "workflow_status_text st = ''running'' \<longleftrightarrow> st = WorkflowRunning" "task_status_text st' = ''completed'' \<longleftrightarrow> st' = TaskCompleted" for st st'
    by (cases st, auto) (cases st', auto)+
  have u: "unique_rows ?db" using assms(1) by (simp add: unique_claim_update)
  have "int (length (claim_reload ?db agentID ?ids)) \<le> max 1 n"
    using claimed_length[OF u, of agentID ?ids] take_ready_length[of "[]" n db "claim_candidates db roles"] by (simp add: claim_select_def)
  moreover have "tk_Status t = TaskRunning \<and> tk_ClaimedBy t = agentID \<and> (\<exists>m \<in> set (db_tasks db). tm_ID m = tk_ID t \<and>
      tm_Status m = TaskPending \<and> tm_ClaimedBy m = [] \<and> (roles \<noteq> [] \<longrightarrow> tm_AgentRole m \<in> set roles) \<and>
      (\<exists>w \<in> set (db_workflows db). wm_ID w = tm_WorkflowID m \<and> wm_Status w = WorkflowRunning) \<and>
      (\<forall>d \<in> set (unmarshal_uuids (tm_DependsOn m)).
         \<exists>u \<in> set (db_tasks db). tm_ID u = d \<and> tm_WorkflowID u = tm_WorkflowID m \<and> tm_Status u = TaskCompleted))"
    if t: "t \<in> set (claim_reload ?db agentID ?ids)" for t
  proof -
    have i: "tk_ID t \<in> set ?ids" using t by (auto simp: claim_reload_def)
    obtain r where r: "r \<in> set (db_tasks ?db)" "t = toTaskDomain r" "tm_ClaimedBy r = agentID" using t by (auto simp: claim_reload_def)
    have "claim_view ?db (tk_ID t) = Some (agentID, TaskRunning)"
      using view_claim_update[of now db agentID ?ids "tk_ID t"] selected_unclaimed[OF assms(1) i] i by simp
    then have "tk_Status t = TaskRunning" using claim_view_row[OF u r(1)] r(2) by simp
    moreover obtain m where m: "m \<in> set (claim_candidates db roles)" "tm_ID m = tk_ID t"
        "\<forall>d \<in> set (unmarshal_uuids (tm_DependsOn m)). completed_rows db (tm_WorkflowID m) d"
      using take_ready_deps[of "tk_ID t" db n "[]"] i by (auto simp: claim_select_def)
    moreover have "\<exists>u \<in> set (db_tasks db). tm_ID u = d \<and> tm_WorkflowID u = tm_WorkflowID m \<and> tm_Status u = TaskCompleted"
      if "d \<in> set (unmarshal_uuids (tm_DependsOn m))" for d using m(3) that by (auto simp: completed_rows_def texts)
    ultimately show ?thesis using r(2,3) m(1,2) by (intro conjI bexI[of _ m]) (auto simp: claim_candidates_def texts)
  qed
  ultimately show ?thesis by (auto simp: PG_ClaimReadyTasks_def Let_def)
qed

theorem claimed_tasks_ready_witness:
  "map tk_ID (fst (PG_ClaimReadyTasks 3 (cl_db demo_claims) ''a'' [RoleExecutor] 1)) = [2] \<and>
   int (length (fst (PG_ClaimReadyTasks 3 (cl_db demo_claims) ''a'' [RoleExecutor] 1))) \<le> max 1 1"
proof
  show "map tk_ID (fst (PG_ClaimReadyTasks 3 (cl_db demo_claims) ''a'' [RoleExecutor] 1)) = [2]" by code_simp
  have "unique_rows (cl_db demo_claims)" using demo_same(2) by (simp add: demo_claims_def)
  from claimed_tasks_ready[OF this, of "''a''" 3 "[RoleExecutor]" 1]
  show "int (length (fst (PG_ClaimReadyTasks 3 (cl_db demo_claims) ''a'' [RoleExecutor] 1))) \<le> max 1 1" by simp
qed

end
