(* ===== verification/Notification.thy ===== *)
theory Notification
  imports Security "HOL-Library.AList"
begin

text \<open>
  Notification channels and the dispatcher (\<^verbatim>\<open>notification/notification.go\<close>,
  \<^verbatim>\<open>storage/postgres/notification_repo.go\<close>). A sender is a function of the world that returns an error text or success;
  the concrete senders (mail, chat services, webhooks) are input and output. The texts of errors and of identifiers
  are parameters. \<open>clk i\<close> is the \<open>i\<close>-th reading of the clock in an operation.

  A table row carries a flag for soft deletion: queries skip deleted rows, unique indexes see them. An inserted false
  for \<^verbatim>\<open>enabled\<close> takes the column's default, true.
\<close>

section \<open>Channels\<close>

record NotificationChannel =
  nc_ID :: uuid
  nc_OrgID :: uuid
  nc_Name :: string
  nc_ChannelType :: string
  nc_Config :: "(string \<times> string) list"
  nc_CredentialRef :: string
  nc_Enabled :: bool
  nc_CreatedAt :: time
  nc_UpdatedAt :: time

record channel_row =
  cr_channel :: NotificationChannel
  cr_deleted :: bool

datatype repo_error = RowNotFound | DuplicateKey

definition TenantScope :: "uuid \<Rightarrow> channel_row \<Rightarrow> bool" where
  "TenantScope orgID r \<longleftrightarrow> nc_OrgID (cr_channel r) = orgID \<and> \<not> cr_deleted r"

definition channel_taken :: "channel_row list \<Rightarrow> NotificationChannel \<Rightarrow> bool" where
  "channel_taken rows ch \<longleftrightarrow>
     (\<exists>r \<in> set rows. nc_ID (cr_channel r) \<noteq> nc_ID ch \<and> nc_OrgID (cr_channel r) = nc_OrgID ch \<and> nc_Name (cr_channel r) = nc_Name ch)"

definition Channel_Create :: "channel_row list \<Rightarrow> NotificationChannel \<Rightarrow> repo_error option \<times> channel_row list" where
  "Channel_Create rows ch =
     (if nc_ID ch \<in> (\<lambda>r. nc_ID (cr_channel r)) ` set rows \<or> channel_taken rows ch then (Some DuplicateKey, rows)
      else (None, rows @ [\<lparr>cr_channel = ch\<lparr>nc_Enabled := True\<rparr>, cr_deleted = False\<rparr>]))"

definition Channel_Get :: "channel_row list \<Rightarrow> uuid \<Rightarrow> uuid \<Rightarrow> repo_error + NotificationChannel" where
  "Channel_Get rows orgID i =
     (case find (\<lambda>r. TenantScope orgID r \<and> nc_ID (cr_channel r) = i) rows of
        None \<Rightarrow> Inl RowNotFound
      | Some r \<Rightarrow> Inr (cr_channel r))"

definition Channel_GetByName :: "channel_row list \<Rightarrow> uuid \<Rightarrow> string \<Rightarrow> repo_error + NotificationChannel" where
  "Channel_GetByName rows orgID name =
     (case find (\<lambda>r. TenantScope orgID r \<and> nc_Name (cr_channel r) = name) rows of
        None \<Rightarrow> Inl RowNotFound
      | Some r \<Rightarrow> Inr (cr_channel r))"

definition Channel_List :: "channel_row list \<Rightarrow> uuid \<Rightarrow> NotificationChannel list" where
  "Channel_List rows orgID = rev (sort_key nc_CreatedAt (rev (map cr_channel (filter (TenantScope orgID) rows))))"

definition Channel_Update :: "time \<Rightarrow> channel_row list \<Rightarrow> NotificationChannel \<Rightarrow> repo_error option \<times> channel_row list" where
  "Channel_Update now rows ch =
     (let row = \<lparr>cr_channel = ch\<lparr>nc_UpdatedAt := now\<rparr>, cr_deleted = False\<rparr>
      in if channel_taken rows ch then (Some DuplicateKey, rows)
         else (None,
           if nc_ID ch \<in> (\<lambda>r. nc_ID (cr_channel r)) ` set rows
           then map (\<lambda>r. if nc_ID (cr_channel r) = nc_ID ch then row else r) rows
           else rows @ [\<lparr>cr_channel = (cr_channel row)\<lparr>nc_Enabled := True\<rparr>, cr_deleted = False\<rparr>]))"

definition Channel_Delete :: "channel_row list \<Rightarrow> uuid \<Rightarrow> uuid \<Rightarrow> repo_error option \<times> channel_row list" where
  "Channel_Delete rows orgID i =
     (if \<exists>r \<in> set rows. TenantScope orgID r \<and> nc_ID (cr_channel r) = i
      then (None, map (\<lambda>r. if TenantScope orgID r \<and> nc_ID (cr_channel r) = i then r\<lparr>cr_deleted := True\<rparr> else r) rows)
      else (Some RowNotFound, rows))"

section \<open>Dispatch\<close>

record NotifyMessage =
  nm_Subject :: string
  nm_Body :: string
  nm_Metadata :: "(string \<times> string) list"

datatype notify_error =
    ChannelLookup uuid repo_error
  | ChannelDisabled string
  | NoSenderFor string
  | SendFailed string
  | AllChannelsFailed "notify_error option"

record texts =
  tx_uuid :: "uuid \<Rightarrow> string"
  tx_repo :: "repo_error \<Rightarrow> string"

type_synonym 'w sender = "'w \<Rightarrow> NotificationChannel \<Rightarrow> NotifyMessage \<Rightarrow> string option \<times> 'w"

record 'w Dispatcher =
  d_senders :: "(string \<times> 'w sender) list"
  d_store :: "channel_row list"
  d_security :: "AuditLogger option"
  d_world :: 'w

definition NewDispatcher :: "channel_row list \<Rightarrow> AuditLogger option \<Rightarrow> 'w \<Rightarrow> 'w Dispatcher" where
  "NewDispatcher store sec w = \<lparr>d_senders = [], d_store = store, d_security = sec, d_world = w\<rparr>"

definition RegisterSender :: "'w Dispatcher \<Rightarrow> string \<Rightarrow> 'w sender \<Rightarrow> 'w Dispatcher" where
  "RegisterSender d typ s = d\<lparr>d_senders := AList.update typ s (d_senders d)\<rparr>"

definition auditNotify :: "time \<Rightarrow> 'w Dispatcher \<Rightarrow> string \<Rightarrow> string \<Rightarrow> string \<Rightarrow> string \<Rightarrow> string \<Rightarrow> 'w Dispatcher" where
  "auditNotify now d userID channelName channelType result errMsg =
     (case d_security d of
        None \<Rightarrow> d
      | Some sec \<Rightarrow>
          d\<lparr>d_security := Some (snd (AuditLogger_LogAction sec
             \<lparr>ev_Timestamp = now, ev_CorrelationID = [], ev_UserID = userID, ev_Action = ''notification.send'',
              ev_Tool = ''notification'',
              ev_Parameters = [(''channel_name'', AStr channelName), (''channel_type'', AStr channelType)],
              ev_Result = result, ev_TokensUsed = 0, ev_CostUSD = 0, ev_ApprovedBy = [], ev_Error = errMsg\<rparr>))\<rparr>)"

text \<open>One round of the loop of \<^verbatim>\<open>Notify\<close>: the channel's entry in the error map and the dispatcher afterwards.\<close>

definition notify_one ::
  "texts \<Rightarrow> time \<Rightarrow> 'w Dispatcher \<Rightarrow> uuid \<Rightarrow> NotifyMessage \<Rightarrow> string \<Rightarrow> uuid \<Rightarrow> notify_error option \<times> 'w Dispatcher" where
  "notify_one tx now d orgID msg userID chID =
     (case Channel_Get (d_store d) orgID chID of
        Inl e \<Rightarrow> (Some (ChannelLookup chID e), auditNotify now d userID (tx_uuid tx chID) [] ''failure'' (tx_repo tx e))
      | Inr ch \<Rightarrow>
          if \<not> nc_Enabled ch then (Some (ChannelDisabled (nc_Name ch)), d)
          else (case map_of (d_senders d) (nc_ChannelType ch) of
                  None \<Rightarrow> (Some (NoSenderFor (nc_ChannelType ch)), auditNotify now d userID (nc_Name ch) (nc_ChannelType ch) ''failure'' ''no sender'')
                | Some sender \<Rightarrow>
                    (case sender (d_world d) ch msg of
                       (Some e, w) \<Rightarrow> (Some (SendFailed e), auditNotify now (d\<lparr>d_world := w\<rparr>) userID (nc_Name ch) (nc_ChannelType ch) ''failure'' e)
                     | (None, w) \<Rightarrow> (None, auditNotify now (d\<lparr>d_world := w\<rparr>) userID (nc_Name ch) (nc_ChannelType ch) ''success'' []))))"

fun notify_loop ::
  "texts \<Rightarrow> (nat \<Rightarrow> time) \<Rightarrow> 'w Dispatcher \<Rightarrow> uuid \<Rightarrow> NotifyMessage \<Rightarrow> string \<Rightarrow> (uuid \<times> notify_error option) list \<Rightarrow> uuid list \<Rightarrow>
     (uuid \<times> notify_error option) list \<times> 'w Dispatcher" where
  "notify_loop tx clk d orgID msg userID errors [] = (errors, d)"
| "notify_loop tx clk d orgID msg userID errors (chID # rest) =
     (let (e, d') = notify_one tx (clk 0) d orgID msg userID chID
      in notify_loop tx (\<lambda>i. clk (Suc i)) d' orgID msg userID (AList.update chID e errors) rest)"

definition Notify ::
  "texts \<Rightarrow> (nat \<Rightarrow> time) \<Rightarrow> 'w Dispatcher \<Rightarrow> uuid \<Rightarrow> uuid list \<Rightarrow> NotifyMessage \<Rightarrow> string \<Rightarrow>
     (uuid \<times> notify_error option) list \<times> 'w Dispatcher" where
  "Notify tx clk d orgID channelIDs msg userID = notify_loop tx clk d orgID msg userID [] channelIDs"

fun fallback_loop ::
  "time \<Rightarrow> 'w Dispatcher \<Rightarrow> uuid \<Rightarrow> NotifyMessage \<Rightarrow> string \<Rightarrow> notify_error option \<Rightarrow> uuid list \<Rightarrow> notify_error option \<times> 'w Dispatcher" where
  "fallback_loop now d orgID msg userID lastErr [] = (Some (AllChannelsFailed lastErr), d)"
| "fallback_loop now d orgID msg userID lastErr (chID # rest) =
     (case Channel_Get (d_store d) orgID chID of
        Inl e \<Rightarrow> fallback_loop now d orgID msg userID (Some (ChannelLookup chID e)) rest
      | Inr ch \<Rightarrow>
          if \<not> nc_Enabled ch then fallback_loop now d orgID msg userID (Some (ChannelDisabled (nc_Name ch))) rest
          else (case map_of (d_senders d) (nc_ChannelType ch) of
                  None \<Rightarrow> fallback_loop now d orgID msg userID (Some (NoSenderFor (nc_ChannelType ch))) rest
                | Some sender \<Rightarrow>
                    (case sender (d_world d) ch msg of
                       (Some e, w) \<Rightarrow> fallback_loop now (d\<lparr>d_world := w\<rparr>) orgID msg userID (Some (SendFailed e)) rest
                     | (None, w) \<Rightarrow> (None, auditNotify now (d\<lparr>d_world := w\<rparr>) userID (nc_Name ch) (nc_ChannelType ch) ''success'' []))))"

definition NotifyWithFallback ::
  "time \<Rightarrow> 'w Dispatcher \<Rightarrow> uuid \<Rightarrow> uuid list \<Rightarrow> NotifyMessage \<Rightarrow> string \<Rightarrow> notify_error option \<times> 'w Dispatcher" where
  "NotifyWithFallback now d orgID channelIDs msg userID = fallback_loop now d orgID msg userID None channelIDs"

section \<open>What the error map says\<close>

lemma find_append_None: "find P xs = None \<Longrightarrow> find P (xs @ ys) = find P ys"
  by (induction xs) (auto split: if_splits)

lemma auditNotify_frame [simp]:
  "d_store (auditNotify now d u n t r e) = d_store d" "d_senders (auditNotify now d u n t r e) = d_senders d"
  "d_world (auditNotify now d u n t r e) = d_world d"
  by (simp_all add: auditNotify_def split: option.split)

text \<open>\<open>outcome store senders org msg i e\<close>: \<open>e\<close> is a correct entry for channel \<open>i\<close>.\<close>

definition outcome :: "channel_row list \<Rightarrow> (string \<times> 'w sender) list \<Rightarrow> uuid \<Rightarrow> NotifyMessage \<Rightarrow> uuid \<Rightarrow> notify_error option \<Rightarrow> bool" where
  "outcome store senders orgID msg i e \<longleftrightarrow>
     (case Channel_Get store orgID i of
        Inl r \<Rightarrow> e = Some (ChannelLookup i r)
      | Inr ch \<Rightarrow>
          if \<not> nc_Enabled ch then e = Some (ChannelDisabled (nc_Name ch))
          else (case map_of senders (nc_ChannelType ch) of
                  None \<Rightarrow> e = Some (NoSenderFor (nc_ChannelType ch))
                | Some sender \<Rightarrow> \<exists>w. e = map_option SendFailed (fst (sender w ch msg))))"

lemma notify_one_frame:
  assumes "notify_one tx now d orgID msg userID i = (e, d')"
  shows "d_store d' = d_store d" "d_senders d' = d_senders d" "outcome (d_store d) (d_senders d) orgID msg i e"
  using assms
  by (auto simp: notify_one_def outcome_def split: sum.splits if_splits option.splits prod.splits intro: exI[of _ "d_world d"])

lemma notify_loop_outcome:
  assumes "notify_loop tx clk d orgID msg userID errors ids = (errs, d')"
    and "\<forall>i e. map_of errors i = Some e \<longrightarrow> outcome (d_store d) (d_senders d) orgID msg i e"
  shows "dom (map_of errs) = dom (map_of errors) \<union> set ids \<and>
    (\<forall>i e. map_of errs i = Some e \<longrightarrow> outcome (d_store d) (d_senders d) orgID msg i e)"
  using assms
proof (induction ids arbitrary: clk d errors)
  case (Cons i ids)
  obtain e d1 where one: "notify_one tx (clk 0) d orgID msg userID i = (e, d1)" by fastforce
  note frame = notify_one_frame[OF one]
  have loop: "notify_loop tx (\<lambda>j. clk (Suc j)) d1 orgID msg userID (AList.update i e errors) ids = (errs, d')"
    using Cons.prems(1) one by simp
  have "\<forall>j x. map_of (AList.update i e errors) j = Some x \<longrightarrow> outcome (d_store d1) (d_senders d1) orgID msg j x"
    using Cons.prems(2) frame by (auto simp: update_conv' split: if_splits)
  from Cons.IH[OF loop this] show ?case unfolding frame(1,2) by (auto simp: update_conv')
qed auto

definition deliverable :: "channel_row list \<Rightarrow> (string \<times> 'w sender) list \<Rightarrow> uuid \<Rightarrow> uuid \<Rightarrow> bool" where
  "deliverable store senders orgID i \<longleftrightarrow>
     (case Channel_Get store orgID i of Inl r \<Rightarrow> False | Inr ch \<Rightarrow> nc_Enabled ch \<and> map_of senders (nc_ChannelType ch) \<noteq> None)"

lemma notify_one_silent:
  assumes "notify_one tx now d orgID msg userID i = (e, d')" "\<not> deliverable (d_store d) (d_senders d) orgID i"
  shows "d_world d' = d_world d"
  using assms by (auto simp: notify_one_def deliverable_def split: sum.splits if_splits option.splits)

lemma notify_loop_silent:
  assumes "notify_loop tx clk d orgID msg userID errors ids = (errs, d')" "\<forall>i \<in> set ids. \<not> deliverable (d_store d) (d_senders d) orgID i"
  shows "d_world d' = d_world d"
  using assms
proof (induction ids arbitrary: clk d errors)
  case (Cons i ids)
  obtain e d1 where one: "notify_one tx (clk 0) d orgID msg userID i = (e, d1)" by fastforce
  have "d_world d1 = d_world d" using notify_one_silent[OF one] Cons.prems(2) by simp
  then show ?case using Cons.IH[of "\<lambda>j. clk (Suc j)" d1 "AList.update i e errors"] Cons.prems one notify_one_frame(1,2)[OF one] by simp
qed simp


definition demo_channel :: "uuid \<Rightarrow> bool \<Rightarrow> channel_row" where
  "demo_channel i on = \<lparr>cr_channel = \<lparr>nc_ID = i, nc_OrgID = 1, nc_Name = ''c'', nc_ChannelType = ''slack'', nc_Config = [],
     nc_CredentialRef = [], nc_Enabled = on, nc_CreatedAt = 0, nc_UpdatedAt = 0\<rparr>, cr_deleted = False\<rparr>"

definition demo_dispatcher :: "nat Dispatcher" where
  "demo_dispatcher = RegisterSender (NewDispatcher [demo_channel 1 True, demo_channel 2 False] None 0) ''slack'' (\<lambda>w ch m. (None, Suc w))"

definition demo_texts :: texts where
  "demo_texts = \<lparr>tx_uuid = (\<lambda>i. ''id''), tx_repo = (\<lambda>e. ''record not found'')\<rparr>"

definition demo_message :: NotifyMessage where
  "demo_message = \<lparr>nm_Subject = ''s'', nm_Body = ''b'', nm_Metadata = []\<rparr>"


section \<open>Behaviours that contradict the comments\<close>

text \<open>A channel created as disabled is stored as enabled.\<close>

theorem created_channel_is_enabled:
  assumes "fst (Channel_Create rows ch) = None"
  shows "\<exists>ch'. Channel_Get (snd (Channel_Create rows ch)) (nc_OrgID ch) (nc_ID ch) = Inr ch' \<and> nc_Enabled ch'"
proof -
  have "find (\<lambda>r. TenantScope (nc_OrgID ch) r \<and> nc_ID (cr_channel r) = nc_ID ch) rows = None"
    using assms by (auto simp: Channel_Create_def find_None_iff image_iff split: if_splits)
  then show ?thesis using assms
    by (auto simp: Channel_Create_def Channel_Get_def TenantScope_def find_append_None split: if_splits)
qed

text \<open>The failed attempts of the fallback leave no trace in the audit log.\<close>

theorem fallback_failures_not_audited:
  assumes "fst (NotifyWithFallback now d orgID channelIDs msg userID) \<noteq> None"
  shows "d_security (snd (NotifyWithFallback now d orgID channelIDs msg userID)) = d_security d"
proof -
  have "fst (fallback_loop now d orgID msg userID le ids) \<noteq> None \<Longrightarrow> d_security (snd (fallback_loop now d orgID msg userID le ids)) = d_security d"
    for le ids
    by (induction now d orgID msg userID le ids rule: fallback_loop.induct) (auto split: sum.splits if_splits option.splits prod.splits)
  then show ?thesis using assms by (simp add: NotifyWithFallback_def)
qed

end
