(* ===== verification/CronJobs.thy ===== *)
theory CronJobs
  imports Scheduler Notification
begin

text \<open>
  Scheduled workflows (\<^verbatim>\<open>scheduler/scheduler.go\<close>, \<^verbatim>\<open>storage/postgres/cronjob_repo.go\<close>), composed with the engine's \<open>Submit\<close> and the
  notification dispatcher. The cron parser (\<^verbatim>\<open>robfig/cron\<close>) is the function \<open>co_next\<close>: the next time an
  expression allows after a given one, or nothing for an expression it rejects. \<open>clk i\<close> is the \<open>i\<close>-th reading of the clock while
  one job is fired, \<open>corr\<close> its random correlation identifier. \<open>locked\<close> says which rows another instance has
  locked. The jobs of a tick run concurrently in Go; here one after the other in the order the
  database returns them.
\<close>

section \<open>Jobs and their table\<close>

record CronJob =
  cj_ID :: uuid
  cj_OrgID :: uuid
  cj_Name :: string
  cj_Description :: string
  cj_CronExpression :: string
  cj_Goal :: string
  cj_UserID :: string
  cj_BudgetLimitUSD :: usd
  cj_MaxDepth :: int
  cj_MaxTasks :: int
  cj_Enabled :: bool
  cj_NextRunAt :: "time option"
  cj_LastRunAt :: "time option"
  cj_LastWorkflowID :: "uuid option"
  cj_LastError :: string
  cj_CreatedAt :: time
  cj_UpdatedAt :: time

record cron_row =
  row_job :: CronJob
  row_deleted :: bool

definition cron_scope :: "uuid \<Rightarrow> cron_row \<Rightarrow> bool" where
  "cron_scope orgID r \<longleftrightarrow> cj_OrgID (row_job r) = orgID \<and> \<not> row_deleted r"

definition cron_defaults :: "CronJob \<Rightarrow> CronJob" where
  "cron_defaults j = j\<lparr>cj_MaxDepth := (if cj_MaxDepth j = 0 then 5 else cj_MaxDepth j),
     cj_MaxTasks := (if cj_MaxTasks j = 0 then 50 else cj_MaxTasks j), cj_Enabled := True\<rparr>"

definition Cron_Create :: "cron_row list \<Rightarrow> CronJob \<Rightarrow> repo_error option \<times> cron_row list" where
  "Cron_Create rows j =
     (if cj_ID j \<in> (\<lambda>r. cj_ID (row_job r)) ` set rows then (Some DuplicateKey, rows)
      else (None, rows @ [\<lparr>row_job = cron_defaults j, row_deleted = False\<rparr>]))"

definition Cron_Get :: "cron_row list \<Rightarrow> uuid \<Rightarrow> uuid \<Rightarrow> repo_error + CronJob" where
  "Cron_Get rows orgID i =
     (case find (\<lambda>r. cron_scope orgID r \<and> cj_ID (row_job r) = i) rows of None \<Rightarrow> Inl RowNotFound | Some r \<Rightarrow> Inr (row_job r))"

definition Cron_List :: "cron_row list \<Rightarrow> uuid \<Rightarrow> CronJob list" where
  "Cron_List rows orgID = rev (sort_key cj_CreatedAt (rev (map row_job (filter (cron_scope orgID) rows))))"

definition Cron_Update :: "time \<Rightarrow> cron_row list \<Rightarrow> CronJob \<Rightarrow> cron_row list" where
  "Cron_Update now rows j =
     (let job = j\<lparr>cj_UpdatedAt := now\<rparr>
      in if cj_ID j \<in> (\<lambda>r. cj_ID (row_job r)) ` set rows
         then map (\<lambda>r. if cj_ID (row_job r) = cj_ID j then \<lparr>row_job = job, row_deleted = False\<rparr> else r) rows
         else rows @ [\<lparr>row_job = cron_defaults job, row_deleted = False\<rparr>])"

definition Cron_Delete :: "cron_row list \<Rightarrow> uuid \<Rightarrow> uuid \<Rightarrow> repo_error option \<times> cron_row list" where
  "Cron_Delete rows orgID i =
     (if \<exists>r \<in> set rows. cron_scope orgID r \<and> cj_ID (row_job r) = i
      then (None, map (\<lambda>r. if cron_scope orgID r \<and> cj_ID (row_job r) = i then r\<lparr>row_deleted := True\<rparr> else r) rows)
      else (Some RowNotFound, rows))"

definition is_due :: "(uuid \<Rightarrow> bool) \<Rightarrow> uuid \<Rightarrow> time \<Rightarrow> cron_row \<Rightarrow> bool" where
  "is_due locked orgID now r \<longleftrightarrow>
     cron_scope orgID r \<and> \<not> locked (cj_ID (row_job r)) \<and> cj_Enabled (row_job r) \<and>
     (case cj_NextRunAt (row_job r) of None \<Rightarrow> False | Some t \<Rightarrow> t \<le> now)"

definition GetDueJobs :: "(uuid \<Rightarrow> bool) \<Rightarrow> cron_row list \<Rightarrow> uuid \<Rightarrow> time \<Rightarrow> CronJob list" where
  "GetDueJobs locked rows orgID now = map row_job (filter (is_due locked orgID now) rows)"

definition RecordExecution :: "time \<Rightarrow> cron_row list \<Rightarrow> uuid \<Rightarrow> uuid \<Rightarrow> time \<Rightarrow> string \<Rightarrow> cron_row list" where
  "RecordExecution now rows i workflowID nextRunAt errMsg =
     map (\<lambda>r. if cj_ID (row_job r) = i \<and> \<not> row_deleted r
              then r\<lparr>row_job := (row_job r)\<lparr>cj_LastRunAt := Some now, cj_LastWorkflowID := Some workflowID, cj_LastError := errMsg,
                     cj_NextRunAt := Some nextRunAt, cj_UpdatedAt := now\<rparr>\<rparr>
              else r) rows"

section \<open>Firing\<close>

record SchedulerConfig =
  scf_Enabled :: bool
  scf_PollIntervalSeconds :: int
  scf_MaxConcurrentJobs :: int
  scf_MissedJobWindowSeconds :: int

definition MissedJobWindow :: "SchedulerConfig option \<Rightarrow> duration" where
  "MissedJobWindow c = (case c of
     Some s \<Rightarrow> if scf_MissedJobWindowSeconds s > 0 then scf_MissedJobWindowSeconds s * Second else Hour
   | None \<Rightarrow> Hour)"

record 'w cron_outside =
  co_engine :: "'w outside"
  co_cfg :: EngineConfig
  co_config :: "SchedulerConfig option"
  co_next :: "string \<Rightarrow> time \<Rightarrow> time option"
  co_texts :: texts
  co_quote :: "string \<Rightarrow> string"
  co_failChannelIDs :: "uuid list"
  co_orgID :: uuid

record ('w, 'd) cron =
  cn_rows :: "cron_row list"
  cn_engine :: "'w sched"
  cn_security :: "AuditLogger option"
  cn_dispatcher :: "'d Dispatcher option"

definition computeNextRun :: "(string \<Rightarrow> time \<Rightarrow> time option) \<Rightarrow> time \<Rightarrow> string \<Rightarrow> time" where
  "computeNextRun nxt now expr = (case nxt expr now of None \<Rightarrow> now + 24 * Hour | Some t \<Rightarrow> t)"

definition ComputeNextRunFrom :: "(string \<Rightarrow> time \<Rightarrow> time option) \<Rightarrow> string \<Rightarrow> time \<Rightarrow> string + time" where
  "ComputeNextRunFrom nxt expr from =
     (case nxt expr from of None \<Rightarrow> Inl (''invalid cron expression '' @ expr) | Some t \<Rightarrow> Inr t)"

definition cron_event :: "time \<Rightarrow> string \<Rightarrow> CronJob \<Rightarrow> params \<Rightarrow> string \<Rightarrow> string \<Rightarrow> AuditEvent" where
  "cron_event now corr job ps result errMsg =
     \<lparr>ev_Timestamp = now, ev_CorrelationID = corr, ev_UserID = cj_UserID job, ev_Action = ''cronjob.fire'', ev_Tool = ''scheduler'',
      ev_Parameters = ps, ev_Result = result, ev_TokensUsed = 0, ev_CostUSD = 0, ev_ApprovedBy = [], ev_Error = errMsg\<rparr>"

definition cron_log :: "AuditEvent \<Rightarrow> ('w, 'd) cron \<Rightarrow> ('w, 'd) cron" where
  "cron_log ev s = s\<lparr>cn_security := map_option (\<lambda>a. snd (AuditLogger_LogAction a ev)) (cn_security s)\<rparr>"

definition job_request :: "CronJob \<Rightarrow> string \<Rightarrow> WorkflowRequest" where
  "job_request job corr =
     \<lparr>wr_UserID = cj_UserID job, wr_OrgID = cj_OrgID job, wr_Goal = cj_Goal job, wr_CorrelationID = corr,
      wr_BudgetLimitUSD = cj_BudgetLimitUSD job, wr_MaxDepth = cj_MaxDepth job, wr_MaxTasks = cj_MaxTasks job\<rparr>"

definition failure_message :: "'w cron_outside \<Rightarrow> CronJob \<Rightarrow> string \<Rightarrow> NotifyMessage" where
  "failure_message co job errMsg =
     \<lparr>nm_Subject = ''[Akili] CronJob Failed: '' @ cj_Name job,
      nm_Body = ''CronJob '' @ co_quote co (cj_Name job) @ '' failed.'' @ [CHR 0x0A] @ ''Job ID: '' @ tx_uuid (co_texts co) (cj_ID job) @
        [CHR 0x0A] @ ''Goal: '' @ cj_Goal job @ [CHR 0x0A] @ ''Error: '' @ errMsg,
      nm_Metadata = [(''type'', ''cronjob_failure''), (''cronjob_id'', tx_uuid (co_texts co) (cj_ID job))]\<rparr>"

definition notify_failure :: "'w cron_outside \<Rightarrow> (nat \<Rightarrow> time) \<Rightarrow> ('w, 'd) cron \<Rightarrow> CronJob \<Rightarrow> string \<Rightarrow> ('w, 'd) cron" where
  "notify_failure co clk s job errMsg =
     (case cn_dispatcher s of
        None \<Rightarrow> s
      | Some d \<Rightarrow>
          if length (co_failChannelIDs co) > 0
          then s\<lparr>cn_dispatcher := Some (snd (Notify (co_texts co) clk d (cj_OrgID job) (co_failChannelIDs co)
                 (failure_message co job errMsg) (cj_UserID job)))\<rparr>
          else s)"

definition fireJob :: "'w cron_outside \<Rightarrow> (nat \<Rightarrow> time) \<Rightarrow> string \<Rightarrow> ('w, 'd) cron \<Rightarrow> CronJob \<Rightarrow> ('w, 'd) cron" where
  "fireJob co clk corr s job =
     (let s = cron_log (cron_event (clk 0) corr job
                [(''cronjob_id'', AStr (tx_uuid (co_texts co) (cj_ID job))), (''cronjob_name'', AStr (cj_Name job)),
                 (''cron_expression'', AStr (cj_CronExpression job)), (''goal'', AStr (cj_Goal job))] ''intent'' []) s;
          (res, eng) = Submit (co_engine co) (co_cfg co) (cn_engine s) (job_request job corr);
          s = s\<lparr>cn_engine := eng\<rparr>;
          nextRun = computeNextRun (co_next co) (clk 1) (cj_CronExpression job)
      in case res of
           Inl e \<Rightarrow>
             (let errMsg = or_text (co_engine co) e;
                  s = cron_log (cron_event (clk 2) corr job [] ''failure'' errMsg) s;
                  s = notify_failure co (\<lambda>i. clk (i + 4)) s job errMsg
              in s\<lparr>cn_rows := RecordExecution (clk 3) (cn_rows s) (cj_ID job) 0 nextRun errMsg\<rparr>)
         | Inr w \<Rightarrow>
             (let s = cron_log (cron_event (clk 2) corr job [(''workflow_id'', AStr (tx_uuid (co_texts co) (wf_ID w)))] ''success'' []) s
              in s\<lparr>cn_rows := RecordExecution (clk 3) (cn_rows s) (cj_ID job) (wf_ID w) nextRun []\<rparr>))"

fun fire_jobs :: "'w cron_outside \<Rightarrow> (nat \<Rightarrow> nat \<Rightarrow> time) \<Rightarrow> (nat \<Rightarrow> string) \<Rightarrow> ('w, 'd) cron \<Rightarrow> CronJob list \<Rightarrow> ('w, 'd) cron" where
  "fire_jobs co clk corr s [] = s"
| "fire_jobs co clk corr s (job # jobs) =
     fire_jobs co (\<lambda>i. clk (Suc i)) (\<lambda>i. corr (Suc i)) (fireJob co (clk 0) (corr 0) s job) jobs"

definition cron_tick ::
  "'w cron_outside \<Rightarrow> (uuid \<Rightarrow> bool) \<Rightarrow> time \<Rightarrow> (nat \<Rightarrow> nat \<Rightarrow> time) \<Rightarrow> (nat \<Rightarrow> string) \<Rightarrow> ('w, 'd) cron \<Rightarrow> ('w, 'd) cron" where
  "cron_tick co locked now clk corr s = fire_jobs co clk corr s (GetDueJobs locked (cn_rows s) (co_orgID co) now)"

fun recover_jobs ::
  "'w cron_outside \<Rightarrow> time \<Rightarrow> (nat \<Rightarrow> nat \<Rightarrow> time) \<Rightarrow> (nat \<Rightarrow> string) \<Rightarrow> ('w, 'd) cron \<Rightarrow> CronJob list \<Rightarrow> ('w, 'd) cron" where
  "recover_jobs co window clk corr s [] = s"
| "recover_jobs co window clk corr s (job # jobs) =
     recover_jobs co window (\<lambda>i. clk (Suc i)) (\<lambda>i. corr (Suc i))
       (if (case cj_NextRunAt job of None \<Rightarrow> False | Some t \<Rightarrow> t < window)
        then s\<lparr>cn_rows := RecordExecution (clk 0 3) (cn_rows s) (cj_ID job) 0
                (computeNextRun (co_next co) (clk 0 1) (cj_CronExpression job)) ''skipped: outside missed job window''\<rparr>
        else fireJob co (clk 0) (corr 0) s job) jobs"

definition recoverMissedJobs ::
  "'w cron_outside \<Rightarrow> (uuid \<Rightarrow> bool) \<Rightarrow> time \<Rightarrow> (nat \<Rightarrow> nat \<Rightarrow> time) \<Rightarrow> (nat \<Rightarrow> string) \<Rightarrow> ('w, 'd) cron \<Rightarrow> ('w, 'd) cron" where
  "recoverMissedJobs co locked now clk corr s =
     recover_jobs co (now - MissedJobWindow (co_config co)) clk corr s (GetDueJobs locked (cn_rows s) (co_orgID co) now)"

section \<open>Rows after a tick\<close>

definition rescheduled :: "(string \<Rightarrow> time \<Rightarrow> time option) \<Rightarrow> CronJob list \<Rightarrow> (nat \<Rightarrow> nat \<Rightarrow> time) \<Rightarrow> cron_row \<Rightarrow> cron_row \<Rightarrow> bool" where
  "rescheduled nxt jobs clk r r' \<longleftrightarrow>
     (\<exists>i j ran flow err upd. j \<in> set jobs \<and> cj_ID j = cj_ID (row_job r) \<and>
        r' = r\<lparr>row_job := (row_job r)\<lparr>cj_LastRunAt := ran, cj_LastWorkflowID := flow, cj_LastError := err,
               cj_NextRunAt := Some (computeNextRun nxt (clk i 1) (cj_CronExpression j)), cj_UpdatedAt := upd\<rparr>\<rparr>)"

definition row_after :: "(string \<Rightarrow> time \<Rightarrow> time option) \<Rightarrow> CronJob list \<Rightarrow> (nat \<Rightarrow> nat \<Rightarrow> time) \<Rightarrow> cron_row \<Rightarrow> cron_row \<Rightarrow> bool" where
  "row_after nxt jobs clk r r' \<longleftrightarrow>
     (if \<not> row_deleted r \<and> cj_ID (row_job r) \<in> cj_ID ` set jobs then rescheduled nxt jobs clk r r' else r' = r)"

lemma fireJob_rows:
  "\<exists>flow err. cn_rows (fireJob co clk corr s job) =
     RecordExecution (clk 3) (cn_rows s) (cj_ID job) flow (computeNextRun (co_next co) (clk 1) (cj_CronExpression job)) err"
  by (auto simp: fireJob_def Let_def cron_log_def notify_failure_def split: prod.split sum.split option.split)

lemma rescheduled_later:
  assumes "rescheduled nxt jobs (\<lambda>i. clk (Suc i)) (r\<lparr>row_job := (row_job r)\<lparr>cj_LastRunAt := a, cj_LastWorkflowID := b,
      cj_LastError := e, cj_NextRunAt := n, cj_UpdatedAt := u\<rparr>\<rparr>) r'"
  shows "rescheduled nxt (job # jobs) clk r r'"
proof -
  from assms obtain i j ran flow err upd where *: "j \<in> set jobs" "cj_ID j = cj_ID (row_job r)"
    "r' = r\<lparr>row_job := (row_job r)\<lparr>cj_LastRunAt := ran, cj_LastWorkflowID := flow, cj_LastError := err,
      cj_NextRunAt := Some (computeNextRun nxt (clk (Suc i) 1) (cj_CronExpression j)), cj_UpdatedAt := upd\<rparr>\<rparr>"
    by (auto simp: rescheduled_def)
  then show ?thesis unfolding rescheduled_def by (metis list.set_intros(2))
qed

lemma row_after_step:
  assumes "row_after nxt jobs (\<lambda>i. clk (Suc i))
      (if cj_ID (row_job r) = cj_ID job \<and> \<not> row_deleted r
       then r\<lparr>row_job := (row_job r)\<lparr>cj_LastRunAt := Some (clk 0 3), cj_LastWorkflowID := Some flow, cj_LastError := err,
              cj_NextRunAt := Some (computeNextRun nxt (clk 0 1) (cj_CronExpression job)), cj_UpdatedAt := clk 0 3\<rparr>\<rparr>
       else r) r'"
  shows "row_after nxt (job # jobs) clk r r'"
proof (cases "cj_ID (row_job r) = cj_ID job \<and> \<not> row_deleted r")
  case True
  show ?thesis
  proof (cases "cj_ID (row_job r) \<in> cj_ID ` set jobs")
    case True
    then show ?thesis using assms \<open>cj_ID (row_job r) = cj_ID job \<and> \<not> row_deleted r\<close> rescheduled_later
      by (simp add: row_after_def)
  next
    case False
    then have "r' = r\<lparr>row_job := (row_job r)\<lparr>cj_LastRunAt := Some (clk 0 3), cj_LastWorkflowID := Some flow, cj_LastError := err,
              cj_NextRunAt := Some (computeNextRun nxt (clk 0 1) (cj_CronExpression job)), cj_UpdatedAt := clk 0 3\<rparr>\<rparr>"
      using assms True by (simp add: row_after_def)
    then show ?thesis using True unfolding row_after_def rescheduled_def by (metis image_eqI list.set_intros(1))
  qed
next
  case False
  then have "row_after nxt jobs (\<lambda>i. clk (Suc i)) r r'" using assms by (simp add: if_not_P)
  moreover have "rescheduled nxt (job # jobs) clk r r'" if "rescheduled nxt jobs (\<lambda>i. clk (Suc i)) r r'"
    using that unfolding rescheduled_def by (metis list.set_intros(2))
  ultimately show ?thesis using False by (auto simp: row_after_def split: if_splits)
qed

lemma fire_jobs_rows:
  "list_all2 (row_after (co_next co) jobs clk) (cn_rows s) (cn_rows (fire_jobs co clk corr s jobs))"
proof (induction jobs arbitrary: clk corr s)
  case Nil
  show ?case by (auto simp: row_after_def intro!: list_all2_refl)
next
  case (Cons job jobs)
  obtain flow err where "cn_rows (fireJob co (clk 0) (corr 0) s job) = RecordExecution (clk 0 3) (cn_rows s) (cj_ID job) flow
      (computeNextRun (co_next co) (clk 0 1) (cj_CronExpression job)) err" using fireJob_rows by blast
  note this[unfolded RecordExecution_def]
  with Cons[of "\<lambda>i. clk (Suc i)" "fireJob co (clk 0) (corr 0) s job" "\<lambda>i. corr (Suc i)"]
  have "list_all2 (row_after (co_next co) (job # jobs) clk) (cn_rows s)
      (cn_rows (fire_jobs co (\<lambda>i. clk (Suc i)) (\<lambda>i. corr (Suc i)) (fireJob co (clk 0) (corr 0) s job) jobs))"
    by (simp only: list_all2_map1) (erule list_all2_mono, rule row_after_step)
  then show ?case by simp
qed

lemma computeNextRun_later:
  assumes "\<forall>expr t t'. nxt expr t = Some t' \<longrightarrow> t < t'"
  shows "t < computeNextRun nxt t expr"
  using assms by (auto simp: computeNextRun_def split: option.split)

text \<open>A tick moves exactly the due jobs: a job that is enabled, not deleted, of this organisation, not locked by another
  instance and has its next run at or before the time of the tick gets the next time of its expression and is
  not due again at that time; every other job's row stays as it is. \<^verbatim>\<open>robfig/cron\<close> returns times after the one
  given.\<close>

theorem tick_advances_due_jobs:
  assumes "distinct (map (\<lambda>r. cj_ID (row_job r)) (cn_rows s))"
    and "\<forall>expr t t'. co_next co expr t = Some t' \<longrightarrow> t < t'" and "\<forall>i j. now \<le> clk i j"
  shows "list_all2 (\<lambda>r r'.
      if is_due locked (co_orgID co) now r
      then (\<exists>i. cj_NextRunAt (row_job r') = Some (computeNextRun (co_next co) (clk i 1) (cj_CronExpression (row_job r)))) \<and>
           \<not> is_due locked (co_orgID co) now r'
      else r' = r) (cn_rows s) (cn_rows (cron_tick co locked now clk corr s))"
proof -
  let ?jobs = "GetDueJobs locked (cn_rows s) (co_orgID co) now"
  have same: "q = r" if "q \<in> set (cn_rows s)" "r \<in> set (cn_rows s)" "cj_ID (row_job q) = cj_ID (row_job r)" for q r
    using that assms(1) by (auto simp: distinct_map dest: inj_onD)
  have step: "if is_due locked (co_orgID co) now r
      then (\<exists>i. cj_NextRunAt (row_job r') = Some (computeNextRun (co_next co) (clk i 1) (cj_CronExpression (row_job r)))) \<and>
           \<not> is_due locked (co_orgID co) now r'
      else r' = r" if r: "r \<in> set (cn_rows s)" and after: "row_after (co_next co) ?jobs clk r r'" for r r'
  proof (cases "is_due locked (co_orgID co) now r")
    case True
    then have "\<not> row_deleted r" "cj_ID (row_job r) \<in> cj_ID ` set ?jobs" using r by (auto simp: is_due_def cron_scope_def GetDueJobs_def)
    with after obtain i j where ij: "j \<in> set ?jobs" "cj_ID j = cj_ID (row_job r)"
        "cj_NextRunAt (row_job r') = Some (computeNextRun (co_next co) (clk i 1) (cj_CronExpression j))"
      by (auto simp: row_after_def rescheduled_def)
    then have j: "j = row_job r" using same r by (auto simp: GetDueJobs_def)
    have "now < computeNextRun (co_next co) (clk i 1) (cj_CronExpression j)"
      using computeNextRun_later[OF assms(2)] assms(3) by (meson le_less_trans)
    then show ?thesis using True ij(3) unfolding j by (auto simp: is_due_def)
  next
    case False
    have "r' = r"
    proof (cases "\<not> row_deleted r \<and> cj_ID (row_job r) \<in> cj_ID ` set ?jobs")
      case True
      then obtain q where "q \<in> set (cn_rows s)" "is_due locked (co_orgID co) now q" "cj_ID (row_job q) = cj_ID (row_job r)"
        by (auto simp: GetDueJobs_def)
      then show ?thesis using same r False by blast
    qed (use after in \<open>auto simp: row_after_def\<close>)
    then show ?thesis using False by simp
  qed
  show ?thesis unfolding cron_tick_def
    by (rule list.rel_mono_strong[OF fire_jobs_rows]) (rule step)
qed

section \<open>Identity of the workflows\<close>

definition requested :: "EngineConfig \<Rightarrow> CronJob \<Rightarrow> Workflow \<Rightarrow> bool" where
  "requested cfg j w \<longleftrightarrow>
     wf_UserID w = cj_UserID j \<and> wf_OrgID w = cj_OrgID j \<and> wf_Goal w = cj_Goal j \<and>
     wf_BudgetLimitUSD w = (if cj_BudgetLimitUSD j \<le> 0 then budgetLimit cfg else cj_BudgetLimitUSD j)"

lemma Submit_flows:
  assumes "Submit orc cfg s (job_request j corr) = (res, s')" "wf_map (sc_store s') i = Some w"
  shows "wf_map (sc_store s) i = Some w \<or> requested cfg j w"
proof -
  let ?wid = "or_fresh orc (sc_tick s)" and ?tid = "or_fresh orc (Suc (sc_tick s))" and ?now = "clock orc s"
  let ?w0 = "new_workflow cfg (job_request j corr) ?now ?wid"
  let ?w1 = "?w0\<lparr>wf_RootTaskID := Some ?tid, wf_TaskCount := 1, wf_Status := WorkflowRunning, wf_UpdatedAt := ?now\<rparr>"
  have req: "requested cfg j ?w0" "requested cfg j (?w1\<lparr>wf_UpdatedAt := u\<rparr>)" for u
    by (simp_all add: requested_def new_workflow_def job_request_def)
  obtain e st where c: "CreateWorkflow (sc_store s) ?w0 = (e, st)" by fastforce
  have st: "wf_map (sc_store s) k = Some v \<or> requested cfg j v" if "wf_map st k = Some v" for k v
    using that c req(1) by (auto simp: CreateWorkflow_def wf_map_def update_conv' split: if_splits)
  obtain e2 st2 where d: "CreateTask st (root_task (job_request j corr) ?now ?wid ?tid) = (e2, st2)" by fastforce
  have st2: "wf_map st2 = wf_map st" using d wf_map_frames(3)[of st] by (metis snd_conv)
  have "sc_store s' = st \<or> sc_store s' = st2 \<or> (\<exists>u. sc_store s' = snd (UpdateWorkflow u st2 ?w1))"
    using assms(1) c d by (auto simp: Submit_def Let_def draw_def upd_flow_def split: option.splits prod.splits) (metis snd_conv)+
  then consider "sc_store s' = st" | "sc_store s' = st2" | u where "sc_store s' = snd (UpdateWorkflow u st2 ?w1)" by blast
  then show ?thesis
  proof cases
    case 3
    then show ?thesis using assms(2) st[of i w] req(2)[of u] by (auto simp: wf_map_UpdateWorkflow st2 split: if_splits)
  qed (use assms(2) st[of i w] st2 in auto)
qed

lemma fireJob_flows:
  assumes "wf_map (sc_store (cn_engine (fireJob co clk corr s j))) i = Some w"
  shows "wf_map (sc_store (cn_engine s)) i = Some w \<or> requested (co_cfg co) j w"
proof -
  obtain res eng where sub: "Submit (co_engine co) (co_cfg co) (cn_engine s) (job_request j corr) = (res, eng)" by fastforce
  have "cn_engine (fireJob co clk corr s j) = eng"
    using sub by (auto simp: fireJob_def Let_def cron_log_def notify_failure_def split: sum.split option.split)
  then show ?thesis using Submit_flows[OF sub] assms by simp
qed

text \<open>Scheduled execution is not privileged execution: every workflow that exists after a tick and did not
  before, was submitted for a due job, in the name of the user who created that job, for its organisation and goal, and
  under its budget.\<close>

theorem cron_runs_as_creator:
  assumes "wf_map (sc_store (cn_engine (cron_tick co locked now clk corr s))) i = Some w"
    and "wf_map (sc_store (cn_engine s)) i \<noteq> Some w"
  shows "\<exists>r \<in> set (cn_rows s). is_due locked (co_orgID co) now r \<and> requested (co_cfg co) (row_job r) w"
proof -
  have "wf_map (sc_store (cn_engine (fire_jobs co clk corr s jobs))) i = Some w \<Longrightarrow>
      wf_map (sc_store (cn_engine s)) i = Some w \<or> (\<exists>j \<in> set jobs. requested (co_cfg co) j w)" for jobs
  proof (induction jobs arbitrary: clk corr s)
    case (Cons j jobs)
    then show ?case using fireJob_flows[of co "clk 0" "corr 0" s j i w] by fastforce
  qed simp
  then show ?thesis using assms by (force simp: cron_tick_def GetDueJobs_def)
qed

definition demo_job :: "uuid \<Rightarrow> time \<Rightarrow> CronJob" where
  "demo_job i due = \<lparr>cj_ID = i, cj_OrgID = 1, cj_Name = ''nightly'', cj_Description = [], cj_CronExpression = ''* * * * *'', cj_Goal = ''tidy'',
     cj_UserID = ''ann'', cj_BudgetLimitUSD = 2, cj_MaxDepth = 3, cj_MaxTasks = 4, cj_Enabled = True, cj_NextRunAt = Some due,
     cj_LastRunAt = None, cj_LastWorkflowID = None, cj_LastError = [], cj_CreatedAt = 0, cj_UpdatedAt = 0\<rparr>"

definition demo_cron_outside :: "nat cron_outside" where
  "demo_cron_outside = \<lparr>
     co_engine = \<lparr>or_clock = int, or_fresh = (\<lambda>n. word_of_nat (Suc n)), or_cancelled = (\<lambda>_. False), or_agents = (\<lambda>r. Inl []),
       or_plan = (\<lambda>_. Inl []), or_decision = (\<lambda>a. Inl []), or_ustr = (\<lambda>_. []), or_text = (\<lambda>_. ''e''), or_arrival = (\<lambda>rs. rs)\<rparr>,
     co_cfg = \<lparr>ec_DefaultBudgetLimitUSD = 0, ec_DefaultMaxDepth = 0, ec_DefaultMaxTasks = 0, ec_MaxConcurrentTasks = 0,
       ec_ExternalAgents = False, ec_Scorer = None, ec_Recovery = None\<rparr>,
     co_config = None, co_next = (\<lambda>e t. Some (t + 60)), co_texts = demo_texts, co_quote = (\<lambda>x. x), co_failChannelIDs = [], co_orgID = 1\<rparr>"

definition demo_cron :: "(nat, nat) cron" where
  "demo_cron = \<lparr>cn_rows = [\<lparr>row_job = demo_job 5 90, row_deleted = False\<rparr>, \<lparr>row_job = demo_job 6 500, row_deleted = False\<rparr>],
     cn_engine = \<lparr>sc_store = NewInMemoryStore, sc_skills = None, sc_world = 0, sc_tick = 0\<rparr>, cn_security = None, cn_dispatcher = None\<rparr>"

definition demo_ticked :: "(nat, nat) cron" where
  "demo_ticked = cron_tick demo_cron_outside (\<lambda>i. False) 100 (\<lambda>i j. 101) (\<lambda>i. ''c'') demo_cron"

theorem tick_advances_due_jobs_witness:
  "map (\<lambda>r. cj_NextRunAt (row_job r)) (cn_rows demo_ticked) = [Some 161, Some 500] \<and>
   list_all2 (\<lambda>r r'.
      if is_due (\<lambda>i. False) (co_orgID demo_cron_outside) 100 r
      then (\<exists>i::nat. cj_NextRunAt (row_job r') = Some (computeNextRun (co_next demo_cron_outside) 101 (cj_CronExpression (row_job r)))) \<and>
           \<not> is_due (\<lambda>i. False) (co_orgID demo_cron_outside) 100 r'
      else r' = r) (cn_rows demo_cron) (cn_rows demo_ticked)"
proof
  show "map (\<lambda>r. cj_NextRunAt (row_job r)) (cn_rows demo_ticked) = [Some 161, Some 500]" by code_simp
  have d: "distinct (map (\<lambda>r. cj_ID (row_job r)) (cn_rows demo_cron))" by code_simp
  have n: "\<forall>expr t t'. co_next demo_cron_outside expr t = Some t' \<longrightarrow> t < t'" by (simp add: demo_cron_outside_def)
  show "list_all2 (\<lambda>r r'.
      if is_due (\<lambda>i. False) (co_orgID demo_cron_outside) 100 r
      then (\<exists>i::nat. cj_NextRunAt (row_job r') = Some (computeNextRun (co_next demo_cron_outside) 101 (cj_CronExpression (row_job r)))) \<and>
           \<not> is_due (\<lambda>i. False) (co_orgID demo_cron_outside) 100 r'
      else r' = r) (cn_rows demo_cron) (cn_rows demo_ticked)"
    unfolding demo_ticked_def by (rule tick_advances_due_jobs[OF d n, of 100 "\<lambda>i j. 101"]) simp
qed

theorem cron_runs_as_creator_witness:
  "\<exists>w. wf_map (sc_store (cn_engine demo_ticked)) 1 = Some w \<and>
     (\<exists>r \<in> set (cn_rows demo_cron). is_due (\<lambda>i. False) 1 100 r \<and> requested (co_cfg demo_cron_outside) (row_job r) w)"
proof -
  have "wf_map (sc_store (cn_engine demo_ticked)) 1 \<noteq> None" by code_simp
  then obtain w where w: "wf_map (sc_store (cn_engine demo_ticked)) 1 = Some w" by blast
  moreover have "wf_map (sc_store (cn_engine demo_cron)) 1 \<noteq> Some w" by (simp add: demo_cron_def wf_map_def NewInMemoryStore_def)
  ultimately show ?thesis using cron_runs_as_creator[of demo_cron_outside "\<lambda>i. False" 100 "\<lambda>i j. 101" "\<lambda>i. ''c''" demo_cron 1 w]
    by (auto simp: demo_ticked_def demo_cron_outside_def)
qed

text \<open>A job created as disabled is stored as enabled, and fires.\<close>

theorem created_job_is_enabled:
  assumes "fst (Cron_Create rows j) = None"
  shows "\<exists>r \<in> set (snd (Cron_Create rows j)). cj_ID (row_job r) = cj_ID j \<and> cj_Enabled (row_job r)"
  using assms by (auto simp: Cron_Create_def cron_defaults_def split: if_splits)

end
