(* ===== verification/NetAddress.thy ===== *)
theory NetAddress
  imports Prelude
begin

text \<open>
  Network addresses: what \<^verbatim>\<open>net.ParseIP\<close> makes of the text of an address, an IPv4 address (also an IPv4-mapped one) or an
  IPv6 address, the predicates of \<^verbatim>\<open>net.IP\<close> written out on words, and the resolver \<^verbatim>\<open>net.LookupHost\<close>, which returns the addresses
  of a host with what \<^verbatim>\<open>net.ParseIP\<close> makes of each.
\<close>

unbundle bit_operations_syntax

datatype IP = IP4 "32 word" | IP6 "128 word"

fun IsLoopback :: "IP \<Rightarrow> bool" where
  "IsLoopback (IP4 a) \<longleftrightarrow> drop_bit 24 a = 127"
| "IsLoopback (IP6 a) \<longleftrightarrow> a = 1"

fun IsPrivate :: "IP \<Rightarrow> bool" where
  "IsPrivate (IP4 a) \<longleftrightarrow> drop_bit 24 a = 10 \<or> drop_bit 20 a = 0xAC1 \<or> drop_bit 16 a = 0xC0A8"
| "IsPrivate (IP6 a) \<longleftrightarrow> drop_bit 121 a = 0x7E"

fun IsLinkLocalUnicast :: "IP \<Rightarrow> bool" where
  "IsLinkLocalUnicast (IP4 a) \<longleftrightarrow> drop_bit 16 a = 0xA9FE"
| "IsLinkLocalUnicast (IP6 a) \<longleftrightarrow> drop_bit 118 a = 0x3FA"

fun IsLinkLocalMulticast :: "IP \<Rightarrow> bool" where
  "IsLinkLocalMulticast (IP4 a) \<longleftrightarrow> drop_bit 8 a = 0xE00000"
| "IsLinkLocalMulticast (IP6 a) \<longleftrightarrow> drop_bit 120 a = 0xFF \<and> drop_bit 112 a AND 0xF = 2"

fun IsUnspecified :: "IP \<Rightarrow> bool" where
  "IsUnspecified (IP4 a) \<longleftrightarrow> a = 0"
| "IsUnspecified (IP6 a) \<longleftrightarrow> a = 0"

type_synonym resolver = "string \<Rightarrow> (string \<times> IP option) list option"

section \<open>Unique local addresses\<close>

lemma mask_fe_bits: "bit (0xFE :: 128 word) n \<longleftrightarrow> 1 \<le> n \<and> n < 8"
proof -
  have "(0xFE :: 128 word) = push_bit 1 (mask 7)" by (simp add: mask_eq_exp_minus_1)
  then show ?thesis by (auto simp only: bit_push_bit_iff bit_mask_iff) (auto simp: bit_imp_le_length)
qed

lemma ula_masked: "drop_bit 120 (a :: 128 word) AND 0xFE = push_bit 1 (drop_bit 121 a)"
proof (rule bit_word_eqI)
  fix n assume "n < LENGTH(128)"
  have "bit a (120 + n) \<Longrightarrow> n < 8" using bit_imp_le_length[of a "120 + n"] by simp
  then show "bit (drop_bit 120 a AND 0xFE) n = bit (push_bit 1 (drop_bit 121 a)) n"
    using \<open>n < LENGTH(128)\<close> unfolding bit_and_iff bit_push_bit_iff bit_drop_bit_eq mask_fe_bits o_apply by auto
qed

lemma ula_prefix: "drop_bit 120 (a :: 128 word) AND 0xFE = 0xFC \<longleftrightarrow> drop_bit 121 a = 0x7E"
proof -
  have e: "(0xFC :: 128 word) = push_bit 1 0x7E" by simp
  have "push_bit 1 (drop_bit 121 a) = (push_bit 1 0x7E :: 128 word) \<longleftrightarrow> drop_bit 121 a = 0x7E"
  proof
    assume h: "push_bit 1 (drop_bit 121 a) = (push_bit 1 0x7E :: 128 word)"
    then have "drop_bit 1 (push_bit 1 (drop_bit 121 a)) = drop_bit 1 (push_bit 1 0x7E :: 128 word)" by simp
    moreover have "drop_bit 1 (push_bit 1 (drop_bit 121 a)) = drop_bit 121 a"
    proof (rule bit_word_eqI)
      fix n assume "n < LENGTH(128)"
      have "bit a (121 + n) \<Longrightarrow> n < 7" using bit_imp_le_length[of a "121 + n"] by simp
      then show "bit (drop_bit 1 (push_bit 1 (drop_bit 121 a))) n = bit (drop_bit 121 a) n"
        unfolding bit_push_bit_iff bit_drop_bit_eq o_apply by auto
    qed
    ultimately show "drop_bit 121 a = 0x7E" by simp
  qed simp
  then show ?thesis unfolding ula_masked e .
qed

end
