(* ===== verification/Alerting.thy ===== *)
theory Alerting
  imports Notification CronJobs NetAddress
begin

text \<open>
  Alert rules (\<^verbatim>\<open>alerting/alerting.go\<close>, \<^verbatim>\<open>alerting/checks.go\<close>, \<^verbatim>\<open>storage/postgres/alert_repo.go\<close>): the HTTP check with its address
  filter, the evaluation of a rule with change detection and cooldown, and the poll cycle.

  The resolver and the HTTP client are functions; a resolved address comes with what \<^verbatim>\<open>net.ParseIP\<close> makes of it, an
  IPv4 address (also an IPv4-mapped one) or an IPv6 address. The predicates of \<^verbatim>\<open>net.IP\<close> are written out on words.
\<close>

section \<open>Checks\<close>

definition internal_ip :: "IP \<Rightarrow> bool" where
  "internal_ip ip \<longleftrightarrow> IsLoopback ip \<or> IsPrivate ip \<or> IsLinkLocalUnicast ip \<or> IsLinkLocalMulticast ip \<or> IsUnspecified ip"

datatype check_error =
    MissingURL | LoopbackNotAllowed | DNSLookupFailed string | InternalIP string | InvalidExpectedStatus string
  | CreatingRequest string | CommandNotSupported | UnknownCheckType string

fun after_scheme :: "string \<Rightarrow> string option" where
  "after_scheme [] = None"
| "after_scheme (c # s) = (if HasPrefix (c # s) ''://'' then Some (drop 3 (c # s)) else after_scheme s)"

definition check_host :: "string \<Rightarrow> string" where
  "check_host rawURL =
     takeWhile (\<lambda>c. c \<noteq> CHR '':'' \<and> c \<noteq> CHR ''/'') (case after_scheme rawURL of None \<Rightarrow> rawURL | Some rest \<Rightarrow> rest)"

fun first_internal :: "(string \<times> IP option) list \<Rightarrow> string option" where
  "first_internal [] = None"
| "first_internal ((ipStr, None) # ips) = first_internal ips"
| "first_internal ((ipStr, Some ip) # ips) = (if internal_ip ip then Some ipStr else first_internal ips)"

definition validateCheckURL :: "resolver \<Rightarrow> string \<Rightarrow> check_error option" where
  "validateCheckURL resolve rawURL =
     (let hostname = check_host rawURL; lower = ToLower hostname
      in if lower = ''localhost'' \<or> lower = ''127.0.0.1'' \<or> lower = ''::1'' \<or> lower = ''0.0.0.0'' then Some LoopbackNotAllowed
         else case resolve hostname of
                None \<Rightarrow> Some (DNSLookupFailed hostname)
              | Some ips \<Rightarrow> map_option InternalIP (first_internal ips))"

text \<open>\<^verbatim>\<open>strconv.Atoi\<close>: an optional sign and decimal digits, within 64 bits.\<close>

fun digits_value :: "int \<Rightarrow> string \<Rightarrow> int option" where
  "digits_value acc [] = Some acc"
| "digits_value acc (c # cs) =
     (if of_char c \<ge> (48::nat) \<and> of_char c \<le> (57::nat) then digits_value (acc * 10 + (of_char c - 48)) cs else None)"

definition Atoi :: "string \<Rightarrow> int option" where
  "Atoi s =
     (let neg = HasPrefix s ''-''; ds = (if neg \<or> HasPrefix s ''+'' then drop 1 s else s)
      in if ds = [] then None
         else case digits_value 0 ds of
                None \<Rightarrow> None
              | Some v \<Rightarrow> let n = (if neg then - v else v) in if - (2 ^ 63) \<le> n \<and> n < 2 ^ 63 then Some n else None)"

record 'w http =
  ht_resolve :: resolver
  ht_request :: "string \<Rightarrow> string option"
  ht_do :: "string \<Rightarrow> duration \<Rightarrow> 'w \<Rightarrow> (string + int) \<times> 'w"
  ht_error :: "check_error \<Rightarrow> string"

definition config_get :: "(string \<times> string) list \<Rightarrow> string \<Rightarrow> string" where
  "config_get m k = (case map_of m k of None \<Rightarrow> [] | Some v \<Rightarrow> v)"

type_synonym check_result = "string \<times> string \<times> check_error option"

definition http_verdict :: "int \<Rightarrow> int \<Rightarrow> check_result" where
  "http_verdict code expectedStatus =
     (let message = ''HTTP '' @ int_str code @ '' (expected '' @ int_str expectedStatus @ '')''
      in if code = expectedStatus then (''ok'', message, None) else (''alert'', message, None))"

definition HTTPCheck :: "'w http \<Rightarrow> (string \<times> string) list \<Rightarrow> 'w \<Rightarrow> check_result \<times> 'w" where
  "HTTPCheck h config w =
     (let rawURL = config_get config ''url''; exp = config_get config ''expected_status''; tmo = config_get config ''timeout_seconds''
      in if rawURL = [] then ((''error'', ''missing url in check config'', Some MissingURL), w)
         else case validateCheckURL (ht_resolve h) rawURL of
                Some e \<Rightarrow> ((''error'', ''URL rejected: '' @ ht_error h e, Some e), w)
              | None \<Rightarrow>
                  (case (if exp = [] then Some 200 else Atoi exp) of
                     None \<Rightarrow> ((''error'', ''invalid expected_status'', Some (InvalidExpectedStatus exp)), w)
                   | Some expectedStatus \<Rightarrow>
                       let timeoutSec = (if tmo = [] then 10 else case Atoi tmo of None \<Rightarrow> 10 | Some n \<Rightarrow> if n > 0 then n else 10)
                       in case ht_request h rawURL of
                            Some e \<Rightarrow> ((''error'', ''creating request: '' @ e, Some (CreatingRequest e)), w)
                          | None \<Rightarrow>
                              (case ht_do h rawURL (timeoutSec * Second) w of
                                 (Inl e, w') \<Rightarrow> ((''alert'', ''request failed: '' @ e, None), w')
                               | (Inr code, w') \<Rightarrow> (http_verdict code expectedStatus, w'))))"

definition RunCheck :: "'w http \<Rightarrow> string \<Rightarrow> (string \<times> string) list \<Rightarrow> 'w \<Rightarrow> check_result \<times> 'w" where
  "RunCheck h checkType config w =
     (if checkType = ''http_status'' then HTTPCheck h config w
      else if checkType = ''command'' then ((''error'', ''command checks must be executed via workflow engine'', Some CommandNotSupported), w)
      else ((''error'', ''unknown check type: '' @ checkType, Some (UnknownCheckType checkType)), w))"

section \<open>Rules, history and their tables\<close>

record AlertRule =
  ar_ID :: uuid
  ar_OrgID :: uuid
  ar_Name :: string
  ar_Description :: string
  ar_Target :: string
  ar_CheckType :: string
  ar_CheckConfig :: "(string \<times> string) list"
  ar_CronExpression :: string
  ar_ChannelIDs :: "uuid list"
  ar_UserID :: string
  ar_Enabled :: bool
  ar_CooldownS :: int
  ar_LastCheckedAt :: "time option"
  ar_LastAlertedAt :: "time option"
  ar_LastStatus :: string
  ar_NextRunAt :: "time option"
  ar_CreatedAt :: time
  ar_UpdatedAt :: time

record AlertHistory =
  ah_ID :: uuid
  ah_OrgID :: uuid
  ah_AlertRuleID :: uuid
  ah_Status :: string
  ah_PreviousStatus :: string
  ah_Message :: string
  ah_NotifiedVia :: "string list"
  ah_NotifyErrors :: "string list"
  ah_CheckDurationMS :: int
  ah_CreatedAt :: time

record alert_row =
  alr_rule :: AlertRule
  alr_deleted :: bool

definition alert_scope :: "uuid \<Rightarrow> alert_row \<Rightarrow> bool" where
  "alert_scope orgID r \<longleftrightarrow> ar_OrgID (alr_rule r) = orgID \<and> \<not> alr_deleted r"

definition alert_defaults :: "AlertRule \<Rightarrow> AlertRule" where
  "alert_defaults a = a\<lparr>ar_Enabled := True, ar_CooldownS := (if ar_CooldownS a = 0 then 300 else ar_CooldownS a),
     ar_LastStatus := (if ar_LastStatus a = [] then ''ok'' else ar_LastStatus a)\<rparr>"

definition Rule_Create :: "alert_row list \<Rightarrow> AlertRule \<Rightarrow> repo_error option \<times> alert_row list" where
  "Rule_Create rows a =
     (if ar_ID a \<in> (\<lambda>r. ar_ID (alr_rule r)) ` set rows then (Some DuplicateKey, rows)
      else (None, rows @ [\<lparr>alr_rule = alert_defaults a, alr_deleted = False\<rparr>]))"

definition Rule_Get :: "alert_row list \<Rightarrow> uuid \<Rightarrow> uuid \<Rightarrow> repo_error + AlertRule" where
  "Rule_Get rows orgID i =
     (case find (\<lambda>r. alert_scope orgID r \<and> ar_ID (alr_rule r) = i) rows of None \<Rightarrow> Inl RowNotFound | Some r \<Rightarrow> Inr (alr_rule r))"

definition Rule_List :: "alert_row list \<Rightarrow> uuid \<Rightarrow> AlertRule list" where
  "Rule_List rows orgID = rev (sort_key ar_CreatedAt (rev (map alr_rule (filter (alert_scope orgID) rows))))"

definition Rule_Update :: "time \<Rightarrow> alert_row list \<Rightarrow> AlertRule \<Rightarrow> alert_row list" where
  "Rule_Update now rows a =
     (let rule = a\<lparr>ar_UpdatedAt := now\<rparr>
      in if ar_ID a \<in> (\<lambda>r. ar_ID (alr_rule r)) ` set rows
         then map (\<lambda>r. if ar_ID (alr_rule r) = ar_ID a then \<lparr>alr_rule = rule, alr_deleted = False\<rparr> else r) rows
         else rows @ [\<lparr>alr_rule = alert_defaults rule, alr_deleted = False\<rparr>])"

definition Rule_Delete :: "alert_row list \<Rightarrow> uuid \<Rightarrow> uuid \<Rightarrow> repo_error option \<times> alert_row list" where
  "Rule_Delete rows orgID i =
     (if \<exists>r \<in> set rows. alert_scope orgID r \<and> ar_ID (alr_rule r) = i
      then (None, map (\<lambda>r. if alert_scope orgID r \<and> ar_ID (alr_rule r) = i then r\<lparr>alr_deleted := True\<rparr> else r) rows)
      else (Some RowNotFound, rows))"

definition alert_due :: "(uuid \<Rightarrow> bool) \<Rightarrow> uuid \<Rightarrow> time \<Rightarrow> alert_row \<Rightarrow> bool" where
  "alert_due locked orgID now r \<longleftrightarrow>
     alert_scope orgID r \<and> \<not> locked (ar_ID (alr_rule r)) \<and> ar_Enabled (alr_rule r) \<and>
     (case ar_NextRunAt (alr_rule r) of None \<Rightarrow> False | Some t \<Rightarrow> t \<le> now)"

definition GetDueAlerts :: "(uuid \<Rightarrow> bool) \<Rightarrow> alert_row list \<Rightarrow> uuid \<Rightarrow> time \<Rightarrow> AlertRule list" where
  "GetDueAlerts locked rows orgID now = map alr_rule (filter (alert_due locked orgID now) rows)"

definition on_rule :: "alert_row list \<Rightarrow> uuid \<Rightarrow> (AlertRule \<Rightarrow> AlertRule) \<Rightarrow> alert_row list" where
  "on_rule rows i f = map (\<lambda>r. if ar_ID (alr_rule r) = i \<and> \<not> alr_deleted r then r\<lparr>alr_rule := f (alr_rule r)\<rparr> else r) rows"

definition RecordCheck :: "time \<Rightarrow> alert_row list \<Rightarrow> uuid \<Rightarrow> time \<Rightarrow> string \<Rightarrow> string \<Rightarrow> alert_row list" where
  "RecordCheck now rows i nextRunAt status errMsg =
     on_rule rows i (\<lambda>a. a\<lparr>ar_LastCheckedAt := Some now, ar_LastStatus := (if errMsg \<noteq> [] then ''error'' else status),
       ar_NextRunAt := Some nextRunAt, ar_UpdatedAt := now\<rparr>)"

definition RecordAlerted :: "time \<Rightarrow> alert_row list \<Rightarrow> uuid \<Rightarrow> alert_row list" where
  "RecordAlerted now rows i = on_rule rows i (\<lambda>a. a\<lparr>ar_LastAlertedAt := Some now, ar_UpdatedAt := now\<rparr>)"

definition history_limit :: "int \<Rightarrow> int" where
  "history_limit n = (if n \<le> 0 then 50 else n)"

definition recent_first :: "AlertHistory list \<Rightarrow> AlertHistory list" where
  "recent_first hs = rev (sort_key ah_CreatedAt (rev hs))"

definition ListByRule :: "AlertHistory list \<Rightarrow> uuid \<Rightarrow> uuid \<Rightarrow> int \<Rightarrow> AlertHistory list" where
  "ListByRule hs orgID ruleID n =
     take (nat (history_limit n)) (recent_first (filter (\<lambda>h. ah_OrgID h = orgID \<and> ah_AlertRuleID h = ruleID) hs))"

definition ListRecent :: "AlertHistory list \<Rightarrow> uuid \<Rightarrow> int \<Rightarrow> AlertHistory list" where
  "ListRecent hs orgID n = take (nat (history_limit n)) (recent_first (filter (\<lambda>h. ah_OrgID h = orgID) hs))"

section \<open>Evaluation\<close>

record 'w alert_outside =
  ao_http :: "'w http"
  ao_next :: "string \<Rightarrow> time \<Rightarrow> time option"
  ao_texts :: texts
  ao_notify :: "notify_error \<Rightarrow> string"
  ao_orgID :: uuid

record ('w, 'd) alerting =
  al_rows :: "alert_row list"
  al_history :: "AlertHistory list"
  al_security :: "AuditLogger option"
  al_dispatcher :: "'d Dispatcher option"
  al_world :: 'w

definition alert_audit :: "'w alert_outside \<Rightarrow> time \<Rightarrow> string \<Rightarrow> AlertRule \<Rightarrow> string \<Rightarrow> string \<Rightarrow> ('w, 'd) alerting \<Rightarrow> ('w, 'd) alerting" where
  "alert_audit ao now corr rule result errMsg s =
     s\<lparr>al_security := map_option (\<lambda>a. snd (AuditLogger_LogAction a
        \<lparr>ev_Timestamp = now, ev_CorrelationID = corr, ev_UserID = ar_UserID rule, ev_Action = ''alert.check'', ev_Tool = ''alerting'',
         ev_Parameters = [(''rule_id'', AStr (tx_uuid (ao_texts ao) (ar_ID rule))), (''rule_name'', AStr (ar_Name rule)),
                          (''target'', AStr (ar_Target rule)), (''check_type'', AStr (ar_CheckType rule))],
         ev_Result = result, ev_TokensUsed = 0, ev_CostUSD = 0, ev_ApprovedBy = [], ev_Error = errMsg\<rparr>)) (al_security s)\<rparr>"

definition status_worth_notifying :: "AlertRule \<Rightarrow> string \<Rightarrow> bool" where
  "status_worth_notifying rule status \<longleftrightarrow>
     (status = ''alert'' \<or> status = ''error'') \<and>
     ((ar_LastStatus rule \<noteq> [] \<and> ar_LastStatus rule \<noteq> status) \<or> ar_LastStatus rule = [])"

definition in_cooldown :: "AlertRule \<Rightarrow> time \<Rightarrow> bool" where
  "in_cooldown rule now \<longleftrightarrow>
     ar_CooldownS rule > 0 \<and> (case ar_LastAlertedAt rule of None \<Rightarrow> False | Some t \<Rightarrow> now < t + ar_CooldownS rule * Second)"

definition alert_message :: "'w alert_outside \<Rightarrow> AlertRule \<Rightarrow> string \<Rightarrow> string \<Rightarrow> NotifyMessage" where
  "alert_message ao rule status message =
     \<lparr>nm_Subject = ''[Akili Alert] '' @ ar_Name rule @ '' '' @ [CHR 0xE2, CHR 0x80, CHR 0x94] @ '' '' @ status,
      nm_Body = ''Alert: '' @ ar_Name rule @ [CHR 0x0A] @ ''Target: '' @ ar_Target rule @ [CHR 0x0A] @ ''Status: '' @ status @ '' (was: '' @
        ar_LastStatus rule @ '')'' @ [CHR 0x0A] @ ''Details: '' @ message,
      nm_Metadata = [(''alert_rule_id'', tx_uuid (ao_texts ao) (ar_ID rule)), (''status'', status),
        (''previous_status'', ar_LastStatus rule), (''target'', ar_Target rule), (''type'', ''alert'')]\<rparr>"

text \<open>The dispatch: the channels reached, the failures, and the state.\<close>

definition dispatch_alert ::
  "'w alert_outside \<Rightarrow> (nat \<Rightarrow> time) \<Rightarrow> time \<Rightarrow> AlertRule \<Rightarrow> string \<Rightarrow> string \<Rightarrow> ('w, 'd) alerting \<Rightarrow> 'd Dispatcher \<Rightarrow>
     string list \<times> string list \<times> ('w, 'd) alerting" where
  "dispatch_alert ao clk now rule status message s d =
     (let (results, d') = Notify (ao_texts ao) clk d (ar_OrgID rule) (ar_ChannelIDs rule) (alert_message ao rule status message) (ar_UserID rule)
      in (map (tx_uuid (ao_texts ao) \<circ> fst) (filter (\<lambda>p. snd p = None) results),
          List.map_filter (\<lambda>(i, e). map_option (\<lambda>x. tx_uuid (ao_texts ao) i @ '': '' @ ao_notify ao x) e) results,
          s\<lparr>al_dispatcher := Some d', al_rows := RecordAlerted now (al_rows s) (ar_ID rule)\<rparr>))"

definition notify_phase ::
  "'w alert_outside \<Rightarrow> (nat \<Rightarrow> time) \<Rightarrow> AlertRule \<Rightarrow> string \<Rightarrow> string \<Rightarrow> ('w, 'd) alerting \<Rightarrow> string list \<times> string list \<times> ('w, 'd) alerting" where
  "notify_phase ao clk rule status message s =
     (let shouldNotify = (status_worth_notifying rule status \<and> \<not> in_cooldown rule (clk 4))
      in case al_dispatcher s of
           Some d \<Rightarrow> if shouldNotify \<and> length (ar_ChannelIDs rule) > 0
                     then dispatch_alert ao (\<lambda>i. clk (i + 9)) (clk 5) rule status message s d else ([], [], s)
         | None \<Rightarrow> ([], [], s))"

definition evaluateRule ::
  "'w alert_outside \<Rightarrow> (nat \<Rightarrow> time) \<Rightarrow> string \<Rightarrow> uuid \<Rightarrow> ('w, 'd) alerting \<Rightarrow> AlertRule \<Rightarrow> ('w, 'd) alerting" where
  "evaluateRule ao clk corr newID s rule =
     (let s = alert_audit ao (clk 1) corr rule ''intent'' [] s;
          ((st, msg, checkErr), w) = RunCheck (ao_http ao) (ar_CheckType rule) (ar_CheckConfig rule) (al_world s);
          s = s\<lparr>al_world := w\<rparr>;
          checkDuration = (clk 2 - clk 0) div 1000000;
          errMsg = (case checkErr of None \<Rightarrow> [] | Some e \<Rightarrow> ht_error (ao_http ao) e);
          status = (if checkErr \<noteq> None then ''error'' else st);
          message = (if checkErr \<noteq> None then errMsg else msg);
          nextRun = computeNextRun (ao_next ao) (clk 3) (ar_CronExpression rule);
          (notifiedVia, notifyErrors, s) = notify_phase ao clk rule status message s;
          history = \<lparr>ah_ID = newID, ah_OrgID = ar_OrgID rule, ah_AlertRuleID = ar_ID rule, ah_Status = status,
            ah_PreviousStatus = ar_LastStatus rule, ah_Message = message, ah_NotifiedVia = notifiedVia, ah_NotifyErrors = notifyErrors,
            ah_CheckDurationMS = checkDuration, ah_CreatedAt = clk 6\<rparr>;
          s = s\<lparr>al_history := al_history s @ [history]\<rparr>;
          s = s\<lparr>al_rows := RecordCheck (clk 7) (al_rows s) (ar_ID rule) nextRun status errMsg\<rparr>
      in alert_audit ao (clk 8) corr rule (if checkErr \<noteq> None then ''failure'' else ''success'') errMsg s)"

fun evaluate_rules ::
  "'w alert_outside \<Rightarrow> (nat \<Rightarrow> nat \<Rightarrow> time) \<Rightarrow> (nat \<Rightarrow> string) \<Rightarrow> (nat \<Rightarrow> uuid) \<Rightarrow> ('w, 'd) alerting \<Rightarrow> AlertRule list \<Rightarrow> ('w, 'd) alerting" where
  "evaluate_rules ao clk corr ids s [] = s"
| "evaluate_rules ao clk corr ids s (rule # rules) =
     evaluate_rules ao (\<lambda>i. clk (Suc i)) (\<lambda>i. corr (Suc i)) (\<lambda>i. ids (Suc i)) (evaluateRule ao (clk 0) (corr 0) (ids 0) s rule) rules"

definition alert_tick ::
  "'w alert_outside \<Rightarrow> (uuid \<Rightarrow> bool) \<Rightarrow> time \<Rightarrow> (nat \<Rightarrow> nat \<Rightarrow> time) \<Rightarrow> (nat \<Rightarrow> string) \<Rightarrow> (nat \<Rightarrow> uuid) \<Rightarrow> ('w, 'd) alerting \<Rightarrow> ('w, 'd) alerting" where
  "alert_tick ao locked now clk corr ids s = evaluate_rules ao clk corr ids s (GetDueAlerts locked (al_rows s) (ao_orgID ao) now)"

section \<open>What an evaluation leaves behind\<close>

definition check_status :: "'w alert_outside \<Rightarrow> AlertRule \<Rightarrow> 'w \<Rightarrow> string" where
  "check_status ao rule w =
     (let ((st, msg, checkErr), w') = RunCheck (ao_http ao) (ar_CheckType rule) (ar_CheckConfig rule) w
      in if checkErr \<noteq> None then ''error'' else st)"

definition sends_alert :: "'w alert_outside \<Rightarrow> (nat \<Rightarrow> time) \<Rightarrow> ('w, 'd) alerting \<Rightarrow> AlertRule \<Rightarrow> bool" where
  "sends_alert ao clk s rule \<longleftrightarrow>
     al_dispatcher s \<noteq> None \<and> ar_ChannelIDs rule \<noteq> [] \<and>
     status_worth_notifying rule (check_status ao rule (al_world s)) \<and> \<not> in_cooldown rule (clk 4)"

lemma on_rule_twice: "(\<And>a. ar_ID (f a) = ar_ID a) \<Longrightarrow> on_rule (on_rule rows i f) i g = on_rule rows i (\<lambda>a. g (f a))"
  by (simp add: on_rule_def)

lemma notify_phase_fields:
  assumes "notify_phase ao clk rule status message s = (via, errs, s')"
    and "sends \<longleftrightarrow> al_dispatcher s \<noteq> None \<and> ar_ChannelIDs rule \<noteq> [] \<and> status_worth_notifying rule status \<and> \<not> in_cooldown rule (clk 4)"
  shows "al_history s' = al_history s" "al_world s' = al_world s" "al_security s' = al_security s"
    "\<not> sends \<Longrightarrow> via = [] \<and> al_dispatcher s' = al_dispatcher s"
    "al_rows s' = (if sends then RecordAlerted (clk 5) (al_rows s) (ar_ID rule) else al_rows s)"
  using assms by (auto simp: notify_phase_def dispatch_alert_def Let_def split: option.splits prod.splits if_splits)

lemma alert_audit_fields [simp]:
  "al_rows (alert_audit ao now corr rule r e s) = al_rows s" "al_history (alert_audit ao now corr rule r e s) = al_history s"
  "al_dispatcher (alert_audit ao now corr rule r e s) = al_dispatcher s" "al_world (alert_audit ao now corr rule r e s) = al_world s"
  by (simp_all add: alert_audit_def)

lemma record_rows:
  "RecordCheck now (if sends then RecordAlerted sentAt rows i else rows) i nextRun status errMsg =
     on_rule rows i (\<lambda>a. a\<lparr>ar_LastAlertedAt := (if sends then Some sentAt else ar_LastAlertedAt a), ar_LastCheckedAt := Some now,
       ar_LastStatus := (if errMsg \<noteq> [] then ''error'' else status), ar_NextRunAt := Some nextRun, ar_UpdatedAt := now\<rparr>)"
  by (simp add: RecordCheck_def RecordAlerted_def on_rule_twice)

lemma evaluation_effect:
  "let s' = evaluateRule ao clk corr newID s rule; status = check_status ao rule (al_world s)
   in (\<exists>h. al_history s' = al_history s @ [h] \<and> ah_AlertRuleID h = ar_ID rule \<and> ah_Status h = status \<and>
         ah_PreviousStatus h = ar_LastStatus rule \<and> (\<not> sends_alert ao clk s rule \<longrightarrow> ah_NotifiedVia h = [])) \<and>
      (\<not> sends_alert ao clk s rule \<longrightarrow> al_dispatcher s' = al_dispatcher s) \<and>
      al_rows s' = on_rule (al_rows s) (ar_ID rule) (\<lambda>a. a\<lparr>ar_LastAlertedAt := (if sends_alert ao clk s rule then Some (clk 5) else ar_LastAlertedAt a),
         ar_LastCheckedAt := Some (clk 7), ar_LastStatus := status,
         ar_NextRunAt := Some (computeNextRun (ao_next ao) (clk 3) (ar_CronExpression rule)), ar_UpdatedAt := clk 7\<rparr>)"
proof -
  obtain st msg checkErr w where run: "RunCheck (ao_http ao) (ar_CheckType rule) (ar_CheckConfig rule) (al_world s) = ((st, msg, checkErr), w)"
    by (metis prod.collapse)
  define status where "status = (if checkErr \<noteq> None then ''error'' else st)"
  have status: "check_status ao rule (al_world s) = status" by (simp add: check_status_def run status_def)
  let ?errMsg = "case checkErr of None \<Rightarrow> [] | Some e \<Rightarrow> ht_error (ao_http ao) e"
  have rec: "(if ?errMsg \<noteq> [] then ''error'' else status) = status" by (auto simp: status_def split: option.splits)
  let ?s = "(alert_audit ao (clk 1) corr rule ''intent'' [] s)\<lparr>al_world := w\<rparr>"
  let ?message = "if checkErr \<noteq> None then ?errMsg else msg"
  obtain via errs s2 where phase: "notify_phase ao clk rule status ?message ?s = (via, errs, s2)" by (metis prod_cases3)
  have "sends_alert ao clk s rule \<longleftrightarrow> al_dispatcher ?s \<noteq> None \<and> ar_ChannelIDs rule \<noteq> [] \<and> status_worth_notifying rule status \<and> \<not> in_cooldown rule (clk 4)"
    by (simp add: sends_alert_def status)
  note fields = notify_phase_fields[OF phase this]
  show ?thesis unfolding Let_def status evaluateRule_def alert_audit_fields run prod.case status_def[symmetric] phase
    using fields(1,4) unfolding fields(5) by (simp add: record_rows fields rec)
qed

text \<open>An evaluation of an alert rule leaves one entry in the history, with the status of the check (an error of the
  check itself counts as status error) and the status before; it stores the status and the next
  run; and it sends, and remembers having sent, exactly when there is a dispatcher and a channel, the
  status is alert or error and differs from the stored one, and the cooldown since the last
  sending is over. Otherwise the dispatcher is left alone.\<close>

theorem evaluation_recorded:
  "let s' = evaluateRule ao clk corr newID s rule; status = check_status ao rule (al_world s)
   in (\<exists>h. al_history s' = al_history s @ [h] \<and> ah_AlertRuleID h = ar_ID rule \<and> ah_Status h = status \<and>
         ah_PreviousStatus h = ar_LastStatus rule \<and> (\<not> sends_alert ao clk s rule \<longrightarrow> ah_NotifiedVia h = [])) \<and>
      (\<not> sends_alert ao clk s rule \<longrightarrow> al_dispatcher s' = al_dispatcher s) \<and>
      al_rows s' = on_rule (al_rows s) (ar_ID rule) (\<lambda>a. a\<lparr>ar_LastAlertedAt := (if sends_alert ao clk s rule then Some (clk 5) else ar_LastAlertedAt a),
         ar_LastCheckedAt := Some (clk 7), ar_LastStatus := status,
         ar_NextRunAt := Some (computeNextRun (ao_next ao) (clk 3) (ar_CronExpression rule)), ar_UpdatedAt := clk 7\<rparr>)"
  by (rule evaluation_effect)

definition demo_http :: "nat http" where
  "demo_http = \<lparr>ht_resolve = (\<lambda>h. if h = ''example.com'' then Some [(''93.184.216.34'', Some (IP4 0x5DB8D822))] else None),
     ht_request = (\<lambda>u. None), ht_do = (\<lambda>u t w. (Inr 500, Suc w)), ht_error = (\<lambda>e. ''e'')\<rparr>"

definition demo_rule :: "string \<Rightarrow> time option \<Rightarrow> AlertRule" where
  "demo_rule prev sent = \<lparr>ar_ID = 3, ar_OrgID = 1, ar_Name = ''api'', ar_Description = [], ar_Target = ''t'', ar_CheckType = ''http_status'',
     ar_CheckConfig = [(''url'', ''https://example.com/health'')], ar_CronExpression = ''* * * * *'', ar_ChannelIDs = [1], ar_UserID = ''ann'',
     ar_Enabled = True, ar_CooldownS = 300, ar_LastCheckedAt = None, ar_LastAlertedAt = sent, ar_LastStatus = prev, ar_NextRunAt = Some 0,
     ar_CreatedAt = 0, ar_UpdatedAt = 0\<rparr>"

definition demo_alert_outside :: "nat alert_outside" where
  "demo_alert_outside = \<lparr>ao_http = demo_http, ao_next = (\<lambda>e t. Some (t + 60)), ao_texts = demo_texts, ao_notify = (\<lambda>e. ''n''), ao_orgID = 1\<rparr>"

definition demo_alerting :: "(nat, nat) alerting" where
  "demo_alerting = \<lparr>al_rows = [\<lparr>alr_rule = demo_rule ''ok'' None, alr_deleted = False\<rparr>], al_history = [], al_security = None,
     al_dispatcher = Some demo_dispatcher, al_world = 0\<rparr>"

definition demo_evaluated :: "(nat, nat) alerting" where
  "demo_evaluated = evaluateRule demo_alert_outside int ''c'' 8 demo_alerting (demo_rule ''ok'' None)"

theorem evaluation_recorded_witness:
  "sends_alert demo_alert_outside int demo_alerting (demo_rule ''ok'' None) \<and>
   (\<exists>h. al_history demo_evaluated = [h] \<and> ah_Status h = ''alert'') \<and>
   map (\<lambda>r. ar_LastAlertedAt (alr_rule r)) (al_rows demo_evaluated) = [Some 5]"
proof -
  have st: "check_status demo_alert_outside (demo_rule ''ok'' None) (al_world demo_alerting) = ''alert''" by code_simp
  have sends: "sends_alert demo_alert_outside int demo_alerting (demo_rule ''ok'' None)"
    unfolding sends_alert_def st by (simp add: status_worth_notifying_def in_cooldown_def demo_rule_def demo_alerting_def)
  show ?thesis
    using evaluation_recorded[of demo_alert_outside int "''c''" 8 demo_alerting "demo_rule ''ok'' None", unfolded Let_def st demo_evaluated_def[symmetric]] sends
    by (auto simp: on_rule_def demo_alerting_def demo_rule_def)
qed

section \<open>Behaviours that contradict the comments\<close>

text \<open>A rule that turns to alert during its cooldown is never sent, not even after the cooldown: the suppressed status is stored,
  and the next evaluations see no change.\<close>

theorem alert_in_cooldown_never_sent:
  assumes s'_def: "s' = evaluateRule ao clk corr newID s rule"
    and "check_status ao rule (al_world s) = ''alert''" "in_cooldown rule (clk 4)"
    and "r \<in> set (al_rows s')" "ar_ID (alr_rule r) = ar_ID rule" "\<not> alr_deleted r" "check_status ao (alr_rule r) (al_world s') = ''alert''"
  shows "al_dispatcher (evaluateRule ao clk' corr' newID' s' (alr_rule r)) = al_dispatcher s"
proof -
  have "\<not> sends_alert ao clk s rule" using assms(3) by (simp add: sends_alert_def)
  with evaluation_effect[of ao clk corr newID s rule] assms(2)
  have one: "al_dispatcher s' = al_dispatcher s"
    and rows: "al_rows s' = on_rule (al_rows s) (ar_ID rule) (\<lambda>a. a\<lparr>ar_LastAlertedAt := ar_LastAlertedAt a,
         ar_LastCheckedAt := Some (clk 7), ar_LastStatus := ''alert'',
         ar_NextRunAt := Some (computeNextRun (ao_next ao) (clk 3) (ar_CronExpression rule)), ar_UpdatedAt := clk 7\<rparr>)"
    by (auto simp: Let_def s'_def)
  have "ar_LastStatus (alr_rule r) = ''alert''" using assms(4-6) unfolding rows by (auto simp: on_rule_def split: if_splits)
  then have "\<not> sends_alert ao clk' s' (alr_rule r)" using assms(7) by (simp add: sends_alert_def status_worth_notifying_def)
  with evaluation_effect[of ao clk' corr' newID' s' "alr_rule r"] one show ?thesis by (simp add: Let_def)
qed

text \<open>The address filter reads the host up to the first colon: user information in front of the real host passes it. The
  URL below addresses the loopback interface.\<close>

theorem userinfo_passes_address_filter:
  "validateCheckURL (ht_resolve demo_http) ''http://example.com:x@127.0.0.1/'' = None \<and>
   validateCheckURL (ht_resolve demo_http) ''http://127.0.0.1/'' = Some LoopbackNotAllowed"
  by code_simp

end
