(* ===== verification/RoleAgents.thy ===== *)
theory RoleAgents
  imports AgentLoop Scheduler
begin

text \<open>
  The agents that execute workflow tasks (\<^verbatim>\<open>orchestrator/factory.go\<close>, \<^verbatim>\<open>role_agent.go\<close>, \<^verbatim>\<open>prompts.go\<close>): for
  each task the factory builds an orchestrator of the agent package with the prompt and the tools of
  the task's role. The security and the approval manager are shared by all agents, so they and the world are the
  state \<open>shared\<close>; everything else of an orchestrator is created anew. The tools of a role are a
  registry of their own; registering a name twice panics, which is \<open>None\<close> here.
\<close>

section \<open>Prompts\<close>

fun join_lines :: "string list \<Rightarrow> string" where
  "join_lines [] = []"
| "join_lines [l] = l"
| "join_lines (l # ls) = l @ CHR 0x0A # join_lines ls"

definition orchestratorSystemPrompt :: string where
  \<open>orchestratorSystemPrompt = join_lines
    [''You are the orchestrator agent within Akili, a security-first autonomous AI operator system for DevOps and SRE.'',
     ''Your role is to coordinate workflow execution: interpret task results, decide next steps, and synthesize final responses.'',
     '''',
     ''Guidelines:'',
     ''- Analyze results from other agents and decide if the workflow goal is met'',
     ''- If additional work is needed, describe what should happen next'',
     ''- Always prioritize safety and security in your decisions'',
     ''- Provide a clear, concise summary when the workflow is complete'']\<close>

definition plannerSystemPrompt :: string where
  \<open>plannerSystemPrompt = join_lines
    [''You are a planning agent within Akili, a security-first autonomous AI operator system for DevOps and SRE.'',
     ''Your role is to decompose a user's goal into a structured plan of sub-tasks.'',
     '''',
     ''Output ONLY a JSON array of task specifications with this schema:'',
     ''['',
     ''  {'',
     ''    "agent_role": "researcher|executor|compliance",'',
     ''    "description": "What this task accomplishes",'',
     ''    "input": "Specific instruction for the agent",'',
     ''    "mode": "sequential",'',
     ''    "depends_on": [],'',
     ''    "priority": 0'',
     ''  }'',
     '']'',
     '''',
     ''Rules:'',
     ''- Prefer read-only research before any writes'',
     ''- Always include a compliance check before destructive operations'',
     ''- Keep task count minimal '' @ [CHR 0xE2, CHR 0x80, CHR 0x94] @ '' prefer fewer, well-scoped tasks'',
     ''- Never exceed 20 sub-tasks in a single plan'',
     ''- Valid agent_role values: researcher, executor, compliance'',
     ''- depends_on contains indices (0-based) into this same array'',
     ''- Lower priority numbers run first'']\<close>

definition researcherSystemPrompt :: string where
  \<open>researcherSystemPrompt = join_lines
    [''You are a research agent within Akili, a security-first autonomous AI operator system for DevOps and SRE.'',
     ''Your role is to gather information using read-only tools. You MUST NOT modify any systems.'',
     '''',
     ''Guidelines:'',
     ''- Use file_read to examine configuration files and logs'',
     ''- Use web_fetch to retrieve documentation or API status pages'',
     ''- Report findings clearly and concisely'',
     ''- Flag any security concerns you discover'',
     ''- Never attempt to modify, write, or execute destructive commands'']\<close>

definition executorSystemPrompt :: string where
  \<open>executorSystemPrompt = join_lines
    [''You are an executor agent within Akili, a security-first autonomous AI operator system for DevOps and SRE.'',
     ''Your role is to execute tool operations as directed by the workflow plan.'',
     '''',
     ''Guidelines:'',
     ''- Execute only the specific operations described in your task instructions'',
     ''- Report tool results accurately including any errors'',
     ''- If a tool execution fails, report the error '' @ [CHR 0xE2, CHR 0x80, CHR 0x94] @ '' do not retry without authorization'',
     ''- All tool calls go through the full security pipeline (RBAC, policies, budget, audit)'',
     ''- Prefer the least-destructive approach when multiple options exist'',
     ''- When autonomous mode is active, proceed with tool execution independently while respecting all policy constraints'']\<close>

definition complianceSystemPrompt :: string where
  \<open>complianceSystemPrompt = join_lines
    [''You are a compliance agent within Akili, a security-first autonomous AI operator system for DevOps and SRE.'',
     ''Your role is to validate that proposed actions are safe and comply with security policies.'',
     '''',
     ''When evaluating a proposed action, respond with a JSON object:'',
     ''{'',
     ''  "approved": true|false,'',
     ''  "reason": "Explanation of your decision",'',
     ''  "risk_level": "low|medium|high|critical",'',
     ''  "recommendations": ["Optional suggestions for safer alternatives"]'',
     ''}'',
     '''',
     ''Guidelines:'',
     ''- Reject any action that could cause data loss without explicit backup confirmation'',
     ''- Reject any action that modifies production systems without proper safeguards'',
     ''- Flag actions that affect multiple systems simultaneously'',
     ''- Prefer read-only alternatives when possible'',
     ''- When in doubt, deny and explain why'']\<close>

definition diagnosticianSystemPrompt :: string where
  \<open>diagnosticianSystemPrompt = join_lines
    [''You are a diagnostician agent within Akili, a security-first autonomous AI operator system for DevOps and SRE.'',
     ''Your role is to investigate task failures and recommend a recovery action.'',
     '''',
     ''You will receive:'',
     ''- The failed task description and input'',
     ''- The error message from the failure'',
     ''- The task's retry count and maximum retries'',
     ''- Context from prior agents in the workflow'',
     '''',
     ''Your job:'',
     ''1. Analyze the error to determine the root cause category:'',
     ''   - Transient (timeout, rate limit, temporary unavailability) -> recommend retry'',
     ''   - Configuration/input error -> recommend escalate (human must fix input)'',
     ''   - Permission/authorization -> recommend escalate (policy change needed)'',
     ''   - Resource not found -> investigate further, then recommend retry or escalate'',
     ''   - Unknown -> gather evidence using available tools, then decide'',
     '''',
     ''2. If you have read-only tools available, use them to gather evidence:'',
     ''   - Check logs for the relevant service'',
     ''   - Check recent changes or deployments'',
     ''   - Check metrics for anomalies'',
     ''   - Check system health'',
     '''',
     ''3. Output ONLY a JSON object with this schema:'',
     ''{'',
     ''  "action": "retry|escalate|skip",'',
     ''  "reason": "Clear explanation of your analysis and why this action was chosen",'',
     ''  "evidence": ["List of evidence gathered"],'',
     ''  "root_cause": "transient|config|permission|resource|unknown",'',
     ''  "confidence": 0.0-1.0'',
     ''}'',
     '''',
     ''Rules:'',
     ''- Never recommend retry if the error is clearly a permanent condition'',
     ''- Never recommend retry if max retries would be exceeded'',
     ''- Default to escalate if confidence < 0.5'',
     ''- Never attempt destructive or mutating actions'',
     ''- You are investigating, not fixing '' @ [CHR 0xE2, CHR 0x80, CHR 0x94] @ '' gather evidence and recommend'',
     ''- Be concise in your evidence: key facts only'']\<close>

definition roleSystemPrompt :: "AgentRole \<Rightarrow> string" where
  "roleSystemPrompt role =
     (if role = RoleOrchestrator then orchestratorSystemPrompt
      else if role = RolePlanner then plannerSystemPrompt
      else if role = RoleResearcher then researcherSystemPrompt
      else if role = RoleExecutor then executorSystemPrompt
      else if role = RoleCompliance then complianceSystemPrompt
      else if role = RoleDiagnostician then diagnosticianSystemPrompt
      else orchestratorSystemPrompt)"

section \<open>The factory\<close>

definition readOnlyTools :: "string list" where
  "readOnlyTools = [''file_read'', ''web_fetch'', ''git_read'', ''browser'']"

record 'w DefaultAgentFactory =
  fa_provider :: "'w \<Rightarrow> Request \<Rightarrow> (string + LLMResponse) \<times> 'w"
  fa_toolReg :: "'w Registry option"
  fa_recoveryAllowedTools :: "string list"

definition WithRecoveryTools :: "'w DefaultAgentFactory \<Rightarrow> string list \<Rightarrow> 'w DefaultAgentFactory" where
  "WithRecoveryTools f toolNames = f\<lparr>fa_recoveryAllowedTools := toolNames\<rparr>"

record 'w shared =
  sh_security :: "SecManager option"
  sh_approvalMgr :: "Manager option"
  sh_world :: 'w

fun register_named :: "'w Registry \<Rightarrow> 'w Registry \<Rightarrow> string list \<Rightarrow> 'w Registry option" where
  "register_named toolReg reg [] = Some reg"
| "register_named toolReg reg (name # names) =
     (case Registry_Get toolReg name of
        None \<Rightarrow> register_named toolReg reg names
      | Some t \<Rightarrow>
          (case Register reg t of
             None \<Rightarrow> None
           | Some reg' \<Rightarrow> register_named toolReg reg' names))"

text \<open>The outer option is the panic, the inner one the nil registry.\<close>

definition toolRegistryForRole :: "'w DefaultAgentFactory \<Rightarrow> AgentRole \<Rightarrow> 'w Registry option option" where
  "toolRegistryForRole f role =
     (case fa_toolReg f of
        None \<Rightarrow> Some None
      | Some toolReg \<Rightarrow>
          if role = RoleExecutor then Some (Some toolReg)
          else if role = RoleResearcher then map_option Some (register_named toolReg [] readOnlyTools)
          else if role = RoleDiagnostician
          then (case register_named toolReg [] readOnlyTools of
                  None \<Rightarrow> None
                | Some reg \<Rightarrow> map_option Some (register_named toolReg reg (fa_recoveryAllowedTools f)))
          else Some None)"

definition NewOrchestrator :: "('w \<Rightarrow> Request \<Rightarrow> (string + LLMResponse) \<times> 'w) \<Rightarrow> string \<Rightarrow> 'w Agent" where
  "NewOrchestrator provider systemPrompt =
     \<lparr>ag_send = provider, ag_rank = (\<lambda>x. x),
      ag_prompt = \<lparr>pc_systemPrompt = systemPrompt, pc_skillSummary = [], pc_skillSummaryMode = [], pc_skillSummaryCompact = [],
        pc_soulContext = [], pc_runbooks = [], pc_runbookMaxN = 0, pc_runbookThreshold = 0, pc_planningEnabled = False\<rparr>,
      ag_summarizeOnTruncate = False, ag_lazyToolLoading = False, ag_maxIterations = 0, ag_maxHistoryMessages = 0,
      ag_maxMessageBytes = 0\<rparr>"

definition factory_Create :: "'w DefaultAgentFactory \<Rightarrow> 'w shared \<Rightarrow> AgentRole \<Rightarrow> ('w Agent \<times> 'w Orchestrator) option" where
  "factory_Create f sh role =
     map_option (\<lambda>reg.
       (NewOrchestrator (fa_provider f) (roleSystemPrompt role),
        \<lparr>o_security = sh_security sh, o_toolRegistry = reg, o_approvalMgr = sh_approvalMgr sh, o_policyEnforcer = None,
         o_autoApprover = None, o_toolCache = None, o_readOnlyTools = [], o_autonomousMode = False, o_convStore = None,
         o_world = sh_world sh\<rparr>)) (toolRegistryForRole f role)"

section \<open>Processing a task\<close>

text \<open>The arrow between the roles is U+2192.\<close>

definition context_line :: "AgentMessage \<Rightarrow> string" where
  "context_line m =
     ''['' @ msg_FromRole m @ '' '' @ [CHR 0xE2, CHR 0x86, CHR 0x92] @ '' '' @ msg_ToRole m @ ''] ('' @ msg_MessageType m @ ''): '' @
     msg_Content m @ [CHR 0x0A, CHR 0x0A]"

definition buildPrompt :: "AgentInput \<Rightarrow> string" where
  "buildPrompt inp =
     (let nl = [CHR 0x0A, CHR 0x0A]
      in (if length (ain_Messages inp) > 0
          then ''## Context from workflow'' @ nl @ concat (map context_line (ain_Messages inp)) @ ''---'' @ nl else []) @
         ''## Task'' @ nl @ ain_Instruction inp)"

definition role_input :: "AgentInput \<Rightarrow> Input" where
  "role_input inp =
     \<lparr>in_UserID = ain_UserID inp, in_Message = buildPrompt inp, in_CorrelationID = ain_CorrelationID inp, in_ConversationID = []\<rparr>"

definition Role_Process ::
  "(nat \<Rightarrow> nat \<Rightarrow> env) \<Rightarrow> (string \<Rightarrow> uuid option) \<Rightarrow> uuid \<Rightarrow> (process_error \<Rightarrow> string) \<Rightarrow> 'w DefaultAgentFactory \<Rightarrow> AgentRole \<Rightarrow>
     'w shared \<Rightarrow> AgentInput \<Rightarrow> ((string + AgentOutput) \<times> 'w shared) option" where
  "Role_Process envs parse newID text f role sh inp =
     (case factory_Create f sh role of
        None \<Rightarrow> None
      | Some (ag, orc) \<Rightarrow>
          (let (r, orc') = Process envs parse newID ag orc (role_input inp);
               sh' = \<lparr>sh_security = o_security orc', sh_approvalMgr = o_approvalMgr orc', sh_world = o_world orc'\<rparr>
           in Some (case r of
                Inl e \<Rightarrow> (Inl (''agent '' @ role @ '' process: '' @ text e), sh')
              | Inr resp \<Rightarrow> (Inr \<lparr>aout_Response = rp_Message resp, aout_TokensUsed = rp_TokensUsed resp, aout_CostUSD = 0\<rparr>, sh'))))"

section \<open>What a role can do\<close>

text \<open>A call of a tool leaves the world as it is or to what one registered tool makes of it.\<close>

lemma checked_execution_world:
  assumes "checked_execution env orc req tool = (r, orc')"
  shows "o_world orc' = o_world orc \<or> o_world orc' = snd (tool_Execute tool (tr_UserID req) (tr_Parameters req) (o_world orc))"
proof (cases "o_security orc")
  case None
  with assms show ?thesis by (auto simp: checked_execution_def executeTool_def Let_def split: prod.splits sum.splits)
next
  case (Some sm)
  from Some assms show ?thesis
  proof (cases rule: checked_execution_cases)
    case (stopped e)
    with runSecurityChecks_spec[OF Some stopped(1)] show ?thesis by simp
  next
    case (run orc1 orc2)
    note c = runSecurityChecks_spec[OF Some run(1)]
    then obtain sm1 where "o_security orc1 = Some sm1" using Some by (auto simp: budget_of_def)
    from executeWithAudit_spec[OF this run(2)] run(3) c show ?thesis by auto
  qed
qed

definition tools_keep :: "('w \<Rightarrow> bool) \<Rightarrow> 'w Registry option \<Rightarrow> bool" where
  "tools_keep P reg \<longleftrightarrow>
     (\<forall>rg name t u ps w. reg = Some rg \<longrightarrow> Registry_Get rg name = Some t \<longrightarrow> P w \<longrightarrow> P (snd (tool_Execute t u ps w)))"

lemma ExecuteTool_keeps:
  assumes "ExecuteTool env orc req = (r, orc')" "tools_keep P (o_toolRegistry orc)" "P (o_world orc)"
  shows "P (o_world orc') \<and> o_toolRegistry orc' = o_toolRegistry orc"
proof -
  have reg: "o_toolRegistry orc' = o_toolRegistry orc" using ExecuteTool_frame[OF assms(1)] by blast
  from assms(1) have "P (o_world orc')"
  proof (cases rule: ExecuteTool_cases)
    case (checked reg tool)
    from checked_execution_world[OF checked(5)] checked(1,2) assms(2,3) show ?thesis
      by (auto simp: tools_keep_def)
  qed (use assms(3) in auto)
  with reg show ?thesis by simp
qed

lemma executeToolCalls_keeps:
  "executeToolCalls envs inp orc blocks = (bs, rs, as, orc') \<Longrightarrow> tools_keep P (o_toolRegistry orc) \<Longrightarrow> P (o_world orc) \<Longrightarrow>
     P (o_world orc') \<and> o_toolRegistry orc' = o_toolRegistry orc"
proof (induction blocks arbitrary: envs orc bs rs as)
  case (Cons block blocks)
  obtain r orc1 where e: "ExecuteTool (envs 0) orc (tool_request inp block) = (r, orc1)" by fastforce
  obtain bs' rs' as' orc2 where es: "executeToolCalls (\<lambda>j. envs (Suc j)) inp orc1 blocks = (bs', rs', as', orc2)" by (metis prod_cases4)
  note k = ExecuteTool_keeps[OF e Cons.prems(2,3)]
  have "orc' = orc2" using Cons.prems(1) e es by (auto split: sum.splits exec_error.splits)
  with es have "executeToolCalls (\<lambda>j. envs (Suc j)) inp orc1 blocks = (bs', rs', as', orc')" by simp
  from Cons.IH[OF this] k Cons.prems(2) show ?case by simp
qed simp

lemma process_loop_keeps:
  assumes "\<And>w req. P w \<Longrightarrow> P (snd (ag_send ag w req))"
  shows "process_loop envs ag inp prompt k orc lp = (r, final, orc') \<Longrightarrow> tools_keep P (o_toolRegistry orc) \<Longrightarrow> P (o_world orc) \<Longrightarrow>
     P (o_world orc')"
proof (induction k arbitrary: envs orc lp)
  case (Suc k)
  obtain x w where send: "ag_send ag (o_world orc) \<lparr>rq_SystemPrompt = prompt, rq_Messages = lp_history lp, rq_MaxTokens = 0,
      rq_Tools = lp_toolDefs lp\<rparr> = (x, w)" by fastforce
  have w: "P w" using assms[OF Suc.prems(3)] send by (metis snd_conv)
  show ?case
  proof (cases "\<exists>resp. x = Inr resp \<and> HasToolUse resp")
    case True
    then obtain resp where resp: "x = Inr resp" "HasToolUse resp" by blast
    obtain bs rs as orc2 where ex: "executeToolCalls (envs 0) inp (orc\<lparr>o_world := w\<rparr>) (ToolUseBlocks resp) = (bs, rs, as, orc2)"
      by (metis prod_cases4)
    have k: "P (o_world orc2)" "tools_keep P (o_toolRegistry orc2)"
      using executeToolCalls_keeps[OF ex, of P] Suc.prems(2) w by simp_all
    from Suc.prems(1) send resp ex consider "orc' = orc2"
      | lp' where "process_loop (\<lambda>i. envs (Suc i)) ag inp prompt k orc2 lp' = (r, final, orc')"
      by (auto simp: Let_def split: if_splits)
    then show ?thesis using k Suc.IH by cases auto
  next
    case False
    with Suc.prems(1) send w show ?thesis by (auto split: sum.splits)
  qed
qed simp

lemma Process_keeps:
  assumes send: "\<And>w req. P w \<Longrightarrow> P (snd (ag_send ag w req))"
    and p: "Process envs parse newID ag orc inp = (r, orc')" and t: "tools_keep P (o_toolRegistry orc)" and w: "P (o_world orc)"
  shows "P (o_world orc')"
proof -
  obtain persistent convID loaded orc1 where l: "load_conversation ag parse newID orc inp = (persistent, convID, loaded, orc1)"
    by (metis prod_cases4)
  have l1: "o_world orc1 = o_world orc" "o_toolRegistry orc1 = o_toolRegistry orc"
    using l by (auto simp: load_conversation_def Let_def split: option.splits if_splits prod.splits sum.splits)
  obtain history start w1 where h: "trim_history ag (o_world orc1) (loaded @ [user_message ag inp]) (int (length loaded)) = (history, start, w1)"
    by (metis prod_cases3)
  have "P (snd (summarizeHistory (ag_send ag) (o_world orc) h mx))" for h mx
    using w send by (auto simp: summarizeHistory_def Let_def split: prod.splits sum.splits) (metis snd_conv)+
  then have w1: "P w1" using h l1 w by (auto simp: trim_history_def Let_def split: prod.splits if_splits) (metis snd_conv)+
  obtain defs lazy where it: "initial_tools ag orc1 (in_Message inp) = (defs, lazy)" by fastforce
  let ?k = "if ag_maxIterations ag \<le> 0 then DefaultMaxIterations else nat (ag_maxIterations ag)"
  let ?lp = "\<lparr>lp_history = history, lp_toolDefs = defs, lp_lazy = lazy, lp_tokens = 0, lp_results = [], lp_approvals = []\<rparr>"
  obtain r2 final orc2 where pl: "process_loop envs ag inp (buildSystemPrompt (ag_rank ag) (ag_prompt ag) (in_Message inp)) ?k
      (orc1\<lparr>o_world := w1\<rparr>) ?lp = (r2, final, orc2)" by (metis prod_cases3)
  have "orc' = orc2 \<or> (\<exists>b c m. orc' = persistNewMessages orc2 b c m)"
    using p l h it pl by (auto simp: Process_def Let_def split: option.splits)
  moreover from process_loop_keeps[of P, OF send pl] l1 t w1 have "P (o_world orc2)" by simp
  ultimately show ?thesis by (auto simp: persistNewMessages_def)
qed

text \<open>What a role may use: everything for the executor, the read-only tools for the researcher, those and the recovery tools for
  the diagnostician, nothing for the others.\<close>

definition permitted :: "'w DefaultAgentFactory \<Rightarrow> AgentRole \<Rightarrow> string \<Rightarrow> bool" where
  "permitted f role name \<longleftrightarrow>
     role = RoleExecutor \<or>
     role \<in> {RoleResearcher, RoleDiagnostician} \<and> name \<in> {''file_read'', ''web_fetch'', ''git_read'', ''browser''} \<or>
     role = RoleDiagnostician \<and> name \<in> set (fa_recoveryAllowedTools f)"

lemma register_named_from:
  "register_named toolReg reg names = Some reg' \<Longrightarrow> Registry_Get reg' n = Some t \<Longrightarrow>
     Registry_Get reg n = Some t \<or> (\<exists>name \<in> set names. Registry_Get toolReg name = Some t)"
proof (induction names arbitrary: reg)
  case (Cons name names)
  show ?case
  proof (cases "Registry_Get toolReg name")
    case None
    with Cons show ?thesis by auto
  next
    case (Some u)
    with Cons.prems obtain reg1 where r: "Register reg u = Some reg1" "register_named toolReg reg1 names = Some reg'"
      by (auto split: option.splits)
    from Cons.IH[OF r(2) Cons.prems(2)] Register_Get[OF r(1), of n] Some show ?thesis by (auto split: if_splits)
  qed
qed simp

lemma role_registry_permitted:
  assumes "toolRegistryForRole f role = Some (Some reg)" "Registry_Get reg n = Some t"
  shows "\<exists>toolReg name. fa_toolReg f = Some toolReg \<and> Registry_Get toolReg name = Some t \<and> permitted f role name"
proof -
  obtain toolReg where reg: "fa_toolReg f = Some toolReg" using assms(1) by (auto simp: toolRegistryForRole_def split: option.splits)
  consider "role = RoleExecutor" "reg = toolReg"
    | "role = RoleResearcher" "register_named toolReg [] readOnlyTools = Some reg"
    | rg where "role = RoleDiagnostician" "register_named toolReg [] readOnlyTools = Some rg"
        "register_named toolReg rg (fa_recoveryAllowedTools f) = Some reg"
    using assms(1) reg by (auto simp: toolRegistryForRole_def split: if_splits option.splits)
  then show ?thesis
  proof cases
    case 1
    with reg assms(2) show ?thesis by (auto simp: permitted_def)
  next
    case 2
    from register_named_from[OF 2(2) assms(2)] 2(1) reg show ?thesis by (auto simp: permitted_def readOnlyTools_def Registry_Get_def)
  next
    case 3
    from register_named_from[OF 3(3) assms(2)] register_named_from[OF 3(2), of n t] 3(1) reg show ?thesis
      by (auto simp: permitted_def readOnlyTools_def Registry_Get_def)
  qed
qed

text \<open>
  (C8) Least privilege of workflow agents: whatever the model answers, processing a task keeps every
  property of the world that the model's calls and the tools permitted to the task's role keep. A planner,
  a compliance agent or an agent of an unknown role thus changes nothing through tools.
\<close>

theorem role_agent_confined:
  assumes "Role_Process envs parse newID text f role sh inp = Some (r, sh')" and "P (sh_world sh)"
    and "\<forall>w req. P w \<longrightarrow> P (snd (fa_provider f w req))"
    and "\<forall>toolReg name t u ps w. fa_toolReg f = Some toolReg \<and> Registry_Get toolReg name = Some t \<and> permitted f role name \<and> P w \<longrightarrow>
           P (snd (tool_Execute t u ps w))"
  shows "P (sh_world sh')"
proof -
  obtain ag orc where c: "factory_Create f sh role = Some (ag, orc)" using assms(1) by (auto simp: Role_Process_def split: option.splits)
  then have ag: "ag_send ag = fa_provider f" "o_world orc = sh_world sh" "toolRegistryForRole f role = Some (o_toolRegistry orc)"
    by (auto simp: factory_Create_def NewOrchestrator_def)
  obtain r2 orc' where p: "Process envs parse newID ag orc (role_input inp) = (r2, orc')" by fastforce
  have "tools_keep P (o_toolRegistry orc)"
    unfolding tools_keep_def using role_registry_permitted[of f role] ag(3) assms(4) by metis
  from Process_keeps[OF _ p this, of] assms(2,3) ag have "P (o_world orc')" by simp
  moreover have "sh_world sh' = o_world orc'" using assms(1) c p by (auto simp: Role_Process_def Let_def split: sum.splits)
  ultimately show ?thesis by simp
qed

text \<open>An example: the world counts writes, the only tool writes, and the model asks for it. The researcher's
  registry does not have the tool.\<close>

definition demo_writer :: "nat Tool" where
  "demo_writer = \<lparr>tool_Name = ''file_write'', tool_Description = [], tool_InputSchema = [],
     tool_RequiredAction = \<lparr>act_Name = ''w'', act_RiskLevel = RiskLow\<rparr>, tool_EstimateCost = (\<lambda>ps. 0), tool_Validate = (\<lambda>ps. None),
     tool_Execute = (\<lambda>u ps w. (Inr \<lparr>rs_Output = [], rs_Metadata = [], rs_Success = True\<rparr>, Suc w))\<rparr>"

definition demo_factory :: "nat DefaultAgentFactory" where
  "demo_factory = \<lparr>fa_provider = (\<lambda>w req. (Inr \<lparr>lr_Content = [], lr_ContentBlocks = [ToolUseBlock ''1'' ''file_write'' []],
       lr_InputTokens = 1, lr_OutputTokens = 1, lr_StopReason = ''tool_use''\<rparr>, w)),
     fa_toolReg = Some [(''file_write'', demo_writer)], fa_recoveryAllowedTools = []\<rparr>"

definition demo_role_env :: "nat \<Rightarrow> nat \<Rightarrow> env" where
  "demo_role_env i j = \<lparr>env_now = 0, env_end = 0, env_idr = None, env_codec = \<lparr>digest = (\<lambda>x. x), marshal = (\<lambda>ps. [])\<rparr>,
     env_text = (\<lambda>e. []), env_parse = (\<lambda>x. None)\<rparr>"

definition demo_role_run :: "AgentRole \<Rightarrow> ((string + AgentOutput) \<times> nat shared) option" where
  "demo_role_run role = Role_Process demo_role_env (\<lambda>x. None) 0 (\<lambda>e. []) demo_factory role \<lparr>sh_security = None, sh_approvalMgr = None, sh_world = 0\<rparr>
     \<lparr>ain_WorkflowID = 1, ain_TaskID = 1, ain_UserID = ''u'', ain_CorrelationID = ''c'', ain_Messages = [], ain_Instruction = ''go''\<rparr>"

theorem role_agent_confined_witness:
  "\<exists>r sh'. demo_role_run RoleResearcher = Some (r, sh') \<and> sh_world sh' = 0"
proof -
  have "toolRegistryForRole demo_factory RoleResearcher = Some (Some [])"
    by (simp add: toolRegistryForRole_def demo_factory_def readOnlyTools_def Registry_Get_def)
  then have "demo_role_run RoleResearcher \<noteq> None"
    by (simp add: demo_role_run_def Role_Process_def factory_Create_def Let_def split: prod.split)
  then obtain r sh' where d: "demo_role_run RoleResearcher = Some (r, sh')" by fastforce
  from role_agent_confined[OF d[unfolded demo_role_run_def], of "\<lambda>w. w = 0"] have "sh_world sh' = 0"
    by (auto simp: demo_factory_def permitted_def Registry_Get_def split: if_splits)
  with d show ?thesis by blast
qed

section \<open>Behaviours that contradict the configuration\<close>

text \<open>The output of a role agent carries no cost, whatever its tools cost: the budget of a workflow is never used up.\<close>

theorem role_agent_reports_no_cost:
  assumes "Role_Process envs parse newID text f role sh inp = Some (Inr out, sh')"
  shows "aout_CostUSD out = 0"
  using assms by (auto simp: Role_Process_def Let_def split: option.splits prod.splits sum.splits)

text \<open>The agents of a workflow have no policy enforcer: every tool passes the policy check.\<close>

theorem role_agent_without_policy:
  assumes "factory_Create f sh role = Some (ag, orc)"
  shows "policy_check orc req = None"
  using assms by (auto simp: factory_Create_def policy_check_def)

text \<open>A recovery tool that is a read-only tool already is registered twice, which panics.\<close>

theorem repeated_recovery_tool_panics:
  "toolRegistryForRole \<lparr>fa_provider = provider, fa_toolReg = Some [(''file_read'', t\<lparr>tool_Name := ''file_read''\<rparr>)],
     fa_recoveryAllowedTools = [''file_read'']\<rparr> RoleDiagnostician = None"
  by (simp add: toolRegistryForRole_def readOnlyTools_def Registry_Get_def Register_def)

end
