(* ===== verification/ToolParams.thy ===== *)
theory ToolParams
  imports Tools
begin

text \<open>
  The parameters of a tool call: \<^verbatim>\<open>requireString\<close>, which every tool package declares for itself with the same body
  (\<^verbatim>\<open>tools/*/*.go\<close>), and the type assertions the tools make on optional parameters.
\<close>

datatype param_error =
    MissingParameter string
  | ParameterNotString string any
  | ParameterEmpty string

definition requireString :: "params \<Rightarrow> string \<Rightarrow> param_error + string" where
  "requireString ps key =
     (case map_of ps key of
        None \<Rightarrow> Inl (MissingParameter key)
      | Some v \<Rightarrow>
          (case v of
             AStr s \<Rightarrow> if s = '''' then Inl (ParameterEmpty key) else Inr s
           | _ \<Rightarrow> Inl (ParameterNotString key v)))"

text \<open>The value that is left when the error is ignored (\<^verbatim>\<open>path, _ := requireString(...)\<close>).\<close>

definition string_or_empty :: "param_error + string \<Rightarrow> string" where
  "string_or_empty r = (case r of Inl e \<Rightarrow> '''' | Inr s \<Rightarrow> s)"


text \<open>\<^verbatim>\<open>s, _ := params[key].(string)\<close> and the pattern \<^verbatim>\<open>if v, ok := params[key].(string); ok && v != ""\<close> with a default.\<close>

definition param_string :: "params \<Rightarrow> string \<Rightarrow> string" where
  "param_string ps key = (case map_of ps key of Some (AStr s) \<Rightarrow> s | _ \<Rightarrow> '''')"

definition param_or :: "params \<Rightarrow> string \<Rightarrow> string \<Rightarrow> string" where
  "param_or ps key def = (if param_string ps key \<noteq> '''' then param_string ps key else def)"

fun strings_of :: "any list \<Rightarrow> string list" where
  "strings_of [] = []"
| "strings_of (AStr s # xs) = s # strings_of xs"
| "strings_of (x # xs) = strings_of xs"

text \<open>\<^verbatim>\<open>strings.ToUpper\<close> on ASCII.\<close>

definition ToUpper :: "string \<Rightarrow> string" where
  "ToUpper s = map (\<lambda>c. if of_char c \<ge> (97::nat) \<and> of_char c \<le> (122::nat) then char_of (of_char c - 32 :: nat) else c) s"

end
