(* ===== verification/FileTool.thy ===== *)
theory FileTool
  imports ToolParams "HOL-Library.AList" "HOL-Library.Sublist" "HOL-Library.Char_ord" "HOL-Library.List_Lexorder"
begin

text \<open>
  The file tools (\<^verbatim>\<open>tools/file/file.go\<close>): \<^verbatim>\<open>file_read\<close> and \<^verbatim>\<open>file_write\<close> with the path check \<^verbatim>\<open>safePath\<close>,
  on a file system with symbolic links.

  A path is the list of its components from the root; \<open>render\<close> is its text. The file system is an association list of
  nodes. \<open>walk\<close> is the resolution of a path that both \<^verbatim>\<open>filepath.EvalSymlinks\<close> (at most 255 links) and
  the kernel (at most 40) perform; opening for writing with \<^verbatim>\<open>O_CREATE\<close> creates a missing last component, also one a
  link points to. Permissions are not modelled: the operating system grants every access. The file system does not change
  between the check and the access. The texts of errors and the file modes are parameters (\<open>file_env\<close>).
\<close>

section \<open>Paths and file systems\<close>

type_synonym path = "string list"

datatype node = NFile string | NDir | NLink string

type_synonym filesystem = "(path \<times> node) list"

fun split_slash :: "string \<Rightarrow> string \<Rightarrow> string list" where
  "split_slash acc [] = [acc]"
| "split_slash acc (c # s) = (if c = CHR ''/'' then acc # split_slash [] s else split_slash (acc @ [c]) s)"

definition components :: "string \<Rightarrow> string list" where
  "components s = filter (\<lambda>c. c \<noteq> '''' \<and> c \<noteq> ''.'') (split_slash [] s)"

definition rooted :: "string \<Rightarrow> bool" where
  "rooted s \<longleftrightarrow> HasPrefix s ''/''"

fun clean_from :: "path \<Rightarrow> string list \<Rightarrow> path" where
  "clean_from acc [] = acc"
| "clean_from acc (c # cs) = clean_from (if c = ''..'' then butlast acc else acc @ [c]) cs"

fun render_comps :: "path \<Rightarrow> string" where
  "render_comps [] = []"
| "render_comps (c # p) = CHR ''/'' # c @ render_comps p"

definition render :: "path \<Rightarrow> string" where
  "render p = (if p = [] then ''/'' else render_comps p)"

function walk :: "filesystem \<Rightarrow> bool \<Rightarrow> nat \<Rightarrow> path \<Rightarrow> string list \<Rightarrow> path option" where
  "walk fs create n cur [] = Some cur"
| "walk fs create n cur (c # cs) =
     (if c = ''..'' then walk fs create n (butlast cur) cs
      else case map_of fs (cur @ [c]) of
             None \<Rightarrow> if create \<and> cs = [] then Some (cur @ [c]) else None
           | Some NDir \<Rightarrow> walk fs create n (cur @ [c]) cs
           | Some (NFile d) \<Rightarrow> if cs = [] then Some (cur @ [c]) else None
           | Some (NLink t) \<Rightarrow>
               (case n of
                  0 \<Rightarrow> None
                | Suc m \<Rightarrow> walk fs create m (if rooted t then [] else cur) (components t @ cs)))"
  by pat_completeness auto
termination
  by (relation "measures [\<lambda>(fs, create, n, cur, cs). n, \<lambda>(fs, create, n, cur, cs). length cs]") auto

definition EvalSymlinks :: "filesystem \<Rightarrow> path \<Rightarrow> path option" where
  "EvalSymlinks fs p = walk fs False 255 [] p"

definition open_path :: "filesystem \<Rightarrow> bool \<Rightarrow> path \<Rightarrow> path option" where
  "open_path fs create p = walk fs create 40 [] p"

definition Stat :: "filesystem \<Rightarrow> path \<Rightarrow> node option" where
  "Stat fs p = Option.bind (open_path fs False p) (map_of fs)"

definition children :: "filesystem \<Rightarrow> path \<Rightarrow> string list" where
  "children fs p = sort (remdups (map last (filter (\<lambda>q. q \<noteq> [] \<and> butlast q = p) (map fst fs))))"

section \<open>Parameters and errors\<close>

datatype file_error =
    ParameterError param_error
  | BadOperation string
  | EmptyPath
  | ResolvingPath
  | ParentInvalid
  | OutsideAllowed string string
  | StatFailed path
  | IsDirectory path
  | FileTooLarge int int
  | ListingFailed path
  | CreatingParent path
  | WritingFailed path
  | ContentTooLarge int int

record file_env =
  fe_cwd :: "path option"
  fe_text :: "file_error \<Rightarrow> string"
  fe_info :: "path \<Rightarrow> (string \<times> int) option"

record FileConfig =
  fc_AllowedPaths :: "string list"
  fc_MaxFileSizeBytes :: int

definition maxSize :: "FileConfig \<Rightarrow> int" where
  "maxSize cfg = (if fc_MaxFileSizeBytes cfg > 0 then fc_MaxFileSizeBytes cfg else 10485760)"

section \<open>The path check\<close>

definition Abs :: "file_env \<Rightarrow> string \<Rightarrow> path option" where
  "Abs env raw =
     (if rooted raw then Some (clean_from [] (components raw))
      else map_option (\<lambda>cwd. clean_from cwd (components raw)) (fe_cwd env))"

definition within_prefix :: "file_env \<Rightarrow> path \<Rightarrow> string \<Rightarrow> bool" where
  "within_prefix env resolved pre =
     (case Abs env pre of
        None \<Rightarrow> False
      | Some absPrefix \<Rightarrow> HasPrefix (render resolved) (render absPrefix @ ''/'') \<or> render resolved = render absPrefix)"

definition resolve_path :: "filesystem \<Rightarrow> path \<Rightarrow> path option" where
  "resolve_path fs p =
     (case EvalSymlinks fs p of
        Some r \<Rightarrow> Some r
      | None \<Rightarrow> map_option (\<lambda>parent. parent @ [last p]) (EvalSymlinks fs (butlast p)))"

definition safePath :: "file_env \<Rightarrow> filesystem \<Rightarrow> string \<Rightarrow> string list \<Rightarrow> file_error + path" where
  "safePath env fs raw allowed =
     (if raw = '''' then Inl EmptyPath
      else case Abs env raw of
             None \<Rightarrow> Inl ResolvingPath
           | Some p \<Rightarrow>
               (case resolve_path fs p of
                  None \<Rightarrow> Inl ParentInvalid
                | Some resolved \<Rightarrow>
                    if \<exists>pre \<in> set allowed. within_prefix env resolved pre then Inr resolved
                    else Inl (OutsideAllowed raw (render resolved))))"

section \<open>Reading\<close>

definition file_operation :: "params \<Rightarrow> string" where
  "file_operation ps = (case map_of ps ''operation'' of Some (AStr v) \<Rightarrow> if v \<noteq> '''' then v else ''read'' | _ \<Rightarrow> ''read'')"

definition Read_Validate :: "file_env \<Rightarrow> FileConfig \<Rightarrow> filesystem \<Rightarrow> params \<Rightarrow> file_error option" where
  "Read_Validate env cfg fs ps =
     (case requireString ps ''path'' of
        Inl e \<Rightarrow> Some (ParameterError e)
      | Inr p \<Rightarrow>
          if file_operation ps \<noteq> ''read'' \<and> file_operation ps \<noteq> ''list'' then Some (BadOperation (file_operation ps))
          else (case safePath env fs p (fc_AllowedPaths cfg) of Inl e \<Rightarrow> Some e | Inr r \<Rightarrow> None))"

definition readFile :: "FileConfig \<Rightarrow> filesystem \<Rightarrow> path \<Rightarrow> file_error + Result" where
  "readFile cfg fs p =
     (case Stat fs p of
        Some NDir \<Rightarrow> Inl (IsDirectory p)
      | Some (NFile content) \<Rightarrow>
          if int (length content) > maxSize cfg then Inl (FileTooLarge (int (length content)) (maxSize cfg))
          else Inr \<lparr>rs_Output = TruncateOutput content MaxOutputBytes,
                    rs_Metadata = [(''path'', AStr (render p)), (''size_bytes'', ANum (of_nat (length content)))], rs_Success = True\<rparr>
      | _ \<Rightarrow> Inl (StatFailed p))"

definition pad8 :: "int \<Rightarrow> string" where
  "pad8 n = replicate (8 - length (int_str n)) CHR '' '' @ int_str n"

definition dir_line :: "file_env \<Rightarrow> path \<Rightarrow> string \<Rightarrow> string" where
  "dir_line env p name =
     (let (mode, size) = (case fe_info env (p @ [name]) of None \<Rightarrow> (''-'', 0) | Some i \<Rightarrow> i)
      in mode @ '' '' @ pad8 size @ '' '' @ name @ [CHR 0x0A])"

definition listDir :: "file_env \<Rightarrow> filesystem \<Rightarrow> path \<Rightarrow> file_error + Result" where
  "listDir env fs p =
     (case open_path fs False p of
        None \<Rightarrow> Inl (ListingFailed p)
      | Some q \<Rightarrow>
          if map_of fs q \<noteq> Some NDir then Inl (ListingFailed p)
          else Inr \<lparr>rs_Output = TruncateOutput (concat (map (dir_line env q) (children fs q))) MaxOutputBytes,
                    rs_Metadata = [(''path'', AStr (render p)), (''count'', ANum (of_nat (length (children fs q))))], rs_Success = True\<rparr>)"

definition Read_Execute :: "file_env \<Rightarrow> FileConfig \<Rightarrow> filesystem \<Rightarrow> params \<Rightarrow> file_error + Result" where
  "Read_Execute env cfg fs ps =
     (case safePath env fs (string_or_empty (requireString ps ''path'')) (fc_AllowedPaths cfg) of
        Inl e \<Rightarrow> Inl e
      | Inr resolved \<Rightarrow> if file_operation ps = ''list'' then listDir env fs resolved else readFile cfg fs resolved)"

section \<open>Writing\<close>

definition Write_Validate :: "file_env \<Rightarrow> FileConfig \<Rightarrow> filesystem \<Rightarrow> params \<Rightarrow> file_error option" where
  "Write_Validate env cfg fs ps =
     (case requireString ps ''path'' of
        Inl e \<Rightarrow> Some (ParameterError e)
      | Inr p \<Rightarrow>
          (case requireString ps ''content'' of
             Inl e \<Rightarrow> Some (ParameterError e)
           | Inr content \<Rightarrow>
               if int (length content) > maxSize cfg then Some (ContentTooLarge (int (length content)) (maxSize cfg))
               else (case safePath env fs p (fc_AllowedPaths cfg) of Inl e \<Rightarrow> Some e | Inr r \<Rightarrow> None)))"

text \<open>The flag says whether the call succeeded.\<close>

function MkdirAll :: "filesystem \<Rightarrow> path \<Rightarrow> bool \<times> filesystem" where
  "MkdirAll fs p =
     (case Stat fs p of
        Some NDir \<Rightarrow> (True, fs)
      | Some n \<Rightarrow> (False, fs)
      | None \<Rightarrow>
          if p = [] then (False, fs)
          else (case MkdirAll fs (butlast p) of
                  (False, fs') \<Rightarrow> (False, fs')
                | (True, fs') \<Rightarrow>
                    (case open_path fs' False (butlast p) of
                       None \<Rightarrow> (False, fs')
                     | Some parent \<Rightarrow>
                         if map_of fs' (parent @ [last p]) \<noteq> None then (False, fs')
                         else (True, AList.update (parent @ [last p]) NDir fs'))))"
  by pat_completeness auto
termination
  by (relation "measure (\<lambda>(fs, p). length p)") auto

declare MkdirAll.simps [simp del]

definition WriteFile :: "filesystem \<Rightarrow> path \<Rightarrow> string \<Rightarrow> filesystem option" where
  "WriteFile fs p content =
     (case open_path fs True p of
        None \<Rightarrow> None
      | Some q \<Rightarrow> if map_of fs q = Some NDir then None else Some (AList.update q (NFile content) fs))"

definition Write_Execute :: "file_env \<Rightarrow> FileConfig \<Rightarrow> filesystem \<Rightarrow> params \<Rightarrow> (file_error + Result) \<times> filesystem" where
  "Write_Execute env cfg fs ps =
     (let content = string_or_empty (requireString ps ''content'')
      in case safePath env fs (string_or_empty (requireString ps ''path'')) (fc_AllowedPaths cfg) of
           Inl e \<Rightarrow> (Inl e, fs)
         | Inr resolved \<Rightarrow>
             (case MkdirAll fs (butlast resolved) of
                (False, fs1) \<Rightarrow> (Inl (CreatingParent resolved), fs1)
              | (True, fs1) \<Rightarrow>
                  (case WriteFile fs1 resolved content of
                     None \<Rightarrow> (Inl (WritingFailed resolved), fs1)
                   | Some fs2 \<Rightarrow>
                       (Inr \<lparr>rs_Output = ''wrote '' @ nat_str (length content) @ '' bytes to '' @ render resolved,
                             rs_Metadata = [(''path'', AStr (render resolved)), (''size_bytes'', ANum (of_nat (length content)))],
                             rs_Success = True\<rparr>, fs2))))"

section \<open>Components\<close>

definition comp_ok :: "string \<Rightarrow> bool" where
  "comp_ok c \<longleftrightarrow> c \<noteq> '''' \<and> CHR ''/'' \<notin> set c \<and> c \<noteq> ''..''"

lemma split_slash_free: "CHR ''/'' \<notin> set acc \<Longrightarrow> c \<in> set (split_slash acc s) \<Longrightarrow> CHR ''/'' \<notin> set c"
  by (induction acc s rule: split_slash.induct) (auto split: if_splits)

lemma components_ok: "c \<in> set (components s) \<Longrightarrow> c \<noteq> ''..'' \<Longrightarrow> comp_ok c"
  by (auto simp: components_def comp_ok_def dest: split_slash_free[rotated])

lemma clean_from_ok:
  "(\<And>c. c \<in> set acc \<Longrightarrow> comp_ok c) \<Longrightarrow> (\<And>c. c \<in> set cs \<Longrightarrow> c \<noteq> ''..'' \<Longrightarrow> comp_ok c) \<Longrightarrow> c \<in> set (clean_from acc cs) \<Longrightarrow> comp_ok c"
  by (induction acc cs rule: clean_from.induct) (auto split: if_splits dest: in_set_butlastD)

definition env_ok :: "file_env \<Rightarrow> bool" where
  "env_ok env \<longleftrightarrow> (\<forall>cwd. fe_cwd env = Some cwd \<longrightarrow> list_all comp_ok cwd)"

lemma Abs_ok: "env_ok env \<Longrightarrow> Abs env s = Some p \<Longrightarrow> list_all comp_ok p"
  unfolding list_all_iff
proof
  fix c assume env: "env_ok env" and p: "Abs env s = Some p" and c: "c \<in> set p"
  obtain cwd where cwd: "p = clean_from cwd (components s)" "list_all comp_ok cwd"
    using env p by (auto simp: Abs_def env_ok_def split: if_splits)
  from clean_from_ok[of cwd "components s" c] cwd c components_ok show "comp_ok c" by (auto simp: list_all_iff)
qed

text \<open>Rendering is injective on directory boundaries.\<close>

lemma slash_free_eq:
  assumes "CHR ''/'' \<notin> set (c :: string)" "CHR ''/'' \<notin> set b" "c @ r = b @ s" "r = [] \<or> hd r = CHR ''/''" "s = [] \<or> hd s = CHR ''/''"
  shows "c = b \<and> r = s"
proof -
  have t: "takeWhile (\<lambda>x. x \<noteq> CHR ''/'') (u @ v) = u" if "CHR ''/'' \<notin> set u" "v = [] \<or> hd v = CHR ''/''" for u v :: string
  proof -
    have "takeWhile (\<lambda>x. x \<noteq> CHR ''/'') (u @ v) = u @ takeWhile (\<lambda>x. x \<noteq> CHR ''/'') v" using that(1) by (intro takeWhile_append2) auto
    also have "takeWhile (\<lambda>x. x \<noteq> CHR ''/'') v = []" using that(2) by (cases v) auto
    finally show ?thesis by simp
  qed
  have "c = b" using t[OF assms(1,4)] t[OF assms(2,5)] assms(3) by metis
  with assms(3) show ?thesis by simp
qed

lemma render_comps_hd: "render_comps p = [] \<or> hd (render_comps p) = CHR ''/''"
  by (cases p) auto

lemma render_comps_prefix:
  "list_all comp_ok p \<Longrightarrow> list_all comp_ok a \<Longrightarrow> render_comps p = render_comps a @ CHR ''/'' # t \<Longrightarrow> strict_prefix a p"
proof (induction a arbitrary: p)
  case Nil
  then show ?case by (cases p) auto
next
  case (Cons b a)
  from Cons.prems(3) obtain c p' where p: "p = c # p'" by (cases p) auto
  have "c = b \<and> render_comps p' = render_comps a @ CHR ''/'' # t"
  proof (rule slash_free_eq)
    show "render_comps a @ CHR ''/'' # t = [] \<or> hd (render_comps a @ CHR ''/'' # t) = CHR ''/''"
      using render_comps_hd[of a] by (cases "render_comps a") auto
  qed (use Cons.prems p render_comps_hd in \<open>auto simp: comp_ok_def\<close>)
  with Cons.IH[of p'] Cons.prems p show ?case by simp
qed

lemma render_comps_inj: "list_all comp_ok p \<Longrightarrow> list_all comp_ok a \<Longrightarrow> render_comps p = render_comps a \<Longrightarrow> p = a"
proof (induction a arbitrary: p)
  case Nil
  then show ?case by (cases p) auto
next
  case (Cons b a)
  from Cons.prems(3) obtain c p' where p: "p = c # p'" by (cases p) auto
  have "c = b \<and> render_comps p' = render_comps a"
    by (rule slash_free_eq) (use Cons.prems p render_comps_hd in \<open>auto simp: comp_ok_def\<close>)
  with Cons.IH[of p'] Cons.prems p show ?case by simp
qed

lemma render_not_double: "list_all comp_ok p \<Longrightarrow> render p \<noteq> CHR ''/'' # CHR ''/'' # t"
  by (cases p) (auto simp: render_def comp_ok_def neq_Nil_conv)

lemma render_inj: "list_all comp_ok p \<Longrightarrow> list_all comp_ok a \<Longrightarrow> render p = render a \<Longrightarrow> p = a"
proof (cases "p = [] \<or> a = []")
  case True
  assume "list_all comp_ok p" "list_all comp_ok a" "render p = render a"
  with True show ?thesis by (cases p; cases a) (auto simp: render_def comp_ok_def)
next
  case False
  assume "list_all comp_ok p" "list_all comp_ok a" "render p = render a"
  with False render_comps_inj show ?thesis by (auto simp: render_def)
qed

lemma within_prefix_sound:
  assumes "env_ok env" "list_all comp_ok p" "within_prefix env p pre"
  shows "\<exists>a. Abs env pre = Some a \<and> prefix a p"
proof -
  obtain a where a: "Abs env pre = Some a" "HasPrefix (render p) (render a @ ''/'') \<or> render p = render a"
    using assms(3) by (auto simp: within_prefix_def split: option.splits)
  note ok = Abs_ok[OF assms(1) a(1)]
  from a(2) have "prefix a p"
  proof
    assume "HasPrefix (render p) (render a @ ''/'')"
    then obtain t where t: "render p = render a @ CHR ''/'' # t" by (auto simp: HasPrefix_iff)
    with render_not_double[OF assms(2), of t] have "a \<noteq> []" by (cases a) (auto simp: render_def split: if_splits)
    with t have "p \<noteq> []" by (cases a) (auto simp: render_def)
    with \<open>a \<noteq> []\<close> t have "render_comps p = render_comps a @ CHR ''/'' # t" by (simp add: render_def)
    from render_comps_prefix[OF assms(2) ok this] show ?thesis by (simp add: strict_prefix_def)
  next
    assume "render p = render a"
    from render_inj[OF assms(2) ok this] show ?thesis by simp
  qed
  with a(1) show ?thesis by blast
qed

section \<open>Resolution\<close>

text \<open>A real directory: it and everything above it are directories, so no link is on the way.\<close>

definition real_dir :: "filesystem \<Rightarrow> path \<Rightarrow> bool" where
  "real_dir fs p \<longleftrightarrow> list_all comp_ok p \<and> (\<forall>q. prefix q p \<longrightarrow> map_of fs q = Some NDir)"

lemma real_dir_snoc: "real_dir fs (p @ [c]) \<longleftrightarrow> real_dir fs p \<and> comp_ok c \<and> map_of fs (p @ [c]) = Some NDir"
  by (auto simp: real_dir_def)

lemma real_dir_butlast: "real_dir fs p \<Longrightarrow> real_dir fs (butlast p)"
  by (cases p rule: rev_cases) (auto simp: real_dir_snoc)

text \<open>What a resolved path is: a real directory, or a file (or, when creating, nothing yet) in a real directory.\<close>

definition resolved_at :: "filesystem \<Rightarrow> bool \<Rightarrow> path \<Rightarrow> bool" where
  "resolved_at fs create p \<longleftrightarrow> real_dir fs p \<or>
     (\<exists>d c. p = d @ [c] \<and> real_dir fs d \<and> comp_ok c \<and> ((\<exists>x. map_of fs p = Some (NFile x)) \<or> create \<and> map_of fs p = None))"

lemma resolved_at_ok: "resolved_at fs create p \<Longrightarrow> list_all comp_ok p"
  by (auto simp: resolved_at_def real_dir_def)

lemma walk_resolved:
  "walk fs create n cur cs = Some p \<Longrightarrow> real_dir fs cur \<Longrightarrow> real_dir fs [] \<Longrightarrow> (\<And>c. c \<in> set cs \<Longrightarrow> c \<noteq> ''..'' \<Longrightarrow> comp_ok c) \<Longrightarrow>
     resolved_at fs create p"
proof (induction fs create n cur cs rule: walk.induct)
  case (1 fs create n cur)
  then show ?case by (simp add: resolved_at_def)
next
  case (2 fs create n cur c cs)
  show ?case
  proof (cases "c = ''..''")
    case True
    with 2 show ?thesis by (simp add: real_dir_butlast)
  next
    case False
    with "2.prems"(4) have c: "comp_ok c" by simp
    show ?thesis
    proof (cases "map_of fs (cur @ [c])")
      case None
      with "2.prems" False c show ?thesis by (auto simp: resolved_at_def split: if_splits)
    next
      case (Some nd)
      show ?thesis
      proof (cases nd)
        case (NFile x)
        with Some "2.prems" False c show ?thesis by (auto simp: resolved_at_def split: if_splits)
      next
        case NDir
        with Some "2.prems" False c show ?thesis by (intro "2.IH"(2)[OF False Some NDir]) (auto simp: real_dir_snoc)
      next
        case (NLink t)
        with Some "2.prems"(1) False obtain m where m: "n = Suc m"
            "walk fs create m (if rooted t then [] else cur) (components t @ cs) = Some p" by (auto split: nat.splits)
        show ?thesis
          by (rule "2.IH"(3)[OF False Some NLink m(1) m(2)]) (use "2.prems" components_ok in \<open>auto split: if_splits\<close>)
      qed
    qed
  qed
qed

text \<open>Resolving what is resolved already changes nothing, with any bound on the links.\<close>

lemma walk_dir: "real_dir fs (cur @ cs) \<Longrightarrow> walk fs create n cur (cs @ ds) = walk fs create n (cur @ cs) ds"
proof (induction cs arbitrary: cur)
  case (Cons c cs)
  from Cons.prems have "real_dir fs ((cur @ [c]) @ cs)" by simp
  moreover have "c \<noteq> ''..''" "map_of fs (cur @ [c]) = Some NDir" using Cons.prems by (auto simp: real_dir_def comp_ok_def)
  ultimately show ?case using Cons.IH[of "cur @ [c]"] by simp
qed simp

lemma open_resolved:
  assumes "resolved_at fs create p"
  shows "open_path fs create p = Some p"
  using assms unfolding resolved_at_def
proof
  assume "real_dir fs p"
  with walk_dir[of fs "[]" p create 40 "[]"] show ?thesis by (simp add: open_path_def)
next
  assume "\<exists>d c. p = d @ [c] \<and> real_dir fs d \<and> comp_ok c \<and> ((\<exists>x. map_of fs p = Some (NFile x)) \<or> create \<and> map_of fs p = None)"
  then obtain d c where p: "p = d @ [c]" "real_dir fs d" "comp_ok c" "(\<exists>x. map_of fs p = Some (NFile x)) \<or> create \<and> map_of fs p = None"
    by blast
  with walk_dir[of fs "[]" d create 40 "[c]"] show ?thesis by (auto simp: open_path_def comp_ok_def)
qed

lemma eval_resolved:
  assumes "EvalSymlinks fs p = Some r" "list_all comp_ok p" "map_of fs [] = Some NDir"
  shows "resolved_at fs False r"
  using walk_resolved[of fs False 255 "[]" p r] assms by (auto simp: EvalSymlinks_def real_dir_def list_all_iff)

lemma resolve_path_cases:
  assumes "resolve_path fs p = Some r" "list_all comp_ok p" "map_of fs [] = Some NDir"
  shows "resolved_at fs False r \<or> (\<exists>d c. EvalSymlinks fs p = None \<and> r = d @ [c] \<and> comp_ok c \<and> resolved_at fs False d)"
proof (cases "EvalSymlinks fs p")
  case None
  then have "p \<noteq> []" by (auto simp: EvalSymlinks_def)
  from assms None obtain d where d: "EvalSymlinks fs (butlast p) = Some d" "r = d @ [last p]" by (auto simp: resolve_path_def)
  from assms(2) have "list_all comp_ok (butlast p)" by (auto simp: list_all_iff dest: in_set_butlastD)
  with eval_resolved[OF d(1) _ assms(3)] d(2) None assms(2) \<open>p \<noteq> []\<close> show ?thesis by (auto simp: list_all_iff)
next
  case (Some q)
  with assms eval_resolved[OF Some] show ?thesis by (auto simp: resolve_path_def)
qed

lemma safePath_cases:
  assumes "safePath env fs raw allowed = Inr r" "env_ok env" "map_of fs [] = Some NDir"
  obtains p pre a where "Abs env raw = Some p" "resolve_path fs p = Some r" "pre \<in> set allowed" "Abs env pre = Some a" "prefix a r"
    "list_all comp_ok p"
proof -
  obtain p pre where p: "Abs env raw = Some p" "resolve_path fs p = Some r" "pre \<in> set allowed" "within_prefix env r pre"
    using assms(1) by (auto simp: safePath_def split: if_splits option.splits)
  note ok = Abs_ok[OF assms(2) p(1)]
  have "list_all comp_ok r" using resolve_path_cases[OF p(2) ok assms(3)] resolved_at_ok by fastforce
  from within_prefix_sound[OF assms(2) this p(4)] p ok that show thesis by blast
qed

text \<open>The parent of an accepted path exists, so nothing is created on the way.\<close>

lemma MkdirAll_real: "real_dir fs p \<Longrightarrow> MkdirAll fs p = (True, fs)"
  using open_resolved[of fs False p]
  by (simp add: MkdirAll.simps[of fs p] Stat_def resolved_at_def) (simp add: real_dir_def)

definition ends_in_link :: "file_env \<Rightarrow> FileConfig \<Rightarrow> filesystem \<Rightarrow> params \<Rightarrow> bool" where
  "ends_in_link env cfg fs ps \<longleftrightarrow>
     (\<exists>r t. safePath env fs (string_or_empty (requireString ps ''path'')) (fc_AllowedPaths cfg) = Inr r \<and> map_of fs r = Some (NLink t))"

text \<open>An accepted path that is not a link is resolved, or its parent is a regular file.\<close>

lemma accepted_path:
  assumes "safePath env fs raw allowed = Inr r" "env_ok env" "map_of fs [] = Some NDir" "\<forall>t. map_of fs r \<noteq> Some (NLink t)"
  shows "resolved_at fs True r \<or> (\<exists>d c x. r = d @ [c] \<and> comp_ok c \<and> resolved_at fs False d \<and> map_of fs d = Some (NFile x))"
proof -
  from assms(1-3) obtain p pre a where "resolve_path fs p = Some r" "list_all comp_ok p" by (rule safePath_cases)
  from resolve_path_cases[OF this assms(3)] show ?thesis
  proof
    assume "resolved_at fs False r"
    then show ?thesis by (auto simp: resolved_at_def)
  next
    assume "\<exists>d c. EvalSymlinks fs p = None \<and> r = d @ [c] \<and> comp_ok c \<and> resolved_at fs False d"
    then obtain d c where r: "r = d @ [c]" "comp_ok c" "resolved_at fs False d" by blast
    show ?thesis
    proof (cases "real_dir fs d")
      case True
      with r(1,2) assms(4) have "resolved_at fs True r"
        by (cases "map_of fs r") (auto simp: resolved_at_def real_dir_snoc intro: node.exhaust)
      then show ?thesis ..
    next
      case False
      with r show ?thesis by (auto simp: resolved_at_def)
    qed
  qed
qed

lemma below_file:
  assumes "resolved_at fs False d" "map_of fs d = Some (NFile x)" "comp_ok c"
  shows "open_path fs create (d @ [c]) = None" "MkdirAll fs d = (False, fs)"
proof -
  obtain e b where d: "d = e @ [b]" "real_dir fs e" "comp_ok b" using assms(1,2) by (auto simp: resolved_at_def real_dir_def)
  with walk_dir[of fs "[]" e create 40 "[b, c]"] assms(2) show "open_path fs create (d @ [c]) = None" by (simp add: open_path_def comp_ok_def)
  from open_resolved[OF assms(1)] assms(2) show "MkdirAll fs d = (False, fs)" by (simp add: MkdirAll.simps[of fs d] Stat_def)
qed

lemma opened_path:
  assumes "safePath env fs raw allowed = Inr r" "env_ok env" "map_of fs [] = Some NDir" "\<forall>t. map_of fs r \<noteq> Some (NLink t)"
    "open_path fs False r \<noteq> None"
  shows "open_path fs False r = Some r \<and> resolved_at fs False r"
proof -
  from accepted_path[OF assms(1-4)] have "resolved_at fs True r"
  proof
    assume "\<exists>d c x. r = d @ [c] \<and> comp_ok c \<and> resolved_at fs False d \<and> map_of fs d = Some (NFile x)"
    with below_file(1)[of fs] assms(5) show ?thesis by auto
  qed
  moreover have "map_of fs r \<noteq> None"
  proof
    assume none: "map_of fs r = None"
    with \<open>resolved_at fs True r\<close> obtain d c where r: "r = d @ [c]" "real_dir fs d" "comp_ok c" by (auto simp: resolved_at_def real_dir_def)
    with walk_dir[of fs "[]" d False 40 "[c]"] none assms(5) show False by (simp add: open_path_def comp_ok_def)
  qed
  ultimately have "resolved_at fs False r" by (auto simp: resolved_at_def)
  with open_resolved show ?thesis by blast
qed

lemma resolved_above: "resolved_at fs create p \<Longrightarrow> strict_prefix q p \<Longrightarrow> map_of fs q = Some NDir"
  by (auto simp: resolved_at_def real_dir_def strict_prefix_def)

lemma allowed_path:
  assumes "safePath env fs raw allowed = Inr r" "env_ok env" "map_of fs [] = Some NDir"
  shows "\<exists>pre a. pre \<in> set allowed \<and> Abs env pre = Some a \<and> prefix a r"
  using assms by (rule safePath_cases) blast

text \<open>
  (C12) Confinement of reading: unless the accepted path is itself a link, what \<^verbatim>\<open>file_read\<close> returns is the
  content of a regular file, or the listing of a directory, whose real path (no link on the way) is inside an allowed
  directory; the file is within the size limit.
\<close>

theorem file_read_confined:
  assumes "env_ok env" "map_of fs [] = Some NDir" "\<not> ends_in_link env cfg fs ps" "Read_Execute env cfg fs ps = Inr res"
  shows "\<exists>p pre a. pre \<in> set (fc_AllowedPaths cfg) \<and> Abs env pre = Some a \<and> prefix a p \<and>
    (\<forall>q. strict_prefix q p \<longrightarrow> map_of fs q = Some NDir) \<and>
    ((\<exists>content. map_of fs p = Some (NFile content) \<and> int (length content) \<le> maxSize cfg \<and> rs_Output res = TruncateOutput content MaxOutputBytes) \<or>
     map_of fs p = Some NDir \<and> rs_Output res = TruncateOutput (concat (map (dir_line env p) (children fs p))) MaxOutputBytes)"
proof -
  obtain r where r: "safePath env fs (string_or_empty (requireString ps ''path'')) (fc_AllowedPaths cfg) = Inr r"
      "(if file_operation ps = ''list'' then listDir env fs r else readFile cfg fs r) = Inr res"
    using assms(4) by (auto simp: Read_Execute_def split: sum.splits)
  then have "open_path fs False r \<noteq> None"
    by (cases "open_path fs False r") (auto simp: readFile_def listDir_def Stat_def split: if_splits)
  moreover have "\<forall>t. map_of fs r \<noteq> Some (NLink t)" using assms(3) r(1) by (auto simp: ends_in_link_def)
  ultimately have at: "open_path fs False r = Some r" "resolved_at fs False r" using opened_path[OF r(1) assms(1,2)] by blast+
  have "(\<exists>content. map_of fs r = Some (NFile content) \<and> int (length content) \<le> maxSize cfg \<and> rs_Output res = TruncateOutput content MaxOutputBytes) \<or>
     map_of fs r = Some NDir \<and> rs_Output res = TruncateOutput (concat (map (dir_line env r) (children fs r))) MaxOutputBytes"
    using r(2) at(1) by (auto simp: readFile_def listDir_def Stat_def split: if_splits option.splits node.splits)
  then show ?thesis using allowed_path[OF r(1) assms(1,2)] resolved_above[OF at(2)] by blast
qed

text \<open>
  (C13) Confinement of writing: unless the accepted path is itself a link, \<^verbatim>\<open>file_write\<close> changes at most one file; its
  real path is inside an allowed directory, it was not a directory, and on success it holds the content.
\<close>

theorem file_write_confined:
  assumes "env_ok env" "map_of fs [] = Some NDir" "\<not> ends_in_link env cfg fs ps" "Write_Execute env cfg fs ps = (r, fs')"
  shows "map_of fs' = map_of fs \<and> isl r \<or>
    (\<exists>p pre a content. pre \<in> set (fc_AllowedPaths cfg) \<and> Abs env pre = Some a \<and> prefix a p \<and>
      (\<forall>q. strict_prefix q p \<longrightarrow> map_of fs q = Some NDir) \<and> map_of fs p \<noteq> Some NDir \<and>
      map_of fs' = (map_of fs)(p \<mapsto> NFile content) \<and> (\<forall>s. requireString ps ''content'' = Inr s \<longrightarrow> s = content))"
proof (cases "safePath env fs (string_or_empty (requireString ps ''path'')) (fc_AllowedPaths cfg)")
  case (Inl e)
  with assms(4) show ?thesis by (auto simp: Write_Execute_def)
next
  case (Inr p)
  have nolink: "\<forall>t. map_of fs p \<noteq> Some (NLink t)" using assms(3) Inr by (auto simp: ends_in_link_def)
  let ?content = "string_or_empty (requireString ps ''content'')"
  show ?thesis
  proof (cases "resolved_at fs True p")
    case True
    then have par: "p = [] \<or> real_dir fs (butlast p)" by (auto simp: resolved_at_def real_dir_butlast)
    have "real_dir fs []" using assms(2) by (simp add: real_dir_def)
    then have mk: "MkdirAll fs (butlast p) = (True, fs)" using par MkdirAll_real by (cases p) auto
    show ?thesis
    proof (cases "map_of fs p = Some NDir")
      case dir: True
      with assms(4) Inr mk open_resolved[OF True] show ?thesis by (auto simp: Write_Execute_def WriteFile_def)
    next
      case False
      with assms(4) Inr mk open_resolved[OF True] have "map_of fs' = (map_of fs)(p \<mapsto> NFile ?content)"
        by (auto simp: Write_Execute_def WriteFile_def Let_def update_conv')
      moreover have "\<forall>s. requireString ps ''content'' = Inr s \<longrightarrow> s = ?content" by (simp add: string_or_empty_def)
      ultimately show ?thesis using allowed_path[OF Inr assms(1,2)] resolved_above[OF True] False by blast
    qed
  next
    case False
    with accepted_path[OF Inr assms(1,2) nolink] below_file have "MkdirAll fs (butlast p) = (False, fs)" by fastforce
    with assms(4) Inr show ?thesis by (auto simp: Write_Execute_def)
  qed
qed

section \<open>Examples\<close>

definition demo_file_env :: file_env where
  "demo_file_env = \<lparr>fe_cwd = Some [''d''], fe_text = (\<lambda>e. []), fe_info = (\<lambda>p. None)\<rparr>"

definition demo_file_cfg :: FileConfig where
  "demo_file_cfg = \<lparr>fc_AllowedPaths = [''/d''], fc_MaxFileSizeBytes = 0\<rparr>"

text \<open>The directory \<^verbatim>\<open>/d\<close> has a file, a link to a secret, a link to a missing file outside and a link to itself.\<close>

definition demo_fs :: filesystem where
  "demo_fs = [([], NDir), ([''d''], NDir), ([''d'', ''f''], NFile ''x''), ([''d'', ''l''], NLink ''/etc/secret''),
     ([''d'', ''n''], NLink ''../etc/new''), ([''d'', ''s''], NLink ''.''), ([''etc''], NDir), ([''etc'', ''secret''], NFile ''key'')]"

lemma demo_file_env_ok: "env_ok demo_file_env"
  by (simp add: env_ok_def demo_file_env_def comp_ok_def)

lemma demo_paths:
  "safePath demo_file_env demo_fs ''f'' [''/d''] = Inr [''d'', ''f'']"
  "safePath demo_file_env demo_fs ''/d/s/l'' [''/d''] = Inl (OutsideAllowed ''/d/s/l'' ''/etc/secret'')"
  "safePath demo_file_env demo_fs ''/d/n'' [''/d''] = Inr [''d'', ''n'']"
  by code_simp+

lemma read_small:
  assumes "safePath demo_file_env demo_fs p [''/d''] = Inr r" "p \<noteq> []" "Stat demo_fs r = Some (NFile c)" "length c < 100"
  shows "\<exists>res. Read_Execute demo_file_env demo_file_cfg demo_fs [(''path'', AStr p)] = Inr res \<and> rs_Output res = c"
  using assms
  by (simp add: Read_Execute_def requireString_def string_or_empty_def file_operation_def readFile_def demo_file_cfg_def maxSize_def
      TruncateOutput_def MaxOutputBytes_def)

theorem file_read_confined_witness:
  "\<exists>res p pre a. Read_Execute demo_file_env demo_file_cfg demo_fs [(''path'', AStr ''f'')] = Inr res \<and> rs_Output res = ''x'' \<and>
     pre \<in> set (fc_AllowedPaths demo_file_cfg) \<and> Abs demo_file_env pre = Some a \<and> prefix a p"
proof -
  have "Stat demo_fs [''d'', ''f''] = Some (NFile ''x'')" by code_simp
  from read_small[OF demo_paths(1) _ this] obtain res where
    res: "Read_Execute demo_file_env demo_file_cfg demo_fs [(''path'', AStr ''f'')] = Inr res" "rs_Output res = ''x''" by auto
  have "\<not> ends_in_link demo_file_env demo_file_cfg demo_fs [(''path'', AStr ''f'')]"
    using demo_paths(1) by (simp add: ends_in_link_def requireString_def string_or_empty_def demo_file_cfg_def) (simp add: demo_fs_def)
  from file_read_confined[OF demo_file_env_ok _ this res(1)] res show ?thesis by (auto simp: demo_fs_def)
qed

definition demo_write :: "string \<Rightarrow> (file_error + Result) \<times> filesystem" where
  "demo_write p = Write_Execute demo_file_env demo_file_cfg demo_fs [(''path'', AStr p), (''content'', AStr ''new'')]"

theorem file_write_confined_witness:
  "\<exists>p pre a content. map_of (snd (demo_write ''g'')) = (map_of demo_fs)(p \<mapsto> NFile content) \<and> content = ''new'' \<and>
     pre \<in> set (fc_AllowedPaths demo_file_cfg) \<and> Abs demo_file_env pre = Some a \<and> prefix a p"
proof -
  have s: "safePath demo_file_env demo_fs ''g'' [''/d''] = Inr [''d'', ''g'']" by code_simp
  have "\<not> ends_in_link demo_file_env demo_file_cfg demo_fs [(''path'', AStr ''g''), (''content'', AStr ''new'')]"
    using s by (simp add: ends_in_link_def requireString_def string_or_empty_def demo_file_cfg_def) (simp add: demo_fs_def)
  moreover have "\<not> isl (fst (demo_write ''g''))" by code_simp
  ultimately show ?thesis
    using file_write_confined[OF demo_file_env_ok, of demo_fs demo_file_cfg "[(''path'', AStr ''g''), (''content'', AStr ''new'')]"
        "fst (demo_write ''g'')" "snd (demo_write ''g'')"]
    by (auto simp: demo_fs_def demo_write_def requireString_def)
qed

section \<open>Escapes\<close>

text \<open>A link to a file that does not exist is not resolved by the check; opening it for writing creates the file outside.\<close>

theorem dangling_link_escapes: "map_of (snd (demo_write ''/d/n'')) [''etc'', ''new''] = Some (NFile ''new'')"
  by code_simp

text \<open>A path that goes through 255 links and then through a link is not resolved by the check, which stops at 255 links; its
  last component is then opened, and followed.\<close>

theorem many_links_escape:
  "\<exists>res. Read_Execute demo_file_env demo_file_cfg demo_fs [(''path'', AStr (''/d'' @ concat (replicate 255 ''/s'') @ ''/l''))] = Inr res \<and>
     rs_Output res = ''key''"
proof (rule read_small)
  show "safePath demo_file_env demo_fs (''/d'' @ concat (replicate 255 ''/s'') @ ''/l'') [''/d''] = Inr [''d'', ''l'']" by code_simp
  show "Stat demo_fs [''d'', ''l''] = Some (NFile ''key'')" by code_simp
qed simp_all

text \<open>Allowing the root directory allows nothing below it: the prefix compared is two slashes.\<close>

theorem root_prefix_allows_nothing:
  assumes "list_all comp_ok p" "p \<noteq> []"
  shows "\<not> within_prefix env p ''/''"
proof -
  have "Abs env ''/'' = Some []" by (simp add: Abs_def rooted_def components_def)
  with assms render_not_double[of p] show ?thesis
    by (cases p) (auto simp: within_prefix_def HasPrefix_iff render_def comp_ok_def)
qed

end
