(* ===== verification/WebTool.thy ===== *)
theory WebTool
  imports ToolParams NetAddress
begin

text \<open>
  The web tool (\<^verbatim>\<open>tools/web/web.go\<close>, \<^verbatim>\<open>tools/web/ssrf.go\<close>): the domain
  list, the address filter and the redirect check. \<^verbatim>\<open>url.Parse\<close>, the resolver and one HTTP exchange are parameters (record
  \<open>web\<close>); the resolver reads the world, so it may answer differently each time. \<open>follow\<close> is \<^verbatim>\<open>http.Client.Do\<close>: it follows
  redirects as long as \<^verbatim>\<open>CheckRedirect\<close> has no objection; here it also returns the list of the requests made.
\<close>

section \<open>The address filter\<close>

definition IsPrivateIP :: "IP \<Rightarrow> bool" where
  "IsPrivateIP ip =
     (if IsLoopback ip then True
      else if IsLinkLocalUnicast ip \<or> IsLinkLocalMulticast ip then True
      else if IsUnspecified ip then True
      else case ip of
             IP4 a \<Rightarrow> drop_bit 24 a = 10 \<or> drop_bit 20 a = 0xAC1 \<or> drop_bit 16 a = 0xC0A8 \<or> drop_bit 16 a = 0xA9FE
           | IP6 a \<Rightarrow> drop_bit 120 a AND 0xFE = 0xFC)"

datatype web_error =
    WebParameter param_error
  | InvalidURL string
  | SchemeNotAllowed string
  | DomainNotAllowed string
  | MethodNotAllowed string
  | UnknownAction string
  | DNSFailed string
  | InvalidIP string string
  | SSRFBlocked string string
  | BadRequest string
  | TooManyRedirects
  | RedirectBlocked string
  | RequestFailed web_error
  | TransportFailed string
  | ReadingResponse string

fun check_ips :: "string \<Rightarrow> (string \<times> IP option) list \<Rightarrow> web_error option" where
  "check_ips host [] = None"
| "check_ips host ((ipStr, None) # ips) = Some (InvalidIP ipStr host)"
| "check_ips host ((ipStr, Some ip) # ips) = (if IsPrivateIP ip then Some (SSRFBlocked host ipStr) else check_ips host ips)"

definition CheckSSRF :: "resolver \<Rightarrow> string \<Rightarrow> web_error option" where
  "CheckSSRF resolve host =
     (case resolve host of None \<Rightarrow> Some (DNSFailed host) | Some ips \<Rightarrow> check_ips host ips)"

definition IsDomainAllowed :: "string \<Rightarrow> string list \<Rightarrow> bool" where
  "IsDomainAllowed host allowedDomains \<longleftrightarrow> (\<exists>d \<in> set allowedDomains. ToLower d = ToLower host)"

section \<open>Fetching\<close>

record WebConfig =
  wc_AllowedDomains :: "string list"
  wc_MaxResponseBytes :: int
  wc_TimeoutSeconds :: int

record url =
  u_Scheme :: string
  u_Hostname :: string

record web_response =
  wr_StatusCode :: int
  wr_Body :: "string + string"

datatype exchange = Failed string | Redirect string | Response web_response

text \<open>The body is an error of reading it or its bytes; \<open>wb_request\<close> is \<^verbatim>\<open>http.NewRequest\<close>.\<close>

record 'w web =
  wb_parse :: "string \<Rightarrow> url option"
  wb_resolve :: "'w \<Rightarrow> resolver"
  wb_request :: "string \<Rightarrow> string option"
  wb_exchange :: "string \<Rightarrow> string \<Rightarrow> duration \<Rightarrow> 'w \<Rightarrow> exchange \<times> 'w"
  wb_text :: "web_error \<Rightarrow> string"

definition request_method :: "params \<Rightarrow> string" where
  "request_method ps = (if param_string ps ''method'' \<noteq> [] then ToUpper (param_string ps ''method'') else ''GET'')"

definition Web_Validate :: "'w web \<Rightarrow> WebConfig \<Rightarrow> params \<Rightarrow> web_error option" where
  "Web_Validate wb cfg ps =
     (case requireString ps ''url'' of
        Inl e \<Rightarrow> Some (WebParameter e)
      | Inr rawURL \<Rightarrow>
          (case wb_parse wb rawURL of
             None \<Rightarrow> Some (InvalidURL rawURL)
           | Some parsed \<Rightarrow>
               if u_Scheme parsed \<noteq> ''http'' \<and> u_Scheme parsed \<noteq> ''https'' then Some (SchemeNotAllowed (u_Scheme parsed))
               else if \<not> IsDomainAllowed (u_Hostname parsed) (wc_AllowedDomains cfg) then Some (DomainNotAllowed (u_Hostname parsed))
               else if request_method ps \<noteq> ''GET'' \<and> request_method ps \<noteq> ''HEAD'' then Some (MethodNotAllowed (request_method ps))
               else None))"

definition checkRedirect :: "WebConfig \<Rightarrow> resolver \<Rightarrow> string \<Rightarrow> nat \<Rightarrow> web_error option" where
  "checkRedirect cfg resolve host via =
     (if via \<ge> 5 then Some TooManyRedirects
      else if \<not> IsDomainAllowed host (wc_AllowedDomains cfg) then Some (RedirectBlocked host)
      else CheckSSRF resolve host)"

text \<open>A location that does not parse is an error of the client. \<open>via\<close> are the requests made so far, the current one last.\<close>

function follow ::
  "'w web \<Rightarrow> WebConfig \<Rightarrow> string \<Rightarrow> duration \<Rightarrow> 'w \<Rightarrow> string list \<Rightarrow> string \<Rightarrow> (web_error + string \<times> web_response) \<times> string list \<times> 'w" where
  "follow wb cfg verb timeout w via u =
     (let via = via @ [u]
      in case wb_exchange wb verb u timeout w of
           (Failed e, w) \<Rightarrow> (Inl (TransportFailed e), via, w)
         | (Response r, w) \<Rightarrow> (Inr (u, r), via, w)
         | (Redirect location, w) \<Rightarrow>
             (case wb_parse wb location of
                None \<Rightarrow> (Inl (InvalidURL location), via, w)
              | Some target \<Rightarrow>
                  (case checkRedirect cfg (wb_resolve wb w) (u_Hostname target) (length via) of
                     Some e \<Rightarrow> (Inl (RequestFailed e), via, w)
                   | None \<Rightarrow> follow wb cfg verb timeout w via location)))"
  by pat_completeness auto
termination
  by (relation "measure (\<lambda>(wb, cfg, verb, timeout, w, via, u). 5 - length via)") (auto simp: checkRedirect_def split: if_splits)

declare follow.simps [simp del]

definition cap_body :: "int \<Rightarrow> string \<Rightarrow> string \<times> bool" where
  "cap_body maxBytes body =
     (let body = take (nat (maxBytes + 1)) body
      in if int (length body) > maxBytes then (take (nat maxBytes) body, True) else (body, False))"

definition Web_Execute :: "'w web \<Rightarrow> WebConfig \<Rightarrow> params \<Rightarrow> 'w \<Rightarrow> (web_error + Result) \<times> string list \<times> 'w" where
  "Web_Execute wb cfg ps w =
     (let rawURL = string_or_empty (requireString ps ''url''); verb = request_method ps
      in case wb_parse wb rawURL of
           None \<Rightarrow> (Inl (InvalidURL rawURL), [], w)
         | Some parsed \<Rightarrow>
             (case CheckSSRF (wb_resolve wb w) (u_Hostname parsed) of
                Some e \<Rightarrow> (Inl e, [], w)
              | None \<Rightarrow>
                  (case wb_request wb rawURL of
                     Some e \<Rightarrow> (Inl (BadRequest e), [], w)
                   | None \<Rightarrow>
                       (let timeout = (if wc_TimeoutSeconds cfg = 0 then 10 * Second else wc_TimeoutSeconds cfg * Second);
                            maxBytes = (if wc_MaxResponseBytes cfg \<le> 0 then 5242880 else wc_MaxResponseBytes cfg);
                            (res, via, w) = follow wb cfg verb timeout w [] rawURL
                        in case res of
                             Inl e \<Rightarrow> (Inl e, via, w)
                           | Inr (final, resp) \<Rightarrow>
                               (case wr_Body resp of
                                  Inl e \<Rightarrow> (Inl (ReadingResponse e), via, w)
                                | Inr bytes \<Rightarrow>
                                    (let (body, truncated) = cap_body maxBytes bytes
                                     in (Inr \<lparr>rs_Output = TruncateOutput body MaxOutputBytes,
                                              rs_Metadata = [(''status_code'', ANum (of_int (wr_StatusCode resp))), (''url'', AStr final),
                                                (''truncated'', ABool truncated)],
                                              rs_Success = (wr_StatusCode resp \<ge> 200 \<and> wr_StatusCode resp < 400)\<rparr>, via, w)))))))"

section \<open>Confinement\<close>

lemma check_ips_public: "check_ips host ips = None \<Longrightarrow> (s, ip) \<in> set ips \<Longrightarrow> \<exists>a. ip = Some a \<and> \<not> IsPrivateIP a"
  by (induction host ips rule: check_ips.induct) (auto split: if_splits)

lemma CheckSSRF_public:
  "CheckSSRF resolve host = None \<Longrightarrow> \<exists>ips. resolve host = Some ips \<and> (\<forall>(s, ip) \<in> set ips. \<exists>a. ip = Some a \<and> \<not> IsPrivateIP a)"
  by (auto simp: CheckSSRF_def split: option.splits dest!: check_ips_public)

text \<open>A target is admitted: its domain is on the list and, when it was asked, the resolver had only public addresses for it.\<close>

definition admitted :: "'w web \<Rightarrow> WebConfig \<Rightarrow> string \<Rightarrow> bool" where
  "admitted wb cfg u \<longleftrightarrow>
     (\<exists>p w ips. wb_parse wb u = Some p \<and> IsDomainAllowed (u_Hostname p) (wc_AllowedDomains cfg) \<and>
        wb_resolve wb w (u_Hostname p) = Some ips \<and> (\<forall>(s, ip) \<in> set ips. \<exists>a. ip = Some a \<and> \<not> IsPrivateIP a))"

lemma follow_admitted:
  "follow wb cfg verb timeout w via u = (r, via', w') \<Longrightarrow> list_all (admitted wb cfg) (via @ [u]) \<Longrightarrow> length via < 5 \<Longrightarrow>
     list_all (admitted wb cfg) via' \<and> length via' \<le> 5"
proof (induction wb cfg verb timeout w via u rule: follow.induct)
  case (1 wb cfg verb timeout w via u)
  obtain ex w1 where ex: "wb_exchange wb verb u timeout w = (ex, w1)" by fastforce
  show ?case
  proof (cases "\<exists>location p. ex = Redirect location \<and> wb_parse wb location = Some p \<and>
      checkRedirect cfg (wb_resolve wb w1) (u_Hostname p) (length (via @ [u])) = None")
    case True
    then obtain location p where c: "ex = Redirect location" "wb_parse wb location = Some p"
        "checkRedirect cfg (wb_resolve wb w1) (u_Hostname p) (length (via @ [u])) = None" by blast
    have "follow wb cfg verb timeout w1 (via @ [u]) location = (r, via', w')"
      using "1.prems"(1) ex c by (simp add: follow.simps[of wb cfg verb timeout w via u])
    moreover have "admitted wb cfg location"
      using c CheckSSRF_public[of "wb_resolve wb w1" "u_Hostname p"] by (auto simp: admitted_def checkRedirect_def split: if_splits)
    moreover have "length (via @ [u]) < 5" using c(3) by (auto simp: checkRedirect_def split: if_splits)
    ultimately show ?thesis using "1.IH"[OF refl] ex c "1.prems"(2) by simp
  next
    case False
    with "1.prems" ex show ?thesis
      by (auto simp: follow.simps[of wb cfg verb timeout w via u] Let_def split: exchange.splits option.splits)
  qed
qed

text \<open>
  (C14) Confinement of \<^verbatim>\<open>web_fetch\<close>: for validated parameters, every request made, the redirects included, goes to a
  host on the domain list for which the resolver answered, when it was asked, with public addresses only; and there are at
  most five of them.
\<close>

theorem web_fetch_confined:
  assumes "Web_Validate wb cfg ps = None" and "Web_Execute wb cfg ps w = (r, requests, w')"
  shows "length requests \<le> 5 \<and> (\<forall>u \<in> set requests. admitted wb cfg u)"
proof -
  obtain rawURL p where p: "requireString ps ''url'' = Inr rawURL" "wb_parse wb rawURL = Some p"
      "IsDomainAllowed (u_Hostname p) (wc_AllowedDomains cfg)"
    using assms(1) by (auto simp: Web_Validate_def split: sum.splits option.splits if_splits)
  show ?thesis
  proof (cases "CheckSSRF (wb_resolve wb w) (u_Hostname p) = None \<and> wb_request wb rawURL = None")
    case True
    then have "admitted wb cfg rawURL" using p CheckSSRF_public[of "wb_resolve wb w" "u_Hostname p"] by (auto simp: admitted_def)
    moreover let ?t = "if wc_TimeoutSeconds cfg = 0 then 10 * Second else wc_TimeoutSeconds cfg * Second"
    obtain res via1 w1 where f: "follow wb cfg (request_method ps) ?t w [] rawURL = (res, via1, w1)" by (metis prod_cases3)
    moreover have "requests = via1"
      using assms(2) p True f unfolding Web_Execute_def by (cases res) (auto simp: string_or_empty_def Let_def split: prod.splits sum.splits)
    ultimately show ?thesis using follow_admitted[of wb cfg _ _ w "[]" rawURL res via1 w1] by (auto simp: list_all_iff)
  next
    case False
    with assms(2) p show ?thesis by (auto simp: Web_Execute_def string_or_empty_def split: option.splits)
  qed
qed

text \<open>An example: a server on the list redirects to another host on the list, which redirects to a private one.\<close>

definition demo_web :: "nat web" where
  "demo_web = \<lparr>
     wb_parse = (\<lambda>u. if HasPrefix u ''http://'' then Some \<lparr>u_Scheme = ''http'', u_Hostname = drop 7 u\<rparr> else None),
     wb_resolve = (\<lambda>w host. if host = ''in'' then Some [(''10.0.0.1'', Some (IP4 0x0A000001))] else Some [(''1.2.3.4'', Some (IP4 0x01020304))]),
     wb_request = (\<lambda>u. None),
     wb_exchange = (\<lambda>m u t w. (if u = ''http://a'' then Redirect ''http://b'' else if u = ''http://b'' then Redirect ''http://in''
        else Response \<lparr>wr_StatusCode = 200, wr_Body = Inr ''secret''\<rparr>, Suc w)),
     wb_text = (\<lambda>e. [])\<rparr>"

definition demo_web_cfg :: WebConfig where
  "demo_web_cfg = \<lparr>wc_AllowedDomains = [''A'', ''b'', ''in''], wc_MaxResponseBytes = 0, wc_TimeoutSeconds = 0\<rparr>"

theorem web_fetch_confined_witness:
  "fst (snd (Web_Execute demo_web demo_web_cfg [(''url'', AStr ''http://a'')] 0)) = [''http://a'', ''http://b''] \<and>
   admitted demo_web demo_web_cfg ''http://b''"
proof -
  let ?x = "Web_Execute demo_web demo_web_cfg [(''url'', AStr ''http://a'')] 0"
  have v: "Web_Validate demo_web demo_web_cfg [(''url'', AStr ''http://a'')] = None" by code_simp
  have r: "fst (snd ?x) = [''http://a'', ''http://b'']" by code_simp
  obtain a b c where x: "?x = (a, b, c)" by (metis prod_cases3)
  from web_fetch_confined[OF v x] r x show ?thesis by simp
qed

text \<open>The body is cut to the limit; the flag says whether anything is missing.\<close>

lemma cap_body_spec:
  assumes "0 \<le> maxBytes"
  shows "cap_body maxBytes body = (take (nat maxBytes) body, int (length body) > maxBytes)"
  using assms by (auto simp: cap_body_def Let_def min_def nat_add_distrib)

end
