(* ===== verification/Sandbox.thy ===== *)
theory Sandbox
  imports ToolParams "HOL-Library.Sublist"
begin

text \<open>
  Sandboxed execution (\<^verbatim>\<open>sandbox/sandbox.go\<close>, \<^verbatim>\<open>sandbox/process.go\<close>, \<^verbatim>\<open>sandbox/docker.go\<close>) and the tools that run commands in it
  (\<^verbatim>\<open>tools/shell/shell.go\<close>, \<^verbatim>\<open>tools/git/git.go\<close>, \<^verbatim>\<open>tools/git/write.go\<close>, \<^verbatim>\<open>tools/code/code.go\<close>).

  A run of a process is a parameter: given the program, its arguments, the directory and the environment it yields the
  chunks read from its two pipes, its exit code and whether its context ended (\<open>process_run\<close>). \<open>copy\<close> is the
  goroutine of \<^verbatim>\<open>os/exec\<close> that copies a pipe to a writer with \<^verbatim>\<open>io.Copy\<close>, which fails on a short write; \<^verbatim>\<open>Run\<close> reports a
  non-zero exit before an error of copying.
\<close>

section \<open>Requests and results\<close>

record ResourceLimits =
  rl_MaxCPUSeconds :: int
  rl_MaxMemoryMB :: int

record ExecutionRequest =
  er_Command :: "string list"
  er_WorkingDir :: string
  er_Env :: "(string \<times> string) list"
  er_Timeout :: duration
  er_Limits :: ResourceLimits

record ExecutionResult =
  xr_Stdout :: string
  xr_Stderr :: string
  xr_ExitCode :: int
  xr_Duration :: duration

definition command_request :: "string list \<Rightarrow> ExecutionRequest" where
  "command_request cmd = \<lparr>er_Command = cmd, er_WorkingDir = [], er_Env = [], er_Timeout = 0, er_Limits = \<lparr>rl_MaxCPUSeconds = 0, rl_MaxMemoryMB = 0\<rparr>\<rparr>"

datatype sandbox_error =
    EmptyCommand
  | CreatingTempDir string
  | TimedOut duration
  | ExecFailed string
  | CopyFailed
  | ContainerName string

section \<open>Capped output\<close>

definition sb_maxOutputBytes :: int where "sb_maxOutputBytes = 1048576"

record limitedWriter =
  lw_w :: string
  lw_remaining :: int

definition LW_Write :: "limitedWriter \<Rightarrow> string \<Rightarrow> int \<times> limitedWriter" where
  "LW_Write lw p =
     (if lw_remaining lw \<le> 0 then (int (length p), lw)
      else let p = (if int (length p) > lw_remaining lw then take (nat (lw_remaining lw)) p else p)
           in (int (length p), lw\<lparr>lw_w := lw_w lw @ p, lw_remaining := lw_remaining lw - int (length p)\<rparr>))"

text \<open>The flag says whether copying failed.\<close>

fun copy :: "limitedWriter \<Rightarrow> string list \<Rightarrow> bool \<times> limitedWriter" where
  "copy lw [] = (False, lw)"
| "copy lw (p # ps) = (let (n, lw') = LW_Write lw p in if n \<noteq> int (length p) then (True, lw') else copy lw' ps)"

record process_run =
  pr_startError :: "string option"
  pr_stdout :: "string list"
  pr_stderr :: "string list"
  pr_exitCode :: int
  pr_ended :: bool
  pr_duration :: duration

definition interpret_run :: "duration \<Rightarrow> process_run \<Rightarrow> sandbox_error + ExecutionResult" where
  "interpret_run timeout r =
     (let lw = \<lparr>lw_w = [], lw_remaining = sb_maxOutputBytes\<rparr>;
          (badOut, out) = copy lw (pr_stdout r); (badErr, err) = copy lw (pr_stderr r);
          result = (\<lambda>code. Inr \<lparr>xr_Stdout = lw_w out, xr_Stderr = lw_w err, xr_ExitCode = code, xr_Duration = pr_duration r\<rparr>)
      in case pr_startError r of
           Some e \<Rightarrow> Inl (if pr_ended r then TimedOut timeout else ExecFailed e)
         | None \<Rightarrow>
             if pr_exitCode r \<noteq> 0 then (if pr_ended r then Inl (TimedOut timeout) else result (pr_exitCode r))
             else if badOut \<or> badErr then Inl (if pr_ended r then TimedOut timeout else CopyFailed)
             else result 0)"

section \<open>The process sandbox\<close>

record ProcessSandbox =
  ps_defaultTimeout :: duration
  ps_defaultLimits :: ResourceLimits

definition NewProcessSandbox :: "duration \<Rightarrow> ResourceLimits \<Rightarrow> ProcessSandbox" where
  "NewProcessSandbox timeout lims =
     \<lparr>ps_defaultTimeout = (if timeout = 0 then 30 * Second else timeout),
      ps_defaultLimits = \<lparr>rl_MaxCPUSeconds = (if rl_MaxCPUSeconds lims = 0 then 60 else rl_MaxCPUSeconds lims),
        rl_MaxMemoryMB = (if rl_MaxMemoryMB lims = 0 then 512 else rl_MaxMemoryMB lims)\<rparr>\<rparr>"

definition resolveLimits :: "ProcessSandbox \<Rightarrow> ResourceLimits \<Rightarrow> ResourceLimits" where
  "resolveLimits s req =
     \<lparr>rl_MaxCPUSeconds = (if rl_MaxCPUSeconds req > 0 then rl_MaxCPUSeconds req else rl_MaxCPUSeconds (ps_defaultLimits s)),
      rl_MaxMemoryMB = (if rl_MaxMemoryMB req > 0 then rl_MaxMemoryMB req else rl_MaxMemoryMB (ps_defaultLimits s))\<rparr>"

definition buildEnv :: "string \<Rightarrow> (string \<times> string) list \<Rightarrow> string list" where
  "buildEnv tmpDir extra =
     [''PATH=/usr/local/bin:/usr/bin:/bin'', ''HOME='' @ tmpDir, ''TMPDIR='' @ tmpDir, ''LANG=en_US.UTF-8'', ''TERM=dumb''] @
     map (\<lambda>(k, v). k @ ''='' @ v) extra"

definition limit_script :: "ResourceLimits \<Rightarrow> string" where
  "limit_script limits =
     ''ulimit -v '' @ int_str (rl_MaxMemoryMB limits * 1024) @ '' 2>/dev/null; ulimit -t '' @ int_str (rl_MaxCPUSeconds limits) @
     '' 2>/dev/null; exec '' @ [CHR 0x22] @ ''$@'' @ [CHR 0x22]"

text \<open>\<open>run\<close> gets the program, its arguments, the directory, the environment and the timeout; \<open>tmp\<close> is the result of \<^verbatim>\<open>os.MkdirTemp\<close>.\<close>

type_synonym 'w runner = "string \<Rightarrow> string list \<Rightarrow> string \<Rightarrow> string list \<Rightarrow> duration \<Rightarrow> 'w \<Rightarrow> process_run \<times> 'w"

definition Process_Execute ::
  "'w runner \<Rightarrow> (string + string) \<Rightarrow> ProcessSandbox \<Rightarrow> ExecutionRequest \<Rightarrow> 'w \<Rightarrow> (sandbox_error + ExecutionResult) \<times> 'w" where
  "Process_Execute run tmp s req w =
     (if length (er_Command req) = 0 then (Inl EmptyCommand, w)
      else let timeout = (if er_Timeout req = 0 then ps_defaultTimeout s else er_Timeout req)
           in case tmp of
                Inl e \<Rightarrow> (Inl (CreatingTempDir e), w)
              | Inr tmpDir \<Rightarrow>
                  (let limits = resolveLimits s (er_Limits req);
                       args = [''-c'', limit_script limits, ''_''] @ er_Command req;
                       dir = (if er_WorkingDir req \<noteq> [] then er_WorkingDir req else tmpDir);
                       (r, w) = run ''/bin/sh'' args dir (buildEnv tmpDir (er_Env req)) timeout w
                   in (interpret_run timeout r, w)))"

section \<open>The Docker sandbox\<close>

record DockerConfig =
  dk_Image :: string
  dk_DefaultTimeout :: duration
  dk_MemoryMB :: int
  dk_CPUCores :: rat
  dk_PIDsLimit :: int
  dk_NetworkAllowed :: bool

definition NewDockerSandbox :: "DockerConfig \<Rightarrow> DockerConfig" where
  "NewDockerSandbox cfg =
     cfg\<lparr>dk_Image := (if dk_Image cfg = [] then ''akili-runtime:latest'' else dk_Image cfg),
         dk_DefaultTimeout := (if dk_DefaultTimeout cfg = 0 then 30 * Second else dk_DefaultTimeout cfg),
         dk_MemoryMB := (if dk_MemoryMB cfg = 0 then 512 else dk_MemoryMB cfg),
         dk_CPUCores := (if dk_CPUCores cfg \<le> 0 then 1 else dk_CPUCores cfg),
         dk_PIDsLimit := (if dk_PIDsLimit cfg \<le> 0 then 64 else dk_PIDsLimit cfg)\<rparr>"

text \<open>\<open>fmt\<close> is \<^verbatim>\<open>strconv.FormatFloat(x, 'f', 2, 64)\<close>.\<close>

definition buildDockerArgs :: "(rat \<Rightarrow> string) \<Rightarrow> DockerConfig \<Rightarrow> string \<Rightarrow> int \<Rightarrow> ExecutionRequest \<Rightarrow> string list" where
  "buildDockerArgs fmt cfg name memoryMB req =
     (let memoryFlag = int_str memoryMB @ ''m''
      in [''run'', ''--rm'', ''--name'', name, ''--cap-drop=ALL'', ''--security-opt=no-new-privileges'', ''--read-only'', ''--user=65534:65534'',
          ''--memory='' @ memoryFlag, ''--memory-swap='' @ memoryFlag, ''--cpus='' @ fmt (dk_CPUCores cfg),
          ''--pids-limit='' @ int_str (dk_PIDsLimit cfg),
          ''--tmpfs'', ''/tmp:rw,noexec,nosuid,size=64m'', ''--tmpfs'', ''/home/sandbox:rw,noexec,nosuid,size=64m'',
          ''--env'', ''HOME=/home/sandbox'', ''--env'', ''PATH=/usr/local/bin:/usr/bin:/bin'', ''--env'', ''LANG=en_US.UTF-8'',
          ''--env'', ''TERM=dumb''] @
         (if dk_NetworkAllowed cfg then [''--network=bridge''] else [''--network=none'']) @
         (if er_WorkingDir req \<noteq> [] then [''--workdir'', er_WorkingDir req] else [''--workdir'', ''/home/sandbox'']) @
         concat (map (\<lambda>(k, v). [''--env'', k @ ''='' @ v]) (er_Env req)) @
         [dk_Image cfg])"

text \<open>The removal of the container afterwards is a second run whose result is only logged.\<close>

definition forceRemoveContainer :: "'w runner \<Rightarrow> string \<Rightarrow> 'w \<Rightarrow> 'w" where
  "forceRemoveContainer run name w = snd (run ''docker'' [''rm'', ''-f'', name] [] [] (5 * Second) w)"

definition Docker_Execute ::
  "'w runner \<Rightarrow> (rat \<Rightarrow> string) \<Rightarrow> (string + string) \<Rightarrow> DockerConfig \<Rightarrow> ExecutionRequest \<Rightarrow> 'w \<Rightarrow> (sandbox_error + ExecutionResult) \<times> 'w" where
  "Docker_Execute run fmt name cfg req w =
     (if length (er_Command req) = 0 then (Inl EmptyCommand, w)
      else let timeout = (if er_Timeout req = 0 then dk_DefaultTimeout cfg else er_Timeout req)
           in case name of
                Inl e \<Rightarrow> (Inl (ContainerName e), w)
              | Inr containerName \<Rightarrow>
                  (let memoryMB = (if rl_MaxMemoryMB (er_Limits req) > 0 then rl_MaxMemoryMB (er_Limits req) else dk_MemoryMB cfg);
                       args = buildDockerArgs fmt cfg containerName memoryMB req @ er_Command req;
                       (r, w) = run ''docker'' args [] [] timeout w
                   in (interpret_run timeout r, forceRemoveContainer run containerName w)))"

section \<open>The tools\<close>

type_synonym 'w sandbox = "ExecutionRequest \<Rightarrow> 'w \<Rightarrow> (sandbox_error + ExecutionResult) \<times> 'w"

datatype command_error =
    CommandParameter param_error
  | InvalidTimeout string
  | SubcommandBlocked string
  | SubcommandNotAllowed string
  | SubcommandReadOnly string
  | LanguageNotAllowed string
  | NoInterpreter string
  | SandboxExecution sandbox_error

definition merged_output :: "ExecutionResult \<Rightarrow> string" where
  "merged_output r =
     (if xr_Stderr r \<noteq> [] then xr_Stdout r @ (if xr_Stdout r \<noteq> [] then [CHR 0x0A] else []) @ xr_Stderr r else xr_Stdout r)"

text \<open>\<open>dur\<close> is \<^verbatim>\<open>time.ParseDuration\<close>, \<open>show_d\<close> the text of a duration.\<close>

definition Shell_Validate :: "(string \<Rightarrow> duration option) \<Rightarrow> params \<Rightarrow> command_error option" where
  "Shell_Validate dur ps =
     (case requireString ps ''command'' of
        Inl e \<Rightarrow> Some (CommandParameter e)
      | Inr command \<Rightarrow>
          if param_string ps ''timeout'' \<noteq> [] \<and> dur (param_string ps ''timeout'') = None then Some (InvalidTimeout (param_string ps ''timeout''))
          else None)"

definition shell_timeout :: "(string \<Rightarrow> duration option) \<Rightarrow> params \<Rightarrow> command_error + duration" where
  "shell_timeout dur ps =
     (let t = param_string ps ''timeout''
      in if t = [] then Inr 0 else case dur t of None \<Rightarrow> Inl (InvalidTimeout t) | Some d \<Rightarrow> Inr d)"

definition Shell_Execute ::
  "(string \<Rightarrow> duration option) \<Rightarrow> (duration \<Rightarrow> string) \<Rightarrow> 'w sandbox \<Rightarrow> params \<Rightarrow> 'w \<Rightarrow> (command_error + Result) \<times> 'w" where
  "Shell_Execute dur show_d sbx ps w =
     (case requireString ps ''command'' of
        Inl e \<Rightarrow> (Inl (CommandParameter e), w)
      | Inr command \<Rightarrow>
          (case shell_timeout dur ps of
             Inl e \<Rightarrow> (Inl e, w)
           | Inr d \<Rightarrow>
               (case sbx ((command_request [''sh'', ''-c'', command])\<lparr>er_Timeout := d, er_WorkingDir := param_string ps ''working_dir''\<rparr>) w of
                  (Inl e, w) \<Rightarrow> (Inl (SandboxExecution e), w)
                | (Inr r, w) \<Rightarrow>
                    (Inr \<lparr>rs_Output = merged_output r,
                          rs_Metadata = [(''exit_code'', ANum (of_int (xr_ExitCode r))), (''duration'', AStr (show_d (xr_Duration r)))],
                          rs_Success = (xr_ExitCode r = 0)\<rparr>, w))))"

definition allowedSubcommands :: "string list" where
  "allowedSubcommands = [''log'', ''diff'', ''status'', ''show'', ''branch'']"

definition blockedSubcommands :: "string list" where
  "blockedSubcommands = [''push'', ''commit'', ''merge'', ''rebase'', ''reset'', ''checkout'', ''fetch'', ''pull'', ''remote'', ''init'', ''clone'', ''tag'', ''stash'']"

definition allowedWriteSubcommands :: "string list" where
  "allowedWriteSubcommands = [''add'', ''commit'', ''checkout'', ''branch'', ''tag'', ''stash'', ''merge'', ''rebase'', ''reset'', ''rm'', ''mv'',
     ''restore'', ''switch'', ''cherry-pick'']"

definition blockedWriteSubcommands :: "string list" where
  "blockedWriteSubcommands = [''push'', ''fetch'', ''pull'', ''remote'', ''clone'', ''init'', ''clean'']"

definition GitRead_Validate :: "params \<Rightarrow> command_error option" where
  "GitRead_Validate ps =
     (case requireString ps ''subcommand'' of
        Inl e \<Rightarrow> Some (CommandParameter e)
      | Inr subcmd \<Rightarrow>
          if subcmd \<in> set blockedSubcommands then Some (SubcommandBlocked subcmd)
          else if subcmd \<notin> set allowedSubcommands then Some (SubcommandNotAllowed subcmd)
          else (case requireString ps ''repo_path'' of Inl e \<Rightarrow> Some (CommandParameter e) | Inr p \<Rightarrow> None))"

definition GitWrite_Validate :: "params \<Rightarrow> command_error option" where
  "GitWrite_Validate ps =
     (case requireString ps ''subcommand'' of
        Inl e \<Rightarrow> Some (CommandParameter e)
      | Inr subcmd \<Rightarrow>
          if subcmd \<in> set blockedWriteSubcommands then Some (SubcommandBlocked subcmd)
          else if subcmd \<notin> set allowedWriteSubcommands
          then (if subcmd \<in> set allowedSubcommands then Some (SubcommandReadOnly subcmd) else Some (SubcommandNotAllowed subcmd))
          else (case requireString ps ''repo_path'' of Inl e \<Rightarrow> Some (CommandParameter e) | Inr p \<Rightarrow> None))"

definition git_request :: "params \<Rightarrow> ExecutionRequest" where
  "git_request ps =
     (let subcmd = string_or_empty (requireString ps ''subcommand'');
          args = (case map_of ps ''args'' of Some (AArr rawArgs) \<Rightarrow> strings_of rawArgs | _ \<Rightarrow> [])
      in (command_request ([''git'', subcmd] @ args))
           \<lparr>er_WorkingDir := string_or_empty (requireString ps ''repo_path''), er_Env := [(''GIT_TERMINAL_PROMPT'', ''0'')]\<rparr>)"

text \<open>\<^verbatim>\<open>Execute\<close> of both git tools.\<close>

definition Git_Execute :: "(duration \<Rightarrow> string) \<Rightarrow> 'w sandbox \<Rightarrow> params \<Rightarrow> 'w \<Rightarrow> (command_error + Result) \<times> 'w" where
  "Git_Execute show_d sbx ps w =
     (case sbx (git_request ps) w of
        (Inl e, w) \<Rightarrow> (Inl (SandboxExecution e), w)
      | (Inr r, w) \<Rightarrow>
          (Inr \<lparr>rs_Output = TruncateOutput (merged_output r) MaxOutputBytes,
                rs_Metadata = [(''subcommand'', AStr (string_or_empty (requireString ps ''subcommand''))),
                  (''exit_code'', ANum (of_int (xr_ExitCode r))), (''duration'', AStr (show_d (xr_Duration r)))],
                rs_Success = (xr_ExitCode r = 0)\<rparr>, w))"

definition interpreters :: "(string \<times> string) list" where
  "interpreters = [(''python3'', ''python3''), (''python'', ''python3''), (''sh'', ''sh''), (''bash'', ''bash'')]"

definition Code_Validate :: "string list \<Rightarrow> params \<Rightarrow> command_error option" where
  "Code_Validate allowed ps =
     (case requireString ps ''language'' of
        Inl e \<Rightarrow> Some (CommandParameter e)
      | Inr lang \<Rightarrow>
          if lang \<notin> set allowed then Some (LanguageNotAllowed lang)
          else if map_of interpreters lang = None then Some (NoInterpreter lang)
          else (case requireString ps ''code'' of Inl e \<Rightarrow> Some (CommandParameter e) | Inr c \<Rightarrow> None))"

definition code_script :: "string \<Rightarrow> string" where
  "code_script interpreter =
     (let q = [CHR 0x22] in ''printf '' @ [CHR 0x27] @ ''%s'' @ [CHR 0x27] @ '' '' @ q @ ''$1'' @ q @ '' > '' @ q @ ''$HOME/script'' @ q @ '' && '' @
        interpreter @ '' '' @ q @ ''$HOME/script'' @ q)"

definition Code_Execute :: "(duration \<Rightarrow> string) \<Rightarrow> 'w sandbox \<Rightarrow> params \<Rightarrow> 'w \<Rightarrow> (command_error + Result) \<times> 'w" where
  "Code_Execute show_d sbx ps w =
     (let lang = string_or_empty (requireString ps ''language''); code = string_or_empty (requireString ps ''code'');
          interpreter = (case map_of interpreters lang of None \<Rightarrow> [] | Some i \<Rightarrow> i)
      in case sbx (command_request [''sh'', ''-c'', code_script interpreter, ''_'', code]) w of
           (Inl e, w) \<Rightarrow> (Inl (SandboxExecution e), w)
         | (Inr r, w) \<Rightarrow>
             (Inr \<lparr>rs_Output = TruncateOutput (merged_output r) MaxOutputBytes,
                   rs_Metadata = [(''language'', AStr lang), (''exit_code'', ANum (of_int (xr_ExitCode r))),
                     (''duration'', AStr (show_d (xr_Duration r)))],
                   rs_Success = (xr_ExitCode r = 0)\<rparr>, w))"

section \<open>Captured output\<close>

lemma Write_cases:
  assumes "LW_Write lw p = (n, lw')"
  shows "lw_w lw' = lw_w lw @ take (nat (lw_remaining lw)) p \<and> lw_remaining lw' = lw_remaining lw - int (length (take (nat (lw_remaining lw)) p)) \<and>
    (n = int (length p) \<longleftrightarrow> lw_remaining lw \<le> 0 \<or> int (length p) \<le> lw_remaining lw)"
  using assms by (auto simp: LW_Write_def Let_def split: if_splits)

text \<open>Copying keeps a prefix of what was written, within the limit, and all of it if it fits; copying succeeds then.\<close>

lemma copy_spec:
  "copy lw ps = (bad, lw') \<Longrightarrow> 0 \<le> lw_remaining lw \<Longrightarrow>
     \<exists>q. lw_w lw' = lw_w lw @ q \<and> prefix q (concat ps) \<and> int (length q) \<le> lw_remaining lw \<and>
       (int (length (concat ps)) \<le> lw_remaining lw \<longrightarrow> q = concat ps \<and> \<not> bad) \<and>
       (\<not> bad \<longrightarrow> q = take (nat (lw_remaining lw)) (concat ps))"
proof (induction ps arbitrary: lw)
  case (Cons p ps)
  obtain n lw1 where w: "LW_Write lw p = (n, lw1)" by fastforce
  let ?q = "take (nat (lw_remaining lw)) p"
  note c = Write_cases[OF w]
  have r1: "0 \<le> lw_remaining lw1" using c Cons.prems(2) by simp
  show ?case
  proof (cases "n = int (length p)")
    case False
    with Cons.prems w c have "bad" "lw' = lw1" "lw_remaining lw < int (length p)" by auto
    with c Cons.prems(2) show ?thesis by (auto intro!: exI[of _ ?q] take_is_prefix prefix_prefix)
  next
    case True
    with Cons.prems(1) w have "copy lw1 ps = (bad, lw')" by simp
    from Cons.IH[OF this r1] obtain q where q: "lw_w lw' = lw_w lw1 @ q" "prefix q (concat ps)" "int (length q) \<le> lw_remaining lw1"
        "int (length (concat ps)) \<le> lw_remaining lw1 \<longrightarrow> q = concat ps \<and> \<not> bad"
        "\<not> bad \<longrightarrow> q = take (nat (lw_remaining lw1)) (concat ps)" by blast
    show ?thesis
    proof (cases "int (length p) \<le> lw_remaining lw")
      case fits: True
      with c q show ?thesis by (intro exI[of _ "p @ q"]) (auto simp: nat_diff_distrib)
    next
      case False
      with True c Cons.prems(2) have "lw_remaining lw = 0" by auto
      moreover from False this have "\<not> int (length p) + int (length (concat ps)) \<le> 0" by (cases p) auto
      ultimately show ?thesis using c q by (intro exI[of _ "[]"]) auto
    qed
  qed
qed auto

text \<open>
  (C16) Capped output: what a sandboxed command's result shows of each stream is exactly its first megabyte when the command succeeds,
  and a prefix within a megabyte otherwise; output that fits is never lost and never makes the execution fail.
\<close>

theorem sandbox_output_capped:
  assumes "run ''/bin/sh'' ([''-c'', limit_script (resolveLimits s (er_Limits req)), ''_''] @ er_Command req)
      (if er_WorkingDir req \<noteq> [] then er_WorkingDir req else tmpDir) (buildEnv tmpDir (er_Env req))
      (if er_Timeout req = 0 then ps_defaultTimeout s else er_Timeout req) w = (r, w')"
    and "Process_Execute run (Inr tmpDir) s req w = (res, w'')" and "er_Command req \<noteq> []"
  shows "(\<forall>x. res = Inr x \<longrightarrow> prefix (xr_Stdout x) (concat (pr_stdout r)) \<and> prefix (xr_Stderr x) (concat (pr_stderr r)) \<and>
      int (length (xr_Stdout x)) \<le> 1048576 \<and> int (length (xr_Stderr x)) \<le> 1048576 \<and>
      (xr_ExitCode x = 0 \<longrightarrow> xr_Stdout x = take 1048576 (concat (pr_stdout r)) \<and> xr_Stderr x = take 1048576 (concat (pr_stderr r)))) \<and>
    (int (length (concat (pr_stdout r))) \<le> 1048576 \<and> int (length (concat (pr_stderr r))) \<le> 1048576 \<and> pr_startError r = None \<and> \<not> pr_ended r \<longrightarrow>
      res = Inr \<lparr>xr_Stdout = concat (pr_stdout r), xr_Stderr = concat (pr_stderr r), xr_ExitCode = pr_exitCode r, xr_Duration = pr_duration r\<rparr>)"
proof -
  let ?lw = "\<lparr>lw_w = [], lw_remaining = sb_maxOutputBytes\<rparr>"
  let ?t = "if er_Timeout req = 0 then ps_defaultTimeout s else er_Timeout req"
  have res: "res = interpret_run ?t r" using assms by (simp add: Process_Execute_def Let_def)
  obtain b1 l1 where c1: "copy ?lw (pr_stdout r) = (b1, l1)" by fastforce
  obtain b2 l2 where c2: "copy ?lw (pr_stderr r) = (b2, l2)" by fastforce
  have s1: "prefix (lw_w l1) (concat (pr_stdout r)) \<and> int (length (lw_w l1)) \<le> 1048576 \<and>
      (int (length (concat (pr_stdout r))) \<le> 1048576 \<longrightarrow> lw_w l1 = concat (pr_stdout r) \<and> \<not> b1) \<and> (\<not> b1 \<longrightarrow> lw_w l1 = take 1048576 (concat (pr_stdout r)))"
    using copy_spec[OF c1] by (simp add: sb_maxOutputBytes_def)
  have s2: "prefix (lw_w l2) (concat (pr_stderr r)) \<and> int (length (lw_w l2)) \<le> 1048576 \<and>
      (int (length (concat (pr_stderr r))) \<le> 1048576 \<longrightarrow> lw_w l2 = concat (pr_stderr r) \<and> \<not> b2) \<and> (\<not> b2 \<longrightarrow> lw_w l2 = take 1048576 (concat (pr_stderr r)))"
    using copy_spec[OF c2] by (simp add: sb_maxOutputBytes_def)
  show ?thesis
    unfolding res interpret_run_def Let_def c1 c2 prod.case using s1 s2
    by (cases "pr_startError r"; cases "pr_exitCode r = 0"; cases b1; cases b2; cases "pr_ended r") auto
qed

definition demo_run_result :: process_run where
  "demo_run_result = \<lparr>pr_startError = None, pr_stdout = [''ab'', ''c''], pr_stderr = [], pr_exitCode = 0, pr_ended = False, pr_duration = 1\<rparr>"

theorem sandbox_output_capped_witness:
  "fst (Process_Execute (\<lambda>p args d env t w. (demo_run_result, w)) (Inr ''/tmp/x'')
     (NewProcessSandbox 0 \<lparr>rl_MaxCPUSeconds = 0, rl_MaxMemoryMB = 0\<rparr>) (command_request [''ls'']) (0::nat)) =
   Inr \<lparr>xr_Stdout = ''abc'', xr_Stderr = [], xr_ExitCode = 0, xr_Duration = 1\<rparr>"
  using sandbox_output_capped[of "\<lambda>p args d env t w. (demo_run_result, w)"
      "NewProcessSandbox 0 \<lparr>rl_MaxCPUSeconds = 0, rl_MaxMemoryMB = 0\<rparr>" "command_request [''ls'']" "''/tmp/x''" 0 demo_run_result 0
      "fst (Process_Execute (\<lambda>p args d env t w. (demo_run_result, w)) (Inr ''/tmp/x'')
     (NewProcessSandbox 0 \<lparr>rl_MaxCPUSeconds = 0, rl_MaxMemoryMB = 0\<rparr>) (command_request [''ls'']) (0::nat))"
      "snd (Process_Execute (\<lambda>p args d env t w. (demo_run_result, w)) (Inr ''/tmp/x'')
     (NewProcessSandbox 0 \<lparr>rl_MaxCPUSeconds = 0, rl_MaxMemoryMB = 0\<rparr>) (command_request [''ls'']) (0::nat))"]
  by (simp add: demo_run_result_def command_request_def)

section \<open>Behaviours that contradict the comments\<close>

text \<open>A write that crosses the limit is reported as short, which makes the copy fail: a successful command whose
  output does not fit is reported as failed instead of being capped.\<close>

theorem output_over_limit_fails:
  assumes "pr_startError r = None" "pr_exitCode r = 0" "\<not> pr_ended r" "pr_stdout r = [p]" "int (length p) > 1048576"
  shows "interpret_run timeout r = Inl CopyFailed"
  using assms by (auto simp: interpret_run_def Let_def LW_Write_def sb_maxOutputBytes_def split: prod.split)

text \<open>The read-only git tool accepts any arguments: it deletes a branch.\<close>

theorem git_read_deletes_branch:
  "let ps = [(''subcommand'', AStr ''branch''), (''repo_path'', AStr ''/r''), (''args'', AArr [AStr ''-D'', AStr ''main''])]
   in GitRead_Validate ps = None \<and> er_Command (git_request ps) = [''git'', ''branch'', ''-D'', ''main'']"
  by code_simp

end
