(* ===== verification/Infra.thy ===== *)
theory Infra
  imports ToolParams "HOL-Library.AList" "HOL-Library.Char_ord" "HOL-Library.List_Lexorder"
begin

text \<open>
  Infrastructure nodes and their credentials (\<^verbatim>\<open>infra/infra.go\<close>, \<^verbatim>\<open>infra/memory.go\<close>, \<^verbatim>\<open>storage/postgres/infra_repo.go\<close>, \<^verbatim>\<open>secrets/*.go\<close>) and the
  tools on them (\<^verbatim>\<open>tools/infra/*.go\<close>).

  The tools work on the interface \<^verbatim>\<open>infra.Store\<close>, here a record of operations. The in-memory store hands out pointers to its own
  nodes, the database repository copies: \<open>no_alias\<close> is what writing to a node that was looked up does to the store. The
  interface \<open>node_store\<close> states what a lookup promises; both stores are instances. JSON encoding, parsing of UUIDs and the
  remote tool (an MCP tool of the registry) are parameters.
\<close>

section \<open>Nodes and stores\<close>

record InfraNode =
  in_ID :: uuid
  in_OrgID :: uuid
  in_Name :: string
  in_Aliases :: "string list"
  in_NodeType :: string
  in_Host :: string
  in_Port :: int
  in_User :: string
  in_CredentialRef :: string
  in_Tags :: "(string \<times> string) list"
  in_MCPServer :: string
  in_Enabled :: bool
  in_CreatedAt :: time
  in_UpdatedAt :: time

datatype infra_error = NodeNotFound string | NodeExists string | DuplicateRow

definition SanitizeForLLM :: "(uuid \<Rightarrow> string) \<Rightarrow> InfraNode \<Rightarrow> params" where
  "SanitizeForLLM ustr n =
     [(''id'', AStr (ustr (in_ID n))), (''name'', AStr (in_Name n)), (''aliases'', AArr (map AStr (in_Aliases n))), (''type'', AStr (in_NodeType n)),
      (''host'', AStr (in_Host n)), (''port'', ANum (of_int (in_Port n))), (''user'', AStr (in_User n)),
      (''tags'', AObj (map (\<lambda>(k, v). (k, AStr v)) (in_Tags n))), (''mcp_server'', AStr (in_MCPServer n)), (''enabled'', ABool (in_Enabled n))]"

subsection \<open>In memory\<close>

type_synonym MemoryStore = "(uuid \<times> InfraNode) list"

definition named :: "string \<Rightarrow> InfraNode \<Rightarrow> bool" where
  "named lower n \<longleftrightarrow> ToLower (in_Name n) = lower \<or> (\<exists>alias \<in> set (in_Aliases n). ToLower alias = lower)"

definition Mem_Lookup :: "(string \<Rightarrow> uuid option) \<Rightarrow> MemoryStore \<Rightarrow> uuid \<Rightarrow> string \<Rightarrow> infra_error + InfraNode" where
  "Mem_Lookup parse s orgID query =
     (let by_id = (case parse query of
            None \<Rightarrow> None
          | Some i \<Rightarrow> (case map_of s i of
                Some n \<Rightarrow> if in_OrgID n = orgID \<and> in_Enabled n then Some n else None
              | None \<Rightarrow> None))
      in case by_id of
           Some n \<Rightarrow> Inr n
         | None \<Rightarrow>
             (case find (\<lambda>n. in_OrgID n = orgID \<and> in_Enabled n \<and> named (ToLower query) n) (map snd s) of
                Some n \<Rightarrow> Inr n
              | None \<Rightarrow> Inl (NodeNotFound query)))"

definition Mem_List :: "MemoryStore \<Rightarrow> uuid \<Rightarrow> string \<Rightarrow> InfraNode list" where
  "Mem_List s orgID nodeType =
     filter (\<lambda>n. in_OrgID n = orgID \<and> in_Enabled n \<and> (nodeType \<noteq> [] \<longrightarrow> in_NodeType n = nodeType)) (map snd s)"

definition Mem_Create :: "time \<Rightarrow> uuid \<Rightarrow> MemoryStore \<Rightarrow> InfraNode \<Rightarrow> (infra_error + InfraNode) \<times> MemoryStore" where
  "Mem_Create now fresh s n =
     (if \<exists>m \<in> set (map snd s). in_OrgID m = in_OrgID n \<and> ToLower (in_Name m) = ToLower (in_Name n)
      then (Inl (NodeExists (in_Name n)), s)
      else let n = n\<lparr>in_ID := (if in_ID n = 0 then fresh else in_ID n), in_CreatedAt := now, in_UpdatedAt := now\<rparr>
           in (Inr n, AList.update (in_ID n) n s))"

definition Mem_Update :: "(uuid \<Rightarrow> string) \<Rightarrow> time \<Rightarrow> MemoryStore \<Rightarrow> InfraNode \<Rightarrow> (infra_error + InfraNode) \<times> MemoryStore" where
  "Mem_Update ustr now s n =
     (case map_of s (in_ID n) of
        None \<Rightarrow> (Inl (NodeNotFound (ustr (in_ID n))), s)
      | Some existing \<Rightarrow>
          if in_OrgID existing \<noteq> in_OrgID n then (Inl (NodeNotFound (ustr (in_ID n))), s)
          else if ToLower (in_Name existing) \<noteq> ToLower (in_Name n) \<and>
                  (\<exists>m \<in> set (map snd s). in_ID m \<noteq> in_ID n \<and> in_OrgID m = in_OrgID n \<and> ToLower (in_Name m) = ToLower (in_Name n))
          then (Inl (NodeExists (in_Name n)), s)
          else let n = n\<lparr>in_UpdatedAt := now\<rparr> in (Inr n, AList.update (in_ID n) n s))"

definition Mem_Delete :: "(uuid \<Rightarrow> string) \<Rightarrow> MemoryStore \<Rightarrow> uuid \<Rightarrow> uuid \<Rightarrow> infra_error option \<times> MemoryStore" where
  "Mem_Delete ustr s orgID nodeID =
     (case map_of s nodeID of
        None \<Rightarrow> (Some (NodeNotFound (ustr nodeID)), s)
      | Some n \<Rightarrow> if in_OrgID n \<noteq> orgID then (Some (NodeNotFound (ustr nodeID)), s) else (None, AList.delete nodeID s))"

subsection \<open>In the database\<close>

text \<open>A row is a node with the mark of a soft delete; the primary key and the name within the organisation are unique over all
  rows. \<^verbatim>\<open>First\<close> orders by the primary key.\<close>

record infra_row =
  ir_node :: InfraNode
  ir_deleted :: bool

definition first_row :: "infra_row list \<Rightarrow> (InfraNode \<Rightarrow> bool) \<Rightarrow> InfraNode option" where
  "first_row rows P = find P (map ir_node (sort_key (\<lambda>r. in_ID (ir_node r)) (filter (\<lambda>r. \<not> ir_deleted r) rows)))"

definition Repo_Lookup :: "(string \<Rightarrow> uuid option) \<Rightarrow> infra_row list \<Rightarrow> uuid \<Rightarrow> string \<Rightarrow> infra_error + InfraNode" where
  "Repo_Lookup parse rows orgID query =
     (let ok = (\<lambda>P. first_row rows (\<lambda>n. in_OrgID n = orgID \<and> in_Enabled n \<and> P n))
      in case Option.bind (parse query) (\<lambda>i. ok (\<lambda>n. in_ID n = i)) of
           Some n \<Rightarrow> Inr n
         | None \<Rightarrow>
             (case ok (\<lambda>n. ToLower (in_Name n) = ToLower query) of
                Some n \<Rightarrow> Inr n
              | None \<Rightarrow>
                  (case ok (\<lambda>n. \<exists>a \<in> set (in_Aliases n). ToLower a = ToLower query) of
                     Some n \<Rightarrow> Inr n
                   | None \<Rightarrow> Inl (NodeNotFound query))))"

definition Repo_List :: "infra_row list \<Rightarrow> uuid \<Rightarrow> string \<Rightarrow> InfraNode list" where
  "Repo_List rows orgID nodeType =
     sort_key in_Name (filter (\<lambda>n. in_OrgID n = orgID \<and> in_Enabled n \<and> (nodeType \<noteq> [] \<longrightarrow> in_NodeType n = nodeType))
       (map ir_node (filter (\<lambda>r. \<not> ir_deleted r) rows)))"

definition violates :: "infra_row list \<Rightarrow> InfraNode \<Rightarrow> bool" where
  "violates rows n \<longleftrightarrow>
     (\<exists>r \<in> set rows. in_ID (ir_node r) \<noteq> in_ID n \<and> in_OrgID (ir_node r) = in_OrgID n \<and> in_Name (ir_node r) = in_Name n)"

definition Repo_Create :: "time \<Rightarrow> uuid \<Rightarrow> infra_row list \<Rightarrow> InfraNode \<Rightarrow> (infra_error + InfraNode) \<times> infra_row list" where
  "Repo_Create now fresh rows n =
     (let n = n\<lparr>in_ID := (if in_ID n = 0 then fresh else in_ID n), in_CreatedAt := now, in_UpdatedAt := now\<rparr>
      in if (\<exists>r \<in> set rows. in_ID (ir_node r) = in_ID n) \<or> violates rows n then (Inl DuplicateRow, rows)
         else (Inr n, rows @ [\<lparr>ir_node = n\<lparr>in_Enabled := True\<rparr>, ir_deleted = False\<rparr>]))"

definition Repo_Update :: "time \<Rightarrow> infra_row list \<Rightarrow> InfraNode \<Rightarrow> (infra_error + InfraNode) \<times> infra_row list" where
  "Repo_Update now rows n =
     (let n = n\<lparr>in_UpdatedAt := now\<rparr>; row = \<lparr>ir_node = n, ir_deleted = False\<rparr>
      in if violates rows n then (Inl DuplicateRow, rows)
         else if \<exists>r \<in> set rows. in_ID (ir_node r) = in_ID n
         then (Inr n, map (\<lambda>r. if in_ID (ir_node r) = in_ID n then row else r) rows)
         else (Inr n, rows @ [row]))"

definition Repo_Delete :: "(uuid \<Rightarrow> string) \<Rightarrow> infra_row list \<Rightarrow> uuid \<Rightarrow> uuid \<Rightarrow> infra_error option \<times> infra_row list" where
  "Repo_Delete ustr rows orgID nodeID =
     (let hit = (\<lambda>r. in_ID (ir_node r) = nodeID \<and> in_OrgID (ir_node r) = orgID \<and> \<not> ir_deleted r)
      in if \<exists>r \<in> set rows. hit r then (None, map (\<lambda>r. if hit r then r\<lparr>ir_deleted := True\<rparr> else r) rows)
         else (Some (NodeNotFound (ustr nodeID)), rows))"

subsection \<open>The store interface\<close>

record 's node_ops =
  no_lookup :: "'s \<Rightarrow> uuid \<Rightarrow> string \<Rightarrow> infra_error + InfraNode"
  no_list :: "'s \<Rightarrow> uuid \<Rightarrow> string \<Rightarrow> InfraNode list"
  no_create :: "time \<Rightarrow> uuid \<Rightarrow> 's \<Rightarrow> InfraNode \<Rightarrow> (infra_error + InfraNode) \<times> 's"
  no_update :: "time \<Rightarrow> 's \<Rightarrow> InfraNode \<Rightarrow> (infra_error + InfraNode) \<times> 's"
  no_delete :: "'s \<Rightarrow> uuid \<Rightarrow> uuid \<Rightarrow> infra_error option \<times> 's"
  no_alias :: "'s \<Rightarrow> InfraNode \<Rightarrow> 's"

definition mem_ops :: "(string \<Rightarrow> uuid option) \<Rightarrow> (uuid \<Rightarrow> string) \<Rightarrow> MemoryStore node_ops" where
  "mem_ops parse ustr = \<lparr>no_lookup = Mem_Lookup parse, no_list = Mem_List, no_create = Mem_Create, no_update = Mem_Update ustr,
     no_delete = Mem_Delete ustr, no_alias = (\<lambda>s n. AList.update (in_ID n) n s)\<rparr>"

definition repo_ops :: "(string \<Rightarrow> uuid option) \<Rightarrow> (uuid \<Rightarrow> string) \<Rightarrow> infra_row list node_ops" where
  "repo_ops parse ustr = \<lparr>no_lookup = Repo_Lookup parse, no_list = Repo_List, no_create = Repo_Create, no_update = Repo_Update,
     no_delete = Repo_Delete ustr, no_alias = (\<lambda>s n. s)\<rparr>"

section \<open>Secrets\<close>

record Secret =
  sec_Value :: string
  sec_Metadata :: "(string \<times> string) list"

datatype secret_error = SecretNotFound string | OtherSecretError string

type_synonym secret_provider = "string \<Rightarrow> secret_error + Secret"

definition Env_Resolve :: "(string \<Rightarrow> string) \<Rightarrow> secret_provider" where
  "Env_Resolve getenv ref =
     (if \<not> HasPrefix ref ''env://'' then Inl (SecretNotFound ref)
      else let envVar = drop 6 ref
           in if envVar = [] then Inl (SecretNotFound ref)
              else if getenv envVar = [] then Inl (SecretNotFound envVar)
              else Inr \<lparr>sec_Value = getenv envVar, sec_Metadata = [(''source'', ''env''), (''variable'', envVar)]\<rparr>)"

fun try_providers :: "secret_error option \<Rightarrow> secret_provider list \<Rightarrow> secret_provider" where
  "try_providers lastErr [] ref = Inl (case lastErr of Some e \<Rightarrow> e | None \<Rightarrow> SecretNotFound ref)"
| "try_providers lastErr (p # ps) ref = (case p ref of Inr s \<Rightarrow> Inr s | Inl e \<Rightarrow> try_providers (Some e) ps ref)"

definition Composite_Resolve :: "secret_provider list \<Rightarrow> secret_provider" where
  "Composite_Resolve ps ref = try_providers None ps ref"

section \<open>Executing on a node\<close>

datatype infra_tool_error =
    InfraParameter param_error
  | QueryRequired
  | BadInfraOperation string
  | FieldRequired string string
  | UnknownInfraOperation string
  | TypeAssertionPanic string
  | InvalidNodeID string
  | StoreRefused infra_error
  | ResolvingNode string infra_error
  | ResolvingCredentials string secret_error
  | NoMCPTool string
  | RemoteFailed string string

function replace_all :: "string \<Rightarrow> string \<Rightarrow> string \<Rightarrow> string" where
  "replace_all old new [] = []"
| "replace_all old new (c # s) =
     (if old \<noteq> [] \<and> HasPrefix (c # s) old then new @ replace_all old new (drop (length old) (c # s)) else c # replace_all old new s)"
  by pat_completeness auto
termination
  by (relation "measure (\<lambda>(old, new, s). length s)") auto

definition redacted :: string where "redacted = ''[REDACTED]''"

definition sanitizeOutput :: "string \<Rightarrow> string \<Rightarrow> string" where
  "sanitizeOutput output secret = (if secret = [] then output else replace_all secret redacted output)"

definition Exec_Validate :: "params \<Rightarrow> infra_tool_error option" where
  "Exec_Validate ps =
     (case requireString ps ''node'' of
        Inl e \<Rightarrow> Some (InfraParameter e)
      | Inr n \<Rightarrow> (case requireString ps ''command'' of Inl e \<Rightarrow> Some (InfraParameter e) | Inr c \<Rightarrow> None))"

fun first_tool :: "'w Registry \<Rightarrow> string list \<Rightarrow> 'w Tool option" where
  "first_tool reg [] = None"
| "first_tool reg (name # names) = (case Registry_Get reg name of Some t \<Rightarrow> Some t | None \<Rightarrow> first_tool reg names)"

definition findMCPTool :: "'w Registry \<Rightarrow> string \<Rightarrow> 'w Tool option" where
  "findMCPTool reg mcpServer =
     first_tool reg [''mcp__'' @ mcpServer @ ''__execute'', ''mcp__'' @ mcpServer @ ''__remote_exec'', ''mcp__'' @ mcpServer @ ''__run'']"

definition mcp_params :: "InfraNode \<Rightarrow> string \<Rightarrow> string \<Rightarrow> Secret option \<Rightarrow> params" where
  "mcp_params n command timeout credential =
     [(''host'', AStr (in_Host n)), (''port'', ANum (of_int (in_Port n))), (''user'', AStr (in_User n)), (''command'', AStr command),
      (''timeout'', AStr timeout), (''node_type'', AStr (in_NodeType n))] @
     (case credential of None \<Rightarrow> [] | Some c \<Rightarrow> [(''credential'', AStr (sec_Value c))])"

definition hide :: "Secret option \<Rightarrow> string \<Rightarrow> string" where
  "hide credential text = (case credential of None \<Rightarrow> text | Some c \<Rightarrow> sanitizeOutput text (sec_Value c))"

definition Exec_Execute ::
  "'s node_ops \<Rightarrow> secret_provider \<Rightarrow> 'w Registry \<Rightarrow> uuid \<Rightarrow> 's \<Rightarrow> string \<Rightarrow> params \<Rightarrow> 'w \<Rightarrow> (infra_tool_error + Result) \<times> 'w" where
  "Exec_Execute ops provider reg orgID s user ps w =
     (let nodeQuery = string_or_empty (requireString ps ''node''); command = string_or_empty (requireString ps ''command'');
          timeout = param_or ps ''timeout'' ''30s''
      in case no_lookup ops s orgID nodeQuery of
           Inl e \<Rightarrow> (Inl (ResolvingNode nodeQuery e), w)
         | Inr n \<Rightarrow>
             (case (if in_CredentialRef n \<noteq> [] then map_sum id Some (provider (in_CredentialRef n)) else Inr None) of
                Inl e \<Rightarrow> (Inl (ResolvingCredentials (in_Name n) e), w)
              | Inr credential \<Rightarrow>
                  (case findMCPTool reg (in_MCPServer n) of
                     None \<Rightarrow> (Inl (NoMCPTool (in_MCPServer n)), w)
                   | Some mcpTool \<Rightarrow>
                       (case tool_Execute mcpTool user (mcp_params n command timeout credential) w of
                          (Inl err, w) \<Rightarrow> (Inl (RemoteFailed (in_Name n) (hide credential err)), w)
                        | (Inr result, w) \<Rightarrow>
                            (Inr \<lparr>rs_Output = TruncateOutput (hide credential (rs_Output result)) MaxOutputBytes,
                                  rs_Metadata = [(''node_name'', AStr (in_Name n)), (''node_type'', AStr (in_NodeType n)), (''host'', AStr (in_Host n)),
                                    (''mcp_server'', AStr (in_MCPServer n))],
                                  rs_Success = rs_Success result\<rparr>, w)))))"

section \<open>Looking up and managing nodes\<close>

text \<open>\<open>json\<close> is \<^verbatim>\<open>json.MarshalIndent\<close>.\<close>

definition Lookup_Validate :: "params \<Rightarrow> infra_tool_error option" where
  "Lookup_Validate ps =
     (let op = param_or ps ''operation'' ''lookup''
      in if op = ''lookup'' \<and> param_string ps ''query'' = [] then Some QueryRequired
         else if op \<noteq> ''lookup'' \<and> op \<noteq> ''list'' then Some (BadInfraOperation op) else None)"

definition Lookup_Execute ::
  "(any \<Rightarrow> string) \<Rightarrow> (uuid \<Rightarrow> string) \<Rightarrow> 's node_ops \<Rightarrow> uuid \<Rightarrow> 's \<Rightarrow> params \<Rightarrow> infra_tool_error + Result" where
  "Lookup_Execute json ustr ops orgID s ps =
     (if param_or ps ''operation'' ''lookup'' = ''list''
      then (let nodes = no_list ops s orgID (param_string ps ''node_type'')
            in Inr \<lparr>rs_Output = json (AArr (map (\<lambda>n. AObj (SanitizeForLLM ustr n)) nodes)),
                    rs_Metadata = [(''count'', ANum (of_nat (length nodes)))], rs_Success = True\<rparr>)
      else case no_lookup ops s orgID (param_string ps ''query'') of
             Inl e \<Rightarrow> Inl (StoreRefused e)
           | Inr n \<Rightarrow> Inr \<lparr>rs_Output = json (AObj (SanitizeForLLM ustr n)), rs_Metadata = [(''node_id'', AStr (ustr (in_ID n)))],
                            rs_Success = True\<rparr>)"

definition Manage_Validate :: "params \<Rightarrow> infra_tool_error option" where
  "Manage_Validate ps =
     (let op = param_string ps ''operation''
      in if op = ''add''
         then (if param_string ps ''name'' = [] then Some (FieldRequired ''name'' op)
               else if param_string ps ''host'' = [] then Some (FieldRequired ''host'' op)
               else if param_string ps ''node_type'' = [] then Some (FieldRequired ''node_type'' op) else None)
         else if op = ''update'' \<or> op = ''remove''
         then (if param_string ps ''node_id'' = [] then Some (FieldRequired ''node_id'' op) else None)
         else Some (BadInfraOperation op))"

fun string_tags :: "(string \<times> any) list \<Rightarrow> (string \<times> string) list" where
  "string_tags [] = []"
| "string_tags ((k, AStr s) # ts) = (k, s) # string_tags ts"
| "string_tags (t # ts) = string_tags ts"

text \<open>The optional fields that adding and updating treat alike; \<open>trunc\<close> is the conversion \<^verbatim>\<open>int(float64)\<close>.\<close>

definition apply_optional :: "(rat \<Rightarrow> int) \<Rightarrow> params \<Rightarrow> InfraNode \<Rightarrow> InfraNode" where
  "apply_optional trunc ps n =
     (let n = (case map_of ps ''aliases'' of Some (AArr as) \<Rightarrow> n\<lparr>in_Aliases := strings_of as\<rparr> | _ \<Rightarrow> n);
          n = (case map_of ps ''port'' of Some (ANum p) \<Rightarrow> n\<lparr>in_Port := trunc p\<rparr> | _ \<Rightarrow> n);
          n = (case map_of ps ''user'' of Some (AStr u) \<Rightarrow> n\<lparr>in_User := u\<rparr> | _ \<Rightarrow> n);
          n = (case map_of ps ''credential_ref'' of Some (AStr r) \<Rightarrow> n\<lparr>in_CredentialRef := r\<rparr> | _ \<Rightarrow> n);
          n = (case map_of ps ''tags'' of Some (AObj ts) \<Rightarrow> n\<lparr>in_Tags := string_tags ts\<rparr> | _ \<Rightarrow> n)
      in (case map_of ps ''mcp_server'' of Some (AStr m) \<Rightarrow> n\<lparr>in_MCPServer := m\<rparr> | _ \<Rightarrow> n))"

definition node_report :: "(any \<Rightarrow> string) \<Rightarrow> (uuid \<Rightarrow> string) \<Rightarrow> (string \<Rightarrow> string) \<Rightarrow> string \<Rightarrow> params \<Rightarrow> InfraNode \<Rightarrow> Result" where
  "node_report json ustr quote verb metadata n =
     \<lparr>rs_Output = ''Node '' @ quote (in_Name n) @ '' '' @ verb @ '' successfully.'' @ [CHR 0x0A] @ json (AObj (SanitizeForLLM ustr n)),
      rs_Metadata = metadata, rs_Success = True\<rparr>"

record manage_env =
  me_json :: "any \<Rightarrow> string"
  me_ustr :: "uuid \<Rightarrow> string"
  me_parse :: "string \<Rightarrow> uuid option"
  me_quote :: "string \<Rightarrow> string"
  me_trunc :: "rat \<Rightarrow> int"

definition executeAdd ::
  "manage_env \<Rightarrow> 's node_ops \<Rightarrow> uuid \<Rightarrow> time \<Rightarrow> uuid \<Rightarrow> 's \<Rightarrow> params \<Rightarrow> (infra_tool_error + Result) \<times> 's" where
  "executeAdd me ops orgID now fresh s ps =
     (case (map_of ps ''name'', map_of ps ''node_type'', map_of ps ''host'') of
        (Some (AStr name), Some (AStr nodeType), Some (AStr host)) \<Rightarrow>
          (let n = apply_optional (me_trunc me) ps
                 \<lparr>in_ID = fresh, in_OrgID = orgID, in_Name = name, in_Aliases = [], in_NodeType = nodeType, in_Host = host, in_Port = 0, in_User = [],
                  in_CredentialRef = [], in_Tags = [], in_MCPServer = [], in_Enabled = True, in_CreatedAt = now, in_UpdatedAt = now\<rparr>
           in case no_create ops now fresh s n of
                (Inl e, s) \<Rightarrow> (Inl (StoreRefused e), s)
              | (Inr n, s) \<Rightarrow> (Inr (node_report (me_json me) (me_ustr me) (me_quote me) ''created'' [(''node_id'', AStr (me_ustr me (in_ID n)))] n), s))
      | _ \<Rightarrow> (Inl (TypeAssertionPanic ''executeAdd''), s))"

definition apply_names :: "params \<Rightarrow> InfraNode \<Rightarrow> InfraNode" where
  "apply_names ps n =
     (let n = (if param_string ps ''name'' \<noteq> [] then n\<lparr>in_Name := param_string ps ''name''\<rparr> else n);
          n = (if param_string ps ''node_type'' \<noteq> [] then n\<lparr>in_NodeType := param_string ps ''node_type''\<rparr> else n)
      in if param_string ps ''host'' \<noteq> [] then n\<lparr>in_Host := param_string ps ''host''\<rparr> else n)"

definition executeUpdate ::
  "manage_env \<Rightarrow> 's node_ops \<Rightarrow> uuid \<Rightarrow> time \<Rightarrow> 's \<Rightarrow> params \<Rightarrow> (infra_tool_error + Result) \<times> 's" where
  "executeUpdate me ops orgID now s ps =
     (let nodeIDStr = param_string ps ''node_id''
      in case me_parse me nodeIDStr of
           None \<Rightarrow> (Inl (InvalidNodeID nodeIDStr), s)
         | Some nodeID \<Rightarrow>
             (case no_lookup ops s orgID nodeIDStr of
                Inl e \<Rightarrow> (Inl (StoreRefused e), s)
              | Inr n \<Rightarrow>
                  (let n = apply_optional (me_trunc me) ps (apply_names ps n); s = no_alias ops s n
                   in case no_update ops now s n of
                        (Inl e, s) \<Rightarrow> (Inl (StoreRefused e), s)
                      | (Inr n, s) \<Rightarrow> (Inr (node_report (me_json me) (me_ustr me) (me_quote me) ''updated'' [] n), s))))"

definition executeRemove ::
  "manage_env \<Rightarrow> 's node_ops \<Rightarrow> uuid \<Rightarrow> 's \<Rightarrow> params \<Rightarrow> (infra_tool_error + Result) \<times> 's" where
  "executeRemove me ops orgID s ps =
     (case me_parse me (param_string ps ''node_id'') of
        None \<Rightarrow> (Inl (InvalidNodeID (param_string ps ''node_id'')), s)
      | Some nodeID \<Rightarrow>
          (case no_delete ops s orgID nodeID of
             (Some e, s) \<Rightarrow> (Inl (StoreRefused e), s)
           | (None, s) \<Rightarrow> (Inr \<lparr>rs_Output = ''Node '' @ me_ustr me nodeID @ '' removed successfully.'', rs_Metadata = [], rs_Success = True\<rparr>, s)))"

definition Manage_Execute ::
  "manage_env \<Rightarrow> 's node_ops \<Rightarrow> uuid \<Rightarrow> time \<Rightarrow> uuid \<Rightarrow> 's \<Rightarrow> params \<Rightarrow> (infra_tool_error + Result) \<times> 's" where
  "Manage_Execute me ops orgID now fresh s ps =
     (let op = param_string ps ''operation''
      in if op = ''add'' then executeAdd me ops orgID now fresh s ps
         else if op = ''update'' then executeUpdate me ops orgID now s ps
         else if op = ''remove'' then executeRemove me ops orgID s ps
         else (Inl (UnknownInfraOperation op), s))"

section \<open>What a lookup promises\<close>

definition answers_to :: "(string \<Rightarrow> uuid option) \<Rightarrow> uuid \<Rightarrow> string \<Rightarrow> InfraNode \<Rightarrow> bool" where
  "answers_to parse orgID query n \<longleftrightarrow> in_OrgID n = orgID \<and> in_Enabled n \<and> (parse query = Some (in_ID n) \<or> named (ToLower query) n)"

text \<open>
  The interface of the stores: a lookup returns an enabled node of the organisation that the query names, by identifier, name or alias
  without regard to case, and fails only if there is none; a listing shows exactly the enabled nodes of the organisation and type.
\<close>

locale node_store =
  fixes lookup :: "'s \<Rightarrow> uuid \<Rightarrow> string \<Rightarrow> infra_error + InfraNode"
    and listing :: "'s \<Rightarrow> uuid \<Rightarrow> string \<Rightarrow> InfraNode list"
    and nodes :: "'s \<Rightarrow> InfraNode set"
    and parse :: "string \<Rightarrow> uuid option"
    and ok :: "'s \<Rightarrow> bool"
  assumes lookup_sound: "ok s \<Longrightarrow> lookup s orgID q = Inr n \<Longrightarrow> n \<in> nodes s \<and> answers_to parse orgID q n"
    and lookup_complete: "ok s \<Longrightarrow> lookup s orgID q = Inl e \<Longrightarrow> n \<in> nodes s \<Longrightarrow> \<not> answers_to parse orgID q n"
    and listing_exact: "ok s \<Longrightarrow> set (listing s orgID t) = {n \<in> nodes s. in_OrgID n = orgID \<and> in_Enabled n \<and> (t \<noteq> [] \<longrightarrow> in_NodeType n = t)}"
begin

lemma lookup_of_org: "ok s \<Longrightarrow> lookup s orgID q = Inr n \<Longrightarrow> n \<in> nodes s \<and> in_OrgID n = orgID \<and> in_Enabled n"
  using lookup_sound by (auto simp: answers_to_def)

lemma listing_of_org: "ok s \<Longrightarrow> n \<in> set (listing s orgID t) \<Longrightarrow> n \<in> nodes s \<and> in_OrgID n = orgID \<and> in_Enabled n"
  by (simp add: listing_exact)

end

definition mem_ok :: "MemoryStore \<Rightarrow> bool" where
  "mem_ok s \<longleftrightarrow> distinct (map fst s) \<and> (\<forall>(i, n) \<in> set s. in_ID n = i)"

lemma found_in: "find P xs = Some x \<Longrightarrow> x \<in> set xs \<and> P x"
  by (auto simp: find_Some_iff)

lemma Mem_Lookup_Inr:
  assumes "mem_ok s" "Mem_Lookup parse s orgID q = Inr n"
  shows "n \<in> snd ` set s \<and> answers_to parse orgID q n"
proof -
  consider i where "parse q = Some i" "map_of s i = Some n" "in_OrgID n = orgID" "in_Enabled n"
    | "find (\<lambda>n. in_OrgID n = orgID \<and> in_Enabled n \<and> named (ToLower q) n) (map snd s) = Some n"
    using assms(2) by (auto simp: Mem_Lookup_def Let_def split: option.splits if_splits)
  then show ?thesis
  proof cases
    case 1
    with assms(1) map_of_SomeD[OF 1(2)] show ?thesis by (force simp: answers_to_def mem_ok_def)
  next
    case 2
    from found_in[OF 2] show ?thesis by (auto simp: answers_to_def)
  qed
qed

lemma Mem_Lookup_Inl:
  assumes "mem_ok s" "Mem_Lookup parse s orgID q = Inl e" "n \<in> snd ` set s"
  shows "\<not> answers_to parse orgID q n"
proof
  assume a: "answers_to parse orgID q n"
  from assms(2) have f: "find (\<lambda>n. in_OrgID n = orgID \<and> in_Enabled n \<and> named (ToLower q) n) (map snd s) = None"
    by (auto simp: Mem_Lookup_def Let_def split: option.splits)
  with a assms(3) have "parse q = Some (in_ID n)" by (auto simp: answers_to_def find_None_iff)
  moreover have "map_of s (in_ID n) = Some n" using assms(1,3) by (auto simp: mem_ok_def)
  ultimately show False using assms(2) a f by (simp add: Mem_Lookup_def answers_to_def)
qed

interpretation mem_nodes: node_store "Mem_Lookup parse" Mem_List "\<lambda>s. snd ` set s" parse mem_ok
  by unfold_locales (use Mem_Lookup_Inr Mem_Lookup_Inl in \<open>auto simp: Mem_List_def\<close>)

definition live_nodes :: "infra_row list \<Rightarrow> InfraNode set" where
  "live_nodes rows = ir_node ` {r \<in> set rows. \<not> ir_deleted r}"

lemma first_row_Some: "first_row rows P = Some n \<Longrightarrow> n \<in> live_nodes rows \<and> P n"
  unfolding first_row_def by (drule found_in) (auto simp: live_nodes_def)

lemma first_row_None: "first_row rows P = None \<Longrightarrow> n \<in> live_nodes rows \<Longrightarrow> \<not> P n"
  by (auto simp: first_row_def find_None_iff live_nodes_def)

lemma Repo_Lookup_Inr: "Repo_Lookup parse rows orgID q = Inr n \<Longrightarrow> n \<in> live_nodes rows \<and> answers_to parse orgID q n"
  by (auto simp: Repo_Lookup_def answers_to_def named_def Let_def bind_eq_Some_conv split: option.splits dest!: first_row_Some)

lemma Repo_Lookup_Inl: "Repo_Lookup parse rows orgID q = Inl e \<Longrightarrow> n \<in> live_nodes rows \<Longrightarrow> \<not> answers_to parse orgID q n"
  by (auto simp: Repo_Lookup_def answers_to_def named_def Let_def bind_eq_None_conv split: option.splits dest!: first_row_None)

interpretation pg_nodes: node_store "Repo_Lookup parse" Repo_List live_nodes parse "\<lambda>rows. True"
  by unfold_locales (use Repo_Lookup_Inr Repo_Lookup_Inl in \<open>auto simp: Repo_List_def live_nodes_def\<close>)

section \<open>Redaction\<close>

text \<open>
  Replacing hides a secret that has no bracket and is not a part of the replacement: an occurrence in the result would lie inside a
  replacement, or reach into one, or be an occurrence in the original text.
\<close>

lemma Contains_append:
  "Contains (x @ y) p \<Longrightarrow> \<not> Contains x p \<Longrightarrow> Contains y p \<or> (\<exists>a b. p = a @ b \<and> a \<noteq> [] \<and> b \<noteq> [] \<and> (\<exists>u. x = u @ a) \<and> (\<exists>v. y = b @ v))"
proof -
  assume "Contains (x @ y) p" and nx: "\<not> Contains x p"
  then obtain u v where uv: "x @ y = u @ p @ v" by (auto simp: Contains_iff)
  then obtain t where "x = u @ t \<and> t @ y = p @ v \<or> x @ t = u \<and> y = t @ p @ v" by (auto simp: append_eq_append_conv2)
  then show ?thesis
  proof
    assume t: "x = u @ t \<and> t @ y = p @ v"
    then obtain us where "t = p @ us \<and> us @ y = v \<or> t @ us = p \<and> y = us @ v" by (auto simp: append_eq_append_conv2)
    then show ?thesis
    proof
      assume "t = p @ us \<and> us @ y = v"
      with t nx show ?thesis by (auto simp: Contains_iff)
    next
      assume us: "t @ us = p \<and> y = us @ v"
      show ?thesis
      proof (cases "t = [] \<or> us = []")
        case True
        moreover have "us \<noteq> []" using us t nx unfolding Contains_iff by (metis append_Nil2)
        ultimately have "y = [] @ p @ v" using us by simp
        then show ?thesis unfolding Contains_iff by blast
      next
        case False
        with us t show ?thesis by blast
      qed
    qed
  next
    assume "x @ t = u \<and> y = t @ p @ v"
    then show ?thesis by (auto simp: Contains_iff)
  qed
qed

lemma replaced_prefix:
  assumes "new \<noteq> []" "hd new \<notin> set t" "HasPrefix (replace_all old new s) t"
  shows "HasPrefix s t"
  using assms(2,3)
proof (induction s arbitrary: t)
  case (Cons c s)
  show ?case
  proof (cases t)
    case (Cons d t')
    show ?thesis
    proof (cases "old \<noteq> [] \<and> HasPrefix (c # s) old")
      case True
      with Cons.prems Cons assms(1) show ?thesis by (cases new) auto
    next
      case False
      with Cons.prems Cons Cons.IH[of t'] show ?thesis by simp
    qed
  qed simp
qed simp

lemma replace_all_hides:
  assumes "old \<noteq> []" "new \<noteq> []" "hd new \<notin> set old" "last new \<notin> set old" "\<not> Contains new old"
  shows "\<not> Contains (replace_all old new s) old"
  using assms
proof (induction old new s rule: replace_all.induct)
  case (2 old new c s)
  show ?case
  proof (cases "HasPrefix (c # s) old")
    case True
    let ?r = "replace_all old new (drop (length old) (c # s))"
    have ih: "\<not> Contains ?r old" using 2 True by simp
    show ?thesis
    proof
      assume "Contains (replace_all old new (c # s)) old"
      with True 2 have "Contains (new @ ?r) old" by simp
      from Contains_append[OF this \<open>\<not> Contains new old\<close>] ih obtain a b u where "old = a @ b" "a \<noteq> []" "new = u @ a" by blast
      with \<open>last new \<notin> set old\<close> show False by (auto dest: last_in_set)
    qed
  next
    case False
    have ih: "\<not> Contains (replace_all old new s) old" using 2 False by simp
    show ?thesis
    proof
      assume "Contains (replace_all old new (c # s)) old"
      with False ih have "HasPrefix (c # replace_all old new s) old" by simp
      moreover obtain d t where old: "old = d # t" using \<open>old \<noteq> []\<close> by (cases old) auto
      ultimately have "c = d" "HasPrefix (replace_all old new s) t" by auto
      moreover have "hd new \<notin> set t" using 2 old by simp
      ultimately have "HasPrefix (c # s) old" using replaced_prefix[OF \<open>new \<noteq> []\<close>] old by simp
      with False show False ..
    qed
  qed
qed auto

definition hideable :: "string \<Rightarrow> bool" where
  "hideable secret \<longleftrightarrow> secret \<noteq> [] \<and> set secret \<inter> {CHR ''['', CHR '']'', CHR 0x0A} = {} \<and>
     \<not> Contains redacted secret \<and> \<not> Contains ''... [output truncated]'' secret"

lemma sanitizeOutput_hides: "hideable secret \<Longrightarrow> \<not> Contains (sanitizeOutput out secret) secret"
  using replace_all_hides[of secret redacted out] by (auto simp: hideable_def sanitizeOutput_def redacted_def)

lemma Contains_take: "Contains (take n s) p \<Longrightarrow> Contains s p"
  by (auto simp: Contains_iff) (metis append.assoc append_take_drop_id)

lemma TruncateOutput_hides:
  assumes "hideable secret" "\<not> Contains s secret"
  shows "\<not> Contains (TruncateOutput s n) secret"
proof
  assume c: "Contains (TruncateOutput s n) secret"
  have cut: "\<not> Contains (take k s) secret" for k using assms(2) Contains_take[of k s secret] by blast
  have "TruncateOutput s n = s \<or> TruncateOutput s n = take n s \<or>
      TruncateOutput s n = take (n - length truncation_suffix) s @ truncation_suffix" by (simp add: TruncateOutput_def)
  with c cut assms(2) have "Contains (take (n - length truncation_suffix) s @ truncation_suffix) secret" by metis
  moreover note cut[of "n - length truncation_suffix"]
  ultimately consider "Contains truncation_suffix secret" | (straddling) a b v where "secret = a @ b" "b \<noteq> []" "truncation_suffix = b @ v"
    using Contains_append by blast
  then show False
  proof cases
    case 1
    with assms(1) have "HasPrefix truncation_suffix secret" by (simp add: truncation_suffix_def hideable_def)
    with assms(1) show False by (cases secret) (auto simp: truncation_suffix_def hideable_def)
  next
    case straddling
    then have "CHR 0x0A \<in> set secret" by (cases b) (auto simp: truncation_suffix_def)
    with assms(1) show False by (auto simp: hideable_def)
  qed
qed

text \<open>
  (C15) Credentials stay hidden: whatever the remote tool answers, neither the output nor the error text that \<^verbatim>\<open>infra_exec\<close> returns
  to the model contains the credential it resolved for the node, as long as the credential has no bracket or newline and is not a
  part of the texts the tool itself inserts.
\<close>

theorem infra_exec_hides_credential:
  assumes "Exec_Execute ops provider reg orgID s user ps w = (r, w')"
    and "no_lookup ops s orgID (string_or_empty (requireString ps ''node'')) = Inr n"
    and "provider (in_CredentialRef n) = Inr secret" "in_CredentialRef n \<noteq> []" "hideable (sec_Value secret)"
  shows "(\<forall>res. r = Inr res \<longrightarrow> \<not> Contains (rs_Output res) (sec_Value secret)) \<and>
    (\<forall>name msg. r = Inl (RemoteFailed name msg) \<longrightarrow> \<not> Contains msg (sec_Value secret))"
  using assms sanitizeOutput_hides[OF assms(5)] TruncateOutput_hides[OF assms(5)]
  by (auto simp: Exec_Execute_def hide_def Let_def split: option.splits prod.splits sum.splits)

text \<open>An example: a remote tool that answers with the credential it was given.\<close>

definition demo_echo :: "nat Tool" where
  "demo_echo = \<lparr>tool_Name = ''mcp__ssh__execute'', tool_Description = [], tool_InputSchema = [],
     tool_RequiredAction = \<lparr>act_Name = ''x'', act_RiskLevel = RiskLow\<rparr>, tool_EstimateCost = (\<lambda>ps. 0), tool_Validate = (\<lambda>ps. None),
     tool_Execute = (\<lambda>u ps w. (Inr \<lparr>rs_Output = ''key='' @ param_string ps ''credential'' @ ''!'', rs_Metadata = [], rs_Success = True\<rparr>, Suc w))\<rparr>"

definition demo_node :: "uuid \<Rightarrow> string \<Rightarrow> InfraNode" where
  "demo_node i name = \<lparr>in_ID = i, in_OrgID = 1, in_Name = name, in_Aliases = [], in_NodeType = ''vm'', in_Host = ''h'', in_Port = 22, in_User = ''u'',
     in_CredentialRef = ''env://K'', in_Tags = [], in_MCPServer = ''ssh'', in_Enabled = True, in_CreatedAt = 0, in_UpdatedAt = 0\<rparr>"

definition demo_provider :: secret_provider where
  "demo_provider = Composite_Resolve [(\<lambda>ref. Inl (OtherSecretError ref)), Env_Resolve (\<lambda>v. if v = ''K'' then ''s3cret'' else [])]"

definition demo_infra_exec :: "(infra_tool_error + Result) \<times> nat" where
  "demo_infra_exec = Exec_Execute (mem_ops (\<lambda>x. None) (\<lambda>i. [])) demo_provider [(''mcp__ssh__execute'', demo_echo)] 1 [(7, demo_node 7 ''VM10'')]
     ''u'' [(''node'', AStr ''vm10''), (''command'', AStr ''id'')] 0"

theorem infra_exec_hides_credential_witness:
  "\<exists>res. fst demo_infra_exec = Inr res \<and> \<not> Contains (rs_Output res) ''s3cret''"
proof -
  have l: "no_lookup (mem_ops (\<lambda>x. None) (\<lambda>i. [])) [(7, demo_node 7 ''VM10'')] 1
      (string_or_empty (requireString [(''node'', AStr ''vm10''), (''command'', AStr ''id'')] ''node'')) = Inr (demo_node 7 ''VM10'')"
    by code_simp
  have p: "demo_provider (in_CredentialRef (demo_node 7 ''VM10'')) =
      Inr \<lparr>sec_Value = ''s3cret'', sec_Metadata = [(''source'', ''env''), (''variable'', ''K'')]\<rparr>" by code_simp
  have t: "findMCPTool [(''mcp__ssh__execute'', demo_echo)] (in_MCPServer (demo_node 7 ''VM10'')) = Some demo_echo"
    by (simp add: findMCPTool_def demo_node_def Registry_Get_def)
  have c: "in_CredentialRef (demo_node 7 ''VM10'') \<noteq> []" and h: "hideable ''s3cret''" by code_simp+
  have "\<not> isl (fst demo_infra_exec)"
    by (simp add: demo_infra_exec_def Exec_Execute_def l p c t) (simp add: demo_echo_def)
  then obtain res where res: "fst demo_infra_exec = Inr res" by (cases "fst demo_infra_exec") auto
  have d: "Exec_Execute (mem_ops (\<lambda>x. None) (\<lambda>i. [])) demo_provider [(''mcp__ssh__execute'', demo_echo)] 1 [(7, demo_node 7 ''VM10'')]
     ''u'' [(''node'', AStr ''vm10''), (''command'', AStr ''id'')] 0 = (fst demo_infra_exec, snd demo_infra_exec)" by (simp add: demo_infra_exec_def)
  show ?thesis using infra_exec_hides_credential[OF d l p c] h res by simp
qed

section \<open>What the model sees of a node\<close>

text \<open>References to credentials do not reach the model: the results of \<^verbatim>\<open>infra_lookup\<close> do not depend on them.\<close>

definition forget_refs :: "MemoryStore \<Rightarrow> MemoryStore" where
  "forget_refs s = map (map_prod id (\<lambda>n. n\<lparr>in_CredentialRef := []\<rparr>)) s"

lemma SanitizeForLLM_no_ref: "SanitizeForLLM ustr (n\<lparr>in_CredentialRef := x\<rparr>) = SanitizeForLLM ustr n"
  by (simp add: SanitizeForLLM_def)

lemma map_of_forget: "map_of (forget_refs s) i = map_option (\<lambda>n. n\<lparr>in_CredentialRef := []\<rparr>) (map_of s i)"
  by (induction s) (auto simp: forget_refs_def)

lemma Mem_Lookup_forget:
  "Mem_Lookup parse (forget_refs s) orgID q = map_sum id (\<lambda>n. n\<lparr>in_CredentialRef := []\<rparr>) (Mem_Lookup parse s orgID q)"
proof -
  let ?P = "\<lambda>n. in_OrgID n = orgID \<and> in_Enabled n \<and> named (ToLower q) n"
  have "find ?P (map snd (forget_refs s)) = map_option (\<lambda>n. n\<lparr>in_CredentialRef := []\<rparr>) (find ?P (map snd s))"
    by (induction s) (auto simp: forget_refs_def named_def)
  then show ?thesis
    by (auto simp: Mem_Lookup_def Let_def map_of_forget split: option.split)
qed

theorem infra_lookup_hides_references:
  "Lookup_Execute json ustr (mem_ops parse ustr) orgID (forget_refs s) ps = Lookup_Execute json ustr (mem_ops parse ustr) orgID s ps"
proof -
  have "map (\<lambda>n. AObj (SanitizeForLLM ustr n)) (Mem_List (forget_refs s) orgID t) = map (\<lambda>n. AObj (SanitizeForLLM ustr n)) (Mem_List s orgID t)" for t
    by (induction s) (auto simp: forget_refs_def Mem_List_def SanitizeForLLM_no_ref)
  moreover have "length (Mem_List (forget_refs s) orgID t) = length (Mem_List s orgID t)" for t
    by (induction s) (auto simp: forget_refs_def Mem_List_def)
  ultimately show ?thesis
    by (auto simp: Lookup_Execute_def mem_ops_def Let_def Mem_Lookup_forget SanitizeForLLM_no_ref split: sum.split)
qed

section \<open>Behaviours that contradict the comments\<close>

text \<open>The tool changes the node of the in-memory store through the pointer it looked up; the store then compares the node with itself
  and accepts a name that another node has.\<close>

theorem update_takes_name_of_other_node:
  "let s = [(7, demo_node 7 ''a''), (8, demo_node 8 ''b'')];
       me = \<lparr>me_json = (\<lambda>x. []), me_ustr = (\<lambda>i. []), me_parse = (\<lambda>x. Some 8), me_quote = (\<lambda>x. x), me_trunc = floor\<rparr>;
       (r, s') = executeUpdate me (mem_ops (\<lambda>x. Some 8) (\<lambda>i. [])) 1 5 s [(''node_id'', AStr ''8''), (''name'', AStr ''a'')]
   in \<not> isl r \<and> map (in_Name \<circ> snd) s' = [''a'', ''a'']"
  by (simp add: executeUpdate_def mem_ops_def Mem_Lookup_def Mem_Update_def demo_node_def apply_names_def apply_optional_def param_string_def Let_def)

text \<open>A secret that shares a character with the replacement's brackets can survive the redaction.\<close>

theorem redaction_can_leak: "Contains (sanitizeOutput '']xx'' '']x'') '']x''"
  by code_simp

text \<open>Deleting keeps the row: the name stays taken in the database.\<close>

theorem deleted_name_stays_taken:
  assumes "Repo_Create now i [] (demo_node 7 ''a'') = (Inr n, rows)" "Repo_Delete ustr rows 1 7 = (None, rows')"
  shows "isl (fst (Repo_Create now i rows' (demo_node 8 ''a'')))"
  using assms by (auto simp: Repo_Create_def Repo_Delete_def violates_def demo_node_def Let_def)

end
