(* ===== verification/AgentPoller.thy ===== *)
theory AgentPoller
  imports WorkflowRepo Scheduler
begin

text \<open>
  Headless agents (\<^verbatim>\<open>orchestrator/agent_poller.go\<close>) and the rest of the engine's interface (\<^verbatim>\<open>Status\<close>, \<^verbatim>\<open>Cancel\<close> and
  \<^verbatim>\<open>ListTasks\<close> of \<^verbatim>\<open>engine.go\<close>).

  A poller uses the store through the interface \<^verbatim>\<open>WorkflowStore\<close>. What it does with one task is modelled on the store of
  \<open>Scheduler\<close>, like the functions of the scheduler it calls; the loop that claims tasks is modelled on the database of
  \<open>WorkflowRepo\<close>, the only implementation with \<^verbatim>\<open>ClaimReadyTasks\<close>. The loop and its goroutines are the step relation
  \<open>poll_step\<close>: the map \<^verbatim>\<open>runningTasks\<close>, the semaphore (the number of its slots taken) and the goroutines, of which the
  last ones have given back their slot but are still in the map.
\<close>

section \<open>One claimed task\<close>

record AgentPollerConfig =
  po_AgentID :: string
  po_Roles :: "AgentRole list"
  po_MaxConcurrentTasks :: int
  po_EngineConfig :: EngineConfig

definition updateWorkflowCost :: "'w outside \<Rightarrow> 'w sched \<Rightarrow> uuid \<Rightarrow> usd \<Rightarrow> 'w sched" where
  "updateWorkflowCost orc s wid costUSD =
     (case GetWorkflow (sc_store s) wid of
        Inl e \<Rightarrow> s
      | Inr latest \<Rightarrow>
          snd (upd_flow orc s (latest\<lparr>wf_BudgetSpentUSD := wf_BudgetSpentUSD latest + costUSD, wf_UpdatedAt := clock orc s\<rparr>)))"

definition maybeFinishWorkflow :: "'w outside \<Rightarrow> 'w sched \<Rightarrow> uuid \<Rightarrow> 'w sched" where
  "maybeFinishWorkflow orc s wid =
     (case GetWorkflow (sc_store s) wid of
        Inl e \<Rightarrow> s
      | Inr latest \<Rightarrow>
          (let allTasks = ListTasksByWorkflow (sc_store s) wid; failed = countByStatus allTasks TaskFailed
           in if countByStatus allTasks TaskRunning > 0 \<or> countByStatus allTasks TaskPending > 0 \<or>
                 countByStatus allTasks TaskBlocked > 0 \<or> countByStatus allTasks TaskRecovering > 0 then s
              else if failed > 0 then snd (snd (finishWorkflow orc s latest WorkflowFailed (nat_str failed @ '' task(s) failed'')))
              else snd (snd (finishWorkflow orc s latest WorkflowCompleted ''''))))"

definition Poller_executeTask :: "'w outside \<Rightarrow> AgentPollerConfig \<Rightarrow> 'w sched \<Rightarrow> Task \<Rightarrow> 'w sched" where
  "Poller_executeTask orc cfg s t =
     (case GetWorkflow (sc_store s) (tk_WorkflowID t) of
        Inl e \<Rightarrow> s
      | Inr w \<Rightarrow>
          (case executeTask orc s w t of
             (Inl e, t', s1) \<Rightarrow> maybeFinishWorkflow orc s1 (wf_ID w)
           | (Inr output, t', s1) \<Rightarrow>
               (let (w1, s2) = (if tk_AgentRole t' = RolePlanner then snd (handlePlannerOutput orc s1 w t' output) else (w, s1));
                    s3 = (if tk_AgentRole t' = RoleDiagnostician
                          then snd (handleDiagnosticianOutput orc (po_EngineConfig cfg) s2 w1 t' output) else s2);
                    s4 = (if aout_CostUSD output > 0 then updateWorkflowCost orc s3 (wf_ID w1) (aout_CostUSD output) else s3)
                in maybeFinishWorkflow orc s4 (wf_ID w1))))"

section \<open>Status and cancellation\<close>

text \<open>\<open>cancels\<close> are the workflows with a running scheduler; cancelling sets the flag its loop looks at.\<close>

datatype cancel_error = CancelNotFound store_error | NoCancelFunction uuid

definition Status :: "InMemoryStore \<Rightarrow> uuid \<Rightarrow> store_error + Workflow" where
  "Status st wid = GetWorkflow st wid"

definition ListTasks :: "InMemoryStore \<Rightarrow> uuid \<Rightarrow> Task list" where
  "ListTasks st wid = ListTasksByWorkflow st wid"

definition Cancel :: "InMemoryStore \<Rightarrow> uuid list \<Rightarrow> uuid set \<Rightarrow> uuid \<Rightarrow> cancel_error option \<times> uuid set" where
  "Cancel st cancels requested wid =
     (if wid \<in> set cancels then (None, insert wid requested)
      else case GetWorkflow st wid of
             Inl e \<Rightarrow> (Some (CancelNotFound e), requested)
           | Inr w \<Rightarrow> (if wf_Status w = WorkflowRunning then Some (NoCancelFunction wid) else None, requested))"

section \<open>The polling loop\<close>

datatype poll_phase =
    Waiting
  | Starting "Task list"
  | Acquiring Task "Task list"

record poller =
  pl_db :: WorkflowDB
  pl_phase :: poll_phase
  pl_running :: "uuid list"
  pl_sem :: nat
  pl_executing :: "Task list"
  pl_released :: "Task list"

text \<open>\<open>available\<close> is computed when the ticker fires; the database may be changed by anybody else at any time (\<open>other\<close>,
  the identifiers stay the primary key).\<close>

inductive poll_step :: "AgentPollerConfig \<Rightarrow> poller \<Rightarrow> poller \<Rightarrow> bool" for cfg where
  other: "unique_rows db \<Longrightarrow> poll_step cfg p (p\<lparr>pl_db := db\<rparr>)"
| full: "pl_phase p = Waiting \<Longrightarrow> po_MaxConcurrentTasks cfg - int (length (pl_running p)) \<le> 0 \<Longrightarrow> poll_step cfg p p"
| claim: "pl_phase p = Waiting \<Longrightarrow> available = po_MaxConcurrentTasks cfg - int (length (pl_running p)) \<Longrightarrow> available > 0 \<Longrightarrow>
    PG_ClaimReadyTasks now (pl_db p) (po_AgentID cfg) (po_Roles cfg) available = (tasks, db) \<Longrightarrow>
    poll_step cfg p (p\<lparr>pl_db := db, pl_phase := Starting tasks\<rparr>)"
| next_tick: "pl_phase p = Starting [] \<Longrightarrow> poll_step cfg p (p\<lparr>pl_phase := Waiting\<rparr>)"
| track: "pl_phase p = Starting (t # ts) \<Longrightarrow>
    poll_step cfg p (p\<lparr>pl_phase := Acquiring t ts, pl_running := List.insert (tk_ID t) (pl_running p)\<rparr>)"
| acquire: "pl_phase p = Acquiring t ts \<Longrightarrow> int (pl_sem p) < po_MaxConcurrentTasks cfg \<Longrightarrow>
    poll_step cfg p (p\<lparr>pl_phase := Starting ts, pl_sem := Suc (pl_sem p), pl_executing := t # pl_executing p\<rparr>)"
| release: "t \<in> set (pl_executing p) \<Longrightarrow>
    poll_step cfg p (p\<lparr>pl_sem := pl_sem p - 1, pl_executing := remove1 t (pl_executing p), pl_released := t # pl_released p\<rparr>)"
| untrack: "t \<in> set (pl_released p) \<Longrightarrow>
    poll_step cfg p (p\<lparr>pl_running := removeAll (tk_ID t) (pl_running p), pl_released := remove1 t (pl_released p)\<rparr>)"
| heartbeat: "poll_step cfg p (p\<lparr>pl_db := PG_HeartbeatTasks now (pl_db p) (po_AgentID cfg) (pl_running p)\<rparr>)"

section \<open>Slots\<close>

text \<open>A step that claims only tasks that this agent is not working on any more. (A task that failed can be claimed again, after a
  diagnostician's decision, while the goroutine of its first execution is still finishing.)\<close>

definition fresh_step :: "AgentPollerConfig \<Rightarrow> poller \<Rightarrow> poller \<Rightarrow> bool" where
  "fresh_step cfg p p' \<longleftrightarrow> poll_step cfg p p' \<and>
     (\<forall>ts. pl_phase p = Waiting \<and> pl_phase p' = Starting ts \<longrightarrow> tk_ID ` set ts \<inter> set (pl_running p) = {})"

fun to_start :: "poll_phase \<Rightarrow> Task list" where
  "to_start Waiting = []"
| "to_start (Starting ts) = ts"
| "to_start (Acquiring t ts) = ts"

fun starting :: "poll_phase \<Rightarrow> Task list" where
  "starting (Acquiring t ts) = [t]"
| "starting ph = []"

definition slots_ok :: "AgentPollerConfig \<Rightarrow> poller \<Rightarrow> bool" where
  "slots_ok cfg p \<longleftrightarrow>
     unique_rows (pl_db p) \<and> pl_sem p = length (pl_executing p) \<and> distinct (pl_running p) \<and>
     distinct (map tk_ID (pl_executing p @ pl_released p @ starting (pl_phase p) @ to_start (pl_phase p))) \<and>
     set (pl_running p) = tk_ID ` set (pl_executing p @ pl_released p @ starting (pl_phase p)) \<and>
     int (length (pl_running p) + length (to_start (pl_phase p))) \<le> po_MaxConcurrentTasks cfg"

lemma claim_unique:
  assumes "unique_rows db"
  shows "int (length (fst (PG_ClaimReadyTasks now db a roles n))) \<le> max 1 n \<and> distinct (map tk_ID (fst (PG_ClaimReadyTasks now db a roles n))) \<and>
    unique_rows (snd (PG_ClaimReadyTasks now db a roles n))"
proof -
  let ?ids = "claim_select db roles n"
  have u: "unique_rows (claim_update now db a ?ids)" using assms by (simp add: unique_claim_update)
  have "distinct (map tk_ID (claim_reload (claim_update now db a ?ids) a ?ids))"
    using u by (simp add: claim_reload_def unique_rows_def distinct_map_filter comp_def distinct_map_sort_key)
  moreover have "int (length (claim_reload (claim_update now db a ?ids) a ?ids)) \<le> max 1 n"
    using claimed_length[OF u, of a ?ids] take_ready_length[of "[]" n db "claim_candidates db roles"] by (simp add: claim_select_def)
  ultimately show ?thesis using assms u by (auto simp: PG_ClaimReadyTasks_def Let_def)
qed

text \<open>The tracked tasks: those executing, those that gave back their slot and the one that waits for a slot.\<close>

definition tracked :: "poller \<Rightarrow> Task list" where
  "tracked p = pl_executing p @ pl_released p @ starting (pl_phase p)"

lemma slots_alt:
  "slots_ok cfg p \<longleftrightarrow>
     unique_rows (pl_db p) \<and> pl_sem p = length (pl_executing p) \<and> distinct (pl_running p) \<and>
     distinct (map tk_ID (tracked p @ to_start (pl_phase p))) \<and> set (pl_running p) = tk_ID ` set (tracked p) \<and>
     int (length (pl_running p) + length (to_start (pl_phase p))) \<le> po_MaxConcurrentTasks cfg"
  unfolding slots_ok_def tracked_def by simp

lemma tracked_same:
  assumes "slots_ok cfg p" "mset (tracked p') = mset (tracked p)" "pl_running p' = pl_running p" "to_start (pl_phase p') = to_start (pl_phase p)"
    "pl_db p' = pl_db p" "pl_sem p' = length (pl_executing p')"
  shows "slots_ok cfg p'"
proof -
  have "mset (map tk_ID (tracked p' @ to_start (pl_phase p'))) = mset (map tk_ID (tracked p @ to_start (pl_phase p)))" using assms(2,4) by simp
  then have "distinct (map tk_ID (tracked p' @ to_start (pl_phase p'))) = distinct (map tk_ID (tracked p @ to_start (pl_phase p)))"
    by (rule mset_eq_imp_distinct_iff)
  moreover have "set (tracked p') = set (tracked p)" using assms(2) by (rule mset_eq_setD)
  ultimately show ?thesis using assms unfolding slots_alt by simp
qed

lemma slots_kept:
  assumes "fresh_step cfg p p'" "slots_ok cfg p"
  shows "slots_ok cfg p'"
proof -
  have "poll_step cfg p p'" using assms(1) by (simp add: fresh_step_def)
  then show ?thesis
  proof cases
    case (claim available now tasks db)
    then have "tk_ID ` set tasks \<inter> set (pl_running p) = {}" using assms(1) by (auto simp: fresh_step_def)
    moreover have "int (length tasks) \<le> max 1 available" "distinct (map tk_ID tasks)" "unique_rows db"
      using claim_unique[of "pl_db p" now "po_AgentID cfg" "po_Roles cfg" available] assms(2) claim by (auto simp: slots_ok_def)
    moreover have "tracked p' = tracked p" using claim by (simp add: tracked_def)
    ultimately show ?thesis using assms(2) claim by (auto simp: slots_alt)
  next
    case (track t ts)
    have "tk_ID t \<notin> set (pl_running p)" using assms(2) track by (auto simp: slots_alt)
    moreover have "tracked p' = tracked p @ [t]" using track by (simp add: tracked_def)
    ultimately show ?thesis using assms(2) track by (auto simp: slots_alt)
  next
    case (acquire t ts)
    then show ?thesis using assms(2) by (intro tracked_same[OF assms(2)]) (auto simp: tracked_def slots_ok_def)
  next
    case (release t)
    have "length (remove1 t (pl_executing p)) = length (pl_executing p) - 1" using release(2) by (simp add: length_remove1)
    then show ?thesis using assms(2) release by (intro tracked_same[OF assms(2)]) (auto simp: tracked_def slots_ok_def)
  next
    case (untrack t)
    have m: "mset (tracked p) = add_mset t (mset (tracked p'))" using untrack by (simp add: tracked_def)
    then have "mset (map tk_ID (tracked p @ to_start (pl_phase p))) = mset (map tk_ID (t # tracked p' @ to_start (pl_phase p)))" by simp
    then have d: "distinct (map tk_ID (t # tracked p' @ to_start (pl_phase p)))"
      using assms(2) mset_eq_imp_distinct_iff unfolding slots_alt by blast
    have "set (tracked p) = insert t (set (tracked p'))" using m by (metis set_mset_add_mset_insert set_mset_mset)
    moreover have "length (removeAll (tk_ID t) (pl_running p)) \<le> length (pl_running p)" by (simp add: length_filter_le removeAll_filter_not_eq)
    ultimately have "distinct (map tk_ID (tracked p' @ to_start (pl_phase p)))"
        "set (removeAll (tk_ID t) (pl_running p)) = tk_ID ` set (tracked p')"
        "int (length (removeAll (tk_ID t) (pl_running p)) + length (to_start (pl_phase p))) \<le> po_MaxConcurrentTasks cfg"
      using assms(2) d unfolding slots_alt by (simp, force, linarith)
    then show ?thesis using assms(2) untrack unfolding slots_alt by (simp add: distinct_removeAll)
  qed (use assms(2) in \<open>auto simp: slots_alt tracked_def PG_HeartbeatTasks_def unique_rows_def comp_def if_distrib cong: if_cong\<close>)
qed


text \<open>An example: an agent with one slot claims the only ready task.\<close>

definition demo_poller_cfg :: AgentPollerConfig where
  "demo_poller_cfg = \<lparr>po_AgentID = ''a'', po_Roles = [RoleExecutor], po_MaxConcurrentTasks = 1,
     po_EngineConfig = \<lparr>ec_DefaultBudgetLimitUSD = 0, ec_DefaultMaxDepth = 0, ec_DefaultMaxTasks = 0, ec_MaxConcurrentTasks = 0,
       ec_ExternalAgents = True, ec_Scorer = None, ec_Recovery = None\<rparr>\<rparr>"


section \<open>Finishing a workflow\<close>

text \<open>A task that still needs work.\<close>

definition open_task :: "Task \<Rightarrow> bool" where
  "open_task t \<longleftrightarrow> tk_Status t \<in> {TaskPending, TaskBlocked, TaskRunning, TaskRecovering}"

lemma countByStatus_pos: "countByStatus ts st > 0 \<longleftrightarrow> (\<exists>t \<in> set ts. tk_Status t = st)"
  by (auto simp: countByStatus_def filter_empty_conv)

text \<open>
  A workflow is finished exactly when nothing is left to do: after a task, the poller leaves the store alone while a task of
  the workflow is open; otherwise it records the workflow as failed if a task failed and as completed if none did, and
  changes no task.
\<close>

theorem poller_finishes_exactly:
  assumes "GetWorkflow (sc_store s) wid = Inr w" "wf_ID w = wid"
  shows "if \<exists>t \<in> set (ListTasksByWorkflow (sc_store s) wid). open_task t then maybeFinishWorkflow orc s wid = s
    else st_tasks (sc_store (maybeFinishWorkflow orc s wid)) = st_tasks (sc_store s) \<and>
      (\<exists>w'. GetWorkflow (sc_store (maybeFinishWorkflow orc s wid)) wid = Inr w' \<and> wf_CompletedAt w' = Some (clock orc s) \<and>
        wf_Status w' = (if \<exists>t \<in> set (ListTasksByWorkflow (sc_store s) wid). tk_Status t = TaskFailed then WorkflowFailed else WorkflowCompleted))"
proof -
  have "map_of (st_workflows (sc_store s)) wid = Some w" using assms(1) by (auto simp: GetWorkflow_def split: option.splits)
  then have fin: "st_tasks (sc_store (snd (snd (finishWorkflow orc s w st msg)))) = st_tasks (sc_store s) \<and>
      (\<exists>w'. GetWorkflow (sc_store (snd (snd (finishWorkflow orc s w st msg)))) wid = Inr w' \<and> wf_CompletedAt w' = Some (clock orc s) \<and> wf_Status w' = st)" for st msg
    using assms(2) by (simp add: finishWorkflow_def upd_flow_def UpdateWorkflow_def GetWorkflow_def Let_def update_conv')
  have "(\<exists>t \<in> set (ListTasksByWorkflow (sc_store s) wid). open_task t) \<longleftrightarrow>
      (let n = countByStatus (ListTasksByWorkflow (sc_store s) wid) in n TaskRunning > 0 \<or> n TaskPending > 0 \<or> n TaskBlocked > 0 \<or> n TaskRecovering > 0)"
    by (auto simp: open_task_def countByStatus_pos Let_def)
  then show ?thesis using assms(1) fin by (simp add: maybeFinishWorkflow_def Let_def countByStatus_pos)
qed

definition demo_store_with :: "Task list \<Rightarrow> InMemoryStore" where
  "demo_store_with ts = NewInMemoryStore\<lparr>st_workflows := [(9, toWorkflowDomain demo_flow)], st_tasks := map (\<lambda>t. (tk_ID t, t)) ts\<rparr>"

definition demo_outside :: "unit outside" where
  "demo_outside = \<lparr>or_clock = (\<lambda>n. 5), or_fresh = of_nat, or_cancelled = (\<lambda>n. False), or_agents = (\<lambda>r. Inl []),
      or_plan = Inl, or_decision = Inl, or_ustr = (\<lambda>i. []), or_text = (\<lambda>e. []), or_arrival = (\<lambda>x. x)\<rparr>"

theorem poller_finishes_exactly_witness:
  "\<exists>w. GetWorkflow (sc_store (maybeFinishWorkflow demo_outside
      \<lparr>sc_store = demo_store_with [demo_row 1 RoleExecutor TaskCompleted [], demo_row 2 RoleExecutor TaskFailed [1]], sc_skills = None,
       sc_world = (), sc_tick = 0\<rparr> 9)) 9 = Inr w \<and> wf_Status w = WorkflowFailed"
proof -
  let ?s = "\<lparr>sc_store = demo_store_with [demo_row 1 RoleExecutor TaskCompleted [], demo_row 2 RoleExecutor TaskFailed [1]], sc_skills = None,
       sc_world = (), sc_tick = 0\<rparr> :: unit sched"
  have g: "GetWorkflow (sc_store ?s) 9 = Inr (toWorkflowDomain demo_flow)" "wf_ID (toWorkflowDomain demo_flow) = 9"
    by (simp_all add: demo_store_with_def GetWorkflow_def toWorkflowDomain_def demo_flow_def)
  have l: "set (ListTasksByWorkflow (sc_store ?s) 9) = {demo_row 1 RoleExecutor TaskCompleted [], demo_row 2 RoleExecutor TaskFailed [1]}"
    by (simp add: demo_store_with_def ListTasksByWorkflow_def tasks_of_def demo_row_def)
  then have "\<not> (\<exists>t \<in> set (ListTasksByWorkflow (sc_store ?s) 9). open_task t)" by (simp add: open_task_def demo_row_def)
  moreover have "\<exists>t \<in> set (ListTasksByWorkflow (sc_store ?s) 9). tk_Status t = TaskFailed" using l by (simp add: demo_row_def)
  ultimately show ?thesis using poller_finishes_exactly[OF g, of demo_outside] by auto
qed

section \<open>Behaviours that contradict the comments\<close>

text \<open>A workflow in which a task failed and another depends on it is never finished by headless agents: the dependent task is pending,
  so the workflow counts as in progress, and no agent ever claims it.\<close>

theorem failed_dependency_blocks_workflow:
  "let failed = demo_row 1 RoleExecutor TaskFailed []; dependent = demo_row 2 RoleExecutor TaskPending [1];
       db = \<lparr>db_workflows = [demo_flow], db_tasks = map toTaskModel [failed, dependent], db_messages = []\<rparr>
   in claim_select db roles n = [] \<and>
      (sc_store s = demo_store_with [failed, dependent] \<longrightarrow> maybeFinishWorkflow orc s 9 = s)"
proof -
  let ?f = "demo_row 1 RoleExecutor TaskFailed []" and ?d = "demo_row 2 RoleExecutor TaskPending [1]"
  let ?db = "\<lparr>db_workflows = [demo_flow], db_tasks = map toTaskModel [?f, ?d], db_messages = []\<rparr>"
  have "take_ready ?db n [] ms = []" if "set ms \<subseteq> {toTaskModel ?d}" for ms
    using that by (induction ms) (auto simp: completed_rows_def toTaskModel_def demo_row_def)
  moreover have "set (claim_candidates ?db roles) \<subseteq> {toTaskModel ?d}"
    by (auto simp: claim_candidates_def toTaskModel_def demo_row_def)
  ultimately have "claim_select ?db roles n = []" by (simp add: claim_select_def)
  moreover have "maybeFinishWorkflow orc s 9 = s" if "sc_store s = demo_store_with [?f, ?d]"
  proof -
    have "?d \<in> set (ListTasksByWorkflow (sc_store s) 9)" using that by (simp add: demo_store_with_def ListTasksByWorkflow_def tasks_of_def demo_row_def)
    then have "\<exists>t \<in> set (ListTasksByWorkflow (sc_store s) 9). tk_Status t = TaskPending" by (rule bexI[rotated]) (simp add: demo_row_def)
    then show ?thesis by (auto simp: maybeFinishWorkflow_def Let_def countByStatus_pos split: sum.split)
  qed
  ultimately show ?thesis by (simp add: Let_def)
qed

text \<open>With external agents no scheduler runs, so there is no cancel function and a running workflow cannot be cancelled.\<close>

theorem external_workflow_not_cancellable:
  assumes "GetWorkflow st wid = Inr w" "wf_Status w = WorkflowRunning"
  shows "Cancel st [] requested wid = (Some (NoCancelFunction wid), requested)"
  using assms by (simp add: Cancel_def)

end
