(* ===== verification/HttpApi.thy ===== *)
theory HttpApi
  imports AgentPoller AgentLoop RateLimit CronJobs Alerting
begin

text \<open>
  The HTTP API gateway (\<^verbatim>\<open>gateway/httpapi/httpapi.go\<close>, \<^verbatim>\<open>cronjob_handlers.go\<close>, \<^verbatim>\<open>alert_handlers.go\<close>, \<^verbatim>\<open>sse.go\<close>): authentication, the
  routes and every handler, on top of the agent, the workflow engine and the repositories modelled in the other theories.

  The web framework is not part of the repository: a call carries the \<^verbatim>\<open>Authorization\<close> header, the path parameter and what \<^verbatim>\<open>Bind\<close>
  made of the body (\<open>None\<close> when it failed). A response is an abort with a code and a message, a JSON value with a
  code, or a list of server-sent events. Clock readings, random identifiers, formats of times and identifiers, the cron parser and
  the texts of errors are the record \<open>http_env\<close>.
\<close>

section \<open>State and environment\<close>

datatype http_response =
    Abort int string
  | JSON int any
  | Events "(string \<times> params) list"
  | Unrouted

record 'w http_env =
  he_APIKeys :: "(string \<times> string) list"
  he_now :: "nat \<Rightarrow> time"
  he_correlationID :: string
  he_newID :: uuid
  he_convID :: uuid
  he_env :: env
  he_envs :: "nat \<Rightarrow> nat \<Rightarrow> env"
  he_agent :: "'w Agent"
  he_ustr :: "uuid \<Rightarrow> string"
  he_parse :: "string \<Rightarrow> uuid option"
  he_time :: "time \<Rightarrow> string"
  he_next :: "string \<Rightarrow> time \<Rightarrow> time option"
  he_cronOrgID :: uuid
  he_alertOrgID :: uuid
  he_texts :: texts
  he_quote :: "string \<Rightarrow> string"
  he_notifyText :: "notify_error \<Rightarrow> string"
  he_sse :: bool
  he_engine :: EngineConfig

record ('w, 'v, 'd) gateway =
  gw_limiter :: "Limiter option"
  gw_agent :: "'w Orchestrator"
  gw_wfEngine :: "'v sched option"
  gw_cancels :: "uuid list"
  gw_cancelled :: "uuid set"
  gw_cronStore :: "cron_row list option"
  gw_alertStore :: "alert_row list option"
  gw_history :: "AlertHistory list"
  gw_dispatcher :: "'d Dispatcher option"

definition OK :: "any \<Rightarrow> http_response" where
  "OK body = JSON 200 body"

definition quoted :: "string \<Rightarrow> string" where
  "quoted s = CHR 0x22 # s @ [CHR 0x22]"

definition error_body :: "string \<Rightarrow> any" where
  "error_body msg = AObj [(''error'', AStr msg)]"

definition status_body :: "string \<Rightarrow> any" where
  "status_body msg = AObj [(''status'', AStr msg)]"

text \<open>A field with \<^verbatim>\<open>omitempty\<close>.\<close>

definition omitempty :: "string \<Rightarrow> any \<Rightarrow> params" where
  "omitempty key v = (if v \<in> {ANil, ABool False, ANum 0, AStr [], AArr [], AObj []} then [] else [(key, v)])"

definition opt_time :: "(time \<Rightarrow> string) \<Rightarrow> time option \<Rightarrow> any" where
  "opt_time fmt t = (case t of None \<Rightarrow> ANil | Some x \<Rightarrow> AStr (fmt x))"

section \<open>Authentication and rate limit\<close>

definition authenticate :: "(string \<times> string) list \<Rightarrow> string \<Rightarrow> http_response + string" where
  "authenticate keys authHeader =
     (if \<not> HasPrefix authHeader ''Bearer '' then Inl (Abort 401 ''missing or invalid Authorization header'')
      else let apiKey = drop 7 authHeader;
               userID = foldl (\<lambda>u (key, userId). if apiKey = key then userId else u) [] keys
           in if userID = [] then Inl (Abort 401 ''invalid API key'') else Inr userID)"

definition limited :: "time \<Rightarrow> ('w, 'v, 'd) gateway \<Rightarrow> string \<Rightarrow> (('w, 'v, 'd) gateway \<Rightarrow> http_response \<times> ('w, 'v, 'd) gateway) \<Rightarrow>
    http_response \<times> ('w, 'v, 'd) gateway" where
  "limited now g userID body =
     (case gw_limiter g of
        None \<Rightarrow> body g
      | Some l \<Rightarrow>
          (case Allow l now userID of
             (Some e, l') \<Rightarrow> (Abort 429 ''rate limit exceeded'', g\<lparr>gw_limiter := Some l'\<rparr>)
           | (None, l') \<Rightarrow> body (g\<lparr>gw_limiter := Some l'\<rparr>)))"

section \<open>Queries\<close>

record QueryRequest =
  qr_Message :: string
  qr_ConversationID :: string

definition query_input :: "'w http_env \<Rightarrow> string \<Rightarrow> QueryRequest \<Rightarrow> Input" where
  "query_input he userID req =
     \<lparr>in_UserID = userID, in_Message = qr_Message req, in_CorrelationID = he_correlationID he,
      in_ConversationID = (if qr_ConversationID req = [] then he_ustr he (he_convID he) else qr_ConversationID req)\<rparr>"

text \<open>\<^verbatim>\<open>Process\<close> never returns the error \<^verbatim>\<open>ErrApprovalPending\<close> (\<open>process_error\<close>), so the branch of the handlers for it is dead.\<close>

definition handleQuery :: "'w http_env \<Rightarrow> ('w, 'v, 'd) gateway \<Rightarrow> string \<Rightarrow> QueryRequest option \<Rightarrow> http_response \<times> ('w, 'v, 'd) gateway" where
  "handleQuery he g userID body =
     limited (he_now he 0) g userID (\<lambda>g.
       case body of
         None \<Rightarrow> (Abort 400 ''message is required'', g)
       | Some req \<Rightarrow>
           if qr_Message req = [] then (Abort 400 ''message is required'', g)
           else let inp = query_input he userID req;
                    (r, orc) = Process (he_envs he) (he_parse he) (he_newID he) (he_agent he) (gw_agent g) inp;
                    g = g\<lparr>gw_agent := orc\<rparr>
                in case r of
                     Inl e \<Rightarrow> (Abort 500 ''processing failed'', g)
                   | Inr resp \<Rightarrow>
                       (OK (AObj ([(''message'', AStr (rp_Message resp)), (''correlation_id'', AStr (he_correlationID he))] @
                          omitempty ''conversation_id'' (AStr (in_ConversationID inp)) @ omitempty ''tokens_used'' (ANum (of_int (rp_TokensUsed resp))))), g))"

definition sse_event :: "string \<Rightarrow> string \<Rightarrow> string \<Rightarrow> params" where
  "sse_event typ content toolName = [(''type'', AStr typ)] @ omitempty ''content'' (AStr content) @ omitempty ''tool'' (AStr toolName)"

definition handleQueryStream :: "'w http_env \<Rightarrow> ('w, 'v, 'd) gateway \<Rightarrow> string \<Rightarrow> QueryRequest option \<Rightarrow> http_response \<times> ('w, 'v, 'd) gateway" where
  "handleQueryStream he g userID body =
     (if userID = [] then (Abort 401 ''Unauthorized'', g)
      else limited (he_now he 0) g userID (\<lambda>g.
       case body of
         None \<Rightarrow> (Abort 400 ''Bad request'', g)
       | Some req \<Rightarrow>
           if qr_Message req = [] then (Abort 400 ''message is required'', g)
           else let (r, orc) = Process (he_envs he) (he_parse he) (he_newID he) (he_agent he) (gw_agent g) (query_input he userID req);
                    g = g\<lparr>gw_agent := orc\<rparr>
                in case r of
                     Inl e \<Rightarrow> (Events [(''error'', sse_event [] ''processing failed'' [])], g)
                   | Inr resp \<Rightarrow>
                       (Events (map (\<lambda>tr. (''tool_result'', sse_event [] [] (tcr_ToolName tr))) (rp_ToolResults resp) @
                          (if rp_Message resp \<noteq> [] then [(''text'', sse_event [] (rp_Message resp) [])] else []) @
                          [(''done'', sse_event ''done'' [] [])]), g)))"

section \<open>Approvals\<close>

record ApproveRequest =
  aq_ApprovalID :: string
  aq_Decision :: string

fun approvalError :: "approval_error \<Rightarrow> http_response" where
  "approvalError ErrNotFound = JSON 404 (error_body ''approval not found'')"
| "approvalError ErrExpired = JSON 410 (error_body ''approval expired'')"
| "approvalError ErrAlreadyResolved = JSON 409 (error_body ''approval already resolved'')"
| "approvalError (ErrCreate e) = Abort 500 ''approval error''"

definition handleApprove :: "'w http_env \<Rightarrow> ('w, 'v, 'd) gateway \<Rightarrow> string \<Rightarrow> ApproveRequest option \<Rightarrow> http_response \<times> ('w, 'v, 'd) gateway" where
  "handleApprove he g userID body =
     (if userID = [] then (Abort 401 ''Unauthorized'', g)
      else limited (he_now he 0) g userID (\<lambda>g.
       case body of
         None \<Rightarrow> (Abort 400 ''invalid request body'', g)
       | Some req \<Rightarrow>
           if aq_ApprovalID req = [] then (Abort 400 ''approval_id is required'', g)
           else if aq_Decision req \<noteq> ''approve'' \<and> aq_Decision req \<noteq> ''deny'' then (Abort 400 (''decision must be '' @ quoted ''approve'' @ '' or '' @ quoted ''deny''), g)
           else case o_approvalMgr (gw_agent g) of
                  None \<Rightarrow> (Abort 503 ''approval manager not configured'', g)
                | Some mgr \<Rightarrow>
                    if aq_Decision req = ''deny''
                    then (case Deny mgr (he_now he 1) (aq_ApprovalID req) userID of
                            (Some e, mgr) \<Rightarrow> (approvalError e, g\<lparr>gw_agent := (gw_agent g)\<lparr>o_approvalMgr := Some mgr\<rparr>\<rparr>)
                          | (None, mgr) \<Rightarrow>
                              (OK (AObj [(''approval_id'', AStr (aq_ApprovalID req)), (''status'', AStr ''denied'')]),
                               g\<lparr>gw_agent := (gw_agent g)\<lparr>o_approvalMgr := Some mgr\<rparr>\<rparr>))
                    else (case Approve mgr (he_now he 1) (aq_ApprovalID req) userID of
                            (Some e, mgr) \<Rightarrow> (approvalError e, g\<lparr>gw_agent := (gw_agent g)\<lparr>o_approvalMgr := Some mgr\<rparr>\<rparr>)
                          | (None, mgr) \<Rightarrow>
                              (case ResumeWithApproval (he_env he) ((gw_agent g)\<lparr>o_approvalMgr := Some mgr\<rparr>) (aq_ApprovalID req) of
                                 (Inl e, orc) \<Rightarrow> (Abort 500 ''execution after approval failed'', g\<lparr>gw_agent := orc\<rparr>)
                               | (Inr res, orc) \<Rightarrow>
                                   (OK (AObj ([(''approval_id'', AStr (aq_ApprovalID req)), (''status'', AStr ''approved'')] @
                                      omitempty ''output'' (AStr (tp_Output res)) @ [(''success'', ABool (tp_Success res))] @
                                      omitempty ''metadata'' (AObj (tp_Metadata res)))), g\<lparr>gw_agent := orc\<rparr>)))))"

definition handleHealth :: "('w, 'v, 'd) gateway \<Rightarrow> http_response \<times> ('w, 'v, 'd) gateway" where
  "handleHealth g = (OK (status_body ''ok''), g)"

section \<open>Workflows\<close>

record WorkflowSubmitRequest =
  ws_Goal :: string
  ws_BudgetLimitUSD :: usd
  ws_MaxDepth :: int
  ws_MaxTasks :: int

definition submitted_response :: "'w http_env \<Rightarrow> Workflow \<Rightarrow> http_response" where
  "submitted_response he w =
     JSON 202 (AObj [(''id'', AStr (he_ustr he (wf_ID w))), (''status'', AStr (workflow_status_text (wf_Status w))), (''goal'', AStr (wf_Goal w)),
       (''correlation_id'', AStr (wf_CorrelationID w)), (''task_count'', ANum (of_int (wf_TaskCount w))), (''budget_spent_usd'', ANum 0)])"

text \<open>Without external agents the engine registers a cancel function for the workflow it starts.\<close>

definition submit :: "'w http_env \<Rightarrow> 'v outside \<Rightarrow> ('w, 'v, 'd) gateway \<Rightarrow> 'v sched \<Rightarrow> WorkflowRequest \<Rightarrow> http_response \<times> ('w, 'v, 'd) gateway" where
  "submit he orc g eng req =
     (case Submit orc (he_engine he) eng req of
        (Inl e, eng) \<Rightarrow> (Abort 500 ''workflow submission failed'', g\<lparr>gw_wfEngine := Some eng\<rparr>)
      | (Inr w, eng) \<Rightarrow>
          (submitted_response he w,
           g\<lparr>gw_wfEngine := Some eng, gw_cancels := (if ec_ExternalAgents (he_engine he) then gw_cancels g else wf_ID w # gw_cancels g)\<rparr>))"

definition handleWorkflowSubmit ::
  "'w http_env \<Rightarrow> 'v outside \<Rightarrow> ('w, 'v, 'd) gateway \<Rightarrow> 'v sched \<Rightarrow> string \<Rightarrow> WorkflowSubmitRequest option \<Rightarrow> http_response \<times> ('w, 'v, 'd) gateway" where
  "handleWorkflowSubmit he orc g eng userID body =
     (if userID = [] then (Abort 401 ''Unauthorized'', g)
      else limited (he_now he 0) g userID (\<lambda>g.
       case body of
         None \<Rightarrow> (Abort 400 ''invalid request body'', g)
       | Some req \<Rightarrow>
           if ws_Goal req = [] then (Abort 400 ''goal is required'', g)
           else submit he orc g eng
                  \<lparr>wr_UserID = userID, wr_OrgID = 0, wr_Goal = ws_Goal req, wr_CorrelationID = he_correlationID he,
                   wr_BudgetLimitUSD = ws_BudgetLimitUSD req, wr_MaxDepth = ws_MaxDepth req, wr_MaxTasks = ws_MaxTasks req\<rparr>))"

definition handleWorkflowStatus :: "'w http_env \<Rightarrow> ('w, 'v, 'd) gateway \<Rightarrow> 'v sched \<Rightarrow> string \<Rightarrow> string \<Rightarrow> http_response \<times> ('w, 'v, 'd) gateway" where
  "handleWorkflowStatus he g eng userID param =
     (if userID = [] then (Abort 401 ''Unauthorized'', g)
      else case he_parse he param of
             None \<Rightarrow> (Abort 400 ''invalid workflow ID'', g)
           | Some i \<Rightarrow>
               (case Status (sc_store eng) i of
                  Inl e \<Rightarrow> (JSON 404 (error_body ''workflow not found''), g)
                | Inr w \<Rightarrow>
                    (OK (AObj ([(''id'', AStr (he_ustr he (wf_ID w))), (''status'', AStr (workflow_status_text (wf_Status w))), (''goal'', AStr (wf_Goal w)),
                       (''correlation_id'', AStr (wf_CorrelationID w)), (''task_count'', ANum (of_int (wf_TaskCount w))),
                       (''budget_spent_usd'', ANum (wf_BudgetSpentUSD w))] @ omitempty ''error'' (AStr (wf_Error w)))), g)))"

definition handleWorkflowCancel :: "'w http_env \<Rightarrow> ('w, 'v, 'd) gateway \<Rightarrow> 'v sched \<Rightarrow> string \<Rightarrow> string \<Rightarrow> http_response \<times> ('w, 'v, 'd) gateway" where
  "handleWorkflowCancel he g eng userID param =
     (if userID = [] then (Abort 401 ''Unauthorized'', g)
      else case he_parse he param of
             None \<Rightarrow> (Abort 400 ''invalid workflow ID'', g)
           | Some i \<Rightarrow>
               (case Cancel (sc_store eng) (gw_cancels g) (gw_cancelled g) i of
                  (Some e, c) \<Rightarrow> (Abort 500 ''cancellation failed'', g\<lparr>gw_cancelled := c\<rparr>)
                | (None, c) \<Rightarrow> (OK (status_body ''cancelled''), g\<lparr>gw_cancelled := c\<rparr>)))"

definition task_response :: "'w http_env \<Rightarrow> Task \<Rightarrow> any" where
  "task_response he t =
     AObj ([(''id'', AStr (he_ustr he (tk_ID t))), (''agent_role'', AStr (tk_AgentRole t)), (''description'', AStr (tk_Description t)),
       (''status'', AStr (task_status_text (tk_Status t))), (''depth'', ANum (of_int (tk_Depth t)))] @
       omitempty ''cost_usd'' (ANum (tk_CostUSD t)) @ omitempty ''error'' (AStr (tk_Error t)))"

definition handleWorkflowTasks :: "'w http_env \<Rightarrow> ('w, 'v, 'd) gateway \<Rightarrow> 'v sched \<Rightarrow> string \<Rightarrow> string \<Rightarrow> http_response \<times> ('w, 'v, 'd) gateway" where
  "handleWorkflowTasks he g eng userID param =
     (if userID = [] then (Abort 401 ''Unauthorized'', g)
      else case he_parse he param of
             None \<Rightarrow> (Abort 400 ''invalid workflow ID'', g)
           | Some i \<Rightarrow> (OK (AArr (map (task_response he) (ListTasks (sc_store eng) i))), g))"

section \<open>Cron jobs\<close>

record CronJobRequest =
  cq_Name :: string
  cq_Description :: string
  cq_CronExpression :: string
  cq_Goal :: string
  cq_BudgetLimitUSD :: usd
  cq_MaxDepth :: int
  cq_MaxTasks :: int
  cq_Enabled :: "bool option"

definition toCronJobResponse :: "'w http_env \<Rightarrow> CronJob \<Rightarrow> any" where
  "toCronJobResponse he cj =
     AObj ([(''id'', AStr (he_ustr he (cj_ID cj))), (''name'', AStr (cj_Name cj)), (''description'', AStr (cj_Description cj)),
       (''cron_expression'', AStr (cj_CronExpression cj)), (''goal'', AStr (cj_Goal cj)), (''user_id'', AStr (cj_UserID cj)),
       (''budget_limit_usd'', ANum (cj_BudgetLimitUSD cj)), (''max_depth'', ANum (of_int (cj_MaxDepth cj))),
       (''max_tasks'', ANum (of_int (cj_MaxTasks cj))), (''enabled'', ABool (cj_Enabled cj))] @
       omitempty ''next_run_at'' (opt_time (he_time he) (cj_NextRunAt cj)) @ omitempty ''last_run_at'' (opt_time (he_time he) (cj_LastRunAt cj)) @
       omitempty ''last_workflow_id'' (AStr (case cj_LastWorkflowID cj of None \<Rightarrow> [] | Some i \<Rightarrow> he_ustr he i)) @
       omitempty ''last_error'' (AStr (cj_LastError cj)) @
       [(''created_at'', AStr (he_time he (cj_CreatedAt cj))), (''updated_at'', AStr (he_time he (cj_UpdatedAt cj)))])"

definition handleCronJobCreate ::
  "'w http_env \<Rightarrow> ('w, 'v, 'd) gateway \<Rightarrow> cron_row list \<Rightarrow> string \<Rightarrow> CronJobRequest option \<Rightarrow> http_response \<times> ('w, 'v, 'd) gateway" where
  "handleCronJobCreate he g rows userID body =
     (if userID = [] then (Abort 401 ''Unauthorized'', g)
      else limited (he_now he 0) g userID (\<lambda>g.
       case body of
         None \<Rightarrow> (Abort 400 ''invalid request body'', g)
       | Some req \<Rightarrow>
           if cq_Name req = [] then (Abort 400 ''name is required'', g)
           else if cq_CronExpression req = [] then (Abort 400 ''cron_expression is required'', g)
           else if cq_Goal req = [] then (Abort 400 ''goal is required'', g)
           else case ComputeNextRunFrom (he_next he) (cq_CronExpression req) (he_now he 1) of
                  Inl e \<Rightarrow> (Abort 400 (''invalid cron_expression: '' @ e), g)
                | Inr nextRun \<Rightarrow>
                    (let cj = \<lparr>cj_ID = he_newID he, cj_OrgID = he_cronOrgID he, cj_Name = cq_Name req, cj_Description = cq_Description req,
                               cj_CronExpression = cq_CronExpression req, cj_Goal = cq_Goal req, cj_UserID = userID,
                               cj_BudgetLimitUSD = cq_BudgetLimitUSD req, cj_MaxDepth = cq_MaxDepth req, cj_MaxTasks = cq_MaxTasks req,
                               cj_Enabled = (case cq_Enabled req of None \<Rightarrow> True | Some b \<Rightarrow> b), cj_NextRunAt = Some nextRun,
                               cj_LastRunAt = None, cj_LastWorkflowID = None, cj_LastError = [], cj_CreatedAt = he_now he 2, cj_UpdatedAt = he_now he 2\<rparr>
                     in case Cron_Create rows cj of
                          (Some e, rows) \<Rightarrow> (Abort 500 ''failed to create cron job'', g\<lparr>gw_cronStore := Some rows\<rparr>)
                        | (None, rows) \<Rightarrow> (JSON 201 (toCronJobResponse he cj), g\<lparr>gw_cronStore := Some rows\<rparr>))))"

definition handleCronJobList :: "'w http_env \<Rightarrow> ('w, 'v, 'd) gateway \<Rightarrow> cron_row list \<Rightarrow> string \<Rightarrow> http_response \<times> ('w, 'v, 'd) gateway" where
  "handleCronJobList he g rows userID =
     (if userID = [] then (Abort 401 ''Unauthorized'', g)
      else (OK (AArr (map (toCronJobResponse he) (Cron_List rows (he_cronOrgID he)))), g))"

text \<open>The handlers that name a job, an alert rule or a channel start in the same way.\<close>

definition with_id :: "'w http_env \<Rightarrow> ('w, 'v, 'd) gateway \<Rightarrow> string \<Rightarrow> string \<Rightarrow> string \<Rightarrow> (uuid \<Rightarrow> http_response \<times> ('w, 'v, 'd) gateway) \<Rightarrow>
    http_response \<times> ('w, 'v, 'd) gateway" where
  "with_id he g userID param msg body =
     (if userID = [] then (Abort 401 ''Unauthorized'', g)
      else case he_parse he param of None \<Rightarrow> (Abort 400 msg, g) | Some i \<Rightarrow> body i)"

definition handleCronJobGet :: "'w http_env \<Rightarrow> ('w, 'v, 'd) gateway \<Rightarrow> cron_row list \<Rightarrow> string \<Rightarrow> string \<Rightarrow> http_response \<times> ('w, 'v, 'd) gateway" where
  "handleCronJobGet he g rows userID param =
     with_id he g userID param ''invalid cron job ID'' (\<lambda>i.
       case Cron_Get rows (he_cronOrgID he) i of
         Inl e \<Rightarrow> (JSON 404 (error_body ''cron job not found''), g)
       | Inr cj \<Rightarrow> (OK (toCronJobResponse he cj), g))"

definition update_job :: "CronJobRequest \<Rightarrow> CronJob \<Rightarrow> CronJob" where
  "update_job req cj =
     cj\<lparr>cj_Name := (if cq_Name req \<noteq> [] then cq_Name req else cj_Name cj),
        cj_Description := (if cq_Description req \<noteq> [] then cq_Description req else cj_Description cj),
        cj_Goal := (if cq_Goal req \<noteq> [] then cq_Goal req else cj_Goal cj),
        cj_BudgetLimitUSD := (if cq_BudgetLimitUSD req > 0 then cq_BudgetLimitUSD req else cj_BudgetLimitUSD cj),
        cj_MaxDepth := (if cq_MaxDepth req > 0 then cq_MaxDepth req else cj_MaxDepth cj),
        cj_MaxTasks := (if cq_MaxTasks req > 0 then cq_MaxTasks req else cj_MaxTasks cj),
        cj_Enabled := (case cq_Enabled req of None \<Rightarrow> cj_Enabled cj | Some b \<Rightarrow> b)\<rparr>"

definition handleCronJobUpdate ::
  "'w http_env \<Rightarrow> ('w, 'v, 'd) gateway \<Rightarrow> cron_row list \<Rightarrow> string \<Rightarrow> string \<Rightarrow> CronJobRequest option \<Rightarrow> http_response \<times> ('w, 'v, 'd) gateway" where
  "handleCronJobUpdate he g rows userID param body =
     with_id he g userID param ''invalid cron job ID'' (\<lambda>i.
       case Cron_Get rows (he_cronOrgID he) i of
         Inl e \<Rightarrow> (JSON 404 (error_body ''cron job not found''), g)
       | Inr cj \<Rightarrow>
           (case body of
              None \<Rightarrow> (Abort 400 ''invalid request body'', g)
            | Some req \<Rightarrow>
                (case (if cq_CronExpression req \<noteq> []
                       then map_sum id (\<lambda>nextRun. cj\<lparr>cj_CronExpression := cq_CronExpression req, cj_NextRunAt := Some nextRun\<rparr>)
                              (ComputeNextRunFrom (he_next he) (cq_CronExpression req) (he_now he 0))
                       else Inr cj) of
                   Inl e \<Rightarrow> (Abort 400 (''invalid cron_expression: '' @ e), g)
                 | Inr cj \<Rightarrow>
                     (let cj = (update_job req cj)\<lparr>cj_UpdatedAt := he_now he 1\<rparr>
                      in (OK (toCronJobResponse he cj), g\<lparr>gw_cronStore := Some (Cron_Update (he_now he 2) rows cj)\<rparr>)))))"

definition handleCronJobDelete :: "'w http_env \<Rightarrow> ('w, 'v, 'd) gateway \<Rightarrow> cron_row list \<Rightarrow> string \<Rightarrow> string \<Rightarrow> http_response \<times> ('w, 'v, 'd) gateway" where
  "handleCronJobDelete he g rows userID param =
     with_id he g userID param ''invalid cron job ID'' (\<lambda>i.
       case Cron_Delete rows (he_cronOrgID he) i of
         (Some e, rows) \<Rightarrow> (JSON 404 (error_body ''cron job not found''), g\<lparr>gw_cronStore := Some rows\<rparr>)
       | (None, rows) \<Rightarrow> (OK (status_body ''deleted''), g\<lparr>gw_cronStore := Some rows\<rparr>))"

definition handleCronJobTrigger ::
  "'w http_env \<Rightarrow> 'v outside \<Rightarrow> ('w, 'v, 'd) gateway \<Rightarrow> cron_row list \<Rightarrow> string \<Rightarrow> string \<Rightarrow> http_response \<times> ('w, 'v, 'd) gateway" where
  "handleCronJobTrigger he orc g rows userID param =
     (if userID = [] then (Abort 401 ''Unauthorized'', g)
      else case gw_wfEngine g of
             None \<Rightarrow> (Abort 503 ''workflow engine not available'', g)
           | Some eng \<Rightarrow>
               with_id he g userID param ''invalid cron job ID'' (\<lambda>i.
                 case Cron_Get rows (he_cronOrgID he) i of
                   Inl e \<Rightarrow> (JSON 404 (error_body ''cron job not found''), g)
                 | Inr cj \<Rightarrow>
                     submit he orc g eng
                       \<lparr>wr_UserID = userID, wr_OrgID = cj_OrgID cj, wr_Goal = cj_Goal cj, wr_CorrelationID = he_correlationID he,
                        wr_BudgetLimitUSD = cj_BudgetLimitUSD cj, wr_MaxDepth = cj_MaxDepth cj, wr_MaxTasks = cj_MaxTasks cj\<rparr>))"

section \<open>Alert rules\<close>

record AlertRuleRequest =
  aj_Name :: string
  aj_Description :: string
  aj_Target :: string
  aj_CheckType :: string
  aj_CheckConfig :: "(string \<times> string) list option"
  aj_CronExpression :: string
  aj_Channels :: "string list"
  aj_CooldownS :: int
  aj_Enabled :: "bool option"

definition string_map :: "(string \<times> string) list \<Rightarrow> any" where
  "string_map m = AObj (map (map_prod id AStr) m)"

definition toAlertRuleResponse :: "'w http_env \<Rightarrow> AlertRule \<Rightarrow> any" where
  "toAlertRuleResponse he r =
     AObj ([(''id'', AStr (he_ustr he (ar_ID r))), (''name'', AStr (ar_Name r)), (''description'', AStr (ar_Description r)),
       (''target'', AStr (ar_Target r)), (''check_type'', AStr (ar_CheckType r)), (''check_config'', string_map (ar_CheckConfig r)),
       (''cron_expression'', AStr (ar_CronExpression r)), (''channel_ids'', AArr (map (\<lambda>i. AStr (he_ustr he i)) (ar_ChannelIDs r))),
       (''user_id'', AStr (AlertRule.ar_UserID r)), (''enabled'', ABool (ar_Enabled r)), (''cooldown_seconds'', ANum (of_int (ar_CooldownS r)))] @
       omitempty ''last_checked_at'' (opt_time (he_time he) (ar_LastCheckedAt r)) @ omitempty ''last_alerted_at'' (opt_time (he_time he) (ar_LastAlertedAt r)) @
       [(''last_status'', AStr (ar_LastStatus r))] @ omitempty ''next_run_at'' (opt_time (he_time he) (ar_NextRunAt r)) @
       [(''created_at'', AStr (he_time he (ar_CreatedAt r))), (''updated_at'', AStr (he_time he (ar_UpdatedAt r)))])"

definition toAlertHistoryResponse :: "'w http_env \<Rightarrow> AlertHistory \<Rightarrow> any" where
  "toAlertHistoryResponse he h =
     AObj ([(''id'', AStr (he_ustr he (ah_ID h))), (''alert_rule_id'', AStr (he_ustr he (ah_AlertRuleID h))), (''status'', AStr (ah_Status h)),
       (''previous_status'', AStr (ah_PreviousStatus h)), (''message'', AStr (ah_Message h)), (''notified_via'', AArr (map AStr (ah_NotifiedVia h)))] @
       omitempty ''notify_errors'' (AArr (map AStr (ah_NotifyErrors h))) @
       [(''check_duration_ms'', ANum (of_int (ah_CheckDurationMS h))), (''created_at'', AStr (he_time he (ah_CreatedAt h)))])"

fun resolve_channels :: "channel_row list \<Rightarrow> uuid \<Rightarrow> string list \<Rightarrow> string + uuid list" where
  "resolve_channels rows orgID [] = Inr []"
| "resolve_channels rows orgID (name # names) =
     (case Channel_GetByName rows orgID name of
        Inl e \<Rightarrow> Inl name
      | Inr ch \<Rightarrow> map_sum id (\<lambda>ids. nc_ID ch # ids) (resolve_channels rows orgID names))"

definition check_config :: "AlertRuleRequest \<Rightarrow> (string \<times> string) list" where
  "check_config req =
     (let cfg = (case aj_CheckConfig req of None \<Rightarrow> [] | Some m \<Rightarrow> m)
      in if aj_CheckType req = ''http_status'' \<and> (case map_of cfg ''url'' of None \<Rightarrow> True | Some u \<Rightarrow> u = [])
         then AList.update ''url'' (aj_Target req) cfg else cfg)"

definition handleAlertCreate ::
  "'w http_env \<Rightarrow> ('w, 'v, 'd) gateway \<Rightarrow> alert_row list \<Rightarrow> channel_row list \<Rightarrow> string \<Rightarrow> AlertRuleRequest option \<Rightarrow> http_response \<times> ('w, 'v, 'd) gateway" where
  "handleAlertCreate he g rows channels userID body =
     (if userID = [] then (Abort 401 ''Unauthorized'', g)
      else limited (he_now he 0) g userID (\<lambda>g.
       case body of
         None \<Rightarrow> (Abort 400 ''invalid request body'', g)
       | Some req \<Rightarrow>
           if aj_Name req = [] then (Abort 400 ''name is required'', g)
           else if aj_Target req = [] then (Abort 400 ''target is required'', g)
           else if aj_CheckType req = [] then (Abort 400 ''check_type is required'', g)
           else if aj_CronExpression req = [] then (Abort 400 ''cron_expression is required'', g)
           else if aj_Channels req = [] then (Abort 400 ''channels is required'', g)
           else case ComputeNextRunFrom (he_next he) (aj_CronExpression req) (he_now he 1) of
                  Inl e \<Rightarrow> (Abort 400 (''invalid cron_expression: '' @ e), g)
                | Inr nextRun \<Rightarrow>
                    (case resolve_channels channels (he_alertOrgID he) (aj_Channels req) of
                       Inl name \<Rightarrow> (Abort 400 (''notification channel '' @ he_quote he name @ '' not found''), g)
                     | Inr channelIDs \<Rightarrow>
                         (let rule = \<lparr>ar_ID = he_newID he, ar_OrgID = he_alertOrgID he, ar_Name = aj_Name req, ar_Description = aj_Description req,
                                      ar_Target = aj_Target req, ar_CheckType = aj_CheckType req, ar_CheckConfig = check_config req,
                                      ar_CronExpression = aj_CronExpression req, ar_ChannelIDs = channelIDs, ar_UserID = userID,
                                      ar_Enabled = (case aj_Enabled req of None \<Rightarrow> True | Some b \<Rightarrow> b),
                                      ar_CooldownS = (if aj_CooldownS req > 0 then aj_CooldownS req else 300), ar_LastCheckedAt = None,
                                      ar_LastAlertedAt = None, ar_LastStatus = ''ok'', ar_NextRunAt = Some nextRun,
                                      ar_CreatedAt = he_now he 2, ar_UpdatedAt = he_now he 2\<rparr>
                          in case Rule_Create rows rule of
                               (Some e, rows) \<Rightarrow> (Abort 500 ''failed to create alert rule'', g\<lparr>gw_alertStore := Some rows\<rparr>)
                             | (None, rows) \<Rightarrow> (JSON 201 (toAlertRuleResponse he rule), g\<lparr>gw_alertStore := Some rows\<rparr>)))))"

definition handleAlertList :: "'w http_env \<Rightarrow> ('w, 'v, 'd) gateway \<Rightarrow> alert_row list \<Rightarrow> string \<Rightarrow> http_response \<times> ('w, 'v, 'd) gateway" where
  "handleAlertList he g rows userID =
     (if userID = [] then (Abort 401 ''Unauthorized'', g)
      else (OK (AArr (map (toAlertRuleResponse he) (Rule_List rows (he_alertOrgID he)))), g))"

definition handleAlertGet :: "'w http_env \<Rightarrow> ('w, 'v, 'd) gateway \<Rightarrow> alert_row list \<Rightarrow> string \<Rightarrow> string \<Rightarrow> http_response \<times> ('w, 'v, 'd) gateway" where
  "handleAlertGet he g rows userID param =
     with_id he g userID param ''invalid alert rule ID'' (\<lambda>i.
       case Rule_Get rows (he_alertOrgID he) i of
         Inl e \<Rightarrow> (JSON 404 (error_body ''alert rule not found''), g)
       | Inr rule \<Rightarrow> (OK (toAlertRuleResponse he rule), g))"

definition update_rule :: "AlertRuleRequest \<Rightarrow> uuid list \<Rightarrow> AlertRule \<Rightarrow> AlertRule" where
  "update_rule req channelIDs rule =
     rule\<lparr>ar_Name := (if aj_Name req \<noteq> [] then aj_Name req else ar_Name rule),
          ar_Description := (if aj_Description req \<noteq> [] then aj_Description req else ar_Description rule),
          ar_Target := (if aj_Target req \<noteq> [] then aj_Target req else ar_Target rule),
          ar_CheckType := (if aj_CheckType req \<noteq> [] then aj_CheckType req else ar_CheckType rule),
          ar_CheckConfig := (case aj_CheckConfig req of None \<Rightarrow> ar_CheckConfig rule | Some m \<Rightarrow> m),
          ar_ChannelIDs := (if aj_Channels req \<noteq> [] then channelIDs else ar_ChannelIDs rule),
          ar_CooldownS := (if aj_CooldownS req > 0 then aj_CooldownS req else ar_CooldownS rule),
          ar_Enabled := (case aj_Enabled req of None \<Rightarrow> ar_Enabled rule | Some b \<Rightarrow> b)\<rparr>"

definition handleAlertUpdate ::
  "'w http_env \<Rightarrow> ('w, 'v, 'd) gateway \<Rightarrow> alert_row list \<Rightarrow> channel_row list \<Rightarrow> string \<Rightarrow> string \<Rightarrow> AlertRuleRequest option \<Rightarrow> http_response \<times> ('w, 'v, 'd) gateway" where
  "handleAlertUpdate he g rows channels userID param body =
     with_id he g userID param ''invalid alert rule ID'' (\<lambda>i.
       case Rule_Get rows (he_alertOrgID he) i of
         Inl e \<Rightarrow> (JSON 404 (error_body ''alert rule not found''), g)
       | Inr rule \<Rightarrow>
           (case body of
              None \<Rightarrow> (Abort 400 ''invalid request body'', g)
            | Some req \<Rightarrow>
                (case (if aj_CronExpression req \<noteq> []
                       then map_sum id (\<lambda>nextRun. rule\<lparr>ar_CronExpression := aj_CronExpression req, ar_NextRunAt := Some nextRun\<rparr>)
                              (ComputeNextRunFrom (he_next he) (aj_CronExpression req) (he_now he 0))
                       else Inr rule) of
                   Inl e \<Rightarrow> (Abort 400 (''invalid cron_expression: '' @ e), g)
                 | Inr rule \<Rightarrow>
                     (case resolve_channels channels (he_alertOrgID he) (aj_Channels req) of
                        Inl name \<Rightarrow> (Abort 400 (''notification channel '' @ he_quote he name @ '' not found''), g)
                      | Inr channelIDs \<Rightarrow>
                          (let rule = (update_rule req channelIDs rule)\<lparr>ar_UpdatedAt := he_now he 1\<rparr>
                           in (OK (toAlertRuleResponse he rule), g\<lparr>gw_alertStore := Some (Rule_Update (he_now he 2) rows rule)\<rparr>))))))"

definition handleAlertDelete :: "'w http_env \<Rightarrow> ('w, 'v, 'd) gateway \<Rightarrow> alert_row list \<Rightarrow> string \<Rightarrow> string \<Rightarrow> http_response \<times> ('w, 'v, 'd) gateway" where
  "handleAlertDelete he g rows userID param =
     with_id he g userID param ''invalid alert rule ID'' (\<lambda>i.
       case Rule_Delete rows (he_alertOrgID he) i of
         (Some e, rows) \<Rightarrow> (JSON 404 (error_body ''alert rule not found''), g\<lparr>gw_alertStore := Some rows\<rparr>)
       | (None, rows) \<Rightarrow> (OK (status_body ''deleted''), g\<lparr>gw_alertStore := Some rows\<rparr>))"

definition handleAlertHistory :: "'w http_env \<Rightarrow> ('w, 'v, 'd) gateway \<Rightarrow> string \<Rightarrow> string \<Rightarrow> http_response \<times> ('w, 'v, 'd) gateway" where
  "handleAlertHistory he g userID param =
     with_id he g userID param ''invalid alert rule ID'' (\<lambda>i.
       (OK (AArr (map (toAlertHistoryResponse he) (ListByRule (gw_history g) (he_alertOrgID he) i 50))), g))"

section \<open>Notification channels\<close>

record NotificationChannelRequest =
  nq_Name :: string
  nq_ChannelType :: string
  nq_Config :: "(string \<times> string) list option"
  nq_CredentialRef :: string
  nq_Enabled :: "bool option"

definition toNotificationChannelResponse :: "'w http_env \<Rightarrow> NotificationChannel \<Rightarrow> any" where
  "toNotificationChannelResponse he ch =
     AObj [(''id'', AStr (he_ustr he (nc_ID ch))), (''name'', AStr (nc_Name ch)), (''channel_type'', AStr (nc_ChannelType ch)),
       (''config'', string_map (nc_Config ch)), (''enabled'', ABool (nc_Enabled ch)), (''created_at'', AStr (he_time he (nc_CreatedAt ch))),
       (''updated_at'', AStr (he_time he (nc_UpdatedAt ch)))]"

definition set_channels :: "('w, 'v, 'd) gateway \<Rightarrow> 'd Dispatcher \<Rightarrow> channel_row list \<Rightarrow> ('w, 'v, 'd) gateway" where
  "set_channels g d rows = g\<lparr>gw_dispatcher := Some (d\<lparr>d_store := rows\<rparr>)\<rparr>"

definition channel_types :: "string list" where
  "channel_types = [''telegram'', ''slack'', ''email'', ''webhook'']"

definition handleChannelCreate ::
  "'w http_env \<Rightarrow> ('w, 'v, 'd) gateway \<Rightarrow> 'd Dispatcher \<Rightarrow> string \<Rightarrow> NotificationChannelRequest option \<Rightarrow> http_response \<times> ('w, 'v, 'd) gateway" where
  "handleChannelCreate he g d userID body =
     (if userID = [] then (Abort 401 ''Unauthorized'', g)
      else case body of
             None \<Rightarrow> (Abort 400 ''invalid request body'', g)
           | Some req \<Rightarrow>
               if nq_Name req = [] then (Abort 400 ''name is required'', g)
               else if nq_ChannelType req = [] then (Abort 400 ''channel_type is required'', g)
               else if nq_ChannelType req \<notin> set channel_types
               then (Abort 400 ''channel_type must be telegram, slack, email, or webhook'', g)
               else let ch = \<lparr>nc_ID = he_newID he, nc_OrgID = he_alertOrgID he, nc_Name = nq_Name req, nc_ChannelType = nq_ChannelType req,
                              nc_Config = (case nq_Config req of None \<Rightarrow> [] | Some m \<Rightarrow> m), nc_CredentialRef = nq_CredentialRef req,
                              nc_Enabled = (case nq_Enabled req of None \<Rightarrow> True | Some b \<Rightarrow> b), nc_CreatedAt = he_now he 0, nc_UpdatedAt = he_now he 0\<rparr>
                    in case Channel_Create (d_store d) ch of
                         (Some e, rows) \<Rightarrow> (Abort 500 ''failed to create notification channel'', set_channels g d rows)
                       | (None, rows) \<Rightarrow> (JSON 201 (toNotificationChannelResponse he ch), set_channels g d rows))"

definition handleChannelList :: "'w http_env \<Rightarrow> ('w, 'v, 'd) gateway \<Rightarrow> 'd Dispatcher \<Rightarrow> string \<Rightarrow> http_response \<times> ('w, 'v, 'd) gateway" where
  "handleChannelList he g d userID =
     (if userID = [] then (Abort 401 ''Unauthorized'', g)
      else (OK (AArr (map (toNotificationChannelResponse he) (Channel_List (d_store d) (he_alertOrgID he)))), g))"

definition handleChannelGet :: "'w http_env \<Rightarrow> ('w, 'v, 'd) gateway \<Rightarrow> 'd Dispatcher \<Rightarrow> string \<Rightarrow> string \<Rightarrow> http_response \<times> ('w, 'v, 'd) gateway" where
  "handleChannelGet he g d userID param =
     with_id he g userID param ''invalid channel ID'' (\<lambda>i.
       case Channel_Get (d_store d) (he_alertOrgID he) i of
         Inl e \<Rightarrow> (JSON 404 (error_body ''notification channel not found''), g)
       | Inr ch \<Rightarrow> (OK (toNotificationChannelResponse he ch), g))"

definition update_channel :: "NotificationChannelRequest \<Rightarrow> NotificationChannel \<Rightarrow> NotificationChannel" where
  "update_channel req ch =
     ch\<lparr>nc_Name := (if nq_Name req \<noteq> [] then nq_Name req else nc_Name ch),
        nc_ChannelType := (if nq_ChannelType req \<noteq> [] then nq_ChannelType req else nc_ChannelType ch),
        nc_Config := (case nq_Config req of None \<Rightarrow> nc_Config ch | Some m \<Rightarrow> m),
        nc_CredentialRef := (if nq_CredentialRef req \<noteq> [] then nq_CredentialRef req else nc_CredentialRef ch),
        nc_Enabled := (case nq_Enabled req of None \<Rightarrow> nc_Enabled ch | Some b \<Rightarrow> b)\<rparr>"

definition handleChannelUpdate ::
  "'w http_env \<Rightarrow> ('w, 'v, 'd) gateway \<Rightarrow> 'd Dispatcher \<Rightarrow> string \<Rightarrow> string \<Rightarrow> NotificationChannelRequest option \<Rightarrow> http_response \<times> ('w, 'v, 'd) gateway" where
  "handleChannelUpdate he g d userID param body =
     with_id he g userID param ''invalid channel ID'' (\<lambda>i.
       case Channel_Get (d_store d) (he_alertOrgID he) i of
         Inl e \<Rightarrow> (JSON 404 (error_body ''notification channel not found''), g)
       | Inr ch \<Rightarrow>
           (case body of
              None \<Rightarrow> (Abort 400 ''invalid request body'', g)
            | Some req \<Rightarrow>
                (let ch = (update_channel req ch)\<lparr>nc_UpdatedAt := he_now he 0\<rparr>
                 in case Channel_Update (he_now he 1) (d_store d) ch of
                      (Some e, rows) \<Rightarrow> (Abort 500 ''failed to update notification channel'', set_channels g d rows)
                    | (None, rows) \<Rightarrow> (OK (toNotificationChannelResponse he ch), set_channels g d rows))))"

definition handleChannelDelete :: "'w http_env \<Rightarrow> ('w, 'v, 'd) gateway \<Rightarrow> 'd Dispatcher \<Rightarrow> string \<Rightarrow> string \<Rightarrow> http_response \<times> ('w, 'v, 'd) gateway" where
  "handleChannelDelete he g d userID param =
     with_id he g userID param ''invalid channel ID'' (\<lambda>i.
       case Channel_Delete (d_store d) (he_alertOrgID he) i of
         (Some e, rows) \<Rightarrow> (JSON 404 (error_body ''notification channel not found''), set_channels g d rows)
       | (None, rows) \<Rightarrow> (OK (status_body ''deleted''), set_channels g d rows))"

definition test_message :: NotifyMessage where
  "test_message =
     \<lparr>nm_Subject = ''[Akili] Test Notification'',
      nm_Body = ''This is a test notification from Akili. If you receive this, your notification channel is configured correctly.'',
      nm_Metadata = [(''type'', ''test'')]\<rparr>"

definition handleChannelTest :: "'w http_env \<Rightarrow> ('w, 'v, 'd) gateway \<Rightarrow> 'd Dispatcher \<Rightarrow> string \<Rightarrow> string \<Rightarrow> http_response \<times> ('w, 'v, 'd) gateway" where
  "handleChannelTest he g d userID param =
     with_id he g userID param ''invalid channel ID'' (\<lambda>i.
       let (results, d) = Notify (he_texts he) (he_now he) d (he_alertOrgID he) [i] test_message userID;
           g = g\<lparr>gw_dispatcher := Some d\<rparr>
       in case map_of results i of
            Some (Some e) \<Rightarrow> (OK (AObj [(''status'', AStr ''failed''), (''error'', AStr (he_notifyText he e))]), g)
          | _ \<Rightarrow> (OK (status_body ''sent''), g))"

section \<open>Routes\<close>

datatype query_call = Query "QueryRequest option" | QueryStream "QueryRequest option" | ApproveCall "ApproveRequest option" | Health

datatype workflow_call = WorkflowSubmit "WorkflowSubmitRequest option" | WorkflowStatusCall string | WorkflowCancel string | WorkflowTasks string

datatype cron_call =
    CronJobCreate "CronJobRequest option"
  | CronJobList
  | CronJobGet string
  | CronJobUpdate string "CronJobRequest option"
  | CronJobDelete string
  | CronJobTrigger string

datatype alert_call =
    AlertCreate "AlertRuleRequest option"
  | AlertList
  | AlertGet string
  | AlertUpdate string "AlertRuleRequest option"
  | AlertDelete string
  | AlertHistoryCall string

datatype channel_call =
    ChannelCreate "NotificationChannelRequest option"
  | ChannelList
  | ChannelGet string
  | ChannelUpdate string "NotificationChannelRequest option"
  | ChannelDelete string
  | ChannelTest string

datatype api_call =
    QueryRoute query_call
  | WorkflowRoute workflow_call
  | CronRoute cron_call
  | AlertRoute alert_call
  | ChannelRoute channel_call

text \<open>The routes of a component exist only if it is configured; alert routes come with their channels (\<^verbatim>\<open>WithAlerts\<close>).\<close>

fun query_routes :: "'w http_env \<Rightarrow> ('w, 'v, 'd) gateway \<Rightarrow> string \<Rightarrow> query_call \<Rightarrow> http_response \<times> ('w, 'v, 'd) gateway" where
  "query_routes he g u (Query body) = handleQuery he g u body"
| "query_routes he g u (QueryStream body) = (if he_sse he then handleQueryStream he g u body else (Unrouted, g))"
| "query_routes he g u (ApproveCall body) = handleApprove he g u body"
| "query_routes he g u Health = handleHealth g"

fun workflow_routes :: "'w http_env \<Rightarrow> 'v outside \<Rightarrow> ('w, 'v, 'd) gateway \<Rightarrow> 'v sched \<Rightarrow> string \<Rightarrow> workflow_call \<Rightarrow> http_response \<times> ('w, 'v, 'd) gateway" where
  "workflow_routes he orc g eng u (WorkflowSubmit body) = handleWorkflowSubmit he orc g eng u body"
| "workflow_routes he orc g eng u (WorkflowStatusCall i) = handleWorkflowStatus he g eng u i"
| "workflow_routes he orc g eng u (WorkflowCancel i) = handleWorkflowCancel he g eng u i"
| "workflow_routes he orc g eng u (WorkflowTasks i) = handleWorkflowTasks he g eng u i"

fun cron_routes :: "'w http_env \<Rightarrow> 'v outside \<Rightarrow> ('w, 'v, 'd) gateway \<Rightarrow> cron_row list \<Rightarrow> string \<Rightarrow> cron_call \<Rightarrow> http_response \<times> ('w, 'v, 'd) gateway" where
  "cron_routes he orc g rows u (CronJobCreate body) = handleCronJobCreate he g rows u body"
| "cron_routes he orc g rows u CronJobList = handleCronJobList he g rows u"
| "cron_routes he orc g rows u (CronJobGet i) = handleCronJobGet he g rows u i"
| "cron_routes he orc g rows u (CronJobUpdate i body) = handleCronJobUpdate he g rows u i body"
| "cron_routes he orc g rows u (CronJobDelete i) = handleCronJobDelete he g rows u i"
| "cron_routes he orc g rows u (CronJobTrigger i) = handleCronJobTrigger he orc g rows u i"

fun alert_routes :: "'w http_env \<Rightarrow> ('w, 'v, 'd) gateway \<Rightarrow> alert_row list \<Rightarrow> channel_row list \<Rightarrow> string \<Rightarrow> alert_call \<Rightarrow> http_response \<times> ('w, 'v, 'd) gateway" where
  "alert_routes he g rows chs u (AlertCreate body) = handleAlertCreate he g rows chs u body"
| "alert_routes he g rows chs u AlertList = handleAlertList he g rows u"
| "alert_routes he g rows chs u (AlertGet i) = handleAlertGet he g rows u i"
| "alert_routes he g rows chs u (AlertUpdate i body) = handleAlertUpdate he g rows chs u i body"
| "alert_routes he g rows chs u (AlertDelete i) = handleAlertDelete he g rows u i"
| "alert_routes he g rows chs u (AlertHistoryCall i) = handleAlertHistory he g u i"

fun channel_routes :: "'w http_env \<Rightarrow> ('w, 'v, 'd) gateway \<Rightarrow> 'd Dispatcher \<Rightarrow> string \<Rightarrow> channel_call \<Rightarrow> http_response \<times> ('w, 'v, 'd) gateway" where
  "channel_routes he g d u (ChannelCreate body) = handleChannelCreate he g d u body"
| "channel_routes he g d u ChannelList = handleChannelList he g d u"
| "channel_routes he g d u (ChannelGet i) = handleChannelGet he g d u i"
| "channel_routes he g d u (ChannelUpdate i body) = handleChannelUpdate he g d u i body"
| "channel_routes he g d u (ChannelDelete i) = handleChannelDelete he g d u i"
| "channel_routes he g d u (ChannelTest i) = handleChannelTest he g d u i"

definition serve :: "'w http_env \<Rightarrow> 'v outside \<Rightarrow> ('w, 'v, 'd) gateway \<Rightarrow> string \<Rightarrow> api_call \<Rightarrow> http_response \<times> ('w, 'v, 'd) gateway" where
  "serve he orc g authHeader call =
     (case authenticate (he_APIKeys he) authHeader of
        Inl r \<Rightarrow> (r, g)
      | Inr u \<Rightarrow>
          (case call of
             QueryRoute q \<Rightarrow> query_routes he g u q
           | WorkflowRoute q \<Rightarrow> (case gw_wfEngine g of None \<Rightarrow> (Unrouted, g) | Some eng \<Rightarrow> workflow_routes he orc g eng u q)
           | CronRoute q \<Rightarrow> (case gw_cronStore g of None \<Rightarrow> (Unrouted, g) | Some rows \<Rightarrow> cron_routes he orc g rows u q)
           | AlertRoute q \<Rightarrow>
               (case (gw_alertStore g, gw_dispatcher g) of
                  (Some rows, Some d) \<Rightarrow> alert_routes he g rows (d_store d) u q
                | _ \<Rightarrow> (Unrouted, g))
           | ChannelRoute q \<Rightarrow> (case gw_dispatcher g of None \<Rightarrow> (Unrouted, g) | Some d \<Rightarrow> channel_routes he g d u q)))"

end
