(* ===== verification/HttpApiRuns.thy ===== *)
theory HttpApiRuns
  imports HttpApi PipelineRuns
begin

text \<open>
  What the HTTP API guarantees for any sequence of calls: nothing without a key, everything in the name of the key's owner, approvals
  exactly once and by the caller.
\<close>

section \<open>Authentication\<close>

lemma key_lookup:
  "foldl (\<lambda>u (key, userId). if apiKey = key then userId else u) v keys \<noteq> v \<Longrightarrow>
     (apiKey, foldl (\<lambda>u (key, userId). if apiKey = key then userId else u) v keys) \<in> set keys"
proof (induction keys arbitrary: v)
  case (Cons p keys)
  obtain k u where p: "p = (k, u)" by fastforce
  show ?case
  proof (cases "foldl (\<lambda>u (key, userId). if apiKey = key then userId else u) (if apiKey = k then u else v) keys = (if apiKey = k then u else v)")
    case True
    with Cons.prems show ?thesis by (auto simp: p split: if_splits)
  next
    case False
    from Cons.IH[OF this] show ?thesis by (simp add: p)
  qed
qed simp

lemma authenticate_key:
  assumes "authenticate keys h = Inr u"
  shows "\<exists>k. h = ''Bearer '' @ k \<and> (k, u) \<in> set keys \<and> u \<noteq> []"
proof -
  let ?k = "drop 7 h"
  have h: "HasPrefix h ''Bearer ''" and u: "u = foldl (\<lambda>u (key, userId). if ?k = key then userId else u) [] keys" "u \<noteq> []"
    using assms by (auto simp: authenticate_def Let_def split: if_splits)
  obtain k where k: "h = ''Bearer '' @ k" using h by (auto simp: HasPrefix_iff)
  have "(?k, u) \<in> set keys" using key_lookup[of ?k "[]" keys] u by simp
  with u k show ?thesis by auto
qed

text \<open>
  No key, no effect: a call whose \<^verbatim>\<open>Authorization\<close> header is not a configured key of a named user is answered with 401 and
  changes neither the agent nor a workflow, job, rule or channel.
\<close>

theorem unauthenticated_changes_nothing:
  assumes "\<forall>k u. h = ''Bearer '' @ k \<and> (k, u) \<in> set (he_APIKeys he) \<longrightarrow> u = []"
  shows "\<exists>msg. serve he orc g h call = (Abort 401 msg, g)"
proof (cases "authenticate (he_APIKeys he) h")
  case (Inl r)
  then have "\<exists>msg. r = Abort 401 msg" by (auto simp: authenticate_def Let_def split: if_splits)
  with Inl show ?thesis by (auto simp: serve_def)
next
  case (Inr u)
  with authenticate_key assms show ?thesis by blast
qed

section \<open>Owners\<close>

text \<open>What the tables say about owners: the workflows, the jobs and the alert rules with their users.\<close>

definition flows_of :: "('w, 'v, 'd) gateway \<Rightarrow> (uuid \<times> string) set" where
  "flows_of g = (case gw_wfEngine g of None \<Rightarrow> {} | Some s \<Rightarrow> {(i, wf_UserID w) | i w. wf_map (sc_store s) i = Some w})"

definition jobs_of :: "('w, 'v, 'd) gateway \<Rightarrow> (uuid \<times> string) set" where
  "jobs_of g = (case gw_cronStore g of None \<Rightarrow> {} | Some rows \<Rightarrow> (\<lambda>r. (cj_ID (row_job r), cj_UserID (row_job r))) ` set rows)"

definition rules_of :: "('w, 'v, 'd) gateway \<Rightarrow> (uuid \<times> string) set" where
  "rules_of g = (case gw_alertStore g of None \<Rightarrow> {} | Some rows \<Rightarrow> (\<lambda>r. (ar_ID (alr_rule r), AlertRule.ar_UserID (alr_rule r))) ` set rows)"

definition keys_ok :: "('w, 'v, 'd) gateway \<Rightarrow> bool" where
  "keys_ok g \<longleftrightarrow>
     (\<forall>rows. gw_cronStore g = Some rows \<longrightarrow> distinct (map (cj_ID \<circ> row_job) rows)) \<and>
     (\<forall>rows. gw_alertStore g = Some rows \<longrightarrow> distinct (map (ar_ID \<circ> alr_rule) rows))"

text \<open>A step in the name of \<open>u\<close>: it adds entries of \<open>u\<close> only and changes the owner of none.\<close>

definition acts_for :: "string \<Rightarrow> ('w, 'v, 'd) gateway \<Rightarrow> ('w, 'v, 'd) gateway \<Rightarrow> bool" where
  "acts_for u g g' \<longleftrightarrow> keys_ok g' \<and>
     (\<forall>i v. (i, v) \<in> flows_of g' \<longrightarrow> (i, v) \<in> flows_of g \<or> v = u) \<and>
     (\<forall>i v. (i, v) \<in> jobs_of g' \<longrightarrow> (i, v) \<in> jobs_of g \<or> v = u \<and> i \<notin> fst ` jobs_of g) \<and>
     (\<forall>i v. (i, v) \<in> rules_of g' \<longrightarrow> (i, v) \<in> rules_of g \<or> v = u \<and> i \<notin> fst ` rules_of g) \<and>
     fst ` jobs_of g \<subseteq> fst ` jobs_of g' \<and> fst ` rules_of g \<subseteq> fst ` rules_of g'"

lemma acts_same:
  "keys_ok g \<Longrightarrow> gw_wfEngine g' = gw_wfEngine g \<Longrightarrow> gw_cronStore g' = gw_cronStore g \<Longrightarrow> gw_alertStore g' = gw_alertStore g \<Longrightarrow> acts_for u g g'"
  by (auto simp: acts_for_def keys_ok_def flows_of_def jobs_of_def rules_of_def)

lemma acts_frame [simp]:
  "acts_for u (g\<lparr>gw_limiter := l\<rparr>) g' = acts_for u g g'" "keys_ok (g\<lparr>gw_limiter := l\<rparr>) = keys_ok g"
  by (simp_all add: acts_for_def keys_ok_def flows_of_def jobs_of_def rules_of_def)

lemma acts_refl: "keys_ok g \<Longrightarrow> acts_for u g g"
  by (rule acts_same) auto

lemma limited_acts:
  assumes "keys_ok g" "\<And>l. acts_for u g (snd (body (g\<lparr>gw_limiter := l\<rparr>)))"
  shows "acts_for u g (snd (limited now g v body))"
proof (cases "gw_limiter g")
  case None
  then have "g\<lparr>gw_limiter := None\<rparr> = g" by simp
  with assms(2)[of None] None show ?thesis by (simp add: limited_def)
next
  case (Some l)
  with assms show ?thesis by (auto simp: limited_def split: prod.split option.split intro: acts_same)
qed

lemma submit_acts:
  assumes "keys_ok g" "gw_wfEngine g = Some eng" "wr_UserID req = u"
  shows "acts_for u g (snd (submit he orc g eng req))"
proof -
  obtain res eng' where s: "Submit orc (he_engine he) eng req = (res, eng')" by fastforce
  let ?j = "\<lparr>cj_ID = 0, cj_OrgID = wr_OrgID req, cj_Name = [], cj_Description = [], cj_CronExpression = [], cj_Goal = wr_Goal req,
      cj_UserID = wr_UserID req, cj_BudgetLimitUSD = wr_BudgetLimitUSD req, cj_MaxDepth = wr_MaxDepth req, cj_MaxTasks = wr_MaxTasks req,
      cj_Enabled = True, cj_NextRunAt = None, cj_LastRunAt = None, cj_LastWorkflowID = None, cj_LastError = [], cj_CreatedAt = 0, cj_UpdatedAt = 0\<rparr>"
  have "job_request ?j (wr_CorrelationID req) = req" by (simp add: job_request_def)
  then have "wf_map (sc_store eng) i = Some w \<or> wf_UserID w = u" if "wf_map (sc_store eng') i = Some w" for i w
    using Submit_flows[of orc "he_engine he" eng ?j "wr_CorrelationID req" res eng' i w] s that assms(3) by (auto simp: requested_def)
  then show ?thesis
    using s assms(1,2) by (fastforce simp: submit_def acts_for_def keys_ok_def flows_of_def jobs_of_def rules_of_def split: sum.split)
qed

abbreviation job_owner :: "cron_row \<Rightarrow> uuid \<times> string" where
  "job_owner r \<equiv> (cj_ID (row_job r), cj_UserID (row_job r))"

abbreviation rule_owner :: "alert_row \<Rightarrow> uuid \<times> string" where
  "rule_owner r \<equiv> (ar_ID (alr_rule r), AlertRule.ar_UserID (alr_rule r))"

lemma jobs_acts:
  assumes "keys_ok g" "gw_cronStore g = Some rows" "distinct (map (cj_ID \<circ> row_job) rows')"
    and "\<And>r'. r' \<in> set rows' \<Longrightarrow> (\<exists>r \<in> set rows. job_owner r = job_owner r') \<or> cj_UserID (row_job r') = u \<and> cj_ID (row_job r') \<notin> (\<lambda>r. cj_ID (row_job r)) ` set rows"
    and "(cj_ID \<circ> row_job) ` set rows \<subseteq> (cj_ID \<circ> row_job) ` set rows'"
  shows "acts_for u g (g\<lparr>gw_limiter := l, gw_cronStore := Some rows'\<rparr>)"
proof -
  let ?g = "g\<lparr>gw_limiter := l, gw_cronStore := Some rows'\<rparr>"
  have "keys_ok ?g" using assms(1,3) by (simp add: keys_ok_def)
  moreover have "flows_of ?g = flows_of g" "rules_of ?g = rules_of g" by (simp_all add: flows_of_def rules_of_def)
  moreover have j: "jobs_of ?g = job_owner ` set rows'" "jobs_of g = job_owner ` set rows" using assms(2) by (simp_all add: jobs_of_def)
  moreover have "(i, v) \<in> jobs_of g \<or> v = u \<and> i \<notin> fst ` jobs_of g" if iv: "(i, v) \<in> jobs_of ?g" for i v
  proof -
    obtain r' where r': "r' \<in> set rows'" "job_owner r' = (i, v)" using iv unfolding j by blast
    show ?thesis
    proof (cases "\<exists>r \<in> set rows. job_owner r = job_owner r'")
      case True
      then obtain r where r: "r \<in> set rows" "job_owner r = (i, v)" unfolding r'(2) by (rule bexE)
      from r(1) have "job_owner r \<in> job_owner ` set rows" by (rule imageI)
      then have "(i, v) \<in> job_owner ` set rows" unfolding r(2) .
      then show ?thesis unfolding j by (rule disjI1)
    next
      case False
      then show ?thesis using assms(4)[OF r'(1)] r'(2) unfolding j by (simp add: image_image) blast
    qed
  qed
  moreover have "fst ` jobs_of g \<subseteq> fst ` jobs_of ?g" using assms(5) unfolding j by (simp add: image_image comp_def)
  ultimately show ?thesis unfolding acts_for_def by simp
qed

lemma rules_acts:
  assumes "keys_ok g" "gw_alertStore g = Some rows" "distinct (map (ar_ID \<circ> alr_rule) rows')"
    and "\<And>r'. r' \<in> set rows' \<Longrightarrow> (\<exists>r \<in> set rows. rule_owner r = rule_owner r') \<or> AlertRule.ar_UserID (alr_rule r') = u \<and> ar_ID (alr_rule r') \<notin> (\<lambda>r. ar_ID (alr_rule r)) ` set rows"
    and "(ar_ID \<circ> alr_rule) ` set rows \<subseteq> (ar_ID \<circ> alr_rule) ` set rows'"
  shows "acts_for u g (g\<lparr>gw_limiter := l, gw_alertStore := Some rows'\<rparr>)"
proof -
  let ?g = "g\<lparr>gw_limiter := l, gw_alertStore := Some rows'\<rparr>"
  have "keys_ok ?g" using assms(1,3) by (simp add: keys_ok_def)
  moreover have "flows_of ?g = flows_of g" "jobs_of ?g = jobs_of g" by (simp_all add: flows_of_def jobs_of_def)
  moreover have j: "rules_of ?g = rule_owner ` set rows'" "rules_of g = rule_owner ` set rows" using assms(2) by (simp_all add: rules_of_def)
  moreover have "(i, v) \<in> rules_of g \<or> v = u \<and> i \<notin> fst ` rules_of g" if iv: "(i, v) \<in> rules_of ?g" for i v
  proof -
    obtain r' where r': "r' \<in> set rows'" "rule_owner r' = (i, v)" using iv unfolding j by blast
    show ?thesis
    proof (cases "\<exists>r \<in> set rows. rule_owner r = rule_owner r'")
      case True
      then obtain r where r: "r \<in> set rows" "rule_owner r = (i, v)" unfolding r'(2) by (rule bexE)
      from r(1) have "rule_owner r \<in> rule_owner ` set rows" by (rule imageI)
      then have "(i, v) \<in> rule_owner ` set rows" unfolding r(2) .
      then show ?thesis unfolding j by (rule disjI1)
    next
      case False
      then show ?thesis using assms(4)[OF r'(1)] r'(2) unfolding j by (simp add: image_image) blast
    qed
  qed
  moreover have "fst ` rules_of g \<subseteq> fst ` rules_of ?g" using assms(5) unfolding j by (simp add: image_image comp_def)
  ultimately show ?thesis unfolding acts_for_def by simp
qed

lemma found_row: "find P xs = Some x \<Longrightarrow> x \<in> set xs"
  by (auto simp: find_Some_iff)

lemma keys_ok_rows:
  "keys_ok g \<Longrightarrow> gw_cronStore g = Some rows \<Longrightarrow> distinct (map (cj_ID \<circ> row_job) rows)"
  "keys_ok g \<Longrightarrow> gw_alertStore g = Some rules \<Longrightarrow> distinct (map (ar_ID \<circ> alr_rule) rules)"
  by (simp_all add: keys_ok_def)

lemma cron_create_acts:
  assumes "keys_ok g" "gw_cronStore g = Some rows" "Cron_Create rows cj = (e, rows')" "cj_UserID cj = u"
  shows "acts_for u g (g\<lparr>gw_limiter := l, gw_cronStore := Some rows'\<rparr>)"
  using assms(3,4) keys_ok_rows(1)[OF assms(1,2)]
  by (intro jobs_acts[OF assms(1,2)]) (auto simp: Cron_Create_def cron_defaults_def image_image split: if_splits)

lemma rule_create_acts:
  assumes "keys_ok g" "gw_alertStore g = Some rows" "Rule_Create rows a = (e, rows')" "AlertRule.ar_UserID a = u"
  shows "acts_for u g (g\<lparr>gw_limiter := l, gw_alertStore := Some rows'\<rparr>)"
  using assms(3,4) keys_ok_rows(2)[OF assms(1,2)]
  by (intro rules_acts[OF assms(1,2)]) (auto simp: Rule_Create_def alert_defaults_def image_image split: if_splits)

lemma cron_update_acts:
  assumes "keys_ok g" "gw_cronStore g = Some rows" "Cron_Get rows org i = Inr cj0" "cj_ID cj = cj_ID cj0" "cj_UserID cj = cj_UserID cj0"
  shows "acts_for u g (g\<lparr>gw_limiter := l, gw_cronStore := Some (Cron_Update now rows cj)\<rparr>)"
proof -
  obtain r where r: "r \<in> set rows" "row_job r = cj0" using assms(3) unfolding Cron_Get_def by (auto dest!: found_row split: option.splits)
  then have "cj_ID cj \<in> (\<lambda>r. cj_ID (row_job r)) ` set rows" using assms(4) by auto
  then have upd: "Cron_Update now rows cj = map (\<lambda>r. if cj_ID (row_job r) = cj_ID cj then \<lparr>row_job = cj\<lparr>cj_UpdatedAt := now\<rparr>, row_deleted = False\<rparr> else r) rows"
    by (simp add: Cron_Update_def)
  then have ids: "map (cj_ID \<circ> row_job) (Cron_Update now rows cj) = map (cj_ID \<circ> row_job) rows" by simp
  have "\<exists>r \<in> set rows. job_owner r = job_owner x" if "x \<in> set (Cron_Update now rows cj)" for x
  proof -
    have "x \<in> set rows \<or> x = \<lparr>row_job = cj\<lparr>cj_UpdatedAt := now\<rparr>, row_deleted = False\<rparr>" using that by (auto simp: upd split: if_splits)
    then have "x \<in> set rows \<or> job_owner x = job_owner r" using r assms(4,5) by auto
    with r(1) show ?thesis by metis
  qed
  then show ?thesis using keys_ok_rows(1)[OF assms(1,2)] ids by (intro jobs_acts[OF assms(1,2)]) (auto dest: arg_cong[of _ _ set])
qed

lemma rule_update_acts:
  assumes "keys_ok g" "gw_alertStore g = Some rows" "Rule_Get rows org i = Inr a0" "ar_ID a = ar_ID a0" "AlertRule.ar_UserID a = AlertRule.ar_UserID a0"
  shows "acts_for u g (g\<lparr>gw_limiter := l, gw_alertStore := Some (Rule_Update now rows a)\<rparr>)"
proof -
  obtain r where r: "r \<in> set rows" "alr_rule r = a0" using assms(3) unfolding Rule_Get_def by (auto dest!: found_row split: option.splits)
  then have "ar_ID a \<in> (\<lambda>r. ar_ID (alr_rule r)) ` set rows" using assms(4) by auto
  then have upd: "Rule_Update now rows a = map (\<lambda>r. if ar_ID (alr_rule r) = ar_ID a then \<lparr>alr_rule = a\<lparr>ar_UpdatedAt := now\<rparr>, alr_deleted = False\<rparr> else r) rows"
    by (simp add: Rule_Update_def)
  then have ids: "map (ar_ID \<circ> alr_rule) (Rule_Update now rows a) = map (ar_ID \<circ> alr_rule) rows" by simp
  have "\<exists>r \<in> set rows. rule_owner r = rule_owner x" if "x \<in> set (Rule_Update now rows a)" for x
  proof -
    have "x \<in> set rows \<or> x = \<lparr>alr_rule = a\<lparr>ar_UpdatedAt := now\<rparr>, alr_deleted = False\<rparr>" using that by (auto simp: upd split: if_splits)
    then have "x \<in> set rows \<or> rule_owner x = rule_owner r" using r assms(4,5) by auto
    with r(1) show ?thesis by metis
  qed
  then show ?thesis using keys_ok_rows(2)[OF assms(1,2)] ids by (intro rules_acts[OF assms(1,2)]) (auto dest: arg_cong[of _ _ set])
qed

lemma cron_delete_acts:
  assumes "keys_ok g" "gw_cronStore g = Some rows" "Cron_Delete rows org i = (e, rows')"
  shows "acts_for u g (g\<lparr>gw_limiter := l, gw_cronStore := Some rows'\<rparr>)"
proof -
  have m: "map row_job rows' = map row_job rows" using assms(3) by (auto simp: Cron_Delete_def split: if_splits)
  then have ids: "map cj_ID (map row_job rows') = map cj_ID (map row_job rows)" by simp
  then have "set (map cj_ID (map row_job rows')) = set (map cj_ID (map row_job rows))" by (rule arg_cong)
  then have "(cj_ID \<circ> row_job) ` set rows \<subseteq> (cj_ID \<circ> row_job) ` set rows'" by (simp add: image_comp)
  moreover note ids
  moreover have "\<exists>r \<in> set rows. job_owner r = job_owner r'" if "r' \<in> set rows'" for r'
  proof -
    have "row_job r' \<in> set (map row_job rows')" using that by simp
    then have "row_job r' \<in> set (map row_job rows)" unfolding m .
    then obtain r where "r \<in> set rows" "row_job r' = row_job r" by auto
    then show ?thesis by (intro bexI[of _ r]) simp_all
  qed
  ultimately show ?thesis using keys_ok_rows(1)[OF assms(1,2)] by (intro jobs_acts[OF assms(1,2)]) (auto simp: image_image comp_def)
qed

lemma rule_delete_acts:
  assumes "keys_ok g" "gw_alertStore g = Some rows" "Rule_Delete rows org i = (e, rows')"
  shows "acts_for u g (g\<lparr>gw_limiter := l, gw_alertStore := Some rows'\<rparr>)"
proof -
  have m: "map alr_rule rows' = map alr_rule rows" using assms(3) by (auto simp: Rule_Delete_def split: if_splits)
  then have ids: "map ar_ID (map alr_rule rows') = map ar_ID (map alr_rule rows)" by simp
  then have "set (map ar_ID (map alr_rule rows')) = set (map ar_ID (map alr_rule rows))" by (rule arg_cong)
  then have "(ar_ID \<circ> alr_rule) ` set rows \<subseteq> (ar_ID \<circ> alr_rule) ` set rows'" by (simp add: image_comp)
  moreover note ids
  moreover have "\<exists>r \<in> set rows. rule_owner r = rule_owner r'" if "r' \<in> set rows'" for r'
  proof -
    have "alr_rule r' \<in> set (map alr_rule rows')" using that by simp
    then have "alr_rule r' \<in> set (map alr_rule rows)" unfolding m .
    then obtain r where "r \<in> set rows" "alr_rule r' = alr_rule r" by auto
    then show ?thesis by (intro bexI[of _ r]) simp_all
  qed
  ultimately show ?thesis using keys_ok_rows(2)[OF assms(1,2)] by (intro rules_acts[OF assms(1,2)]) (auto simp: image_image comp_def)
qed

text \<open>Every handler acts for its user.\<close>

lemmas handler_defs = handleQuery_def handleQueryStream_def handleApprove_def handleHealth_def handleWorkflowStatus_def handleWorkflowCancel_def
  handleWorkflowTasks_def handleCronJobList_def handleCronJobGet_def handleAlertList_def handleAlertGet_def handleAlertHistory_def
  handleChannelCreate_def handleChannelList_def handleChannelGet_def handleChannelUpdate_def handleChannelDelete_def handleChannelTest_def
  set_channels_def with_id_def

lemma acts_other [simp]:
  assumes "keys_ok g"
  shows "acts_for u g g" "acts_for u g (g\<lparr>gw_limiter := l\<rparr>)" "acts_for u g (g\<lparr>gw_limiter := l, gw_agent := orc\<rparr>)"
    "acts_for u g (g\<lparr>gw_dispatcher := d\<rparr>)" "acts_for u g (g\<lparr>gw_cancelled := c\<rparr>)"
  using assms by (auto intro: acts_same)

lemma query_acts:
  assumes "keys_ok g"
  shows "acts_for u g (snd (query_routes he g v q))"
proof (cases q)
  case (Query body)
  then show ?thesis using assms
    by (auto simp: handleQuery_def Let_def intro!: limited_acts split: option.split prod.split sum.split)
next
  case (QueryStream body)
  then show ?thesis using assms
    by (auto simp: handleQueryStream_def Let_def intro!: limited_acts split: option.split prod.split sum.split)
next
  case (ApproveCall body)
  then show ?thesis using assms
    by (auto simp: handleApprove_def Let_def intro!: limited_acts split: option.split prod.split sum.split)
qed (use assms in \<open>simp add: handleHealth_def\<close>)

lemma channel_acts:
  assumes "keys_ok g"
  shows "acts_for u g (snd (channel_routes he g d v q))"
proof (cases q)
  case (ChannelCreate body)
  then show ?thesis using assms by (simp add: handleChannelCreate_def set_channels_def Let_def split: option.split prod.split)
next
  case (ChannelUpdate i body)
  then show ?thesis using assms by (simp add: handleChannelUpdate_def with_id_def set_channels_def Let_def split: option.split prod.split sum.split)
next
  case (ChannelTest i)
  then show ?thesis using assms by (auto simp: handleChannelTest_def with_id_def Let_def split: option.split prod.split)
qed (use assms in \<open>simp_all add: handler_defs split: option.split prod.split sum.split\<close>)

lemma workflow_acts:
  assumes "keys_ok g" "gw_wfEngine g = Some eng"
  shows "acts_for u g (snd (workflow_routes he orc g eng u q))"
proof (cases q)
  case (WorkflowSubmit body)
  have "acts_for u g (snd (submit he orc (g\<lparr>gw_limiter := l\<rparr>) eng req))" if "wr_UserID req = u" for l req
    using submit_acts[of "g\<lparr>gw_limiter := l\<rparr>" eng req u he orc] assms that by simp
  then show ?thesis using WorkflowSubmit assms
    by (auto simp: handleWorkflowSubmit_def intro!: limited_acts split: option.split)
qed (use assms in \<open>simp_all add: handler_defs split: option.split prod.split sum.split\<close>)

lemma update_job_owner [simp]: "cj_ID (update_job req cj) = cj_ID cj" "cj_UserID (update_job req cj) = cj_UserID cj"
  by (simp_all add: update_job_def)

lemma update_rule_owner [simp]: "ar_ID (update_rule req ids r) = ar_ID r" "AlertRule.ar_UserID (update_rule req ids r) = AlertRule.ar_UserID r"
  by (simp_all add: update_rule_def)

lemma keep_limiter: "g\<lparr>gw_limiter := gw_limiter g\<rparr> = g"
  by simp

lemma cron_acts:
  assumes "keys_ok g" "gw_cronStore g = Some rows"
  shows "acts_for u g (snd (cron_routes he orc g rows u q))"
proof (cases q)
  case (CronJobCreate body)
  then show ?thesis using assms
    by (auto simp: handleCronJobCreate_def Let_def intro!: limited_acts cron_create_acts split: option.split prod.split sum.split)
next
  case (CronJobUpdate i body)
  have upd: "acts_for u g (g\<lparr>gw_cronStore := Some (Cron_Update now rows cj)\<rparr>)"
    if "Cron_Get rows org k = Inr cj0" "cj_ID cj = cj_ID cj0" "cj_UserID cj = cj_UserID cj0" for now org k cj cj0
    using cron_update_acts[OF assms that, where l = "gw_limiter g"] by (simp add: keep_limiter)
  show ?thesis using CronJobUpdate assms
    by (auto simp: handleCronJobUpdate_def with_id_def Let_def ComputeNextRunFrom_def intro!: upd split: option.split sum.split)
next
  case (CronJobDelete i)
  have "acts_for u g (g\<lparr>gw_cronStore := Some rows'\<rparr>)" if "Cron_Delete rows org k = (e, rows')" for org k e rows'
    using cron_delete_acts[OF assms that, where l = "gw_limiter g"] by (simp add: keep_limiter)
  then show ?thesis using CronJobDelete assms
    by (auto simp: handleCronJobDelete_def with_id_def split: option.split prod.split)
next
  case (CronJobTrigger i)
  then show ?thesis using assms
    by (auto simp: handleCronJobTrigger_def with_id_def intro!: submit_acts split: option.split sum.split)
qed (use assms in \<open>simp_all add: handler_defs split: option.split sum.split\<close>)

lemma alert_acts:
  assumes "keys_ok g" "gw_alertStore g = Some rows"
  shows "acts_for u g (snd (alert_routes he g rows chs u q))"
proof (cases q)
  case (AlertCreate body)
  then show ?thesis using assms
    by (auto simp: handleAlertCreate_def Let_def intro!: limited_acts rule_create_acts split: option.split prod.split sum.split)
next
  case (AlertUpdate i body)
  have upd: "acts_for u g (g\<lparr>gw_alertStore := Some (Rule_Update now rows a)\<rparr>)"
    if "Rule_Get rows org k = Inr a0" "ar_ID a = ar_ID a0" "AlertRule.ar_UserID a = AlertRule.ar_UserID a0" for now org k a a0
    using rule_update_acts[OF assms that, where l = "gw_limiter g"] by (simp add: keep_limiter)
  show ?thesis using AlertUpdate assms
    by (auto simp: handleAlertUpdate_def with_id_def Let_def ComputeNextRunFrom_def intro!: upd split: option.split sum.split)
next
  case (AlertDelete i)
  have "acts_for u g (g\<lparr>gw_alertStore := Some rows'\<rparr>)" if "Rule_Delete rows org k = (e, rows')" for org k e rows'
    using rule_delete_acts[OF assms that, where l = "gw_limiter g"] by (simp add: keep_limiter)
  then show ?thesis using AlertDelete assms
    by (auto simp: handleAlertDelete_def with_id_def split: option.split prod.split)
qed (use assms in \<open>simp_all add: handler_defs split: option.split sum.split\<close>)

lemma serve_acts:
  assumes "keys_ok g"
  shows "snd (serve he orc g h call) = g \<or> (\<exists>u. authenticate (he_APIKeys he) h = Inr u \<and> acts_for u g (snd (serve he orc g h call)))"
proof (cases "authenticate (he_APIKeys he) h")
  case (Inl r)
  then show ?thesis by (simp add: serve_def)
next
  case (Inr u)
  then have "acts_for u g (snd (serve he orc g h call))"
    using assms query_acts[OF assms, of u he u] channel_acts[OF assms, of u he _ u] workflow_acts[OF assms] cron_acts[OF assms] alert_acts[OF assms]
    by (auto simp: serve_def split: api_call.split option.split)
  with Inr show ?thesis by blast
qed

text \<open>A run of the API: calls with their environments, one after the other.\<close>

fun serve_all :: "('w http_env \<times> 'v outside \<times> string \<times> api_call) list \<Rightarrow> ('w, 'v, 'd) gateway \<Rightarrow> ('w, 'v, 'd) gateway" where
  "serve_all [] g = g"
| "serve_all ((he, orc, h, call) # calls) g = serve_all calls (snd (serve he orc g h call))"

definition callers :: "('w http_env \<times> 'v outside \<times> string \<times> api_call) list \<Rightarrow> string set" where
  "callers calls = {u. \<exists>he orc h call. (he, orc, h, call) \<in> set calls \<and> authenticate (he_APIKeys he) h = Inr u}"

lemma owner_chain:
  assumes "\<forall>i v. (i, v) \<in> B \<longrightarrow> (i, v) \<in> A \<or> v = u \<and> i \<notin> fst ` A" "fst ` A \<subseteq> fst ` B"
    and "\<forall>i v. (i, v) \<in> C \<longrightarrow> (i, v) \<in> B \<or> v \<in> U \<and> i \<notin> fst ` B" "u \<in> V" "U \<subseteq> V"
  shows "\<forall>i v. (i, v) \<in> C \<longrightarrow> (i, v) \<in> A \<or> v \<in> V \<and> i \<notin> fst ` A"
proof (intro allI impI)
  fix i v assume "(i, v) \<in> C"
  then consider "(i, v) \<in> B" | "v \<in> U" "i \<notin> fst ` B" using assms(3) by blast
  then show "(i, v) \<in> A \<or> v \<in> V \<and> i \<notin> fst ` A"
  proof cases
    case 1
    with assms(1,4) show ?thesis by metis
  next
    case 2
    with assms(2,5) show ?thesis by blast
  qed
qed

lemma serve_all_owners:
  "keys_ok g \<Longrightarrow> keys_ok (serve_all calls g) \<and>
    (\<forall>i v. (i, v) \<in> flows_of (serve_all calls g) \<longrightarrow> (i, v) \<in> flows_of g \<or> v \<in> callers calls) \<and>
    (\<forall>i v. (i, v) \<in> jobs_of (serve_all calls g) \<longrightarrow> (i, v) \<in> jobs_of g \<or> v \<in> callers calls \<and> i \<notin> fst ` jobs_of g) \<and>
    (\<forall>i v. (i, v) \<in> rules_of (serve_all calls g) \<longrightarrow> (i, v) \<in> rules_of g \<or> v \<in> callers calls \<and> i \<notin> fst ` rules_of g)"
proof (induction calls arbitrary: g)
  case (Cons c calls)
  obtain he orc h call where c: "c = (he, orc, h, call)" by (metis prod_cases4)
  let ?g = "snd (serve he orc g h call)"
  have sub: "callers calls \<subseteq> callers (c # calls)" by (auto simp: callers_def)
  from serve_acts[OF Cons.prems, of he orc h call] show ?case
  proof
    assume "?g = g"
    then show ?thesis using Cons.IH[OF Cons.prems] sub unfolding c by (simp only: serve_all.simps) blast
  next
    assume "\<exists>u. authenticate (he_APIKeys he) h = Inr u \<and> acts_for u g ?g"
    then obtain u where u: "authenticate (he_APIKeys he) h = Inr u" "acts_for u g ?g" by blast
    have caller: "u \<in> callers (c # calls)" using u(1) by (auto simp: callers_def c)
    have ok: "keys_ok ?g" using u(2) by (simp add: acts_for_def)
    note ih = Cons.IH[OF ok] and act = u(2)[unfolded acts_for_def]
    have "\<forall>i v. (i, v) \<in> flows_of (serve_all calls ?g) \<longrightarrow> (i, v) \<in> flows_of g \<or> v \<in> callers (c # calls)"
    proof (intro allI impI)
      fix i v assume "(i, v) \<in> flows_of (serve_all calls ?g)"
      then have "(i, v) \<in> flows_of ?g \<or> v \<in> callers calls" using conjunct1[OF conjunct2[OF ih]] by blast
      then have "(i, v) \<in> flows_of g \<or> v = u \<or> v \<in> callers calls" using conjunct1[OF conjunct2[OF act]] by blast
      then show "(i, v) \<in> flows_of g \<or> v \<in> callers (c # calls)" using caller sub by blast
    qed
    moreover have "\<forall>i v. (i, v) \<in> jobs_of (serve_all calls ?g) \<longrightarrow> (i, v) \<in> jobs_of g \<or> v \<in> callers (c # calls) \<and> i \<notin> fst ` jobs_of g"
      using ih act by (intro owner_chain[OF _ _ _ caller sub, of "jobs_of ?g"]) simp_all
    moreover have "\<forall>i v. (i, v) \<in> rules_of (serve_all calls ?g) \<longrightarrow> (i, v) \<in> rules_of g \<or> v \<in> callers (c # calls) \<and> i \<notin> fst ` rules_of g"
      using ih act by (intro owner_chain[OF _ _ _ caller sub, of "rules_of ?g"]) simp_all
    ultimately show ?thesis using ih by (simp add: c)
  qed
qed simp


section \<open>Approvals\<close>

lemma updateApprovalToolResult_mgr [simp]: "o_approvalMgr (updateApprovalToolResult env orc pa c e) = o_approvalMgr orc"
  by (simp add: updateApprovalToolResult_def split: option.split)

lemma resume_keeps_mgr:
  assumes "ResumeWithApproval env orc aid = (r, orc')" "o_approvalMgr orc = Some am" "mgr_pending am aid = Some pa" "pa_Status pa = StatusApproved"
  shows "o_approvalMgr orc' = Some am"
proof -
  have "resume_approved env (noted env orc pa) pa = (r, orc')" using assms ResumeWithApproval_approved[OF assms(2-4)] by simp
  moreover have "o_approvalMgr (noted env orc pa) = Some am" using assms(2) by simp
  ultimately show ?thesis
    by (auto simp: resume_approved_def split: option.splits prod.splits sum.splits dest!: executeWithAudit_frame executeTool_frame)
qed

lemma Approve_None:
  assumes "Approve mgr now aid u = (None, mgr')"
  shows "\<exists>pa. mgr_pending mgr aid = Some pa \<and> pa_Status pa = StatusPending \<and> now \<le> pa_ExpiresAt pa \<and>
    mgr_pending mgr' aid = Some (pa\<lparr>pa_Status := StatusApproved, pa_ApprovedBy := u, pa_ResolvedAt := Some now\<rparr>)"
  using assms by (auto simp: Approve_def resolve_def split: option.splits if_splits)

text \<open>
  The approval endpoint executes a tool only on a decision of the caller: if the call changes the world, the caller has a key and
  said approve, the request was pending and not expired, and it is now recorded as approved by the caller, so that no further call can
  approve it again.
\<close>

theorem http_approval_by_caller:
  assumes "serve he orc g h (QueryRoute (ApproveCall (Some req))) = (r, g')" "o_world (gw_agent g') \<noteq> o_world (gw_agent g)"
  shows "\<exists>u mgr pa mgr' pa'. authenticate (he_APIKeys he) h = Inr u \<and> aq_Decision req = ''approve'' \<and> o_approvalMgr (gw_agent g) = Some mgr \<and>
    mgr_pending mgr (aq_ApprovalID req) = Some pa \<and> pa_Status pa = StatusPending \<and> he_now he 1 \<le> pa_ExpiresAt pa \<and>
    o_approvalMgr (gw_agent g') = Some mgr' \<and> mgr_pending mgr' (aq_ApprovalID req) = Some pa' \<and> pa_Status pa' = StatusApproved \<and> pa_ApprovedBy pa' = u"
proof -
  obtain u where u: "authenticate (he_APIKeys he) h = Inr u" "handleApprove he g u (Some req) = (r, g')"
    using assms by (auto simp: serve_def split: sum.splits)
  obtain mgr mgr' x where m: "o_approvalMgr (gw_agent g) = Some mgr" "aq_Decision req = ''approve''"
      "Approve mgr (he_now he 1) (aq_ApprovalID req) u = (None, mgr')"
      "ResumeWithApproval (he_env he) ((gw_agent g)\<lparr>o_approvalMgr := Some mgr'\<rparr>) (aq_ApprovalID req) = (x, gw_agent g')"
    using u(2) assms(2) by (auto simp: handleApprove_def limited_def split: option.splits prod.splits sum.splits if_splits)
  from Approve_None[OF m(3)] obtain pa where pa: "mgr_pending mgr (aq_ApprovalID req) = Some pa" "pa_Status pa = StatusPending"
      "he_now he 1 \<le> pa_ExpiresAt pa"
      "mgr_pending mgr' (aq_ApprovalID req) = Some (pa\<lparr>pa_Status := StatusApproved, pa_ApprovedBy := u, pa_ResolvedAt := Some (he_now he 1)\<rparr>)" by blast
  have "o_approvalMgr (gw_agent g') = Some mgr'" using resume_keeps_mgr[OF m(4) _ pa(4)] by simp
  with u(1) m(1,2) pa show ?thesis by auto
qed

section \<open>Rate limit\<close>

text \<open>The calls that the limiter guards.\<close>

fun guarded :: "api_call \<Rightarrow> bool" where
  "guarded (QueryRoute (Query _)) = True"
| "guarded (QueryRoute (QueryStream _)) = True"
| "guarded (QueryRoute (ApproveCall _)) = True"
| "guarded (WorkflowRoute (WorkflowSubmit _)) = True"
| "guarded (CronRoute (CronJobCreate _)) = True"
| "guarded (AlertRoute (AlertCreate _)) = True"
| "guarded _ = False"

text \<open>
  A rate-limited user gets nothing done through the guarded calls: when the limiter refuses the caller, the response is 429, or there is no
  such route, and nothing but the limiter's bucket changes.
\<close>

theorem refused_call_changes_nothing:
  assumes "authenticate (he_APIKeys he) h = Inr u" "gw_limiter g = Some l" "Allow l (he_now he 0) u = (Some e, l')" "guarded call"
  shows "serve he orc g h call = (Unrouted, g) \<or> serve he orc g h call = (Abort 429 ''rate limit exceeded'', g\<lparr>gw_limiter := Some l'\<rparr>)"
proof -
  have "u \<noteq> []" using authenticate_key[OF assms(1)] by blast
  moreover have "limited (he_now he 0) g u body = (Abort 429 ''rate limit exceeded'', g\<lparr>gw_limiter := Some l'\<rparr>)" for body
    using assms(2,3) by (simp add: limited_def)
  ultimately show ?thesis using assms(1,4)
    by (cases call rule: guarded.cases)
      (auto simp: serve_def handleQuery_def handleQueryStream_def handleApprove_def handleWorkflowSubmit_def handleCronJobCreate_def handleAlertCreate_def
        split: option.split)
qed

section \<open>Behaviours that contradict the comments\<close>

text \<open>A query never answers that an approval is pending (202), although the documentation of the route promises it: the agent reports
  approvals in its response, which the handler does not look at.\<close>

theorem query_never_reports_approval: "fst (handleQuery he g u body) \<noteq> JSON 202 x"
  by (auto simp: handleQuery_def limited_def OK_def Let_def split: option.splits prod.splits sum.splits)

text \<open>Whoever asked for an action can approve it himself.\<close>

theorem requester_approves_himself:
  assumes "mgr_pending mgr aid = Some pa" "pa_Status pa = StatusPending" "now \<le> pa_ExpiresAt pa"
  shows "\<exists>mgr'. Approve mgr now aid (pa_UserID pa) = (None, mgr')"
  using assms by (simp add: Approve_def resolve_def)

text \<open>Workflows are open to every user with a key: reading and cancelling does not depend on the caller.\<close>

theorem foreign_workflow_open:
  assumes "u \<noteq> []" "v \<noteq> []"
  shows "handleWorkflowStatus he g eng u p = handleWorkflowStatus he g eng v p"
    "handleWorkflowCancel he g eng u p = handleWorkflowCancel he g eng v p" "handleWorkflowTasks he g eng u p = handleWorkflowTasks he g eng v p"
  using assms by (simp_all add: handleWorkflowStatus_def handleWorkflowCancel_def handleWorkflowTasks_def)

text \<open>Triggering a job starts a workflow without asking the limiter.\<close>

theorem trigger_not_limited: "gw_limiter (snd (handleCronJobTrigger he orc g rows u p)) = gw_limiter g"
  by (simp add: handleCronJobTrigger_def with_id_def submit_def split: option.split sum.split prod.split)

section \<open>Examples\<close>

definition demo_http_env :: "nat http_env" where
  "demo_http_env = \<lparr>he_APIKeys = [(''k1'', ''alice''), (''k2'', ''boss'')], he_now = (\<lambda>n. 5), he_correlationID = ''c'', he_newID = 9, he_convID = 8,
     he_env = PipelineRuns.demo_env 6, he_envs = (\<lambda>i j. PipelineRuns.demo_env 6), he_agent = AgentLoop.demo_agent, he_ustr = (\<lambda>i. ''u''),
     he_parse = (\<lambda>s. if s = ''five'' then Some 5 else None), he_time = (\<lambda>t. ''t''), he_next = (\<lambda>e t. Some (t + 60)), he_cronOrgID = 1,
     he_alertOrgID = 1, he_texts = Notification.demo_texts, he_quote = (\<lambda>s. s), he_notifyText = (\<lambda>e. []), he_sse = False,
     he_engine = \<lparr>ec_DefaultBudgetLimitUSD = 0, ec_DefaultMaxDepth = 0, ec_DefaultMaxTasks = 0, ec_MaxConcurrentTasks = 0,
       ec_ExternalAgents = False, ec_Scorer = None, ec_Recovery = None\<rparr>\<rparr>"

definition demo_cron_job :: CronJob where
  "demo_cron_job = \<lparr>cj_ID = 5, cj_OrgID = 1, cj_Name = ''n'', cj_Description = [], cj_CronExpression = ''e'', cj_Goal = ''g'', cj_UserID = ''bob'',
     cj_BudgetLimitUSD = 1, cj_MaxDepth = 1, cj_MaxTasks = 1, cj_Enabled = True, cj_NextRunAt = None, cj_LastRunAt = None, cj_LastWorkflowID = None,
     cj_LastError = [], cj_CreatedAt = 0, cj_UpdatedAt = 0\<rparr>"

definition demo_pending :: Manager where
  "demo_pending = \<lparr>mgr_pending = [''id'' \<mapsto> demo_approved\<lparr>pa_Status := StatusPending, pa_ApprovedBy := [], pa_ResolvedAt := None\<rparr>], mgr_ttl = 100\<rparr>"

definition demo_gateway :: "(nat, unit, unit) gateway" where
  "demo_gateway = \<lparr>gw_limiter = Some \<lparr>lim_users = [''alice'' \<mapsto> \<lparr>bkt_tokens = 0, bkt_lastFill = 5\<rparr>], lim_rate = 1, lim_burst = 1\<rparr>,
     gw_agent = demo_ready\<lparr>o_approvalMgr := Some demo_pending\<rparr>, gw_wfEngine = None, gw_cancels = [],
     gw_cancelled = {}, gw_cronStore = Some [\<lparr>row_job = demo_cron_job, row_deleted = False\<rparr>], gw_alertStore = None, gw_history = [], gw_dispatcher = None\<rparr>"

lemma demo_keys [simp]:
  "authenticate (he_APIKeys demo_http_env) ''Bearer k1'' = Inr ''alice''" "authenticate (he_APIKeys demo_http_env) ''Bearer k2'' = Inr ''boss''"
  by (simp_all add: authenticate_def demo_http_env_def)

theorem unauthenticated_changes_nothing_witness:
  "\<exists>msg. serve demo_http_env demo_outside demo_gateway ''Bearer k3'' (CronRoute (CronJobDelete ''five'')) = (Abort 401 msg, demo_gateway)"
  by (rule unauthenticated_changes_nothing) (simp add: demo_http_env_def)

text \<open>Alice changes the goal of Bob's job; it remains Bob's.\<close>

definition demo_calls :: "(nat http_env \<times> unit outside \<times> string \<times> api_call) list" where
  "demo_calls = [(demo_http_env, demo_outside, ''Bearer k1'', CronRoute (CronJobUpdate ''five''
     (Some \<lparr>cq_Name = [], cq_Description = [], cq_CronExpression = [], cq_Goal = ''mine'', cq_BudgetLimitUSD = 0, cq_MaxDepth = 0, cq_MaxTasks = 0,
       cq_Enabled = None\<rparr>)))]"


theorem http_approval_by_caller_witness:
  "\<exists>mgr pa. o_approvalMgr (gw_agent (snd (serve demo_http_env demo_outside demo_gateway ''Bearer k2''
       (QueryRoute (ApproveCall (Some \<lparr>aq_ApprovalID = ''id'', aq_Decision = ''approve''\<rparr>)))))) = Some mgr \<and>
     mgr_pending mgr ''id'' = Some pa \<and> pa_ApprovedBy pa = ''boss''"
proof -
  let ?req = "\<lparr>aq_ApprovalID = ''id'', aq_Decision = ''approve''\<rparr>"
  let ?s = "serve demo_http_env demo_outside demo_gateway ''Bearer k2'' (QueryRoute (ApproveCall (Some ?req)))"
  have a: "Approve demo_pending 5 ''id'' ''boss'' = (None, \<lparr>mgr_pending = [''id'' \<mapsto> demo_approved], mgr_ttl = 100\<rparr>)"
    by (simp add: Approve_def resolve_def demo_pending_def demo_approved_def)
  have same: "demo_ready\<lparr>o_approvalMgr := Some \<lparr>mgr_pending = [''id'' \<mapsto> demo_approved], mgr_ttl = 100\<rparr>\<rparr> = demo_ready" using demo_ready_mgr by simp
  have "fst (Allow \<lparr>lim_users = [''alice'' \<mapsto> \<lparr>bkt_tokens = 0, bkt_lastFill = 5\<rparr>], lim_rate = 1, lim_burst = 1\<rparr> 5 ''boss'') = None" by code_simp
  then obtain l where l: "Allow \<lparr>lim_users = [''alice'' \<mapsto> \<lparr>bkt_tokens = 0, bkt_lastFill = 5\<rparr>], lim_rate = 1, lim_burst = 1\<rparr> 5 ''boss'' = (None, l)"
    by (metis prod.collapse)
  have "gw_agent (snd ?s) = snd (ResumeWithApproval (PipelineRuns.demo_env 6) demo_ready ''id'')"
    by (simp add: serve_def handleApprove_def limited_def demo_gateway_def l demo_http_env_def a same authenticate_def split: prod.split sum.split)
  then have "o_world (gw_agent (snd ?s)) \<noteq> o_world (gw_agent demo_gateway)" using demo_resume_world by (simp add: demo_gateway_def)
  from http_approval_by_caller[OF prod.collapse[symmetric] this] show ?thesis by auto
qed

theorem refused_call_changes_nothing_witness:
  "\<exists>l. serve demo_http_env demo_outside demo_gateway ''Bearer k1'' (QueryRoute (Query None)) =
     (Abort 429 ''rate limit exceeded'', demo_gateway\<lparr>gw_limiter := Some l\<rparr>)"
proof -
  let ?l = "\<lparr>lim_users = [''alice'' \<mapsto> \<lparr>bkt_tokens = 0, bkt_lastFill = 5\<rparr>], lim_rate = 1, lim_burst = 1\<rparr> :: Limiter"
  have g: "gw_limiter demo_gateway = Some ?l" "he_now demo_http_env 0 = 5" by (simp_all add: demo_gateway_def demo_http_env_def)
  have "fst (Allow ?l 5 ''alice'') = Some ErrRateLimited" by code_simp
  then obtain l where l: "Allow ?l (he_now demo_http_env 0) ''alice'' = (Some ErrRateLimited, l)" unfolding g(2) by (metis prod.collapse)
  have "serve demo_http_env demo_outside demo_gateway ''Bearer k1'' (QueryRoute (Query None)) \<noteq> (Unrouted, demo_gateway)"
    by (simp add: serve_def handleQuery_def limited_def g l[unfolded g(2)] split: option.split)
  then show ?thesis using refused_call_changes_nothing[OF demo_keys(1) g(1) l, of "QueryRoute (Query None)"] by auto
qed

end
