(* ===== verification/MessageText.thy ===== *)
theory MessageText
  imports Prelude
begin

text \<open>
  Texts for chats: splitting a long message into chunks (\<^verbatim>\<open>splitMessage\<close> of \<^verbatim>\<open>gateway/signal/signal.go\<close> and of
  \<^verbatim>\<open>gateway/telegram/telegram.go\<close>, which also closes and reopens code blocks) and the conversion of Markdown to the HTML of Telegram
  (\<^verbatim>\<open>escapeHTML\<close>, \<^verbatim>\<open>formatInline\<close>, \<^verbatim>\<open>formatLine\<close>, \<^verbatim>\<open>markdownToTelegramHTML\<close>).

  The splitting loops need not end for a bad limit (zero), so they are partial functions into options; that they end for the
  limits used is proved. The functions of the package \<^verbatim>\<open>strings\<close> that the code uses come first; white space is that of ASCII.
\<close>

section \<open>Functions of the package strings\<close>

fun Index :: "string \<Rightarrow> string \<Rightarrow> nat option" where
  "Index [] p = (if p = [] then Some 0 else None)"
| "Index (c # s) p = (if HasPrefix (c # s) p then Some 0 else map_option Suc (Index s p))"

fun LastIndex :: "string \<Rightarrow> string \<Rightarrow> nat option" where
  "LastIndex [] p = (if p = [] then Some 0 else None)"
| "LastIndex (c # s) p =
     (case LastIndex s p of
        Some i \<Rightarrow> Some (Suc i)
      | None \<Rightarrow> if HasPrefix (c # s) p then Some 0 else None)"

definition is_space :: "char \<Rightarrow> bool" where
  "is_space c \<longleftrightarrow> c \<in> {CHR 0x09, CHR 0x0A, CHR 0x0B, CHR 0x0C, CHR 0x0D, CHR 0x20}"

definition TrimSpace :: "string \<Rightarrow> string" where
  "TrimSpace s = rev (dropWhile is_space (rev (dropWhile is_space s)))"

fun split_lines :: "string \<Rightarrow> string \<Rightarrow> string list" where
  "split_lines acc [] = [acc]"
| "split_lines acc (c # s) = (if c = CHR 0x0A then acc # split_lines [] s else split_lines (acc @ [c]) s)"

abbreviation newline :: string where "newline \<equiv> [CHR 0x0A]"

abbreviation fence :: string where "fence \<equiv> [CHR 0x60, CHR 0x60, CHR 0x60]"

lemma Index_Some: "Index s p = Some i \<Longrightarrow> \<exists>u v. s = u @ p @ v \<and> length u = i"
proof (induction s p arbitrary: i rule: Index.induct)
  case (2 c s p)
  show ?case
  proof (cases "HasPrefix (c # s) p")
    case True
    with 2 show ?thesis by (auto simp: HasPrefix_iff)
  next
    case False
    with 2 obtain j where "Index s p = Some j" "i = Suc j" by auto
    with 2(1)[OF False] obtain u v where "s = u @ p @ v" "length u = j" by blast
    with \<open>i = Suc j\<close> show ?thesis by (intro exI[of _ "c # u"] exI[of _ v]) simp
  qed
qed (auto split: if_splits)

lemma Index_None: "Index s p = None \<longleftrightarrow> \<not> Contains s p"
  by (induction s p rule: Index.induct) auto

lemma LastIndex_Some: "LastIndex s p = Some i \<Longrightarrow> \<exists>u v. s = u @ p @ v \<and> length u = i"
proof (induction s p arbitrary: i rule: LastIndex.induct)
  case (2 c s p)
  show ?case
  proof (cases "LastIndex s p")
    case None
    with 2 show ?thesis by (auto simp: HasPrefix_iff split: if_splits)
  next
    case (Some j)
    with 2(1)[OF Some] obtain u v where "s = u @ p @ v" "length u = j" by blast
    with Some 2(2) show ?thesis by (intro exI[of _ "c # u"] exI[of _ v]) auto
  qed
qed (auto split: if_splits)

section \<open>Splitting\<close>

definition after_first :: "nat option \<Rightarrow> nat option" where
  "after_first x = (case x of Some i \<Rightarrow> if i > 0 then Some (i + 1) else None | None \<Rightarrow> None)"

definition split_point :: "nat \<Rightarrow> string \<Rightarrow> nat" where
  "split_point maxLen remaining =
     (let candidate = take maxLen remaining
      in case after_first (LastIndex candidate (newline @ newline)) of
           Some k \<Rightarrow> k
         | None \<Rightarrow>
             (case after_first (LastIndex candidate newline) of
                Some k \<Rightarrow> k
              | None \<Rightarrow> (case after_first (LastIndex candidate '' '') of Some k \<Rightarrow> k | None \<Rightarrow> maxLen)))"

partial_function (option) signal_loop :: "nat \<Rightarrow> string \<Rightarrow> string list \<Rightarrow> string list option" where
  "signal_loop maxLen remaining chunks =
     (if remaining = [] then Some chunks
      else if length remaining \<le> maxLen then Some (chunks @ [remaining])
      else let splitAt = split_point maxLen remaining
           in signal_loop maxLen (drop splitAt remaining) (chunks @ [take splitAt remaining]))"

definition Signal_splitMessage :: "string \<Rightarrow> nat \<Rightarrow> string list option" where
  "Signal_splitMessage s maxLen = (if length s \<le> maxLen then Some [s] else signal_loop maxLen s [])"

function fences :: "bool \<Rightarrow> string \<Rightarrow> nat \<Rightarrow> string \<Rightarrow> nat \<times> string" where
  "fences inCodeBlock codeFenceLang fenceCount s =
     (case Index s fence of
        None \<Rightarrow> (fenceCount, codeFenceLang)
      | Some i \<Rightarrow>
          (let afterFence = drop (i + 3) s; fenceCount = Suc fenceCount;
               codeFenceLang = (if odd fenceCount \<and> \<not> inCodeBlock
                                then TrimSpace (case Index afterFence newline of Some j \<Rightarrow> take j afterFence | None \<Rightarrow> afterFence)
                                else codeFenceLang)
           in fences inCodeBlock codeFenceLang fenceCount afterFence))"
  by pat_completeness auto
termination
  by (relation "measure (\<lambda>(inCodeBlock, lang, n, s). length s)") (auto dest!: Index_Some)

declare fences.simps [simp del]

partial_function (option) telegram_loop :: "nat \<Rightarrow> bool \<Rightarrow> string \<Rightarrow> string \<Rightarrow> string list \<Rightarrow> string list option" where
  "telegram_loop maxLen inCodeBlock codeFenceLang remaining chunks =
     (if remaining = [] then Some chunks
      else if length remaining \<le> maxLen then Some (chunks @ [remaining])
      else let splitAt = split_point maxLen remaining; chunk = take splitAt remaining; remaining = drop splitAt remaining;
               (fenceCount, codeFenceLang) = fences inCodeBlock codeFenceLang 0 chunk;
               inCodeBlock = (if odd fenceCount then \<not> inCodeBlock else inCodeBlock)
           in if inCodeBlock
              then telegram_loop maxLen inCodeBlock codeFenceLang (fence @ codeFenceLang @ newline @ remaining) (chunks @ [chunk @ newline @ fence])
              else telegram_loop maxLen inCodeBlock codeFenceLang remaining (chunks @ [chunk]))"

definition Telegram_splitMessage :: "string \<Rightarrow> nat \<Rightarrow> string list option" where
  "Telegram_splitMessage s maxLen = (if length s \<le> maxLen then Some [s] else telegram_loop maxLen False [] s [])"

section \<open>HTML\<close>

definition escape_char :: "char \<Rightarrow> string" where
  "escape_char c = (if c = CHR ''&'' then ''&amp;'' else if c = CHR ''<'' then ''&lt;'' else if c = CHR ''>'' then ''&gt;'' else [c])"

definition escapeHTML :: "string \<Rightarrow> string" where
  "escapeHTML s = concat (map escape_char s)"

fun code_span :: "string \<Rightarrow> (string \<times> string) option" where
  "code_span [] = None"
| "code_span (c # s) = (if c = CHR 0x60 then map_option (\<lambda>e. (take e s, drop (e + 1) s)) (Index s [CHR 0x60]) else None)"

definition bold_span :: "string \<Rightarrow> (string \<times> string) option" where
  "bold_span s =
     (if HasPrefix s ''**''
      then (case Index (drop 2 s) ''**'' of
              Some e \<Rightarrow> if e > 0 then Some (take e (drop 2 s), drop (e + 2) (drop 2 s)) else None
            | None \<Rightarrow> None)
      else None)"

fun italic_span :: "string \<Rightarrow> (string \<times> string) option" where
  "italic_span [] = None"
| "italic_span (c # s) =
     (if c = CHR ''*'' \<and> (s = [] \<or> hd s \<noteq> CHR ''*'')
      then (case Index s ''*'' of
              Some e \<Rightarrow>
                if e > 0 \<and> (drop (e + 1) s = [] \<or> hd (drop (e + 1) s) \<noteq> CHR ''*'') then Some (take e s, drop (e + 1) s) else None
            | None \<Rightarrow> None)
      else None)"

lemma span_shorter:
  "code_span s = Some (x, r) \<Longrightarrow> length r < length s" "bold_span s = Some (x, r) \<Longrightarrow> length r < length s"
  "italic_span s = Some (x, r) \<Longrightarrow> length r < length s"
proof -
  show "code_span s = Some (x, r) \<Longrightarrow> length r < length s" by (cases s) (auto split: if_splits)
  show "bold_span s = Some (x, r) \<Longrightarrow> length r < length s"
    by (cases s) (auto simp: bold_span_def split: if_splits option.splits)
  show "italic_span s = Some (x, r) \<Longrightarrow> length r < length s" by (cases s) (auto split: if_splits option.splits)
qed

function formatInline :: "string \<Rightarrow> string" where
  "formatInline line =
     (case line of
        [] \<Rightarrow> []
      | c # rest \<Rightarrow>
          (case code_span line of
             Some (x, r) \<Rightarrow> ''<code>'' @ escapeHTML x @ ''</code>'' @ formatInline r
           | None \<Rightarrow>
               (case bold_span line of
                  Some (x, r) \<Rightarrow> ''<b>'' @ escapeHTML x @ ''</b>'' @ formatInline r
                | None \<Rightarrow>
                    (case italic_span line of
                       Some (x, r) \<Rightarrow> ''<i>'' @ escapeHTML x @ ''</i>'' @ formatInline r
                     | None \<Rightarrow> escape_char c @ formatInline rest))))"
  by pat_completeness auto
termination
  by (relation "measure length") (auto simp del: code_span.simps italic_span.simps dest: span_shorter)

declare formatInline.simps [simp del]

definition formatLine :: "string \<Rightarrow> string" where
  "formatLine line =
     (case Index line '' '' of
        Some k \<Rightarrow>
          if k > 0 \<and> k \<le> 6 \<and> (\<forall>c \<in> set (take k line). c = CHR ''#'')
          then ''<b>'' @ escapeHTML (TrimSpace (drop (k + 1) line)) @ ''</b>'' else formatInline line
      | None \<Rightarrow> formatInline line)"

definition open_code :: "string \<Rightarrow> string" where
  "open_code lang = (if lang \<noteq> [] then ''<pre><code class='' @ [CHR 0x22] @ ''language-'' @ escapeHTML lang @ [CHR 0x22] @ ''>'' else ''<pre><code>'')"

text \<open>The lines from number \<open>i\<close> on; \<open>first\<close> says that no line of the current code block was written yet.\<close>

fun md_lines :: "bool \<Rightarrow> bool \<Rightarrow> nat \<Rightarrow> string list \<Rightarrow> string" where
  "md_lines inCodeBlock first i [] = (if inCodeBlock then ''</code></pre>'' else [])"
| "md_lines inCodeBlock first i (line # lines) =
     (let trimmed = TrimSpace line
      in if HasPrefix trimmed fence
         then (if \<not> inCodeBlock then open_code (TrimSpace (drop 3 trimmed)) @ md_lines True True (Suc i) lines
               else ''</code></pre>'' @ (if lines \<noteq> [] then newline else []) @ md_lines False first (Suc i) lines)
         else if inCodeBlock
         then (if \<not> first then newline else []) @ escapeHTML line @ md_lines True False (Suc i) lines
         else (if i > 0 then newline else []) @ formatLine line @ md_lines False first (Suc i) lines)"

definition markdownToTelegramHTML :: "string \<Rightarrow> string" where
  "markdownToTelegramHTML s = md_lines False True 0 (split_lines [] s)"

section \<open>Splitting ends and loses nothing\<close>

lemma after_first_LastIndex:
  assumes "after_first (LastIndex (take m s) p) = Some k" "p \<noteq> []"
  shows "2 \<le> k \<and> k \<le> m \<and> k \<le> length s"
proof -
  obtain i where i: "LastIndex (take m s) p = Some i" "i > 0" "k = i + 1"
    using assms(1) by (auto simp: after_first_def split: option.splits if_splits)
  obtain u v where "take m s = u @ p @ v" "length u = i" using LastIndex_Some[OF i(1)] by blast
  moreover have "length (take m s) \<le> m" "length (take m s) \<le> length s" by simp_all
  ultimately show ?thesis using i assms(2) by (cases p) auto
qed

lemma split_point_bounds:
  assumes "length s > m" "m > 0"
  shows "0 < split_point m s \<and> split_point m s \<le> m"
proof -
  have "\<And>p k. p \<noteq> [] \<Longrightarrow> after_first (LastIndex (take m s) p) = Some k \<Longrightarrow> 0 < k \<and> k \<le> m"
    using after_first_LastIndex by fastforce
  then show ?thesis using assms unfolding split_point_def Let_def by (auto split: option.split)
qed

lemma signal_loop_ends:
  assumes "m > 0"
  shows "\<exists>more. signal_loop m s chunks = Some (chunks @ more) \<and> concat more = s \<and> (\<forall>c \<in> set more. c \<noteq> [] \<and> length c \<le> m)"
proof (induction "length s" arbitrary: s chunks rule: less_induct)
  case less
  show ?case
  proof (cases "length s \<le> m")
    case True
    then show ?thesis by (cases "s = []") (auto simp: signal_loop.simps)
  next
    case False
    let ?k = "split_point m s"
    have k: "0 < ?k" "?k \<le> m" using split_point_bounds[of m s] False assms by auto
    then have "length (drop ?k s) < length s" using False by simp
    from less[OF this, of "chunks @ [take ?k s]"] obtain more where
      more: "signal_loop m (drop ?k s) (chunks @ [take ?k s]) = Some ((chunks @ [take ?k s]) @ more)" "concat more = drop ?k s"
        "\<forall>c \<in> set more. c \<noteq> [] \<and> length c \<le> m" by blast
    moreover have "signal_loop m s chunks = signal_loop m (drop ?k s) (chunks @ [take ?k s])"
      using False by (subst signal_loop.simps) (auto simp: Let_def)
    ultimately show ?thesis using k False by (intro exI[of _ "take ?k s # more"]) (auto simp: append_take_drop_id)
  qed
qed

text \<open>
  Splitting for Signal returns, loses nothing and respects the limit: for every positive limit the chunks of a text, put together,
  are the text, and each has at most the limit's length.
\<close>

theorem signal_split_exact:
  assumes "maxLen > 0"
  shows "\<exists>chunks. Signal_splitMessage s maxLen = Some chunks \<and> concat chunks = s \<and> (\<forall>c \<in> set chunks. length c \<le> maxLen)"
  using signal_loop_ends[OF assms, of s "[]"] by (auto simp: Signal_splitMessage_def)

theorem signal_split_exact_witness:
  "Signal_splitMessage ''ab cd'' 4 = Some [''ab '', ''cd''] \<and> concat [''ab '', ''cd''] = ''ab cd''"
proof -
  have "split_point 4 ''ab cd'' = 3" by code_simp
  then have "Signal_splitMessage ''ab cd'' 4 = Some [''ab '', ''cd'']"
    by (simp add: Signal_splitMessage_def signal_loop.simps)
  moreover from this signal_split_exact[of 4 "''ab cd''"] have "concat [''ab '', ''cd''] = ''ab cd''" by simp
  ultimately show ?thesis by simp
qed

section \<open>Splitting with code blocks\<close>

text \<open>The number of fences the loop finds in a chunk.\<close>

function fence_count :: "string \<Rightarrow> nat" where
  "fence_count s = (case Index s fence of None \<Rightarrow> 0 | Some i \<Rightarrow> Suc (fence_count (drop (i + 3) s)))"
  by pat_completeness auto
termination
  by (relation "measure length") (auto dest!: Index_Some)

declare fence_count.simps [simp del]

lemma fences_count: "fst (fences b l n s) = n + fence_count s"
  by (induction b l n s rule: fences.induct) (subst fences.simps, subst fence_count.simps, simp add: Let_def split: option.split)

lemma fences_in_block: "snd (fences True l n s) = l"
  by (induction True l n s rule: fences.induct) (subst fences.simps, simp add: Let_def split: option.split)

lemma Contains_part: "Contains y p \<Longrightarrow> Contains (x @ y @ z) p"
  unfolding Contains_iff by (metis append.assoc)

lemma TrimSpace_part: "\<exists>x z. s = x @ TrimSpace s @ z"
proof -
  let ?d = "dropWhile is_space s"
  have "s = takeWhile is_space s @ ?d" by simp
  moreover have "?d = TrimSpace s @ rev (takeWhile is_space (rev ?d))"
    by (metis TrimSpace_def rev_append rev_rev_ident takeWhile_dropWhile_id)
  ultimately show ?thesis by metis
qed

lemma first_line_part: "\<exists>z. s = (case Index s newline of Some j \<Rightarrow> take j s | None \<Rightarrow> s) @ z"
  by (auto split: option.split) (metis append_take_drop_id)

lemma fences_lang:
  assumes "odd (n + fence_count s)" "fence_count s > 0"
  shows "length (snd (fences False l n s)) + 3 \<le> length s \<and> \<not> Contains (snd (fences False l n s)) fence"
  using assms
proof (induction "length s" arbitrary: s n l rule: less_induct)
  case less
  from less.prems(2) obtain i where i: "Index s fence = Some i" by (auto simp: fence_count.simps[of s] split: option.splits)
  then obtain u v where s: "s = u @ fence @ v" "length u = i" using Index_Some by blast
  then have d: "drop (i + 3) s = v" by simp
  have c: "fence_count s = Suc (fence_count v)" using i d by (simp add: fence_count.simps[of s])
  define l' where "l' = (if odd (Suc n) then TrimSpace (case Index v newline of Some j \<Rightarrow> take j v | None \<Rightarrow> v) else l)"
  have f: "fences False l n s = fences False l' (Suc n) v"
    using i d by (subst fences.simps) (simp add: Let_def l'_def)
  show ?case
  proof (cases "fence_count v > 0")
    case True
    moreover have "length v < length s" "odd (Suc n + fence_count v)" using s less.prems(1) c by simp_all
    ultimately show ?thesis using less.hyps[of v "Suc n" l'] f s by auto
  next
    case False
    then have none: "Index v fence = None" by (subst (asm) fence_count.simps) (auto split: option.splits)
    then have "fences False l' (Suc n) v = (Suc n, l')" by (simp add: fences.simps)
    moreover have "odd (Suc n)" using less.prems(1) c False by simp
    then have l': "l' = TrimSpace (case Index v newline of Some j \<Rightarrow> take j v | None \<Rightarrow> v)" by (simp add: l'_def)
    obtain z where z: "v = (case Index v newline of Some j \<Rightarrow> take j v | None \<Rightarrow> v) @ z" using first_line_part by blast
    obtain x y where "(case Index v newline of Some j \<Rightarrow> take j v | None \<Rightarrow> v) = x @ l' @ y" using TrimSpace_part l' by metis
    with z have v: "v = x @ l' @ (y @ z)" by simp
    then have "length l' \<le> length v" "\<not> Contains l' fence" using none Contains_part[of l' fence x "y @ z"] by (auto simp: Index_None)
    ultimately show ?thesis using f s by simp
  qed
qed

text \<open>While a block is open the rest starts with the reopened fence, whose line contains no other fence.\<close>

definition reopened :: "string \<Rightarrow> string \<Rightarrow> bool" where
  "reopened l s \<longleftrightarrow> \<not> Contains l fence \<and> (\<exists>r. s = fence @ l @ newline @ r)"

lemma reopened_split_point:
  assumes "length s > m" "m \<ge> 4" "reopened l s"
  shows "4 \<le> split_point m s"
proof -
  obtain r where s: "s = fence @ l @ newline @ r" using assms(3) by (auto simp: reopened_def)
  have "4 \<le> k" if k: "after_first (LastIndex (take m s) p) = Some k" "p \<noteq> []" "hd p \<noteq> CHR 0x60" for p k
  proof -
    obtain i where i: "LastIndex (take m s) p = Some i" "k = i + 1" using k(1) by (auto simp: after_first_def split: option.splits if_splits)
    obtain u v where u: "take m s = u @ p @ v" "length u = i" using LastIndex_Some[OF i(1)] by blast
    have h: "take m s ! i = hd p" "i < m" using u k(2) by (simp_all add: nth_append hd_conv_nth) (metis add_lessD1 length_append length_greater_0_conv length_take min.strict_boundedE nat_add_left_cancel_less add_0_right trans_less_add1)
    have "\<not> i < 3"
    proof
      assume "i < 3"
      then consider "i = 0" | "i = 1" | "i = 2" by linarith
      then have "s ! i = CHR 0x60" by cases (simp_all add: s)
      with h k(3) show False by simp
    qed
    with i(2) show ?thesis by simp
  qed
  then show ?thesis using assms(2) unfolding split_point_def Let_def by (auto split: option.split)
qed

lemma no_fence_count: "\<not> Contains s fence \<Longrightarrow> fence_count s = 0"
  by (subst fence_count.simps) (simp add: Index_None[symmetric])

lemma fence_count_reopened: "fence_count (fence @ s) = Suc (fence_count s)"
  by (subst fence_count.simps) simp

lemma no_fence_after_line:
  assumes "\<not> Contains l fence" "j < length l + 4"
  shows "\<not> Contains (take j (l @ newline @ r)) fence"
proof
  let ?s = "l @ newline @ r"
  assume "Contains (take j ?s) fence"
  then obtain u v where uv: "take j ?s = u @ fence @ v" by (auto simp: Contains_iff)
  have len: "length u + 3 \<le> j" using arg_cong[OF uv, of length] by simp
  have "?s = take j ?s @ drop j ?s" by (rule append_take_drop_id[symmetric])
  then have eq: "?s = u @ fence @ v @ drop j ?s" by (simp only: uv append_assoc)
  show False
  proof (cases "length u + 3 \<le> length l")
    case True
    have "take (length u + 3) ?s = u @ fence" by (subst eq) simp
    with True have "take (length u + 3) l = u @ fence" by simp
    then have "l = u @ fence @ drop (length u + 3) l" using append_take_drop_id[of "length u + 3" l] by simp
    with assms(1) show False unfolding Contains_iff by blast
  next
    case False
    have "length u \<le> length l" using len assms(2) by simp
    define i where "i = length l - length u"
    have i: "length l = length u + i" "i < 3" using False \<open>length u \<le> length l\<close> by (auto simp: i_def)
    have "?s ! length l = CHR 0x0A" by simp
    moreover have "?s ! length l = (fence @ v @ drop j ?s) ! i" by (subst eq) (simp add: nth_append i(1) del: append_Cons)
    moreover have "(fence @ v @ drop j ?s) ! i = CHR 0x60" using i(2) by (auto simp: less_Suc_eq numeral_3_eq_3)
    ultimately show False by simp
  qed
qed

lemma second_fence_far:
  assumes "reopened l s" "4 \<le> k" "k \<le> length s" "even (fence_count (take k s))"
  shows "length l + 7 \<le> k"
proof (rule ccontr)
  assume far: "\<not> length l + 7 \<le> k"
  obtain r where s: "s = fence @ l @ newline @ r" and l: "\<not> Contains l fence" using assms(1) by (auto simp: reopened_def)
  obtain j where j: "k = 3 + j" using assms(2) by (metis le_iff_add numeral_Bit0 numeral_Bit1 add.commute add_leD1 add.assoc one_add_one)
  have "take k s = fence @ take j (l @ newline @ r)" by (simp add: s j numeral_3_eq_3)
  moreover have "\<not> Contains (take j (l @ newline @ r)) fence" using no_fence_after_line[OF l] far j by simp
  ultimately have "fence_count (take k s) = Suc 0" using no_fence_count by (metis fence_count_reopened)
  with assms(4) show False by simp
qed

text \<open>
  A round of the loop shortens the rest: a block that stays open is split at its second fence or later, and a block that is opened adds
  at most one character to the rest.
\<close>

lemma telegram_round:
  assumes "length s > m" "m \<ge> 4" "b \<longrightarrow> reopened l s"
  defines "c \<equiv> take (split_point m s) s" and "d \<equiv> drop (split_point m s) s"
  defines "l' \<equiv> snd (fences b l 0 c)" and "b' \<equiv> (odd (fence_count c) \<noteq> b)"
  defines "s' \<equiv> (if b' then fence @ l' @ newline @ d else d)"
  shows "length s' + (if b' then 0 else 2) < length s + (if b then 0 else 2) \<and> (b' \<longrightarrow> reopened l' s')"
proof -
  let ?k = "split_point m s"
  have k: "0 < ?k" "?k \<le> m" using split_point_bounds[of m s] assms(1,2) by auto
  have lens: "length c = ?k" "length d = length s - ?k" "?k < length s" using k assms(1) by (simp_all add: c_def d_def)
  show ?thesis
  proof (cases b)
    case True
    then have r: "reopened l s" using assms(3) by simp
    have k4: "4 \<le> ?k" using reopened_split_point[OF assms(1,2) r] .
    have l': "l' = l" using True fences_in_block by (simp add: l'_def)
    show ?thesis
    proof (cases b')
      case in_block: True
      then have "even (fence_count (take ?k s))" using True by (simp add: b'_def c_def)
      then have "length l + 7 \<le> ?k" using second_fence_far[OF r k4] lens by simp
      then show ?thesis using in_block True l' lens r by (auto simp: s'_def reopened_def)
    next
      case False
      then show ?thesis using True lens k4 by (simp add: s'_def)
    qed
  next
    case False
    show ?thesis
    proof (cases b')
      case True
      then have "odd (0 + fence_count c)" "fence_count c > 0" using False by (auto simp: b'_def intro: Nat.gr0I)
      from fences_lang[OF this, of l] False have "length l' + 3 \<le> length c" "\<not> Contains l' fence" by (simp_all add: l'_def)
      then show ?thesis using True False lens by (auto simp: s'_def reopened_def)
    next
      case out: False
      then show ?thesis using False lens k by (simp add: s'_def)
    qed
  qed
qed

lemma telegram_loop_ends:
  assumes "m \<ge> 4" "b \<longrightarrow> reopened l s"
  shows "\<exists>more. telegram_loop m b l s chunks = Some (chunks @ more) \<and> (\<forall>c \<in> set more. length c \<le> m + 4)"
  using assms(2)
proof (induction "length s + (if b then 0 else 2)" arbitrary: s b l chunks rule: less_induct)
  case less
  show ?case
  proof (cases "length s \<le> m")
    case True
    then show ?thesis by (cases "s = []") (auto simp: telegram_loop.simps)
  next
    case False
    define c where "c = take (split_point m s) s"
    define d where "d = drop (split_point m s) s"
    define l' where "l' = snd (fences b l 0 c)"
    define b' where "b' = (odd (fence_count c) \<noteq> b)"
    define s' where "s' = (if b' then fence @ l' @ newline @ d else d)"
    define x where "x = (if b' then c @ newline @ fence else c)"
    have "length s' + (if b' then 0 else 2) < length s + (if b then 0 else 2)" "b' \<longrightarrow> reopened l' s'"
      using telegram_round[of m s b l] False assms(1) less.prems unfolding c_def d_def l'_def b'_def s'_def by simp_all
    from less.hyps[OF this, of "chunks @ [x]"] obtain more where
      more: "telegram_loop m b' l' s' (chunks @ [x]) = Some ((chunks @ [x]) @ more)" "\<forall>c \<in> set more. length c \<le> m + 4" by blast
    have "fences b l 0 c = (fence_count c, l')" using fences_count[of b l 0 c] by (metis l'_def add_0 prod.collapse)
    then have "telegram_loop m b l s chunks = telegram_loop m b' l' s' (chunks @ [x])"
      using False by (subst telegram_loop.simps) (auto simp: Let_def c_def[symmetric] d_def[symmetric] b'_def s'_def x_def)
    moreover have "length c \<le> m" using split_point_bounds[of m s] False assms(1) by (simp add: c_def)
    then have "length x \<le> m + 4" by (simp add: x_def)
    ultimately show ?thesis using more by (intro exI[of _ "x # more"]) auto
  qed
qed

text \<open>
  (C39) Splitting for Telegram ends for every limit of at least four characters, although each cut inside a code block puts a fence and
  the language of the block back in front of the rest; a chunk exceeds the limit by at most the four characters of the closing fence.
\<close>

theorem telegram_split_ends:
  assumes "maxLen \<ge> 4"
  shows "\<exists>chunks. Telegram_splitMessage s maxLen = Some chunks \<and> (\<forall>c \<in> set chunks. length c \<le> maxLen + 4)"
  using telegram_loop_ends[OF assms, of False "[]" s "[]"] by (auto simp: Telegram_splitMessage_def)

theorem telegram_split_ends_witness:
  "Telegram_splitMessage ''abcd ef'' 5 = Some [''abcd '', ''ef''] \<and> (\<exists>chunks. Telegram_splitMessage ''abcd ef'' 5 = Some chunks \<and> list_all (\<lambda>c. length c \<le> 9) chunks)"
proof -
  have "split_point 5 ''abcd ef'' = 5" "fences False [] 0 ''abcd '' = (0, [])" by code_simp+
  then have "Telegram_splitMessage ''abcd ef'' 5 = Some [''abcd '', ''ef'']"
    by (simp add: Telegram_splitMessage_def telegram_loop.simps)
  with telegram_split_ends[of 5 "''abcd ef''"] show ?thesis by (auto simp: list_all_iff)
qed

section \<open>The HTML is well formed\<close>

text \<open>
  The texts Telegram accepts in its HTML mode, as far as the gateway writes them: characters other than angle brackets, and tags that are
  opened and closed around such characters. A code block may carry an attribute without angle brackets.
\<close>

abbreviation bare :: "string \<Rightarrow> bool" where
  "bare s \<equiv> CHR ''<'' \<notin> set s \<and> CHR ''>'' \<notin> set s"

inductive telegram_html :: "string \<Rightarrow> bool" where
  empty: "telegram_html []"
| chars: "bare s \<Longrightarrow> telegram_html r \<Longrightarrow> telegram_html (s @ r)"
| bold: "bare s \<Longrightarrow> telegram_html r \<Longrightarrow> telegram_html (''<b>'' @ s @ ''</b>'' @ r)"
| italic: "bare s \<Longrightarrow> telegram_html r \<Longrightarrow> telegram_html (''<i>'' @ s @ ''</i>'' @ r)"
| code: "bare s \<Longrightarrow> telegram_html r \<Longrightarrow> telegram_html (''<code>'' @ s @ ''</code>'' @ r)"
| block: "bare a \<Longrightarrow> bare s \<Longrightarrow> telegram_html r \<Longrightarrow> telegram_html (''<pre><code'' @ a @ ''>'' @ s @ ''</code></pre>'' @ r)"

lemma bare_escape_char: "bare (escape_char c)"
  by (simp add: escape_char_def)

lemma bare_escapeHTML: "bare (escapeHTML s)"
  using bare_escape_char by (auto simp: escapeHTML_def)

lemma html_append: "telegram_html s \<Longrightarrow> telegram_html r \<Longrightarrow> telegram_html (s @ r)"
proof (induction s rule: telegram_html.induct)
  case (chars s t)
  then show ?case unfolding append_assoc by (metis telegram_html.chars)
next
  case (bold s t)
  then show ?case unfolding append_assoc by (metis telegram_html.bold)
next
  case (italic s t)
  then show ?case unfolding append_assoc by (metis telegram_html.italic)
next
  case (code s t)
  then show ?case unfolding append_assoc by (metis telegram_html.code)
next
  case (block a s t)
  then show ?case unfolding append_assoc by (metis telegram_html.block)
qed simp

lemma html_formatInline: "telegram_html (formatInline s)"
proof (induction s rule: formatInline.induct)
  case (1 line)
  show ?case
  proof (cases line)
    case Nil
    then show ?thesis by (simp add: formatInline.simps telegram_html.empty)
  next
    case (Cons c rest)
    consider (code) x r where "code_span line = Some (x, r)"
      | (bold) x r where "code_span line = None" "bold_span line = Some (x, r)"
      | (italic) x r where "code_span line = None" "bold_span line = None" "italic_span line = Some (x, r)"
      | (other) "code_span line = None" "bold_span line = None" "italic_span line = None"
      by (metis not_Some_eq surj_pair)
    then show ?thesis
    proof cases
      case code
      then show ?thesis using Cons 1(4)[OF Cons code refl] telegram_html.code[OF bare_escapeHTML] by (simp add: formatInline.simps[of "c # rest"] del: code_span.simps italic_span.simps)
    next
      case bold
      then show ?thesis using Cons 1(3)[OF Cons bold refl] telegram_html.bold[OF bare_escapeHTML] by (simp add: formatInline.simps[of "c # rest"] del: code_span.simps italic_span.simps)
    next
      case italic
      then show ?thesis using Cons 1(2)[OF Cons italic refl] telegram_html.italic[OF bare_escapeHTML] by (simp add: formatInline.simps[of "c # rest"] del: code_span.simps italic_span.simps)
    next
      case other
      then show ?thesis using Cons 1(1)[OF Cons other] telegram_html.chars[OF bare_escape_char] by (simp add: formatInline.simps[of "c # rest"] del: code_span.simps italic_span.simps)
    qed
  qed
qed

lemma html_formatLine: "telegram_html (formatLine line)"
proof -
  have "telegram_html (''<b>'' @ escapeHTML (TrimSpace (drop (k + 1) line)) @ ''</b>'')" for k
    using telegram_html.bold[OF bare_escapeHTML telegram_html.empty] by simp
  then show ?thesis by (simp add: formatLine_def html_formatInline split: option.split)
qed

lemma open_code_attr: "\<exists>a. bare a \<and> open_code lang = ''<pre><code'' @ a @ ''>''"
proof (cases "lang = []")
  case True
  then show ?thesis by (intro exI[of _ "[]"]) (simp add: open_code_def)
next
  case False
  then show ?thesis using bare_escapeHTML[of lang]
    by (intro exI[of _ "'' class='' @ [CHR 0x22] @ ''language-'' @ escapeHTML lang @ [CHR 0x22]"]) (simp add: open_code_def)
qed

text \<open>Inside a block the lines give plain characters, the end of the block and well-formed text.\<close>

lemma html_md_lines:
  "(\<not> b \<longrightarrow> telegram_html (md_lines b f i lines)) \<and>
   (b \<longrightarrow> (\<exists>t h. md_lines b f i lines = t @ ''</code></pre>'' @ h \<and> bare t \<and> telegram_html h))"
proof (induction b f i lines rule: md_lines.induct)
  case (1 b f i)
  show ?case by (auto intro!: telegram_html.empty exI[of _ "[]"])
next
  case (2 b f i line lines)
  let ?nl = "if lines \<noteq> [] then newline else []"
  consider (opens) "HasPrefix (TrimSpace line) fence" "\<not> b" | (closes) "HasPrefix (TrimSpace line) fence" "b"
    | (inside) "\<not> HasPrefix (TrimSpace line) fence" "b" | (outside) "\<not> HasPrefix (TrimSpace line) fence" "\<not> b" by blast
  then show ?case
  proof cases
    case opens
    with 2 obtain t h where th: "md_lines True True (Suc i) lines = t @ ''</code></pre>'' @ h" "bare t" "telegram_html h" by auto
    obtain a where a: "bare a" "open_code (TrimSpace (drop 3 (TrimSpace line))) = ''<pre><code'' @ a @ ''>''" using open_code_attr by blast
    have "md_lines b f i (line # lines) = ''<pre><code'' @ a @ ''>'' @ t @ ''</code></pre>'' @ h"
      using opens a(2) th(1) by (simp add: Let_def)
    then show ?thesis using opens telegram_html.block[OF a(1) th(2,3)] by simp
  next
    case closes
    with 2 have "telegram_html (md_lines False f (Suc i) lines)" by auto
    then have "telegram_html (?nl @ md_lines False f (Suc i) lines)" by (intro telegram_html.chars) auto
    then show ?thesis using closes by (intro conjI impI exI[of _ "[]"] exI[of _ "?nl @ md_lines False f (Suc i) lines"]) (simp_all add: Let_def)
  next
    case inside
    with 2 obtain t h where th: "md_lines True False (Suc i) lines = t @ ''</code></pre>'' @ h" "bare t" "telegram_html h" by auto
    then show ?thesis using inside bare_escapeHTML[of line]
      by (intro conjI impI exI[of _ "(if \<not> f then newline else []) @ escapeHTML line @ t"] exI[of _ h]) (simp_all add: Let_def)
  next
    case outside
    with 2 have "telegram_html (md_lines False f (Suc i) lines)" by auto
    then have "telegram_html ((if i > 0 then newline else []) @ formatLine line @ md_lines False f (Suc i) lines)"
      by (intro telegram_html.chars html_append html_formatLine) auto
    then show ?thesis using outside by (simp add: Let_def)
  qed
qed


text \<open>
  A block longer than two chunks is not kept: the fence that the loop itself puts in front of the rest is counted with the fences of the
  next chunk, so that chunk ends with its block open and the rest of the block is sent as plain text.
\<close>

theorem long_code_block_lost:
  "Telegram_splitMessage (fence @ newline @ ''aaaa'' @ newline @ ''bbbb'' @ newline @ ''cccc'' @ newline @ fence) 12 =
   Some [fence @ newline @ ''aaaa'' @ newline @ newline @ fence, fence @ newline @ ''bbbb'' @ newline, ''cccc'' @ newline @ fence]"
proof -
  have "split_point 12 (fence @ newline @ ''aaaa'' @ newline @ ''bbbb'' @ newline @ ''cccc'' @ newline @ fence) = 9"
    "split_point 12 (fence @ newline @ ''bbbb'' @ newline @ ''cccc'' @ newline @ fence) = 9"
    "fences False [] 0 (fence @ newline @ ''aaaa'' @ newline) = (1, [])"
    "fences True [] 0 (fence @ newline @ ''bbbb'' @ newline) = (1, [])" by code_simp+
  then show ?thesis by (simp add: Telegram_splitMessage_def telegram_loop.simps)
qed

end
