(* ===== verification/ChatGateways.thy ===== *)
theory ChatGateways
  imports MessageText AgentLoop RateLimit PipelineRuns "HOL-Library.Word"
begin

text \<open>
  The chat gateways: Telegram (\<^verbatim>\<open>gateway/telegram/telegram.go\<close>), Slack (\<^verbatim>\<open>gateway/slack/slack.go\<close>) and Signal
  (\<^verbatim>\<open>gateway/signal/signal.go\<close>). Each admits a sender, maps the sender to a user, and either hands a message to the agent or records
  a decision on an approval and resumes the approved execution.

  What a gateway sends is the list of its calls of the chat's API, in order. The gateways share the approval manager with their agent
  (\<open>o_approvalMgr\<close>). Clock readings, random and derived identifiers, the texts of errors, the keyed hash and the JSON decoder are the
  record \<open>chat_env\<close>; texts are bytes, so an emoji is written as its encoding. Updates arrive decoded.
\<close>

section \<open>What the gateways share\<close>

record 'w chat_env =
  ce_now :: "nat \<Rightarrow> time"
  ce_correlationID :: string
  ce_NewSHA1 :: "string \<Rightarrow> string"
  ce_newID :: uuid
  ce_parse :: "string \<Rightarrow> uuid option"
  ce_env :: env
  ce_envs :: "nat \<Rightarrow> nat \<Rightarrow> env"
  ce_agent :: "'w Agent"
  ce_approvalText :: "approval_error \<Rightarrow> string"

record 'w chat =
  ch_limiter :: "Limiter option"
  ch_agent :: "'w Orchestrator"

definition chat_mgr :: "'w chat \<Rightarrow> Manager option" where
  "chat_mgr g = o_approvalMgr (ch_agent g)"

definition rate_limited :: "time \<Rightarrow> string \<Rightarrow> 'w chat \<Rightarrow> bool \<times> 'w chat" where
  "rate_limited now userID g =
     (case ch_limiter g of
        None \<Rightarrow> (False, g)
      | Some l \<Rightarrow> let (e, l') = Allow l now userID in (e \<noteq> None, g\<lparr>ch_limiter := Some l'\<rparr>))"

definition ask :: "'w chat_env \<Rightarrow> string \<Rightarrow> string \<Rightarrow> string \<Rightarrow> 'w chat \<Rightarrow> (process_error + Response) \<times> 'w chat" where
  "ask ce userID msg seed g =
     (let (r, orc) = Process (ce_envs ce) (ce_parse ce) (ce_newID ce) (ce_agent ce) (ch_agent g)
            \<lparr>in_UserID = userID, in_Message = msg, in_CorrelationID = ce_correlationID ce, in_ConversationID = ce_NewSHA1 ce seed\<rparr>
      in (r, g\<lparr>ch_agent := orc\<rparr>))"

text \<open>What the three handlers of decisions do after they have found the decision, the approval and the approver.\<close>

datatype decision_outcome =
    NotConfigured
  | DenyFailed approval_error
  | Denied
  | ApprovalFailed approval_error
  | ResumeFailed exec_error
  | Approved ToolResponse

definition decide :: "'w chat_env \<Rightarrow> string \<Rightarrow> string \<Rightarrow> string \<Rightarrow> 'w chat \<Rightarrow> decision_outcome \<times> 'w chat" where
  "decide ce decision approvalID approverID g =
     (case chat_mgr g of
        None \<Rightarrow> (NotConfigured, g)
      | Some mgr \<Rightarrow>
          if decision = ''deny''
          then (let (e, mgr') = Deny mgr (ce_now ce 0) approvalID approverID; g = g\<lparr>ch_agent := (ch_agent g)\<lparr>o_approvalMgr := Some mgr'\<rparr>\<rparr>
                in case e of Some e \<Rightarrow> (DenyFailed e, g) | None \<Rightarrow> (Denied, g))
          else (let (e, mgr') = Approve mgr (ce_now ce 0) approvalID approverID; g = g\<lparr>ch_agent := (ch_agent g)\<lparr>o_approvalMgr := Some mgr'\<rparr>\<rparr>
                in case e of
                     Some e \<Rightarrow> (ApprovalFailed e, g)
                   | None \<Rightarrow>
                       (let (r, orc) = ResumeWithApproval (ce_env ce) (ch_agent g) approvalID; g = g\<lparr>ch_agent := orc\<rparr>
                        in case r of Inl e \<Rightarrow> (ResumeFailed e, g) | Inr res \<Rightarrow> (Approved res, g))))"

text \<open>\<^verbatim>\<open>strings.SplitN(s, ":", 2)\<close>: \<open>None\<close> when there is no colon.\<close>

definition split_colon :: "string \<Rightarrow> (string \<times> string) option" where
  "split_colon s = map_option (\<lambda>i. (take i s, drop (i + 1) s)) (Index s '':'')"

section \<open>Telegram\<close>

record TelegramConfig =
  tc_AllowedUsers :: "int list"
  tc_UserMapping :: "string \<rightharpoonup> string"
  tc_PollTimeout :: int

record TgMessage =
  tm_From :: "int option"
  tm_Chat :: int
  tm_Text :: string

record CallbackQuery =
  cb_QueryID :: string
  cb_From :: "int option"
  cb_Message :: "TgMessage option"
  cb_Data :: string

record Update =
  up_UpdateID :: int
  up_Message :: "TgMessage option"
  up_CallbackQuery :: "CallbackQuery option"

text \<open>The calls of the bot API: a text, a text with buttons (label and data), the answer to a pressed button.\<close>

datatype tg_call =
    SendMessage int string
  | SendKeyboard int string "(string \<times> string) list"
  | AnswerCallbackQuery string string

datatype tg_send =
    SendMarkdown int string
  | SendHTML int string
  | SendApprovalKeyboard int ApprovalRequest
  | AnswerCallback string string

definition telegramSafeMaxLen :: nat where "telegramSafeMaxLen = 4000"

definition pollTimeout :: "TelegramConfig \<Rightarrow> int" where
  "pollTimeout c = (if tc_PollTimeout c > 0 then tc_PollTimeout c else 30)"

definition sendMarkdown :: "int \<Rightarrow> string \<Rightarrow> tg_call list option" where
  "sendMarkdown chatID txt =
     (if txt = [] then Some []
      else map_option (map (\<lambda>chunk. SendMessage chatID (markdownToTelegramHTML chunk))) (Telegram_splitMessage txt telegramSafeMaxLen))"

definition sendHTML :: "int \<Rightarrow> string \<Rightarrow> tg_call list option" where
  "sendHTML chatID html = map_option (map (SendMessage chatID)) (Telegram_splitMessage html telegramSafeMaxLen)"

abbreviation check_mark :: string where "check_mark \<equiv> [CHR 0xE2, CHR 0x9C, CHR 0x85]"

abbreviation cross_mark :: string where "cross_mark \<equiv> [CHR 0xE2, CHR 0x9D, CHR 0x8C]"

abbreviation exclamation :: string where "exclamation \<equiv> [CHR 0xE2, CHR 0x9D, CHR 0x97]"

definition sendApprovalKeyboard :: "int \<Rightarrow> ApprovalRequest \<Rightarrow> tg_call" where
  "sendApprovalKeyboard chatID a =
     SendKeyboard chatID
       ((if ar_RiskLevel a = ''critical'' then [CHR 0xF0, CHR 0x9F, CHR 0x9A, CHR 0xA8]
         else [CHR 0xE2, CHR 0x9A, CHR 0xA0, CHR 0xEF, CHR 0xB8, CHR 0x8F]) @ '' <b>Approval Required</b>'' @ newline @ newline @
        [CHR 0xF0, CHR 0x9F, CHR 0x94, CHR 0xA7] @ '' <b>Tool:</b> <code>'' @ escapeHTML (ar_ToolName a) @ ''</code>'' @ newline @
        [CHR 0xF0, CHR 0x9F, CHR 0x8E, CHR 0xAF] @ '' <b>Action:</b> '' @ escapeHTML (ar_ActionName a) @ newline @
        [CHR 0xE2, CHR 0x9A, CHR 0xA1] @ '' <b>Risk:</b> '' @ escapeHTML (ar_RiskLevel a) @ newline @
        [CHR 0xF0, CHR 0x9F, CHR 0x91, CHR 0xA4] @ '' <b>Requested by:</b> '' @ escapeHTML (ar_UserID a) @ newline @ newline @
        ''<i>Approval ID:</i> <code>'' @ escapeHTML (ar_ApprovalID a) @ ''</code>'')
       [(check_mark @ '' Approve'', ''approve:'' @ ar_ApprovalID a), (cross_mark @ '' Deny'', ''deny:'' @ ar_ApprovalID a)]"

fun deliver :: "tg_send list \<Rightarrow> tg_call list option" where
  "deliver [] = Some []"
| "deliver (SendMarkdown chatID txt # sends) =
     (case sendMarkdown chatID txt of None \<Rightarrow> None | Some cs \<Rightarrow> map_option (\<lambda>ds. cs @ ds) (deliver sends))"
| "deliver (SendHTML chatID txt # sends) =
     (case sendHTML chatID txt of None \<Rightarrow> None | Some cs \<Rightarrow> map_option (\<lambda>ds. cs @ ds) (deliver sends))"
| "deliver (SendApprovalKeyboard chatID a # sends) = map_option (\<lambda>ds. sendApprovalKeyboard chatID a # ds) (deliver sends)"
| "deliver (AnswerCallback i txt # sends) = map_option (\<lambda>ds. AnswerCallbackQuery i txt # ds) (deliver sends)"

definition start_text :: string where
  "start_text =
     [CHR 0xF0, CHR 0x9F, CHR 0x9B, CHR 0xA1] @ '' <b>Akili</b> '' @ [CHR 0xE2, CHR 0x80, CHR 0x94] @ '' Autonomous AI Operator System'' @ newline @ newline @
     ''Send a message to get started.'' @ newline @
     ''All actions follow <b>default-deny</b> security and require explicit permission.''"

text \<open>\<^verbatim>\<open>Process\<close> never returns \<^verbatim>\<open>ErrApprovalPending\<close>, so the branches of the handlers for it are dead.\<close>

definition Telegram_handleMessage :: "TelegramConfig \<Rightarrow> 'w chat_env \<Rightarrow> TgMessage \<Rightarrow> 'w chat \<Rightarrow> tg_send list \<times> 'w chat" where
  "Telegram_handleMessage cfg ce msg g =
     (case tm_From msg of
        None \<Rightarrow> ([], g)
      | Some telegramUserID \<Rightarrow>
          let chatID = tm_Chat msg
          in if tm_Text msg = [] then ([], g)
             else if telegramUserID \<notin> set (tc_AllowedUsers cfg) then ([SendHTML chatID ''You are not authorized to use Akili.''], g)
             else case tc_UserMapping cfg (int_str telegramUserID) of
                    None \<Rightarrow> ([SendHTML chatID ''Your Telegram account is not mapped to an Akili user.''], g)
                  | Some userID \<Rightarrow>
                      (case rate_limited (ce_now ce 0) userID g of
                         (True, g) \<Rightarrow> ([SendHTML chatID ''Rate limit exceeded. Please wait before trying again.''], g)
                       | (False, g) \<Rightarrow>
                           if HasPrefix (tm_Text msg) ''/start'' then ([SendHTML chatID start_text], g)
                           else case ask ce userID (tm_Text msg) (''telegram:'' @ int_str telegramUserID @ '':'' @ int_str chatID) g of
                                  (Inl e, g) \<Rightarrow> ([SendHTML chatID (exclamation @ '' Error processing your request.'')], g)
                                | (Inr resp, g) \<Rightarrow>
                                    (map (SendApprovalKeyboard chatID) (rp_ApprovalRequests resp) @ [SendMarkdown chatID (rp_Message resp)], g)))"

text \<open>The replies to the chat of the pressed button are left out when the update does not name a chat.\<close>

definition callback_replies :: "'w chat_env \<Rightarrow> CallbackQuery \<Rightarrow> string \<Rightarrow> decision_outcome \<Rightarrow> tg_send list" where
  "callback_replies ce cb approverID out =
     (let chatID = (case cb_Message cb of None \<Rightarrow> 0 | Some m \<Rightarrow> tm_Chat m);
          inChat = (\<lambda>sends. if chatID \<noteq> 0 then sends else []);
          answer = AnswerCallback (cb_QueryID cb)
      in case out of
           NotConfigured \<Rightarrow> [answer ''Approval manager not configured.'']
         | DenyFailed e \<Rightarrow> [answer (''Deny failed: '' @ ce_approvalText ce e)]
         | Denied \<Rightarrow> answer (cross_mark @ '' Denied.'') # inChat [SendHTML chatID (cross_mark @ '' <b>Denied</b> by '' @ escapeHTML approverID @ ''.'')]
         | ApprovalFailed e \<Rightarrow> [answer (''Approval failed: '' @ ce_approvalText ce e)]
         | ResumeFailed e \<Rightarrow>
             answer (check_mark @ '' Approved. Executing...'') #
             inChat [SendHTML chatID (exclamation @ '' Execution after approval failed: '' @ escapeHTML (env_text (ce_env ce) e))]
         | Approved res \<Rightarrow>
             answer (check_mark @ '' Approved. Executing...'') #
             inChat [SendHTML chatID (check_mark @ '' <b>Approved</b> by '' @ escapeHTML approverID @ ''.''), SendMarkdown chatID (tp_Output res)])"

definition handleCallback :: "TelegramConfig \<Rightarrow> 'w chat_env \<Rightarrow> CallbackQuery \<Rightarrow> 'w chat \<Rightarrow> tg_send list \<times> 'w chat" where
  "handleCallback cfg ce cb g =
     (case cb_From cb of
        None \<Rightarrow> ([], g)
      | Some telegramUserID \<Rightarrow>
          if cb_Data cb = [] then ([], g)
          else if telegramUserID \<notin> set (tc_AllowedUsers cfg) then ([AnswerCallback (cb_QueryID cb) ''Not authorized.''], g)
          else case tc_UserMapping cfg (int_str telegramUserID) of
                 None \<Rightarrow> ([AnswerCallback (cb_QueryID cb) ''User not mapped.''], g)
               | Some approverID \<Rightarrow>
                   (case split_colon (cb_Data cb) of
                      None \<Rightarrow> ([AnswerCallback (cb_QueryID cb) ''Invalid action.''], g)
                    | Some (decision, approvalID) \<Rightarrow>
                        (let (out, g) = decide ce decision approvalID approverID g in (callback_replies ce cb approverID out, g))))"

definition processUpdate :: "TelegramConfig \<Rightarrow> 'w chat_env \<Rightarrow> Update \<Rightarrow> 'w chat \<Rightarrow> tg_send list \<times> 'w chat" where
  "processUpdate cfg ce u g =
     (case up_CallbackQuery u of
        Some cb \<Rightarrow> handleCallback cfg ce cb g
      | None \<Rightarrow> (case up_Message u of Some m \<Rightarrow> Telegram_handleMessage cfg ce m g | None \<Rightarrow> ([], g)))"

text \<open>The webhook: a body that does not decode is refused.\<close>

definition handleWebhook :: "TelegramConfig \<Rightarrow> 'w chat_env \<Rightarrow> Update option \<Rightarrow> 'w chat \<Rightarrow> int \<times> tg_send list \<times> 'w chat" where
  "handleWebhook cfg ce body g =
     (case body of None \<Rightarrow> (400, [], g) | Some u \<Rightarrow> let (sends, g) = processUpdate cfg ce u g in (200, sends, g))"

text \<open>
  Long polling: the state is the offset, the gateway and what was handled so far. A round asks the bot API, a parameter, for updates from
  the offset on; a failed request leaves everything as it is.
\<close>

record 'w tg_poll =
  po_offset :: int
  po_chat :: "'w chat"
  po_log :: "(Update \<times> tg_send list) list"

definition poll_update :: "TelegramConfig \<Rightarrow> (int \<Rightarrow> 'w chat_env) \<Rightarrow> 'w tg_poll \<Rightarrow> Update \<Rightarrow> 'w tg_poll" where
  "poll_update cfg ces p u =
     (let (sends, g) = processUpdate cfg (ces (up_UpdateID u)) u (po_chat p)
      in \<lparr>po_offset = (if up_UpdateID u \<ge> po_offset p then up_UpdateID u + 1 else po_offset p), po_chat = g, po_log = po_log p @ [(u, sends)]\<rparr>)"

fun startPolling :: "TelegramConfig \<Rightarrow> (int \<Rightarrow> 'w chat_env) \<Rightarrow> (nat \<Rightarrow> int \<Rightarrow> Update list option) \<Rightarrow> nat \<Rightarrow> 'w tg_poll \<Rightarrow> 'w tg_poll" where
  "startPolling cfg ces getUpdates 0 p = p"
| "startPolling cfg ces getUpdates (Suc n) p =
     (let p' = startPolling cfg ces getUpdates n p
      in case getUpdates n (po_offset p') of None \<Rightarrow> p' | Some us \<Rightarrow> foldl (poll_update cfg ces) p' us)"

section \<open>Slack\<close>

record SlackConfig =
  sk_SigningSecret :: string
  sk_UserMapping :: "string \<rightharpoonup> string"
  sk_ApprovalChannel :: string

text \<open>A request: the body, unless reading failed, and two headers, empty when missing.\<close>

record SlackRequest =
  sq_Body :: "string option"
  sq_Timestamp :: string
  sq_Signature :: string

datatype slack_error = ReadingBody | MissingHeaders | InvalidTimestamp | RequestTooOld | SignatureMismatch

text \<open>\<^verbatim>\<open>int64\<close> arithmetic; seconds since 1970, or \<open>None\<close> for a character that is no digit or an overflow that is noticed.\<close>

fun parse_digits :: "64 word \<Rightarrow> string \<Rightarrow> 64 word option" where
  "parse_digits ts [] = Some ts"
| "parse_digits ts (c # s) =
     (let d = of_char c :: nat
      in if d < 48 \<or> d > 57 then None
         else let ts' = ts * 10 + of_nat (d - 48)
              in if sint ts' > (2 ^ 63 - 1) div 10 then None else parse_digits ts' s)"

definition parseUnixTimestamp :: "string \<Rightarrow> time option" where
  "parseUnixTimestamp s = map_option (\<lambda>ts. sint ts * Second) (parse_digits 0 s)"

definition base_string :: "string \<Rightarrow> string \<Rightarrow> string" where
  "base_string timestamp body = ''v0:'' @ timestamp @ '':'' @ body"

definition readAndVerify :: "(string \<Rightarrow> string \<Rightarrow> string) \<Rightarrow> SlackConfig \<Rightarrow> time \<Rightarrow> SlackRequest \<Rightarrow> slack_error + string" where
  "readAndVerify hmac cfg now r =
     (case sq_Body r of
        None \<Rightarrow> Inl ReadingBody
      | Some whole \<Rightarrow>
          let body = take (256 * 1024) whole
          in if sq_Timestamp r = [] \<or> sq_Signature r = [] then Inl MissingHeaders
             else case parseUnixTimestamp (sq_Timestamp r) of
                    None \<Rightarrow> Inl InvalidTimestamp
                  | Some ts \<Rightarrow>
                      if now - ts > 5 * Minute then Inl RequestTooOld
                      else if ''v0='' @ hmac (sk_SigningSecret cfg) (base_string (sq_Timestamp r) body) \<noteq> sq_Signature r
                      then Inl SignatureMismatch
                      else Inr body)"

text \<open>\<^verbatim>\<open>url.ParseQuery\<close> and \<^verbatim>\<open>Values.Get\<close>.\<close>

definition hex_digit :: "char \<Rightarrow> nat option" where
  "hex_digit c =
     (let d = of_char c :: nat
      in if 48 \<le> d \<and> d \<le> 57 then Some (d - 48) else if 97 \<le> d \<and> d \<le> 102 then Some (d - 87)
         else if 65 \<le> d \<and> d \<le> 70 then Some (d - 55) else None)"

fun QueryUnescape :: "string \<Rightarrow> string option" where
  "QueryUnescape [] = Some []"
| "QueryUnescape (c # s) =
     (if c = CHR ''%''
      then (case s of
              a # b # t \<Rightarrow>
                (case (hex_digit a, hex_digit b) of
                   (Some x, Some y) \<Rightarrow> map_option (\<lambda>r. char_of (16 * x + y) # r) (QueryUnescape t)
                 | _ \<Rightarrow> None)
            | _ \<Rightarrow> None)
      else map_option (\<lambda>r. (if c = CHR ''+'' then CHR '' '' else c) # r) (QueryUnescape s))"

fun split_char :: "char \<Rightarrow> string \<Rightarrow> string \<Rightarrow> string list" where
  "split_char x acc [] = [acc]"
| "split_char x acc (c # s) = (if c = x then acc # split_char x [] s else split_char x (acc @ [c]) s)"

definition query_pair :: "string \<Rightarrow> (string \<times> string) option" where
  "query_pair p =
     (let (k, v) = (case Index p ''='' of Some i \<Rightarrow> (take i p, drop (i + 1) p) | None \<Rightarrow> (p, []))
      in case (QueryUnescape k, QueryUnescape v) of (Some k, Some v) \<Rightarrow> Some (k, v) | _ \<Rightarrow> None)"

fun query_pairs :: "string list \<Rightarrow> (string \<times> string) list option" where
  "query_pairs [] = Some []"
| "query_pairs (p # ps) =
     (if CHR '';'' \<in> set p then None
      else if p = [] then query_pairs ps
      else case query_pair p of None \<Rightarrow> None | Some kv \<Rightarrow> map_option (\<lambda>kvs. kv # kvs) (query_pairs ps))"

definition ParseQuery :: "string \<Rightarrow> (string \<times> string) list option" where
  "ParseQuery s = query_pairs (split_char (CHR ''&'') [] s)"

definition Values_Get :: "(string \<times> string) list \<Rightarrow> string \<Rightarrow> string" where
  "Values_Get vs key = (case map_of vs key of Some v \<Rightarrow> v | None \<Rightarrow> [])"

record interactionPayload =
  ip_Actions :: "string list"
  ip_UserID :: string

datatype slack_reply = HttpError int string | Ephemeral string

text \<open>A message with buttons: channel, text, attachment, the values of the buttons.\<close>

datatype slack_post = PostMessage string string string "string list"

definition postApprovalMessage :: "SlackConfig \<Rightarrow> string \<Rightarrow> ApprovalRequest \<Rightarrow> slack_post" where
  "postApprovalMessage cfg channelID a =
     PostMessage (if sk_ApprovalChannel cfg \<noteq> [] then sk_ApprovalChannel cfg else channelID)
       (''Approval required for *'' @ ar_ActionName a @ ''* (risk: '' @ ar_RiskLevel a @ '')'')
       (''Tool: '' @ ar_ToolName a @ newline @ ''Requested by: '' @ ar_UserID a @ newline @ ''Approval ID: '' @ ar_ApprovalID a)
       [''approve:'' @ ar_ApprovalID a, ''deny:'' @ ar_ApprovalID a]"

definition handleSlashCommand ::
  "(string \<Rightarrow> string \<Rightarrow> string) \<Rightarrow> SlackConfig \<Rightarrow> 'w chat_env \<Rightarrow> SlackRequest \<Rightarrow> 'w chat \<Rightarrow> slack_post list \<times> slack_reply \<times> 'w chat" where
  "handleSlashCommand hmac cfg ce r g =
     (case readAndVerify hmac cfg (ce_now ce 0) r of
        Inl e \<Rightarrow> ([], HttpError 401 ''unauthorized'', g)
      | Inr body \<Rightarrow>
          (case ParseQuery body of
             None \<Rightarrow> ([], HttpError 400 ''bad request'', g)
           | Some values \<Rightarrow>
               (let slackUserID = Values_Get values ''user_id''; channelID = Values_Get values ''channel_id''
                in case sk_UserMapping cfg slackUserID of
                     None \<Rightarrow> ([], Ephemeral ''You are not authorized to use Akili.'', g)
                   | Some userID \<Rightarrow>
                       (case rate_limited (ce_now ce 1) userID g of
                          (True, g) \<Rightarrow> ([], Ephemeral ''Rate limit exceeded. Please wait before trying again.'', g)
                        | (False, g) \<Rightarrow>
                            (case ask ce userID (Values_Get values ''text'') (''slack:'' @ slackUserID @ '':'' @ channelID) g of
                               (Inl e, g) \<Rightarrow> ([], Ephemeral ''Error processing your request.'', g)
                             | (Inr resp, g) \<Rightarrow>
                                 (map (postApprovalMessage cfg channelID) (rp_ApprovalRequests resp), Ephemeral (rp_Message resp), g))))))"

fun interaction_reply :: "'w chat_env \<Rightarrow> string \<Rightarrow> decision_outcome \<Rightarrow> string" where
  "interaction_reply ce approverID NotConfigured = ''Approval manager not configured.''"
| "interaction_reply ce approverID (DenyFailed e) = ''Deny failed: '' @ ce_approvalText ce e"
| "interaction_reply ce approverID Denied = ''Denied by '' @ approverID @ ''.''"
| "interaction_reply ce approverID (ApprovalFailed e) = ''Approval failed: '' @ ce_approvalText ce e"
| "interaction_reply ce approverID (ResumeFailed e) = ''Execution after approval failed: '' @ env_text (ce_env ce) e"
| "interaction_reply ce approverID (Approved res) =
     ''Approved by '' @ approverID @ ''.'' @ newline @ newline @ ''Result:'' @ newline @ tp_Output res"

definition handleInteraction ::
  "(string \<Rightarrow> string \<Rightarrow> string) \<Rightarrow> (string \<Rightarrow> interactionPayload option) \<Rightarrow> SlackConfig \<Rightarrow> 'w chat_env \<Rightarrow> SlackRequest \<Rightarrow> 'w chat \<Rightarrow>
     slack_reply \<times> 'w chat" where
  "handleInteraction hmac json cfg ce r g =
     (case readAndVerify hmac cfg (ce_now ce 1) r of
        Inl e \<Rightarrow> (HttpError 401 ''unauthorized'', g)
      | Inr body \<Rightarrow>
          (case ParseQuery body of
             None \<Rightarrow> (HttpError 400 ''bad request'', g)
           | Some values \<Rightarrow>
               (case json (Values_Get values ''payload'') of
                  None \<Rightarrow> (HttpError 400 ''invalid payload'', g)
                | Some payload \<Rightarrow>
                    (case ip_Actions payload of
                       [] \<Rightarrow> (HttpError 400 ''no actions'', g)
                     | action # _ \<Rightarrow>
                         (case sk_UserMapping cfg (ip_UserID payload) of
                            None \<Rightarrow> (Ephemeral ''You are not authorized to approve actions.'', g)
                          | Some approverID \<Rightarrow>
                              (case split_colon action of
                                 None \<Rightarrow> (HttpError 400 ''invalid action value'', g)
                               | Some (decision, approvalID) \<Rightarrow>
                                   (let (out, g) = decide ce decision approvalID approverID g
                                    in (Ephemeral (interaction_reply ce approverID out), g))))))))"

section \<open>Signal\<close>

record SignalConfig =
  sg_AllowedUsers :: "string list"
  sg_UserMapping :: "string \<rightharpoonup> string"

text \<open>An envelope: its source and, for a data message, the text and the group, if any.\<close>

record Envelope =
  en_Source :: string
  en_DataMessage :: "(string \<times> string option) option"

text \<open>A message to one recipient (no group) or to a group.\<close>

datatype signal_call = CallSend "string list" string string

definition callSend :: "string \<Rightarrow> string \<Rightarrow> string \<Rightarrow> signal_call" where
  "callSend recipient groupID txt = CallSend (if groupID \<noteq> [] then [] else [recipient]) groupID txt"

definition Signal_sendMessage :: "string \<Rightarrow> string \<Rightarrow> string \<Rightarrow> signal_call list option" where
  "Signal_sendMessage recipient groupID txt =
     (if txt = [] then Some [] else map_option (map (callSend recipient groupID)) (Signal_splitMessage txt 4000))"

definition sendApprovalMessage :: "ApprovalRequest \<Rightarrow> string" where
  "sendApprovalMessage a =
     ''APPROVAL REQUIRED'' @ newline @ newline @ ''Tool: '' @ ar_ToolName a @ newline @ ''Action: '' @ ar_ActionName a @ newline @
     ''Risk: '' @ ar_RiskLevel a @ newline @ ''Requested by: '' @ ar_UserID a @ newline @ newline @
     ''Approval ID: '' @ ar_ApprovalID a @ newline @ newline @ ''Reply with:'' @ newline @
     ''  /approve '' @ ar_ApprovalID a @ newline @ ''  /deny '' @ ar_ApprovalID a"

text \<open>\<^verbatim>\<open>strings.Fields\<close>, for the white space of ASCII.\<close>

fun fields_from :: "string \<Rightarrow> string \<Rightarrow> string list" where
  "fields_from acc [] = (if acc = [] then [] else [acc])"
| "fields_from acc (c # s) =
     (if is_space c then (if acc = [] then [] else [acc]) @ fields_from [] s else fields_from (acc @ [c]) s)"

definition handleApprovalCommand :: "'w chat_env \<Rightarrow> string \<Rightarrow> string \<Rightarrow> 'w chat \<Rightarrow> string \<times> 'w chat" where
  "handleApprovalCommand ce approverID txt g =
     (case fields_from [] txt of
        [part0, approvalID] \<Rightarrow>
          (let command = (if HasPrefix part0 ''/'' then drop 1 part0 else part0); (out, g) = decide ce command approvalID approverID g
           in (interaction_reply ce approverID out, g))
      | _ \<Rightarrow> (''Usage: /approve <id> or /deny <id>'', g))"

text \<open>The result lists the texts sent, with recipient and group.\<close>

definition processMessage :: "SignalConfig \<Rightarrow> 'w chat_env \<Rightarrow> Envelope \<Rightarrow> 'w chat \<Rightarrow> (string \<times> string \<times> string) list \<times> 'w chat" where
  "processMessage cfg ce env g =
     (case en_DataMessage env of
        None \<Rightarrow> ([], g)
      | Some (txt, groupInfo) \<Rightarrow>
          let senderPhone = en_Source env; groupID = (case groupInfo of None \<Rightarrow> [] | Some i \<Rightarrow> i)
          in if txt = [] \<or> senderPhone = [] then ([], g)
             else if senderPhone \<notin> set (sg_AllowedUsers cfg) then ([(senderPhone, [], ''You are not authorized to use Akili.'')], g)
             else case sg_UserMapping cfg senderPhone of
                    None \<Rightarrow> ([(senderPhone, [], ''Your Signal number is not mapped to an Akili user.'')], g)
                  | Some userID \<Rightarrow>
                      (case rate_limited (ce_now ce 1) userID g of
                         (True, g) \<Rightarrow> ([(senderPhone, [], ''Rate limit exceeded. Please wait before trying again.'')], g)
                       | (False, g) \<Rightarrow>
                           if HasPrefix txt ''/approve '' \<or> HasPrefix txt ''/deny ''
                           then (let (reply, g) = handleApprovalCommand ce userID txt g in ([(senderPhone, groupID, reply)], g))
                           else case ask ce userID txt (''signal:'' @ senderPhone @ '':'' @ groupID) g of
                                  (Inl e, g) \<Rightarrow> ([(senderPhone, groupID, ''Error processing your request.'')], g)
                                | (Inr resp, g) \<Rightarrow>
                                    (map (\<lambda>a. (senderPhone, groupID, sendApprovalMessage a)) (rp_ApprovalRequests resp) @
                                     [(senderPhone, groupID, rp_Message resp)], g)))"

section \<open>Who decides\<close>

text \<open>
  Seen from the approval manager: a run of its operations in which only users of a set approve.
\<close>

definition decides :: "string set \<Rightarrow> Manager option \<Rightarrow> Manager option \<Rightarrow> bool" where
  "decides us m m' \<longleftrightarrow> (\<exists>ops. m' = map_option (\<lambda>am. foldl mem_step am ops) m \<and> (\<forall>t aid who. (t, OpApprove aid who) \<in> set ops \<longrightarrow> who \<in> us))"

lemma decides_refl [simp]: "decides us m m"
  by (auto simp: decides_def option.map_ident intro!: exI[of _ "[]"])

lemma decides_trans: "decides us m m' \<Longrightarrow> decides vs m' m'' \<Longrightarrow> decides (us \<union> vs) m m''"
  unfolding decides_def
proof (elim exE conjE)
  fix xs ys
  assume "m' = map_option (\<lambda>am. foldl mem_step am xs) m" "m'' = map_option (\<lambda>am. foldl mem_step am ys) m'"
    "\<forall>t aid who. (t, OpApprove aid who) \<in> set xs \<longrightarrow> who \<in> us" "\<forall>t aid who. (t, OpApprove aid who) \<in> set ys \<longrightarrow> who \<in> vs"
  then show "\<exists>ops. m'' = map_option (\<lambda>am. foldl mem_step am ops) m \<and> (\<forall>t aid who. (t, OpApprove aid who) \<in> set ops \<longrightarrow> who \<in> us \<union> vs)"
    by (intro exI[of _ "xs @ ys"]) (auto simp: option.map_comp comp_def)
qed

lemma decides_mono: "decides us m m' \<Longrightarrow> us \<subseteq> vs \<Longrightarrow> decides vs m m'"
  unfolding decides_def by blast

lemma decides_step: "(\<And>t aid who. x = (t, OpApprove aid who) \<Longrightarrow> who \<in> us) \<Longrightarrow> decides us (Some am) (Some (mem_step am x))"
  unfolding decides_def by (intro exI[of _ "[x]"]) auto

lemma decides_mgr_run:
  assumes "mgr_run orc op orc'" "\<And>t aid who. op \<noteq> AgDecide t aid who True"
  shows "decides {} (o_approvalMgr orc) (o_approvalMgr orc')"
proof -
  obtain ops where ops: "o_approvalMgr orc' = map_option (\<lambda>am. foldl mem_step am ops) (o_approvalMgr orc)" "\<forall>x \<in> set ops. origin orc op x"
    using assms(1) by (auto simp: mgr_run_def)
  have "(t, OpApprove aid who) \<notin> set ops" for t aid who using ops(2) assms(2)[of t aid who] by (auto dest!: bspec)
  with ops(1) show ?thesis unfolding decides_def by blast
qed

lemma ExecuteTool_decides: "decides {} (o_approvalMgr orc) (o_approvalMgr (snd (ExecuteTool env orc req)))"
  using agent_step_frame[of orc "AgExec env req"] by (intro decides_mgr_run[of _ "AgExec env req"]) auto

lemma Resume_decides: "decides {} (o_approvalMgr orc) (o_approvalMgr (snd (ResumeWithApproval env orc aid)))"
  using agent_step_frame[of orc "AgResume env aid"] by (intro decides_mgr_run[of _ "AgResume env aid"]) auto

lemma decides_none_trans: "decides {} m m' \<Longrightarrow> decides {} m' m'' \<Longrightarrow> decides {} m m''"
  using decides_trans[of "{}" m m' "{}" m''] by simp

lemma executeToolCalls_decides:
  "executeToolCalls envs inp orc blocks = (bs, rs, as, orc') \<Longrightarrow> decides {} (o_approvalMgr orc) (o_approvalMgr orc')"
proof (induction envs inp orc blocks arbitrary: bs rs as orc' rule: executeToolCalls.induct)
  case (2 envs inp orc block blocks)
  obtain res orc1 where e: "ExecuteTool (envs 0) orc (tool_request inp block) = (res, orc1)" by fastforce
  obtain bs' rs' as' orc2 where rest: "executeToolCalls (\<lambda>j. envs (Suc j)) inp orc1 blocks = (bs', rs', as', orc2)" by (metis prod_cases4)
  have "orc' = orc2" using 2(2) e rest by (auto simp: Let_def split: sum.splits exec_error.splits)
  moreover have "decides {} (o_approvalMgr orc) (o_approvalMgr orc1)" using ExecuteTool_decides[of orc "envs 0" "tool_request inp block"] e by simp
  ultimately show ?case using 2(1)[OF e[symmetric] refl rest] decides_none_trans by blast
qed simp

lemma process_loop_decides:
  "process_loop envs ag inp prompt k orc lp = (r, h, orc') \<Longrightarrow> decides {} (o_approvalMgr orc) (o_approvalMgr orc')"
proof (induction k arbitrary: envs orc lp r h orc')
  case (Suc k)
  let ?req = "\<lparr>rq_SystemPrompt = prompt, rq_Messages = lp_history lp, rq_MaxTokens = 0, rq_Tools = lp_toolDefs lp\<rparr>"
  obtain x w where s: "ag_send ag (o_world orc) ?req = (x, w)" by fastforce
  show ?case
  proof (cases x)
    case (Inl e)
    with Suc(2) s show ?thesis by auto
  next
    case (Inr resp)
    obtain bs rs as orc2 where calls: "executeToolCalls (envs 0) inp (orc\<lparr>o_world := w\<rparr>) (ToolUseBlocks resp) = (bs, rs, as, orc2)"
      by (metis prod_cases4)
    from executeToolCalls_decides[OF calls] have d: "decides {} (o_approvalMgr orc) (o_approvalMgr orc2)" by simp
    show ?thesis
    proof (cases "HasToolUse resp \<and> as = []")
      case True
      then obtain lp' where "process_loop (\<lambda>i. envs (Suc i)) ag inp prompt k orc2 lp' = (r, h, orc')"
        using Suc(2) s Inr calls by (simp add: Let_def)
      then show ?thesis using Suc(1) d decides_none_trans by blast
    next
      case False
      then show ?thesis using Suc(2) s Inr calls d by (auto simp: Let_def split: if_splits)
    qed
  qed
qed simp

lemma Process_decides: "decides {} (o_approvalMgr orc) (o_approvalMgr (snd (Process envs parse newID ag orc inp)))"
proof -
  obtain persistent convID loaded orc1 where load: "load_conversation ag parse newID orc inp = (persistent, convID, loaded, orc1)" by (metis prod_cases4)
  then have m: "o_approvalMgr orc1 = o_approvalMgr orc" by (auto simp: load_conversation_def Let_def split: option.splits if_splits prod.splits sum.splits)
  obtain h start w where trim: "trim_history ag (o_world orc1) (loaded @ [user_message ag inp]) (int (length loaded)) = (h, start, w)"
    by (metis prod_cases3)
  obtain toolDefs lazy where tools: "initial_tools ag orc1 (in_Message inp) = (toolDefs, lazy)" by fastforce
  let ?lp = "\<lparr>lp_history = h, lp_toolDefs = toolDefs, lp_lazy = lazy, lp_tokens = 0, lp_results = [], lp_approvals = []\<rparr>"
  obtain res final orc2 where loop: "process_loop envs ag inp (buildSystemPrompt (ag_rank ag) (ag_prompt ag) (in_Message inp))
      (max_iterations ag) (orc1\<lparr>o_world := w\<rparr>) ?lp = (res, final, orc2)" by (metis prod_cases3)
  have "o_approvalMgr (snd (Process envs parse newID ag orc inp)) = o_approvalMgr orc2"
    using load trim tools loop by (auto simp: Process_def Let_def max_iterations_def persistNewMessages_def split: option.splits)
  then show ?thesis using process_loop_decides[OF loop] m by simp
qed

lemma ask_decides: "decides {} (chat_mgr g) (chat_mgr (snd (ask ce u m sd g)))"
  using Process_decides[of "ch_agent g"] by (simp add: ask_def chat_mgr_def split_beta Let_def)

lemma rate_limited_mgr [simp]: "chat_mgr (snd (rate_limited now u g)) = chat_mgr g"
  by (simp add: rate_limited_def chat_mgr_def split_beta Let_def split: option.split)

lemma decide_decides: "decides {u} (chat_mgr g) (chat_mgr (snd (decide ce d aid u g)))"
proof (cases "chat_mgr g")
  case None
  then show ?thesis by (simp add: decide_def)
next
  case (Some mgr)
  obtain e mgr' where a: "Approve mgr (ce_now ce 0) aid u = (e, mgr')" by fastforce
  obtain e2 mgr2 where n: "Deny mgr (ce_now ce 0) aid u = (e2, mgr2)" by fastforce
  let ?orc = "(ch_agent g)\<lparr>o_approvalMgr := Some mgr'\<rparr>"
  have da: "decides {u} (chat_mgr g) (Some mgr')" using decides_step[of "(ce_now ce 0, OpApprove aid u)" "{u}" mgr] a Some by simp
  moreover have "decides {u} (chat_mgr g) (Some mgr2)" using decides_step[of "(ce_now ce 0, OpDeny aid u)" "{u}" mgr] n Some by simp
  moreover have "decides {u} (chat_mgr g) (o_approvalMgr (snd (ResumeWithApproval (ce_env ce) ?orc aid)))"
    using decides_trans[OF da, of "{}"] Resume_decides[of ?orc "ce_env ce" aid] by simp
  ultimately show ?thesis using Some a n
    by (simp add: decide_def chat_mgr_def split_beta Let_def split: option.split sum.split)
qed

text \<open>
  The contract of a chat: an event of nobody changes nothing, and an event of a user approves in the name of that user only. The users are
  those the gateway admits and maps (\<open>speaker\<close>).
\<close>

locale chat_gateway =
  fixes handle :: "'e \<Rightarrow> 'g \<Rightarrow> 'g" and mgr :: "'g \<Rightarrow> Manager option" and speaker :: "'e \<Rightarrow> string option"
  assumes stranger: "speaker e = None \<Longrightarrow> handle e g = g"
    and spoken: "speaker e = Some u \<Longrightarrow> decides {u} (mgr g) (mgr (handle e g))"
begin

lemma strangers: "(\<And>e. e \<in> set es \<Longrightarrow> speaker e = None) \<Longrightarrow> fold handle es g = g"
  by (induction es arbitrary: g) (simp_all add: stranger)

lemma run_decides: "decides {u. \<exists>e \<in> set es. speaker e = Some u} (mgr g) (mgr (fold handle es g))"
proof (induction es arbitrary: g)
  case (Cons e es)
  have "decides {u. speaker e = Some u} (mgr g) (mgr (handle e g))"
  proof (cases "speaker e")
    case None
    then show ?thesis by (simp add: stranger)
  next
    case (Some u)
    then have "{v. speaker e = Some v} = {u}" by auto
    with spoken[OF Some] show ?thesis by simp
  qed
  moreover have "{u. speaker e = Some u} \<union> {u. \<exists>e \<in> set es. speaker e = Some u} = {u. \<exists>x \<in> set (e # es). speaker x = Some u}" by auto
  ultimately show ?case using decides_trans[OF _ Cons.IH] by fastforce
qed simp

lemma approver_spoke:
  assumes "mgr g = Some am" "\<And>pa. mgr_pending am aid = Some pa \<Longrightarrow> pa_Status pa \<noteq> StatusApproved"
    and "mgr (fold handle es g) = Some am'" "mgr_pending am' aid = Some pa" "pa_Status pa = StatusApproved"
  shows "\<exists>e \<in> set es. speaker e = Some (pa_ApprovedBy pa)"
proof -
  obtain ops where ops: "am' = foldl mem_step am ops" "\<forall>t aid who. (t, OpApprove aid who) \<in> set ops \<longrightarrow> (\<exists>e \<in> set es. speaker e = Some who)"
    using run_decides[of es g] assms(1,3) by (auto simp: decides_def)
  have "\<exists>t. (t, OpApprove aid (pa_ApprovedBy pa)) \<in> set ops \<and> t \<le> pa_ExpiresAt pa"
    using assms(2,4,5) ops(1) by (intro mem_approval.approved_provenance[of am]) auto
  with ops(2) show ?thesis by blast
qed

end

section \<open>The three gateways keep the contract\<close>

definition telegram_user :: "TelegramConfig \<Rightarrow> int \<Rightarrow> string option" where
  "telegram_user cfg i = (if i \<in> set (tc_AllowedUsers cfg) then tc_UserMapping cfg (int_str i) else None)"

definition telegram_speaker :: "TelegramConfig \<Rightarrow> 'w chat_env \<times> Update \<Rightarrow> string option" where
  "telegram_speaker cfg e =
     (case up_CallbackQuery (snd e) of
        Some cb \<Rightarrow> Option.bind (cb_From cb) (telegram_user cfg)
      | None \<Rightarrow> (case up_Message (snd e) of Some m \<Rightarrow> Option.bind (tm_From m) (telegram_user cfg) | None \<Rightarrow> None))"

definition telegram_handle :: "TelegramConfig \<Rightarrow> 'w chat_env \<times> Update \<Rightarrow> 'w chat \<Rightarrow> 'w chat" where
  "telegram_handle cfg e g = snd (processUpdate cfg (fst e) (snd e) g)"

datatype slack_event = SlashCommand SlackRequest | Interaction SlackRequest

record slack_lib =
  sl_hmac :: "string \<Rightarrow> string \<Rightarrow> string"
  sl_json :: "string \<Rightarrow> interactionPayload option"

definition slack_speaker :: "slack_lib \<Rightarrow> SlackConfig \<Rightarrow> 'w chat_env \<times> slack_event \<Rightarrow> string option" where
  "slack_speaker lib cfg e =
     (case snd e of
        SlashCommand r \<Rightarrow>
          (case readAndVerify (sl_hmac lib) cfg (ce_now (fst e) 0) r of
             Inl x \<Rightarrow> None
           | Inr body \<Rightarrow> Option.bind (ParseQuery body) (\<lambda>vs. sk_UserMapping cfg (Values_Get vs ''user_id'')))
      | Interaction r \<Rightarrow>
          (case readAndVerify (sl_hmac lib) cfg (ce_now (fst e) 1) r of
             Inl x \<Rightarrow> None
           | Inr body \<Rightarrow>
               Option.bind (ParseQuery body) (\<lambda>vs. Option.bind (sl_json lib (Values_Get vs ''payload'')) (\<lambda>p. sk_UserMapping cfg (ip_UserID p)))))"

definition slack_handle :: "slack_lib \<Rightarrow> SlackConfig \<Rightarrow> 'w chat_env \<times> slack_event \<Rightarrow> 'w chat \<Rightarrow> 'w chat" where
  "slack_handle lib cfg e g =
     (case snd e of
        SlashCommand r \<Rightarrow> snd (snd (handleSlashCommand (sl_hmac lib) cfg (fst e) r g))
      | Interaction r \<Rightarrow> snd (handleInteraction (sl_hmac lib) (sl_json lib) cfg (fst e) r g))"

definition signal_speaker :: "SignalConfig \<Rightarrow> 'w chat_env \<times> Envelope \<Rightarrow> string option" where
  "signal_speaker cfg e = (if en_Source (snd e) \<in> set (sg_AllowedUsers cfg) then sg_UserMapping cfg (en_Source (snd e)) else None)"

definition signal_handle :: "SignalConfig \<Rightarrow> 'w chat_env \<times> Envelope \<Rightarrow> 'w chat \<Rightarrow> 'w chat" where
  "signal_handle cfg e g = snd (processMessage cfg (fst e) (snd e) g)"

lemma decides_rate_limited:
  assumes "rate_limited now u g = (b, g1)" "decides us (chat_mgr g1) m"
  shows "decides us (chat_mgr g) m"
  using assms rate_limited_mgr[of now u g] by simp

lemma decides_ask:
  assumes "rate_limited now u g = (b, g1)" "ask ce u' m sd g1 = (r, g2)"
  shows "decides us (chat_mgr g) (chat_mgr g2)"
  using decides_rate_limited[OF assms(1)] decides_mono[OF ask_decides[of g1 ce u' m sd], of us] assms(2) by simp

lemma decides_limited:
  assumes "rate_limited now u g = (b, g1)"
  shows "decides us (chat_mgr g) (chat_mgr g1)"
  using decides_rate_limited[OF assms] by simp

lemma decides_decide:
  assumes "decide ce d aid u g = (out, g')"
  shows "decides {u} (chat_mgr g) (chat_mgr g')"
  using decide_decides[of u g ce d aid] assms by simp

lemma decides_limited_decide:
  assumes "rate_limited now v g = (b, g1)" "decide ce d aid u g1 = (out, g')"
  shows "decides {u} (chat_mgr g) (chat_mgr g')"
  using decides_rate_limited[OF assms(1)] decides_decide[OF assms(2)] by simp

lemmas chat_decisions = decides_ask decides_limited decides_decide decides_limited_decide

interpretation tg: chat_gateway "telegram_handle cfg" chat_mgr "telegram_speaker cfg" for cfg
proof
  fix e :: "'a chat_env \<times> Update" and g :: "'a chat" and u
  show "telegram_speaker cfg e = None \<Longrightarrow> telegram_handle cfg e g = g"
    by (auto simp: telegram_speaker_def telegram_handle_def telegram_user_def processUpdate_def handleCallback_def Telegram_handleMessage_def Let_def
        split: option.splits if_splits)
  show "telegram_speaker cfg e = Some u \<Longrightarrow> decides {u} (chat_mgr g) (chat_mgr (telegram_handle cfg e g))"
    by (auto simp: telegram_speaker_def telegram_handle_def telegram_user_def processUpdate_def handleCallback_def Telegram_handleMessage_def Let_def
        split: option.splits if_splits prod.splits bool.splits sum.splits intro: chat_decisions)
qed

interpretation sl: chat_gateway "slack_handle lib cfg" chat_mgr "slack_speaker lib cfg" for lib cfg
proof
  fix e :: "'a chat_env \<times> slack_event" and g :: "'a chat" and u
  show "slack_speaker lib cfg e = None \<Longrightarrow> slack_handle lib cfg e g = g"
    by (cases "snd e") (auto simp: slack_speaker_def slack_handle_def handleSlashCommand_def handleInteraction_def Let_def
        split: option.splits sum.splits list.splits bind_splits)
  show "slack_speaker lib cfg e = Some u \<Longrightarrow> decides {u} (chat_mgr g) (chat_mgr (slack_handle lib cfg e g))"
    by (cases "snd e") (auto simp: slack_speaker_def slack_handle_def handleSlashCommand_def handleInteraction_def Let_def
        split: option.splits sum.splits list.splits bind_splits prod.splits bool.splits intro: chat_decisions)
qed

lemma handleApprovalCommand_decides: "decides {u} (chat_mgr g) (chat_mgr (snd (handleApprovalCommand ce u txt g)))"
  by (auto simp: handleApprovalCommand_def Let_def split: list.splits prod.splits intro: chat_decisions)

lemma decides_limited_command:
  assumes "rate_limited now v g = (b, g1)" "handleApprovalCommand ce u txt g1 = (r, g')"
  shows "decides {u} (chat_mgr g) (chat_mgr g')"
  using decides_rate_limited[OF assms(1)] handleApprovalCommand_decides[of u g1 ce "txt"] assms(2) by simp

interpretation sg: chat_gateway "signal_handle cfg" chat_mgr "signal_speaker cfg" for cfg
proof
  fix e :: "'a chat_env \<times> Envelope" and g :: "'a chat" and u
  show "signal_speaker cfg e = None \<Longrightarrow> signal_handle cfg e g = g"
    by (auto simp: signal_speaker_def signal_handle_def processMessage_def Let_def split: option.splits if_splits)
  show "signal_speaker cfg e = Some u \<Longrightarrow> decides {u} (chat_mgr g) (chat_mgr (signal_handle cfg e g))"
    by (auto simp: signal_speaker_def signal_handle_def processMessage_def Let_def
        split: option.splits if_splits prod.splits bool.splits sum.splits intro: chat_decisions decides_limited_command)
qed

section \<open>The chats of a running program\<close>

text \<open>The gateways share the agent, with its approval manager; each has a limiter of its own (\<^verbatim>\<open>cmd/akili/gateway.go\<close>).\<close>

datatype chat_kind = TelegramChat | SlackChat | SignalChat

record 'w chats =
  cs_agent :: "'w Orchestrator"
  cs_limiters :: "chat_kind \<Rightarrow> Limiter option"

record chat_config =
  cc_telegram :: TelegramConfig
  cc_slack :: SlackConfig
  cc_slackLib :: slack_lib
  cc_signal :: SignalConfig

datatype chat_event = TelegramUpdate Update | SlackEvent slack_event | SignalEnvelope Envelope

definition in_chat :: "chat_kind \<Rightarrow> ('w chat \<Rightarrow> 'w chat) \<Rightarrow> 'w chats \<Rightarrow> 'w chats" where
  "in_chat k handle s =
     (let g = handle \<lparr>ch_limiter = cs_limiters s k, ch_agent = cs_agent s\<rparr>
      in s\<lparr>cs_agent := ch_agent g, cs_limiters := (cs_limiters s)(k := ch_limiter g)\<rparr>)"

fun chats_handle :: "chat_config \<Rightarrow> 'w chat_env \<times> chat_event \<Rightarrow> 'w chats \<Rightarrow> 'w chats" where
  "chats_handle cfg (ce, TelegramUpdate u) s = in_chat TelegramChat (telegram_handle (cc_telegram cfg) (ce, u)) s"
| "chats_handle cfg (ce, SlackEvent e) s = in_chat SlackChat (slack_handle (cc_slackLib cfg) (cc_slack cfg) (ce, e)) s"
| "chats_handle cfg (ce, SignalEnvelope e) s = in_chat SignalChat (signal_handle (cc_signal cfg) (ce, e)) s"

fun chats_speaker :: "chat_config \<Rightarrow> 'w chat_env \<times> chat_event \<Rightarrow> string option" where
  "chats_speaker cfg (ce, TelegramUpdate u) = telegram_speaker (cc_telegram cfg) (ce, u)"
| "chats_speaker cfg (ce, SlackEvent e) = slack_speaker (cc_slackLib cfg) (cc_slack cfg) (ce, e)"
| "chats_speaker cfg (ce, SignalEnvelope e) = signal_speaker (cc_signal cfg) (ce, e)"

definition chats_mgr :: "'w chats \<Rightarrow> Manager option" where
  "chats_mgr s = o_approvalMgr (cs_agent s)"

lemma in_chat_stranger: "(\<And>g. handle g = g) \<Longrightarrow> in_chat k handle s = s"
  by (simp add: in_chat_def)

lemma in_chat_spoken: "(\<And>g. decides us (chat_mgr g) (chat_mgr (handle g))) \<Longrightarrow> decides us (chats_mgr s) (chats_mgr (in_chat k handle s))"
  by (simp add: in_chat_def chats_mgr_def chat_mgr_def Let_def) (metis chat.select_convs(2))

interpretation cs: chat_gateway "chats_handle cfg" chats_mgr "chats_speaker cfg" for cfg
proof
  fix e :: "'a chat_env \<times> chat_event" and s :: "'a chats" and u
  show "chats_speaker cfg e = None \<Longrightarrow> chats_handle cfg e s = s"
    by (cases "(cfg, e)" rule: chats_speaker.cases) (simp_all add: in_chat_stranger tg.stranger sl.stranger sg.stranger)
  show "chats_speaker cfg e = Some u \<Longrightarrow> decides {u} (chats_mgr s) (chats_mgr (chats_handle cfg e s))"
    by (cases "(cfg, e)" rule: chats_speaker.cases) (simp_all add: in_chat_spoken tg.spoken sl.spoken sg.spoken)
qed

text \<open>
  (C10) Nobody but admitted and mapped users gets anything done through a chat: however many events of Telegram users who are not on the list or
  not mapped, of Slack requests that are unsigned, too old or of unmapped users, and of unknown Signal numbers arrive, in whatever order,
  the agent, the approvals and the limiters stay as they are.
\<close>

theorem chat_strangers_change_nothing:
  assumes "\<forall>e \<in> set es. chats_speaker cfg e = None"
  shows "fold (chats_handle cfg) es s = s"
  using assms by (intro cs.strangers) blast

text \<open>
  (C9) Whoever a request names as its approver has spoken: if a request that was not approved is approved after any run of events of the three
  chats, messages to the agent included, then one of the events came from the admitted, mapped user that the request names.
\<close>

theorem chat_approver_spoke:
  assumes "chats_mgr s = Some am" "status_of (mgr_pending am) aid \<noteq> Some StatusApproved"
    and "chats_mgr (fold (chats_handle cfg) es s) = Some am'" "mgr_pending am' aid = Some pa" "pa_Status pa = StatusApproved"
  shows "\<exists>e \<in> set es. chats_speaker cfg e = Some (pa_ApprovedBy pa)"
  using assms(2) by (intro cs.approver_spoke[OF assms(1) _ assms(3-5)]) (auto simp: status_of_def)

section \<open>Polling\<close>

lemma poll_update_frame:
  "po_offset (poll_update cfg ces p u) = (if up_UpdateID u \<ge> po_offset p then up_UpdateID u + 1 else po_offset p)"
  "map fst (po_log (poll_update cfg ces p u)) = map fst (po_log p) @ [u]"
  by (simp_all add: poll_update_def split_beta)

definition polled :: "'w tg_poll \<Rightarrow> bool" where
  "polled p \<longleftrightarrow> sorted_wrt (<) (map up_UpdateID (map fst (po_log p))) \<and> (\<forall>u \<in> set (map fst (po_log p)). up_UpdateID u < po_offset p)"

lemma polled_update: "polled p \<Longrightarrow> po_offset p \<le> up_UpdateID u \<Longrightarrow> polled (poll_update cfg ces p u)"
  unfolding polled_def poll_update_frame by (auto simp: sorted_wrt_append)

lemma polled_batch:
  "polled p \<Longrightarrow> sorted_wrt (<) (map up_UpdateID us) \<Longrightarrow> \<forall>u \<in> set us. po_offset p \<le> up_UpdateID u \<Longrightarrow>
     polled (foldl (poll_update cfg ces) p us) \<and> map fst (po_log (foldl (poll_update cfg ces) p us)) = map fst (po_log p) @ us"
proof (induction us arbitrary: p)
  case (Cons u us)
  let ?p = "poll_update cfg ces p u"
  have "polled ?p" using Cons.prems by (intro polled_update) simp_all
  moreover have "\<forall>v \<in> set us. po_offset ?p \<le> up_UpdateID v" using Cons.prems by (auto simp: poll_update_frame)
  ultimately show ?case using Cons.IH[of ?p] Cons.prems(2) by (simp add: poll_update_frame del: map_map)
qed simp

text \<open>
  Long polling handles an update once and in order: if the bot API answers, as documented, with increasing updates from the offset
  on, then after any number of rounds, failed ones included, the handled updates have strictly increasing numbers and every update the
  API delivered has been handled.
\<close>

theorem telegram_updates_handled_once:
  assumes "\<And>n off us. getUpdates n off = Some us \<Longrightarrow> sorted_wrt (<) (map up_UpdateID us) \<and> (\<forall>u \<in> set us. off \<le> up_UpdateID u)"
    and "po_log p = []" and q_def: "q = startPolling cfg ces getUpdates n p"
  shows "sorted_wrt (<) (map (up_UpdateID \<circ> fst) (po_log q)) \<and>
    (\<forall>u us. getUpdates n (po_offset q) = Some us \<and> u \<in> set us \<longrightarrow>
       u \<in> fst ` set (po_log (startPolling cfg ces getUpdates (Suc n) p)) \<and> u \<notin> fst ` set (po_log q))"
proof -
  have inv: "polled (startPolling cfg ces getUpdates n p)" for n
  proof (induction n)
    case 0
    then show ?case using assms(2) by (simp add: polled_def)
  next
    case (Suc n)
    then show ?case using assms(1) polled_batch[OF Suc] by (auto simp: Let_def split: option.split)
  qed
  have "u \<in> fst ` set (po_log (startPolling cfg ces getUpdates (Suc n) p)) \<and> u \<notin> fst ` set (po_log q)"
    if "getUpdates n (po_offset q) = Some us" "u \<in> set us" for u us
  proof -
    have "map fst (po_log (startPolling cfg ces getUpdates (Suc n) p)) = map fst (po_log q) @ us"
      using assms(1)[OF that(1)] polled_batch[OF inv[of n]] that(1) by (simp add: q_def)
    then have "u \<in> fst ` set (po_log (startPolling cfg ces getUpdates (Suc n) p))" using that(2) by (metis Un_iff set_append set_map)
    moreover have "u \<notin> fst ` set (po_log q)" using inv[of n] assms(1)[OF that(1)] that(2) by (fastforce simp: polled_def q_def)
    ultimately show ?thesis by blast
  qed
  with inv[of n] show ?thesis by (simp add: polled_def q_def comp_def)
qed

section \<open>Time stamps of Slack\<close>

definition digits_value :: "nat \<Rightarrow> string \<Rightarrow> nat" where
  "digits_value n s = foldl (\<lambda>n c. 10 * n + (of_char c - 48)) n s"

lemma sint_small: "n < 2 ^ 63 \<Longrightarrow> sint (of_nat n :: 64 word) = int n"
  by (simp add: sint_uint signed_take_bit_int_eq_self unsigned_of_nat take_bit_nat_eq_self)

lemma parse_digits_exact:
  "\<forall>c \<in> set s. 48 \<le> (of_char c :: nat) \<and> (of_char c :: nat) \<le> 57 \<Longrightarrow> n < 10 ^ m \<Longrightarrow> m + length s \<le> 17 \<Longrightarrow>
     parse_digits (of_nat n) s = Some (of_nat (digits_value n s)) \<and> digits_value n s < 10 ^ 17"
proof (induction s arbitrary: n m)
  case Nil
  have "(10::nat) ^ m \<le> 10 ^ 17" using Nil by (intro power_increasing) simp_all
  with Nil show ?case by (simp add: digits_value_def)
next
  case (Cons c s)
  let ?d = "of_char c :: nat"
  have d: "48 \<le> ?d" "?d \<le> 57" using Cons.prems(1) by simp_all
  let ?n = "10 * n + (?d - 48)"
  have n: "?n < 10 ^ Suc m" using Cons.prems(2) d by simp
  have "(10::nat) ^ Suc m \<le> 10 ^ 17" using Cons.prems(3) by (intro power_increasing) simp_all
  with n have "?n < 10 ^ 17" by simp
  then have "sint (of_nat ?n :: 64 word) = int ?n" by (intro sint_small) simp
  then have small: "\<not> (2 ^ 63 - 1) div 10 < sint (of_nat ?n :: 64 word)" using \<open>?n < 10 ^ 17\<close> by simp
  have sum: "of_nat n * 10 + of_nat (?d - 48) = (of_nat ?n :: 64 word)" by simp
  have digit: "\<not> (?d < 48 \<or> 57 < ?d)" using d by simp
  have "parse_digits (of_nat n) (c # s) = parse_digits (of_nat ?n) s" by (simp only: parse_digits.simps Let_def sum small digit if_False)
  moreover have "digits_value n (c # s) = digits_value ?n s" by (simp add: digits_value_def)
  ultimately show ?case using Cons.IH[OF _ n] Cons.prems by simp
qed

text \<open>
  A time stamp of at most seventeen digits (Slack's have ten) is read as the number it is, without overflow.
\<close>

theorem timestamp_exact:
  assumes "\<forall>c \<in> set s. 48 \<le> (of_char c :: nat) \<and> (of_char c :: nat) \<le> 57" "length s \<le> 17"
  shows "parseUnixTimestamp s = Some (int (digits_value 0 s) * Second)"
proof -
  have p: "parse_digits 0 s = Some (of_nat (digits_value 0 s))" "digits_value 0 s < 10 ^ 17"
    using parse_digits_exact[OF assms(1), of 0 0] assms(2) by simp_all
  then have "sint (of_nat (digits_value 0 s) :: 64 word) = int (digits_value 0 s)"
    by (intro sint_small) simp
  with p(1) show ?thesis by (simp add: parseUnixTimestamp_def)
qed

text \<open>
  The guard against overflow misses the product that wraps around to a negative number: nineteen digits are read as the smallest
  \<^verbatim>\<open>int64\<close>, and what follows them is read as if it stood alone.
\<close>

theorem timestamp_overflow_missed:
  "parseUnixTimestamp ''92233720368547758081700000000'' = Some (1700000000 * Second)"
  by (simp add: parseUnixTimestamp_def)

text \<open>
  A decision that is not \<^verbatim>\<open>deny\<close> approves, whatever it says.
\<close>

theorem unknown_decision_approves:
  assumes "d \<noteq> ''deny''"
  shows "decide ce d aid u g = decide ce ''approve'' aid u g"
  using assms by (simp add: decide_def split: option.split)

section \<open>Examples\<close>

definition demo_chat_env :: "nat chat_env" where
  "demo_chat_env = \<lparr>ce_now = (\<lambda>n. 5), ce_correlationID = ''c'', ce_NewSHA1 = (\<lambda>s. s), ce_newID = 9, ce_parse = (\<lambda>s. None),
     ce_env = PipelineRuns.demo_env 6, ce_envs = (\<lambda>i j. PipelineRuns.demo_env 6), ce_agent = AgentLoop.demo_agent, ce_approvalText = (\<lambda>e. [])\<rparr>"

definition demo_chat_config :: chat_config where
  "demo_chat_config = \<lparr>cc_telegram = \<lparr>tc_AllowedUsers = [7], tc_UserMapping = [''7'' \<mapsto> ''boss''], tc_PollTimeout = 0\<rparr>,
     cc_slack = \<lparr>sk_SigningSecret = ''s'', sk_UserMapping = Map.empty, sk_ApprovalChannel = []\<rparr>,
     cc_slackLib = \<lparr>sl_hmac = (\<lambda>k s. ''h''), sl_json = (\<lambda>s. None)\<rparr>, cc_signal = \<lparr>sg_AllowedUsers = [], sg_UserMapping = Map.empty\<rparr>\<rparr>"

definition demo_press :: "int \<Rightarrow> Update" where
  "demo_press i = \<lparr>up_UpdateID = 3, up_Message = None,
     up_CallbackQuery = Some \<lparr>cb_QueryID = ''q'', cb_From = Some i, cb_Message = None, cb_Data = ''approve:id''\<rparr>\<rparr>"

definition demo_chats :: "nat chats" where
  "demo_chats = \<lparr>cs_agent = demo_ready\<lparr>o_approvalMgr :=
     Some \<lparr>mgr_pending = [''id'' \<mapsto> demo_approved\<lparr>pa_Status := StatusPending, pa_ApprovedBy := [], pa_ResolvedAt := None\<rparr>], mgr_ttl = 100\<rparr>\<rparr>,
     cs_limiters = (\<lambda>k. None)\<rparr>"

lemma demo_speakers:
  "chats_speaker demo_chat_config (demo_chat_env, TelegramUpdate (demo_press 8)) = None"
  "chats_speaker demo_chat_config (demo_chat_env, TelegramUpdate (demo_press 7)) = Some ''boss''"
  "chats_speaker demo_chat_config (demo_chat_env, SignalEnvelope \<lparr>en_Source = ''1'', en_DataMessage = Some (''/approve id'', None)\<rparr>) = None"
proof -
  have "int_str 7 = ''7''" by code_simp
  then show "chats_speaker demo_chat_config (demo_chat_env, TelegramUpdate (demo_press 7)) = Some ''boss''"
    by (simp add: demo_chat_config_def demo_press_def telegram_speaker_def telegram_user_def)
qed (simp_all add: demo_chat_config_def demo_press_def telegram_speaker_def telegram_user_def signal_speaker_def)

theorem chat_strangers_change_nothing_witness:
  "fold (chats_handle demo_chat_config) [(demo_chat_env, TelegramUpdate (demo_press 8)),
     (demo_chat_env, SignalEnvelope \<lparr>en_Source = ''1'', en_DataMessage = Some (''/approve id'', None)\<rparr>)] demo_chats = demo_chats"
  by (rule chat_strangers_change_nothing) (simp add: demo_speakers del: chats_speaker.simps)

lemma demo_decision:
  "\<exists>am. chats_mgr (chats_handle demo_chat_config (demo_chat_env, TelegramUpdate (demo_press 7)) demo_chats) = Some am \<and>
     status_of (mgr_pending am) ''id'' = Some StatusApproved"
proof -
  define pa where "pa = demo_approved\<lparr>pa_Status := StatusPending, pa_ApprovedBy := [], pa_ResolvedAt := None\<rparr>"
  define pa' where "pa' = pa\<lparr>pa_Status := StatusApproved, pa_ApprovedBy := ''boss'', pa_ResolvedAt := Some 5\<rparr>"
  define am where "am = \<lparr>mgr_pending = [''id'' \<mapsto> pa'], mgr_ttl = 100\<rparr>"
  have exp: "5 \<le> pa_ExpiresAt demo_approved" by (simp add: demo_approved_def)
  have a: "Approve \<lparr>mgr_pending = [''id'' \<mapsto> pa], mgr_ttl = 100\<rparr> 5 ''id'' ''boss'' = (None, am)"
    using exp by (simp add: Approve_def resolve_def pa_def pa'_def am_def)
  let ?orc = "demo_ready\<lparr>o_approvalMgr := Some am\<rparr>"
  have pa': "mgr_pending am ''id'' = Some pa'" "pa_Status pa' = StatusApproved" by (simp_all add: am_def pa'_def)
  obtain r orc' where r: "ResumeWithApproval (PipelineRuns.demo_env 6) ?orc ''id'' = (r, orc')" by fastforce
  then have "resume_approved (PipelineRuns.demo_env 6) (noted (PipelineRuns.demo_env 6) ?orc pa') pa' = (r, orc')"
    using ResumeWithApproval_approved[of ?orc am "''id''" pa'] pa' by simp
  from resume_approved_frame[OF this] have m: "o_approvalMgr orc' = Some am" by simp
  have str: "int_str 7 = ''7''" "split_colon ''approve:id'' = Some (''approve'', ''id'')" by code_simp+
  have "chats_mgr (chats_handle demo_chat_config (demo_chat_env, TelegramUpdate (demo_press 7)) demo_chats) = o_approvalMgr orc'"
    using a r by (auto simp: in_chat_def telegram_handle_def processUpdate_def demo_press_def handleCallback_def demo_chat_config_def str decide_def
        demo_chats_def chats_mgr_def chat_mgr_def demo_chat_env_def pa_def Let_def split: sum.split)
  then show ?thesis using m pa' by (simp add: status_of_def)
qed

theorem chat_approver_spoke_witness:
  "\<exists>am pa. chats_mgr (fold (chats_handle demo_chat_config) [(demo_chat_env, TelegramUpdate (demo_press 7))] demo_chats) = Some am \<and>
     mgr_pending am ''id'' = Some pa \<and> pa_Status pa = StatusApproved \<and> pa_ApprovedBy pa = ''boss''"
proof -
  let ?es = "[(demo_chat_env, TelegramUpdate (demo_press 7))]"
  obtain am pa where m: "chats_mgr (fold (chats_handle demo_chat_config) ?es demo_chats) = Some am" "mgr_pending am ''id'' = Some pa"
      "pa_Status pa = StatusApproved"
    using demo_decision by (auto simp: status_of_def simp del: chats_handle.simps)
  obtain am0 where "chats_mgr demo_chats = Some am0" "status_of (mgr_pending am0) ''id'' \<noteq> Some StatusApproved"
    by (simp add: demo_chats_def chats_mgr_def status_of_def)
  from chat_approver_spoke[OF this m] have "pa_ApprovedBy pa = ''boss''" by (simp add: demo_speakers del: chats_speaker.simps)
  with m show ?thesis by blast
qed

definition demo_poll :: "nat tg_poll" where
  "demo_poll = \<lparr>po_offset = 0, po_chat = \<lparr>ch_limiter = None, ch_agent = cs_agent demo_chats\<rparr>, po_log = []\<rparr>"

definition demo_getUpdates :: "nat \<Rightarrow> int \<Rightarrow> Update list option" where
  "demo_getUpdates n off = (if off \<le> 3 then Some [demo_press 8] else Some [])"

theorem telegram_updates_handled_once_witness:
  "demo_press 8 \<in> fst ` set (po_log (startPolling (cc_telegram demo_chat_config) (\<lambda>i. demo_chat_env) demo_getUpdates (Suc 0) demo_poll))"
proof -
  let ?q = "startPolling (cc_telegram demo_chat_config) (\<lambda>i. demo_chat_env) demo_getUpdates 0 demo_poll"
  have "demo_getUpdates 0 (po_offset ?q) = Some [demo_press 8]" by (simp add: demo_poll_def demo_getUpdates_def)
  moreover have "sorted_wrt (<) (map up_UpdateID us) \<and> (\<forall>u \<in> set us. off \<le> up_UpdateID u)" if "demo_getUpdates n off = Some us" for n off us
    using that by (auto simp: demo_getUpdates_def demo_press_def split: if_splits)
  ultimately show ?thesis using telegram_updates_handled_once[of demo_getUpdates demo_poll ?q "cc_telegram demo_chat_config" "\<lambda>i. demo_chat_env" 0]
    by (simp add: demo_poll_def del: startPolling.simps(2))
qed

theorem timestamp_exact_witness: "parseUnixTimestamp ''1700000000'' = Some (1700000000 * Second)"
  using timestamp_exact[of "''1700000000''"] by (simp add: digits_value_def)

end
