(* ===== verification/HeartbeatTasks.thy ===== *)
theory HeartbeatTasks
  imports MessageText AgentLoop CronJobs PipelineRuns
begin

text \<open>
  Periodic tasks from Markdown files (\<^verbatim>\<open>internal/heartbeattask\<close>) with their repository (\<^verbatim>\<open>heartbeattask_repo.go\<close> and the conversions in
  \<^verbatim>\<open>convert.go\<close>): the loader of a task file, the poller that brings the files into the table, and the runner that executes due tasks
  through the agent, records the results and notifies.

  The file system is a record of functions: directories, file hashes and the lines of a file, with a flag for a reading
  error after them. The YAML decoder, the float and identifier parsers and the cron parser are parameters. Table rows have the flag of
  soft deletion; an inserted false for \<^verbatim>\<open>enabled\<close> takes the column's default, true. A Go panic in a task ends the program: the flag
  \<open>hr_crashed\<close>. The tasks of a tick run concurrently in Go, here one after the other; deadlines are not modelled.
\<close>

section \<open>Tasks, results and their tables\<close>

record HeartbeatTask =
  ht_ID :: uuid
  ht_OrgID :: uuid
  ht_Name :: string
  ht_Description :: string
  ht_SourceFile :: string
  ht_FileGroup :: string
  ht_CronExpression :: string
  ht_Mode :: string
  ht_UserID :: string
  ht_BudgetLimitUSD :: usd
  ht_NotificationChannelIDs :: "uuid list"
  ht_Enabled :: bool
  ht_NextRunAt :: "time option"
  ht_LastRunAt :: "time option"
  ht_LastStatus :: string
  ht_LastError :: string
  ht_LastResultSummary :: string
  ht_CreatedAt :: time
  ht_UpdatedAt :: time

record HeartbeatTaskResult =
  hs_ID :: uuid
  hs_OrgID :: uuid
  hs_TaskID :: uuid
  hs_Status :: string
  hs_Output :: string
  hs_OutputSummary :: string
  hs_TokensUsed :: int
  hs_CostUSD :: usd
  hs_DurationMS :: int
  hs_CorrelationID :: string
  hs_NotifiedVia :: "string list"
  hs_NotifyErrors :: "string list"
  hs_CreatedAt :: time

record hb_row =
  hb_task :: HeartbeatTask
  hb_deleted :: bool

definition hb_scope :: "uuid \<Rightarrow> hb_row \<Rightarrow> bool" where
  "hb_scope orgID r \<longleftrightarrow> ht_OrgID (hb_task r) = orgID \<and> \<not> hb_deleted r"

text \<open>The key of the unique index.\<close>

definition same_key :: "HeartbeatTask \<Rightarrow> HeartbeatTask \<Rightarrow> bool" where
  "same_key a b \<longleftrightarrow> ht_OrgID a = ht_OrgID b \<and> ht_FileGroup a = ht_FileGroup b \<and> ht_Name a = ht_Name b"

definition assign_columns :: "HeartbeatTask \<Rightarrow> HeartbeatTask \<Rightarrow> HeartbeatTask" where
  "assign_columns old t =
     old\<lparr>ht_Description := ht_Description t, ht_SourceFile := ht_SourceFile t, ht_CronExpression := ht_CronExpression t, ht_Mode := ht_Mode t,
         ht_UserID := ht_UserID t, ht_BudgetLimitUSD := ht_BudgetLimitUSD t, ht_NotificationChannelIDs := ht_NotificationChannelIDs t,
         ht_Enabled := True, ht_NextRunAt := ht_NextRunAt t, ht_UpdatedAt := ht_UpdatedAt t\<rparr>"

definition Upsert :: "hb_row list \<Rightarrow> HeartbeatTask \<Rightarrow> repo_error option \<times> hb_row list" where
  "Upsert rows t =
     (if \<exists>r \<in> set rows. same_key (hb_task r) t
      then (None, map (\<lambda>r. if same_key (hb_task r) t then r\<lparr>hb_task := assign_columns (hb_task r) t\<rparr> else r) rows)
      else if ht_ID t \<in> (\<lambda>r. ht_ID (hb_task r)) ` set rows then (Some DuplicateKey, rows)
      else (None, rows @ [\<lparr>hb_task = t\<lparr>ht_Enabled := True\<rparr>, hb_deleted = False\<rparr>]))"

definition Task_Get :: "hb_row list \<Rightarrow> uuid \<Rightarrow> uuid \<Rightarrow> repo_error + HeartbeatTask" where
  "Task_Get rows orgID i =
     (case find (\<lambda>r. hb_scope orgID r \<and> ht_ID (hb_task r) = i) rows of None \<Rightarrow> Inl RowNotFound | Some r \<Rightarrow> Inr (hb_task r))"

text \<open>\<open>rank\<close> is the order of texts in the database.\<close>

definition Task_List :: "(string \<Rightarrow> nat) \<Rightarrow> hb_row list \<Rightarrow> uuid \<Rightarrow> HeartbeatTask list" where
  "Task_List rank rows orgID =
     sort_key (rank \<circ> ht_FileGroup) (sort_key (rank \<circ> ht_Name) (map hb_task (filter (hb_scope orgID) rows)))"

definition delete_where :: "(hb_row \<Rightarrow> bool) \<Rightarrow> hb_row list \<Rightarrow> hb_row list" where
  "delete_where P rows = map (\<lambda>r. if P r then r\<lparr>hb_deleted := True\<rparr> else r) rows"

definition Task_Delete :: "hb_row list \<Rightarrow> uuid \<Rightarrow> uuid \<Rightarrow> hb_row list" where
  "Task_Delete rows orgID i = delete_where (\<lambda>r. hb_scope orgID r \<and> ht_ID (hb_task r) = i) rows"

definition DeleteByFileGroup :: "uuid \<Rightarrow> string \<Rightarrow> hb_row list \<Rightarrow> hb_row list" where
  "DeleteByFileGroup orgID fileGroup rows = delete_where (\<lambda>r. hb_scope orgID r \<and> ht_FileGroup (hb_task r) = fileGroup) rows"

definition hb_due :: "(uuid \<Rightarrow> bool) \<Rightarrow> uuid \<Rightarrow> time \<Rightarrow> hb_row \<Rightarrow> bool" where
  "hb_due locked orgID now r \<longleftrightarrow>
     hb_scope orgID r \<and> \<not> locked (ht_ID (hb_task r)) \<and> ht_Enabled (hb_task r) \<and>
     (case ht_NextRunAt (hb_task r) of None \<Rightarrow> False | Some t \<Rightarrow> t \<le> now)"

definition GetDueTasks :: "(uuid \<Rightarrow> bool) \<Rightarrow> hb_row list \<Rightarrow> uuid \<Rightarrow> time \<Rightarrow> HeartbeatTask list" where
  "GetDueTasks locked rows orgID now = map hb_task (filter (hb_due locked orgID now) rows)"

definition recorded :: "time \<Rightarrow> time \<Rightarrow> string \<Rightarrow> string \<Rightarrow> string \<Rightarrow> HeartbeatTask \<Rightarrow> HeartbeatTask" where
  "recorded now nextRunAt status lastError resultSummary t =
     t\<lparr>ht_LastRunAt := Some now, ht_LastStatus := status, ht_LastError := lastError, ht_LastResultSummary := resultSummary,
       ht_NextRunAt := Some nextRunAt, ht_UpdatedAt := now\<rparr>"

definition Task_RecordExecution :: "time \<Rightarrow> hb_row list \<Rightarrow> uuid \<Rightarrow> time \<Rightarrow> string \<Rightarrow> string \<Rightarrow> string \<Rightarrow> hb_row list" where
  "Task_RecordExecution now rows i nextRunAt status lastError resultSummary =
     map (\<lambda>r. if ht_ID (hb_task r) = i \<and> \<not> hb_deleted r
              then r\<lparr>hb_task := recorded now nextRunAt status lastError resultSummary (hb_task r)\<rparr> else r) rows"

definition Result_Append :: "HeartbeatTaskResult list \<Rightarrow> HeartbeatTaskResult \<Rightarrow> repo_error option \<times> HeartbeatTaskResult list" where
  "Result_Append results res =
     (if hs_ID res \<in> hs_ID ` set results then (Some DuplicateKey, results) else (None, results @ [res]))"

definition limit_rows :: "int \<Rightarrow> 'a list \<Rightarrow> 'a list" where
  "limit_rows n xs = (if n < 0 then xs else take (nat n) xs)"

definition Result_ListByTask :: "HeartbeatTaskResult list \<Rightarrow> uuid \<Rightarrow> uuid \<Rightarrow> int \<Rightarrow> HeartbeatTaskResult list" where
  "Result_ListByTask results orgID taskID n =
     limit_rows n (rev (sort_key hs_CreatedAt (filter (\<lambda>x. hs_OrgID x = orgID \<and> hs_TaskID x = taskID) results)))"

definition Result_ListRecent :: "HeartbeatTaskResult list \<Rightarrow> uuid \<Rightarrow> int \<Rightarrow> HeartbeatTaskResult list" where
  "Result_ListRecent results orgID n = limit_rows n (rev (sort_key hs_CreatedAt (filter (\<lambda>x. hs_OrgID x = orgID) results)))"

section \<open>Loader\<close>

record HeartbeatTaskFile =
  hf_Name :: string
  hf_Description :: string
  hf_UserID :: string
  hf_DefaultCron :: string
  hf_DefaultBudgetUSD :: usd
  hf_NotificationChannelIDs :: "string list"
  hf_Enabled :: bool

record ParsedTask =
  pt_Name :: string
  pt_Mode :: string
  pt_CronExpression :: string
  pt_BudgetUSD :: usd
  pt_Prompt :: string

datatype task_file_error =
    OpeningFile
  | EmptyFile
  | MissingFrontmatter
  | UnclosedFrontmatter
  | ParsingFrontmatter
  | ReadingFile
  | FileNameRequired
  | TaskNameRequired nat
  | BadMode string string
  | PromptRequired string

record hb_lib =
  hl_dir :: "string \<Rightarrow> (string \<times> bool) list option"
  hl_hash :: "string \<Rightarrow> string option"
  hl_file :: "string \<Rightarrow> (string list \<times> bool) option"
  hl_yaml :: "string \<Rightarrow> HeartbeatTaskFile option"
  hl_ParseFloat :: "string \<Rightarrow> usd option"
  hl_parse :: "string \<Rightarrow> uuid option"
  hl_next :: "string \<Rightarrow> time \<Rightarrow> time option"
  hl_clk :: "string \<Rightarrow> nat \<Rightarrow> time"
  hl_newID :: "string \<Rightarrow> nat \<Rightarrow> uuid"

fun Join :: "string list \<Rightarrow> string" where
  "Join [] = []"
| "Join [x] = x"
| "Join (x # y # xs) = x @ newline @ Join (y # xs)"

definition TrimQuotes :: "string \<Rightarrow> string" where
  "TrimQuotes s =
     (let q = (\<lambda>c. c = CHR 0x22 \<or> c = CHR 0x27) in rev (dropWhile q (rev (dropWhile q s))))"

record parse_state =
  ps_tasks :: "ParsedTask list"
  ps_mode :: string
  ps_current :: "ParsedTask option"
  ps_prompt :: "string list"

definition flush_task :: "parse_state \<Rightarrow> parse_state" where
  "flush_task s =
     (case ps_current s of
        None \<Rightarrow> s
      | Some t \<Rightarrow>
          s\<lparr>ps_tasks := ps_tasks s @ [t\<lparr>pt_Prompt := TrimSpace (Join (ps_prompt s)), pt_Mode := (if pt_Mode t = [] then ps_mode s else pt_Mode t)\<rparr>],
            ps_current := None, ps_prompt := []\<rparr>)"

definition parse_line :: "(string \<Rightarrow> usd option) \<Rightarrow> parse_state \<Rightarrow> string \<Rightarrow> parse_state" where
  "parse_line pf s line =
     (let trimmed = TrimSpace line
      in if HasPrefix trimmed ''## ''
         then let s = flush_task s; heading = ToLower (drop 3 trimmed)
              in if Contains heading ''quick'' then s\<lparr>ps_mode := ''quick''\<rparr>
                 else if Contains heading ''long'' then s\<lparr>ps_mode := ''long''\<rparr> else s
         else if HasPrefix trimmed ''### ''
         then (flush_task s)\<lparr>ps_current := Some \<lparr>pt_Name = TrimSpace (drop 4 trimmed), pt_Mode = [], pt_CronExpression = [],
                pt_BudgetUSD = 0, pt_Prompt = []\<rparr>, ps_prompt := []\<rparr>
         else case ps_current s of
                None \<Rightarrow> s
              | Some t \<Rightarrow>
                  if HasPrefix trimmed ''- cron:''
                  then s\<lparr>ps_current := Some (t\<lparr>pt_CronExpression := TrimQuotes (TrimSpace (drop 7 trimmed))\<rparr>)\<rparr>
                  else if HasPrefix trimmed ''- mode:'' then s\<lparr>ps_current := Some (t\<lparr>pt_Mode := TrimSpace (drop 7 trimmed)\<rparr>)\<rparr>
                  else if HasPrefix trimmed ''- budget_usd:''
                  then (case pf (TrimSpace (drop 13 trimmed)) of None \<Rightarrow> s | Some b \<Rightarrow> s\<lparr>ps_current := Some (t\<lparr>pt_BudgetUSD := b\<rparr>)\<rparr>)
                  else s\<lparr>ps_prompt := ps_prompt s @ [line]\<rparr>)"

definition parseTasks :: "(string \<Rightarrow> usd option) \<Rightarrow> string list \<Rightarrow> ParsedTask list" where
  "parseTasks pf lines =
     ps_tasks (flush_task (foldl (parse_line pf) \<lparr>ps_tasks = [], ps_mode = ''quick'', ps_current = None, ps_prompt = []\<rparr> lines))"

text \<open>The lines up to the closing mark and the lines after it.\<close>

fun front_matter :: "string list \<Rightarrow> (string list \<times> string list) option" where
  "front_matter [] = None"
| "front_matter (line # lines) =
     (if TrimSpace line = ''---'' then Some ([], lines) else map_option (\<lambda>(fm, body). (line # fm, body)) (front_matter lines))"

definition ParseFile :: "hb_lib \<Rightarrow> string \<Rightarrow> task_file_error + HeartbeatTaskFile \<times> ParsedTask list" where
  "ParseFile lib path =
     (case hl_file lib path of
        None \<Rightarrow> Inl OpeningFile
      | Some ([], failed) \<Rightarrow> Inl EmptyFile
      | Some (l # lines, failed) \<Rightarrow>
          if TrimSpace l \<noteq> ''---'' then Inl MissingFrontmatter
          else case front_matter lines of
                 None \<Rightarrow> Inl UnclosedFrontmatter
               | Some (fm, body) \<Rightarrow>
                   (case hl_yaml lib (Join fm) of
                      None \<Rightarrow> Inl ParsingFrontmatter
                    | Some file \<Rightarrow> if failed then Inl ReadingFile else Inr (file, parseTasks (hl_ParseFloat lib) body)))"

fun validate_tasks :: "nat \<Rightarrow> ParsedTask list \<Rightarrow> task_file_error option" where
  "validate_tasks i [] = None"
| "validate_tasks i (t # ts) =
     (if pt_Name t = [] then Some (TaskNameRequired i)
      else if pt_Mode t \<noteq> ''quick'' \<and> pt_Mode t \<noteq> ''long'' then Some (BadMode (pt_Name t) (pt_Mode t))
      else if pt_Prompt t = [] then Some (PromptRequired (pt_Name t))
      else validate_tasks (Suc i) ts)"

definition Loader_Validate :: "HeartbeatTaskFile \<Rightarrow> ParsedTask list \<Rightarrow> task_file_error option" where
  "Loader_Validate file tasks = (if hf_Name file = [] then Some FileNameRequired else validate_tasks 0 tasks)"

section \<open>Poller\<close>

record TaskPollerConfig =
  tp_TasksDirs :: "string list"
  tp_OrgID :: uuid
  tp_DefaultUser :: string

text \<open>The table and the file states: path, hash and file group.\<close>

record hb_poller =
  hp_rows :: "hb_row list"
  hp_states :: "(string \<times> string \<times> string) list"

definition task_cron :: "HeartbeatTaskFile \<Rightarrow> ParsedTask \<Rightarrow> string" where
  "task_cron file t = (if pt_CronExpression t = [] then hf_DefaultCron file else pt_CronExpression t)"

definition task_budget :: "HeartbeatTaskFile \<Rightarrow> ParsedTask \<Rightarrow> usd" where
  "task_budget file t =
     (let budget = (if pt_BudgetUSD t \<le> 0 then hf_DefaultBudgetUSD file else pt_BudgetUSD t) in if budget \<le> 0 then 1 / 2 else budget)"

definition file_task ::
  "hb_lib \<Rightarrow> TaskPollerConfig \<Rightarrow> string \<Rightarrow> HeartbeatTaskFile \<Rightarrow> nat \<Rightarrow> time \<Rightarrow> ParsedTask \<Rightarrow> HeartbeatTask" where
  "file_task lib cfg path file i nextRun t =
     \<lparr>ht_ID = hl_newID lib path i, ht_OrgID = tp_OrgID cfg, ht_Name = pt_Name t, ht_Description = pt_Prompt t, ht_SourceFile = path,
      ht_FileGroup = hf_Name file, ht_CronExpression = task_cron file t, ht_Mode = pt_Mode t,
      ht_UserID = (if hf_UserID file = [] then tp_DefaultUser cfg else hf_UserID file), ht_BudgetLimitUSD = task_budget file t,
      ht_NotificationChannelIDs = List.map_filter (hl_parse lib) (hf_NotificationChannelIDs file), ht_Enabled = hf_Enabled file,
      ht_NextRunAt = Some nextRun, ht_LastRunAt = None, ht_LastStatus = [], ht_LastError = [], ht_LastResultSummary = [],
      ht_CreatedAt = hl_clk lib path i, ht_UpdatedAt = hl_clk lib path i\<rparr>"

definition upsert_task ::
  "hb_lib \<Rightarrow> TaskPollerConfig \<Rightarrow> string \<Rightarrow> HeartbeatTaskFile \<Rightarrow> nat \<Rightarrow> ParsedTask \<Rightarrow> hb_row list \<Rightarrow> hb_row list" where
  "upsert_task lib cfg path file i t rows =
     (if task_cron file t = [] then rows
      else case ComputeNextRunFrom (hl_next lib) (task_cron file t) (hl_clk lib path i) of
             Inl e \<Rightarrow> rows
           | Inr nextRun \<Rightarrow> snd (Upsert rows (file_task lib cfg path file i nextRun t)))"

fun upsert_tasks ::
  "hb_lib \<Rightarrow> TaskPollerConfig \<Rightarrow> string \<Rightarrow> HeartbeatTaskFile \<Rightarrow> nat \<Rightarrow> ParsedTask list \<Rightarrow> hb_row list \<Rightarrow> hb_row list" where
  "upsert_tasks lib cfg path file i [] rows = rows"
| "upsert_tasks lib cfg path file i (t # ts) rows = upsert_tasks lib cfg path file (Suc i) ts (upsert_task lib cfg path file i t rows)"

definition parsed_file :: "hb_lib \<Rightarrow> string \<Rightarrow> (HeartbeatTaskFile \<times> ParsedTask list) option" where
  "parsed_file lib path =
     (case ParseFile lib path of
        Inl e \<Rightarrow> None
      | Inr (file, tasks) \<Rightarrow> (case Loader_Validate file tasks of Some e \<Rightarrow> None | None \<Rightarrow> Some (file, tasks)))"

definition syncFile :: "hb_lib \<Rightarrow> TaskPollerConfig \<Rightarrow> string \<Rightarrow> string \<Rightarrow> hb_poller \<Rightarrow> hb_poller" where
  "syncFile lib cfg path hash p =
     (case parsed_file lib path of
        None \<Rightarrow> p
      | Some (file, tasks) \<Rightarrow>
          p\<lparr>hp_rows := upsert_tasks lib cfg path file 0 tasks (hp_rows p), hp_states := AList.update path (hash, hf_Name file) (hp_states p)\<rparr>)"

definition HasSuffix :: "string \<Rightarrow> string \<Rightarrow> bool" where
  "HasSuffix s p = HasPrefix (rev s) (rev p)"

text \<open>The paths of the task files, in the order of the scan; directories are configured in clean form.\<close>

definition task_paths :: "hb_lib \<Rightarrow> TaskPollerConfig \<Rightarrow> string list" where
  "task_paths lib cfg =
     concat (map (\<lambda>dir. case hl_dir lib dir of
        None \<Rightarrow> []
      | Some entries \<Rightarrow> map (\<lambda>(name, isDir). dir @ ''/'' @ name) (filter (\<lambda>(name, isDir). \<not> isDir \<and> HasSuffix name ''.md'') entries))
        (tp_TasksDirs cfg))"

definition sync_entry :: "hb_lib \<Rightarrow> TaskPollerConfig \<Rightarrow> hb_poller \<Rightarrow> string \<Rightarrow> hb_poller" where
  "sync_entry lib cfg p path =
     (case hl_hash lib path of
        None \<Rightarrow> p
      | Some hash \<Rightarrow>
          if map_option fst (map_of (hp_states p) path) = Some hash then p else syncFile lib cfg path hash p)"

definition syncAll :: "hb_lib \<Rightarrow> TaskPollerConfig \<Rightarrow> hb_poller \<Rightarrow> hb_poller" where
  "syncAll lib cfg p =
     (let seen = task_paths lib cfg; p = foldl (sync_entry lib cfg) p seen;
          gone = filter (\<lambda>st. fst st \<notin> set seen) (hp_states p)
      in p\<lparr>hp_rows := fold (\<lambda>st. DeleteByFileGroup (tp_OrgID cfg) (snd (snd st))) gone (hp_rows p),
           hp_states := filter (\<lambda>st. fst st \<in> set seen) (hp_states p)\<rparr>)"

section \<open>Runner\<close>

record 'w hb_outside =
  hx_next :: "string \<Rightarrow> time \<Rightarrow> time option"
  hx_texts :: texts
  hx_agent :: "'w Agent"
  hx_envs :: "nat \<Rightarrow> nat \<Rightarrow> env"
  hx_parse :: "string \<Rightarrow> uuid option"
  hx_convID :: uuid
  hx_errText :: "process_error \<Rightarrow> string"
  hx_notifyText :: "notify_error \<Rightarrow> string"
  hx_clk :: "nat \<Rightarrow> time"
  hx_corr :: string
  hx_resultID :: uuid
  hx_orgID :: uuid

record ('w, 'd) hb_runner =
  hr_rows :: "hb_row list"
  hr_results :: "HeartbeatTaskResult list"
  hr_agent :: "'w Orchestrator"
  hr_audit :: AuditLogger
  hr_dispatcher :: "'d Dispatcher option"
  hr_proactive :: bool
  hr_crashed :: bool

definition truncate_text :: "string \<Rightarrow> nat \<Rightarrow> string" where
  "truncate_text s maxLen =
     (if length s \<le> maxLen then s else if maxLen \<le> 3 then take maxLen s else take (maxLen - 3) s @ ''...'')"

definition truncateProactiveOutput :: "string \<Rightarrow> nat \<Rightarrow> string" where
  "truncateProactiveOutput s maxLen = (if length s \<le> maxLen then s else take maxLen s @ newline @ ''... [truncated]'')"

definition classifySeverity :: "string \<Rightarrow> string" where
  "classifySeverity output =
     (let lower = ToLower output
      in if list_ex (Contains lower) [''critical'', ''fatal'', ''panic'', ''oom'', ''out of memory'', ''disk full''] then ''critical''
         else if list_ex (Contains lower) [''error'', ''failed'', ''timeout'', ''unreachable'', ''down''] then ''high''
         else ''medium'')"

definition proactive_message :: "string \<Rightarrow> string \<Rightarrow> NotifyMessage" where
  "proactive_message taskName output =
     \<lparr>nm_Subject = ''Alert: '' @ taskName @ '' '' @ [CHR 0xE2, CHR 0x80, CHR 0x94] @ '' Issue Detected'',
      nm_Body = ''Proactive Alert: '' @ taskName @ '' detected an issue.'' @ newline @ newline @ ''Initial findings:'' @ newline @
        truncateProactiveOutput output 500 @ newline @ newline @ ''Awaiting human guidance.'',
      nm_Metadata = [(''source'', ''heartbeat_proactive''), (''task_name'', taskName), (''severity'', classifySeverity output)]\<rparr>"

text \<open>
  The first component says that the handler panicked: it calls \<^verbatim>\<open>Error\<close> on every entry of the map that \<^verbatim>\<open>Notify\<close> returned, and the
  entry of a channel that was notified is nil.
\<close>

definition HandleFailure ::
  "'w hb_outside \<Rightarrow> 'd Dispatcher \<Rightarrow> string \<Rightarrow> string \<Rightarrow> string \<Rightarrow> uuid list \<Rightarrow> bool \<times> 'd Dispatcher" where
  "HandleFailure hx d taskName output userID channelIDs =
     (if channelIDs = [] then (False, d)
      else let (errs, d) = Notify (hx_texts hx) (\<lambda>i. hx_clk hx (i + 20)) d (hx_orgID hx) channelIDs (proactive_message taskName output) userID
           in (\<exists>x \<in> set errs. snd x = None, d))"

definition result_message :: "'w hb_outside \<Rightarrow> HeartbeatTask \<Rightarrow> HeartbeatTaskResult \<Rightarrow> NotifyMessage" where
  "result_message hx task res =
     \<lparr>nm_Subject = ''Heartbeat Task: '' @ ht_Name task @ '' ['' @ hs_Status res @ '']'',
      nm_Body = ''Task: '' @ ht_Name task @ newline @ ''Status: '' @ hs_Status res @ newline @ ''Duration: '' @ int_str (hs_DurationMS res) @ ''ms'' @
        newline @ newline @ hs_OutputSummary res,
      nm_Metadata = [(''task_id'', tx_uuid (hx_texts hx) (ht_ID task)), (''task_name'', ht_Name task), (''status'', hs_Status res),
        (''correlation_id'', hs_CorrelationID res)]\<rparr>"

definition notify_result ::
  "'w hb_outside \<Rightarrow> 'd Dispatcher \<Rightarrow> HeartbeatTask \<Rightarrow> HeartbeatTaskResult \<Rightarrow> HeartbeatTaskResult \<times> 'd Dispatcher" where
  "notify_result hx d task res =
     (let (errs, d) = Notify (hx_texts hx) (\<lambda>i. hx_clk hx (i + 40)) d (hx_orgID hx) (ht_NotificationChannelIDs task) (result_message hx task res) (ht_UserID task)
      in (res\<lparr>hs_NotifiedVia := [tx_uuid (hx_texts hx) i. (i, None) \<leftarrow> errs],
              hs_NotifyErrors := [tx_uuid (hx_texts hx) i @ '': '' @ hx_notifyText hx e. (i, Some e) \<leftarrow> errs]\<rparr>, d))"

definition task_event :: "'w hb_outside \<Rightarrow> time \<Rightarrow> HeartbeatTask \<Rightarrow> params \<Rightarrow> string \<Rightarrow> int \<Rightarrow> string \<Rightarrow> AuditEvent" where
  "task_event hx now task ps result tokens errMsg =
     \<lparr>ev_Timestamp = now, ev_CorrelationID = hx_corr hx, ev_UserID = ht_UserID task, ev_Action = ''heartbeat_task.fire'',
      ev_Tool = ''heartbeat_task_runner'',
      ev_Parameters = [(''task_id'', AStr (tx_uuid (hx_texts hx) (ht_ID task))), (''task_name'', AStr (ht_Name task)), (''file_group'', AStr (ht_FileGroup task))] @ ps,
      ev_Result = result, ev_TokensUsed = tokens, ev_CostUSD = 0, ev_ApprovedBy = [], ev_Error = errMsg\<rparr>"

definition hb_log :: "AuditEvent \<Rightarrow> ('w, 'd) hb_runner \<Rightarrow> ('w, 'd) hb_runner" where
  "hb_log ev s = s\<lparr>hr_audit := snd (AuditLogger_LogAction (hr_audit s) ev)\<rparr>"

definition next_run :: "'w hb_outside \<Rightarrow> HeartbeatTask \<Rightarrow> time" where
  "next_run hx task =
     (case ComputeNextRunFrom (hx_next hx) (ht_CronExpression task) (hx_clk hx 2) of Inl e \<Rightarrow> hx_clk hx 3 + 5 * Minute | Inr t \<Rightarrow> t)"

definition task_result :: "'w hb_outside \<Rightarrow> HeartbeatTask \<Rightarrow> process_error + Response \<Rightarrow> HeartbeatTaskResult" where
  "task_result hx task r =
     (let base = \<lparr>hs_ID = hx_resultID hx, hs_OrgID = ht_OrgID task, hs_TaskID = ht_ID task, hs_Status = [], hs_Output = [], hs_OutputSummary = [],
            hs_TokensUsed = 0, hs_CostUSD = 0, hs_DurationMS = (hx_clk hx 4 - hx_clk hx 0) div 1000000, hs_CorrelationID = hx_corr hx,
            hs_NotifiedVia = [], hs_NotifyErrors = [], hs_CreatedAt = hx_clk hx 5\<rparr>
      in case r of
           Inl e \<Rightarrow> base\<lparr>hs_Status := ''failure'', hs_Output := hx_errText hx e, hs_OutputSummary := truncate_text (hx_errText hx e) 500\<rparr>
         | Inr resp \<Rightarrow> base\<lparr>hs_Status := ''success'', hs_Output := rp_Message resp, hs_OutputSummary := truncate_text (rp_Message resp) 500,
             hs_TokensUsed := rp_TokensUsed resp\<rparr>)"

text \<open>The notifications at the end; after a panic there is no second one.\<close>

definition notify_phase :: "'w hb_outside \<Rightarrow> HeartbeatTask \<Rightarrow> HeartbeatTaskResult \<Rightarrow> ('w, 'd) hb_runner \<Rightarrow> ('w, 'd) hb_runner" where
  "notify_phase hx task res s =
     (case hr_dispatcher s of
        None \<Rightarrow> s
      | Some d \<Rightarrow>
          if ht_NotificationChannelIDs task = [] then s
          else let (crash, d) = (if hs_Status res = ''failure'' \<and> hr_proactive s
                                 then HandleFailure hx d (ht_Name task) (hs_Output res) (ht_UserID task) (ht_NotificationChannelIDs task)
                                 else (False, d))
               in if crash then s\<lparr>hr_dispatcher := Some d, hr_crashed := True\<rparr>
                  else s\<lparr>hr_dispatcher := Some (snd (notify_result hx d task res))\<rparr>)"

definition Runner_executeTask :: "'w hb_outside \<Rightarrow> HeartbeatTask \<Rightarrow> ('w, 'd) hb_runner \<Rightarrow> ('w, 'd) hb_runner" where
  "Runner_executeTask hx task s =
     (let s = hb_log (task_event hx (hx_clk hx 1) task [(''mode'', AStr (ht_Mode task)), (''cron_expression'', AStr (ht_CronExpression task))] ''intent'' 0 []) s;
          (r, orc) = Process (hx_envs hx) (hx_parse hx) (hx_convID hx) (hx_agent hx) (hr_agent s)
             \<lparr>in_UserID = ht_UserID task, in_Message = ht_Description task, in_CorrelationID = hx_corr hx, in_ConversationID = []\<rparr>;
          res = task_result hx task r;
          s = s\<lparr>hr_agent := orc, hr_results := snd (Result_Append (hr_results s) res),
                hr_rows := Task_RecordExecution (hx_clk hx 6) (hr_rows s) (ht_ID task) (next_run hx task) (hs_Status res) (hs_OutputSummary res) (hs_OutputSummary res)\<rparr>;
          s = hb_log (task_event hx (hx_clk hx 7) task [] (case r of Inl e \<Rightarrow> ''failure'' | Inr _ \<Rightarrow> ''success'') (hs_TokensUsed res)
                (case r of Inl e \<Rightarrow> hx_errText hx e | Inr _ \<Rightarrow> [])) s
      in notify_phase hx task res s)"

fun run_tasks :: "(nat \<Rightarrow> 'w hb_outside) \<Rightarrow> HeartbeatTask list \<Rightarrow> ('w, 'd) hb_runner \<Rightarrow> ('w, 'd) hb_runner" where
  "run_tasks hxs [] s = s"
| "run_tasks hxs (task # tasks) s =
     (if hr_crashed s then s else run_tasks (\<lambda>i. hxs (Suc i)) tasks (Runner_executeTask (hxs 0) task s))"

definition Runner_tick :: "(uuid \<Rightarrow> bool) \<Rightarrow> uuid \<Rightarrow> time \<Rightarrow> (nat \<Rightarrow> 'w hb_outside) \<Rightarrow> ('w, 'd) hb_runner \<Rightarrow> ('w, 'd) hb_runner" where
  "Runner_tick locked orgID now hxs s = run_tasks hxs (GetDueTasks locked (hr_rows s) orgID now) s"

section \<open>Polling the files again changes nothing\<close>

definition settled :: "hb_lib \<Rightarrow> hb_poller \<Rightarrow> string \<Rightarrow> bool" where
  "settled lib p path \<longleftrightarrow> hl_hash lib path = None \<or> parsed_file lib path = None \<or> map_option fst (map_of (hp_states p) path) = hl_hash lib path"

lemma sync_settled: "settled lib p path \<Longrightarrow> sync_entry lib cfg p path = p"
  by (auto simp: settled_def sync_entry_def syncFile_def split: option.split)

lemma sync_entry_settles: "settled lib (sync_entry lib cfg p path) path"
  by (auto simp: settled_def sync_entry_def syncFile_def AList.update_conv' split: option.split)

lemma sync_entry_keeps: "settled lib p q \<Longrightarrow> settled lib (sync_entry lib cfg p path) q"
  by (auto simp: settled_def sync_entry_def syncFile_def AList.update_conv' split: option.split if_splits)

lemma sync_all_settles: "\<forall>q \<in> set paths. settled lib (foldl (sync_entry lib cfg) p paths) q"
proof (induction paths rule: rev_induct)
  case (snoc path paths)
  then show ?case using sync_entry_settles sync_entry_keeps by simp
qed simp

lemma sync_all_same: "\<forall>q \<in> set paths. settled lib p q \<Longrightarrow> foldl (sync_entry lib cfg) p paths = p"
  by (induction paths) (simp_all add: sync_settled)

lemma map_of_filter_key: "x \<in> S \<Longrightarrow> map_of (filter (\<lambda>st. fst st \<in> S) xs) x = map_of xs x"
  by (induction xs) auto

text \<open>The files as they are, at other times and with other fresh identifiers.\<close>

definition same_files :: "hb_lib \<Rightarrow> hb_lib \<Rightarrow> bool" where
  "same_files lib lib' \<longleftrightarrow> (\<exists>clk newID. lib' = lib\<lparr>hl_clk := clk, hl_newID := newID\<rparr>)"

lemma ParseFile_clock: "ParseFile (lib\<lparr>hl_clk := clk, hl_newID := newID\<rparr>) path = ParseFile lib path"
  by (simp add: ParseFile_def split: option.split list.split prod.split)

lemma same_files_parsed: "same_files lib lib' \<Longrightarrow> parsed_file lib' = parsed_file lib \<and> hl_hash lib' = hl_hash lib \<and> task_paths lib' cfg = task_paths lib cfg"
  by (auto simp: same_files_def fun_eq_iff parsed_file_def ParseFile_clock task_paths_def)

text \<open>
  Synchronising is idempotent: as long as the task files stay as they are, a further scan leaves the table and the file states alone. Next
  runs are not reset, and files that cannot be read or are invalid change nothing however often they are tried.
\<close>

theorem task_sync_idempotent:
  assumes "same_files lib lib'"
  shows "syncAll lib' cfg (syncAll lib cfg p) = syncAll lib cfg p"
proof -
  let ?seen = "task_paths lib cfg" and ?p = "syncAll lib cfg p"
  note same = same_files_parsed[OF assms]
  have "settled lib' ?p q" if "q \<in> set ?seen" for q
  proof -
    have "settled lib (foldl (sync_entry lib cfg) p ?seen) q" using sync_all_settles that by blast
    then show ?thesis using that same by (auto simp: settled_def syncAll_def Let_def map_of_filter_key)
  qed
  then have "foldl (sync_entry lib' cfg) ?p ?seen = ?p" by (simp add: sync_all_same)
  moreover have "filter (\<lambda>st. fst st \<notin> set ?seen) (hp_states ?p) = []" "filter (\<lambda>st. fst st \<in> set ?seen) (hp_states ?p) = hp_states ?p"
    by (auto simp: syncAll_def Let_def filter_empty_conv)
  ultimately show ?thesis unfolding syncAll_def[of lib' cfg ?p] using same by (simp add: Let_def)
qed

section \<open>A tick executes every due task once\<close>

lemma hb_log_frame [simp]:
  "hr_rows (hb_log ev s) = hr_rows s" "hr_results (hb_log ev s) = hr_results s" "hr_crashed (hb_log ev s) = hr_crashed s"
  by (simp_all add: hb_log_def)

lemma notify_phase_frame [simp]:
  "hr_rows (notify_phase hx t res s) = hr_rows s" "hr_results (notify_phase hx t res s) = hr_results s"
  by (simp_all add: notify_phase_def Let_def split: option.split prod.split)

lemma executeTask_frame:
  "\<exists>res status summary. hr_results (Runner_executeTask hx t s) = snd (Result_Append (hr_results s) res) \<and> hs_ID res = hx_resultID hx \<and> hs_TaskID res = ht_ID t \<and>
     hr_rows (Runner_executeTask hx t s) = Task_RecordExecution (hx_clk hx 6) (hr_rows s) (ht_ID t) (next_run hx t) status summary summary"
proof -
  let ?orc = "Process (hx_envs hx) (hx_parse hx) (hx_convID hx) (hx_agent hx) (hr_agent s)
             \<lparr>in_UserID = ht_UserID t, in_Message = ht_Description t, in_CorrelationID = hx_corr hx, in_ConversationID = []\<rparr>"
  obtain r orc where r: "?orc = (r, orc)" by fastforce
  have agent: "hr_agent (hb_log ev s) = hr_agent s" for ev by (simp add: hb_log_def)
  have "hs_ID (task_result hx t r) = hx_resultID hx" "hs_TaskID (task_result hx t r) = ht_ID t" by (simp_all add: task_result_def Let_def split: sum.split)
  then show ?thesis using r by (auto simp: Runner_executeTask_def Let_def agent)
qed

lemma next_run_later:
  assumes "\<forall>e t t'. hx_next hx e t = Some t' \<longrightarrow> t < t'" "\<forall>i. now \<le> hx_clk hx i"
  shows "now < next_run hx t"
proof -
  have "now \<le> hx_clk hx 2" "now \<le> hx_clk hx 3" using assms(2) by blast+
  then show ?thesis using assms(1) by (fastforce simp: next_run_def ComputeNextRunFrom_def split: option.split)
qed

text \<open>A row after the tasks with the given identifiers were executed, all after the time \<open>now\<close>.\<close>

definition executed_row :: "time \<Rightarrow> uuid set \<Rightarrow> hb_row \<Rightarrow> hb_row \<Rightarrow> bool" where
  "executed_row now ids r r' \<longleftrightarrow>
     hb_deleted r' = hb_deleted r \<and> ht_ID (hb_task r') = ht_ID (hb_task r) \<and>
     (if ht_ID (hb_task r) \<in> ids \<and> \<not> hb_deleted r then \<exists>t > now. ht_NextRunAt (hb_task r') = Some t else r' = r)"

lemma executed_row_step:
  assumes "executed_row now ids (if ht_ID (hb_task r) = i \<and> \<not> hb_deleted r then r\<lparr>hb_task := recorded a t st e m (hb_task r)\<rparr> else r) r'" "now < t"
  shows "executed_row now (insert i ids) r r'"
  using assms by (auto simp: executed_row_def recorded_def split: if_splits)

lemma run_tasks_rows:
  assumes "\<forall>i e t t'. hx_next (hxs i) e t = Some t' \<longrightarrow> t < t'" "\<forall>i j. now \<le> hx_clk (hxs i) j" "\<not> hr_crashed (run_tasks hxs ts s)"
  shows "list_all2 (executed_row now (ht_ID ` set ts)) (hr_rows s) (hr_rows (run_tasks hxs ts s))"
  using assms
proof (induction ts arbitrary: hxs s)
  case Nil
  show ?case by (auto simp: executed_row_def intro!: list_all2_refl)
next
  case (Cons t ts)
  obtain status summary where rows: "hr_rows (Runner_executeTask (hxs 0) t s) =
      Task_RecordExecution (hx_clk (hxs 0) 6) (hr_rows s) (ht_ID t) (next_run (hxs 0) t) status summary summary"
    using executeTask_frame[of "hxs 0" t s] by blast
  have nc: "\<not> hr_crashed s" using Cons.prems(3) by (auto split: if_splits)
  have later: "now < next_run (hxs 0) t" using Cons.prems(1,2) by (intro next_run_later) blast+
  have "list_all2 (executed_row now (ht_ID ` set ts)) (hr_rows (Runner_executeTask (hxs 0) t s))
      (hr_rows (run_tasks (\<lambda>i. hxs (Suc i)) ts (Runner_executeTask (hxs 0) t s)))"
    using Cons.prems nc by (intro Cons.IH) auto
  then have "list_all2 (executed_row now (insert (ht_ID t) (ht_ID ` set ts))) (hr_rows s)
      (hr_rows (run_tasks (\<lambda>i. hxs (Suc i)) ts (Runner_executeTask (hxs 0) t s)))"
    unfolding rows Task_RecordExecution_def list_all2_map1 by (rule list_all2_mono) (rule executed_row_step[OF _ later])
  then show ?case using nc by simp
qed

lemma run_tasks_results:
  assumes "\<not> hr_crashed (run_tasks hxs ts s)" "distinct (map hs_ID (hr_results s) @ map (\<lambda>i. hx_resultID (hxs i)) [0..<length ts])"
  shows "\<exists>new. hr_results (run_tasks hxs ts s) = hr_results s @ new \<and> map hs_TaskID new = map ht_ID ts"
  using assms
proof (induction ts arbitrary: hxs s)
  case (Cons t ts)
  let ?s = "Runner_executeTask (hxs 0) t s"
  obtain res where res: "hr_results ?s = snd (Result_Append (hr_results s) res)" "hs_ID res = hx_resultID (hxs 0)" "hs_TaskID res = ht_ID t"
    using executeTask_frame[of "hxs 0" t s] by blast
  have ids: "map (\<lambda>i. hx_resultID (hxs i)) [0..<length (t # ts)] = hx_resultID (hxs 0) # map (\<lambda>i. hx_resultID (hxs (Suc i))) [0..<length ts]"
    by (simp add: upt_conv_Cons map_Suc_upt[symmetric] comp_def del: upt_Suc)
  have fresh: "hs_ID res \<notin> hs_ID ` set (hr_results s)" using Cons.prems(2) unfolding ids by (auto simp: res(2))
  then have rs: "hr_results ?s = hr_results s @ [res]" by (simp add: res(1) Result_Append_def)
  have nc: "\<not> hr_crashed s" "\<not> hr_crashed (run_tasks (\<lambda>i. hxs (Suc i)) ts ?s)" using Cons.prems(1) by (auto split: if_splits)
  have "distinct (map hs_ID (hr_results ?s) @ map (\<lambda>i. hx_resultID (hxs (Suc i))) [0..<length ts])"
    using Cons.prems(2) unfolding ids rs by (auto simp: res(2))
  from Cons.IH[OF nc(2) this] obtain new where "hr_results (run_tasks (\<lambda>i. hxs (Suc i)) ts ?s) = hr_results ?s @ new" "map hs_TaskID new = map ht_ID ts" by blast
  then show ?case using nc rs res(3) by (intro exI[of _ "res # new"]) simp
qed simp


section \<open>Behaviours that contradict the comments\<close>

text \<open>An alert about a failed task that reaches a channel ends the program.\<close>

lemma Notify_single: "Notify tx clk d org [i] msg u = ([(i, fst (notify_one tx (clk 0) d org msg u i))], snd (notify_one tx (clk 0) d org msg u i))"
  by (simp add: Notify_def split_beta)

theorem delivered_alert_panics:
  assumes "hr_dispatcher s = Some d" "hr_proactive s" "hs_Status res = ''failure''" "ht_NotificationChannelIDs task = [i]"
    and "Channel_Get (d_store d) (hx_orgID hx) i = Inr ch" "nc_Enabled ch" "map_of (d_senders d) (nc_ChannelType ch) = Some sender"
    and "fst (sender (d_world d) ch (proactive_message (ht_Name task) (hs_Output res))) = None"
  shows "hr_crashed (notify_phase hx task res s)"
proof -
  have "fst (notify_one (hx_texts hx) (hx_clk hx 20) d (hx_orgID hx) (proactive_message (ht_Name task) (hs_Output res)) (ht_UserID task) i) = None"
    using assms(5-8) by (cases "sender (d_world d) ch (proactive_message (ht_Name task) (hs_Output res))") (simp add: notify_one_def)
  then show ?thesis using assms(1-4) by (simp add: notify_phase_def HandleFailure_def Notify_single Let_def)
qed

text \<open>A task whose file disappeared once is never executed again, even if the file comes back: its row stays deleted.\<close>

theorem upsert_keeps_deleted:
  assumes "\<exists>r \<in> set rows. same_key (hb_task r) t" "r' \<in> set (snd (Upsert (DeleteByFileGroup (ht_OrgID t) (ht_FileGroup t) rows) t))" "same_key (hb_task r') t"
  shows "hb_deleted r'"
proof -
  let ?rows = "DeleteByFileGroup (ht_OrgID t) (ht_FileGroup t) rows"
  have del: "hb_deleted r" if "r \<in> set ?rows" "same_key (hb_task r) t" for r
    using that by (auto simp: DeleteByFileGroup_def delete_where_def same_key_def hb_scope_def split: if_splits)
  have "map hb_task ?rows = map hb_task rows" by (simp add: DeleteByFileGroup_def delete_where_def)
  then have "hb_task ` set ?rows = hb_task ` set rows" by (metis list.set_map)
  with assms(1) have ex: "\<exists>r \<in> set ?rows. same_key (hb_task r) t" by (metis image_iff)
  then have "snd (Upsert ?rows t) = map (\<lambda>r. if same_key (hb_task r) t then r\<lparr>hb_task := assign_columns (hb_task r) t\<rparr> else r) ?rows"
    by (simp add: Upsert_def)
  with assms(2) obtain r where r: "r \<in> set ?rows" "r' = (if same_key (hb_task r) t then r\<lparr>hb_task := assign_columns (hb_task r) t\<rparr> else r)" by auto
  then show ?thesis using del assms(3) by (cases "same_key (hb_task r) t") auto
qed

text \<open>
  A file state whose path was not seen deletes all tasks of its group, also those that another file of the group has just brought in: a
  task file that is renamed loses its tasks, and a directory that cannot be read loses the tasks of all its files.
\<close>

lemma states_keep: "st \<in> set (hp_states p) \<Longrightarrow> fst st \<noteq> path \<Longrightarrow> st \<in> set (hp_states (sync_entry lib cfg p path))"
proof -
  have "st \<in> set (AList.update path v xs)" if "st \<in> set xs" "fst st \<noteq> path" for v xs using that by (induction xs) auto
  then show "st \<in> set (hp_states p) \<Longrightarrow> fst st \<noteq> path \<Longrightarrow> st \<in> set (hp_states (sync_entry lib cfg p path))"
    by (auto simp: sync_entry_def syncFile_def split: option.split)
qed

lemma states_keep_all: "st \<in> set (hp_states p) \<Longrightarrow> fst st \<notin> set paths \<Longrightarrow> st \<in> set (hp_states (foldl (sync_entry lib cfg) p paths))"
  by (induction paths arbitrary: p) (auto simp: states_keep)

lemma deleted_row:
  assumes "r \<in> set (DeleteByFileGroup org g rows)"
  obtains q where "q \<in> set rows" "r = (if hb_scope org q \<and> ht_FileGroup (hb_task q) = g then q\<lparr>hb_deleted := True\<rparr> else q)"
  using assms by (auto simp only: DeleteByFileGroup_def delete_where_def set_map)

lemma group_deleted:
  assumes "st \<in> set gone" "r \<in> set (fold (\<lambda>st. DeleteByFileGroup org (snd (snd st))) gone rows)" "ht_OrgID (hb_task r) = org" "ht_FileGroup (hb_task r) = snd (snd st)"
  shows "hb_deleted r"
  using assms
proof (induction gone arbitrary: r rule: rev_induct)
  case (snoc x xs)
  let ?rows = "fold (\<lambda>st. DeleteByFileGroup org (snd (snd st))) xs rows"
  have "r \<in> set (DeleteByFileGroup org (snd (snd x)) ?rows)" using snoc.prems(2) by simp
  then obtain q where q: "q \<in> set ?rows"
      "r = (if hb_scope org q \<and> ht_FileGroup (hb_task q) = snd (snd x) then q\<lparr>hb_deleted := True\<rparr> else q)"
    by (rule deleted_row)
  have same: "hb_task r = hb_task q" "hb_deleted q \<Longrightarrow> hb_deleted r" using q(2) by auto
  show ?case
  proof (cases "st \<in> set xs")
    case True
    then show ?thesis using snoc.IH[OF True q(1)] snoc.prems(3,4) same by simp
  next
    case False
    then have "x = st" using snoc.prems(1) by simp
    then show ?thesis using q(2) snoc.prems(3,4) same by (auto simp: hb_scope_def)
  qed
qed simp

theorem unseen_path_deletes_group:
  assumes "(path, hash, grp) \<in> set (hp_states p)" "path \<notin> set (task_paths lib cfg)"
    and "r \<in> set (hp_rows (syncAll lib cfg p))" "ht_OrgID (hb_task r) = tp_OrgID cfg" "ht_FileGroup (hb_task r) = grp"
  shows "hb_deleted r"
proof -
  let ?p = "foldl (sync_entry lib cfg) p (task_paths lib cfg)"
  have "(path, hash, grp) \<in> set (filter (\<lambda>st. fst st \<notin> set (task_paths lib cfg)) (hp_states ?p))" using states_keep_all[OF assms(1)] assms(2) by simp
  from group_deleted[OF this] assms(3-5) show ?thesis by (simp add: syncAll_def Let_def)
qed

text \<open>The answer of a successful run is stored as the last error, too.\<close>

theorem success_stored_as_error:
  assumes "r \<in> set (hr_rows (Runner_executeTask hx t s))" "ht_ID (hb_task r) = ht_ID t" "\<not> hb_deleted r"
  shows "ht_LastError (hb_task r) = ht_LastResultSummary (hb_task r)"
proof -
  obtain status summary where "hr_rows (Runner_executeTask hx t s) = Task_RecordExecution (hx_clk hx 6) (hr_rows s) (ht_ID t) (next_run hx t) status summary summary"
    using executeTask_frame by blast
  then show ?thesis using assms by (auto simp: Task_RecordExecution_def recorded_def split: if_splits)
qed

text \<open>The channels that were notified are filled in after the result was stored.\<close>

theorem notified_channels_not_stored:
  "\<exists>res. hr_results (Runner_executeTask hx t s) = snd (Result_Append (hr_results s) res) \<and> hs_NotifiedVia res = [] \<and> hs_NotifyErrors res = []"
proof -
  have "hs_NotifiedVia (task_result hx t r) = []" "hs_NotifyErrors (task_result hx t r) = []" for r by (simp_all add: task_result_def Let_def split: sum.split)
  then show ?thesis by (auto simp: Runner_executeTask_def Let_def split_beta)
qed

text \<open>A file that says \<^verbatim>\<open>enabled: false\<close> gives enabled tasks.\<close>

theorem disabled_file_enabled:
  assumes "Upsert rows t = (None, rows')" "r \<in> set rows'" "same_key (hb_task r) t"
  shows "ht_Enabled (hb_task r)"
  using assms by (auto simp: Upsert_def same_key_def assign_columns_def split: if_splits)

section \<open>Examples\<close>

definition demo_lib :: hb_lib where
  "demo_lib = \<lparr>hl_dir = (\<lambda>d. Some [(''a.md'', False)]), hl_hash = (\<lambda>p. Some ''h''),
     hl_file = (\<lambda>p. Some ([''---'', ''name: g'', ''---'', ''### t'', ''do it''], False)),
     hl_yaml = (\<lambda>s. Some \<lparr>hf_Name = ''g'', hf_Description = [], hf_UserID = [], hf_DefaultCron = ''@daily'', hf_DefaultBudgetUSD = 0,
       hf_NotificationChannelIDs = [], hf_Enabled = True\<rparr>),
     hl_ParseFloat = (\<lambda>s. None), hl_parse = (\<lambda>s. None), hl_next = (\<lambda>e t. Some (t + 60)), hl_clk = (\<lambda>p i. 0), hl_newID = (\<lambda>p i. 7)\<rparr>"

definition demo_tp :: TaskPollerConfig where
  "demo_tp = \<lparr>tp_TasksDirs = [''d''], tp_OrgID = 1, tp_DefaultUser = ''system''\<rparr>"

definition demo_synced :: hb_poller where
  "demo_synced = syncAll demo_lib demo_tp \<lparr>hp_rows = [], hp_states = []\<rparr>"

theorem task_sync_idempotent_witness:
  "map (ht_Description \<circ> hb_task) (hp_rows demo_synced) = [''do it''] \<and> syncAll (demo_lib\<lparr>hl_clk := \<lambda>p i. 9, hl_newID := \<lambda>p i. 8\<rparr>) demo_tp demo_synced = demo_synced"
proof
  show "map (ht_Description \<circ> hb_task) (hp_rows demo_synced) = [''do it'']" by code_simp
  show "syncAll (demo_lib\<lparr>hl_clk := \<lambda>p i. 9, hl_newID := \<lambda>p i. 8\<rparr>) demo_tp demo_synced = demo_synced"
    unfolding demo_synced_def by (rule task_sync_idempotent) (auto simp: same_files_def)
qed

definition demo_hx :: "nat hb_outside" where
  "demo_hx = \<lparr>hx_next = (\<lambda>e t. Some (t + 60)), hx_texts = Notification.demo_texts, hx_agent = AgentLoop.demo_agent, hx_envs = (\<lambda>i j. PipelineRuns.demo_env 6),
     hx_parse = (\<lambda>s. None), hx_convID = 9, hx_errText = (\<lambda>e. []), hx_notifyText = (\<lambda>e. []), hx_clk = (\<lambda>i. 70), hx_corr = ''c'', hx_resultID = 3, hx_orgID = 1\<rparr>"

definition demo_runner :: "(nat, unit) hb_runner" where
  "demo_runner = \<lparr>hr_rows = hp_rows demo_synced, hr_results = [], hr_agent = PipelineRuns.demo_orc, hr_audit = \<lparr>audit_events = [], audit_writable = True\<rparr>,
     hr_dispatcher = None, hr_proactive = True, hr_crashed = False\<rparr>"

lemma executeTask_quiet: "hr_dispatcher s = None \<Longrightarrow> hr_crashed (Runner_executeTask hx t s) = hr_crashed s"
  by (simp add: Runner_executeTask_def Let_def notify_phase_def hb_log_def split_beta)


end
