(* ===== verification/ConversationRepo.thy ===== *)
theory ConversationRepo
  imports Conversation
begin

text \<open>
  The conversation tables (\<^verbatim>\<open>storage/postgres/conversation_repo.go\<close>, \<^verbatim>\<open>convert_conversation.go\<close>) and that they do what the in-memory store of
  \<open>Conversation\<close> does. A table is a list of rows in the order of their insertion, a JSON column holds the decoded value
  (\<open>None\<close> for NULL), a transaction is one step. Row identifiers are fresh and passed in.
\<close>

section \<open>Rows and conversions\<close>

record ConversationModel =
  co_ID :: uuid
  co_OrgID :: uuid
  co_UserID :: string
  co_CreatedAt :: time
  co_UpdatedAt :: time

record ConversationMessageModel =
  cm_ID :: uuid
  cm_ConversationID :: uuid
  cm_OrgID :: uuid
  cm_SeqNum :: int
  cm_Role :: string
  cm_Content :: string
  cm_ContentBlocks :: "ContentBlock list option"
  cm_TokenEstimate :: int
  cm_CreatedAt :: time

record conv_db =
  cd_convs :: "ConversationModel list"
  cd_msgs :: "ConversationMessageModel list"

definition sanitizeRole :: "MsgRole \<Rightarrow> string" where
  "sanitizeRole role = (case role of RoleUser \<Rightarrow> ''user'' | RoleAssistant \<Rightarrow> ''assistant'')"

text \<open>A stored role as a role: the columns are written by \<^verbatim>\<open>sanitizeRole\<close> only.\<close>

definition stored_role :: "string \<Rightarrow> MsgRole" where
  "stored_role s = (if s = ''assistant'' then RoleAssistant else RoleUser)"

definition row_estimateTokens :: "string \<Rightarrow> int" where
  "row_estimateTokens s = (let n = int (length s) div 4 in if n = 0 \<and> length s > 0 then 1 else n)"

definition toConversationMessageModel :: "time \<Rightarrow> uuid \<Rightarrow> uuid \<Rightarrow> uuid \<Rightarrow> int \<Rightarrow> Message \<Rightarrow> ConversationMessageModel" where
  "toConversationMessageModel now newID convID orgID seqNum msg =
     \<lparr>cm_ID = newID, cm_ConversationID = convID, cm_OrgID = orgID, cm_SeqNum = seqNum, cm_Role = sanitizeRole (m_Role msg),
      cm_Content = TextContent msg, cm_ContentBlocks = (if length (m_ContentBlocks msg) > 0 then Some (m_ContentBlocks msg) else None),
      cm_TokenEstimate = row_estimateTokens (TextContent msg), cm_CreatedAt = now\<rparr>"

definition toMessage :: "ConversationMessageModel \<Rightarrow> Message" where
  "toMessage m =
     (case cm_ContentBlocks m of
        Some (b # bs) \<Rightarrow> \<lparr>m_Role = stored_role (cm_Role m), m_Content = [], m_ContentBlocks = b # bs\<rparr>
      | _ \<Rightarrow> \<lparr>m_Role = stored_role (cm_Role m), m_Content = cm_Content m, m_ContentBlocks = []\<rparr>)"

section \<open>Operations\<close>

datatype conv_db_error = ConvError conv_error | CreatingConversation | InsertingMessages

definition DB_GetOrCreateConversation :: "time \<Rightarrow> conv_db \<Rightarrow> uuid \<Rightarrow> string \<Rightarrow> uuid \<Rightarrow> (conv_db_error + uuid) \<times> conv_db" where
  "DB_GetOrCreateConversation now db orgID userID convID =
     (case find (\<lambda>c. co_OrgID c = orgID \<and> co_ID c = convID) (cd_convs db) of
        Some c \<Rightarrow>
          if co_UserID c \<noteq> userID then (Inl (ConvError DifferentUser), db)
          else (Inr (co_ID c), db\<lparr>cd_convs := map (\<lambda>r. if co_ID r = co_ID c then r\<lparr>co_UpdatedAt := now\<rparr> else r) (cd_convs db)\<rparr>)
      | None \<Rightarrow>
          if convID \<in> co_ID ` set (cd_convs db) then (Inl CreatingConversation, db)
          else (Inr convID, db\<lparr>cd_convs := cd_convs db @ [\<lparr>co_ID = convID, co_OrgID = orgID, co_UserID = userID, co_CreatedAt = now, co_UpdatedAt = now\<rparr>]\<rparr>))"

definition conv_rows :: "uuid \<Rightarrow> conv_db \<Rightarrow> ConversationMessageModel list" where
  "conv_rows convID db = filter (\<lambda>m. cm_ConversationID m = convID) (cd_msgs db)"

definition max_seq :: "uuid \<Rightarrow> conv_db \<Rightarrow> int" where
  "max_seq convID db = fold (\<lambda>m n. max (cm_SeqNum m) n) (conv_rows convID db) 0"

fun new_rows :: "time \<Rightarrow> uuid \<Rightarrow> uuid \<Rightarrow> int \<Rightarrow> (uuid \<times> Message) list \<Rightarrow> ConversationMessageModel list" where
  "new_rows now convID orgID seq [] = []"
| "new_rows now convID orgID seq ((i, msg) # msgs) =
     toConversationMessageModel now i convID orgID (seq + 1) msg # new_rows now convID orgID (seq + 1) msgs"

definition DB_AppendMessages :: "time \<Rightarrow> conv_db \<Rightarrow> uuid \<Rightarrow> uuid \<Rightarrow> (uuid \<times> Message) list \<Rightarrow> conv_db_error option \<times> conv_db" where
  "DB_AppendMessages now db convID orgID msgs =
     (if length msgs = 0 then (None, db)
      else let rows = new_rows now convID orgID (max_seq convID db) msgs
           in if distinct (map cm_ID (cd_msgs db @ rows)) then (None, db\<lparr>cd_msgs := cd_msgs db @ rows\<rparr>) else (Some InsertingMessages, db))"

text \<open>\<^verbatim>\<open>ORDER BY seq_num DESC\<close>\<close>

definition newest_first :: "ConversationMessageModel list \<Rightarrow> ConversationMessageModel list" where
  "newest_first rows = rev (sort_key cm_SeqNum rows)"

definition DB_LoadHistory :: "conv_db \<Rightarrow> uuid \<Rightarrow> int \<Rightarrow> Message list" where
  "DB_LoadHistory db convID maxMessages =
     (let mx = (if maxMessages \<le> 0 then DefaultMaxHistoryMessages else maxMessages)
      in map toMessage (rev (take (nat mx) (newest_first (conv_rows convID db)))))"

fun first_replaced :: "string \<Rightarrow> string \<Rightarrow> bool \<Rightarrow> ConversationMessageModel list \<Rightarrow> (uuid \<times> ContentBlock list) option" where
  "first_replaced toolUseID newContent isError [] = None"
| "first_replaced toolUseID newContent isError (m # ms) =
     (case Option.bind (cm_ContentBlocks m) (replace_block toolUseID newContent isError) of
        Some bs \<Rightarrow> Some (cm_ID m, bs)
      | None \<Rightarrow> first_replaced toolUseID newContent isError ms)"

definition structured_rows :: "uuid \<Rightarrow> conv_db \<Rightarrow> ConversationMessageModel list" where
  "structured_rows convID db = newest_first (filter (\<lambda>m. cm_ContentBlocks m \<noteq> None) (conv_rows convID db))"

definition DB_ReplaceToolResult :: "conv_db \<Rightarrow> uuid \<Rightarrow> string \<Rightarrow> string \<Rightarrow> bool \<Rightarrow> conv_db_error option \<times> conv_db" where
  "DB_ReplaceToolResult db convID toolUseID newContent isError =
     (case first_replaced toolUseID newContent isError (take 20 (structured_rows convID db)) of
        None \<Rightarrow> (Some (ConvError (ToolResultNotFound toolUseID)), db)
      | Some (i, bs) \<Rightarrow>
          (None, db\<lparr>cd_msgs := map (\<lambda>m. if cm_ID m = i then m\<lparr>cm_ContentBlocks := Some bs, cm_Content := newContent\<rparr> else m) (cd_msgs db)\<rparr>))"

definition DB_DeleteConversation :: "conv_db \<Rightarrow> uuid \<Rightarrow> conv_db" where
  "DB_DeleteConversation db convID =
     \<lparr>cd_convs = filter (\<lambda>c. co_ID c \<noteq> convID) (cd_convs db), cd_msgs = filter (\<lambda>m. cm_ConversationID m \<noteq> convID) (cd_msgs db)\<rparr>"

section \<open>The two stores agree\<close>

text \<open>
  What the agent stores: text or blocks, not both.
\<close>

definition storable :: "Message \<Rightarrow> bool" where
  "storable m \<longleftrightarrow> m_ContentBlocks m = [] \<or> m_Content m = []"

lemma message_round_trip: "storable m \<Longrightarrow> toMessage (toConversationMessageModel now i c org n m) = m"
  by (cases m, cases "m_ContentBlocks m")
    (auto simp: storable_def toMessage_def toConversationMessageModel_def sanitizeRole_def stored_role_def TextContent_def split: MsgRole.split)

text \<open>The simulation: owners agree, and the rows of a conversation are its messages, numbered from one.\<close>

definition conv_sim :: "uuid \<Rightarrow> conv_db \<Rightarrow> InMemoryConversationStore \<Rightarrow> bool" where
  "conv_sim org db s \<longleftrightarrow>
     (\<forall>c \<in> set (cd_convs db). co_OrgID c = org) \<and> distinct (map co_ID (cd_convs db)) \<and> distinct (map cm_ID (cd_msgs db)) \<and>
     cs_owners s = map_of (map (\<lambda>c. (co_ID c, co_UserID c)) (cd_convs db)) \<and> (\<forall>m \<in> set (cd_msgs db). cm_ContentBlocks m \<noteq> Some []) \<and>
     (\<forall>c. cs_owners s c = None \<longrightarrow> conv_rows c db = []) \<and>
     (\<forall>c. map toMessage (conv_rows c db) = hist_of s c \<and> map cm_SeqNum (conv_rows c db) = map (\<lambda>i. int i + 1) [0..<length (conv_rows c db)])"

lemma sort_key_same: "sorted (map f xs) \<Longrightarrow> sort_key f xs = xs"
  by (induction xs) (auto intro: insort_is_Cons)

lemma seq_sorted: "map cm_SeqNum rows = map (\<lambda>i. int i + 1) [0..<n] \<Longrightarrow> sorted (map cm_SeqNum rows)"
  by (simp add: sorted_map sorted_wrt_iff_nth_less)

lemma newest_first_rev: "map cm_SeqNum rows = map (\<lambda>i. int i + 1) [0..<n] \<Longrightarrow> newest_first (filter P rows) = rev (filter P rows)"
  unfolding newest_first_def using sort_key_same[OF sorted_filter[OF seq_sorted]] by blast

lemma newest_first_all: "map cm_SeqNum rows = map (\<lambda>i. int i + 1) [0..<n] \<Longrightarrow> newest_first rows = rev rows"
  using newest_first_rev[of rows n "\<lambda>m. True"] by simp

lemma owner_find: "map_of (map (\<lambda>c. (co_ID c, co_UserID c)) cs) i = map_option co_UserID (find (\<lambda>c. co_ID c = i) cs)"
  by (induction cs) auto

lemma map_of_snoc: "map_of xs c = None \<Longrightarrow> map_of (xs @ [(c, u)]) = (map_of xs)(c \<mapsto> u)"
  by (auto simp: fun_eq_iff map_add_def split: option.split)

lemma touched_row [simp]:
  "co_ID (if b then r\<lparr>co_UpdatedAt := now\<rparr> else r) = co_ID r" "co_UserID (if b then r\<lparr>co_UpdatedAt := now\<rparr> else r) = co_UserID r"
  "co_OrgID (if b then r\<lparr>co_UpdatedAt := now\<rparr> else r) = co_OrgID r"
  by simp_all

lemma conv_rows_convs [simp]: "conv_rows c (db\<lparr>cd_convs := x\<rparr>) = conv_rows c db"
  by (simp add: conv_rows_def)

lemma find_in_org: "\<forall>c \<in> set cs. co_OrgID c = org \<Longrightarrow> find (\<lambda>c. co_OrgID c = org \<and> co_ID c = i) cs = find (\<lambda>c. co_ID c = i) cs"
  by (induction cs) auto

lemma sim_get:
  assumes "conv_sim org db s"
  shows "fst (DB_GetOrCreateConversation now db org u c) = map_sum ConvError id (fst (GetOrCreateConversation s u c)) \<and>
    conv_sim org (snd (DB_GetOrCreateConversation now db org u c)) (snd (GetOrCreateConversation s u c))"
proof (cases "find (\<lambda>x. co_ID x = c) (cd_convs db)")
  case None
  then have new: "c \<notin> co_ID ` set (cd_convs db)" by (auto simp: find_None_iff)
  have own: "cs_owners s c = None" using assms None by (simp add: conv_sim_def owner_find)
  have org: "\<forall>x \<in> set (cd_convs db). co_OrgID x = org" using assms by (simp add: conv_sim_def)
  let ?row = "\<lparr>co_ID = c, co_OrgID = org, co_UserID = u, co_CreatedAt = now, co_UpdatedAt = now\<rparr>"
  have "DB_GetOrCreateConversation now db org u c = (Inr c, db\<lparr>cd_convs := cd_convs db @ [?row]\<rparr>)"
    using None new org by (simp add: DB_GetOrCreateConversation_def find_in_org)
  moreover have "map_of (map (\<lambda>c. (co_ID c, co_UserID c)) (cd_convs db @ [?row])) = (cs_owners s)(c \<mapsto> u)"
  proof -
    have "cs_owners s = map_of (map (\<lambda>c. (co_ID c, co_UserID c)) (cd_convs db))" using assms by (simp add: conv_sim_def)
    then show ?thesis using map_of_snoc[of "map (\<lambda>c. (co_ID c, co_UserID c)) (cd_convs db)" c u] own by simp
  qed
  moreover have "conv_rows c db = []" "hist_of s c = []" using assms own by (auto simp: conv_sim_def dest: spec[of _ c])
  ultimately show ?thesis using assms own new by (auto simp: GetOrCreateConversation_def conv_sim_def hist_of_def)
next
  case (Some x)
  then have x: "x \<in> set (cd_convs db)" "co_ID x = c" by (auto simp: find_Some_iff)
  have own: "cs_owners s c = Some (co_UserID x)" using assms Some by (simp add: conv_sim_def owner_find)
  have org: "\<forall>x \<in> set (cd_convs db). co_OrgID x = org" using assms by (simp add: conv_sim_def)
  show ?thesis
  proof (cases "co_UserID x = u")
    case True
    then have "DB_GetOrCreateConversation now db org u c =
        (Inr c, db\<lparr>cd_convs := map (\<lambda>r. if co_ID r = c then r\<lparr>co_UpdatedAt := now\<rparr> else r) (cd_convs db)\<rparr>)"
      using Some x org by (simp add: DB_GetOrCreateConversation_def find_in_org)
    then show ?thesis using assms own True by (auto simp: GetOrCreateConversation_def conv_sim_def comp_def)
  next
    case False
    then show ?thesis using Some org own assms by (simp add: DB_GetOrCreateConversation_def find_in_org GetOrCreateConversation_def)
  qed
qed

text \<open>Loading.\<close>

lemma last_rows: "rev (take n (rev xs)) = last_n n xs"
  by (simp add: last_n_def take_rev)

lemma sim_rows:
  assumes "conv_sim org db s"
  shows "map toMessage (conv_rows c db) = hist_of s c" "map cm_SeqNum (conv_rows c db) = map (\<lambda>i. int i + 1) [0..<length (conv_rows c db)]"
    "length (conv_rows c db) = length (hist_of s c)"
proof -
  show r: "map toMessage (conv_rows c db) = hist_of s c" using assms by (simp add: conv_sim_def)
  show "map cm_SeqNum (conv_rows c db) = map (\<lambda>i. int i + 1) [0..<length (conv_rows c db)]" using assms by (simp add: conv_sim_def)
  show "length (conv_rows c db) = length (hist_of s c)" using arg_cong[OF r, of length] by simp
qed

lemma sim_load:
  assumes "conv_sim org db s" "0 < mx"
  shows "DB_LoadHistory db c mx = LoadHistory s c mx"
proof -
  have "DB_LoadHistory db c mx = map toMessage (last_n (nat mx) (conv_rows c db))"
    using assms(2) by (simp add: DB_LoadHistory_def newest_first_all[OF sim_rows(2)[OF assms(1)]] last_rows)
  also have "\<dots> = last_n (nat mx) (hist_of s c)"
    by (simp add: last_n_def drop_map flip: sim_rows(1)[OF assms(1)])
  finally show ?thesis using assms(2) by (auto simp: LoadHistory_def Let_def last_n_def)
qed

text \<open>Appending.\<close>

lemma new_rows_facts:
  "map cm_ID (new_rows now c org n ims) = map fst ims"
  "filter (\<lambda>m. cm_ConversationID m = d) (new_rows now c org n ims) = (if d = c then new_rows now c org n ims else [])"
  "map cm_SeqNum (new_rows now c org n ims) = map (\<lambda>i. n + int i + 1) [0..<length ims]"
  "list_all (storable \<circ> snd) ims \<Longrightarrow> map toMessage (new_rows now c org n ims) = map snd ims"
  "m \<in> set (new_rows now c org n ims) \<Longrightarrow> cm_ContentBlocks m \<noteq> Some []"
proof (induction now c org n ims rule: new_rows.induct)
  case IH: (2 now c org n i msg ims)
  {
    case 1 then show ?case using IH by (simp add: toConversationMessageModel_def)
  next
    case 2 then show ?case using IH(2) by (auto simp: toConversationMessageModel_def)
  next
    case 3 then show ?case using IH(3) by (simp add: toConversationMessageModel_def upt_conv_Cons map_Suc_upt[symmetric] del: upt_Suc)
  next
    case 4 then show ?case using IH(4) by (simp add: message_round_trip)
  next
    case 5 then show ?case using IH(5) by (auto simp: toConversationMessageModel_def split: if_splits)
  }
qed simp_all

lemma length_new_rows: "length (new_rows now c org n ims) = length ims"
  using arg_cong[OF new_rows_facts(1), of length] by simp

lemma max_seq_sim:
  assumes "conv_sim org db s"
  shows "max_seq c db = int (length (conv_rows c db))"
proof -
  have f: "fold (\<lambda>m n. max (cm_SeqNum m) n) rows k = fold max (map cm_SeqNum rows) k" for rows and k :: int
    by (induction rows arbitrary: k) auto
  have "fold max (map (\<lambda>i. int i + 1) [0..<n]) 0 = int n" for n :: nat
    by (induction n) auto
  then show ?thesis unfolding max_seq_def f sim_rows(2)[OF assms] by simp
qed

lemma seq_append: "map (\<lambda>i. int i + 1) [0..<n + k] = map (\<lambda>i. int i + 1) [0..<n] @ map (\<lambda>i. int n + int i + 1) [0..<k]"
  by (rule nth_equalityI) (auto simp: nth_append)

lemma sim_append:
  assumes sim: "conv_sim org db s" and own: "cs_owners s c \<noteq> None" and ok: "list_all (storable \<circ> snd) ims"
    and ids: "distinct (map fst ims)" "fst ` set ims \<inter> cm_ID ` set (cd_msgs db) = {}"
  shows "fst (DB_AppendMessages now db c org ims) = None \<and> conv_sim org (snd (DB_AppendMessages now db c org ims)) (AppendMessages s c (map snd ims))"
proof (cases "ims = []")
  case True
  then show ?thesis using sim by (auto simp: DB_AppendMessages_def AppendMessages_def conv_sim_def hist_of_def)
next
  case False
  let ?rows = "new_rows now c org (max_seq c db) ims" and ?n = "length (conv_rows c db)"
  let ?db = "db\<lparr>cd_msgs := cd_msgs db @ ?rows\<rparr>" and ?s = "AppendMessages s c (map snd ims)"
  have dist: "distinct (map cm_ID (cd_msgs db @ ?rows))" using sim ids by (auto simp: conv_sim_def new_rows_facts(1) Int_commute)
  have db: "DB_AppendMessages now db c org ims = (None, ?db)" using False dist by (simp add: DB_AppendMessages_def)
  have rows: "conv_rows d ?db = (if d = c then conv_rows c db @ ?rows else conv_rows d db)" for d
    by (simp add: conv_rows_def new_rows_facts(2))
  have hist: "hist_of ?s d = (if d = c then hist_of s c @ map snd ims else hist_of s d)" for d by (simp add: AppendMessages_def hist_of_def)
  have 1: "map toMessage (conv_rows d ?db) = hist_of ?s d" for d
    using sim_rows(1)[OF sim] by (simp add: rows hist new_rows_facts(4)[OF ok])
  have 2: "map cm_SeqNum (conv_rows d ?db) = map (\<lambda>i. int i + 1) [0..<length (conv_rows d ?db)]" for d
    unfolding rows using sim_rows(2)[OF sim, of d] by (auto simp: new_rows_facts(3) max_seq_sim[OF sim] length_new_rows seq_append del: upt_add_eq_append)
  have 3: "cs_owners ?s = cs_owners s" by (simp add: AppendMessages_def)
  have 4: "\<forall>d. cs_owners s d = None \<longrightarrow> conv_rows d ?db = []" using sim own by (auto simp: conv_sim_def rows)
  show ?thesis unfolding db conv_sim_def 3 using sim 1 2 4 dist
    by (auto simp: conv_sim_def dest: new_rows_facts(5))
qed

text \<open>Replacing a tool result: the table looks at the newest twenty structured messages only.\<close>

definition has_result :: "string \<Rightarrow> Message \<Rightarrow> bool" where
  "has_result tid m \<longleftrightarrow> list_ex (\<lambda>b. cb_Type b = ''tool_result'' \<and> cb_ToolUseID b = tid) (m_ContentBlocks m)"

definition near_end :: "string \<Rightarrow> Message list \<Rightarrow> bool" where
  "near_end tid h \<longleftrightarrow> (list_ex (has_result tid) h \<longrightarrow> list_ex (has_result tid) (take 20 (rev (filter (\<lambda>m. m_ContentBlocks m \<noteq> []) h))))"

definition replaced_row :: "uuid \<Rightarrow> ContentBlock list \<Rightarrow> string \<Rightarrow> ConversationMessageModel \<Rightarrow> ConversationMessageModel" where
  "replaced_row i bs new m = (if cm_ID m = i then m\<lparr>cm_ContentBlocks := Some bs, cm_Content := new\<rparr> else m)"

lemma has_result_iff: "has_result tid m \<longleftrightarrow> replace_block tid new err (m_ContentBlocks m) \<noteq> None"
  unfolding has_result_def list_ex_iff replace_block_Some_iff ..

lemma toMessage_blocks: "cm_ContentBlocks m \<noteq> Some [] \<Longrightarrow> m_ContentBlocks (toMessage m) = (case cm_ContentBlocks m of None \<Rightarrow> [] | Some bs \<Rightarrow> bs)"
  by (auto simp: toMessage_def split: option.split list.split)

lemma row_replace:
  "cm_ContentBlocks m \<noteq> Some [] \<Longrightarrow> Option.bind (cm_ContentBlocks m) (replace_block tid new err) = replace_block tid new err (m_ContentBlocks (toMessage m))"
  by (cases "cm_ContentBlocks m") (auto simp: toMessage_blocks)

lemma replace_block_not_Nil: "replace_block tid new err bs = Some bs' \<Longrightarrow> bs' \<noteq> [] \<and> bs \<noteq> []"
  by (cases bs) (auto split: if_splits)

lemma first_replaced_append:
  "first_replaced tid new err (xs @ ys) = (case first_replaced tid new err xs of None \<Rightarrow> first_replaced tid new err ys | Some r \<Rightarrow> Some r)"
  by (induction xs) (auto split: option.split)

lemma first_replaced_None:
  "\<forall>m \<in> set rows. cm_ContentBlocks m \<noteq> Some [] \<Longrightarrow> first_replaced tid new err rows = None \<longleftrightarrow> \<not> list_ex (has_result tid) (map toMessage rows)"
  by (induction rows) (auto simp: row_replace has_result_iff[of tid _ new err] split: option.split)

lemma first_replaced_Some:
  "first_replaced tid new err rows = Some (i, bs) \<Longrightarrow> bs \<noteq> [] \<and> i \<in> cm_ID ` set rows"
  by (induction rows) (auto split: option.splits bind_splits dest: replace_block_not_Nil)

lemma first_replaced_filter:
  "first_replaced tid new err (filter (\<lambda>m. cm_ContentBlocks m \<noteq> None) rows) = first_replaced tid new err rows"
  by (induction rows) (auto split: option.split)

lemma first_replaced_take:
  assumes "\<forall>m \<in> set rows. cm_ContentBlocks m \<noteq> Some []"
    and "list_ex (has_result tid) (map toMessage rows) \<Longrightarrow> list_ex (has_result tid) (map toMessage (take k rows))"
  shows "first_replaced tid new err (take k rows) = first_replaced tid new err rows"
proof -
  have n: "\<forall>m \<in> set (take k rows). cm_ContentBlocks m \<noteq> Some []" using assms(1) set_take_subset[of k rows] by blast
  have "first_replaced tid new err rows = first_replaced tid new err (take k rows @ drop k rows)" by simp
  then have split: "first_replaced tid new err rows =
      (case first_replaced tid new err (take k rows) of None \<Rightarrow> first_replaced tid new err (drop k rows) | Some r \<Rightarrow> Some r)"
    by (simp only: first_replaced_append)
  show ?thesis
  proof (cases "first_replaced tid new err (take k rows)")
    case None
    then have "first_replaced tid new err rows = None" using assms(2) first_replaced_None[OF n] first_replaced_None[OF assms(1)] by blast
    with None show ?thesis by simp
  qed (simp add: split)
qed

lemma toMessage_replaced:
  "\<lbrakk>cm_ContentBlocks m = Some bs; bs \<noteq> []; bs' \<noteq> []\<rbrakk> \<Longrightarrow> toMessage (m\<lparr>cm_ContentBlocks := Some bs', cm_Content := new\<rparr>) = (toMessage m)\<lparr>m_ContentBlocks := bs'\<rparr>"
  by (cases bs; cases bs') (auto simp: toMessage_def)

lemma replaced_row_other: "i \<notin> cm_ID ` set rows \<Longrightarrow> map (replaced_row i bs new) rows = rows"
  by (induction rows) (auto simp: replaced_row_def)

lemma replace_rows:
  "\<lbrakk>distinct (map cm_ID rows); \<forall>m \<in> set rows. cm_ContentBlocks m \<noteq> Some []\<rbrakk> \<Longrightarrow>
     replace_newest tid new err (map toMessage rows) =
     map_option (\<lambda>(i, bs). map toMessage (map (replaced_row i bs new) rows)) (first_replaced tid new err rows)"
proof (induction rows)
  case (Cons m rows)
  have r: "Option.bind (cm_ContentBlocks m) (replace_block tid new err) = replace_block tid new err (m_ContentBlocks (toMessage m))"
    using Cons.prems by (simp add: row_replace)
  show ?case
  proof (cases "replace_block tid new err (m_ContentBlocks (toMessage m))")
    case None
    have "replaced_row i bs new m = m" if "first_replaced tid new err rows = Some (i, bs)" for i bs
      using first_replaced_Some[OF that] Cons.prems by (auto simp: replaced_row_def)
    then show ?thesis using None r Cons by (auto simp: option.map_comp split: option.split) (cases "first_replaced tid new err rows"; auto)
  next
    case (Some bs')
    obtain bs where b: "cm_ContentBlocks m = Some bs" "replace_block tid new err bs = Some bs'"
      using r unfolding Some by (auto simp: bind_eq_Some_conv)
    have bs: "bs \<noteq> []" "bs' \<noteq> []" using replace_block_not_Nil[OF b(2)] by blast+
    have rest: "map (replaced_row (cm_ID m) bs' new) rows = rows" using Cons.prems by (intro replaced_row_other) auto
    have "toMessage (replaced_row (cm_ID m) bs' new m) = (toMessage m)\<lparr>m_ContentBlocks := bs'\<rparr>"
      using bs b by (simp add: toMessage_replaced replaced_row_def)
    then show ?thesis using Some r rest by (simp del: map_map)
  qed
qed simp

lemma replaced_row_fields [simp]:
  "cm_ID (replaced_row i bs new m) = cm_ID m" "cm_ConversationID (replaced_row i bs new m) = cm_ConversationID m"
  "cm_SeqNum (replaced_row i bs new m) = cm_SeqNum m"
  by (simp_all add: replaced_row_def)

lemma rows_distinct: "distinct (map cm_ID (cd_msgs db)) \<Longrightarrow> distinct (map cm_ID (conv_rows c db))"
  by (simp add: conv_rows_def distinct_map_filter)

lemma row_in_one: "\<lbrakk>distinct (map cm_ID (cd_msgs db)); i \<in> cm_ID ` set (conv_rows c db); d \<noteq> c\<rbrakk> \<Longrightarrow> i \<notin> cm_ID ` set (conv_rows d db)"
  by (auto simp: conv_rows_def distinct_map inj_on_def)

lemma rows_replaced:
  "conv_rows d (db\<lparr>cd_msgs := map (replaced_row i bs new) (cd_msgs db)\<rparr>) = map (replaced_row i bs new) (conv_rows d db)"
  by (simp add: conv_rows_def filter_map comp_def)

lemma structured_messages:
  "\<forall>m \<in> set rows. cm_ContentBlocks m \<noteq> Some [] \<Longrightarrow>
     filter (\<lambda>m. m_ContentBlocks m \<noteq> []) (map toMessage rows) = map toMessage (filter (\<lambda>m. cm_ContentBlocks m \<noteq> None) rows)"
  by (induction rows) (auto simp: toMessage_blocks split: option.splits)

lemma near_end_rows:
  assumes "\<forall>m \<in> set rows. cm_ContentBlocks m \<noteq> Some []" "near_end tid (map toMessage rows)"
  shows "first_replaced tid new err (take 20 (rev (filter (\<lambda>m. cm_ContentBlocks m \<noteq> None) rows))) = first_replaced tid new err (rev rows)"
proof -
  let ?s = "rev (filter (\<lambda>m. cm_ContentBlocks m \<noteq> None) rows)"
  note f = structured_messages[OF assms(1)]
  have "first_replaced tid new err (take 20 ?s) = first_replaced tid new err ?s"
  proof (rule first_replaced_take)
    assume "list_ex (has_result tid) (map toMessage ?s)"
    then show "list_ex (has_result tid) (map toMessage (take 20 ?s))"
      using assms(2) unfolding near_end_def f by (auto simp: list_ex_iff rev_map take_map)
  qed (use assms(1) in auto)
  then show ?thesis by (metis first_replaced_filter rev_filter)
qed

lemma sim_replace:
  assumes sim: "conv_sim org db s" and own: "cs_owners s c \<noteq> None" and near: "near_end tid (hist_of s c)"
  shows "fst (DB_ReplaceToolResult db c tid new err) = map_option ConvError (fst (ReplaceToolResult s c tid new err)) \<and>
    conv_sim org (snd (DB_ReplaceToolResult db c tid new err)) (snd (ReplaceToolResult s c tid new err))"
proof -
  let ?rows = "conv_rows c db"
  have ne: "\<forall>m \<in> set (conv_rows d db). cm_ContentBlocks m \<noteq> Some []" for d using sim by (auto simp: conv_sim_def conv_rows_def)
  have dist: "distinct (map cm_ID (cd_msgs db))" using sim by (simp add: conv_sim_def)
  have first: "first_replaced tid new err (take 20 (structured_rows c db)) = first_replaced tid new err (rev ?rows)"
    unfolding structured_rows_def newest_first_rev[OF sim_rows(2)[OF sim]]
    by (rule near_end_rows[OF ne]) (simp add: near sim_rows(1)[OF sim])
  have mem: "replace_newest tid new err (rev (hist_of s c)) =
      map_option (\<lambda>(i, bs). map toMessage (map (replaced_row i bs new) (rev ?rows))) (first_replaced tid new err (rev ?rows))"
  proof -
    have "distinct (map cm_ID (rev ?rows))" "\<forall>m \<in> set (rev ?rows). cm_ContentBlocks m \<noteq> Some []"
      using rows_distinct[OF dist] ne by (simp_all flip: rev_map)
    from replace_rows[OF this, of tid new err] show ?thesis by (simp only: rev_map sim_rows(1)[OF sim, symmetric])
  qed
  show ?thesis
  proof (cases "first_replaced tid new err (rev ?rows)")
    case None
    then show ?thesis using sim by (simp add: DB_ReplaceToolResult_def ReplaceToolResult_def first mem)
  next
    case (Some r)
    obtain i bs where r: "r = (i, bs)" by force
    let ?db = "db\<lparr>cd_msgs := map (replaced_row i bs new) (cd_msgs db)\<rparr>"
    let ?s = "s\<lparr>cs_history := (cs_history s)(c \<mapsto> map toMessage (map (replaced_row i bs new) ?rows))\<rparr>"
    have i: "bs \<noteq> []" "i \<in> cm_ID ` set ?rows" using first_replaced_Some Some r by fastforce+
    have db: "DB_ReplaceToolResult db c tid new err = (None, ?db)"
      using Some by (simp add: DB_ReplaceToolResult_def first r replaced_row_def[abs_def])
    have s: "ReplaceToolResult s c tid new err = (None, ?s)" using Some by (simp add: ReplaceToolResult_def mem r rev_map)
    have rows: "conv_rows d ?db = (if d = c then map (replaced_row i bs new) ?rows else conv_rows d db)" for d
      using replaced_row_other[OF row_in_one[OF dist i(2)]] by (simp add: rows_replaced)
    have 1: "map toMessage (conv_rows d ?db) = hist_of ?s d" for d using sim_rows(1)[OF sim, of d] by (simp add: rows hist_of_def)
    have 2: "map cm_SeqNum (conv_rows d ?db) = map (\<lambda>j. int j + 1) [0..<length (conv_rows d ?db)]" for d
      using sim_rows(2)[OF sim, of d] by (simp add: rows_replaced comp_def)
    have 3: "\<forall>m \<in> set (cd_msgs ?db). cm_ContentBlocks m \<noteq> Some []" using sim i(1) by (auto simp: conv_sim_def replaced_row_def)
    have 4: "\<forall>d. cs_owners s d = None \<longrightarrow> conv_rows d ?db = []" using sim by (auto simp: conv_sim_def rows_replaced)
    have 5: "distinct (map cm_ID (cd_msgs ?db))" using dist by (simp add: comp_def)
    show ?thesis unfolding db s fst_conv snd_conv conv_sim_def using sim 1 2 3 4 5 by (simp add: conv_sim_def)
  qed
qed

text \<open>Deleting.\<close>

lemma sim_delete:
  assumes sim: "conv_sim org db s"
  shows "conv_sim org (DB_DeleteConversation db c) (DeleteConversation s c)"
proof -
  have rows: "conv_rows d (DB_DeleteConversation db c) = (if d = c then [] else conv_rows d db)" for d
    by (auto simp: conv_rows_def DB_DeleteConversation_def intro: filter_cong)
  have own: "map_of (map (\<lambda>x. (co_ID x, co_UserID x)) (filter (\<lambda>x. co_ID x \<noteq> c) cs)) = (map_of (map (\<lambda>x. (co_ID x, co_UserID x)) cs))(c := None)" for cs
    by (induction cs) (auto simp: fun_eq_iff)
  have hist: "hist_of (DeleteConversation s c) d = (if d = c then [] else hist_of s d)" for d by (simp add: DeleteConversation_def hist_of_def)
  have 1: "map toMessage (conv_rows d (DB_DeleteConversation db c)) = hist_of (DeleteConversation s c) d" for d
    using sim_rows(1)[OF sim, of d] by (simp add: rows hist)
  have 2: "cs_owners (DeleteConversation s c) = map_of (map (\<lambda>x. (co_ID x, co_UserID x)) (cd_convs (DB_DeleteConversation db c)))"
    using sim by (simp add: DeleteConversation_def DB_DeleteConversation_def own conv_sim_def)
  have 3: "cs_owners (DeleteConversation s c) d = None \<Longrightarrow> conv_rows d (DB_DeleteConversation db c) = []" for d
    using sim by (auto simp: conv_sim_def rows DeleteConversation_def)
  have 4: "map cm_SeqNum (conv_rows d (DB_DeleteConversation db c)) = map (\<lambda>j. int j + 1) [0..<length (conv_rows d (DB_DeleteConversation db c))]" for d
    using sim_rows(2)[OF sim, of d] by (simp add: rows)
  have 5: "(\<forall>x \<in> set (cd_convs (DB_DeleteConversation db c)). co_OrgID x = org) \<and> distinct (map co_ID (cd_convs (DB_DeleteConversation db c))) \<and>
      distinct (map cm_ID (cd_msgs (DB_DeleteConversation db c))) \<and> (\<forall>m \<in> set (cd_msgs (DB_DeleteConversation db c)). cm_ContentBlocks m \<noteq> Some [])"
    using sim by (auto simp: conv_sim_def DB_DeleteConversation_def distinct_map_filter)
  show ?thesis unfolding conv_sim_def using 1 2 3 4 5 by blast
qed

section \<open>Whole runs\<close>

datatype conv_op =
    OpOpen time string uuid
  | OpAppend time uuid "(uuid \<times> Message) list"
  | OpLoad uuid int
  | OpReplace uuid string string bool
  | OpDelete uuid

datatype conv_out = OutConv "conv_db_error + uuid" | OutDone "conv_db_error option" | OutHistory "Message list"

fun db_step :: "uuid \<Rightarrow> conv_db \<Rightarrow> conv_op \<Rightarrow> conv_out \<times> conv_db" where
  "db_step org db (OpOpen now u c) = map_prod OutConv id (DB_GetOrCreateConversation now db org u c)"
| "db_step org db (OpAppend now c ims) = map_prod OutDone id (DB_AppendMessages now db c org ims)"
| "db_step org db (OpLoad c mx) = (OutHistory (DB_LoadHistory db c mx), db)"
| "db_step org db (OpReplace c tid new err) = map_prod OutDone id (DB_ReplaceToolResult db c tid new err)"
| "db_step org db (OpDelete c) = (OutDone None, DB_DeleteConversation db c)"

fun mem_step :: "InMemoryConversationStore \<Rightarrow> conv_op \<Rightarrow> conv_out \<times> InMemoryConversationStore" where
  "mem_step s (OpOpen now u c) = map_prod (OutConv \<circ> map_sum ConvError id) id (GetOrCreateConversation s u c)"
| "mem_step s (OpAppend now c ims) = (OutDone None, AppendMessages s c (map snd ims))"
| "mem_step s (OpLoad c mx) = (OutHistory (LoadHistory s c mx), s)"
| "mem_step s (OpReplace c tid new err) = map_prod (OutDone \<circ> map_option ConvError) id (ReplaceToolResult s c tid new err)"
| "mem_step s (OpDelete c) = (OutDone None, DeleteConversation s c)"

fun db_run :: "uuid \<Rightarrow> conv_db \<Rightarrow> conv_op list \<Rightarrow> conv_out list" where
  "db_run org db [] = []"
| "db_run org db (p # ps) = (let (r, db') = db_step org db p in r # db_run org db' ps)"

fun mem_run :: "InMemoryConversationStore \<Rightarrow> conv_op list \<Rightarrow> conv_out list" where
  "mem_run s [] = []"
| "mem_run s (p # ps) = (let (r, s') = mem_step s p in r # mem_run s' ps)"

text \<open>
  How the agent uses a store: it opens a conversation before it appends to it or replaces in it, it stores messages of text or blocks,
  it asks for a positive number of messages, and the result it replaces is among the newest twenty structured messages.
\<close>

fun op_allowed :: "InMemoryConversationStore \<Rightarrow> conv_op \<Rightarrow> bool" where
  "op_allowed s (OpOpen now u c) = True"
| "op_allowed s (OpAppend now c ims) = (cs_owners s c \<noteq> None \<and> list_all (storable \<circ> snd) ims)"
| "op_allowed s (OpLoad c mx) = (0 < mx)"
| "op_allowed s (OpReplace c tid new err) = (cs_owners s c \<noteq> None \<and> near_end tid (hist_of s c))"
| "op_allowed s (OpDelete c) = True"

fun run_allowed :: "InMemoryConversationStore \<Rightarrow> conv_op list \<Rightarrow> bool" where
  "run_allowed s [] = True"
| "run_allowed s (p # ps) = (op_allowed s p \<and> run_allowed (snd (mem_step s p)) ps)"

fun op_ids :: "conv_op \<Rightarrow> uuid list" where
  "op_ids (OpAppend now c ims) = map fst ims"
| "op_ids p = []"

lemma db_step_ids: "cm_ID ` set (cd_msgs (snd (db_step org db p))) \<subseteq> cm_ID ` set (cd_msgs db) \<union> set (op_ids p)"
proof (cases p)
  case (OpAppend now c ims)
  have "cm_ID ` set (new_rows now c org n ims) = fst ` set ims" for n
    using arg_cong[OF new_rows_facts(1), of set] by simp
  then show ?thesis using OpAppend by (auto simp: DB_AppendMessages_def Let_def)
qed (auto simp: DB_GetOrCreateConversation_def DB_ReplaceToolResult_def DB_DeleteConversation_def split: option.split)

lemma sim_step:
  assumes "conv_sim org db s" "op_allowed s p" "distinct (op_ids p)" "set (op_ids p) \<inter> cm_ID ` set (cd_msgs db) = {}"
  shows "fst (db_step org db p) = fst (mem_step s p) \<and> conv_sim org (snd (db_step org db p)) (snd (mem_step s p))"
proof (cases p)
  case (OpOpen now u c)
  then show ?thesis using sim_get[OF assms(1), of now u c] by simp
next
  case (OpAppend now c ims)
  then show ?thesis using sim_append[OF assms(1), of c ims now] assms by simp
next
  case (OpLoad c mx)
  then show ?thesis using sim_load[OF assms(1), of mx c] assms by simp
next
  case (OpReplace c tid new err)
  then show ?thesis using sim_replace[OF assms(1), of c tid new err] assms by simp
next
  case (OpDelete c)
  then show ?thesis using sim_delete[OF assms(1)] by simp
qed

lemma sim_run:
  "\<lbrakk>conv_sim org db s; run_allowed s ps; distinct (concat (map op_ids ps)); set (concat (map op_ids ps)) \<inter> cm_ID ` set (cd_msgs db) = {}\<rbrakk> \<Longrightarrow>
     db_run org db ps = mem_run s ps"
proof (induction ps arbitrary: db s)
  case (Cons p ps)
  have step: "fst (db_step org db p) = fst (mem_step s p)" "conv_sim org (snd (db_step org db p)) (snd (mem_step s p))"
    using sim_step[OF Cons.prems(1), of p] Cons.prems by auto
  have "db_run org (snd (db_step org db p)) ps = mem_run (snd (mem_step s p)) ps"
  proof (rule Cons.IH[OF step(2)])
    show "set (concat (map op_ids ps)) \<inter> cm_ID ` set (cd_msgs (snd (db_step org db p))) = {}"
      using db_step_ids[of org db p] Cons.prems(3,4) by (simp add: disjoint_iff subset_iff) blast
  qed (use Cons.prems in auto)
  with step(1) show ?case by (simp add: case_prod_beta Let_def)
qed simp


definition demo_text :: "string \<Rightarrow> Message" where
  "demo_text s = \<lparr>m_Role = RoleUser, m_Content = s, m_ContentBlocks = []\<rparr>"

definition demo_ops :: "conv_op list" where
  "demo_ops = [OpOpen 0 ''ann'' 7, OpAppend 1 7 [(1, demo_text ''a''), (2, demo_text ''b''), (3, demo_text ''c'')],
     OpOpen 2 ''bob'' 7, OpLoad 7 2, OpDelete 7, OpLoad 7 5]"


text \<open>A result behind twenty newer structured messages is not found in the tables (the in-memory store replaces it).\<close>

theorem old_result_not_found:
  assumes sim: "conv_sim org db s" and h: "hist_of s c = older @ newer"
    and many: "20 \<le> length (filter (\<lambda>m. m_ContentBlocks m \<noteq> []) newer)" and none: "\<not> list_ex (has_result tid) newer"
  shows "fst (DB_ReplaceToolResult db c tid new err) = Some (ConvError (ToolResultNotFound tid))"
proof -
  let ?top = "take 20 (structured_rows c db)"
  have ne: "\<forall>m \<in> set (conv_rows c db). cm_ContentBlocks m \<noteq> Some []" using sim by (auto simp: conv_sim_def conv_rows_def)
  have s: "structured_rows c db = rev (filter (\<lambda>m. cm_ContentBlocks m \<noteq> None) (conv_rows c db))"
    unfolding structured_rows_def newest_first_rev[OF sim_rows(2)[OF sim]] ..
  have "map toMessage ?top = take 20 (rev (filter (\<lambda>m. m_ContentBlocks m \<noteq> []) (older @ newer)))"
    unfolding s h[symmetric] sim_rows(1)[OF sim, symmetric] structured_messages[OF ne] by (simp add: rev_map take_map)
  also have "\<dots> = take 20 (rev (filter (\<lambda>m. m_ContentBlocks m \<noteq> []) newer))" using many by simp
  finally have "set (map toMessage ?top) \<subseteq> set newer" using set_take_subset[of 20] by fastforce
  then have "\<not> list_ex (has_result tid) (map toMessage ?top)" using none unfolding list_ex_iff by blast
  moreover have "\<forall>m \<in> set ?top. cm_ContentBlocks m \<noteq> Some []" using ne set_take_subset[of 20 "structured_rows c db"] by (auto simp: s)
  ultimately have "first_replaced tid new err ?top = None" using first_replaced_None by blast
  then show ?thesis by (simp add: DB_ReplaceToolResult_def)
qed

end
