(* ===== verification/Providers.thy ===== *)
theory Providers
  imports AgentLoop PipelineRuns
begin

text \<open>
  Language model providers (\<^verbatim>\<open>llm/anthropic\<close>, \<^verbatim>\<open>llm/openai\<close>, \<^verbatim>\<open>llm/gemini\<close>, \<^verbatim>\<open>llm/fallback.go\<close>, \<^verbatim>\<open>llm/streaming.go\<close> and their choice in
  \<^verbatim>\<open>cmd/akili/shared.go\<close>): how a conversation becomes a request of each of the three interfaces and an answer a response of the agent. JSON codecs and the
  HTTP exchange are parameters. The contract \<open>llm_client\<close> says what a request shows of the conversation.
\<close>

fun itoa :: "nat \<Rightarrow> string" where
  "itoa n = (if n < 10 then [char_of (48 + n)] else itoa (n div 10) @ [char_of (48 + n mod 10)])"

declare itoa.simps [simp del]

section \<open>Anthropic\<close>

record an_block =
  an_Type :: string
  an_Text :: string
  an_ID :: string
  an_Name :: string
  an_Input :: params
  an_ToolUseID :: string
  an_Content :: string
  an_IsError :: bool

datatype an_content = AnText string | AnBlocks "an_block list"

record an_message =
  am_Role :: string
  am_Content :: an_content

record an_request =
  anq_Model :: string
  anq_System :: string
  anq_Messages :: "an_message list"
  anq_MaxTokens :: int
  anq_Tools :: "ToolDefinition list"
  anq_Stream :: bool

record an_response =
  anr_Content :: "an_block list"
  anr_StopReason :: string
  anr_InputTokens :: int
  anr_OutputTokens :: int

definition defaultMaxToken :: int where "defaultMaxToken = 4096"

definition toAPIContentBlock :: "ContentBlock \<Rightarrow> an_block" where
  "toAPIContentBlock b =
     (let block = \<lparr>an_Type = cb_Type b, an_Text = [], an_ID = [], an_Name = [], an_Input = [], an_ToolUseID = [], an_Content = [], an_IsError = False\<rparr>
      in if cb_Type b = ''text'' then block\<lparr>an_Text := cb_Text b\<rparr>
         else if cb_Type b = ''tool_use'' then block\<lparr>an_ID := cb_ID b, an_Name := cb_Name b, an_Input := cb_Input b\<rparr>
         else if cb_Type b = ''tool_result'' then block\<lparr>an_ToolUseID := cb_ToolUseID b, an_Content := cb_Text b, an_IsError := cb_IsError b\<rparr>
         else block)"

definition an_convert :: "Message \<Rightarrow> an_message" where
  "an_convert m =
     \<lparr>am_Role = MsgRole_String (m_Role m),
      am_Content = (if length (m_ContentBlocks m) > 0 then AnBlocks (map toAPIContentBlock (m_ContentBlocks m)) else AnText (m_Content m))\<rparr>"

definition Anthropic_buildRequest :: "string \<Rightarrow> Request \<Rightarrow> an_request" where
  "Anthropic_buildRequest model req =
     \<lparr>anq_Model = model, anq_System = rq_SystemPrompt req, anq_Messages = map an_convert (rq_Messages req),
      anq_MaxTokens = (if rq_MaxTokens req \<le> 0 then defaultMaxToken else rq_MaxTokens req), anq_Tools = rq_Tools req, anq_Stream = False\<rparr>"

fun an_response_block :: "an_block \<Rightarrow> ContentBlock list" where
  "an_response_block block =
     (if an_Type block = ''text'' then [TextBlock (an_Text block)]
      else if an_Type block = ''tool_use'' then [ToolUseBlock (an_ID block) (an_Name block) (an_Input block)]
      else [])"

definition Anthropic_toResponse :: "an_response \<Rightarrow> LLMResponse" where
  "Anthropic_toResponse r =
     \<lparr>lr_Content = concat (map an_Text (filter (\<lambda>b. an_Type b = ''text'') (anr_Content r))),
      lr_ContentBlocks = concat (map an_response_block (anr_Content r)),
      lr_InputTokens = anr_InputTokens r, lr_OutputTokens = anr_OutputTokens r, lr_StopReason = anr_StopReason r\<rparr>"

section \<open>OpenAI and Ollama\<close>

record oa_call =
  oac_ID :: string
  oac_Type :: string
  oac_Name :: string
  oac_Arguments :: string

record oa_message =
  oam_Role :: string
  oam_Content :: string
  oam_ToolCalls :: "oa_call list"
  oam_ToolCallID :: string

record oa_tool =
  oat_Type :: string
  oat_Function :: ToolDefinition

record oa_request =
  oaq_Model :: string
  oaq_Messages :: "oa_message list"
  oaq_MaxTokens :: int
  oaq_Tools :: "oa_tool list"

record oa_choice =
  och_Content :: string
  och_ToolCalls :: "oa_call list"
  och_FinishReason :: string

record oa_response =
  oar_Choices :: "oa_choice list"
  oar_PromptTokens :: int
  oar_CompletionTokens :: int

definition blocks_of :: "string \<Rightarrow> Message \<Rightarrow> ContentBlock list" where
  "blocks_of ty m = filter (\<lambda>b. cb_Type b = ty) (m_ContentBlocks m)"

text \<open>\<open>enc\<close> is \<^verbatim>\<open>json.Marshal\<close> of an input, its error ignored.\<close>

definition oa_tool_call :: "(params \<Rightarrow> string) \<Rightarrow> ContentBlock \<Rightarrow> oa_call" where
  "oa_tool_call enc b = \<lparr>oac_ID = cb_ID b, oac_Type = ''function'', oac_Name = cb_Name b, oac_Arguments = enc (cb_Input b)\<rparr>"

definition oa_plain :: "string \<Rightarrow> string \<Rightarrow> oa_message" where
  "oa_plain role content = \<lparr>oam_Role = role, oam_Content = content, oam_ToolCalls = [], oam_ToolCallID = []\<rparr>"

definition convertStructuredMessage :: "(params \<Rightarrow> string) \<Rightarrow> Message \<Rightarrow> oa_message list" where
  "convertStructuredMessage enc m =
     (let tx = concat (map cb_Text (blocks_of ''text'' m))
      in if m_Role m = RoleAssistant
         then [(oa_plain ''assistant'' tx)\<lparr>oam_ToolCalls := map (oa_tool_call enc) (blocks_of ''tool_use'' m)\<rparr>]
         else (if tx \<noteq> [] then [oa_plain ''user'' tx] else []) @
              map (\<lambda>b. (oa_plain ''tool'' (cb_Text b))\<lparr>oam_ToolCallID := cb_ToolUseID b\<rparr>) (blocks_of ''tool_result'' m))"

definition oa_convert :: "(params \<Rightarrow> string) \<Rightarrow> Message \<Rightarrow> oa_message list" where
  "oa_convert enc m =
     (if length (m_ContentBlocks m) > 0 then convertStructuredMessage enc m
      else [oa_plain (MsgRole_String (m_Role m)) (m_Content m)])"

definition OpenAI_buildRequest :: "(params \<Rightarrow> string) \<Rightarrow> string \<Rightarrow> Request \<Rightarrow> oa_request" where
  "OpenAI_buildRequest enc model req =
     \<lparr>oaq_Model = model,
      oaq_Messages = (if rq_SystemPrompt req \<noteq> [] then [oa_plain ''system'' (rq_SystemPrompt req)] else []) @
        concat (map (oa_convert enc) (rq_Messages req)),
      oaq_MaxTokens = (if rq_MaxTokens req \<le> 0 then 4096 else rq_MaxTokens req),
      oaq_Tools = map (\<lambda>t. \<lparr>oat_Type = ''function'', oat_Function = t\<rparr>) (rq_Tools req)\<rparr>"

definition OpenAI_normalizeFinishReason :: "string \<Rightarrow> string" where
  "OpenAI_normalizeFinishReason reason =
     (if reason = ''stop'' then ''end_turn'' else if reason = ''tool_calls'' then ''tool_use'' else if reason = ''length'' then ''max_tokens'' else reason)"

text \<open>\<open>dec\<close> gives the input of a call, the empty one for arguments that are no JSON object.\<close>

definition OpenAI_toResponse :: "(string \<Rightarrow> params) \<Rightarrow> oa_response \<Rightarrow> LLMResponse" where
  "OpenAI_toResponse dec r =
     (case oar_Choices r of
        [] \<Rightarrow> \<lparr>lr_Content = [], lr_ContentBlocks = [], lr_InputTokens = oar_PromptTokens r, lr_OutputTokens = oar_CompletionTokens r, lr_StopReason = []\<rparr>
      | choice # _ \<Rightarrow>
          \<lparr>lr_Content = och_Content choice,
           lr_ContentBlocks = (if och_Content choice \<noteq> [] then [TextBlock (och_Content choice)] else []) @
             map (\<lambda>tc. ToolUseBlock (oac_ID tc) (oac_Name tc) (dec (oac_Arguments tc))) (och_ToolCalls choice),
           lr_InputTokens = oar_PromptTokens r, lr_OutputTokens = oar_CompletionTokens r,
           lr_StopReason = OpenAI_normalizeFinishReason (och_FinishReason choice)\<rparr>)"

section \<open>Gemini\<close>

record ge_part =
  gp_Text :: string
  gp_FunctionCall :: "(string \<times> params) option"
  gp_FunctionResponse :: "(string \<times> params) option"

record ge_content =
  gc_Role :: string
  gc_Parts :: "ge_part list"

record ge_request =
  gq_Contents :: "ge_content list"
  gq_SystemInstruction :: "ge_content option"
  gq_Tools :: "ToolDefinition list list"
  gq_MaxOutputTokens :: int

record ge_candidate =
  gca_Content :: ge_content
  gca_FinishReason :: string

record ge_response =
  gr_Candidates :: "ge_candidate list"
  gr_Usage :: "(int \<times> int) option"

definition buildToolIDMap :: "Message list \<Rightarrow> string \<rightharpoonup> string" where
  "buildToolIDMap messages =
     fold (\<lambda>msg m. if m_Role msg \<noteq> RoleAssistant then m
                   else fold (\<lambda>b m. if cb_Type b = ''tool_use'' \<and> cb_ID b \<noteq> [] then m(cb_ID b \<mapsto> cb_Name b) else m) (m_ContentBlocks msg) m)
       messages Map.empty"

definition ge_text :: "string \<Rightarrow> ge_part" where
  "ge_text s = \<lparr>gp_Text = s, gp_FunctionCall = None, gp_FunctionResponse = None\<rparr>"

definition ge_block :: "(string \<rightharpoonup> string) \<Rightarrow> ContentBlock \<Rightarrow> ge_part list" where
  "ge_block idToName b =
     (if cb_Type b = ''text'' then [ge_text (cb_Text b)]
      else if cb_Type b = ''tool_use'' then [\<lparr>gp_Text = [], gp_FunctionCall = Some (cb_Name b, cb_Input b), gp_FunctionResponse = None\<rparr>]
      else if cb_Type b = ''tool_result''
      then [\<lparr>gp_Text = [], gp_FunctionCall = None,
             gp_FunctionResponse = Some (case idToName (cb_ToolUseID b) of None \<Rightarrow> [] | Some n \<Rightarrow> n, [(''content'', AStr (cb_Text b))])\<rparr>]
      else [])"

definition toGeminiContent :: "(string \<rightharpoonup> string) \<Rightarrow> Message \<Rightarrow> ge_content list" where
  "toGeminiContent idToName m =
     (let role = (if m_Role m = RoleAssistant then ''model'' else ''user'')
      in if length (m_ContentBlocks m) = 0 then [\<lparr>gc_Role = role, gc_Parts = [ge_text (m_Content m)]\<rparr>]
         else [\<lparr>gc_Role = role, gc_Parts = concat (map (ge_block idToName) (m_ContentBlocks m))\<rparr>])"

definition Gemini_buildRequest :: "Request \<Rightarrow> ge_request" where
  "Gemini_buildRequest req =
     \<lparr>gq_Contents = concat (map (toGeminiContent (buildToolIDMap (rq_Messages req))) (rq_Messages req)),
      gq_SystemInstruction = (if rq_SystemPrompt req \<noteq> [] then Some \<lparr>gc_Role = [], gc_Parts = [ge_text (rq_SystemPrompt req)]\<rparr> else None),
      gq_Tools = (if length (rq_Tools req) > 0 then [rq_Tools req] else []),
      gq_MaxOutputTokens = (if rq_MaxTokens req \<le> 0 then 4096 else rq_MaxTokens req)\<rparr>"

definition extractUsage :: "ge_response \<Rightarrow> int \<times> int" where
  "extractUsage r = (case gr_Usage r of None \<Rightarrow> (0, 0) | Some u \<Rightarrow> u)"

definition Gemini_normalizeFinishReason :: "string \<Rightarrow> bool \<Rightarrow> string" where
  "Gemini_normalizeFinishReason reason hasToolCalls =
     (if hasToolCalls then ''tool_use'' else if reason = ''STOP'' then ''end_turn'' else if reason = ''MAX_TOKENS'' then ''max_tokens'' else reason)"

definition call_id :: "nat \<Rightarrow> string" where
  "call_id i = ''gemini-call-'' @ itoa i"

fun ge_parts :: "nat \<Rightarrow> ge_part list \<Rightarrow> ContentBlock list" where
  "ge_parts callIdx [] = []"
| "ge_parts callIdx (part # parts) =
     (if gp_Text part \<noteq> [] then [TextBlock (gp_Text part)] else []) @
     (case gp_FunctionCall part of
        None \<Rightarrow> ge_parts callIdx parts
      | Some (name, args) \<Rightarrow> ToolUseBlock (call_id callIdx) name args # ge_parts (Suc callIdx) parts)"

definition Gemini_toResponse :: "ge_response \<Rightarrow> LLMResponse" where
  "Gemini_toResponse r =
     (case gr_Candidates r of
        [] \<Rightarrow> \<lparr>lr_Content = [], lr_ContentBlocks = [], lr_InputTokens = fst (extractUsage r), lr_OutputTokens = snd (extractUsage r), lr_StopReason = []\<rparr>
      | candidate # _ \<Rightarrow>
          let parts = gc_Parts (gca_Content candidate)
          in \<lparr>lr_Content = concat (map gp_Text parts), lr_ContentBlocks = ge_parts 0 parts,
              lr_InputTokens = fst (extractUsage r), lr_OutputTokens = snd (extractUsage r),
              lr_StopReason = Gemini_normalizeFinishReason (gca_FinishReason candidate) (list_ex (\<lambda>p. gp_FunctionCall p \<noteq> None) parts)\<rparr>)"

section \<open>Sending\<close>

record http_request =
  hq_URL :: string
  hq_Headers :: "(string \<times> string) list"
  hq_Body :: string

datatype http_reply = SendFailed string | BodyFailed string | Reply int string

datatype stream_reply = StreamFailed string | StreamReply int string "string list" "string option"

record stream_event =
  se_Type :: string
  se_ContentBlock :: "an_block option"
  se_Delta :: "(string \<times> string) option"

text \<open>
  What lies outside: the HTTP exchange with the world (a streamed reply has its body, its lines and the error of the line scanner), URL parsing and the JSON
  codecs.
\<close>

record 'w llm_lib =
  ll_http :: "'w \<Rightarrow> http_request \<Rightarrow> http_reply \<times> 'w"
  ll_stream :: "'w \<Rightarrow> http_request \<Rightarrow> stream_reply \<times> 'w"
  ll_url :: "string \<Rightarrow> bool"
  ll_marshal :: "params \<Rightarrow> string"
  ll_unmarshal :: "string \<Rightarrow> params"
  ll_anMarshal :: "an_request \<Rightarrow> string option"
  ll_anUnmarshal :: "string \<Rightarrow> an_response option"
  ll_oaMarshal :: "oa_request \<Rightarrow> string option"
  ll_oaUnmarshal :: "string \<Rightarrow> oa_response option"
  ll_geMarshal :: "ge_request \<Rightarrow> string option"
  ll_geUnmarshal :: "string \<Rightarrow> ge_response option"
  ll_event :: "string \<Rightarrow> stream_event option"

datatype llm_error =
    MarshalingRequest
  | CreatingRequest
  | SendingRequest string
  | ReadingBody string
  | APIError int string
  | ParsingResponse
  | StreamError string
  | UnknownProvider string
  | AllProvidersFailed nat "llm_error option"

definition post :: "'w llm_lib \<Rightarrow> (string \<Rightarrow> LLMResponse option) \<Rightarrow> string option \<Rightarrow> string \<Rightarrow> (string \<times> string) list \<Rightarrow> 'w \<Rightarrow> (llm_error + LLMResponse) \<times> 'w" where
  "post lib parse body url headers w =
     (case body of
        None \<Rightarrow> (Inl MarshalingRequest, w)
      | Some bd \<Rightarrow>
          if \<not> ll_url lib url then (Inl CreatingRequest, w)
          else (case ll_http lib w \<lparr>hq_URL = url, hq_Headers = (''Content-Type'', ''application/json'') # headers, hq_Body = bd\<rparr> of
                  (SendFailed e, w') \<Rightarrow> (Inl (SendingRequest e), w')
                | (BodyFailed e, w') \<Rightarrow> (Inl (ReadingBody e), w')
                | (Reply status rbody, w') \<Rightarrow>
                    if status \<noteq> 200 then (Inl (APIError status rbody), w')
                    else (case parse rbody of None \<Rightarrow> (Inl ParsingResponse, w') | Some r \<Rightarrow> (Inr r, w'))))"

datatype Client =
    AnthropicClient string string string
  | OpenAIClient string string string string
  | GeminiClient string string string

definition anthropic_headers :: "string \<Rightarrow> (string \<times> string) list" where
  "anthropic_headers apiKey = [(''X-API-Key'', apiKey), (''Anthropic-Version'', ''2023-06-01'')]"

definition Anthropic_SendMessage :: "'w llm_lib \<Rightarrow> string \<Rightarrow> string \<Rightarrow> string \<Rightarrow> 'w \<Rightarrow> Request \<Rightarrow> (llm_error + LLMResponse) \<times> 'w" where
  "Anthropic_SendMessage lib apiKey model baseURL w req =
     post lib (\<lambda>b. map_option Anthropic_toResponse (ll_anUnmarshal lib b)) (ll_anMarshal lib (Anthropic_buildRequest model req))
       (baseURL @ ''/v1/messages'') (anthropic_headers apiKey) w"

definition OpenAI_SendMessage :: "'w llm_lib \<Rightarrow> string \<Rightarrow> string \<Rightarrow> string \<Rightarrow> 'w \<Rightarrow> Request \<Rightarrow> (llm_error + LLMResponse) \<times> 'w" where
  "OpenAI_SendMessage lib apiKey model baseURL w req =
     post lib (\<lambda>b. map_option (OpenAI_toResponse (ll_unmarshal lib)) (ll_oaUnmarshal lib b))
       (ll_oaMarshal lib (OpenAI_buildRequest (ll_marshal lib) model req))
       (baseURL @ ''/v1/chat/completions'') (if apiKey \<noteq> [] then [(''Authorization'', ''Bearer '' @ apiKey)] else []) w"

definition Gemini_SendMessage :: "'w llm_lib \<Rightarrow> string \<Rightarrow> string \<Rightarrow> string \<Rightarrow> 'w \<Rightarrow> Request \<Rightarrow> (llm_error + LLMResponse) \<times> 'w" where
  "Gemini_SendMessage lib apiKey model baseURL w req =
     post lib (\<lambda>b. map_option Gemini_toResponse (ll_geUnmarshal lib b)) (ll_geMarshal lib (Gemini_buildRequest req))
       (baseURL @ ''/v1beta/models/'' @ model @ '':generateContent'') [(''x-goog-api-key'', apiKey)] w"

fun SendMessage :: "'w llm_lib \<Rightarrow> Client \<Rightarrow> 'w \<Rightarrow> Request \<Rightarrow> (llm_error + LLMResponse) \<times> 'w" where
  "SendMessage lib (AnthropicClient apiKey model baseURL) w req = Anthropic_SendMessage lib apiKey model baseURL w req"
| "SendMessage lib (OpenAIClient apiKey model baseURL name) w req = OpenAI_SendMessage lib apiKey model baseURL w req"
| "SendMessage lib (GeminiClient apiKey model baseURL) w req = Gemini_SendMessage lib apiKey model baseURL w req"

section \<open>Fallback and configuration\<close>

datatype Provider = Single Client | Fallback "Client list"

fun fallback_loop :: "'w llm_lib \<Rightarrow> nat \<Rightarrow> llm_error option \<Rightarrow> Client list \<Rightarrow> 'w \<Rightarrow> Request \<Rightarrow> (llm_error + LLMResponse) \<times> 'w" where
  "fallback_loop lib n lastErr [] w req = (Inl (AllProvidersFailed n lastErr), w)"
| "fallback_loop lib n lastErr (p # ps) w req =
     (case SendMessage lib p w req of
        (Inr resp, w') \<Rightarrow> (Inr resp, w')
      | (Inl e, w') \<Rightarrow> fallback_loop lib n (Some e) ps w' req)"

definition Fallback_SendMessage :: "'w llm_lib \<Rightarrow> Client list \<Rightarrow> 'w \<Rightarrow> Request \<Rightarrow> (llm_error + LLMResponse) \<times> 'w" where
  "Fallback_SendMessage lib providers w req = fallback_loop lib (length providers) None providers w req"

fun Provider_SendMessage :: "'w llm_lib \<Rightarrow> Provider \<Rightarrow> 'w \<Rightarrow> Request \<Rightarrow> (llm_error + LLMResponse) \<times> 'w" where
  "Provider_SendMessage lib (Single c) w req = SendMessage lib c w req"
| "Provider_SendMessage lib (Fallback cs) w req = Fallback_SendMessage lib cs w req"

record ProvidersConfig =
  pc_Default :: string
  pc_Fallback :: "string list"
  pc_AnthropicKey :: string
  pc_AnthropicModel :: string
  pc_OpenAIKey :: string
  pc_OpenAIModel :: string
  pc_OpenAIBaseURL :: string
  pc_GeminiKey :: string
  pc_GeminiModel :: string
  pc_GeminiBaseURL :: string
  pc_OllamaModel :: string
  pc_OllamaBaseURL :: string

definition buildProvider :: "string \<Rightarrow> ProvidersConfig \<Rightarrow> llm_error + Client" where
  "buildProvider name cfg =
     (if name = ''anthropic'' \<or> name = [] then Inr (AnthropicClient (pc_AnthropicKey cfg) (pc_AnthropicModel cfg) ''https://api.anthropic.com'')
      else if name = ''openai''
      then Inr (OpenAIClient (pc_OpenAIKey cfg) (pc_OpenAIModel cfg)
                  (if pc_OpenAIBaseURL cfg \<noteq> [] then pc_OpenAIBaseURL cfg else ''https://api.openai.com'') ''openai'')
      else if name = ''gemini''
      then Inr (GeminiClient (pc_GeminiKey cfg) (pc_GeminiModel cfg)
                  (if pc_GeminiBaseURL cfg \<noteq> [] then pc_GeminiBaseURL cfg else ''https://generativelanguage.googleapis.com''))
      else if name = ''ollama''
      then Inr (OpenAIClient [] (pc_OllamaModel cfg) (if pc_OllamaBaseURL cfg = [] then ''http://localhost:11434'' else pc_OllamaBaseURL cfg) ''ollama'')
      else Inl (UnknownProvider name))"

fun fallback_clients :: "ProvidersConfig \<Rightarrow> string list \<Rightarrow> Client list" where
  "fallback_clients cfg [] = []"
| "fallback_clients cfg (name # names) =
     (case buildProvider name cfg of Inl e \<Rightarrow> fallback_clients cfg names | Inr c \<Rightarrow> c # fallback_clients cfg names)"

definition newLLMProvider :: "ProvidersConfig \<Rightarrow> llm_error + Provider" where
  "newLLMProvider cfg =
     (case buildProvider (pc_Default cfg) cfg of
        Inl e \<Rightarrow> Inl e
      | Inr primary \<Rightarrow>
          let providers = primary # fallback_clients cfg (pc_Fallback cfg)
          in if length (pc_Fallback cfg) > 0 \<and> length providers > 1 then Inr (Fallback providers) else Inr (Single primary))"

section \<open>Streaming\<close>

datatype StreamEvent = EvText string | EvToolUseStart ContentBlock | EvDone | EvError llm_error

fun stream_lines :: "'w llm_lib \<Rightarrow> string option \<Rightarrow> string list \<Rightarrow> StreamEvent list \<times> llm_error option" where
  "stream_lines lib scanErr [] =
     (case scanErr of Some e \<Rightarrow> ([EvError (ReadingBody e)], Some (ReadingBody e)) | None \<Rightarrow> ([EvDone], None))"
| "stream_lines lib scanErr (line # lines) =
     (let dat = drop 6 line; rest = stream_lines lib scanErr lines
      in if \<not> HasPrefix line ''data: '' then rest
         else if dat = ''[DONE]'' then ([EvDone], None)
         else (case ll_event lib dat of
                 None \<Rightarrow> rest
               | Some ev \<Rightarrow>
                   if se_Type ev = ''content_block_start''
                   then (case se_ContentBlock ev of
                           Some b \<Rightarrow> if an_Type b = ''tool_use'' then apfst ((#) (EvToolUseStart (ToolUseBlock (an_ID b) (an_Name b) []))) rest else rest
                         | None \<Rightarrow> rest)
                   else if se_Type ev = ''content_block_delta''
                   then (case se_Delta ev of
                           Some (ty, t) \<Rightarrow> if ty = ''text_delta'' then apfst ((#) (EvText t)) rest else rest
                         | None \<Rightarrow> rest)
                   else if se_Type ev = ''message_stop'' then ([EvDone], None)
                   else if se_Type ev = ''error'' then ([EvError (StreamError dat)], Some (StreamError dat))
                   else rest))"

definition stream_failed :: "llm_error \<Rightarrow> StreamEvent list \<times> llm_error option" where
  "stream_failed e = ([EvError e], Some e)"

definition Anthropic_StreamMessage ::
  "'w llm_lib \<Rightarrow> string \<Rightarrow> string \<Rightarrow> string \<Rightarrow> 'w \<Rightarrow> Request \<Rightarrow> (StreamEvent list \<times> llm_error option) \<times> 'w" where
  "Anthropic_StreamMessage lib apiKey model baseURL w req =
     (case ll_anMarshal lib ((Anthropic_buildRequest model req)\<lparr>anq_Stream := True\<rparr>) of
        None \<Rightarrow> (stream_failed MarshalingRequest, w)
      | Some body \<Rightarrow>
          let url = baseURL @ ''/v1/messages''
          in if \<not> ll_url lib url then (stream_failed CreatingRequest, w)
             else (case ll_stream lib w \<lparr>hq_URL = url, hq_Headers = (''Content-Type'', ''application/json'') # anthropic_headers apiKey, hq_Body = body\<rparr> of
                     (StreamFailed e, w') \<Rightarrow> (stream_failed (SendingRequest e), w')
                   | (StreamReply status rbody lines scanErr, w') \<Rightarrow>
                       (if status \<noteq> 200 then stream_failed (APIError status rbody) else stream_lines lib scanErr lines, w')))"

definition NonStreaming_StreamMessage :: "('w \<Rightarrow> Request \<Rightarrow> (llm_error + LLMResponse) \<times> 'w) \<Rightarrow> 'w \<Rightarrow> Request \<Rightarrow> (StreamEvent list \<times> llm_error option) \<times> 'w" where
  "NonStreaming_StreamMessage send w req =
     (case send w req of
        (Inl e, w') \<Rightarrow> (stream_failed e, w')
      | (Inr resp, w') \<Rightarrow>
          (((if lr_Content resp \<noteq> [] then [EvText (lr_Content resp)] else []) @ map EvToolUseStart (ToolUseBlocks resp) @ [EvDone], None), w'))"

section \<open>What a request shows of the conversation\<close>

text \<open>Calls in assistant messages, results in user messages, as the agent loop builds them.\<close>

definition wf_message :: "Message \<Rightarrow> bool" where
  "wf_message m \<longleftrightarrow>
     list_all (\<lambda>b. cb_Type b = ''text'' \<or> cb_Type b = ''tool_use'' \<and> m_Role m = RoleAssistant \<or> cb_Type b = ''tool_result'' \<and> m_Role m = RoleUser)
       (m_ContentBlocks m)"

definition conv_calls :: "(params \<Rightarrow> string) \<Rightarrow> Message list \<Rightarrow> (string \<times> string) list" where
  "conv_calls enc ms = concat (map (\<lambda>m. map (\<lambda>b. (cb_Name b, enc (cb_Input b))) (blocks_of ''tool_use'' m)) ms)"

definition conv_results :: "Message list \<Rightarrow> string list" where
  "conv_results ms = concat (map (\<lambda>m. map cb_Text (blocks_of ''tool_result'' m)) ms)"

definition conv_text :: "Message list \<Rightarrow> string" where
  "conv_text ms = concat (map TextContent ms)"

locale llm_client =
  fixes enc :: "params \<Rightarrow> string"
    and build :: "Request \<Rightarrow> 'wire"
    and tools_of :: "'wire \<Rightarrow> ToolDefinition list"
    and calls_of :: "'wire \<Rightarrow> (string \<times> string) list"
    and results_of :: "'wire \<Rightarrow> string list"
    and text_of :: "'wire \<Rightarrow> string"
    and system_of :: "'wire \<Rightarrow> string"
    and max_of :: "'wire \<Rightarrow> int"
  assumes tools: "tools_of (build req) = rq_Tools req"
    and calls: "list_all wf_message (rq_Messages req) \<Longrightarrow> calls_of (build req) = conv_calls enc (rq_Messages req)"
    and results: "list_all wf_message (rq_Messages req) \<Longrightarrow> results_of (build req) = conv_results (rq_Messages req)"
    and texts: "list_all wf_message (rq_Messages req) \<Longrightarrow> text_of (build req) = conv_text (rq_Messages req)"
    and system: "system_of (build req) = rq_SystemPrompt req"
    and max_pos: "0 < max_of (build req)"
begin

text \<open>The next request of the agent loop shows what the last one showed, then the calls of the model's answer and the results of the tools.\<close>

lemma exchange_shown:
  assumes "list_all wf_message (rq_Messages req)" "wf_message (assistant_message resp)" "list_all (\<lambda>b. cb_Type b = ''tool_result'') blocks"
    and "req' = req\<lparr>rq_Messages := rq_Messages req @ [assistant_message resp, results_message blocks]\<rparr>"
  shows "calls_of (build req') = calls_of (build req) @ map (\<lambda>b. (cb_Name b, enc (cb_Input b))) (ToolUseBlocks resp)"
    and "results_of (build req') = results_of (build req) @ map cb_Text blocks"
    and "tools_of (build req') = tools_of (build req)" and "system_of (build req') = system_of (build req)"
proof -
  have "wf_message (results_message blocks)" using assms(3) by (auto simp: wf_message_def results_message_def list_all_iff)
  then have wf: "list_all wf_message (rq_Messages req')" using assms by simp
  show "calls_of (build req') = calls_of (build req) @ map (\<lambda>b. (cb_Name b, enc (cb_Input b))) (ToolUseBlocks resp)"
    using assms(2,3) unfolding calls[OF wf] calls[OF assms(1)]
    by (auto simp: assms(4) conv_calls_def blocks_of_def assistant_message_def results_message_def ToolUseBlocks_def wf_message_def list_all_iff filter_empty_conv)
  show "results_of (build req') = results_of (build req) @ map cb_Text blocks"
    using assms(2,3) unfolding results[OF wf] results[OF assms(1)]
    by (auto simp: assms(4) conv_results_def blocks_of_def assistant_message_def results_message_def wf_message_def list_all_iff filter_empty_conv)
qed (simp_all add: tools system assms(4))

end

text \<open>How the three requests are read.\<close>

fun an_blocks :: "an_message \<Rightarrow> an_block list" where
  "an_blocks m = (case am_Content m of AnText _ \<Rightarrow> [] | AnBlocks bs \<Rightarrow> bs)"

definition an_calls :: "(params \<Rightarrow> string) \<Rightarrow> an_request \<Rightarrow> (string \<times> string) list" where
  "an_calls enc r = concat (map (\<lambda>m. map (\<lambda>b. (an_Name b, enc (an_Input b))) (filter (\<lambda>b. an_Type b = ''tool_use'') (an_blocks m))) (anq_Messages r))"

definition an_results :: "an_request \<Rightarrow> string list" where
  "an_results r = concat (map (\<lambda>m. map an_Content (filter (\<lambda>b. an_Type b = ''tool_result'') (an_blocks m))) (anq_Messages r))"

definition an_text :: "an_request \<Rightarrow> string" where
  "an_text r = concat (map (\<lambda>m. case am_Content m of AnText s \<Rightarrow> s | AnBlocks bs \<Rightarrow> concat (map an_Text (filter (\<lambda>b. an_Type b = ''text'') bs))) (anq_Messages r))"

definition oa_conversation :: "oa_request \<Rightarrow> oa_message list" where
  "oa_conversation r = filter (\<lambda>m. oam_Role m \<noteq> ''system'') (oaq_Messages r)"

definition oa_calls :: "oa_request \<Rightarrow> (string \<times> string) list" where
  "oa_calls r = concat (map (\<lambda>m. map (\<lambda>c. (oac_Name c, oac_Arguments c)) (oam_ToolCalls m)) (oa_conversation r))"

definition oa_results :: "oa_request \<Rightarrow> string list" where
  "oa_results r = map oam_Content (filter (\<lambda>m. oam_Role m = ''tool'') (oa_conversation r))"

definition oa_text :: "oa_request \<Rightarrow> string" where
  "oa_text r = concat (map oam_Content (filter (\<lambda>m. oam_Role m \<noteq> ''tool'') (oa_conversation r)))"

definition oa_system :: "oa_request \<Rightarrow> string" where
  "oa_system r = concat (map oam_Content (filter (\<lambda>m. oam_Role m = ''system'') (oaq_Messages r)))"

definition ge_all_parts :: "ge_request \<Rightarrow> ge_part list" where
  "ge_all_parts r = concat (map gc_Parts (gq_Contents r))"

definition ge_calls :: "(params \<Rightarrow> string) \<Rightarrow> ge_request \<Rightarrow> (string \<times> string) list" where
  "ge_calls enc r = map (\<lambda>(n, a). (n, enc a)) (List.map_filter gp_FunctionCall (ge_all_parts r))"

definition ge_responses :: "ge_request \<Rightarrow> (string \<times> string) list" where
  "ge_responses r = map (\<lambda>(n, a). (n, case map_of a ''content'' of Some (AStr s) \<Rightarrow> s | _ \<Rightarrow> [])) (List.map_filter gp_FunctionResponse (ge_all_parts r))"

definition ge_request_text :: "ge_request \<Rightarrow> string" where
  "ge_request_text r = concat (map gp_Text (ge_all_parts r))"

definition ge_system :: "ge_request \<Rightarrow> string" where
  "ge_system r = (case gq_SystemInstruction r of None \<Rightarrow> [] | Some c \<Rightarrow> concat (map gp_Text (gc_Parts c)))"

lemma api_block [simp]:
  "an_Type (toAPIContentBlock b) = cb_Type b"
  "cb_Type b = ''tool_use'' \<Longrightarrow> an_Name (toAPIContentBlock b) = cb_Name b \<and> an_Input (toAPIContentBlock b) = cb_Input b"
  "cb_Type b = ''tool_result'' \<Longrightarrow> an_Content (toAPIContentBlock b) = cb_Text b"
  "cb_Type b = ''text'' \<Longrightarrow> an_Text (toAPIContentBlock b) = cb_Text b"
  by (simp_all add: toAPIContentBlock_def Let_def)

lemma an_selected:
  "map f (filter (\<lambda>b. an_Type b = ty) (map toAPIContentBlock bs)) = map (f \<circ> toAPIContentBlock) (filter (\<lambda>b. cb_Type b = ty) bs)"
  by (induction bs) auto

interpretation anthropic: llm_client enc "Anthropic_buildRequest model" anq_Tools "an_calls enc" an_results an_text anq_System anq_MaxTokens
  for enc model
proof unfold_locales
  fix req
  have "map (\<lambda>b. (an_Name b, enc (an_Input b))) (filter (\<lambda>b. an_Type b = ''tool_use'') (an_blocks (an_convert m))) =
      map (\<lambda>b. (cb_Name b, enc (cb_Input b))) (blocks_of ''tool_use'' m)" for m
    by (auto simp: an_convert_def blocks_of_def an_selected)
  then show "an_calls enc (Anthropic_buildRequest model req) = conv_calls enc (rq_Messages req)"
    by (simp add: an_calls_def Anthropic_buildRequest_def conv_calls_def comp_def del: an_blocks.simps)
  have "map an_Content (filter (\<lambda>b. an_Type b = ''tool_result'') (an_blocks (an_convert m))) = map cb_Text (blocks_of ''tool_result'' m)" for m
    by (auto simp: an_convert_def blocks_of_def an_selected)
  then show "an_results (Anthropic_buildRequest model req) = conv_results (rq_Messages req)"
    by (simp add: an_results_def Anthropic_buildRequest_def conv_results_def comp_def del: an_blocks.simps)
  have "(case am_Content (an_convert m) of AnText s \<Rightarrow> s | AnBlocks bs \<Rightarrow> concat (map an_Text (filter (\<lambda>b. an_Type b = ''text'') bs))) = TextContent m" for m
    by (auto simp: an_convert_def TextContent_def an_selected intro!: arg_cong[where f = concat])
  then show "an_text (Anthropic_buildRequest model req) = conv_text (rq_Messages req)"
    by (simp add: an_text_def Anthropic_buildRequest_def conv_text_def comp_def)
qed (simp_all add: Anthropic_buildRequest_def defaultMaxToken_def)

text \<open>One message of the OpenAI interface.\<close>

lemma wf_user: "\<lbrakk>wf_message m; m_Role m = RoleUser\<rbrakk> \<Longrightarrow> blocks_of ''tool_use'' m = []"
  by (auto simp: wf_message_def blocks_of_def list_all_iff filter_empty_conv)

lemma wf_assistant: "\<lbrakk>wf_message m; m_Role m = RoleAssistant\<rbrakk> \<Longrightarrow> blocks_of ''tool_result'' m = []"
  by (auto simp: wf_message_def blocks_of_def list_all_iff filter_empty_conv)

lemma blocks_of_Nil [simp]: "m_ContentBlocks m = [] \<Longrightarrow> blocks_of ty m = []"
  by (simp add: blocks_of_def)

lemma oa_message_calls:
  assumes "wf_message m"
  shows "concat (map (\<lambda>x. map (\<lambda>c. (oac_Name c, oac_Arguments c)) (oam_ToolCalls x)) (oa_convert enc m)) =
     map (\<lambda>b. (cb_Name b, enc (cb_Input b))) (blocks_of ''tool_use'' m)"
proof (cases "m_Role m")
  case RoleUser
  have "concat (map (\<lambda>x. []) xs) = []" for xs :: "ContentBlock list" by simp
  with RoleUser show ?thesis using wf_user[OF assms] by (auto simp: oa_convert_def convertStructuredMessage_def oa_plain_def Let_def comp_def)
qed (auto simp: oa_convert_def convertStructuredMessage_def oa_plain_def oa_tool_call_def Let_def comp_def)

lemma oa_message_results:
  assumes "wf_message m"
  shows "map oam_Content (filter (\<lambda>x. oam_Role x = ''tool'') (oa_convert enc m)) = map cb_Text (blocks_of ''tool_result'' m)"
proof (cases "m_Role m")
  case RoleAssistant
  then show ?thesis using wf_assistant[OF assms] by (auto simp: oa_convert_def convertStructuredMessage_def oa_plain_def Let_def)
qed (auto simp: oa_convert_def convertStructuredMessage_def oa_plain_def Let_def comp_def filter_map)

lemma oa_message_text: "concat (map oam_Content (filter (\<lambda>x. oam_Role x \<noteq> ''tool'') (oa_convert enc m))) = TextContent m"
  by (cases "m_Role m")
    (auto simp: oa_convert_def convertStructuredMessage_def oa_plain_def blocks_of_def TextContent_def Let_def comp_def filter_map)

lemma oa_message_not_system: "x \<in> set (oa_convert enc m) \<Longrightarrow> oam_Role x \<noteq> ''system''"
  by (cases "m_Role m") (auto simp: oa_convert_def convertStructuredMessage_def oa_plain_def Let_def split: if_splits)

lemma oa_conversation_messages: "oa_conversation (OpenAI_buildRequest enc model req) = concat (map (oa_convert enc) (rq_Messages req))"
proof -
  have "filter (\<lambda>m. oam_Role m \<noteq> ''system'') (concat (map (oa_convert enc) ms)) = concat (map (oa_convert enc) ms)" for ms
    using oa_message_not_system by (intro filter_True) auto
  then show ?thesis by (auto simp: oa_conversation_def OpenAI_buildRequest_def oa_plain_def)
qed

lemma oa_system_only: "filter (\<lambda>m. oam_Role m = ''system'') (concat (map (oa_convert enc) ms)) = []"
  using oa_message_not_system by (auto simp: filter_empty_conv)

interpretation openai: llm_client enc "OpenAI_buildRequest enc model" "\<lambda>r. map oat_Function (oaq_Tools r)" oa_calls oa_results oa_text oa_system oaq_MaxTokens
  for enc model
proof unfold_locales
  fix req :: Request assume wf: "list_all wf_message (rq_Messages req)"
  have "concat (map (\<lambda>m. map (\<lambda>c. (oac_Name c, oac_Arguments c)) (oam_ToolCalls m)) (concat (map (oa_convert enc) ms))) = conv_calls enc ms"
    if "list_all wf_message ms" for ms
    using that by (induction ms) (auto simp: conv_calls_def oa_message_calls)
  from this[OF wf] show "oa_calls (OpenAI_buildRequest enc model req) = conv_calls enc (rq_Messages req)"
    by (simp add: oa_calls_def oa_conversation_messages)
  have "map oam_Content (filter (\<lambda>m. oam_Role m = ''tool'') (concat (map (oa_convert enc) ms))) = conv_results ms" if "list_all wf_message ms" for ms
    using that by (induction ms) (auto simp: conv_results_def oa_message_results)
  from this[OF wf] show "oa_results (OpenAI_buildRequest enc model req) = conv_results (rq_Messages req)"
    by (simp add: oa_results_def oa_conversation_messages)
  have "concat (map oam_Content (filter (\<lambda>m. oam_Role m \<noteq> ''tool'') (concat (map (oa_convert enc) ms)))) = conv_text ms" for ms
    by (induction ms) (auto simp: conv_text_def oa_message_text)
  then show "oa_text (OpenAI_buildRequest enc model req) = conv_text (rq_Messages req)"
    by (simp add: oa_text_def oa_conversation_messages)
qed (auto simp: OpenAI_buildRequest_def oa_system_def oa_plain_def comp_def oa_system_only)

text \<open>One message of the Gemini interface.\<close>

definition message_parts :: "(string \<rightharpoonup> string) \<Rightarrow> Message \<Rightarrow> ge_part list" where
  "message_parts f m = concat (map gc_Parts (toGeminiContent f m))"

lemma ge_all_parts_messages: "ge_all_parts (Gemini_buildRequest req) = concat (map (message_parts (buildToolIDMap (rq_Messages req))) (rq_Messages req))"
proof -
  have "concat (map gc_Parts (concat (map f ms))) = concat (map (\<lambda>m. concat (map gc_Parts (f m))) ms)" for f and ms :: "Message list"
    by (induction ms) auto
  then show ?thesis by (simp add: ge_all_parts_def Gemini_buildRequest_def message_parts_def[abs_def])
qed

definition result_name :: "(string \<rightharpoonup> string) \<Rightarrow> ContentBlock \<Rightarrow> string" where
  "result_name f b = (case f (cb_ToolUseID b) of None \<Rightarrow> [] | Some n \<Rightarrow> n)"

lemma map_filter_append: "List.map_filter f (xs @ ys) = List.map_filter f xs @ List.map_filter f ys"
  by (simp add: List.map_filter_def)

lemma map_filter_concat: "List.map_filter f (concat xss) = concat (map (List.map_filter f) xss)"
  by (induction xss) (auto simp: map_filter_append List.map_filter_simps)

lemma ge_blocks:
  "List.map_filter gp_FunctionCall (concat (map (ge_block f) bs)) = map (\<lambda>b. (cb_Name b, cb_Input b)) (filter (\<lambda>b. cb_Type b = ''tool_use'') bs)"
  "List.map_filter gp_FunctionResponse (concat (map (ge_block f) bs)) =
     map (\<lambda>b. (result_name f b, [(''content'', AStr (cb_Text b))])) (filter (\<lambda>b. cb_Type b = ''tool_result'') bs)"
  "concat (map gp_Text (concat (map (ge_block f) bs))) = concat (map cb_Text (filter (\<lambda>b. cb_Type b = ''text'') bs))"
  by (induction bs) (auto simp: ge_block_def ge_text_def result_name_def List.map_filter_def)

lemma ge_message:
  "List.map_filter gp_FunctionCall (message_parts f m) = map (\<lambda>b. (cb_Name b, cb_Input b)) (blocks_of ''tool_use'' m)"
  "List.map_filter gp_FunctionResponse (message_parts f m) = map (\<lambda>b. (result_name f b, [(''content'', AStr (cb_Text b))])) (blocks_of ''tool_result'' m)"
  "concat (map gp_Text (message_parts f m)) = TextContent m"
  by (auto simp: message_parts_def toGeminiContent_def ge_blocks blocks_of_def TextContent_def ge_text_def List.map_filter_simps Let_def)

lemma ge_responses_messages:
  "ge_responses (Gemini_buildRequest req) =
     concat (map (\<lambda>m. map (\<lambda>b. (result_name (buildToolIDMap (rq_Messages req)) b, cb_Text b)) (blocks_of ''tool_result'' m)) (rq_Messages req))"
  by (simp add: ge_responses_def ge_all_parts_messages map_filter_concat ge_message map_concat comp_def)

interpretation gemini: llm_client enc Gemini_buildRequest "\<lambda>r. concat (gq_Tools r)" "ge_calls enc" "\<lambda>r. map snd (ge_responses r)" ge_request_text ge_system gq_MaxOutputTokens
  for enc
proof unfold_locales
  fix req :: Request
  show "ge_calls enc (Gemini_buildRequest req) = conv_calls enc (rq_Messages req)"
    by (simp add: ge_calls_def ge_all_parts_messages map_filter_concat ge_message map_concat comp_def conv_calls_def)
  show "map snd (ge_responses (Gemini_buildRequest req)) = conv_results (rq_Messages req)"
    by (simp add: ge_responses_messages map_concat comp_def conv_results_def)
  have "concat (map gp_Text (concat (map (message_parts f) ms))) = conv_text ms" for f ms
    by (induction ms) (auto simp: conv_text_def ge_message)
  then show "ge_request_text (Gemini_buildRequest req) = conv_text (rq_Messages req)"
    by (simp add: ge_request_text_def ge_all_parts_messages)
qed (simp_all add: Gemini_buildRequest_def ge_system_def ge_text_def)

section \<open>Names of results in the Gemini interface\<close>

definition call_names :: "Message list \<Rightarrow> (string \<times> string) list" where
  "call_names ms = concat (map (\<lambda>m. if m_Role m = RoleAssistant
     then map (\<lambda>b. (cb_ID b, cb_Name b)) (filter (\<lambda>b. cb_ID b \<noteq> []) (blocks_of ''tool_use'' m)) else []) ms)"

lemma block_map: "fold (\<lambda>b m. if cb_Type b = ''tool_use'' \<and> cb_ID b \<noteq> [] then m(cb_ID b \<mapsto> cb_Name b) else m) bs m =
    m ++ map_of (rev (map (\<lambda>b. (cb_ID b, cb_Name b)) (filter (\<lambda>b. cb_ID b \<noteq> []) (filter (\<lambda>b. cb_Type b = ''tool_use'') bs))))"
  by (induction bs arbitrary: m) auto

lemma tool_id_map: "buildToolIDMap ms = map_of (rev (call_names ms))"
proof -
  have "fold (\<lambda>msg m. if m_Role msg \<noteq> RoleAssistant then m
           else fold (\<lambda>b m. if cb_Type b = ''tool_use'' \<and> cb_ID b \<noteq> [] then m(cb_ID b \<mapsto> cb_Name b) else m) (m_ContentBlocks msg) m) ms m =
        m ++ map_of (rev (call_names ms))" for m
    by (induction ms arbitrary: m) (auto simp: call_names_def block_map blocks_of_def)
  then show ?thesis by (simp add: buildToolIDMap_def)
qed

text \<open>With distinct identifiers every result carries the name of the call it answers.\<close>

lemma distinct_call_name:
  assumes "distinct (map fst (call_names ms))" "(cb_ToolUseID b, n) \<in> set (call_names ms)"
  shows "result_name (buildToolIDMap ms) b = n"
proof -
  have "map_of (rev (call_names ms)) (cb_ToolUseID b) = Some n" using assms by (intro map_of_is_SomeI) (auto simp flip: rev_map)
  then show ?thesis by (simp add: result_name_def tool_id_map)
qed

section \<open>The exchange reaches the model\<close>

lemma tool_results: "list_all (\<lambda>b. cb_Type b = ''tool_result'') (fst (executeToolCalls envs inp orc bs))"
  by (induction envs inp orc bs rule: executeToolCalls.induct)
    (auto simp: ToolResultBlock_def Let_def split: prod.splits sum.splits exec_error.splits)

lemma tool_results_length: "length (fst (executeToolCalls envs inp orc bs)) = length bs"
  by (induction envs inp orc bs rule: executeToolCalls.induct)
    (auto simp: Let_def split: prod.splits sum.splits exec_error.splits)

lemma ge_parts_types: "b \<in> set (ge_parts k ps) \<Longrightarrow> cb_Type b = ''text'' \<or> cb_Type b = ''tool_use''"
  by (induction k ps rule: ge_parts.induct) (auto simp: TextBlock_def ToolUseBlock_def split: if_splits option.splits)

definition provider_response :: "(string \<Rightarrow> params) \<Rightarrow> LLMResponse \<Rightarrow> bool" where
  "provider_response dec resp \<longleftrightarrow> resp \<in> range Anthropic_toResponse \<union> range (OpenAI_toResponse dec) \<union> range Gemini_toResponse"

lemma provider_response_wf: "provider_response dec resp \<Longrightarrow> wf_message (assistant_message resp)"
  by (auto simp: provider_response_def wf_message_def assistant_message_def list_all_iff Anthropic_toResponse_def OpenAI_toResponse_def Gemini_toResponse_def
      TextBlock_def ToolUseBlock_def Let_def split: list.splits if_splits dest!: ge_parts_types)

definition shows_exchange ::
  "(params \<Rightarrow> string) \<Rightarrow> (Request \<Rightarrow> 'wire) \<Rightarrow> ('wire \<Rightarrow> (string \<times> string) list) \<Rightarrow> ('wire \<Rightarrow> string list) \<Rightarrow> Request \<Rightarrow> Request \<Rightarrow> LLMResponse \<Rightarrow> ContentBlock list \<Rightarrow> bool" where
  "shows_exchange enc build calls results req req' resp blocks \<longleftrightarrow>
     calls (build req') = calls (build req) @ map (\<lambda>b. (cb_Name b, enc (cb_Input b))) (ToolUseBlocks resp) \<and>
     results (build req') = results (build req) @ map cb_Text blocks"


section \<open>Calls come back as they were made\<close>

text \<open>
  Sending back an answer of the OpenAI interface as the agent stores it reproduces its text and its calls, identifiers and arguments
  included, if the arguments are in the form that the codec writes after reading them.
\<close>

theorem openai_calls_round_trip:
  assumes "list_all (\<lambda>tc. oac_Type tc = ''function'' \<and> oac_Arguments tc = enc (dec (oac_Arguments tc))) (och_ToolCalls choice)"
    and "och_Content choice \<noteq> [] \<or> och_ToolCalls choice \<noteq> []"
  shows "oa_convert enc (assistant_message (OpenAI_toResponse dec \<lparr>oar_Choices = choice # cs, oar_PromptTokens = a, oar_CompletionTokens = b\<rparr>)) =
    [\<lparr>oam_Role = ''assistant'', oam_Content = och_Content choice, oam_ToolCalls = och_ToolCalls choice, oam_ToolCallID = []\<rparr>]"
proof -
  have calls: "map (\<lambda>x. oa_tool_call enc (ToolUseBlock (oac_ID x) (oac_Name x) (dec (oac_Arguments x)))) tcs = tcs"
    if "list_all (\<lambda>tc. oac_Type tc = ''function'' \<and> oac_Arguments tc = enc (dec (oac_Arguments tc))) tcs" for tcs
    using that by (induction tcs) (auto simp: oa_tool_call_def ToolUseBlock_def)
  have no: "filter (\<lambda>b. cb_Type b = ''text'') (map (\<lambda>tc. ToolUseBlock (oac_ID tc) (oac_Name tc) (dec (oac_Arguments tc))) tcs) = []"
    "filter (\<lambda>b. cb_Type b = ''tool_use'') (map (\<lambda>tc. ToolUseBlock (oac_ID tc) (oac_Name tc) (dec (oac_Arguments tc))) tcs) =
      map (\<lambda>tc. ToolUseBlock (oac_ID tc) (oac_Name tc) (dec (oac_Arguments tc))) tcs" for tcs
    by (auto simp: ToolUseBlock_def filter_empty_conv filter_id_conv)
  show ?thesis using assms(2) calls[OF assms(1)]
    by (auto simp: oa_convert_def convertStructuredMessage_def assistant_message_def OpenAI_toResponse_def blocks_of_def oa_plain_def Let_def no comp_def TextBlock_def)
qed

section \<open>Fallback\<close>

definition world_after :: "'w llm_lib \<Rightarrow> Request \<Rightarrow> 'w \<Rightarrow> Client list \<Rightarrow> 'w" where
  "world_after lib req w cs = foldl (\<lambda>w c. snd (SendMessage lib c w req)) w cs"

lemma fallback_fails:
  "\<forall>i < length cs. isl (fst (SendMessage lib (cs ! i) (world_after lib req w (take i cs)) req)) \<Longrightarrow>
     fallback_loop lib n e (cs @ rest) w req =
     fallback_loop lib n (if cs = [] then e else Some (projl (fst (SendMessage lib (last cs) (world_after lib req w (butlast cs)) req)))) rest (world_after lib req w cs) req"
proof (induction cs arbitrary: w e)
  case (Cons c cs)
  obtain err w1 where s: "SendMessage lib c w req = (Inl err, w1)"
    using Cons.prems[rule_format, of 0] by (cases "SendMessage lib c w req"; cases "fst (SendMessage lib c w req)") (auto simp: world_after_def)
  have "\<forall>i < length cs. isl (fst (SendMessage lib (cs ! i) (world_after lib req w1 (take i cs)) req))"
    using Cons.prems[rule_format, of "Suc _"] s by (auto simp: world_after_def)
  from Cons.IH[OF this, of "Some err"] s show ?case by (auto simp: world_after_def)
qed (simp add: world_after_def)

definition configured :: "ProvidersConfig \<Rightarrow> Client list" where
  "configured cfg = fallback_clients cfg (pc_Default cfg # pc_Fallback cfg)"

lemma provider_loop:
  assumes "newLLMProvider cfg = Inr p"
  shows "length (configured cfg) \<le> 1 \<and> p = Single (hd (configured cfg)) \<and> configured cfg \<noteq> [] \<or> p = Fallback (configured cfg)"
  using assms by (auto simp: newLLMProvider_def configured_def Let_def split: sum.splits if_splits)

text \<open>
  (C31) The provider built from a configuration tries the configured providers in order: the answer is that of the first one that succeeds, after
  exactly the attempts before it, and the providers behind it are not asked. If all fail the result is an error and every one was asked once. A
  configuration whose default provider is known always gives a provider.
\<close>

theorem configured_providers_tried_in_order:
  assumes "newLLMProvider cfg = Inr p" "k \<le> length (configured cfg)"
    and "\<forall>i < k. isl (fst (SendMessage lib (configured cfg ! i) (world_after lib req w (take i (configured cfg))) req))"
    and "k < length (configured cfg) \<Longrightarrow> \<not> isl (fst (SendMessage lib (configured cfg ! k) (world_after lib req w (take k (configured cfg))) req))"
  shows "if k < length (configured cfg)
    then Provider_SendMessage lib p w req = SendMessage lib (configured cfg ! k) (world_after lib req w (take k (configured cfg))) req
    else isl (fst (Provider_SendMessage lib p w req)) \<and> snd (Provider_SendMessage lib p w req) = world_after lib req w (configured cfg)"
proof -
  let ?cs = "configured cfg" and ?wk = "world_after lib req w (take k (configured cfg))"
  have "\<forall>i < length (take k ?cs). isl (fst (SendMessage lib (take k ?cs ! i) (world_after lib req w (take i (take k ?cs))) req))"
    using assms(3) by (auto simp: min_def)
  from fallback_fails[OF this, of _ _ "drop k ?cs"] obtain e where
    loop: "fallback_loop lib (length ?cs) None ?cs w req = fallback_loop lib (length ?cs) e (drop k ?cs) ?wk req"
    by (metis append_take_drop_id)
  show ?thesis
  proof (cases "k < length ?cs")
    case True
    obtain resp w' where ok: "SendMessage lib (?cs ! k) ?wk req = (Inr resp, w')"
      using assms(4)[OF True] by (cases "SendMessage lib (?cs ! k) ?wk req"; cases "fst (SendMessage lib (?cs ! k) ?wk req)") auto
    have fb: "Fallback_SendMessage lib ?cs w req = (Inr resp, w')"
      using loop ok True by (simp add: Fallback_SendMessage_def Cons_nth_drop_Suc[symmetric])
    from provider_loop[OF assms(1)] show ?thesis
    proof
      assume "length ?cs \<le> 1 \<and> p = Single (hd ?cs) \<and> ?cs \<noteq> []"
      then show ?thesis using True ok by (cases ?cs) (auto simp: world_after_def)
    qed (use fb ok True in simp)
  next
    case False
    then have k: "take k ?cs = ?cs" "drop k ?cs = []" by simp_all
    have fb: "Fallback_SendMessage lib ?cs w req = (Inl (AllProvidersFailed (length ?cs) e), world_after lib req w ?cs)"
      using loop k by (simp add: Fallback_SendMessage_def)
    from provider_loop[OF assms(1)] show ?thesis
    proof
      assume "length ?cs \<le> 1 \<and> p = Single (hd ?cs) \<and> ?cs \<noteq> []"
      then show ?thesis using False assms(2,3) by (cases ?cs) (auto simp: world_after_def)
    qed (use fb False in simp)
  qed
qed

section \<open>Streams\<close>

definition terminal :: "StreamEvent \<Rightarrow> bool" where
  "terminal e = (case e of EvDone \<Rightarrow> True | EvError _ \<Rightarrow> True | _ \<Rightarrow> False)"

definition ends_once :: "StreamEvent list \<times> llm_error option \<Rightarrow> bool" where
  "ends_once r = (case r of (evs, err) \<Rightarrow> evs \<noteq> [] \<and> list_all (\<lambda>e. \<not> terminal e) (butlast evs) \<and> last evs = (case err of None \<Rightarrow> EvDone | Some e \<Rightarrow> EvError e))"

lemma ends_once_cons: "\<not> terminal e \<Longrightarrow> ends_once r \<Longrightarrow> ends_once (apfst ((#) e) r)"
  by (cases r) (auto simp: ends_once_def)

lemma stream_lines_end: "ends_once (stream_lines lib scanErr ls)"
proof (induction lib scanErr ls rule: stream_lines.induct)
  case (2 lib scanErr line ls)
  have "ends_once (apfst ((#) (EvText t)) (stream_lines lib scanErr ls))" "ends_once (apfst ((#) (EvToolUseStart b)) (stream_lines lib scanErr ls))" for t b
    using 2 by (simp_all add: ends_once_cons terminal_def)
  then show ?case using 2 by (auto simp: Let_def ends_once_def[of "([_], _)"] split: option.split)
qed (auto simp: ends_once_def split: option.split)

text \<open>
  Every stream of events, from the streaming interface or from a provider that does not stream, ends with exactly one closing event, an error event exactly when the
  call returns an error, which it carries; nothing follows it.
\<close>

theorem streams_end_once:
  "ends_once (fst (Anthropic_StreamMessage lib apiKey model baseURL w req)) \<and> ends_once (fst (NonStreaming_StreamMessage send w req))"
proof
  have failed: "ends_once (stream_failed e)" for e by (simp add: ends_once_def stream_failed_def)
  show "ends_once (fst (Anthropic_StreamMessage lib apiKey model baseURL w req))"
    unfolding Anthropic_StreamMessage_def Let_def using failed stream_lines_end by (auto split: option.split prod.split stream_reply.split)
  have "ends_once (xs @ map EvToolUseStart bs @ [EvDone], None)" if "list_all (\<lambda>e. \<not> terminal e) xs" for xs bs
    using that by (auto simp: ends_once_def terminal_def butlast_append list_all_iff)
  from this[of "if c then [EvText t] else []" for c t] show "ends_once (fst (NonStreaming_StreamMessage send w req))"
    unfolding NonStreaming_StreamMessage_def using failed by (auto simp: terminal_def split: prod.split sum.split)
qed

section \<open>Deviations\<close>

text \<open>
  Gemini answers are numbered from zero each: the call of a second answer has the identifier of the first one, and its name is sent with the result of the
  first.
\<close>

definition one_call :: "string \<Rightarrow> params \<Rightarrow> ge_response" where
  "one_call name args = \<lparr>gr_Candidates = [\<lparr>gca_Content = \<lparr>gc_Role = ''model'', gc_Parts =
     [\<lparr>gp_Text = [], gp_FunctionCall = Some (name, args), gp_FunctionResponse = None\<rparr>]\<rparr>, gca_FinishReason = ''STOP''\<rparr>], gr_Usage = None\<rparr>"

theorem gemini_result_misnamed:
  assumes "req = \<lparr>rq_SystemPrompt = [], rq_Messages =
      [assistant_message (Gemini_toResponse (one_call n1 a1)), results_message [ToolResultBlock (call_id 0) t1 e1],
       assistant_message (Gemini_toResponse (one_call n2 a2)), results_message [ToolResultBlock (call_id 0) t2 e2]], rq_MaxTokens = 0, rq_Tools = []\<rparr>"
  shows "ge_responses (Gemini_buildRequest req) = [(n2, t1), (n2, t2)]"
  unfolding ge_responses_messages tool_id_map
  by (simp add: assms result_name_def call_names_def blocks_of_def assistant_message_def results_message_def Gemini_toResponse_def one_call_def
      ToolUseBlock_def ToolResultBlock_def call_id_def Let_def)

text \<open>With repeated identifiers the decision about a pending call overwrites the result of a newer one.\<close>

theorem repeated_id_overwrites_newer:
  assumes "hist_of s c = older @ [results_message [ToolResultBlock tid pending e1]] @ mid @ [results_message [ToolResultBlock tid newer e2]]"
  shows "hist_of (snd (ReplaceToolResult s c tid new err)) c =
    older @ [results_message [ToolResultBlock tid pending e1]] @ mid @ [results_message [ToolResultBlock tid new err]]"
  using assms by (simp add: ReplaceToolResult_def hist_of_def results_message_def ToolResultBlock_def)

text \<open>
  Through the OpenAI interface an answer cut off by the token limit keeps its calls but does not count as a tool use: the agent stores the calls and executes none.
\<close>

theorem openai_calls_not_executed:
  assumes "och_ToolCalls choice \<noteq> []" "och_FinishReason choice \<in> {''length'', ''stop''}"
  shows "\<not> HasToolUse (OpenAI_toResponse dec \<lparr>oar_Choices = [choice], oar_PromptTokens = a, oar_CompletionTokens = b\<rparr>) \<and>
    ToolUseBlocks (OpenAI_toResponse dec \<lparr>oar_Choices = [choice], oar_PromptTokens = a, oar_CompletionTokens = b\<rparr>) \<noteq> []"
  using assms by (auto simp: HasToolUse_def ToolUseBlocks_def OpenAI_toResponse_def OpenAI_normalizeFinishReason_def ToolUseBlock_def TextBlock_def filter_empty_conv
      neq_Nil_conv split: if_splits)

text \<open>Streaming announces a tool call without its input, whatever the stream says.\<close>

theorem stream_drops_tool_input:
  "EvToolUseStart b \<in> set (fst (stream_lines lib scanErr ls)) \<Longrightarrow> cb_Input b = []"
  by (induction lib scanErr ls rule: stream_lines.induct)
    (auto simp: Let_def ToolUseBlock_def apfst_def split: if_splits option.splits prod.splits)

section \<open>Examples\<close>

definition demo_answer :: LLMResponse where
  "demo_answer = Gemini_toResponse (one_call ''shell'' [(''command'', AStr ''ls'')])"

definition demo_blocks :: "ContentBlock list" where
  "demo_blocks = fst (executeToolCalls (\<lambda>_. demo_env 0) (demo_input ''ann'') (demo_orc\<lparr>o_toolRegistry := None\<rparr>) (ToolUseBlocks demo_answer))"

definition demo_first :: Request where
  "demo_first = \<lparr>rq_SystemPrompt = ''s'', rq_Messages = [\<lparr>m_Role = RoleUser, m_Content = ''list'', m_ContentBlocks = []\<rparr>], rq_MaxTokens = 0, rq_Tools = []\<rparr>"

definition demo_next :: Request where
  "demo_next = demo_first\<lparr>rq_Messages := rq_Messages demo_first @ [assistant_message demo_answer, results_message demo_blocks]\<rparr>"

lemma demo_calls: "ToolUseBlocks demo_answer = [ToolUseBlock (call_id 0) ''shell'' [(''command'', AStr ''ls'')]]"
  by (simp add: demo_answer_def ToolUseBlocks_def Gemini_toResponse_def one_call_def ToolUseBlock_def Let_def)


theorem openai_calls_round_trip_witness:
  "oa_convert (\<lambda>_. ''{}'') (assistant_message (OpenAI_toResponse (\<lambda>_. []) \<lparr>oar_Choices = [\<lparr>och_Content = ''on it'', och_ToolCalls =
      [\<lparr>oac_ID = ''c1'', oac_Type = ''function'', oac_Name = ''shell'', oac_Arguments = ''{}''\<rparr>], och_FinishReason = ''tool_calls''\<rparr>],
      oar_PromptTokens = 1, oar_CompletionTokens = 2\<rparr>)) =
    [\<lparr>oam_Role = ''assistant'', oam_Content = ''on it'', oam_ToolCalls =
      [\<lparr>oac_ID = ''c1'', oac_Type = ''function'', oac_Name = ''shell'', oac_Arguments = ''{}''\<rparr>], oam_ToolCallID = []\<rparr>]"
  using openai_calls_round_trip[of "\<lambda>_. ''{}''" "\<lambda>_. []" "\<lparr>och_Content = ''on it'', och_ToolCalls =
      [\<lparr>oac_ID = ''c1'', oac_Type = ''function'', oac_Name = ''shell'', oac_Arguments = ''{}''\<rparr>], och_FinishReason = ''tool_calls''\<rparr>" "[]" 1 2]
  by simp

text \<open>The first provider is busy, the second answers; the world counts the requests.\<close>

definition demo_net :: "nat llm_lib" where
  "demo_net = \<lparr>ll_http = (\<lambda>w rq. (if HasPrefix (hq_URL rq) ''https://api'' then Reply 529 ''busy'' else Reply 200 ''ok'', Suc w)),
     ll_stream = (\<lambda>w rq. (StreamFailed ''none'', w)), ll_url = (\<lambda>u. True), ll_marshal = (\<lambda>i. ''{}''), ll_unmarshal = (\<lambda>s. []),
     ll_anMarshal = (\<lambda>r. Some []), ll_anUnmarshal = (\<lambda>s. None), ll_oaMarshal = (\<lambda>r. Some []), ll_oaUnmarshal = (\<lambda>s. None),
     ll_geMarshal = (\<lambda>r. Some []), ll_geUnmarshal = (\<lambda>s. Some (one_call ''shell'' [])), ll_event = (\<lambda>s. None)\<rparr>"

definition demo_providers :: ProvidersConfig where
  "demo_providers = \<lparr>pc_Default = ''anthropic'', pc_Fallback = [''nobody'', ''gemini'', ''openai''], pc_AnthropicKey = ''k'', pc_AnthropicModel = ''m'', pc_OpenAIKey = ''k'',
     pc_OpenAIModel = ''m'', pc_OpenAIBaseURL = [], pc_GeminiKey = ''k'', pc_GeminiModel = ''m'', pc_GeminiBaseURL = [], pc_OllamaModel = [], pc_OllamaBaseURL = []\<rparr>"

lemma demo_configured: "configured demo_providers =
    [AnthropicClient ''k'' ''m'' ''https://api.anthropic.com'', GeminiClient ''k'' ''m'' ''https://generativelanguage.googleapis.com'',
     OpenAIClient ''k'' ''m'' ''https://api.openai.com'' ''openai'']"
  by (simp add: configured_def demo_providers_def buildProvider_def)

lemmas demo_send = Anthropic_SendMessage_def Gemini_SendMessage_def post_def demo_net_def world_after_def

theorem configured_providers_tried_in_order_witness:
  "Provider_SendMessage demo_net (Fallback (configured demo_providers)) 0 demo_first = (Inr (Gemini_toResponse (one_call ''shell'' [])), 2)"
proof -
  have p: "newLLMProvider demo_providers = Inr (Fallback (configured demo_providers))"
    unfolding demo_configured by (simp add: newLLMProvider_def demo_providers_def buildProvider_def)
  have "if (1::nat) < length (configured demo_providers)
    then Provider_SendMessage demo_net (Fallback (configured demo_providers)) 0 demo_first =
      SendMessage demo_net (configured demo_providers ! 1) (world_after demo_net demo_first 0 (take 1 (configured demo_providers))) demo_first
    else isl (fst (Provider_SendMessage demo_net (Fallback (configured demo_providers)) 0 demo_first)) \<and>
      snd (Provider_SendMessage demo_net (Fallback (configured demo_providers)) 0 demo_first) = world_after demo_net demo_first 0 (configured demo_providers)"
    by (rule configured_providers_tried_in_order[OF p]) (simp_all add: demo_configured demo_send)
  then show ?thesis by (simp add: demo_configured demo_send numeral_2_eq_2)
qed

end
