(* ===== verification/SkillLoader.thy ===== *)
theory SkillLoader
  imports HeartbeatTasks Skill Policy Prompt
begin

text \<open>
  Skill definitions in Markdown files (\<^verbatim>\<open>internal/skillloader\<close>), the skill table (\<^verbatim>\<open>storage/postgres/skill_repo.go\<close>) and how loaded skills reach
  the prompt (\<^verbatim>\<open>cmd/akili/gateway.go\<close>). Directory listings, file contents (lines and whether the scanner failed after them), YAML and SHA-256 are parameters. The two
  skill stores share the contract \<open>skill_store\<close>.
\<close>

section \<open>Definitions in files\<close>

record SkillDefinition =
  sd_Name :: string
  sd_AgentRole :: string
  sd_Category :: string
  sd_ToolsRequired :: "string list"
  sd_RiskLevel :: string
  sd_DefaultBudget :: usd
  sd_Description :: string
  sd_SourceFile :: string
  sd_SkillKey :: string

record SkillManifest =
  mf_Name :: string
  mf_Version :: string
  mf_Author :: string
  mf_License :: string
  mf_Homepage :: string
  mf_Repository :: string
  mf_AgentRole :: string
  mf_Category :: string
  mf_Tags :: "string list"
  mf_ToolsRequired :: "string list"
  mf_RiskLevel :: string
  mf_DefaultBudget :: usd
  mf_ContentHash :: string
  mf_Signature :: string
  mf_SignedBy :: string
  mf_RequiredPermissions :: "string list"
  mf_RequestedPaths :: "string list"
  mf_RequestedDomains :: "string list"
  mf_MaxExecutionSeconds :: int
  mf_MaxBudgetUSD :: usd
  mf_SandboxRequired :: bool
  mf_Description :: string
  mf_SourceFile :: string
  mf_SkillKey :: string

datatype skill_error =
    FileError task_file_error
  | NameRequired
  | RoleRequired
  | InvalidRole string string
  | NoToolsRequired
  | UnknownRequiredTool string
  | InvalidRisk string
  | BadBudget usd
  | VersionRequired
  | VersionNotSemver string
  | HashMismatch string string
  | RequestDenied string string sec_error

record LoadResult =
  ld_Loaded :: nat
  ld_Errors :: "(string \<times> skill_error) list"

record sk_lib =
  sl_dir :: "string \<Rightarrow> (string \<times> bool) list option"
  sl_file :: "string \<Rightarrow> (string list \<times> bool) option"
  sl_yaml :: "string \<Rightarrow> SkillDefinition option"
  sl_manifest :: "string \<Rightarrow> SkillManifest option"
  sl_sha256 :: "string \<Rightarrow> string"
  sl_hash :: "string \<Rightarrow> string option"
  sl_abs :: "string \<Rightarrow> string option"
  sl_modTime :: "string \<Rightarrow> time"
  sl_now :: "string \<Rightarrow> time"
  sl_newID :: "string \<Rightarrow> uuid"

definition filenameStem :: "string \<Rightarrow> string" where
  "filenameStem path =
     (let base = rev (takeWhile (\<lambda>c. c \<noteq> CHR ''/'') (rev path))
      in if CHR ''.'' \<in> set base then rev (drop 1 (dropWhile (\<lambda>c. c \<noteq> CHR ''.'') (rev base))) else base)"

definition read_markdown :: "(string \<Rightarrow> (string list \<times> bool) option) \<Rightarrow> string \<Rightarrow> skill_error + string list \<times> string list" where
  "read_markdown files path =
     (case files path of
        None \<Rightarrow> Inl (FileError OpeningFile)
      | Some ([], failed) \<Rightarrow> Inl (FileError EmptyFile)
      | Some (l # lines, failed) \<Rightarrow>
          if TrimSpace l \<noteq> ''---'' then Inl (FileError MissingFrontmatter)
          else (case front_matter lines of
                  None \<Rightarrow> Inl (FileError UnclosedFrontmatter)
                | Some (fm, body) \<Rightarrow> if failed then Inl (FileError ReadingFile) else Inr (fm, body)))"

definition Skill_ParseFile :: "sk_lib \<Rightarrow> string \<Rightarrow> skill_error + SkillDefinition" where
  "Skill_ParseFile lib path =
     (case read_markdown (sl_file lib) path of
        Inl e \<Rightarrow> Inl e
      | Inr (fm, body) \<Rightarrow>
          (case sl_yaml lib (Join fm) of
             None \<Rightarrow> Inl (FileError ParsingFrontmatter)
           | Some def \<Rightarrow> Inr (def\<lparr>sd_Description := TrimSpace (Join body), sd_SourceFile := path, sd_SkillKey := filenameStem path\<rparr>)))"

definition validRiskLevels :: "string list" where
  "validRiskLevels = [''low'', ''medium'', ''high'', ''critical'']"

text \<open>The registry is the set of names of its tools; \<open>None\<close> is the nil registry.\<close>

definition Skill_Validate :: "string set option \<Rightarrow> SkillDefinition \<Rightarrow> skill_error option" where
  "Skill_Validate toolRegistry def =
     (if sd_Name def = [] then Some NameRequired
      else if sd_AgentRole def = [] then Some RoleRequired
      else case ValidateRole (sd_AgentRole def) of
             Some e \<Rightarrow> Some (InvalidRole (sd_AgentRole def) e)
           | None \<Rightarrow>
               if length (sd_ToolsRequired def) = 0 then Some NoToolsRequired
               else case (case toolRegistry of None \<Rightarrow> None | Some names \<Rightarrow> find (\<lambda>t. t \<notin> names) (sd_ToolsRequired def)) of
                      Some toolName \<Rightarrow> Some (UnknownRequiredTool toolName)
                    | None \<Rightarrow>
                        if sd_RiskLevel def \<notin> set validRiskLevels then Some (InvalidRisk (sd_RiskLevel def))
                        else if sd_DefaultBudget def \<le> 0 then Some (BadBudget (sd_DefaultBudget def))
                        else None)"

definition loaded_def :: "sk_lib \<Rightarrow> string set option \<Rightarrow> string \<Rightarrow> skill_error + SkillDefinition" where
  "loaded_def lib reg path =
     (case Skill_ParseFile lib path of
        Inl e \<Rightarrow> Inl e
      | Inr def \<Rightarrow> (case Skill_Validate reg def of Some e \<Rightarrow> Inl e | None \<Rightarrow> Inr def))"

definition md_paths :: "string \<Rightarrow> (string \<times> bool) list \<Rightarrow> string list" where
  "md_paths dir entries = map (\<lambda>(name, isDir). dir @ ''/'' @ name) (filter (\<lambda>(name, isDir). \<not> isDir \<and> HasSuffix name ''.md'') entries)"

fun load_files :: "(string \<Rightarrow> skill_error + 'd) \<Rightarrow> string list \<Rightarrow> 'd list \<times> LoadResult" where
  "load_files load [] = ([], \<lparr>ld_Loaded = 0, ld_Errors = []\<rparr>)"
| "load_files load (path # paths) =
     (let (defs, result) = load_files load paths
      in case load path of
           Inl e \<Rightarrow> (defs, result\<lparr>ld_Errors := (path, e) # ld_Errors result\<rparr>)
         | Inr def \<Rightarrow> (def # defs, result\<lparr>ld_Loaded := Suc (ld_Loaded result)\<rparr>))"

definition LoadDir :: "sk_lib \<Rightarrow> string set option \<Rightarrow> string \<Rightarrow> (SkillDefinition list \<times> LoadResult) option" where
  "LoadDir lib reg dir = map_option (\<lambda>entries. load_files (loaded_def lib reg) (md_paths dir entries)) (sl_dir lib dir)"

section \<open>Community packs\<close>

definition ValidateIntegrity :: "(string \<Rightarrow> string) \<Rightarrow> SkillManifest \<Rightarrow> string \<Rightarrow> skill_error option" where
  "ValidateIntegrity sha256 m body =
     (if mf_ContentHash m = [] then None
      else let computed = ''sha256:'' @ sha256 body;
               expected = (if HasPrefix (mf_ContentHash m) ''sha256:'' then mf_ContentHash m else ''sha256:'' @ mf_ContentHash m)
           in if computed \<noteq> expected then Some (HashMismatch (mf_ContentHash m) computed) else None)"

text \<open>The expression \<^verbatim>\<open>^(\d+)\.(\d+)\.(\d+)(-[a-zA-Z0-9.]+)?(\+[a-zA-Z0-9.]+)?$\<close>, matched from left to right.\<close>

definition is_digit :: "char \<Rightarrow> bool" where
  "is_digit c \<longleftrightarrow> (let n = (of_char c :: nat) in 48 \<le> n \<and> n \<le> 57)"

definition is_tag_char :: "char \<Rightarrow> bool" where
  "is_tag_char c \<longleftrightarrow> is_word_char c \<or> c = CHR ''.''"

definition eat_number :: "string \<Rightarrow> string option" where
  "eat_number s = (if takeWhile is_digit s = [] then None else Some (dropWhile is_digit s))"

definition eat_char :: "char \<Rightarrow> string \<Rightarrow> string option" where
  "eat_char c s = (case s of [] \<Rightarrow> None | x # xs \<Rightarrow> if x = c then Some xs else None)"

definition eat_tag :: "char \<Rightarrow> string \<Rightarrow> string option" where
  "eat_tag c s =
     (case eat_char c s of
        None \<Rightarrow> Some s
      | Some r \<Rightarrow> if takeWhile is_tag_char r = [] then None else Some (dropWhile is_tag_char r))"

definition semver_match :: "string \<Rightarrow> bool" where
  "semver_match s =
     (Option.bind (Option.bind (Option.bind (Option.bind (Option.bind (Option.bind (eat_number s) (eat_char CHR ''.'')) eat_number) (eat_char CHR ''.'')) eat_number)
        (eat_tag CHR ''-'')) (eat_tag CHR ''+'') = Some [])"

definition ValidateVersion :: "SkillManifest \<Rightarrow> skill_error option" where
  "ValidateVersion m =
     (if mf_Version m = [] then Some VersionRequired
      else if \<not> semver_match (mf_Version m) then Some (VersionNotSemver (mf_Version m)) else None)"

definition ToSkillDefinition :: "SkillManifest \<Rightarrow> SkillDefinition" where
  "ToSkillDefinition m =
     \<lparr>sd_Name = mf_Name m, sd_AgentRole = mf_AgentRole m, sd_Category = mf_Category m, sd_ToolsRequired = mf_ToolsRequired m, sd_RiskLevel = mf_RiskLevel m,
      sd_DefaultBudget = mf_DefaultBudget m, sd_Description = mf_Description m, sd_SourceFile = mf_SourceFile m, sd_SkillKey = mf_SkillKey m\<rparr>"

fun first_denied :: "(string \<Rightarrow> sec_error option) \<Rightarrow> string list \<Rightarrow> (string \<times> sec_error) option" where
  "first_denied check [] = None"
| "first_denied check (x # xs) = (case check x of Some e \<Rightarrow> Some (x, e) | None \<Rightarrow> first_denied check xs)"

definition ValidatePermissions :: "PolicyEnforcer option \<Rightarrow> string \<Rightarrow> SkillManifest \<Rightarrow> skill_error option" where
  "ValidatePermissions enforcer agentID m =
     (case enforcer of
        None \<Rightarrow> None
      | Some e \<Rightarrow>
          (case first_denied (CheckToolAllowed e agentID) (mf_ToolsRequired m) of
             Some (t, err) \<Rightarrow> Some (RequestDenied (mf_Name m) t err)
           | None \<Rightarrow>
               (case first_denied (CheckDomainAllowed e agentID) (mf_RequestedDomains m) of
                  Some (d, err) \<Rightarrow> Some (RequestDenied (mf_Name m) d err)
                | None \<Rightarrow>
                    (case first_denied (CheckPathAllowed e agentID) (mf_RequestedPaths m) of
                       Some (p, err) \<Rightarrow> Some (RequestDenied (mf_Name m) p err)
                     | None \<Rightarrow> None))))"

definition parseManifestFile :: "sk_lib \<Rightarrow> string \<Rightarrow> skill_error + SkillManifest \<times> string" where
  "parseManifestFile lib path =
     (case read_markdown (sl_file lib) path of
        Inl e \<Rightarrow> Inl e
      | Inr (fm, bodyLines) \<Rightarrow>
          (case sl_manifest lib (Join fm) of
             None \<Rightarrow> Inl (FileError ParsingFrontmatter)
           | Some m \<Rightarrow> let body = TrimSpace (Join bodyLines)
                       in Inr (m\<lparr>mf_Description := body, mf_SourceFile := path, mf_SkillKey := filenameStem path\<rparr>, body)))"

record PackLoader =
  pl_registry :: "string set option"
  pl_enforcer :: "PolicyEnforcer option"
  pl_agentID :: string

definition check_manifest :: "sk_lib \<Rightarrow> PackLoader \<Rightarrow> SkillManifest \<Rightarrow> string \<Rightarrow> skill_error option" where
  "check_manifest lib pl m body =
     (case ValidateVersion m of
        Some e \<Rightarrow> Some e
      | None \<Rightarrow>
          (case ValidateIntegrity (sl_sha256 lib) m body of
             Some e \<Rightarrow> Some e
           | None \<Rightarrow>
               (case Skill_Validate (pl_registry pl) (ToSkillDefinition m) of
                  Some e \<Rightarrow> Some e
                | None \<Rightarrow> ValidatePermissions (pl_enforcer pl) (pl_agentID pl) m)))"

definition loaded_manifest :: "sk_lib \<Rightarrow> PackLoader \<Rightarrow> string \<Rightarrow> skill_error + SkillManifest" where
  "loaded_manifest lib pl path =
     (case parseManifestFile lib path of
        Inl e \<Rightarrow> Inl e
      | Inr (m, body) \<Rightarrow> (case check_manifest lib pl m body of Some e \<Rightarrow> Inl e | None \<Rightarrow> Inr m))"

definition LoadPack :: "sk_lib \<Rightarrow> PackLoader \<Rightarrow> string \<Rightarrow> (SkillManifest list \<times> LoadResult) option" where
  "LoadPack lib pl dir = map_option (\<lambda>entries. load_files (loaded_manifest lib pl) (md_paths dir entries)) (sl_dir lib dir)"

section \<open>The skill table and seeding\<close>

definition skill_key_is :: "uuid \<Rightarrow> AgentRole \<Rightarrow> string \<Rightarrow> AgentSkill \<Rightarrow> bool" where
  "skill_key_is orgID role key s \<longleftrightarrow> sk_OrgID s = orgID \<and> sk_AgentRole s = role \<and> sk_SkillKey s = key"

definition PG_GetSkill :: "AgentSkill list \<Rightarrow> uuid \<Rightarrow> AgentRole \<Rightarrow> string \<Rightarrow> AgentSkill option" where
  "PG_GetSkill rows orgID role key = find (skill_key_is orgID role key) rows"

text \<open>The columns of the conflict clause; identifier and creation time stay.\<close>

definition skill_columns :: "AgentSkill \<Rightarrow> AgentSkill \<Rightarrow> AgentSkill" where
  "skill_columns old s = s\<lparr>sk_ID := sk_ID old, sk_OrgID := sk_OrgID old, sk_AgentRole := sk_AgentRole old, sk_SkillKey := sk_SkillKey old,
     sk_CreatedAt := sk_CreatedAt old\<rparr>"

definition PG_UpsertSkill :: "AgentSkill \<Rightarrow> AgentSkill list \<Rightarrow> bool \<times> AgentSkill list" where
  "PG_UpsertSkill s rows =
     (let same = skill_key_is (sk_OrgID s) (sk_AgentRole s) (sk_SkillKey s)
      in if list_ex same rows then (True, map (\<lambda>r. if same r then skill_columns r s else r) rows)
         else if sk_ID s \<in> sk_ID ` set rows then (False, rows) else (True, rows @ [s]))"

definition PG_ListSkillsByRole :: "(string \<Rightarrow> nat) \<Rightarrow> AgentSkill list \<Rightarrow> uuid \<Rightarrow> AgentRole \<Rightarrow> AgentSkill list" where
  "PG_ListSkillsByRole collate rows orgID role =
     sort_key (\<lambda>s. collate (sk_SkillKey s)) (filter (\<lambda>s. sk_OrgID s = orgID \<and> sk_AgentRole s = role) rows)"

record SeedResult =
  sr_Seeded :: nat
  sr_Skipped :: nat

definition seed_skill :: "uuid \<Rightarrow> time \<Rightarrow> uuid \<Rightarrow> SkillDefinition \<Rightarrow> AgentSkill" where
  "seed_skill newID now orgID def =
     \<lparr>sk_ID = newID, sk_OrgID = orgID, sk_AgentRole = sd_AgentRole def, sk_SkillKey = sd_SkillKey def, sk_SuccessCount = 0, sk_FailureCount = 0,
      sk_AvgDurationMS = 0, sk_AvgCostUSD = 0, sk_ReliabilityScore = 0, sk_MaturityLevel = SkillBasic, sk_LastUpdatedAt = now, sk_CreatedAt = now,
      sk_Name = sd_Name def, sk_Category = sd_Category def, sk_ToolsRequired = sd_ToolsRequired def, sk_RiskLevel = sd_RiskLevel def,
      sk_DefaultBudget = sd_DefaultBudget def, sk_Description = sd_Description def\<rparr>"

fun SeedSkills ::
  "('s \<Rightarrow> uuid \<Rightarrow> AgentRole \<Rightarrow> string \<Rightarrow> AgentSkill option) \<Rightarrow> (AgentSkill \<Rightarrow> 's \<Rightarrow> bool \<times> 's) \<Rightarrow> uuid \<Rightarrow> (uuid \<times> time \<times> SkillDefinition) list \<Rightarrow> 's \<Rightarrow>
     SeedResult \<times> 's" where
  "SeedSkills getSkill upsert orgID [] st = (\<lparr>sr_Seeded = 0, sr_Skipped = 0\<rparr>, st)"
| "SeedSkills getSkill upsert orgID ((newID, now, def) # defs) st =
     (case getSkill st orgID (sd_AgentRole def) (sd_SkillKey def) of
        Some s \<Rightarrow> apfst (\<lambda>r. r\<lparr>sr_Skipped := Suc (sr_Skipped r)\<rparr>) (SeedSkills getSkill upsert orgID defs st)
      | None \<Rightarrow>
          (let (ok, st') = upsert (seed_skill newID now orgID def) st
           in apfst (\<lambda>r. if ok then r\<lparr>sr_Seeded := Suc (sr_Seeded r)\<rparr> else r) (SeedSkills getSkill upsert orgID defs st')))"

section \<open>The poller\<close>

record file_state =
  fs_Hash :: string
  fs_ModTime :: time
  fs_SkillKey :: string

record 's sk_poller =
  sp_active :: "(string \<times> SkillDefinition) list"
  sp_files :: "(string \<times> file_state) list"
  sp_store :: 's
  sp_changed :: bool

text \<open>\<open>seed\<close> is the call of \<^verbatim>\<open>SeedSkills\<close> with one definition, or nothing without a store.\<close>

definition sync_skill :: "sk_lib \<Rightarrow> string set option \<Rightarrow> (uuid \<times> time \<times> SkillDefinition \<Rightarrow> 's \<Rightarrow> 's) \<Rightarrow> 's sk_poller \<Rightarrow> string \<Rightarrow> 's sk_poller" where
  "sync_skill lib reg seed p absPath =
     (case sl_hash lib absPath of
        None \<Rightarrow> p
      | Some hash \<Rightarrow>
          if map_option fs_Hash (map_of (sp_files p) absPath) = Some hash then p
          else (case loaded_def lib reg absPath of
                  Inl e \<Rightarrow> p
                | Inr def \<Rightarrow>
                    p\<lparr>sp_store := seed (sl_newID lib absPath, sl_now lib absPath, def) (sp_store p),
                      sp_files := AList.update absPath \<lparr>fs_Hash = hash, fs_ModTime = sl_modTime lib absPath, fs_SkillKey = sd_SkillKey def\<rparr> (sp_files p),
                      sp_active := AList.update (sd_SkillKey def) def (sp_active p), sp_changed := True\<rparr>))"

definition scan_paths :: "sk_lib \<Rightarrow> string list \<Rightarrow> string list" where
  "scan_paths lib dirs =
     List.map_filter (sl_abs lib) (concat (map (\<lambda>dir. case sl_dir lib dir of None \<Rightarrow> [] | Some entries \<Rightarrow> md_paths dir entries) dirs))"

definition Skill_syncAll :: "sk_lib \<Rightarrow> string set option \<Rightarrow> (uuid \<times> time \<times> SkillDefinition \<Rightarrow> 's \<Rightarrow> 's) \<Rightarrow> string list \<Rightarrow> 's sk_poller \<Rightarrow> 's sk_poller" where
  "Skill_syncAll lib reg seed dirs p =
     (let seen = scan_paths lib dirs;
          p1 = foldl (sync_skill lib reg seed) (p\<lparr>sp_changed := False\<rparr>) seen;
          gone = filter (\<lambda>f. fst f \<notin> set seen) (sp_files p1)
      in if gone = [] then p1
         else p1\<lparr>sp_files := filter (\<lambda>f. fst f \<in> set seen) (sp_files p1),
                 sp_active := filter (\<lambda>a. fst a \<notin> (\<lambda>f. fs_SkillKey (snd f)) ` set gone) (sp_active p1), sp_changed := True\<rparr>)"

definition ActiveSkills :: "'s sk_poller \<Rightarrow> SkillDefinition list" where
  "ActiveSkills p = map snd (sp_active p)"

section \<open>Skills in the prompt\<close>

definition firstSentence :: "string \<Rightarrow> string" where
  "firstSentence s0 =
     (let s = TrimSpace s0
      in case Index s ''. '' of
           Some i \<Rightarrow> take (i + 1) s
         | None \<Rightarrow> (case Index s (CHR ''.'' # newline) of
                      Some i \<Rightarrow> take (i + 1) s
                    | None \<Rightarrow> if length s > 200 then take 200 s @ ''...'' else s))"

fun join_with :: "string \<Rightarrow> string list \<Rightarrow> string" where
  "join_with sep [] = []"
| "join_with sep [x] = x"
| "join_with sep (x # y # xs) = x @ sep @ join_with sep (y # xs)"

definition summary_entry :: "SkillDefinition \<Rightarrow> string" where
  "summary_entry def =
     ''- **'' @ sd_Name def @ ''** ('' @ sd_Category def @ '', risk: '' @ sd_RiskLevel def @ ''): '' @ firstSentence (sd_Description def) @ newline @
     ''  Tools: '' @ join_with '', '' (sd_ToolsRequired def) @ newline"

definition RenderSkillSummary :: "SkillDefinition list \<Rightarrow> string" where
  "RenderSkillSummary defs =
     (if length defs = 0 then [] else ''You have the following specialized skills available:'' @ newline @ newline @ concat (map summary_entry defs))"

record SkillPerformance =
  pf_SkillKey :: string
  pf_ReliabilityScore :: rat
  pf_AvgDurationMS :: rat
  pf_MaturityLevel :: string
  pf_TotalExecutions :: int

text \<open>\<open>fmt\<close> is the format \<^verbatim>\<open>%.0f\<close>.\<close>

definition RenderSkillSummaryWithPerformance :: "(rat \<Rightarrow> string) \<Rightarrow> SkillDefinition list \<Rightarrow> (string \<rightharpoonup> SkillPerformance) \<Rightarrow> string" where
  "RenderSkillSummaryWithPerformance fmt defs perf =
     (if length defs = 0 then []
      else ''You have the following specialized skills available:'' @ newline @ newline @
        concat (map (\<lambda>def. summary_entry def @
          (case perf (sd_SkillKey def) of
             Some p \<Rightarrow> if pf_TotalExecutions p \<ge> 10
                       then ''  Performance: '' @ fmt (pf_ReliabilityScore p * 100) @ ''% reliability, avg '' @ fmt (pf_AvgDurationMS p) @ ''ms, maturity: '' @ pf_MaturityLevel p @ newline
                       else []
           | None \<Rightarrow> [])) defs))"

definition RenderSkillSummaryCompact :: "SkillDefinition list \<Rightarrow> string" where
  "RenderSkillSummaryCompact defs = (if length defs = 0 then [] else ''Available skills: '' @ join_with '', '' (map sd_Name defs) @ ''.'')"

definition defsToRunbooks :: "SkillDefinition list \<Rightarrow> Runbook list" where
  "defsToRunbooks defs = map (\<lambda>d. \<lparr>rb_Name = sd_Name d, rb_Category = sd_Category d, rb_Description = sd_Description d\<rparr>) defs"

definition onReload :: "SkillDefinition list \<Rightarrow> PromptConfig \<Rightarrow> PromptConfig" where
  "onReload defs pc =
     (let summary = RenderSkillSummary defs; compact = RenderSkillSummaryCompact defs;
          pc1 = (if summary \<noteq> [] then pc\<lparr>pc_skillSummary := summary\<rparr> else pc);
          pc2 = pc1\<lparr>pc_runbooks := defsToRunbooks defs\<rparr>
      in if compact \<noteq> [] then pc2\<lparr>pc_skillSummaryCompact := compact\<rparr> else pc2)"

text \<open>Without polling the directories are loaded one after the other.\<close>

definition load_once :: "sk_lib \<Rightarrow> string set option \<Rightarrow> string list \<Rightarrow> PromptConfig \<Rightarrow> PromptConfig" where
  "load_once lib reg dirs pc =
     foldl (\<lambda>pc dir. case LoadDir lib reg dir of
              Some (defs, result) \<Rightarrow> if length defs > 0 then onReload defs pc else pc
            | None \<Rightarrow> pc) pc dirs"

section \<open>Versions\<close>

definition number :: "string \<Rightarrow> bool" where
  "number d \<longleftrightarrow> d \<noteq> [] \<and> list_all is_digit d"

definition tag :: "char \<Rightarrow> string \<Rightarrow> bool" where
  "tag c s \<longleftrightarrow> s = [] \<or> (\<exists>t. s = c # t \<and> t \<noteq> [] \<and> list_all is_tag_char t)"

definition semver :: "string \<Rightarrow> bool" where
  "semver s \<longleftrightarrow> (\<exists>a b c pre build. s = a @ ''.'' @ b @ ''.'' @ c @ pre @ build \<and> number a \<and> number b \<and> number c \<and> tag CHR ''-'' pre \<and> tag CHR ''+'' build)"

lemma eat_numberD: "eat_number s = Some r \<Longrightarrow> \<exists>d. s = d @ r \<and> number d"
  by (rule exI[of _ "takeWhile is_digit s"]) (auto simp: eat_number_def number_def list_all_iff dest: set_takeWhileD split: if_splits)

lemma eat_charD: "eat_char c s = Some r \<Longrightarrow> s = c # r"
  by (auto simp: eat_char_def split: list.splits if_splits)

lemma eat_tagD: "eat_tag c s = Some r \<Longrightarrow> \<exists>p. s = p @ r \<and> tag c p"
proof (cases "eat_char c s")
  case (Some x)
  assume "eat_tag c s = Some r"
  then have "s = (c # takeWhile is_tag_char x) @ r" "tag c (c # takeWhile is_tag_char x)"
    using Some by (auto simp: eat_tag_def tag_def list_all_iff dest: eat_charD set_takeWhileD split: if_splits)
  then show ?thesis by blast
qed (auto simp: eat_tag_def tag_def)

lemma eat_number_app: "number d \<Longrightarrow> r = [] \<or> \<not> is_digit (hd r) \<Longrightarrow> eat_number (d @ r) = Some r"
  by (cases r) (auto simp: eat_number_def number_def list_all_iff dropWhile_append2 takeWhile_append2 takeWhile_eq_Nil_iff)

lemma eat_tag_app: "tag c p \<Longrightarrow> r = [] \<or> hd r \<noteq> c \<and> \<not> is_tag_char (hd r) \<Longrightarrow> eat_tag c (p @ r) = Some r"
  by (cases r) (auto simp: eat_tag_def eat_char_def tag_def list_all_iff dropWhile_append2 takeWhile_append2 takeWhile_eq_Nil_iff split: list.split)

lemma tag_head: "tag c p \<Longrightarrow> p = [] \<or> hd p = c"
  by (auto simp: tag_def)

lemma separators: "\<not> is_digit CHR ''.''" "\<not> is_digit CHR ''-''" "\<not> is_digit CHR ''+''" "\<not> is_tag_char CHR ''+''"
  by (simp_all add: is_digit_def is_tag_char_def is_word_char_def)

lemma eat_number_dot: "number d \<Longrightarrow> eat_number (d @ CHR ''.'' # r) = Some (CHR ''.'' # r)"
  using eat_number_app[of d "CHR ''.'' # r"] by (simp add: separators)

lemma semver_match_iff: "semver_match s \<longleftrightarrow> semver s"
proof
  assume "semver_match s"
  then show "semver s" unfolding semver_match_def semver_def
    by (auto simp: bind_eq_Some_conv dest!: eat_numberD eat_charD eat_tagD) (metis append.assoc append_Cons append_Nil)
next
  assume "semver s"
  then obtain a b c pre build where s: "s = a @ CHR ''.'' # b @ CHR ''.'' # c @ pre @ build" "number a" "number b" "number c" "tag CHR ''-'' pre" "tag CHR ''+'' build"
    by (auto simp: semver_def)
  have "eat_number (c @ pre @ build) = Some (pre @ build)"
    using tag_head[OF s(5)] tag_head[OF s(6)] by (intro eat_number_app[OF s(4)]) (auto simp: separators hd_append)
  moreover have "eat_tag CHR ''-'' (pre @ build) = Some build"
    using tag_head[OF s(6)] by (intro eat_tag_app[OF s(5)]) (auto simp: separators)
  moreover have "eat_tag CHR ''+'' build = Some []" using eat_tag_app[OF s(6), of "[]"] by simp
  ultimately show "semver_match s"
    unfolding semver_match_def s(1) by (simp add: eat_number_dot[OF s(2)] eat_number_dot[OF s(3)] eat_char_def)
qed

text \<open>
  A manifest's version is accepted exactly when it is three numbers separated by dots, followed by an optional tag after a hyphen and an optional
  tag after a plus sign: the left-to-right matcher never misses such a reading and accepts nothing else.
\<close>

theorem ValidateVersion_exact: "ValidateVersion m = None \<longleftrightarrow> semver (mf_Version m)"
proof -
  have "\<not> semver []" by (simp add: semver_def)
  then show ?thesis by (auto simp: ValidateVersion_def semver_match_iff)
qed

section \<open>Packs\<close>

lemma load_files_exact:
  assumes "load_files load paths = (ds, r)"
  shows "ld_Loaded r = length ds" "length ds + length (ld_Errors r) = length paths" "\<forall>d \<in> set ds. \<exists>p \<in> set paths. load p = Inr d"
    "\<forall>(p, e) \<in> set (ld_Errors r). p \<in> set paths \<and> load p = Inl e"
  using assms by (induction paths arbitrary: ds r) (force split: prod.splits sum.splits)+

lemma first_denied_None: "first_denied check xs = None \<longleftrightarrow> (\<forall>x \<in> set xs. check x = None)"
  by (induction xs) (auto split: option.splits)

definition permitted :: "PolicyEnforcer option \<Rightarrow> string \<Rightarrow> SkillManifest \<Rightarrow> bool" where
  "permitted enforcer agentID m = (case enforcer of None \<Rightarrow> True | Some e \<Rightarrow>
     list_all (\<lambda>t. CheckToolAllowed e agentID t = None) (mf_ToolsRequired m) \<and> list_all (\<lambda>d. CheckDomainAllowed e agentID d = None) (mf_RequestedDomains m) \<and>
     list_all (\<lambda>p. CheckPathAllowed e agentID p = None) (mf_RequestedPaths m))"

lemma ValidatePermissions_permitted: "ValidatePermissions enforcer agentID m = None \<longleftrightarrow> permitted enforcer agentID m"
  by (auto simp: ValidatePermissions_def permitted_def list_all_iff first_denied_None[symmetric] split: option.splits)

definition intact :: "(string \<Rightarrow> string) \<Rightarrow> SkillManifest \<Rightarrow> bool" where
  "intact sha256 m \<longleftrightarrow> mf_ContentHash m = [] \<or> mf_ContentHash m = ''sha256:'' @ sha256 (mf_Description m) \<or> mf_ContentHash m = sha256 (mf_Description m)"

lemma loaded_manifest_checked:
  assumes "loaded_manifest lib pl path = Inr m"
  shows "semver (mf_Version m) \<and> intact (sl_sha256 lib) m \<and> Skill_Validate (pl_registry pl) (ToSkillDefinition m) = None \<and>
    permitted (pl_enforcer pl) (pl_agentID pl) m \<and> mf_SourceFile m = path"
proof -
  obtain body where b: "parseManifestFile lib path = Inr (m, body)" "check_manifest lib pl m body = None"
    using assms by (auto simp: loaded_manifest_def split: sum.splits option.splits)
  have m: "mf_Description m = body" "mf_SourceFile m = path"
    using b(1) by (auto simp: parseManifestFile_def Let_def split: sum.splits option.splits)
  have v: "ValidateVersion m = None" and i: "ValidateIntegrity (sl_sha256 lib) m body = None"
    and s: "Skill_Validate (pl_registry pl) (ToSkillDefinition m) = None" and p: "ValidatePermissions (pl_enforcer pl) (pl_agentID pl) m = None"
    using b(2) by (auto simp: check_manifest_def split: option.splits)
  have "semver (mf_Version m)" using v by (auto simp: ValidateVersion_def semver_match_iff split: if_splits)
  moreover have "intact (sl_sha256 lib) m" using i by (auto simp: ValidateIntegrity_def intact_def m Let_def split: if_splits)
  ultimately show ?thesis using s p m by (simp add: ValidatePermissions_permitted)
qed


section \<open>Seeding\<close>

text \<open>What seeding relies on, for roles without a colon (all valid roles are).\<close>

definition plain_role :: "AgentRole \<Rightarrow> bool" where
  "plain_role role \<longleftrightarrow> CHR '':'' \<notin> set role"

locale skill_store =
  fixes getSkill :: "'s \<Rightarrow> uuid \<Rightarrow> AgentRole \<Rightarrow> string \<Rightarrow> AgentSkill option"
    and upsert :: "AgentSkill \<Rightarrow> 's \<Rightarrow> bool \<times> 's"
  assumes inserted: "\<lbrakk>getSkill st (sk_OrgID s) (sk_AgentRole s) (sk_SkillKey s) = None; upsert s st = (True, st')\<rbrakk> \<Longrightarrow>
      getSkill st' (sk_OrgID s) (sk_AgentRole s) (sk_SkillKey s) = Some s"
    and others: "\<lbrakk>plain_role role; plain_role (sk_AgentRole s); (role, key) \<noteq> (sk_AgentRole s, sk_SkillKey s)\<rbrakk> \<Longrightarrow>
      getSkill (snd (upsert s st)) (sk_OrgID s) role key = getSkill st (sk_OrgID s) role key"
    and refused: "upsert s st = (False, st') \<Longrightarrow> st' = st"
begin

lemma seed_step_keeps:
  assumes "getSkill st orgID role key = Some x" "getSkill st orgID (sd_AgentRole def) (sd_SkillKey def) = None" "plain_role role" "plain_role (sd_AgentRole def)"
  shows "getSkill (snd (upsert (seed_skill newID now orgID def) st)) orgID role key = Some x"
proof -
  have "(role, key) \<noteq> (sd_AgentRole def, sd_SkillKey def)" using assms by auto
  then show ?thesis using others[of role "seed_skill newID now orgID def" key st] assms by (simp add: seed_skill_def)
qed

lemma seed_keeps:
  "\<lbrakk>getSkill st orgID role key = Some x; plain_role role; list_all (\<lambda>(i, t, d). plain_role (sd_AgentRole d)) defs\<rbrakk> \<Longrightarrow>
     getSkill (snd (SeedSkills getSkill upsert orgID defs st)) orgID role key = Some x"
proof (induction defs arbitrary: st)
  case (Cons d defs)
  obtain newID now def where d: "d = (newID, now, def)" by (cases d)
  show ?case
  proof (cases "getSkill st orgID (sd_AgentRole def) (sd_SkillKey def)")
    case None
    have "getSkill (snd (upsert (seed_skill newID now orgID def) st)) orgID role key = Some x"
      using Cons.prems d None by (intro seed_step_keeps) auto
    with Cons None d show ?thesis by (simp add: Let_def case_prod_beta)
  qed (use Cons d in simp)
qed simp

lemma seed_new:
  "\<lbrakk>getSkill (snd (SeedSkills getSkill upsert orgID defs st)) orgID role key = Some x; plain_role role; list_all (\<lambda>(i, t, d). plain_role (sd_AgentRole d)) defs\<rbrakk> \<Longrightarrow>
     getSkill st orgID role key = Some x \<or> (\<exists>(i, t, d) \<in> set defs. x = seed_skill i t orgID d)"
proof (induction defs arbitrary: st)
  case (Cons d defs)
  obtain newID now def where d: "d = (newID, now, def)" by (cases d)
  show ?case
  proof (cases "getSkill st orgID (sd_AgentRole def) (sd_SkillKey def)")
    case None
    obtain ok st' where u: "upsert (seed_skill newID now orgID def) st = (ok, st')" by fastforce
    from Cons.IH[of st'] Cons.prems None d u
    have "getSkill st' orgID role key = Some x \<or> (\<exists>(i, t, d) \<in> set defs. x = seed_skill i t orgID d)" by simp
    moreover have "x = seed_skill newID now orgID def \<or> getSkill st orgID role key = Some x" if st': "getSkill st' orgID role key = Some x"
    proof (cases "(role, key) = (sd_AgentRole def, sd_SkillKey def)")
      case True
      with None st' u inserted[of st "seed_skill newID now orgID def" st'] refused[of "seed_skill newID now orgID def" st st'] show ?thesis
        by (cases ok) (auto simp: seed_skill_def)
    next
      case False
      with others[of role "seed_skill newID now orgID def" key st] u st' Cons.prems d show ?thesis by (auto simp: seed_skill_def)
    qed
    ultimately show ?thesis using d by auto
  qed (use Cons d in auto)
qed simp

lemma seed_count: "sr_Seeded (fst (SeedSkills getSkill upsert orgID defs st)) + sr_Skipped (fst (SeedSkills getSkill upsert orgID defs st)) \<le> length defs"
  by (induction defs arbitrary: st) (auto simp: Let_def case_prod_beta le_SucI split: option.split)

lemma seed_covers:
  "\<lbrakk>sr_Seeded (fst (SeedSkills getSkill upsert orgID defs st)) + sr_Skipped (fst (SeedSkills getSkill upsert orgID defs st)) = length defs;
    list_all (\<lambda>(i, t, d). plain_role (sd_AgentRole d)) defs\<rbrakk> \<Longrightarrow>
     list_all (\<lambda>(i, t, d). getSkill (snd (SeedSkills getSkill upsert orgID defs st)) orgID (sd_AgentRole d) (sd_SkillKey d) \<noteq> None) defs"
proof (induction defs arbitrary: st)
  case (Cons d defs)
  obtain newID now def where d: "d = (newID, now, def)" by (cases d)
  let ?s = "seed_skill newID now orgID def"
  have roles: "plain_role (sd_AgentRole def)" "list_all (\<lambda>(i, t, d). plain_role (sd_AgentRole d)) defs" using Cons.prems d by simp_all
  show ?case
  proof (cases "getSkill st orgID (sd_AgentRole def) (sd_SkillKey def)")
    case None
    obtain ok st' where u: "upsert ?s st = (ok, st')" by fastforce
    have ok: ok using Cons.prems(1) seed_count[of orgID defs st'] d None u by (auto split: if_splits)
    have "getSkill st' orgID (sd_AgentRole def) (sd_SkillKey def) = Some ?s" using inserted[of st ?s st'] None u ok by (simp add: seed_skill_def)
    from seed_keeps[OF this roles] Cons.IH[of st'] Cons.prems d None u ok roles show ?thesis by simp
  next
    case (Some x)
    from seed_keeps[OF Some roles] Cons.IH[of st] Cons.prems d Some roles show ?thesis by simp
  qed
qed simp

end

text \<open>The two stores.\<close>

definition mem_upsert :: "(uuid \<Rightarrow> string) \<Rightarrow> AgentSkill \<Rightarrow> InMemorySkillStore \<Rightarrow> bool \<times> InMemorySkillStore" where
  "mem_upsert ustr s st = (True, UpsertSkill ustr st s)"

lemma colon_prefix: "\<lbrakk>CHR '':'' \<notin> set a; CHR '':'' \<notin> set b; a @ CHR '':'' # x = b @ CHR '':'' # y\<rbrakk> \<Longrightarrow> a = b \<and> x = y"
  by (induction a arbitrary: b) (auto simp: Cons_eq_append_conv append_eq_Cons_conv)

interpretation mem_skills: skill_store "GetSkill ustr" "mem_upsert ustr" for ustr
proof unfold_locales
  fix role and s :: AgentSkill and key st
  assume "plain_role role" "plain_role (sk_AgentRole s)" "(role, key) \<noteq> (sk_AgentRole s, sk_SkillKey s)"
  then have "skillMapKey ustr (sk_OrgID s) role key \<noteq> skillMapKey ustr (sk_OrgID s) (sk_AgentRole s) (sk_SkillKey s)"
    using colon_prefix[of role "sk_AgentRole s" key "sk_SkillKey s"] by (auto simp: skillMapKey_def plain_role_def)
  then show "GetSkill ustr (snd (mem_upsert ustr s st)) (sk_OrgID s) role key = GetSkill ustr st (sk_OrgID s) role key"
    by (simp add: GetSkill_def mem_upsert_def UpsertSkill_def update_conv')
qed (auto simp: GetSkill_def mem_upsert_def UpsertSkill_def update_conv')

lemma find_snoc: "find P (xs @ [x]) = (case find P xs of None \<Rightarrow> if P x then Some x else None | Some y \<Rightarrow> Some y)"
  by (induction xs) auto

interpretation pg_skills: skill_store PG_GetSkill PG_UpsertSkill
proof unfold_locales
  fix st and s :: AgentSkill and st'
  assume "PG_GetSkill st (sk_OrgID s) (sk_AgentRole s) (sk_SkillKey s) = None" "PG_UpsertSkill s st = (True, st')"
  moreover then have "\<not> list_ex (skill_key_is (sk_OrgID s) (sk_AgentRole s) (sk_SkillKey s)) st"
    by (auto simp: PG_GetSkill_def find_None_iff list_ex_iff)
  ultimately show "PG_GetSkill st' (sk_OrgID s) (sk_AgentRole s) (sk_SkillKey s) = Some s"
    by (auto simp: PG_GetSkill_def PG_UpsertSkill_def Let_def find_snoc skill_key_is_def split: if_splits)
next
  fix role and s :: AgentSkill and key st
  assume "(role, key) \<noteq> (sk_AgentRole s, sk_SkillKey s)"
  then have no: "skill_key_is (sk_OrgID s) (sk_AgentRole s) (sk_SkillKey s) r \<Longrightarrow> \<not> skill_key_is (sk_OrgID s) role key r" for r
    by (auto simp: skill_key_is_def)
  have "find (skill_key_is (sk_OrgID s) role key) (map (\<lambda>r. if skill_key_is (sk_OrgID s) (sk_AgentRole s) (sk_SkillKey s) r then skill_columns r s else r) rows) =
      find (skill_key_is (sk_OrgID s) role key) rows" for rows
    using no by (induction rows) (auto simp: skill_columns_def skill_key_is_def)
  then show "PG_GetSkill (snd (PG_UpsertSkill s st)) (sk_OrgID s) role key = PG_GetSkill st (sk_OrgID s) role key"
    using no[of s] by (auto simp: PG_GetSkill_def PG_UpsertSkill_def Let_def find_snoc skill_key_is_def split: option.split)
qed (auto simp: PG_UpsertSkill_def Let_def split: if_splits)

lemma valid_role_plain: "ValidateRole role = None \<Longrightarrow> plain_role role"
  by (auto simp: ValidateRole_def plain_role_def split: if_splits)

lemma valid_plain_role: "Skill_Validate reg def = None \<Longrightarrow> plain_role (sd_AgentRole def)"
  by (auto simp: Skill_Validate_def split: if_splits option.splits intro: valid_role_plain)

definition seeded_ok ::
  "('s \<Rightarrow> uuid \<Rightarrow> AgentRole \<Rightarrow> string \<Rightarrow> AgentSkill option) \<Rightarrow> (AgentSkill \<Rightarrow> 's \<Rightarrow> bool \<times> 's) \<Rightarrow> uuid \<Rightarrow> (uuid \<times> time \<times> SkillDefinition) list \<Rightarrow> 's \<Rightarrow>
     AgentRole \<Rightarrow> string \<Rightarrow> bool" where
  "seeded_ok getSkill upsert orgID defs st role key \<longleftrightarrow>
     (case getSkill st orgID role key of
        Some s \<Rightarrow> getSkill (snd (SeedSkills getSkill upsert orgID defs st)) orgID role key = Some s
      | None \<Rightarrow>
          (case getSkill (snd (SeedSkills getSkill upsert orgID defs st)) orgID role key of
             None \<Rightarrow> sr_Seeded (fst (SeedSkills getSkill upsert orgID defs st)) + sr_Skipped (fst (SeedSkills getSkill upsert orgID defs st)) < length defs \<or>
               \<not> list_ex (\<lambda>(i, t, d). sd_AgentRole d = role \<and> sd_SkillKey d = key) defs
           | Some s \<Rightarrow> list_ex (\<lambda>(i, t, d). s = seed_skill i t orgID d) defs))"

context skill_store
begin

lemma seeded_ok_holds:
  assumes "list_all (\<lambda>(i, t, d). plain_role (sd_AgentRole d)) defs" "plain_role role"
  shows "seeded_ok getSkill upsert orgID defs st role key"
proof -
  let ?r = "SeedSkills getSkill upsert orgID defs st"
  have "sr_Seeded (fst ?r) + sr_Skipped (fst ?r) < length defs \<or> \<not> list_ex (\<lambda>(i, t, d). sd_AgentRole d = role \<and> sd_SkillKey d = key) defs"
    if "getSkill (snd ?r) orgID role key = None"
    using seed_covers[of orgID defs st, OF _ assms(1)] seed_count[of orgID defs st] that by (fastforce simp: list_ex_iff list_all_iff)
  then show ?thesis unfolding seeded_ok_def
    using seed_keeps[OF _ assms(2,1)] seed_new[OF _ assms(2,1)] by (fastforce simp: list_ex_iff split: option.split)
qed

end


section \<open>Scans\<close>

definition scan_inv :: "string set option \<Rightarrow> 's sk_poller \<Rightarrow> bool" where
  "scan_inv reg p \<longleftrightarrow>
     (\<forall>(path, st) \<in> set (sp_files p). fs_SkillKey st = filenameStem path) \<and>
     (\<forall>(k, d) \<in> set (sp_active p). sd_SkillKey d = k \<and> filenameStem (sd_SourceFile d) = k \<and> sd_SourceFile d \<in> fst ` set (sp_files p) \<and> Skill_Validate reg d = None)"

lemma in_update: "x \<in> set (AList.update k v al) \<Longrightarrow> x = (k, v) \<or> x \<in> set al"
  by (induction al) (auto split: if_splits)

lemma loaded_def_facts: "loaded_def lib reg path = Inr d \<Longrightarrow> sd_SkillKey d = filenameStem path \<and> sd_SourceFile d = path \<and> Skill_Validate reg d = None"
  by (auto simp: loaded_def_def Skill_ParseFile_def split: sum.splits option.splits)

lemma sync_skill_inv:
  assumes "scan_inv reg p"
  shows "scan_inv reg (sync_skill lib reg seed p path)"
proof (cases "loaded_def lib reg path")
  case (Inr d)
  note f = loaded_def_facts[OF Inr]
  show ?thesis using assms Inr f unfolding scan_inv_def sync_skill_def
    by (auto simp: dom_update split: option.split dest!: in_update)
qed (use assms in \<open>simp add: sync_skill_def split: option.split\<close>)

lemma sync_skills_inv: "scan_inv reg p \<Longrightarrow> scan_inv reg (foldl (sync_skill lib reg seed) p paths)"
  by (induction paths arbitrary: p) (auto simp: sync_skill_inv)

lemma scan_inv_remove:
  assumes "scan_inv reg q"
  shows "scan_inv reg (q\<lparr>sp_files := filter (\<lambda>f. fst f \<in> S) (sp_files q),
    sp_active := filter (\<lambda>a. fst a \<notin> (\<lambda>f. fs_SkillKey (snd f)) ` set (filter (\<lambda>f. fst f \<notin> S) (sp_files q))) (sp_active q), sp_changed := b\<rparr>)"
proof -
  have kept: "sd_SourceFile d \<in> fst ` set (filter (\<lambda>f. fst f \<in> S) (sp_files q))"
    if a: "(k, d) \<in> set (sp_active q)" and ng: "k \<notin> (\<lambda>f. fs_SkillKey (snd f)) ` set (filter (\<lambda>f. fst f \<notin> S) (sp_files q))" for k d
  proof -
    obtain st where st: "(sd_SourceFile d, st) \<in> set (sp_files q)" "filenameStem (sd_SourceFile d) = k" using assms a by (fastforce simp: scan_inv_def)
    have "fs_SkillKey st = k" using assms st by (auto simp: scan_inv_def)
    then have "sd_SourceFile d \<in> S" using ng st by force
    then show ?thesis using st by force
  qed
  have files: "\<forall>(path, st) \<in> set (filter (\<lambda>f. fst f \<in> S) (sp_files q)). fs_SkillKey st = filenameStem path" using assms by (auto simp: scan_inv_def)
  have act: "sd_SkillKey d = k \<and> filenameStem (sd_SourceFile d) = k \<and> Skill_Validate reg d = None" if "(k, d) \<in> set (sp_active q)" for k d
    using assms that by (auto simp: scan_inv_def)
  define F G where "F = filter (\<lambda>f. fst f \<in> S) (sp_files q)" and "G = (\<lambda>f. fs_SkillKey (snd f)) ` set (filter (\<lambda>f. fst f \<notin> S) (sp_files q))"
  show ?thesis using kept files act unfolding scan_inv_def F_def[symmetric] G_def[symmetric] by auto
qed

lemma Skill_syncAll_inv:
  assumes "scan_inv reg p"
  shows "scan_inv reg (Skill_syncAll lib reg seed dirs p) \<and> fst ` set (sp_files (Skill_syncAll lib reg seed dirs p)) \<subseteq> set (scan_paths lib dirs)"
proof -
  let ?p1 = "foldl (sync_skill lib reg seed) (p\<lparr>sp_changed := False\<rparr>) (scan_paths lib dirs)"
  let ?gone = "filter (\<lambda>f. fst f \<notin> set (scan_paths lib dirs)) (sp_files ?p1)"
  have inv1: "scan_inv reg ?p1" using assms by (intro sync_skills_inv) (simp add: scan_inv_def)
  show ?thesis
  proof (cases "?gone = []")
    case True
    then have "Skill_syncAll lib reg seed dirs p = ?p1" by (simp add: Skill_syncAll_def Let_def)
    moreover have "fst ` set (sp_files ?p1) \<subseteq> set (scan_paths lib dirs)" using True by (auto simp: filter_empty_conv)
    ultimately show ?thesis using inv1 by simp
  next
    case False
    let ?p2 = "?p1\<lparr>sp_files := filter (\<lambda>f. fst f \<in> set (scan_paths lib dirs)) (sp_files ?p1),
       sp_active := filter (\<lambda>a. fst a \<notin> (\<lambda>f. fs_SkillKey (snd f)) ` set ?gone) (sp_active ?p1), sp_changed := True\<rparr>"
    have p2: "Skill_syncAll lib reg seed dirs p = ?p2" using False by (simp add: Skill_syncAll_def Let_def)
    have "scan_inv reg ?p2" by (rule scan_inv_remove[OF inv1])
    then show ?thesis unfolding p2 by auto
  qed
qed

text \<open>
  (C34) After any sequence of scans, every active skill comes from a file that the last scan saw, carries the key of that file's name and is a valid
  definition: skills of removed files are not used, and a file that became invalid never brings in an unchecked definition.
\<close>

theorem active_skills_current:
  assumes "p' = foldl (\<lambda>p lib. Skill_syncAll lib reg seed dirs p) \<lparr>sp_active = [], sp_files = [], sp_store = st, sp_changed = False\<rparr> (libs @ [lib])"
    and "d \<in> set (ActiveSkills p')"
  shows "sd_SourceFile d \<in> set (scan_paths lib dirs) \<and> filenameStem (sd_SourceFile d) = sd_SkillKey d \<and> Skill_Validate reg d = None"
proof -
  have "scan_inv reg (foldl (\<lambda>p lib. Skill_syncAll lib reg seed dirs p) p libs)" if "scan_inv reg p" for p :: "'a sk_poller"
    using that by (induction libs arbitrary: p) (auto simp: Skill_syncAll_inv)
  from Skill_syncAll_inv[OF this[of "\<lparr>sp_active = [], sp_files = [], sp_store = st, sp_changed = False\<rparr>"], of lib seed dirs]
  have "scan_inv reg p' \<and> fst ` set (sp_files p') \<subseteq> set (scan_paths lib dirs)" by (simp add: assms(1) scan_inv_def)
  then show ?thesis using assms(2) by (fastforce simp: ActiveSkills_def scan_inv_def)
qed

section \<open>Deviations\<close>

definition file_settled :: "sk_lib \<Rightarrow> string set option \<Rightarrow> 's sk_poller \<Rightarrow> string \<Rightarrow> bool" where
  "file_settled lib reg p path \<longleftrightarrow>
     sl_hash lib path = None \<or> map_option fs_Hash (map_of (sp_files p) path) = sl_hash lib path \<or> isl (loaded_def lib reg path)"

lemma settled_same: "file_settled lib reg p path \<Longrightarrow> sync_skill lib reg seed p path = p"
  by (auto simp: file_settled_def sync_skill_def split: option.split sum.split)

lemma sync_settles: "file_settled lib reg (sync_skill lib reg seed p path) path"
  by (auto simp: file_settled_def sync_skill_def update_conv' split: option.split sum.split)

lemma sync_keeps_settled: "file_settled lib reg p q \<Longrightarrow> file_settled lib reg (sync_skill lib reg seed p path) q"
  by (auto simp: file_settled_def sync_skill_def update_conv' split: option.split sum.split)

lemma all_settled: "\<forall>q \<in> set paths. file_settled lib reg (foldl (sync_skill lib reg seed) p paths) q"
proof (induction paths rule: rev_induct)
  case (snoc x xs)
  then show ?case using sync_settles[of lib reg seed _ x] sync_keeps_settled[of lib reg _ _ seed x] by auto
qed simp

lemma settled_scan: "\<forall>q \<in> set paths. file_settled lib reg p q \<Longrightarrow> foldl (sync_skill lib reg seed) p paths = p"
  by (induction paths) (auto simp: settled_same)

lemma map_of_seen: "x \<in> S \<Longrightarrow> map_of (filter (\<lambda>f. fst f \<in> S) fs) x = map_of fs x"
  by (induction fs) auto

text \<open>
  A skill file that moves to another directory: the scan loads it under its new path and then removes the skill of the old path, which has the same key. The
  next scans see an unchanged file, so the skill stays away until somebody edits it.
\<close>

lemma scan_once:
  fixes p :: "'s sk_poller"
  assumes "scan_inv reg p" "old \<in> fst ` set (sp_files p)" "old \<notin> set (scan_paths lib dirs)"
    and p': "p' = Skill_syncAll lib reg seed dirs p"
  shows "filenameStem old \<notin> fst ` set (sp_active p')" "\<forall>q \<in> set (scan_paths lib dirs). file_settled lib reg p' q" "fst ` set (sp_files p') \<subseteq> set (scan_paths lib dirs)"
proof -
  let ?p1 = "foldl (sync_skill lib reg seed) (p\<lparr>sp_changed := False\<rparr>) (scan_paths lib dirs)"
  have inv1: "scan_inv reg ?p1" using assms(1) by (intro sync_skills_inv) (simp add: scan_inv_def)
  have step: "fst ` set (sp_files q) \<subseteq> fst ` set (sp_files (sync_skill lib reg seed q x))" for q :: "'s sk_poller" and x
    by (auto simp: sync_skill_def dom_update split: option.split sum.split)
  have "fst ` set (sp_files q) \<subseteq> fst ` set (sp_files (foldl (sync_skill lib reg seed) q xs))" for q :: "'s sk_poller" and xs
  proof (induction xs arbitrary: q)
    case (Cons x xs)
    from subset_trans[OF step Cons.IH] show ?case by simp
  qed simp
  from this[of "p\<lparr>sp_changed := False\<rparr>" "scan_paths lib dirs"] have "old \<in> fst ` set (sp_files ?p1)"
    using assms(2) by (metis (no_types, lifting) sk_poller.select_convs(2) sk_poller.surjective sk_poller.update_convs(4) subsetD)
  then obtain st where st: "(old, st) \<in> set (sp_files ?p1)" by (elim imageE) (metis prod.collapse)
  then have key: "fs_SkillKey st = filenameStem old" using inv1 by (auto simp: scan_inv_def)
  let ?gone = "filter (\<lambda>f. fst f \<notin> set (scan_paths lib dirs)) (sp_files ?p1)"
  have g: "(old, st) \<in> set ?gone" using st assms(3) by simp
  then have ne: "?gone \<noteq> []" by (metis empty_iff empty_set)
  have eq: "p' = ?p1\<lparr>sp_files := filter (\<lambda>f. fst f \<in> set (scan_paths lib dirs)) (sp_files ?p1),
      sp_active := filter (\<lambda>a. fst a \<notin> (\<lambda>f. fs_SkillKey (snd f)) ` set ?gone) (sp_active ?p1), sp_changed := True\<rparr>"
    unfolding p' Skill_syncAll_def Let_def using ne by (simp only: if_False)
  show "filenameStem old \<notin> fst ` set (sp_active p')" using g key unfolding eq by force
  show "\<forall>q \<in> set (scan_paths lib dirs). file_settled lib reg p' q"
    using all_settled[of "scan_paths lib dirs" lib reg seed "p\<lparr>sp_changed := False\<rparr>"] unfolding eq by (auto simp: file_settled_def map_of_seen)
  show "fst ` set (sp_files p') \<subseteq> set (scan_paths lib dirs)" unfolding eq by auto
qed

theorem moved_skill_lost:
  assumes "scan_inv reg p" "old \<in> fst ` set (sp_files p)" "old \<notin> set (scan_paths lib dirs)"
  shows "filenameStem old \<notin> fst ` set (sp_active (Skill_syncAll lib reg seed dirs (Skill_syncAll lib reg seed dirs p)))"
proof -
  define p' where "p' = Skill_syncAll lib reg seed dirs p"
  note once = scan_once[OF assms p'_def]
  have "foldl (sync_skill lib reg seed) (p'\<lparr>sp_changed := False\<rparr>) (scan_paths lib dirs) = p'\<lparr>sp_changed := False\<rparr>"
    using once(2) by (intro settled_scan) (auto simp: file_settled_def)
  moreover have "filter (\<lambda>f. fst f \<notin> set (scan_paths lib dirs)) (sp_files p') = []" using once(3) by (auto simp: filter_empty_conv)
  ultimately have "sp_active (Skill_syncAll lib reg seed dirs p') = sp_active p'" by (simp add: Skill_syncAll_def Let_def)
  then show ?thesis using once(1) p'_def by simp
qed

text \<open>Nothing depends on the signature, the permissions or the execution limits that a manifest declares.\<close>

theorem signature_not_checked:
  "check_manifest lib pl (m\<lparr>mf_Signature := sig, mf_SignedBy := who, mf_RequiredPermissions := perms, mf_MaxExecutionSeconds := secs, mf_MaxBudgetUSD := usd,
     mf_SandboxRequired := sb\<rparr>) body = check_manifest lib pl m body"
proof -
  let ?m = "m\<lparr>mf_Signature := sig, mf_SignedBy := who, mf_RequiredPermissions := perms, mf_MaxExecutionSeconds := secs, mf_MaxBudgetUSD := usd,
     mf_SandboxRequired := sb\<rparr>"
  have "ValidateVersion ?m = ValidateVersion m" by (simp add: ValidateVersion_def)
  moreover have "ValidateIntegrity (sl_sha256 lib) ?m body = ValidateIntegrity (sl_sha256 lib) m body" by (simp add: ValidateIntegrity_def Let_def)
  moreover have "ToSkillDefinition ?m = ToSkillDefinition m" by (simp add: ToSkillDefinition_def)
  moreover have "ValidatePermissions (pl_enforcer pl) (pl_agentID pl) ?m = ValidatePermissions (pl_enforcer pl) (pl_agentID pl) m"
    by (simp add: ValidatePermissions_def cong: option.case_cong)
  ultimately show ?thesis unfolding check_manifest_def by presburger
qed

text \<open>The gateway loads packs for an agent without a name, which no binding names: every request of a pack is permitted whatever the policies say.\<close>

theorem gateway_packs_unrestricted:
  assumes "pe_bindings e [] = None"
  shows "ValidatePermissions (Some e) [] m = None"
proof -
  have "ResolvePolicy e [] = None" using assms by (simp add: ResolvePolicy_def)
  then show ?thesis unfolding ValidatePermissions_permitted permitted_def
    by (simp add: CheckToolAllowed_def CheckDomainAllowed_def CheckPathAllowed_def list_all_iff)
qed

text \<open>A changed definition of a known skill does not reach the store.\<close>

theorem changed_definition_not_stored:
  assumes "getSkill st orgID (sd_AgentRole def) (sd_SkillKey def) = Some s"
  shows "snd (SeedSkills getSkill upsert orgID [(i, t, def)] st) = st"
  using assms by simp

text \<open>When the last skill is removed the prompt keeps its summary; without polling only the skills of the last directory stay.\<close>

theorem removed_skills_stay_in_prompt: "pc_skillSummary (onReload [] pc) = pc_skillSummary pc \<and> pc_runbooks (onReload [] pc) = []"
  by (simp add: onReload_def RenderSkillSummary_def RenderSkillSummaryCompact_def defsToRunbooks_def)

theorem last_directory_wins:
  assumes "LoadDir lib reg dir = Some (defs, r)" "defs \<noteq> []"
  shows "pc_runbooks (load_once lib reg (dirs @ [dir]) pc) = defsToRunbooks defs"
  using assms by (simp add: load_once_def onReload_def Let_def)

section \<open>Examples\<close>

definition demo_manifest :: SkillManifest where
  "demo_manifest = \<lparr>mf_Name = ''disk'', mf_Version = ''1.2.3-rc.1+7'', mf_Author = [], mf_License = [], mf_Homepage = [], mf_Repository = [], mf_AgentRole = ''executor'',
     mf_Category = ''ops'', mf_Tags = [], mf_ToolsRequired = [''shell''], mf_RiskLevel = ''low'', mf_DefaultBudget = 1, mf_ContentHash = ''h'', mf_Signature = [],
     mf_SignedBy = [], mf_RequiredPermissions = [], mf_RequestedPaths = [], mf_RequestedDomains = [], mf_MaxExecutionSeconds = 0, mf_MaxBudgetUSD = 0,
     mf_SandboxRequired = False, mf_Description = [], mf_SourceFile = [], mf_SkillKey = []\<rparr>"

definition demo_definition :: SkillDefinition where
  "demo_definition = ToSkillDefinition demo_manifest"

definition demo_disk :: sk_lib where
  "demo_disk = \<lparr>sl_dir = (\<lambda>d. Some [(''disk.md'', False), (''notes.txt'', False)]), sl_file = (\<lambda>p. Some ([''---'', ''---'', ''Check.''], False)),
     sl_yaml = (\<lambda>s. Some demo_definition), sl_manifest = (\<lambda>s. Some demo_manifest), sl_sha256 = (\<lambda>s. ''h''), sl_hash = (\<lambda>p. Some ''x''), sl_abs = Some,
     sl_modTime = (\<lambda>p. 0), sl_now = (\<lambda>p. 0), sl_newID = (\<lambda>p. 1)\<rparr>"

lemmas demo_skill_file = demo_disk_def demo_definition_def demo_manifest_def ToSkillDefinition_def loaded_def_def Skill_ParseFile_def read_markdown_def
  Skill_Validate_def ValidateRole_def validRiskLevels_def md_paths_def HasSuffix_def filenameStem_def

lemma demo_version: "semver_match ''1.2.3-rc.1+7''"
  by (simp add: semver_match_def eat_number_def eat_char_def eat_tag_def is_digit_def is_tag_char_def is_word_char_def)



theorem active_skills_current_witness:
  "\<exists>d p. p = Skill_syncAll demo_disk None (\<lambda>_. id) [''/skills''] \<lparr>sp_active = [], sp_files = [], sp_store = (), sp_changed = False\<rparr> \<and>
     ActiveSkills p = [d] \<and> sd_SourceFile d = ''/skills/disk.md'' \<and> sd_SkillKey d = ''disk'' \<and> sd_SourceFile d \<in> set (scan_paths demo_disk [''/skills''])"
proof -
  let ?p0 = "\<lparr>sp_active = [], sp_files = [], sp_store = (), sp_changed = False\<rparr>"
  let ?d = "demo_definition\<lparr>sd_Description := TrimSpace ''Check.'', sd_SourceFile := ''/skills/disk.md'', sd_SkillKey := ''disk''\<rparr>"
  have paths: "scan_paths demo_disk [''/skills''] = [''/skills/disk.md'']"
    by (simp add: scan_paths_def demo_disk_def md_paths_def HasSuffix_def List.map_filter_simps)
  have "loaded_def demo_disk None ''/skills/disk.md'' = Inr ?d" by (simp add: demo_skill_file TrimSpace_def is_space_def)
  then have a: "ActiveSkills (Skill_syncAll demo_disk None (\<lambda>_. id) [''/skills''] ?p0) = [?d]"
    by (simp add: Skill_syncAll_def paths sync_skill_def ActiveSkills_def) (simp add: demo_disk_def)
  from active_skills_current[of _ None "\<lambda>_. id" "[''/skills'']" "()" "[]" demo_disk ?d] a show ?thesis by auto
qed

end
