(* ===== verification/Configuration.thy ===== *)
theory Configuration
  imports Providers Sandbox CronJobs WsServer
begin

text \<open>
  The configuration (\<^verbatim>\<open>internal/config/config.go\<close>): loading with the overrides from the environment, validation, the settings with their defaults, and how
  the command line builds roles and the sandbox from it (\<^verbatim>\<open>cmd/akili/shared.go\<close>). Sections that are only handed on are left out. File access, home
  directory, path functions and the two decoders are parameters. Durations are computed in 64 bits as the program does.
\<close>

section \<open>Sections\<close>

record SQLiteStorageConfig =
  sq_Path :: string
  sq_JournalMode :: string

record PostgresStorageConfig =
  pq_DSN :: string
  pq_MaxOpenConns :: int
  pq_MaxIdleConns :: int
  pq_ConnMaxLifetimeS :: int
  pq_DefaultOrgName :: string

record StorageConfig =
  st_Driver :: string
  st_SQLite :: "SQLiteStorageConfig option"
  st_Postgres :: "PostgresStorageConfig option"

record OptimizationConfig =
  oc_LazyToolLoading :: bool
  oc_MaxRunbookMatches :: int
  oc_RunbookMatchThreshold :: rat
  oc_SkillSummaryMode :: string

record OrchestratorConfig =
  or_Enabled :: bool
  or_DefaultBudgetUSD :: usd
  or_DefaultMaxDepth :: int
  or_DefaultMaxTasks :: int
  or_MaxConcurrentTasks :: int
  or_TaskTimeoutSeconds :: int
  or_SkillsDir :: string
  or_SkillsDirs :: "string list"
  or_SkillPollIntervalSeconds :: int
  or_CommunityPacksDirs :: "string list"
  or_PlanningEnabled :: bool
  or_Recovery :: "RecoveryConfig option"

record AgentConfig =
  acf_AgentID :: string
  acf_GatewayURL :: string
  acf_Token :: string
  acf_Roles :: "string list"
  acf_PollIntervalSeconds :: int
  acf_MaxConcurrentTasks :: int
  acf_TaskTimeoutSeconds :: int
  acf_HeartbeatIntervalSeconds :: int
  acf_ReconnectIntervalSeconds :: int
  acf_StaleClaimSeconds :: int
  acf_Name :: string
  acf_Version :: string
  acf_Capabilities :: "string list"
  acf_EnvironmentScope :: string
  acf_KeyFile :: string

record RuntimeConfig =
  rt_Mode :: string
  rt_Agent :: "AgentConfig option"

record HeartbeatTasksConfig =
  hc_Enabled :: bool
  hc_TasksDirs :: "string list"
  hc_PollIntervalSeconds :: int
  hc_FilePollIntervalSeconds :: int
  hc_MaxConcurrentTasks :: int
  hc_QuickTaskTimeoutSeconds :: int
  hc_LongTaskTimeoutSeconds :: int
  hc_DefaultUserID :: string
  hc_ProactiveAlerts :: bool

record MemoryConfig =
  mc_Enabled :: bool
  mc_MaxHistoryMessages :: int
  mc_MaxMessageBytes :: int
  mc_SummarizeOnTruncate :: bool

record SignalConfig =
  sg_APIURL :: string
  sg_SenderNumber :: string

record NotificationConfig =
  nf_Enabled :: bool
  nf_WhatsApp :: "string option"
  nf_Signal :: "SignalConfig option"

record AlertingConfig =
  alc_Enabled :: bool
  alc_PollIntervalSeconds :: int
  alc_MaxConcurrentChecks :: int
  alc_DefaultCooldownS :: int

record RoleConfig =
  rlc_Permissions :: "string list"
  rlc_MaxRiskLevel :: string
  rlc_RequireApproval :: "string list"

record SecurityConfig =
  sec_DefaultPermissions :: "string list"
  sec_RequireApproval :: "string list"
  sec_AuditLogPath :: string
  sec_Roles :: "(string \<times> RoleConfig) list"
  sec_UserRoles :: "(string \<times> string) list"
  sec_DefaultRole :: string

record SandboxConfig =
  sb_Type :: string
  sb_MaxCPUCores :: int
  sb_MaxMemoryMB :: int
  sb_MaxExecutionSeconds :: int
  sb_NetworkAllowed :: bool
  sb_DockerImage :: string
  sb_DockerCPUCores :: rat
  sb_DockerPIDsLimit :: int

record MCPServerConfig =
  mcp_Name :: string
  mcp_Transport :: string
  mcp_Command :: string
  mcp_Args :: "string list"
  mcp_Env :: "(string \<times> string) list"
  mcp_URL :: string
  mcp_Headers :: "(string \<times> string) list"
  mcp_Permission :: string
  mcp_RiskLevel :: string

text \<open>Of a chat gateway only what the environment overrides.\<close>

record ChatSecrets =
  ch_Enabled :: bool
  ch_Secret :: string
  ch_Token :: string

record Config =
  c_Workspace :: string
  c_DataDir :: string
  c_AutonomousMode :: bool
  c_Storage :: "StorageConfig option"
  c_Security :: SecurityConfig
  c_BudgetLimitUSD :: usd
  c_Sandbox :: SandboxConfig
  c_MCP :: "MCPServerConfig list"
  c_Slack :: "ChatSecrets option"
  c_Telegram :: "ChatSecrets option"
  c_Signal :: "ChatSecrets option"
  c_WebSocket :: "WebSocketGatewayConfig option"
  c_Providers :: ProvidersConfig
  c_Orchestrator :: "OrchestratorConfig option"
  c_Runtime :: "RuntimeConfig option"
  c_Scheduler :: "SchedulerConfig option"
  c_Memory :: "MemoryConfig option"
  c_Notification :: "NotificationConfig option"
  c_Alerting :: "AlertingConfig option"
  c_HeartbeatTasks :: "HeartbeatTasksConfig option"
  c_Optimization :: "OptimizationConfig option"

section \<open>Settings with defaults\<close>

text \<open>\<^verbatim>\<open>time.Duration(n) * time.Second\<close>, in 64 bits.\<close>

definition seconds :: "int \<Rightarrow> duration" where
  "seconds n = sint (word_of_int (n * Second) :: 64 word)"

definition setting :: "('c \<Rightarrow> int) \<Rightarrow> 'c option \<Rightarrow> int \<Rightarrow> int" where
  "setting field c dflt = (case c of Some x \<Rightarrow> if field x > 0 then field x else dflt | None \<Rightarrow> dflt)"

definition timer :: "('c \<Rightarrow> int) \<Rightarrow> 'c option \<Rightarrow> duration \<Rightarrow> duration" where
  "timer field c dflt = (case c of Some x \<Rightarrow> if field x > 0 then seconds (field x) else dflt | None \<Rightarrow> dflt)"

definition Mode :: "Config \<Rightarrow> string" where
  "Mode c = (case c_Runtime c of Some r \<Rightarrow> if rt_Mode r \<noteq> [] then rt_Mode r else ''gateway'' | None \<Rightarrow> ''gateway'')"

definition StorageDriver :: "StorageConfig option \<Rightarrow> string" where
  "StorageDriver s = (case s of Some x \<Rightarrow> if st_Driver x \<noteq> [] then st_Driver x else ''sqlite'' | None \<Rightarrow> ''sqlite'')"

definition StorageDriverName :: "Config \<Rightarrow> string" where
  "StorageDriverName c = StorageDriver (c_Storage c)"

definition MaxRunbookMatchesOrDefault :: "OptimizationConfig option \<Rightarrow> int" where
  "MaxRunbookMatchesOrDefault c = setting oc_MaxRunbookMatches c 2"

definition RunbookThresholdOrDefault :: "OptimizationConfig option \<Rightarrow> rat" where
  "RunbookThresholdOrDefault c = (case c of Some x \<Rightarrow> if oc_RunbookMatchThreshold x > 0 then oc_RunbookMatchThreshold x else 5 / 100 | None \<Rightarrow> 5 / 100)"

definition SkillSummaryModeOrDefault :: "OptimizationConfig option \<Rightarrow> string" where
  "SkillSummaryModeOrDefault c = (case c of Some x \<Rightarrow> if oc_SkillSummaryMode x \<noteq> [] then oc_SkillSummaryMode x else ''full'' | None \<Rightarrow> ''full'')"

definition SkillPollInterval :: "OrchestratorConfig option \<Rightarrow> duration" where
  "SkillPollInterval c = timer or_SkillPollIntervalSeconds c 0"

definition AllSkillsDirs :: "OrchestratorConfig option \<Rightarrow> string list" where
  "AllSkillsDirs c = (case c of None \<Rightarrow> [] | Some x \<Rightarrow> (if or_SkillsDir x \<noteq> [] then [or_SkillsDir x] else []) @ or_SkillsDirs x)"

definition ReconnectInterval :: "AgentConfig option \<Rightarrow> duration" where
  "ReconnectInterval c = timer acf_ReconnectIntervalSeconds c (5 * Second)"

definition UseWebSocket :: "AgentConfig option \<Rightarrow> bool" where
  "UseWebSocket c = (case c of None \<Rightarrow> False | Some a \<Rightarrow> acf_GatewayURL a \<noteq> [])"

definition Agent_PollInterval :: "AgentConfig option \<Rightarrow> duration" where
  "Agent_PollInterval c = timer acf_PollIntervalSeconds c (2 * Second)"

definition Concurrency :: "AgentConfig option \<Rightarrow> int" where
  "Concurrency c = setting acf_MaxConcurrentTasks c 5"

definition Agent_TaskTimeout :: "AgentConfig option \<Rightarrow> duration" where
  "Agent_TaskTimeout c = timer acf_TaskTimeoutSeconds c (5 * Minute)"

definition Agent_HeartbeatInterval :: "AgentConfig option \<Rightarrow> duration" where
  "Agent_HeartbeatInterval c = timer acf_HeartbeatIntervalSeconds c (30 * Second)"

definition StaleClaim :: "AgentConfig option \<Rightarrow> duration" where
  "StaleClaim c = timer acf_StaleClaimSeconds c (2 * Minute)"

definition Scheduler_PollInterval :: "SchedulerConfig option \<Rightarrow> duration" where
  "Scheduler_PollInterval c = timer scf_PollIntervalSeconds c (30 * Second)"

definition Scheduler_MaxConcurrent :: "SchedulerConfig option \<Rightarrow> int" where
  "Scheduler_MaxConcurrent c = setting scf_MaxConcurrentJobs c 5"

definition Tasks_PollInterval :: "HeartbeatTasksConfig option \<Rightarrow> duration" where
  "Tasks_PollInterval c = timer hc_PollIntervalSeconds c (30 * Second)"

definition FilePollInterval :: "HeartbeatTasksConfig option \<Rightarrow> duration" where
  "FilePollInterval c = timer hc_FilePollIntervalSeconds c (60 * Second)"

definition Tasks_MaxConcurrent :: "HeartbeatTasksConfig option \<Rightarrow> int" where
  "Tasks_MaxConcurrent c = setting hc_MaxConcurrentTasks c 3"

definition QuickTaskTimeout :: "HeartbeatTasksConfig option \<Rightarrow> duration" where
  "QuickTaskTimeout c = timer hc_QuickTaskTimeoutSeconds c (60 * Second)"

definition LongTaskTimeout :: "HeartbeatTasksConfig option \<Rightarrow> duration" where
  "LongTaskTimeout c = timer hc_LongTaskTimeoutSeconds c (5 * Minute)"

definition DefaultUser :: "HeartbeatTasksConfig option \<Rightarrow> string" where
  "DefaultUser c = (case c of Some x \<Rightarrow> if hc_DefaultUserID x \<noteq> [] then hc_DefaultUserID x else ''system'' | None \<Rightarrow> ''system'')"

definition MaxHistory :: "MemoryConfig option \<Rightarrow> int" where
  "MaxHistory c = setting mc_MaxHistoryMessages c 100"

definition MaxMsgBytes :: "MemoryConfig option \<Rightarrow> int" where
  "MaxMsgBytes c = setting mc_MaxMessageBytes c 32768"

definition AlertPollInterval :: "AlertingConfig option \<Rightarrow> duration" where
  "AlertPollInterval c = timer alc_PollIntervalSeconds c (30 * Second)"

definition AlertMaxConcurrent :: "AlertingConfig option \<Rightarrow> int" where
  "AlertMaxConcurrent c = setting alc_MaxConcurrentChecks c 10"

definition AlertDefaultCooldown :: "AlertingConfig option \<Rightarrow> int" where
  "AlertDefaultCooldown c = setting alc_DefaultCooldownS c 300"

definition WSPath :: "WebSocketGatewayConfig option \<Rightarrow> string" where
  "WSPath c = (case c of Some x \<Rightarrow> if ws_Path x \<noteq> [] then ws_Path x else ''/ws/agents'' | None \<Rightarrow> ''/ws/agents'')"

definition WSTaskReassignTimeout :: "WebSocketGatewayConfig option \<Rightarrow> duration" where
  "WSTaskReassignTimeout c = timer ws_TaskReassignTimeoutSeconds c (120 * Second)"

definition CLIUserID :: "(string \<Rightarrow> string) \<Rightarrow> string option \<Rightarrow> string" where
  "CLIUserID getenv userID =
     (case userID of
        Some u \<Rightarrow> if u \<noteq> [] then u else if getenv ''AKILI_CLI_USER'' \<noteq> [] then getenv ''AKILI_CLI_USER'' else ''cli-user''
      | None \<Rightarrow> if getenv ''AKILI_CLI_USER'' \<noteq> [] then getenv ''AKILI_CLI_USER'' else ''cli-user'')"

section \<open>Validation\<close>

datatype config_error =
    ModelRequired string
  | APIKeyRequired string
  | ProviderNotSupported string
  | BudgetNotPositive
  | DefaultRoleNotFound string
  | RiskLevelRequired string
  | NegativeMemory
  | NegativeExecution
  | GatewayURLRequired
  | AgentNeedsOrchestrator
  | DriverNotSupported string
  | SchedulerNeedsOrchestrator
  | AlertingNeedsNotification
  | TasksDirsRequired
  | MCPNameRequired nat
  | MCPDuplicate nat string
  | MCPCommandRequired nat string
  | MCPURLRequired nat string string
  | MCPTransport nat string
  | ResolvingPath
  | ReadingConfig
  | ParsingConfig
  | SandboxImageRequired
  | UnknownSandbox string

definition key_and_model :: "string \<Rightarrow> string \<Rightarrow> string \<Rightarrow> config_error option" where
  "key_and_model name model key = (if model = [] then Some (ModelRequired name) else if key = [] then Some (APIKeyRequired name) else None)"

definition validateProvider :: "ProvidersConfig \<Rightarrow> config_error option" where
  "validateProvider p =
     (if pc_Default p = ''anthropic'' then key_and_model ''anthropic'' (pc_AnthropicModel p) (pc_AnthropicKey p)
      else if pc_Default p = ''openai'' then key_and_model ''openai'' (pc_OpenAIModel p) (pc_OpenAIKey p)
      else if pc_Default p = ''gemini'' then key_and_model ''gemini'' (pc_GeminiModel p) (pc_GeminiKey p)
      else if pc_Default p = ''ollama'' then (if pc_OllamaModel p = [] then Some (ModelRequired ''ollama'') else None)
      else Some (ProviderNotSupported (pc_Default p)))"

fun validate_mcp :: "nat \<Rightarrow> string list \<Rightarrow> MCPServerConfig list \<Rightarrow> config_error option" where
  "validate_mcp i seen [] = None"
| "validate_mcp i seen (srv # srvs) =
     (if mcp_Name srv = [] then Some (MCPNameRequired i)
      else if mcp_Name srv \<in> set seen then Some (MCPDuplicate i (mcp_Name srv))
      else if mcp_Transport srv = ''stdio''
      then (if mcp_Command srv = [] then Some (MCPCommandRequired i (mcp_Name srv)) else validate_mcp (Suc i) (mcp_Name srv # seen) srvs)
      else if mcp_Transport srv = ''sse'' \<or> mcp_Transport srv = ''streamable_http''
      then (if mcp_URL srv = [] then Some (MCPURLRequired i (mcp_Name srv) (mcp_Transport srv)) else validate_mcp (Suc i) (mcp_Name srv # seen) srvs)
      else Some (MCPTransport i (mcp_Name srv)))"

definition orchestrator_on :: "Config \<Rightarrow> bool" where
  "orchestrator_on c = (case c_Orchestrator c of None \<Rightarrow> False | Some x \<Rightarrow> or_Enabled x)"

definition validate_agent :: "Config \<Rightarrow> config_error option" where
  "validate_agent c =
     (case c_Runtime c of
        None \<Rightarrow> None
      | Some r \<Rightarrow>
          if rt_Mode r \<noteq> ''agent'' then None
          else if UseWebSocket (rt_Agent r)
          then (case rt_Agent r of Some a \<Rightarrow> if acf_GatewayURL a = [] then Some GatewayURLRequired else None | None \<Rightarrow> None)
          else if orchestrator_on c then None else Some AgentNeedsOrchestrator)"

text \<open>The checks in their order, each an optional error.\<close>

definition config_checks :: "Config \<Rightarrow> config_error option list" where
  "config_checks c =
     [validateProvider (c_Providers c),
      if c_BudgetLimitUSD c \<le> 0 then Some BudgetNotPositive else None,
      if sec_DefaultRole (c_Security c) \<noteq> [] \<and> map_of (sec_Roles (c_Security c)) (sec_DefaultRole (c_Security c)) = None
        then Some (DefaultRoleNotFound (sec_DefaultRole (c_Security c))) else None,
      map_option (\<lambda>(name, role). RiskLevelRequired name) (find (\<lambda>(name, role). rlc_MaxRiskLevel role = []) (sec_Roles (c_Security c))),
      if sb_MaxMemoryMB (c_Sandbox c) < 0 then Some NegativeMemory else None,
      if sb_MaxExecutionSeconds (c_Sandbox c) < 0 then Some NegativeExecution else None,
      validate_agent c,
      case c_Storage c of
        Some s \<Rightarrow> if st_Driver s \<noteq> [] \<and> st_Driver s \<notin> {''sqlite'', ''postgres''} then Some (DriverNotSupported (st_Driver s)) else None
      | None \<Rightarrow> None,
      case c_Scheduler c of Some s \<Rightarrow> if scf_Enabled s \<and> \<not> orchestrator_on c then Some SchedulerNeedsOrchestrator else None | None \<Rightarrow> None,
      case c_Alerting c of
        Some a \<Rightarrow> if alc_Enabled a \<and> \<not> (case c_Notification c of None \<Rightarrow> False | Some n \<Rightarrow> nf_Enabled n) then Some AlertingNeedsNotification else None
      | None \<Rightarrow> None,
      case c_HeartbeatTasks c of Some h \<Rightarrow> if hc_Enabled h \<and> length (hc_TasksDirs h) = 0 then Some TasksDirsRequired else None | None \<Rightarrow> None,
      validate_mcp 0 [] (c_MCP c)]"

fun first_error :: "'e option list \<Rightarrow> 'e option" where
  "first_error [] = None"
| "first_error (Some e # es) = Some e"
| "first_error (None # es) = first_error es"

definition validate :: "Config \<Rightarrow> config_error + Config" where
  "validate c0 =
     (let c = (if pc_Default (c_Providers c0) = [] then c0\<lparr>c_Providers := (c_Providers c0)\<lparr>pc_Default := ''anthropic''\<rparr>\<rparr> else c0)
      in case first_error (config_checks c) of Some e \<Rightarrow> Inl e | None \<Rightarrow> Inr c)"

section \<open>Loading\<close>

record config_env =
  ce_getenv :: "string \<Rightarrow> string"
  ce_home :: "string option"
  ce_abs :: "string \<Rightarrow> string option"
  ce_join :: "string list \<Rightarrow> string"
  ce_read :: "string \<Rightarrow> string option"
  ce_ext :: "string \<Rightarrow> string"
  ce_yaml :: "string \<Rightarrow> Config option"
  ce_json :: "string \<Rightarrow> Config option"

definition resolvePath :: "config_env \<Rightarrow> string \<Rightarrow> string option" where
  "resolvePath env path =
     (if HasPrefix path ''~/'' \<or> path = ''~''
      then Option.bind (ce_home env) (\<lambda>home. ce_abs env (ce_join env [home, drop 1 path]))
      else ce_abs env path)"

definition DefaultConfigPath :: "config_env \<Rightarrow> string" where
  "DefaultConfigPath env = (case ce_home env of None \<Rightarrow> ''configs/akili.json'' | Some home \<Rightarrow> ce_join env [home, ''.akili'', ''config.json''])"

definition override :: "config_env \<Rightarrow> string \<Rightarrow> (string \<Rightarrow> Config \<Rightarrow> Config) \<Rightarrow> Config \<Rightarrow> Config" where
  "override env var upd c = (if ce_getenv env var \<noteq> [] then upd (ce_getenv env var) c else c)"

definition chat_or_new :: "ChatSecrets option \<Rightarrow> ChatSecrets" where
  "chat_or_new s = (case s of Some x \<Rightarrow> x | None \<Rightarrow> \<lparr>ch_Enabled = False, ch_Secret = [], ch_Token = []\<rparr>)"

definition notification_or_new :: "NotificationConfig option \<Rightarrow> NotificationConfig" where
  "notification_or_new n = (case n of Some x \<Rightarrow> x | None \<Rightarrow> \<lparr>nf_Enabled = False, nf_WhatsApp = None, nf_Signal = None\<rparr>)"

definition signal_or_new :: "SignalConfig option \<Rightarrow> SignalConfig" where
  "signal_or_new s = (case s of Some x \<Rightarrow> x | None \<Rightarrow> \<lparr>sg_APIURL = [], sg_SenderNumber = []\<rparr>)"

text \<open>For Slack the secret is the signing secret, for Signal the API address is the secret and the sender's number the token.\<close>

definition apply_env :: "config_env \<Rightarrow> Config \<Rightarrow> Config" where
  "apply_env env c0 =
     (let c = override env ''ANTHROPIC_API_KEY'' (\<lambda>v c. c\<lparr>c_Providers := (c_Providers c)\<lparr>pc_AnthropicKey := v\<rparr>\<rparr>) c0;
          c = override env ''OPENAI_API_KEY'' (\<lambda>v c. c\<lparr>c_Providers := (c_Providers c)\<lparr>pc_OpenAIKey := v\<rparr>\<rparr>) c;
          c = override env ''GEMINI_API_KEY'' (\<lambda>v c. c\<lparr>c_Providers := (c_Providers c)\<lparr>pc_GeminiKey := v\<rparr>\<rparr>) c;
          c = override env ''AKILI_WORKSPACE'' (\<lambda>v c. c\<lparr>c_Workspace := v\<rparr>) c;
          c = override env ''AKILI_DATA_DIR'' (\<lambda>v c. c\<lparr>c_DataDir := v\<rparr>) c;
          c = (if ce_getenv env ''AKILI_AUTONOMOUS_MODE'' \<in> {''true'', ''1''} then c\<lparr>c_AutonomousMode := True\<rparr> else c);
          c = override env ''SLACK_SIGNING_SECRET'' (\<lambda>v c. c\<lparr>c_Slack := Some ((chat_or_new (c_Slack c))\<lparr>ch_Secret := v\<rparr>)\<rparr>) c;
          c = override env ''SLACK_BOT_TOKEN'' (\<lambda>v c. c\<lparr>c_Slack := Some ((chat_or_new (c_Slack c))\<lparr>ch_Token := v\<rparr>)\<rparr>) c;
          c = override env ''TELEGRAM_BOT_TOKEN'' (\<lambda>v c. c\<lparr>c_Telegram := Some ((chat_or_new (c_Telegram c))\<lparr>ch_Token := v\<rparr>)\<rparr>) c;
          c = override env ''WHATSAPP_ACCESS_TOKEN'' (\<lambda>v c. c\<lparr>c_Notification := Some ((notification_or_new (c_Notification c))\<lparr>nf_WhatsApp := Some v\<rparr>)\<rparr>) c;
          c = override env ''SIGNAL_API_URL'' (\<lambda>v c. let n = notification_or_new (c_Notification c)
                in c\<lparr>c_Notification := Some (n\<lparr>nf_Signal := Some ((signal_or_new (nf_Signal n))\<lparr>sg_APIURL := v\<rparr>)\<rparr>)\<rparr>) c;
          c = override env ''SIGNAL_SENDER_NUMBER'' (\<lambda>v c. case c_Notification c of
                Some n \<Rightarrow> (case nf_Signal n of Some s \<Rightarrow> c\<lparr>c_Notification := Some (n\<lparr>nf_Signal := Some (s\<lparr>sg_SenderNumber := v\<rparr>)\<rparr>)\<rparr> | None \<Rightarrow> c)
              | None \<Rightarrow> c) c;
          c = override env ''SIGNAL_GATEWAY_API_URL'' (\<lambda>v c. c\<lparr>c_Signal := Some ((chat_or_new (c_Signal c))\<lparr>ch_Secret := v\<rparr>)\<rparr>) c
      in override env ''SIGNAL_GATEWAY_SENDER_NUMBER'' (\<lambda>v c. c\<lparr>c_Signal := Some ((chat_or_new (c_Signal c))\<lparr>ch_Token := v\<rparr>)\<rparr>) c)"

definition default_data_dir :: "config_env \<Rightarrow> Config \<Rightarrow> Config" where
  "default_data_dir env c =
     (if c_DataDir c = []
      then (case ce_home env of Some home \<Rightarrow> c\<lparr>c_DataDir := ce_join env [home, ''.akili'', ''data'']\<rparr> | None \<Rightarrow> c)
      else c)"

definition Load :: "config_env \<Rightarrow> string \<Rightarrow> config_error + Config" where
  "Load env path =
     (case resolvePath env path of
        None \<Rightarrow> Inl ResolvingPath
      | Some resolved \<Rightarrow>
          (case ce_read env resolved of
             None \<Rightarrow> Inl ReadingConfig
           | Some dat \<Rightarrow>
               (case (if ToLower (ce_ext env resolved) \<in> {''.yml'', ''.yaml''} then ce_yaml env dat else ce_json env dat) of
                  None \<Rightarrow> Inl ParsingConfig
                | Some c \<Rightarrow> validate (default_data_dir env (apply_env env c)))))"

definition ResolvedDataDir :: "config_env \<Rightarrow> Config \<Rightarrow> string" where
  "ResolvedDataDir env c =
     (if c_DataDir c = []
      then (case ce_home env of None \<Rightarrow> ''data'' | Some home \<Rightarrow> ce_join env [home, ''.akili'', ''data''])
      else (case resolvePath env (c_DataDir c) of None \<Rightarrow> c_DataDir c | Some d \<Rightarrow> d))"

definition DatabasePath :: "config_env \<Rightarrow> Config \<Rightarrow> string" where
  "DatabasePath env c = ce_join env [ResolvedDataDir env c, ''akili.db'']"

definition AuditLogPath :: "config_env \<Rightarrow> Config \<Rightarrow> string" where
  "AuditLogPath env c = ce_join env [ResolvedDataDir env c, ''audit.jsonl'']"

section \<open>What the command line builds\<close>

definition buildRBACConfig :: "SecurityConfig \<Rightarrow> RBACConfig" where
  "buildRBACConfig sc =
     \<lparr>cfg_Roles = map (\<lambda>(name, rc). (name, \<lparr>role_Name = name, role_Permissions = rlc_Permissions rc, role_MaxRiskLevel = rlc_MaxRiskLevel rc,
        role_RequireApproval = rlc_RequireApproval rc\<rparr>)) (sec_Roles sc),
      cfg_UserRoles = sec_UserRoles sc, cfg_DefaultRole = sec_DefaultRole sc\<rparr>"

datatype sandbox_kind = ProcessKind ProcessSandbox | DockerKind DockerConfig

definition initSandbox :: "SandboxConfig \<Rightarrow> config_error + sandbox_kind" where
  "initSandbox sb =
     (if sb_Type sb = ''docker''
      then (if sb_DockerImage sb = [] then Inl SandboxImageRequired
            else Inr (DockerKind (NewDockerSandbox \<lparr>dk_Image = sb_DockerImage sb, dk_DefaultTimeout = seconds (sb_MaxExecutionSeconds sb), dk_MemoryMB = sb_MaxMemoryMB sb,
                   dk_CPUCores = sb_DockerCPUCores sb, dk_PIDsLimit = sb_DockerPIDsLimit sb, dk_NetworkAllowed = sb_NetworkAllowed sb\<rparr>)))
      else if sb_Type sb = ''process'' \<or> sb_Type sb = []
      then Inr (ProcessKind (NewProcessSandbox (seconds (sb_MaxExecutionSeconds sb))
             \<lparr>rl_MaxCPUSeconds = sb_MaxCPUCores sb * 60, rl_MaxMemoryMB = sb_MaxMemoryMB sb\<rparr>))
      else Inl (UnknownSandbox (sb_Type sb)))"

section \<open>What a loaded configuration guarantees\<close>

lemma first_error_None: "first_error es = None \<longleftrightarrow> list_all (\<lambda>e. e = None) es"
  by (induction es rule: first_error.induct) auto

lemma validate_mcp_None:
  "validate_mcp i seen srvs = None \<longleftrightarrow>
     distinct (map mcp_Name srvs) \<and> set (map mcp_Name srvs) \<inter> set seen = {} \<and>
     list_all (\<lambda>s. mcp_Name s \<noteq> [] \<and> (mcp_Transport s = ''stdio'' \<and> mcp_Command s \<noteq> [] \<or> mcp_Transport s \<in> {''sse'', ''streamable_http''} \<and> mcp_URL s \<noteq> [])) srvs"
  by (induction i seen srvs rule: validate_mcp.induct) auto

definition client_ready :: "Client \<Rightarrow> bool" where
  "client_ready c =
     (case c of
        AnthropicClient key model url \<Rightarrow> key \<noteq> [] \<and> model \<noteq> [] \<and> url \<noteq> []
      | OpenAIClient key model url name \<Rightarrow> (key \<noteq> [] \<or> name = ''ollama'') \<and> model \<noteq> [] \<and> url \<noteq> []
      | GeminiClient key model url \<Rightarrow> key \<noteq> [] \<and> model \<noteq> [] \<and> url \<noteq> [])"

lemma validated_provider:
  assumes "validateProvider p = None"
  shows "\<exists>c pr. buildProvider (pc_Default p) p = Inr c \<and> client_ready c \<and> newLLMProvider p = Inr pr \<and> hd (configured p) = c"
proof -
  have "\<exists>c. buildProvider (pc_Default p) p = Inr c \<and> client_ready c"
    using assms by (auto simp: validateProvider_def key_and_model_def buildProvider_def client_ready_def split: if_splits)
  then obtain c where c: "buildProvider (pc_Default p) p = Inr c" "client_ready c" by blast
  then have "\<exists>pr. newLLMProvider p = Inr pr" "hd (configured p) = c" by (auto simp: newLLMProvider_def configured_def Let_def)
  with c show ?thesis by blast
qed

lemma built_roles: "cfg_UserRoles (buildRBACConfig sc) = sec_UserRoles sc" "cfg_DefaultRole (buildRBACConfig sc) = sec_DefaultRole sc"
  by (simp_all add: buildRBACConfig_def)

lemma map_of_roles: "map_of (cfg_Roles (buildRBACConfig sc)) n = map_option (\<lambda>rc. \<lparr>role_Name = n, role_Permissions = rlc_Permissions rc,
    role_MaxRiskLevel = rlc_MaxRiskLevel rc, role_RequireApproval = rlc_RequireApproval rc\<rparr>) (map_of (sec_Roles sc) n)"
proof -
  have "map_of (map (\<lambda>(name, rc). (name, f name rc)) xs) n = map_option (f n) (map_of xs n)" for f :: "string \<Rightarrow> RoleConfig \<Rightarrow> Role" and xs
    by (induction xs) auto
  then show ?thesis by (simp add: buildRBACConfig_def)
qed


section \<open>Timers\<close>

lemma seconds_exact:
  assumes "0 \<le> n" "n \<le> 9223372036"
  shows "seconds n = n * Second"
  unfolding seconds_def sint_sbintrunc' using assms by (simp add: signed_take_bit_int_eq_self)

lemma timer_pos:
  assumes "\<forall>x. c = Some x \<longrightarrow> field x \<le> 9223372036" "0 < dflt"
  shows "0 < timer field c dflt"
  using assms seconds_exact by (auto simp: timer_def split: option.split)

lemma setting_pos: "0 < dflt \<Longrightarrow> 0 < setting field c dflt"
  by (auto simp: setting_def split: option.split)

definition agent_of :: "Config \<Rightarrow> AgentConfig option" where
  "agent_of c = Option.bind (c_Runtime c) rt_Agent"

definition timers :: "Config \<Rightarrow> duration list" where
  "timers c = [ReconnectInterval (agent_of c), Agent_PollInterval (agent_of c), Agent_TaskTimeout (agent_of c), Agent_HeartbeatInterval (agent_of c),
     StaleClaim (agent_of c), Scheduler_PollInterval (c_Scheduler c), Tasks_PollInterval (c_HeartbeatTasks c), FilePollInterval (c_HeartbeatTasks c),
     QuickTaskTimeout (c_HeartbeatTasks c), LongTaskTimeout (c_HeartbeatTasks c), AlertPollInterval (c_Alerting c), WSTaskReassignTimeout (c_WebSocket c)]"

definition limits :: "Config \<Rightarrow> int list" where
  "limits c = [Concurrency (agent_of c), Scheduler_MaxConcurrent (c_Scheduler c), Tasks_MaxConcurrent (c_HeartbeatTasks c), MaxHistory (c_Memory c), MaxMsgBytes (c_Memory c),
     AlertMaxConcurrent (c_Alerting c), AlertDefaultCooldown (c_Alerting c), MaxRunbookMatchesOrDefault (c_Optimization c)]"

definition given :: "('c \<Rightarrow> int) list \<Rightarrow> 'c option \<Rightarrow> int list" where
  "given fs c = (case c of None \<Rightarrow> [] | Some x \<Rightarrow> map (\<lambda>f. f x) fs)"

definition timer_numbers :: "Config \<Rightarrow> int list" where
  "timer_numbers c =
     given [acf_ReconnectIntervalSeconds, acf_PollIntervalSeconds, acf_TaskTimeoutSeconds, acf_HeartbeatIntervalSeconds, acf_StaleClaimSeconds] (agent_of c) @
     given [scf_PollIntervalSeconds] (c_Scheduler c) @
     given [hc_PollIntervalSeconds, hc_FilePollIntervalSeconds, hc_QuickTaskTimeoutSeconds, hc_LongTaskTimeoutSeconds] (c_HeartbeatTasks c) @
     given [alc_PollIntervalSeconds] (c_Alerting c) @ given [ws_TaskReassignTimeoutSeconds] (c_WebSocket c)"


section \<open>Deviations\<close>

text \<open>A larger number of seconds overflows: the interval is negative, and creating the ticker panics.\<close>

theorem large_interval_negative: "Tasks_PollInterval (Some (h\<lparr>hc_PollIntervalSeconds := 9223372037\<rparr>)) < 0"
  by (simp add: Tasks_PollInterval_def timer_def seconds_def)

text \<open>The check that an agent in WebSocket mode has an address never fires: without an address the agent is not in this mode.\<close>

theorem gateway_url_check_dead: "validate c \<noteq> Inl GatewayURLRequired"
proof -
  have key: "first_error es = Some e \<Longrightarrow> Some e \<in> set es" for es and e :: config_error by (induction es rule: first_error.induct) auto
  have mcp: "validate_mcp i seen srvs \<noteq> Some GatewayURLRequired" for i seen srvs
    by (induction i seen srvs rule: validate_mcp.induct) auto
  have prov: "validateProvider p \<noteq> Some GatewayURLRequired" for p by (simp add: validateProvider_def key_and_model_def)
  have ag: "validate_agent c \<noteq> Some GatewayURLRequired" for c by (auto simp: validate_agent_def UseWebSocket_def split: option.split)
  have "list_all (\<lambda>e. e \<noteq> Some GatewayURLRequired) (config_checks c)" for c
    unfolding config_checks_def list.pred_inject
    by (intro conjI TrueI prov ag mcp) (simp_all split: option.split)
  then have "first_error (config_checks c) \<noteq> Some GatewayURLRequired" for c
    using key[of "config_checks c" GatewayURLRequired] unfolding list_all_iff by blast
  then show ?thesis by (auto simp: validate_def Let_def split: option.splits if_splits)
qed

text \<open>A misspelt sandbox type passes validation and stops the start.\<close>

theorem sandbox_type_not_validated:
  assumes "ty \<notin> {''docker'', ''process'', []}"
  shows "config_checks (c\<lparr>c_Sandbox := (c_Sandbox c)\<lparr>sb_Type := ty\<rparr>\<rparr>) = config_checks c \<and> initSandbox ((c_Sandbox c)\<lparr>sb_Type := ty\<rparr>) = Inl (UnknownSandbox ty)"
  using assms by (simp add: config_checks_def validate_agent_def orchestrator_on_def initSandbox_def cong: option.case_cong)

section \<open>Examples\<close>

definition demo_config :: Config where
  "demo_config = \<lparr>c_Workspace = [], c_DataDir = ''/data'', c_AutonomousMode = False, c_Storage = None,
     c_Security = \<lparr>sec_DefaultPermissions = [], sec_RequireApproval = [], sec_AuditLogPath = [],
       sec_Roles = [(''viewer'', \<lparr>rlc_Permissions = [''read_files''], rlc_MaxRiskLevel = ''low'', rlc_RequireApproval = []\<rparr>)], sec_UserRoles = [], sec_DefaultRole = ''viewer''\<rparr>,
     c_BudgetLimitUSD = 10, c_Sandbox = \<lparr>sb_Type = [], sb_MaxCPUCores = 1, sb_MaxMemoryMB = 0, sb_MaxExecutionSeconds = 0, sb_NetworkAllowed = False, sb_DockerImage = [],
       sb_DockerCPUCores = 0, sb_DockerPIDsLimit = 0\<rparr>, c_MCP = [], c_Slack = None, c_Telegram = None, c_Signal = None, c_WebSocket = None,
     c_Providers = demo_providers\<lparr>pc_Default := [], pc_AnthropicKey := []\<rparr>, c_Orchestrator = None, c_Runtime = None, c_Scheduler = None, c_Memory = None,
     c_Notification = None, c_Alerting = Some \<lparr>alc_Enabled = False, alc_PollIntervalSeconds = - 5, alc_MaxConcurrentChecks = 0, alc_DefaultCooldownS = 60\<rparr>,
     c_HeartbeatTasks = None, c_Optimization = None\<rparr>"

definition demo_cenv :: config_env where
  "demo_cenv = \<lparr>ce_getenv = (\<lambda>v. if v = ''ANTHROPIC_API_KEY'' then ''secret'' else []), ce_home = None, ce_abs = Some, ce_join = concat, ce_read = (\<lambda>p. Some []),
     ce_ext = (\<lambda>p. ''.yaml''), ce_yaml = (\<lambda>d. Some demo_config), ce_json = (\<lambda>d. None)\<rparr>"

definition demo_loaded :: Config where
  "demo_loaded = demo_config\<lparr>c_Providers := demo_providers\<lparr>pc_Default := ''anthropic'', pc_AnthropicKey := ''secret''\<rparr>\<rparr>"

lemma demo_load: "Load demo_cenv ''/akili.yaml'' = Inr demo_loaded"
  by (simp add: Load_def resolvePath_def demo_cenv_def ToLower_def lower_char_def apply_env_def override_def default_data_dir_def demo_config_def demo_loaded_def
      demo_providers_def validate_def config_checks_def validateProvider_def key_and_model_def validate_agent_def Let_def)



end
