(* ===== verification/Spec2Isabelle.thy ===== *)
theory Spec2Isabelle
  imports Policy Budget Approval RateLimit AutoApproval Dag PipelineRuns AgentLoop SchedulerTheorems
    WsServerRuns Routing WorkflowRepo Alerting RoleAgents FileTool WebTool Sandbox Infra HttpApiRuns ChatGateways
    HeartbeatTasks ConversationRepo Providers SkillLoader Configuration
begin

text \<open>
  \<^bold>\<open>Akili: an agent gateway with default-deny security and multi-agent workflows.\<close>

  A user's message reaches an agent (\<^verbatim>\<open>internal/agent\<close>), which alternates between a language model and
  tools; every tool call passes a pipeline of policy, role, approval and budget checks
  (\<^verbatim>\<open>internal/security\<close>, \<^verbatim>\<open>internal/approval\<close>) and is audited. Larger goals become workflows
  (\<^verbatim>\<open>internal/orchestrator\<close>): a planner task produces a graph of tasks which a scheduler
  runs, with diagnostician tasks deciding about failed ones. State is kept in memory or in PostgreSQL
  (\<^verbatim>\<open>internal/storage/postgres\<close>).

  \<^bold>\<open>Theories and what they model.\<close>
  \<^item> \<open>Prelude\<close>: time, identifiers (128-bit words), strings and the generic lemmas; money and other
    \<^verbatim>\<open>float64\<close> quantities are rationals.
  \<^item> \<open>Security\<close> (\<^verbatim>\<open>security.go\<close>, \<^verbatim>\<open>audit.go\<close>, \<^verbatim>\<open>rbac.go\<close>, \<^verbatim>\<open>pg_rbac.go\<close>), \<open>Policy\<close> (\<^verbatim>\<open>policy.go\<close>), \<open>Budget\<close>
    (\<^verbatim>\<open>budget.go\<close>, \<^verbatim>\<open>pg_budget.go\<close>, \<^verbatim>\<open>budget_repo.go\<close>, \<^verbatim>\<open>user_repo.go\<close>), \<open>RateLimit\<close> (\<^verbatim>\<open>ratelimit.go\<close>),
    \<open>Approval\<close> (\<^verbatim>\<open>approval.go\<close>, \<^verbatim>\<open>dbmanager.go\<close>, \<^verbatim>\<open>approval_repo.go\<close>), \<open>AutoApproval\<close> (\<^verbatim>\<open>auto.go\<close>): the
    building blocks of the pipeline, each with its state as a record and its methods as functions.
  \<^item> \<open>Tools\<close> (\<^verbatim>\<open>llm/provider.go\<close>, \<^verbatim>\<open>tools/tools.go\<close>), \<open>Conversation\<close> (\<^verbatim>\<open>memory_conversation.go\<close>,
    \<^verbatim>\<open>summarizer.go\<close>, \<^verbatim>\<open>token_budget.go\<close>), \<open>Prompt\<close> (\<^verbatim>\<open>planner.go\<close>, \<^verbatim>\<open>runbook_match.go\<close> and the prompt parts of
    \<^verbatim>\<open>orchestrator.go\<close>), \<open>Pipeline\<close> and \<open>PipelineRuns\<close> (\<^verbatim>\<open>ExecuteTool\<close>, \<^verbatim>\<open>ResumeWithApproval\<close> of
    \<^verbatim>\<open>agent/orchestrator.go\<close>), \<open>AgentLoop\<close> (\<^verbatim>\<open>Process\<close>).
  \<^item> \<open>WorkflowTypes\<close> (\<^verbatim>\<open>types.go\<close>), \<open>Dag\<close> (\<^verbatim>\<open>dag.go\<close>), \<open>WorkflowStore\<close> (\<^verbatim>\<open>memory_store.go\<close>), \<open>Skill\<close> (\<^verbatim>\<open>skill.go\<close>),
    \<open>Scheduler\<close> (\<^verbatim>\<open>scheduler.go\<close>, \<^verbatim>\<open>task_executor.go\<close>, \<^verbatim>\<open>recovery.go\<close>, \<^verbatim>\<open>Submit\<close> of \<^verbatim>\<open>engine.go\<close>); \<open>TaskMachine\<close> is the
    abstract specification of the life of a task, \<open>SchedulerRuns\<close> the proof that the scheduler refines
    it, \<open>SchedulerTheorems\<close> what follows for every run.

  \<^item> \<open>RoleAgents\<close> (\<^verbatim>\<open>orchestrator/factory.go\<close>, \<^verbatim>\<open>role_agent.go\<close>, \<^verbatim>\<open>prompts.go\<close>): the agents of workflow tasks, built on
    \<open>AgentLoop\<close>; \<open>Routing\<close> (\<^verbatim>\<open>routing_agent.go\<close>): the choice between them and a remote agent.
  \<^item> \<open>Fleet\<close> (\<^verbatim>\<open>gateway/ws/registry.go\<close>, \<^verbatim>\<open>tracker.go\<close>): connected agents and dispatched tasks; \<open>WsServer\<close>
    (\<^verbatim>\<open>gateway/ws/server.go\<close>): the server's handlers as atomic events; \<open>WsServerRuns\<close>: what holds in every run.
  \<^item> \<open>WorkflowRepo\<close> (\<^verbatim>\<open>storage/postgres/workflow_repo.go\<close>, \<^verbatim>\<open>convert_workflow.go\<close>): the tables behind workflows, with the claiming of
    tasks by headless agents as interleaved statements; \<open>AgentPoller\<close> (\<^verbatim>\<open>agent_poller.go\<close>, the rest of \<^verbatim>\<open>engine.go\<close>): the loop
    of such an agent, its slots and how it finishes workflows.
  \<^item> \<open>Notification\<close> (\<^verbatim>\<open>internal/notification\<close>), \<open>CronJobs\<close> (\<^verbatim>\<open>internal/scheduler\<close>), \<open>Alerting\<close> (\<^verbatim>\<open>internal/alerting\<close>): the
    background services with their repositories; \<open>HeartbeatTasks\<close> (\<^verbatim>\<open>internal/heartbeattask\<close>): task files, the table that follows them and the runner.
  \<^item> \<open>Providers\<close> (\<^verbatim>\<open>internal/llm\<close>): the three language model interfaces, which share the contract \<open>llm_client\<close>, fallback and streaming;
    \<open>SkillLoader\<close> (\<^verbatim>\<open>internal/skillloader\<close>, \<^verbatim>\<open>skill_repo.go\<close>): skill files, community packs and the two skill stores (contract \<open>skill_store\<close>);
    \<open>Configuration\<close> (\<^verbatim>\<open>internal/config\<close>): loading, validation and the settings with their defaults.
  \<^item> \<open>ConversationRepo\<close> (\<^verbatim>\<open>storage/postgres/conversation_repo.go\<close>): the conversation tables, which refine the in-memory store of
    \<open>Conversation\<close>.
  \<^item> \<open>ToolParams\<close>, \<open>NetAddress\<close>: parameters of tool calls, addresses; \<open>FileTool\<close> (\<^verbatim>\<open>tools/file\<close>), \<open>WebTool\<close> (\<^verbatim>\<open>tools/web\<close>),
    \<open>Sandbox\<close> (\<^verbatim>\<open>internal/sandbox\<close>, \<^verbatim>\<open>tools/shell\<close>, \<^verbatim>\<open>tools/git\<close>, \<^verbatim>\<open>tools/code\<close>), \<open>Infra\<close> (\<^verbatim>\<open>internal/infra\<close>,
    \<^verbatim>\<open>internal/secrets\<close>, \<^verbatim>\<open>tools/infra\<close>): the tools that the pipeline executes.
  \<^item> \<open>HttpApi\<close> (\<^verbatim>\<open>internal/gateway/httpapi\<close>): authentication, routes and handlers over the agent, the engine and the repositories;
    \<open>HttpApiRuns\<close>: what sequences of calls do. \<open>MessageText\<close>: splitting of messages and conversion of Markdown; \<open>ChatGateways\<close>
    (\<^verbatim>\<open>gateway/telegram\<close>, \<^verbatim>\<open>gateway/slack\<close>, \<^verbatim>\<open>gateway/signal\<close>): the three chats, which share the contract \<open>chat_gateway\<close>.

  \<^bold>\<open>What the theorems show.\<close> Complete mediation, audit and approval provenance of tool executions; exactness of
  the permission and policy decisions; bounds on spending, rates and automatic approvals; exact
  plan validation; that runs of the scheduler respect dependencies, retry and depth bounds and never
  touch a completed task; what a conversation stores; that roles are confined to their tools; that tasks sent to remote agents
  are not lost and tasks in the database are claimed by one agent only; that due jobs advance and
  alerts are recorded; that file and web tools stay within their lists, outputs within their limits, and credentials hidden;
  that nobody without a key, a signature or a mapped account gets anything done through a gateway, and that what is created or approved
  there carries the name of the caller; that conversations reach every provider as the agent built them and come back unchanged from the database; that
  skills come from checked files; that a loaded configuration can be run; that message splitting ends and loses nothing, and that answers become well-formed HTML.
  Theorems without a claim number record behaviours that contradict a comment or the evident intent.

  \<^bold>\<open>Modelling conventions.\<close> A Go map whose iteration order matters is an association list, otherwise a function
  to options. Errors are values of a datatype; their texts are a parameter. Clock readings, fresh
  identifiers, the language model, tools, JSON codecs, hash functions and the order in which concurrent
  results arrive are parameters. A method under a mutex is one atomic step; where the code uses two
  critical sections they are two steps. A SQL table is a list of rows, a statement or a transaction one step. Loops are recursive
  functions; the scheduling loop, which may wait
  forever, takes the number of rounds and its theorems hold for every number; the agent loop is
  bounded by the code's own iteration limit, redirects by the code's limit of five, symbolic links by the limits of the
  standard library (255) and the kernel (40). The loops that split messages are partial functions, proved to end for the limits used.

  \<^bold>\<open>Not modelled.\<close> Logging, metrics and tracing (no effect on the state); the network connections of gateways, senders and
  language model providers (input and output); processes, containers and the browser (operating system effects; their
  results enter as parameters); the wiring of the components in the command line.
\<close>

section \<open>The two address filters\<close>

text \<open>Alert checks and web tools filter addresses by two different functions, which agree.\<close>

theorem address_filters_agree: "internal_ip ip = IsPrivateIP ip"
  by (cases ip) (auto simp: internal_ip_def IsPrivateIP_def ula_prefix)

end
